(* ===== verification/Prelude.thy ===== *)
theory Prelude
  imports Main "HOL-Library.Char_ord" "HOL-Library.List_Lexorder"
begin

text \<open>
  Shared vocabulary of the development: Rust's \<open>Result\<close> and the server's \<open>AppError\<close>,
  64-bit arithmetic, and the part of Rust's \<open>str\<close> library that the components use.

  A Rust \<open>str\<close> is a sequence of UTF-8 bytes; here it is the \<^typ>\<open>string\<close> of those bytes,
  one \<^typ>\<open>char\<close> per byte, so \<open>str::len\<close> is \<^const>\<open>length\<close>, byte-wise comparison (Rust's
  \<open>Ord\<close> for \<open>str\<close> and SQLite's BINARY collation) is the lexicographic order of
  \<open>List_Lexorder\<close> over \<open>Char_ord\<close>, and a multi-byte character is matched by its encoding.
\<close>

section \<open>Collections of facts\<close>

named_theorems result_simps \<open>rewrites for results and their sequencing\<close>
named_theorems str_simps \<open>definitions of the string predicates, for evaluation\<close>

section \<open>Results and errors\<close>

text \<open>\<open>AppError\<close> of src/src/error.rs: every constructor, with its message.\<close>

datatype AppError =
    Validation string
  | Unauthorized string
  | Forbidden string
  | NotFound string
  | ConcealedNotFound
  | Conflict string
  | Gone string
  | PayloadTooLarge
  | RateLimited
  | Unavailable string
  | Internal

text \<open>\<open>AppError::http_status\<close>: the status code every route group shares.\<close>

fun http_status :: "AppError \<Rightarrow> nat" where
  "http_status (Validation _) = 400"
| "http_status (Unauthorized _) = 401"
| "http_status (Forbidden _) = 403"
| "http_status (NotFound _) = 404"
| "http_status ConcealedNotFound = 404"
| "http_status (Conflict _) = 409"
| "http_status (Gone _) = 410"
| "http_status PayloadTooLarge = 413"
| "http_status RateLimited = 429"
| "http_status (Unavailable _) = 503"
| "http_status Internal = 500"

type_synonym 'a result = "AppError + 'a"

text \<open>The \<open>?\<close> operator: stop at the first error.\<close>

definition try_bind :: "'e + 'a \<Rightarrow> ('a \<Rightarrow> 'e + 'b) \<Rightarrow> 'e + 'b" where
  "try_bind r f = (case r of Inl e \<Rightarrow> Inl e | Inr x \<Rightarrow> f x)"

text \<open>Unfolded for evaluation, so that the continuation waits for the result.\<close>

declare try_bind_def [code_unfold]

lemma try_bind_simps [simp, result_simps]:
  "try_bind (Inl e) f = Inl e"
  "try_bind (Inr x) f = f x"
  by (simp_all add: try_bind_def)

lemma try_bind_Inr_iff [result_simps]:
  "try_bind r f = Inr y \<longleftrightarrow> (\<exists>x. r = Inr x \<and> f x = Inr y)"
  by (cases r) auto

lemma try_bind_Inl_iff [result_simps]:
  "try_bind r f = Inl e \<longleftrightarrow> r = Inl e \<or> (\<exists>x. r = Inr x \<and> f x = Inl e)"
  by (cases r) auto

text \<open>\<open>if guard \<open>{\<close> return Err(e) \<open>}\<close>\<close> as a unit step.\<close>

definition ensure :: "bool \<Rightarrow> 'e \<Rightarrow> 'e + unit" where
  "ensure b e = (if b then Inr () else Inl e)"

lemma ensure_simps [simp, result_simps]:
  "ensure True e = Inr ()"
  "ensure False e = Inl e"
  by (simp_all add: ensure_def)

lemma ensure_Inr_iff [result_simps]: "ensure b e = Inr u \<longleftrightarrow> b"
  by (simp add: ensure_def)

lemma ensure_Inl_iff [result_simps]: "ensure b e = Inl e' \<longleftrightarrow> \<not> b \<and> e' = e"
  by (auto simp: ensure_def)

definition is_ok :: "'e + 'a \<Rightarrow> bool" where
  "is_ok r = (case r of Inl _ \<Rightarrow> False | Inr _ \<Rightarrow> True)"

lemma is_ok_simps [simp]: "\<not> is_ok (Inl e)" "is_ok (Inr x)"
  by (simp_all add: is_ok_def)

section \<open>64-bit integers\<close>

text \<open>
  \<open>i64\<close> and \<open>u64\<close> values are \<^typ>\<open>int\<close>s in range. The server is built with the release
  profile, which leaves \<open>overflow-checks\<close> off, so a plain \<open>+\<close> wraps around.
\<close>

definition i64_max :: int where "i64_max = 9223372036854775807"
definition i64_min :: int where "i64_min = -9223372036854775808"
definition u64_max :: int where "u64_max = 18446744073709551615"

definition in_i64 :: "int \<Rightarrow> bool" where
  "in_i64 x \<longleftrightarrow> i64_min \<le> x \<and> x \<le> i64_max"

definition in_u64 :: "int \<Rightarrow> bool" where
  "in_u64 x \<longleftrightarrow> 0 \<le> x \<and> x \<le> u64_max"

definition i64_wrap :: "int \<Rightarrow> int" where
  "i64_wrap x = (x + 9223372036854775808) mod 18446744073709551616 - 9223372036854775808"

definition i64_add :: "int \<Rightarrow> int \<Rightarrow> int" where
  "i64_add a b = i64_wrap (a + b)"

definition i64_clamp :: "int \<Rightarrow> int" where
  "i64_clamp x = max i64_min (min i64_max x)"

definition i64_saturating_add :: "int \<Rightarrow> int \<Rightarrow> int" where
  "i64_saturating_add a b = i64_clamp (a + b)"

definition i64_saturating_sub :: "int \<Rightarrow> int \<Rightarrow> int" where
  "i64_saturating_sub a b = i64_clamp (a - b)"

definition i64_checked_add :: "int \<Rightarrow> int \<Rightarrow> int option" where
  "i64_checked_add a b = (if in_i64 (a + b) then Some (a + b) else None)"

text \<open>\<open>i64::try_from(x).unwrap_or(i64::MAX)\<close> for an unsigned \<open>x\<close>.\<close>

definition i64_try_from_or_max :: "int \<Rightarrow> int" where
  "i64_try_from_or_max x = (if x \<le> i64_max then x else i64_max)"

text \<open>\<open>u64::try_from(x).unwrap_or_default()\<close> for a signed \<open>x\<close>.\<close>

definition u64_try_from_or_default :: "int \<Rightarrow> int" where
  "u64_try_from_or_default x = (if 0 \<le> x then x else 0)"

definition u64_saturating_add :: "int \<Rightarrow> int \<Rightarrow> int" where
  "u64_saturating_add a b = min u64_max (a + b)"

definition u64_saturating_sub :: "int \<Rightarrow> int \<Rightarrow> int" where
  "u64_saturating_sub a b = max 0 (a - b)"

lemmas i64_defs = i64_max_def i64_min_def u64_max_def in_i64_def in_u64_def

lemma i64_wrap_id: "in_i64 x \<Longrightarrow> i64_wrap x = x"
  by (simp add: i64_wrap_def i64_defs)

lemma in_i64_wrap [simp]: "in_i64 (i64_wrap x)"
proof -
  have "0 \<le> (x + 9223372036854775808) mod 18446744073709551616"
    and "(x + 9223372036854775808) mod 18446744073709551616 < 18446744073709551616"
    by simp_all
  then show ?thesis unfolding i64_wrap_def i64_defs by linarith
qed

lemma i64_add_exact: "in_i64 (a + b) \<Longrightarrow> i64_add a b = a + b"
  by (simp add: i64_add_def i64_wrap_id)

lemma i64_saturating_add_bounds: "in_i64 (i64_saturating_add a b)"
  by (auto simp: i64_saturating_add_def i64_clamp_def i64_defs)

section \<open>Bytes and strings\<close>

type_synonym bytes = string

definition byte :: "char \<Rightarrow> nat" where
  [str_simps]: "byte c = of_char c"

definition is_ascii_digit :: "char \<Rightarrow> bool" where
  [str_simps]: "is_ascii_digit c \<longleftrightarrow> 48 \<le> byte c \<and> byte c \<le> 57"

definition is_ascii_lowercase :: "char \<Rightarrow> bool" where
  [str_simps]: "is_ascii_lowercase c \<longleftrightarrow> 97 \<le> byte c \<and> byte c \<le> 122"

definition is_ascii_uppercase :: "char \<Rightarrow> bool" where
  [str_simps]: "is_ascii_uppercase c \<longleftrightarrow> 65 \<le> byte c \<and> byte c \<le> 90"

definition is_ascii_alphanumeric :: "char \<Rightarrow> bool" where
  [str_simps]: "is_ascii_alphanumeric c \<longleftrightarrow>
     is_ascii_digit c \<or> is_ascii_lowercase c \<or> is_ascii_uppercase c"

definition ascii_lower :: "char \<Rightarrow> char" where
  [str_simps]: "ascii_lower c = (if is_ascii_uppercase c then char_of (byte c + 32) else c)"

definition to_ascii_lowercase :: "string \<Rightarrow> string" where
  [str_simps]: "to_ascii_lowercase s = map ascii_lower s"

definition eq_ignore_ascii_case :: "string \<Rightarrow> string \<Rightarrow> bool" where
  [str_simps]: "eq_ignore_ascii_case a b \<longleftrightarrow> to_ascii_lowercase a = to_ascii_lowercase b"

lemma byte_less_256 [simp]: "byte c < 256"
  by (simp add: byte_def)

lemma byte_inject: "byte c = byte d \<longleftrightarrow> c = d"
  by (simp add: byte_def)

text \<open>The classes over binary integers, for evaluation.\<close>

lemma ascii_class_code [code]:
  "is_ascii_digit c \<longleftrightarrow> 48 \<le> (of_char c :: int) \<and> (of_char c :: int) \<le> 57"
  "is_ascii_lowercase c \<longleftrightarrow> 97 \<le> (of_char c :: int) \<and> (of_char c :: int) \<le> 122"
  "is_ascii_uppercase c \<longleftrightarrow> 65 \<le> (of_char c :: int) \<and> (of_char c :: int) \<le> 90"
proof -
  have "(of_char c :: int) = int (byte c)" by (simp add: byte_def of_nat_of_char)
  then show "is_ascii_digit c \<longleftrightarrow> 48 \<le> (of_char c :: int) \<and> (of_char c :: int) \<le> 57"
    "is_ascii_lowercase c \<longleftrightarrow> 97 \<le> (of_char c :: int) \<and> (of_char c :: int) \<le> 122"
    "is_ascii_uppercase c \<longleftrightarrow> 65 \<le> (of_char c :: int) \<and> (of_char c :: int) \<le> 90"
    by (simp_all add: is_ascii_digit_def is_ascii_lowercase_def is_ascii_uppercase_def)
qed

lemma ascii_lower_idem [simp]: "ascii_lower (ascii_lower c) = ascii_lower c"
  by (auto simp: ascii_lower_def is_ascii_uppercase_def byte_def)

lemma to_ascii_lowercase_idem [simp]:
  "to_ascii_lowercase (to_ascii_lowercase s) = to_ascii_lowercase s"
  by (simp add: to_ascii_lowercase_def)

subsection \<open>Prefixes, suffixes and substrings\<close>

definition starts_with :: "string \<Rightarrow> string \<Rightarrow> bool" where
  [str_simps]: "starts_with s p \<longleftrightarrow> take (length p) s = p"

definition ends_with :: "string \<Rightarrow> string \<Rightarrow> bool" where
  [str_simps]: "ends_with s p \<longleftrightarrow>
     length p \<le> length s \<and> drop (length s - length p) s = p"

definition strip_prefix :: "string \<Rightarrow> string \<Rightarrow> string option" where
  [str_simps]: "strip_prefix s p = (if starts_with s p then Some (drop (length p) s) else None)"

fun contains_str :: "string \<Rightarrow> string \<Rightarrow> bool" where
  "contains_str [] p \<longleftrightarrow> p = []"
| "contains_str (c # s) p \<longleftrightarrow> starts_with (c # s) p \<or> contains_str s p"

lemma starts_with_iff: "starts_with s p \<longleftrightarrow> (\<exists>t. s = p @ t)"
  unfolding starts_with_def
  by (metis append_eq_conv_conj append_take_drop_id)

lemma starts_with_append [simp]: "starts_with (p @ t) p"
  by (auto simp: starts_with_iff)

lemma ends_with_iff: "ends_with s p \<longleftrightarrow> (\<exists>t. s = t @ p)"
proof
  assume "ends_with s p"
  then show "\<exists>t. s = t @ p"
    unfolding ends_with_def by (metis append_take_drop_id)
next
  assume "\<exists>t. s = t @ p"
  then show "ends_with s p" by (auto simp: ends_with_def)
qed

lemma strip_prefix_Some_iff: "strip_prefix s p = Some t \<longleftrightarrow> s = p @ t"
  by (auto simp: strip_prefix_def starts_with_iff)

lemma contains_str_iff: "contains_str s p \<longleftrightarrow> (\<exists>u v. s = u @ p @ v)"
proof (induction s)
  case Nil
  then show ?case by auto
next
  case (Cons c s)
  have "(\<exists>u v. c # s = u @ p @ v) \<longleftrightarrow> (\<exists>v. c # s = p @ v) \<or> (\<exists>u v. s = u @ p @ v)"
    by (metis append_Cons append_Nil append_eq_Cons_conv)
  with Cons show ?case by (simp add: starts_with_iff)
qed

subsection \<open>Splitting and joining\<close>

text \<open>\<open>str::split\<close> on one character: always at least one piece.\<close>

fun split_on :: "char \<Rightarrow> string \<Rightarrow> string list" where
  "split_on d [] = [[]]"
| "split_on d (c # s) =
     (if c = d then [] # split_on d s
      else (case split_on d s of [] \<Rightarrow> [[c]] | w # ws \<Rightarrow> (c # w) # ws))"

text \<open>\<open>[&str]::join\<close> with a one-character separator.\<close>

fun join_with :: "char \<Rightarrow> string list \<Rightarrow> string" where
  "join_with d [] = []"
| "join_with d [w] = w"
| "join_with d (w # v # ws) = w @ d # join_with d (v # ws)"

lemma split_on_not_Nil [simp]: "split_on d s \<noteq> []"
  by (induction s) (auto split: list.splits)

lemma join_with_Cons: "ws \<noteq> [] \<Longrightarrow> join_with d (w # ws) = w @ d # join_with d ws"
  by (cases ws) auto

lemma join_split [simp]: "join_with d (split_on d s) = s"
proof (induction s)
  case Nil
  then show ?case by simp
next
  case (Cons c s)
  show ?case
  proof (cases "split_on d s")
    case Nil
    then show ?thesis by simp
  next
    case (Cons w ws)
    with Cons.IH show ?thesis by (cases ws) auto
  qed
qed

lemma split_on_no_sep: "w \<in> set (split_on d s) \<Longrightarrow> d \<notin> set w"
  by (induction s arbitrary: w) (auto split: list.splits if_splits)

lemma split_on_single: "d \<notin> set w \<Longrightarrow> split_on d w = [w]"
  by (induction w) auto

lemma split_on_append_sep: "d \<notin> set w \<Longrightarrow> split_on d (w @ d # s) = w # split_on d s"
  by (induction w) auto

lemma split_join:
  assumes "ws \<noteq> []" and "\<forall>w \<in> set ws. d \<notin> set w"
  shows "split_on d (join_with d ws) = ws"
  using assms
proof (induction d ws rule: join_with.induct)
  case (3 d w v ws)
  then show ?case by (simp add: split_on_append_sep)
qed (auto simp: split_on_single)

subsection \<open>Trimming\<close>

text \<open>
  \<open>trim_matches\<close> over a set of characters given by their UTF-8 encodings. UTF-8 is
  prefix-free and self-synchronising, so on well-formed input a byte prefix (suffix) that is
  the encoding of a character is the first (last) character.
\<close>

definition strip_any :: "string list \<Rightarrow> string \<Rightarrow> string option" where
  [str_simps]: "strip_any ws s =
     (case List.find (\<lambda>w. w \<noteq> [] \<and> starts_with s w) ws of
        None \<Rightarrow> None | Some w \<Rightarrow> Some (drop (length w) s))"

lemma strip_any_shorter:
  assumes "strip_any ws s = Some t"
  shows "length t < length s"
proof -
  from assms obtain w where "List.find (\<lambda>w. w \<noteq> [] \<and> starts_with s w) ws = Some w"
    and t: "t = drop (length w) s"
    by (auto simp: strip_any_def split: option.splits)
  then have "w \<noteq> []" and "starts_with s w" by (auto simp: find_Some_iff)
  then obtain u where "s = w @ u" and "0 < length w" by (auto simp: starts_with_iff)
  with t show ?thesis by simp
qed

function trim_start_any :: "string list \<Rightarrow> string \<Rightarrow> string" where
  "trim_start_any ws s =
     (case strip_any ws s of None \<Rightarrow> s | Some t \<Rightarrow> trim_start_any ws t)"
  by pat_completeness auto
termination
  by (relation "measure (length \<circ> snd)") (auto simp: strip_any_shorter)

declare trim_start_any.simps [simp del]

definition trim_end_any :: "string list \<Rightarrow> string \<Rightarrow> string" where
  [str_simps]: "trim_end_any ws s = rev (trim_start_any (map rev ws) (rev s))"

definition trim_any :: "string list \<Rightarrow> string \<Rightarrow> string" where
  [str_simps]: "trim_any ws s = trim_end_any ws (trim_start_any ws s)"

text \<open>The UTF-8 encodings of Unicode \<open>White_Space\<close>, which \<open>str::trim\<close> removes.\<close>

definition unicode_white_space :: "string list" where
  "unicode_white_space =
     [[CHR 0x09], [CHR 0x0A], [CHR 0x0B], [CHR 0x0C], [CHR 0x0D], [CHR 0x20],
      [CHR 0xC2, CHR 0x85], [CHR 0xC2, CHR 0xA0], [CHR 0xE1, CHR 0x9A, CHR 0x80],
      [CHR 0xE2, CHR 0x80, CHR 0x80], [CHR 0xE2, CHR 0x80, CHR 0x81],
      [CHR 0xE2, CHR 0x80, CHR 0x82], [CHR 0xE2, CHR 0x80, CHR 0x83],
      [CHR 0xE2, CHR 0x80, CHR 0x84], [CHR 0xE2, CHR 0x80, CHR 0x85],
      [CHR 0xE2, CHR 0x80, CHR 0x86], [CHR 0xE2, CHR 0x80, CHR 0x87],
      [CHR 0xE2, CHR 0x80, CHR 0x88], [CHR 0xE2, CHR 0x80, CHR 0x89],
      [CHR 0xE2, CHR 0x80, CHR 0x8A], [CHR 0xE2, CHR 0x80, CHR 0xA8],
      [CHR 0xE2, CHR 0x80, CHR 0xA9], [CHR 0xE2, CHR 0x80, CHR 0xAF],
      [CHR 0xE2, CHR 0x81, CHR 0x9F], [CHR 0xE3, CHR 0x80, CHR 0x80]]"

definition trim :: "string \<Rightarrow> string" where
  [str_simps]: "trim s = trim_any unicode_white_space s"

lemma trim_start_any_Nil [simp]: "trim_start_any ws [] = []"
proof -
  have "strip_any ws [] = None"
  proof (rule ccontr)
    assume "strip_any ws [] \<noteq> None"
    then obtain t where "strip_any ws [] = Some t" by blast
    then show False by (auto dest: strip_any_shorter)
  qed
  then show ?thesis by (simp add: trim_start_any.simps)
qed

lemma trim_any_Nil [simp]: "trim_any ws [] = []"
  by (simp add: trim_any_def trim_end_any_def)

lemma trim_Nil [simp]: "trim [] = []"
  by (simp add: trim_def)

lemma trim_start_any_stable: "strip_any ws s = None \<Longrightarrow> trim_start_any ws s = s"
  by (simp add: trim_start_any.simps)

text \<open>A string that starts and ends with an ASCII graphic byte has nothing to trim.\<close>

definition is_ascii_graphic :: "char \<Rightarrow> bool" where
  [str_simps]: "is_ascii_graphic c \<longleftrightarrow> 33 \<le> byte c \<and> byte c \<le> 126"

section \<open>Decimal numbers\<close>

text \<open>\<open>u64::to_string\<close> and \<open>format!("{n}")\<close>.\<close>

definition digit_char :: "nat \<Rightarrow> char" where
  "digit_char d = char_of (48 + d)"

fun show_nat :: "nat \<Rightarrow> string" where
  "show_nat n = (if n < 10 then [digit_char n] else show_nat (n div 10) @ [digit_char (n mod 10)])"

declare show_nat.simps [simp del]

definition show_int :: "int \<Rightarrow> string" where
  "show_int i = (if i < 0 then CHR ''-'' # show_nat (nat (- i)) else show_nat (nat i))"

definition digit_value :: "char \<Rightarrow> nat" where
  "digit_value c = byte c - 48"

fun read_nat_acc :: "nat \<Rightarrow> string \<Rightarrow> nat" where
  "read_nat_acc n [] = n"
| "read_nat_acc n (c # s) = read_nat_acc (10 * n + digit_value c) s"

lemma byte_digit_char: "d < 10 \<Longrightarrow> byte (digit_char d) = 48 + d"
  by (simp add: byte_def digit_char_def)

lemma read_nat_acc_append: "read_nat_acc n (s @ t) = read_nat_acc (read_nat_acc n s) t"
  by (induction s arbitrary: n) auto

lemma read_show_nat: "read_nat_acc 0 (show_nat n) = n"
proof (induction n rule: show_nat.induct)
  case (1 n)
  then show ?case
    by (subst show_nat.simps)
      (auto simp: read_nat_acc_append digit_value_def byte_digit_char)
qed

lemma show_nat_inject [simp]: "show_nat m = show_nat n \<longleftrightarrow> m = n"
  by (metis read_show_nat)

lemma show_nat_digits: "c \<in> set (show_nat n) \<Longrightarrow> is_ascii_digit c"
proof (induction n arbitrary: c rule: show_nat.induct)
  case (1 n)
  show ?case
  proof (cases "n < 10")
    case True
    with 1 show ?thesis by (auto simp: show_nat.simps [of n] is_ascii_digit_def byte_digit_char)
  next
    case False
    with 1 show ?thesis
      by (auto simp: show_nat.simps [of n] is_ascii_digit_def byte_digit_char)
  qed
qed

lemma show_nat_not_Nil [simp]: "show_nat n \<noteq> []"
  by (subst show_nat.simps) simp

section \<open>Lists\<close>

text \<open>\<open>Iterator::collect::<Result<Vec<_>,_>>\<close>: the first error wins.\<close>

fun collect_results :: "('e + 'a) list \<Rightarrow> 'e + 'a list" where
  "collect_results [] = Inr []"
| "collect_results (r # rs) =
     try_bind r (\<lambda>x. try_bind (collect_results rs) (\<lambda>xs. Inr (x # xs)))"

lemma collect_results_Inr_iff:
  "collect_results rs = Inr xs \<longleftrightarrow> rs = map Inr xs"
  by (induction rs arbitrary: xs) (auto simp: try_bind_Inr_iff)

lemma find_append:
  "List.find p (xs @ ys) = (case List.find p xs of None \<Rightarrow> List.find p ys | Some x \<Rightarrow> Some x)"
  by (induction xs) auto

text \<open>\<open>SELECT COUNT(*) \<dots> WHERE p\<close>.\<close>

definition count_rows :: "('a \<Rightarrow> bool) \<Rightarrow> 'a list \<Rightarrow> int" where
  "count_rows p rows = int (length (filter p rows))"

lemma count_rows_simps [simp]:
  "count_rows p [] = 0"
  "count_rows p (r # rows) = (if p r then 1 else 0) + count_rows p rows"
  "count_rows p (xs @ ys) = count_rows p xs + count_rows p ys"
  by (simp_all add: count_rows_def)

lemma count_rows_nonneg [simp]: "0 \<le> count_rows p rows"
  by (simp add: count_rows_def)

lemma count_rows_mono: "(\<And>r. r \<in> set rows \<Longrightarrow> p r \<Longrightarrow> q r) \<Longrightarrow> count_rows p rows \<le> count_rows q rows"
  by (induction rows) auto

lemma count_rows_map: "count_rows p (map f rows) = count_rows (p \<circ> f) rows"
  by (induction rows) auto

lemma count_rows_eq_0_iff: "count_rows p rows = 0 \<longleftrightarrow> (\<forall>r \<in> set rows. \<not> p r)"
  by (simp add: count_rows_def filter_empty_conv)

lemma count_rows_le_length: "count_rows p xs \<le> int (length xs)"
  by (induction xs) auto

text \<open>\<open>UPDATE \<dots> SET f WHERE p\<close> and \<open>DELETE \<dots> WHERE p\<close> on a table of rows.\<close>

definition sql_update :: "('a \<Rightarrow> bool) \<Rightarrow> ('a \<Rightarrow> 'a) \<Rightarrow> 'a list \<Rightarrow> 'a list" where
  "sql_update p f rows = map (\<lambda>r. if p r then f r else r) rows"

definition sql_delete :: "('a \<Rightarrow> bool) \<Rightarrow> 'a list \<Rightarrow> 'a list" where
  "sql_delete p rows = filter (\<lambda>r. \<not> p r) rows"

lemma length_sql_update [simp]: "length (sql_update p f rows) = length rows"
  by (simp add: sql_update_def)

lemma nth_sql_update:
  "i < length rows \<Longrightarrow> sql_update p f rows ! i = (if p (rows ! i) then f (rows ! i) else rows ! i)"
  by (simp add: sql_update_def)

lemma set_sql_update: "set (sql_update p f rows) = (\<lambda>r. if p r then f r else r) ` set rows"
  by (simp add: sql_update_def)

lemma map_sql_update: "(\<And>r. p r \<Longrightarrow> g (f r) = g r) \<Longrightarrow> map g (sql_update p f rows) = map g rows"
  by (simp add: sql_update_def)

lemma sql_update_noop: "\<forall>r \<in> set rows. \<not> p r \<Longrightarrow> sql_update p f rows = rows"
  by (simp add: sql_update_def map_idI)

lemma sql_update_cong:
  "(\<And>r. r \<in> set rows \<Longrightarrow> p r = q r) \<Longrightarrow> sql_update p f rows = sql_update q f rows"
  by (auto simp: sql_update_def)

lemma count_rows_cong:
  "(\<And>r. r \<in> set rows \<Longrightarrow> p r = q r) \<Longrightarrow> count_rows p rows = count_rows q rows"
  by (auto intro: antisym count_rows_mono)

lemma count_rows_single: "distinct xs \<Longrightarrow> x \<in> set xs \<Longrightarrow> count_rows (\<lambda>y. y = x) xs = 1"
  by (induction xs) (auto simp: count_rows_eq_0_iff)

lemma count_sql_update_le:
  "(\<And>r. p r \<Longrightarrow> q (f r) \<Longrightarrow> q r) \<Longrightarrow> count_rows q (sql_update p f rows) \<le> count_rows q rows"
  unfolding sql_update_def count_rows_map by (rule count_rows_mono) (auto split: if_splits)

lemma count_sql_delete_le: "count_rows q (sql_delete p rows) \<le> count_rows q rows"
  by (induction rows) (auto simp: sql_delete_def)

lemma find_filter_Cons: "filter p xs = y # ys \<Longrightarrow> List.find p xs = Some y"
  by (induction xs) (auto split: if_splits)

lemma filter_sql_update_id:
  "(\<And>x. p x \<Longrightarrow> k (f x) = k x) \<Longrightarrow> filter (\<lambda>x. k x = b) (sql_update p f xs) = sql_update p f (filter (\<lambda>x. k x = b) xs)"
  by (induction xs) (auto simp: sql_update_def)

text \<open>Searching and counting rows after an insertion, an update or a deletion.\<close>

lemma find_append_new: "List.find p xs = None \<Longrightarrow> List.find p (xs @ [x]) = (if p x then Some x else None)"
  by (induction xs) (auto split: if_splits)

lemma find_append_other: "\<not> p x \<Longrightarrow> List.find p (xs @ [x]) = List.find p xs"
  by (induction xs) auto

lemma find_sql_update_hit:
  assumes "\<And>y. p (f y) = p y"
  shows "List.find p (sql_update p f xs) = map_option f (List.find p xs)"
proof (induction xs)
  case (Cons x xs)
  then show ?case by (cases "p x") (simp_all add: sql_update_def assms)
qed (simp add: sql_update_def)

lemma find_sql_update_miss:
  assumes "\<And>y. q y \<Longrightarrow> \<not> p y" "\<And>y. q y \<Longrightarrow> \<not> p (f y)"
  shows "List.find p (sql_update q f xs) = List.find p xs"
proof (induction xs)
  case (Cons x xs)
  then show ?case using assms [of x] by (cases "q x") (simp_all add: sql_update_def)
qed (simp add: sql_update_def)

lemma count_rows_keys:
  assumes "map k rows = map k rows'"
  shows "count_rows (\<lambda>r. k r = b) rows = count_rows (\<lambda>r. k r = b) rows'"
proof -
  have "count_rows (\<lambda>r. k r = b) xs = count_rows (\<lambda>x. x = b) (map k xs)" for xs
    by (induction xs) (simp_all add: count_rows_def)
  then show ?thesis by (simp add: assms)
qed

end
