(* ===== verification/Bundle_Paths.thy ===== *)
theory Bundle_Paths
  imports Prelude
begin

text \<open>
  Identifiers, bundle paths and bundle admission: src/src/config/ids.rs,
  src/src/artifacts/validation.rs and src/src/artifacts/paths.rs.

  The theory models the id shape tests, the port of \<open>path.posix.normalize\<close> and the path
  sanitizer built on it, the independent lexical containment check, body and bundle admission
  with its entry selection, and the frozen on-disk layout. It shows that a sanitized path
  never climbs, that the second gate accepts exactly such a path and keeps it below its base,
  that an admitted bundle respects its limits and owns its entry, and that the names of
  transient bodies determine the artifact they belong to.
\<close>

section \<open>Identifier shapes (config/ids.rs)\<close>

definition ARTIFACT_ID_ALPHABET :: string where
  "ARTIFACT_ID_ALPHABET = ''0123456789abcdefghijkmnpqrstuvwxyz''"

definition WEBHOOK_ID_LENGTH :: nat where
  "WEBHOOK_ID_LENGTH = 12"

definition is_valid_webhook_id :: "string \<Rightarrow> bool" where
  "is_valid_webhook_id value \<longleftrightarrow>
     length value = WEBHOOK_ID_LENGTH \<and>
     list_all (\<lambda>c. List.member ARTIFACT_ID_ALPHABET c) value"

definition is_valid_artifact_id :: "string \<Rightarrow> bool" where
  "is_valid_artifact_id value \<longleftrightarrow>
     6 \<le> length value \<and> length value \<le> 24 \<and>
     list_all (\<lambda>c. is_ascii_digit c \<or> is_ascii_lowercase c) value"

definition RESERVED_ARTIFACT_IDS :: "string list" where
  "RESERVED_ARTIFACT_IDS =
     [''mcp'', ''health'', ''settings'', ''raw'', ''s'', ''favicon.ico'', ''robots.txt'',
      ''sw.js'', ''manifest.webmanifest'', ''icons'']"

section \<open>Identifiers (artifacts/validation.rs)\<close>

definition is_reserved_artifact_id :: "string \<Rightarrow> bool" where
  "is_reserved_artifact_id aid \<longleftrightarrow>
     List.member RESERVED_ARTIFACT_IDS aid \<or> \<not> is_valid_artifact_id aid"

text \<open>\<open>SafeArtifactId\<close> and \<open>BodyDigest\<close> are newtypes over a checked string.\<close>

definition SafeArtifactId_parse :: "string \<Rightarrow> string option" where
  "SafeArtifactId_parse value = (if is_valid_artifact_id value then Some value else None)"

definition SafeArtifactId_addressable :: "string \<Rightarrow> string option" where
  "SafeArtifactId_addressable value =
     (if \<not> is_reserved_artifact_id value then Some value else None)"

definition SafeArtifactId_try_from :: "string \<Rightarrow> string result" where
  "SafeArtifactId_try_from value =
     (case SafeArtifactId_parse value of None \<Rightarrow> Inl ConcealedNotFound | Some v \<Rightarrow> Inr v)"

definition DIGEST_HEX_LENGTH :: nat where
  "DIGEST_HEX_LENGTH = 64"

definition is_valid_digest :: "string \<Rightarrow> bool" where
  "is_valid_digest value \<longleftrightarrow>
     length value = DIGEST_HEX_LENGTH \<and>
     list_all (\<lambda>c. is_ascii_digit c \<or> 97 \<le> byte c \<and> byte c \<le> 102) value"

definition BodyDigest_parse :: "string \<Rightarrow> string option" where
  "BodyDigest_parse value = (if is_valid_digest value then Some value else None)"

section \<open>Path sanitizing\<close>

definition slash :: char where "slash = CHR ''/''"

text \<open>
  One turn of the loop over \<open>value.split('/')\<close>; the stack's top is the last element.
\<close>

definition normalize_segment :: "string list \<Rightarrow> string \<Rightarrow> string list" where
  "normalize_segment stack segment =
     (if segment = '''' \<or> segment = ''.'' then stack
      else if segment = ''..'' then
        (if stack \<noteq> [] \<and> last stack \<noteq> ''..'' then butlast stack else stack @ [''..''])
      else stack @ [segment])"

definition posix_normalize_relative :: "string \<Rightarrow> string" where
  "posix_normalize_relative value =
     (let trailing_separator = ends_with value [slash];
          stack = foldl normalize_segment [] (split_on slash value)
      in if stack = [] then (if trailing_separator then ''./'' else ''.'')
         else join_with slash stack @ (if trailing_separator then [slash] else []))"

definition replace_backslash :: "string \<Rightarrow> string" where
  "replace_backslash s = map (\<lambda>c. if c = CHR 0x5C then slash else c) s"

definition sanitize_relative_path :: "string \<Rightarrow> string option" where
  "sanitize_relative_path value =
     (let replaced = replace_backslash value;
          stripped = dropWhile (\<lambda>c. c = slash) replaced;
          normalized = posix_normalize_relative stripped
      in if normalized = [] \<or> normalized = ''.'' \<or> normalized = ''..''
            \<or> starts_with normalized ''../'' \<or> starts_with normalized ''/''
         then None
         else if list_ex (\<lambda>segment. segment = ''..'') (split_on slash normalized) then None
         else Some normalized)"

section \<open>Lexical resolution and containment\<close>

text \<open>
  \<open>std::path::Component\<close> on a POSIX host, and \<open>Path::components\<close>: repeated separators and
  non-leading \<open>.\<close> disappear.
\<close>

datatype component = RootDir | CurDir | ParentDir | Normal string

definition segment_component :: "string \<Rightarrow> component list" where
  "segment_component s =
     (if s = '''' \<or> s = ''.'' then [] else if s = ''..'' then [ParentDir] else [Normal s])"

definition relative_components :: "string \<Rightarrow> component list" where
  "relative_components s = concat (map segment_component (split_on slash s))"

definition is_absolute :: "string \<Rightarrow> bool" where
  "is_absolute s \<longleftrightarrow> starts_with s [slash]"

definition components :: "string \<Rightarrow> component list" where
  "components s =
     (if is_absolute s then RootDir # relative_components s
      else if s = ''.'' \<or> starts_with s ''./'' then CurDir # relative_components s
      else relative_components s)"

text \<open>\<open>PathBuf::join\<close> of a component list with a relative or absolute string.\<close>

definition join_components :: "component list \<Rightarrow> string \<Rightarrow> component list" where
  "join_components base rel =
     (if is_absolute rel then components rel
      else if base = [] then components rel
      else base @ relative_components rel)"

text \<open>\<open>PathBuf::pop\<close>: the root has no parent.\<close>

definition path_pop :: "component list \<Rightarrow> component list" where
  "path_pop cs = (if cs = [] \<or> last cs = RootDir then cs else butlast cs)"

definition resolve_component :: "component list \<Rightarrow> component \<Rightarrow> component list" where
  "resolve_component resolved c =
     (case c of
        CurDir \<Rightarrow> resolved
      | ParentDir \<Rightarrow> path_pop resolved
      | RootDir \<Rightarrow> [RootDir]
      | Normal s \<Rightarrow> resolved @ [Normal s])"

text \<open>
  \<open>lexically_resolve\<close>: a relative path is first joined to the current directory, which the
  environment provides (\<open>cwd\<close>; empty where \<open>current_dir()\<close> fails).
\<close>

definition lexically_resolve :: "component list \<Rightarrow> component list \<Rightarrow> component list" where
  "lexically_resolve cwd path =
     (let absolute = (if path \<noteq> [] \<and> hd path = RootDir then path else cwd @ path)
      in foldl resolve_component [] absolute)"

definition contained_path :: "component list \<Rightarrow> component list \<Rightarrow> string \<Rightarrow> component list option" where
  "contained_path cwd base0 rel =
     (let base = lexically_resolve cwd base0;
          full = lexically_resolve cwd (join_components base rel)
      in if full = base \<or> take (length base) full = base then Some full else None)"

section \<open>Body and bundle admission\<close>

text \<open>The UTF-8 encodings of ECMAScript white space and line terminators.\<close>

definition js_white_space :: "string list" where
  "js_white_space =
     [[CHR 0x09], [CHR 0x0A], [CHR 0x0B], [CHR 0x0C], [CHR 0x0D], [CHR 0x20],
      [CHR 0xC2, CHR 0xA0], [CHR 0xE1, CHR 0x9A, CHR 0x80],
      [CHR 0xE2, CHR 0x80, CHR 0x80], [CHR 0xE2, CHR 0x80, CHR 0x81],
      [CHR 0xE2, CHR 0x80, CHR 0x82], [CHR 0xE2, CHR 0x80, CHR 0x83],
      [CHR 0xE2, CHR 0x80, CHR 0x84], [CHR 0xE2, CHR 0x80, CHR 0x85],
      [CHR 0xE2, CHR 0x80, CHR 0x86], [CHR 0xE2, CHR 0x80, CHR 0x87],
      [CHR 0xE2, CHR 0x80, CHR 0x88], [CHR 0xE2, CHR 0x80, CHR 0x89],
      [CHR 0xE2, CHR 0x80, CHR 0x8A], [CHR 0xE2, CHR 0x80, CHR 0xA8],
      [CHR 0xE2, CHR 0x80, CHR 0xA9], [CHR 0xE2, CHR 0x80, CHR 0xAF],
      [CHR 0xE2, CHR 0x81, CHR 0x9F], [CHR 0xE3, CHR 0x80, CHR 0x80],
      [CHR 0xEF, CHR 0xBB, CHR 0xBF]]"

definition js_trim :: "string \<Rightarrow> string" where
  "js_trim value = trim_any js_white_space value"

record StorageLimits =
  max_history :: int
  max_artifact_bytes :: int
  max_bundle_bytes :: int
  max_bundle_files :: int

record ValidatedSingleBody =
  vb_bytes :: int
  vb_body_sha256 :: string

text \<open>
  \<open>validate_single_body\<close>; \<open>sha256_hex\<close> is the SHA-256 of the \<open>sha2\<close> crate in lower-case hex.
\<close>

definition validate_single_body ::
    "(bytes \<Rightarrow> string) \<Rightarrow> string \<Rightarrow> StorageLimits \<Rightarrow> ValidatedSingleBody result" where
  "validate_single_body sha256_hex html limits =
     (if js_trim html = [] then Inl (Validation ''html is required'')
      else
        let len = int (length html); mx = max_artifact_bytes limits
        in if mx < len
           then Inl (Validation (''html exceeds '' @ show_int mx @ '' bytes (got '' @ show_int len @ '')''))
           else Inr \<lparr> vb_bytes = len, vb_body_sha256 = sha256_hex html \<rparr>)"

record ValidatedBundle =
  vbun_files :: "(string \<times> string) list"
  vbun_total_bytes :: int
  vbun_entry :: string

definition DEFAULT_BUNDLE_ENTRY :: string where
  "DEFAULT_BUNDLE_ENTRY = ''index.html''"

definition no_html_entry_message :: string where
  "no_html_entry_message =
     ''no HTML entry found '' @ [CHR 0xE2, CHR 0x80, CHR 0x94] @
     '' include index.html or pass an '' @ [CHR 0x27] @ ''entry'' @ [CHR 0x27]"

definition nonempty_filter :: "string option \<Rightarrow> string option" where
  "nonempty_filter v = (case v of None \<Rightarrow> None | Some s \<Rightarrow> if s = [] then None else Some s)"

definition has_file :: "(string \<times> string) list \<Rightarrow> string \<Rightarrow> bool" where
  "has_file clean rel \<longleftrightarrow> list_ex (\<lambda>f. fst f = rel) clean"

definition auto_entry :: "(string \<times> string) list \<Rightarrow> string result" where
  "auto_entry clean =
     (if has_file clean DEFAULT_BUNDLE_ENTRY then Inr DEFAULT_BUNDLE_ENTRY
      else (case List.find (\<lambda>f. ends_with (fst f) ''.html'') clean of
              Some f \<Rightarrow> Inr (fst f) | None \<Rightarrow> Inl (Validation no_html_entry_message)))"

definition select_entry_fallback ::
    "(string \<times> string) list \<Rightarrow> string option \<Rightarrow> string result" where
  "select_entry_fallback clean prefer_entry =
     (case nonempty_filter prefer_entry of
        Some preferred \<Rightarrow>
          if has_file clean preferred then Inr preferred else auto_entry clean
      | None \<Rightarrow> auto_entry clean)"

definition select_entry ::
    "(string \<times> string) list \<Rightarrow> string option \<Rightarrow> string option \<Rightarrow> string result" where
  "select_entry clean entry prefer_entry =
     (case nonempty_filter entry of
        None \<Rightarrow> select_entry_fallback clean prefer_entry
      | Some raw \<Rightarrow>
          (case sanitize_relative_path raw of
             None \<Rightarrow> select_entry_fallback clean prefer_entry
           | Some sanitized \<Rightarrow>
               if has_file clean sanitized then Inr sanitized
               else Inl (Validation (''entry '' @ [CHR 0x22] @ raw @ [CHR 0x22] @
                                     '' is not one of the files''))))"

text \<open>The loop of \<open>validate_bundle\<close>: running total and cleaned files.\<close>

fun clean_files ::
    "int \<Rightarrow> (string \<times> string) list \<Rightarrow> (string \<times> string) list \<Rightarrow> (int \<times> (string \<times> string) list) result" where
  "clean_files total_b clean [] = Inr (total_b, clean)"
| "clean_files total_b clean ((raw, content) # files) =
     (case sanitize_relative_path raw of
        None \<Rightarrow> Inl (Validation (''unsafe file path: '' @ raw))
      | Some rel \<Rightarrow>
          clean_files (u64_saturating_add total_b (int (length content)))
            (clean @ [(rel, content)]) files)"

definition validate_bundle ::
    "(string \<times> string) list \<Rightarrow> string option \<Rightarrow> string option \<Rightarrow> StorageLimits \<Rightarrow>
     ValidatedBundle result" where
  "validate_bundle files entry prefer_entry limits =
     (if files = [] then Inl (Validation ''files is empty'')
      else if max_bundle_files limits < int (length files)
      then Inl (Validation (''too many files (max '' @ show_int (max_bundle_files limits) @ '')''))
      else
        try_bind (clean_files 0 [] files) (\<lambda>(total_b, clean).
          if max_bundle_bytes limits < total_b
          then Inl (Validation (''bundle exceeds '' @ show_int (max_bundle_bytes limits) @
                                '' bytes (got '' @ show_int total_b @ '')''))
          else try_bind (select_entry clean entry prefer_entry) (\<lambda>e.
            Inr \<lparr> vbun_files = clean, vbun_total_bytes = total_b, vbun_entry = e \<rparr>)))"

section \<open>The on-disk layout (artifacts/paths.rs)\<close>

datatype TransientKind = Staging | Trash

fun TransientKind_as_str :: "TransientKind \<Rightarrow> string" where
  "TransientKind_as_str Staging = ''staging''"
| "TransientKind_as_str Trash = ''trash''"

text \<open>\<open>Path::join\<close> on strings, for a relative second argument.\<close>

definition path_join :: "string \<Rightarrow> string \<Rightarrow> string" where
  "path_join dir name =
     (if is_absolute name then name
      else if dir = [] \<or> ends_with dir [slash] then dir @ name
      else dir @ slash # name)"

definition single_body_path :: "string \<Rightarrow> string \<Rightarrow> string" where
  "single_body_path artifact_dir aid = path_join artifact_dir (aid @ ''.html'')"

definition bundle_dir :: "string \<Rightarrow> string \<Rightarrow> string" where
  "bundle_dir artifact_dir aid = path_join artifact_dir aid"

definition body_path :: "string \<Rightarrow> string \<Rightarrow> bool \<Rightarrow> string" where
  "body_path artifact_dir aid is_bundle =
     (if is_bundle then bundle_dir artifact_dir aid else single_body_path artifact_dir aid)"

definition transient_name :: "string \<Rightarrow> TransientKind \<Rightarrow> string \<Rightarrow> string" where
  "transient_name aid kind token = ''.'' @ aid @ ''.'' @ TransientKind_as_str kind @ ''-'' @ token"

definition transient_path :: "string \<Rightarrow> string \<Rightarrow> TransientKind \<Rightarrow> string \<Rightarrow> string option" where
  "transient_path artifact_dir aid kind token =
     (case SafeArtifactId_parse token of
        None \<Rightarrow> None
      | Some token \<Rightarrow> Some (path_join artifact_dir (transient_name aid kind token)))"

definition is_transient_name :: "string \<Rightarrow> bool" where
  "is_transient_name name \<longleftrightarrow>
     starts_with name ''.'' \<and> (contains_str name ''.staging-'' \<or> contains_str name ''.trash-'')"

text \<open>\<open>str::split_once\<close> on one character.\<close>

fun split_once :: "char \<Rightarrow> string \<Rightarrow> (string \<times> string) option" where
  "split_once d [] = None"
| "split_once d (c # s) =
     (if c = d then Some ([], s)
      else map_option (\<lambda>(a, b). (c # a, b)) (split_once d s))"

definition transient_name_artifact_id :: "string \<Rightarrow> string option" where
  "transient_name_artifact_id name =
     Option.bind (strip_prefix name ''.'') (\<lambda>rest.
     Option.bind (split_once CHR ''.'' rest) (\<lambda>(aid, suffix).
     Option.bind (case strip_prefix suffix (TransientKind_as_str Staging) of
                    Some t \<Rightarrow> Some t
                  | None \<Rightarrow> strip_prefix suffix (TransientKind_as_str Trash)) (\<lambda>tail.
     Option.bind (strip_prefix tail ''-'') (\<lambda>_.
     SafeArtifactId_parse aid))))"

definition history_root :: "string \<Rightarrow> string" where
  "history_root artifact_dir = path_join artifact_dir ''.history''"

definition history_dir :: "string \<Rightarrow> string \<Rightarrow> string" where
  "history_dir artifact_dir aid = path_join (history_root artifact_dir) aid"

definition history_body_path :: "string \<Rightarrow> string \<Rightarrow> nat \<Rightarrow> bool \<Rightarrow> string" where
  "history_body_path artifact_dir aid revision is_bundle =
     (let dir = history_dir artifact_dir aid
      in if is_bundle then path_join dir (show_nat revision)
         else path_join dir (show_nat revision @ ''.html''))"

definition preview_dir :: "string \<Rightarrow> string" where
  "preview_dir data_dir = path_join data_dir ''previews''"

definition preview_artifact_dir :: "string \<Rightarrow> string \<Rightarrow> string" where
  "preview_artifact_dir data_dir aid = path_join (preview_dir data_dir) aid"

definition thumbnail_path :: "string \<Rightarrow> string \<Rightarrow> string \<Rightarrow> string" where
  "thumbnail_path data_dir aid digest = path_join (preview_artifact_dir data_dir aid) (digest @ ''.png'')"

section \<open>What normalization leaves behind\<close>

text \<open>A proper name: a path segment that stands for itself.\<close>

definition proper :: "string \<Rightarrow> bool" where
  "proper s \<longleftrightarrow> s \<noteq> '''' \<and> s \<noteq> ''.'' \<and> s \<noteq> ''..'' \<and> slash \<notin> set s \<and> CHR 0x5C \<notin> set s"

definition climbing :: "nat \<Rightarrow> string list \<Rightarrow> string list" where
  "climbing n names = replicate n ''..'' @ names"

lemma normalize_segment_climbing:
  assumes "\<forall>s \<in> set names. proper s" and "slash \<notin> set seg" and "CHR 0x5C \<notin> set seg"
  shows "\<exists>m names'. normalize_segment (climbing n names) seg = climbing m names' \<and>
           (\<forall>s \<in> set names'. proper s)"
proof -
  consider "seg = '''' \<or> seg = ''.''" | "seg = ''..''" "names = []" | "seg = ''..''" "names \<noteq> []"
    | "proper seg"
    using assms by (auto simp: proper_def)
  then show ?thesis
  proof cases
    case 1
    then show ?thesis using assms unfolding normalize_segment_def by auto
  next
    case 2
    then have "normalize_segment (climbing n names) seg = climbing (Suc n) []"
      by (auto simp: normalize_segment_def climbing_def replicate_append_same)
    then show ?thesis by (intro exI [of _ "Suc n"] exI [of _ "[]"]) simp
  next
    case 3
    then have "last names \<in> set names" by simp
    with 3 assms have "normalize_segment (climbing n names) seg = climbing n (butlast names)"
      by (auto simp: normalize_segment_def climbing_def proper_def butlast_append)
    then show ?thesis using assms by (meson in_set_butlastD)
  next
    case 4
    then have "normalize_segment (climbing n names) seg = climbing n (names @ [seg])"
      by (auto simp: normalize_segment_def climbing_def proper_def)
    moreover have "\<forall>s \<in> set (names @ [seg]). proper s" using 4 assms by simp
    ultimately show ?thesis by blast
  qed
qed

lemma foldl_normalize_climbing:
  assumes "\<forall>s \<in> set names. proper s" and "\<forall>seg \<in> set segs. slash \<notin> set seg \<and> CHR 0x5C \<notin> set seg"
  shows "\<exists>m names'. foldl normalize_segment (climbing n names) segs = climbing m names' \<and>
           (\<forall>s \<in> set names'. proper s)"
  using assms
proof (induction segs arbitrary: n names)
  case Nil
  then show ?case by auto
next
  case (Cons seg segs)
  then obtain m names' where "normalize_segment (climbing n names) seg = climbing m names'"
    and "\<forall>s \<in> set names'. proper s"
    using normalize_segment_climbing by (metis list.set_intros(1))
  with Cons show ?case by simp
qed

lemma foldl_normalize_proper:
  "\<forall>s \<in> set names. proper s \<Longrightarrow> foldl normalize_segment acc names = acc @ names"
  by (induction names arbitrary: acc) (auto simp: normalize_segment_def proper_def)

text \<open>The shapes the sanitizer returns: names joined by separators, or the bare \<open>./\<close>.\<close>

definition clean_relative :: "string list \<Rightarrow> string \<Rightarrow> bool" where
  "clean_relative names r \<longleftrightarrow>
     (\<forall>s \<in> set names. proper s) \<and>
     (if names = [] then r = ''./''
      else r = join_with slash names \<or> r = join_with slash names @ [slash])"

lemma set_join_with: "set (join_with d ws) \<subseteq> insert d (\<Union> (set ` set ws))"
  by (induction d ws rule: join_with.induct) auto

lemma set_split_on: "w \<in> set (split_on d s) \<Longrightarrow> set w \<subseteq> set s"
proof (induction s arbitrary: w)
  case Nil
  then show ?case by simp
next
  case (Cons c s)
  obtain v vs where "split_on d s = v # vs" by (cases "split_on d s") auto
  with Cons show ?case by (fastforce split: if_splits)
qed

lemma split_on_snoc_sep: "split_on d (s @ [d]) = split_on d s @ [[]]"
proof (induction s)
  case (Cons c s)
  obtain v vs where "split_on d s = v # vs" by (cases "split_on d s") auto
  with Cons show ?case by auto
qed simp

lemma split_join_proper:
  "names \<noteq> [] \<Longrightarrow> \<forall>s \<in> set names. proper s \<Longrightarrow> split_on slash (join_with slash names) = names"
  by (simp add: split_join proper_def)

lemma split_clean_relative:
  assumes "clean_relative names r"
  shows "split_on slash r = (if names = [] then [''.'', ''''] else
           if ends_with r [slash] then names @ [''''] else names)"
proof (cases "names = []")
  case True
  with assms show ?thesis by (simp add: clean_relative_def slash_def)
next
  case False
  have sj: "split_on slash (join_with slash names) = names"
    using assms False by (auto simp: clean_relative_def split_join_proper)
  have nosl: "\<not> ends_with (join_with slash names) [slash]"
  proof
    assume "ends_with (join_with slash names) [slash]"
    then obtain t where "join_with slash names = t @ [slash]" by (auto simp: ends_with_iff)
    then have "split_on slash (join_with slash names) = split_on slash t @ ['''']"
      by (simp add: split_on_snoc_sep)
    with sj have "'''' \<in> set names" by (metis in_set_conv_decomp)
    with assms show False by (auto simp: clean_relative_def proper_def)
  qed
  from False assms consider "r = join_with slash names" | "r = join_with slash names @ [slash]"
    by (auto simp: clean_relative_def)
  then show ?thesis
  proof cases
    case 1
    with sj nosl False show ?thesis by simp
  next
    case 2
    with sj False show ?thesis by (auto simp: split_on_snoc_sep ends_with_iff)
  qed
qed

lemma segments_of_clean: "clean_relative names r \<Longrightarrow> ''..'' \<notin> set (split_on slash r)"
proof -
  assume c: "clean_relative names r"
  then have "''..'' \<notin> set names" by (auto simp: clean_relative_def proper_def)
  moreover have "set (split_on slash r) \<subseteq> set names \<union> {''.'', ''''}"
    by (subst split_clean_relative [OF c]) auto
  ultimately show ?thesis by auto
qed

lemma clean_not_dot: "clean_relative names r \<Longrightarrow> r \<noteq> ''.''"
proof
  assume c: "clean_relative names r" and r: "r = ''.''"
  then have "split_on slash r = [''.'']" by (simp add: slash_def)
  moreover have "\<not> ends_with r [slash]" using r by (simp add: ends_with_def slash_def)
  ultimately have "names = [''.'']" using split_clean_relative [OF c] by (simp split: if_splits)
  with c show False by (simp add: clean_relative_def proper_def)
qed

lemma climbing_no_slash: "\<forall>s \<in> set names. proper s \<Longrightarrow> \<forall>w \<in> set (climbing n names). slash \<notin> set w"
proof
  fix w assume pr: "\<forall>s \<in> set names. proper s" and "w \<in> set (climbing n names)"
  then consider "w = ''..''" | "w \<in> set names" by (auto simp: climbing_def)
  then show "slash \<notin> set w"
  proof cases
    case 1
    then show ?thesis by (simp add: slash_def)
  next
    case 2
    with pr show ?thesis by (simp add: proper_def)
  qed
qed

lemma join_with_hd:
  assumes "names \<noteq> []" and "\<forall>s \<in> set names. proper s"
  shows "join_with slash names \<noteq> [] \<and> hd (join_with slash names) \<noteq> slash"
proof -
  obtain w ws where n: "names = w # ws" using assms(1) by (cases names) auto
  with assms(2) obtain c w' where w: "w = c # w'" and "slash \<notin> set w"
    by (cases w) (auto simp: proper_def)
  then have "c \<noteq> slash" by auto
  with n w show ?thesis by (cases ws) auto
qed

lemma clean_relative_hd: "clean_relative names r \<Longrightarrow> r \<noteq> [] \<and> hd r \<noteq> slash"
  using join_with_hd [of names]
  by (auto simp: clean_relative_def slash_def split: if_splits)

lemma clean_relative_no_backslash: "clean_relative names r \<Longrightarrow> CHR 0x5C \<notin> set r"
proof -
  assume c: "clean_relative names r"
  have "CHR 0x5C \<notin> set (join_with slash names)"
  proof
    assume "CHR 0x5C \<in> set (join_with slash names)"
    then have "CHR 0x5C \<in> insert slash (\<Union> (set ` set names))"
      using set_join_with [of slash names] by blast
    then obtain s where "s \<in> set names" and "CHR 0x5C \<in> set s" by (auto simp: slash_def)
    with c show False by (simp add: clean_relative_def proper_def)
  qed
  with c show ?thesis by (auto simp: clean_relative_def slash_def split: if_splits)
qed

lemma clean_relative_normalize:
  assumes "clean_relative names r"
  shows "posix_normalize_relative r = r"
proof (cases "names = []")
  case True
  with assms show ?thesis
    by (simp add: clean_relative_def posix_normalize_relative_def normalize_segment_def
        slash_def ends_with_def)
next
  case False
  have pr: "\<forall>s \<in> set names. proper s" using assms by (simp add: clean_relative_def)
  then have fl: "foldl normalize_segment [] names = names" by (simp add: foldl_normalize_proper)
  have e: "normalize_segment names '''' = names" by (simp add: normalize_segment_def)
  show ?thesis
  proof (cases "ends_with r [slash]")
    case True
    have "r = join_with slash names @ [slash]"
      using split_clean_relative [OF assms] True False assms split_join_proper [OF False pr]
      by (auto simp: clean_relative_def)
    with True False fl e split_clean_relative [OF assms] show ?thesis
      by (simp add: posix_normalize_relative_def)
  next
    case noend: False
    then have "r = join_with slash names"
      using assms False by (auto simp: clean_relative_def ends_with_iff)
    with noend False fl split_clean_relative [OF assms] show ?thesis
      by (simp add: posix_normalize_relative_def)
  qed
qed

lemma sanitize_clean:
  assumes "sanitize_relative_path v = Some r"
  shows "\<exists>names. clean_relative names r"
proof -
  let ?w = "dropWhile (\<lambda>c. c = slash) (replace_backslash v)"
  let ?stack = "foldl normalize_segment [] (split_on slash ?w)"
  from assms have r: "r = posix_normalize_relative ?w"
    and nodd: "''..'' \<notin> set (split_on slash r)" and nodot: "r \<noteq> ''.''"
    by (auto simp: sanitize_relative_path_def Let_def list_ex_iff split: if_splits)
  have "CHR 0x5C \<notin> set ?w"
    by (auto dest!: set_dropWhileD simp: replace_backslash_def slash_def split: if_splits)
  then have segs: "\<forall>seg \<in> set (split_on slash ?w). slash \<notin> set seg \<and> CHR 0x5C \<notin> set seg"
    using split_on_no_sep set_split_on by blast
  obtain n names where st: "?stack = climbing n names" and pr: "\<forall>s \<in> set names. proper s"
    using foldl_normalize_climbing [of "[]" "split_on slash ?w" 0] segs
    by (auto simp: climbing_def)
  show ?thesis
  proof (cases "?stack = []")
    case True
    with r nodot have "r = ''./''" by (auto simp: posix_normalize_relative_def Let_def split: if_splits)
    then show ?thesis by (intro exI [of _ "[]"]) (simp add: clean_relative_def)
  next
    case False
    have rj: "r = join_with slash ?stack \<or> r = join_with slash ?stack @ [slash]"
      using r False by (auto simp: posix_normalize_relative_def Let_def)
    have sep: "\<forall>w \<in> set ?stack. slash \<notin> set w"
      unfolding st by (rule climbing_no_slash [OF pr])
    have "set ?stack \<subseteq> set (split_on slash r)"
      using rj split_join [OF False sep] by (auto simp: split_on_snoc_sep)
    with nodd have "''..'' \<notin> set ?stack" by blast
    with st have "n = 0" by (cases n) (auto simp: climbing_def)
    with st have "?stack = names" by (simp add: climbing_def)
    with rj pr False show ?thesis by (intro exI [of _ names]) (auto simp: clean_relative_def)
  qed
qed

lemma clean_sanitize:
  assumes "clean_relative names r"
  shows "sanitize_relative_path r = Some r"
proof -
  have "replace_backslash r = r"
    using clean_relative_no_backslash [OF assms]
    by (auto simp: replace_backslash_def intro!: map_idI)
  moreover have "dropWhile (\<lambda>c. c = slash) r = r"
    using clean_relative_hd [OF assms] by (cases r) auto
  moreover have "''..'' \<notin> set (split_on slash r)"
    by (rule segments_of_clean [OF assms])
  moreover have "r \<noteq> ''.''"
    by (rule clean_not_dot [OF assms])
  moreover have "r \<noteq> ''..'' \<and> \<not> starts_with r ''../''"
  proof -
    have "split_on slash ''..'' = [''..'']" by (simp add: slash_def)
    moreover have "starts_with r ''../'' \<Longrightarrow> ''..'' \<in> set (split_on slash r)"
    proof -
      assume "starts_with r ''../''"
      then obtain t where "r = ''..'' @ slash # t" by (auto simp: starts_with_iff slash_def)
      then show ?thesis by (simp only: split_on_append_sep) (simp add: slash_def)
    qed
    ultimately show ?thesis using \<open>''..'' \<notin> set (split_on slash r)\<close> by auto
  qed
  moreover have "r \<noteq> [] \<and> \<not> starts_with r ''/''"
    using clean_relative_hd [OF assms] by (cases r) (auto simp: starts_with_iff slash_def)
  ultimately show ?thesis
    using clean_relative_normalize [OF assms]
    by (simp add: sanitize_relative_path_def list_ex_iff)
qed

section \<open>The sanitizer and the containment gate\<close>

lemma clean_relative_components:
  assumes "clean_relative names r"
  shows "relative_components r = map Normal names"
proof -
  have pr: "\<forall>s \<in> set names. segment_component s = [Normal s]"
    using assms by (simp add: clean_relative_def proper_def segment_component_def)
  then have n: "concat (map segment_component names) = map Normal names"
    by (induction names) auto
  show ?thesis unfolding relative_components_def
    by (subst split_clean_relative [OF assms]) (auto simp: n segment_component_def)
qed

lemma clean_relative_not_absolute: "clean_relative names r \<Longrightarrow> \<not> is_absolute r"
  using clean_relative_hd [of names r]
  by (cases r) (auto simp: is_absolute_def starts_with_def)

lemma resolve_component_rooted:
  "\<exists>ys. resolve_component (RootDir # map Normal xs) c = RootDir # map Normal ys"
proof (cases c)
  case RootDir
  then show ?thesis by (intro exI [of _ "[]"]) (simp add: resolve_component_def)
next
  case CurDir
  then show ?thesis by (intro exI [of _ xs]) (simp add: resolve_component_def)
next
  case ParentDir
  then show ?thesis
    by (intro exI [of _ "butlast xs"])
      (simp add: resolve_component_def path_pop_def last_map map_butlast)
next
  case (Normal s)
  then show ?thesis by (intro exI [of _ "xs @ [s]"]) (simp add: resolve_component_def)
qed

lemma foldl_resolve_rooted:
  "\<exists>ys. foldl resolve_component (RootDir # map Normal xs) cs = RootDir # map Normal ys"
proof (induction cs arbitrary: xs)
  case (Cons c cs)
  then show ?case using resolve_component_rooted [of xs c] by auto
qed auto

definition rooted :: "component list \<Rightarrow> bool" where
  "rooted p \<longleftrightarrow> p \<noteq> [] \<and> hd p = RootDir"

lemma lexically_resolve_rooted:
  assumes "rooted cwd \<or> rooted base"
  shows "\<exists>xs. lexically_resolve cwd base = RootDir # map Normal xs"
proof -
  let ?abs = "if base \<noteq> [] \<and> hd base = RootDir then base else cwd @ base"
  obtain cs where abs: "?abs = RootDir # cs"
  proof (cases "rooted base")
    case True
    then have "base = RootDir # tl base" by (cases base) (auto simp: rooted_def)
    with True that show ?thesis by (auto simp: rooted_def)
  next
    case False
    with assms have "cwd = RootDir # tl cwd" by (cases cwd) (auto simp: rooted_def)
    then have "?abs = RootDir # (tl cwd @ base)"
      using False by (auto simp: rooted_def)
    with that show ?thesis by blast
  qed
  show ?thesis unfolding lexically_resolve_def Let_def abs
    using foldl_resolve_rooted [of "[]" cs] by (simp add: resolve_component_def)
qed

lemma foldl_resolve_normals:
  "foldl resolve_component acc (map Normal names) = acc @ map Normal names"
  by (induction names arbitrary: acc) (auto simp: resolve_component_def)

lemma lexically_resolve_canonical:
  "lexically_resolve cwd (RootDir # map Normal xs) = RootDir # map Normal xs"
  by (simp add: lexically_resolve_def resolve_component_def foldl_resolve_normals)

lemma clean_contained:
  assumes "clean_relative names r" and "rooted cwd \<or> rooted base"
  shows "contained_path cwd base r = Some (lexically_resolve cwd base @ map Normal names)"
proof -
  obtain xs where b: "lexically_resolve cwd base = RootDir # map Normal xs"
    using lexically_resolve_rooted [OF assms(2)] ..
  have "join_components (RootDir # map Normal xs) r = RootDir # map Normal (xs @ names)"
    using clean_relative_not_absolute [OF assms(1)] clean_relative_components [OF assms(1)]
    by (simp add: join_components_def)
  then show ?thesis
    unfolding contained_path_def b Let_def
    using lexically_resolve_canonical [of cwd "xs @ names"] by simp
qed

text \<open>
  C19. A path the sanitizer accepts never leaves the directory it is joined to: the independent
  lexical containment check of the bundle reader accepts it, and the resolved path is the
  resolved base followed by plain names only. The base or the working directory is absolute.
\<close>

theorem sanitized_path_contained:
  assumes "sanitize_relative_path v = Some r" and "rooted cwd \<or> rooted base"
  shows "\<exists>names. contained_path cwd base r = Some (lexically_resolve cwd base @ map Normal names)"
  using sanitize_clean [OF assms(1)] clean_contained [OF _ assms(2)] by blast

theorem sanitized_path_contained_witness:
  "sanitize_relative_path ''a//b/../c.html'' = Some ''a/c.html'' \<and>
   (\<exists>names. contained_path [] [RootDir, Normal ''data''] ''a/c.html'' =
      Some (lexically_resolve [] [RootDir, Normal ''data''] @ map Normal names))"
proof -
  have h: "sanitize_relative_path ''a//b/../c.html'' = Some ''a/c.html''" by code_simp
  have r: "rooted [] \<or> rooted [RootDir, Normal ''data'']" by (simp add: rooted_def)
  show ?thesis using h sanitized_path_contained [OF h r] by simp
qed

text \<open>
  The sanitizer is idempotent, and what it returns has no parent segment, no leading
  separator and no backslash.
\<close>

theorem sanitize_idempotent:
  assumes "sanitize_relative_path v = Some r"
  shows "sanitize_relative_path r = Some r \<and> ''..'' \<notin> set (split_on slash r) \<and>
         \<not> is_absolute r \<and> CHR 0x5C \<notin> set r"
proof -
  obtain names where c: "clean_relative names r" using sanitize_clean [OF assms] ..
  show ?thesis
    using clean_sanitize [OF c] segments_of_clean [OF c] clean_relative_not_absolute [OF c]
      clean_relative_no_backslash [OF c] by blast
qed

theorem sanitize_idempotent_witness:
  "sanitize_relative_path ''/x/./y/'' = Some ''x/y/'' \<and>
   sanitize_relative_path ''x/y/'' = Some ''x/y/''"
proof -
  have h: "sanitize_relative_path ''/x/./y/'' = Some ''x/y/''" by code_simp
  show ?thesis using h sanitize_idempotent [OF h] by simp
qed

section \<open>Bundle admission\<close>

lemma clean_files_Inr:
  assumes "clean_files t0 c0 files = Inr (t, c)" and "0 \<le> t0" and "t0 \<le> u64_max"
  shows "\<exists>rels. c = c0 @ rels \<and> map snd rels = map snd files \<and>
           list_all2 (\<lambda>f g. sanitize_relative_path (fst f) = Some (fst g)) files rels \<and>
           t = min u64_max (t0 + int (sum_list (map (length \<circ> snd) files)))"
  using assms
proof (induction files arbitrary: t0 c0)
  case Nil
  then show ?case by simp
next
  case (Cons f files)
  obtain raw content where f: "f = (raw, content)" by (cases f)
  with Cons.prems obtain rel where s: "sanitize_relative_path raw = Some rel"
    and rest: "clean_files (u64_saturating_add t0 (int (length content))) (c0 @ [(rel, content)]) files
               = Inr (t, c)"
    by (auto split: option.splits)
  have "0 \<le> u64_saturating_add t0 (int (length content))"
    and "u64_saturating_add t0 (int (length content)) \<le> u64_max"
    using Cons.prems(2) by (auto simp: u64_saturating_add_def u64_max_def)
  from Cons.IH [OF rest this] obtain rels where r: "c = (c0 @ [(rel, content)]) @ rels"
    "map snd rels = map snd files"
    "list_all2 (\<lambda>f g. sanitize_relative_path (fst f) = Some (fst g)) files rels"
    "t = min u64_max (u64_saturating_add t0 (int (length content)) +
           int (sum_list (map (length \<circ> snd) files)))"
    by blast
  have tt: "t = min u64_max (t0 + int (sum_list (map (length \<circ> snd) (f # files))))"
    unfolding r(4) f u64_saturating_add_def by simp
  show ?case
    by (rule exI [of _ "(rel, content) # rels"], intro conjI tt) (use r(1-3) f s in simp_all)
qed

lemma find_entry_mem: "List.find P clean = Some f \<Longrightarrow> f \<in> set clean \<and> P f"
  by (auto simp: find_Some_iff)

lemma has_file_iff: "has_file clean rel \<longleftrightarrow> rel \<in> fst ` set clean"
  by (auto simp: has_file_def list_ex_iff image_iff)

lemma auto_entry_mem: "auto_entry clean = Inr e \<Longrightarrow> e \<in> fst ` set clean"
  by (auto simp: auto_entry_def has_file_iff split: option.splits if_splits dest!: find_entry_mem
      intro: imageI)

lemma select_entry_mem: "select_entry clean entry prefer = Inr e \<Longrightarrow> e \<in> fst ` set clean"
  by (auto simp: select_entry_def select_entry_fallback_def has_file_iff
      split: option.splits if_splits dest!: auto_entry_mem)

lemma auto_entry_html: "auto_entry clean = Inr e \<Longrightarrow> ends_with e ''.html''"
  by (auto simp: auto_entry_def DEFAULT_BUNDLE_ENTRY_def ends_with_def find_Some_iff split: if_splits option.splits)

lemma fallback_choice: "select_entry_fallback clean prefer = Inr e \<Longrightarrow> prefer = Some e \<or> ends_with e ''.html''"
  by (auto simp: select_entry_fallback_def nonempty_filter_def auto_entry_html split: option.splits if_splits)

lemma select_entry_choice:
  assumes "select_entry clean entry prefer = Inr e"
  shows "case Option.bind (nonempty_filter entry) sanitize_relative_path of
    Some requested \<Rightarrow> e = requested | None \<Rightarrow> prefer = Some e \<or> ends_with e ''.html''"
  using assms fallback_choice by (auto simp: select_entry_def split: option.splits if_splits)

text \<open>
  C40. A bundle that is admitted holds at least one file and at most the configured number,
  its paths are the sanitized forms of the submitted ones in the publisher's order with the
  contents unchanged, its byte total is the exact sum (saturating at the largest 64-bit value)
  and within the limit. Its entry is one of its files: the requested one when the request names a
  path that sanitizes, and otherwise the preferred one or a file whose name ends in .html (so a
  requested or preferred entry need not be HTML).
\<close>

theorem validate_bundle_sound:
  assumes "validate_bundle files entry prefer limits = Inr vb"
  shows "vbun_files vb \<noteq> [] \<and> int (length (vbun_files vb)) \<le> max_bundle_files limits \<and>
         map snd (vbun_files vb) = map snd files \<and>
         list_all2 (\<lambda>f g. sanitize_relative_path (fst f) = Some (fst g)) files (vbun_files vb) \<and>
         vbun_total_bytes vb = min u64_max (int (sum_list (map (length \<circ> snd) files))) \<and>
         vbun_total_bytes vb \<le> max_bundle_bytes limits \<and>
         vbun_entry vb \<in> fst ` set (vbun_files vb) \<and>
         (case Option.bind (nonempty_filter entry) sanitize_relative_path of
            Some requested \<Rightarrow> vbun_entry vb = requested
          | None \<Rightarrow> prefer = Some (vbun_entry vb) \<or> ends_with (vbun_entry vb) ''.html'')"
proof -
  from assms obtain t c e where g: "files \<noteq> []" "int (length files) \<le> max_bundle_files limits"
    and cf: "clean_files 0 [] files = Inr (t, c)" and lim: "t \<le> max_bundle_bytes limits"
    and se: "select_entry c entry prefer = Inr e"
    and vb: "vb = \<lparr> vbun_files = c, vbun_total_bytes = t, vbun_entry = e \<rparr>"
    by (auto simp: validate_bundle_def try_bind_Inr_iff split: if_splits prod.splits)
  from clean_files_Inr [OF cf] have c: "map snd c = map snd files"
    "list_all2 (\<lambda>f g. sanitize_relative_path (fst f) = Some (fst g)) files c"
    "t = min u64_max (int (sum_list (map (length \<circ> snd) files)))"
    by (auto simp: u64_max_def)
  have "length c = length files" using c(1) by (metis length_map)
  moreover have sel: "vbun_files vb = c" "vbun_total_bytes vb = t" "vbun_entry vb = e" by (simp_all add: vb)
  ultimately show ?thesis
    unfolding sel using g c lim select_entry_mem [OF se] select_entry_choice [OF se] by (intro conjI) auto
qed

definition demo_limits :: StorageLimits where
  "demo_limits = \<lparr> max_history = 20, max_artifact_bytes = 100, max_bundle_bytes = 100, max_bundle_files = 3 \<rparr>"

theorem validate_bundle_sound_witness:
  "\<exists>vb. validate_bundle [(''z.html'', ''zz''), (''a/../b.html'', ''b'')] None None demo_limits = Inr vb
     \<and> vbun_entry vb = ''z.html'' \<and> vbun_entry vb \<in> fst ` set (vbun_files vb)"
proof -
  have h: "validate_bundle [(''z.html'', ''zz''), (''a/../b.html'', ''b'')] None None demo_limits =
      Inr \<lparr> vbun_files = [(''z.html'', ''zz''), (''b.html'', ''b'')], vbun_total_bytes = 3,
            vbun_entry = ''z.html'' \<rparr>" by code_simp
  show ?thesis using h validate_bundle_sound [OF h] by auto
qed

section \<open>Names on disk\<close>

lemma split_once_append: "d \<notin> set a \<Longrightarrow> split_once d (a @ d # b) = Some (a, b)"
  by (induction a) auto

lemma valid_id_no_dot:
  assumes "is_valid_artifact_id aid"
  shows "CHR ''.'' \<notin> set aid \<and> slash \<notin> set aid"
proof -
  have "list_all (\<lambda>c. is_ascii_digit c \<or> is_ascii_lowercase c) aid"
    using assms by (simp add: is_valid_artifact_id_def)
  moreover have "\<not> (is_ascii_digit CHR ''.'' \<or> is_ascii_lowercase CHR ''.'')"
    and "\<not> (is_ascii_digit slash \<or> is_ascii_lowercase slash)"
    by (simp_all add: str_simps slash_def)
  ultimately show ?thesis by (metis list_all_iff)
qed

text \<open>
  The name of a transient body is recognised as such and gives back the artifact it
  belongs to, for both kinds; start-up recovery depends on this round trip.
\<close>

theorem transient_name_roundtrip:
  assumes "is_valid_artifact_id aid"
  shows "is_transient_name (transient_name aid kind token) \<and>
         transient_name_artifact_id (transient_name aid kind token) = Some aid"
proof
  have split: "split_once CHR ''.'' (aid @ CHR ''.'' # rest) = Some (aid, rest)" for rest
    using valid_id_no_dot [OF assms] by (simp add: split_once_append)
  show "transient_name_artifact_id (transient_name aid kind token) = Some aid"
    using assms split
    by (cases kind) (simp_all add: transient_name_artifact_id_def transient_name_def
        strip_prefix_def starts_with_def SafeArtifactId_parse_def)
  have "contains_str (transient_name aid kind token) (''.'' @ TransientKind_as_str kind @ ''-'')"
    unfolding contains_str_iff transient_name_def
    by (intro exI [of _ "''.'' @ aid"] exI [of _ token]) simp
  then show "is_transient_name (transient_name aid kind token)"
    by (cases kind) (simp_all add: is_transient_name_def transient_name_def starts_with_def)
qed

theorem transient_name_roundtrip_witness:
  "is_valid_artifact_id ''abc123'' \<and>
   transient_name_artifact_id (transient_name ''abc123'' Trash ''qqqqqq'') = Some ''abc123''"
proof -
  have h: "is_valid_artifact_id ''abc123''" by code_simp
  show ?thesis using h transient_name_roundtrip [OF h] by simp
qed

lemma path_join_inject:
  "\<not> is_absolute a \<Longrightarrow> \<not> is_absolute b \<Longrightarrow> path_join dir a = path_join dir b \<longleftrightarrow> a = b"
  by (simp add: path_join_def)

lemma show_nat_not_absolute: "\<not> is_absolute (show_nat n @ s)"
proof
  assume "is_absolute (show_nat n @ s)"
  then have "hd (show_nat n) = slash"
    by (cases "show_nat n") (auto simp: is_absolute_def starts_with_def)
  moreover have "hd (show_nat n) \<in> set (show_nat n)" by simp
  ultimately have "is_ascii_digit slash" by (metis show_nat_digits)
  then show False by (simp add: str_simps slash_def)
qed

lemma show_nat_append_inject:
  assumes "show_nat m @ ''.html'' = show_nat n"
  shows False
proof -
  have "CHR ''.'' \<in> set (show_nat n)" by (simp flip: assms)
  then have "is_ascii_digit CHR ''.''" by (rule show_nat_digits)
  then show False by (simp add: str_simps)
qed

text \<open>
  Snapshots of different revisions, or of different shapes, never share a history path.
\<close>

theorem history_body_path_inject:
  "history_body_path dir aid m b = history_body_path dir aid n c \<longleftrightarrow> m = n \<and> b = c"
proof -
  have na: "\<not> is_absolute (show_nat k)" for k using show_nat_not_absolute [of k "[]"] by simp
  show ?thesis
    using show_nat_append_inject [of m n] show_nat_append_inject [of n m]
    by (cases b; cases c)
      (auto simp: history_body_path_def path_join_inject na show_nat_not_absolute)
qed

end
