(* ===== verification/Access.thy ===== *)
theory Access
  imports Bundle_Paths
begin

text \<open>
  Identity values and the access policy: src/src/model/identity.rs,
  src/src/model/artifact.rs (metadata) and src/src/security/access.rs.

  Every decision of the policy is a total function here, as it is in the source. The private
  wrappers \<open>AuthorizedArtifact\<close> and \<open>OwnedArtifact\<close> are datatypes over the metadata. The
  theory shows when each decision succeeds, that the publisher capabilities form a chain
  (delete, write, read), and that no answer given to a viewer or a publisher depends on
  artifacts of another organization: a locale states that law once for every gate of the
  policy, and each gate is an interpretation of it.
\<close>

section \<open>Identities and metadata\<close>

datatype Role = Reader | Author | Collaborator

fun Role_as_str :: "Role \<Rightarrow> string" where
  "Role_as_str Reader = ''reader''"
| "Role_as_str Author = ''author''"
| "Role_as_str Collaborator = ''collaborator''"

datatype RoleParseError = InvalidRole

definition Role_from_str :: "string \<Rightarrow> RoleParseError + Role" where
  "Role_from_str value =
     (if value = ''reader'' then Inr Reader
      else if value = ''author'' then Inr Author
      else if value = ''collaborator'' then Inr Collaborator
      else Inl InvalidRole)"

record PublisherIdentity =
  pi_client_id :: string
  pi_org :: string
  pi_label :: string
  pi_role :: Role
  pi_scopes :: "string list option"

definition PublisherIdentity_is_admin :: "PublisherIdentity \<Rightarrow> bool" where
  "PublisherIdentity_is_admin p \<longleftrightarrow> pi_org p = ''admin''"

definition is_oauth :: "PublisherIdentity \<Rightarrow> bool" where
  "is_oauth p \<longleftrightarrow> pi_scopes p \<noteq> None"

definition has_scope :: "PublisherIdentity \<Rightarrow> string \<Rightarrow> bool" where
  "has_scope p required =
     (case pi_scopes p of None \<Rightarrow> True | Some scopes \<Rightarrow> List.member scopes required)"

record Viewer =
  v_email :: "string option"
  v_org :: "string option"
  v_is_admin :: bool

record ArtifactMeta =
  am_id :: string
  am_client_id :: string
  am_org :: string
  am_title :: string
  am_description :: string
  am_bytes :: int
  am_created_at :: string
  am_updated_at :: string
  am_uploader_label :: string
  am_owner_email :: "string option"
  am_is_bundle :: bool
  am_entry :: string
  am_revision :: int
  am_category :: string
  am_hidden :: bool
  am_body_sha256 :: string
  am_artifact_key :: "string option"

record ShareGrant =
  sg_artifact_id :: string
  sg_org :: string

datatype AuthorizedArtifact = AuthorizedArtifact ArtifactMeta
datatype OwnedArtifact = OwnedArtifact ArtifactMeta

fun authorized_meta :: "AuthorizedArtifact \<Rightarrow> ArtifactMeta" where
  "authorized_meta (AuthorizedArtifact m) = m"

fun owned_meta :: "OwnedArtifact \<Rightarrow> ArtifactMeta" where
  "owned_meta (OwnedArtifact m) = m"

fun into_authorized :: "OwnedArtifact \<Rightarrow> AuthorizedArtifact" where
  "into_authorized (OwnedArtifact m) = AuthorizedArtifact m"

section \<open>Viewer decisions\<close>

definition ADMIN_ORG :: string where "ADMIN_ORG = ''admin''"

definition unknown_artifact_message :: "string \<Rightarrow> string" where
  "unknown_artifact_message aid = ''Unknown artifact: '' @ aid"

datatype Concealment = Conceal | Reveal

datatype ListScope = AllScope | OrgScope | OwnScope

definition signed_in_email :: "Viewer \<Rightarrow> string option" where
  "signed_in_email viewer = nonempty_filter (v_email viewer)"

definition tenant_org :: "Viewer \<Rightarrow> string option" where
  "tenant_org viewer = nonempty_filter (v_org viewer)"

definition is_signed_in :: "Viewer \<Rightarrow> bool" where
  "is_signed_in viewer \<longleftrightarrow> signed_in_email viewer \<noteq> None"

definition viewer_may_read :: "Viewer \<Rightarrow> ArtifactMeta \<Rightarrow> bool" where
  "viewer_may_read viewer artifact \<longleftrightarrow>
     v_is_admin viewer \<or> tenant_org viewer = Some (am_org artifact)"

definition viewer_can_manage_artifact :: "Viewer \<Rightarrow> ArtifactMeta \<Rightarrow> bool" where
  "viewer_can_manage_artifact viewer artifact =
     (case signed_in_email viewer of
        None \<Rightarrow> False
      | Some viewer_email \<Rightarrow>
          if v_is_admin viewer then True
          else if tenant_org viewer \<noteq> Some (am_org artifact) then False
          else (case nonempty_filter (am_owner_email artifact) of
                  None \<Rightarrow> False
                | Some owner_email \<Rightarrow> eq_ignore_ascii_case owner_email viewer_email))"

definition artifact_access :: "Viewer \<Rightarrow> ArtifactMeta option \<Rightarrow> Concealment \<Rightarrow> unit result" where
  "artifact_access viewer artifact concealment =
     (case artifact of
        None \<Rightarrow> Inl ConcealedNotFound
      | Some a \<Rightarrow>
          if \<not> is_signed_in viewer then
            Inl (case concealment of Conceal \<Rightarrow> ConcealedNotFound
                                   | Reveal \<Rightarrow> Unauthorized ''Not signed in'')
          else if viewer_may_read viewer a then Inr ()
          else Inl (case concealment of Conceal \<Rightarrow> ConcealedNotFound
                                      | Reveal \<Rightarrow> Forbidden ''Forbidden''))"

definition authorize_viewer :: "Viewer \<Rightarrow> ArtifactMeta option \<Rightarrow> AuthorizedArtifact result" where
  "authorize_viewer viewer artifact =
     try_bind (artifact_access viewer artifact Conceal) (\<lambda>_.
       case artifact of None \<Rightarrow> Inl ConcealedNotFound | Some a \<Rightarrow> Inr (AuthorizedArtifact a))"

definition lookup_target :: "string \<Rightarrow> string option" where
  "lookup_target aid = (if is_reserved_artifact_id aid then None else Some aid)"

definition admin_access :: "Viewer \<Rightarrow> unit result" where
  "admin_access viewer =
     (if \<not> is_signed_in viewer then Inl (Forbidden ''Not signed in'')
      else if \<not> v_is_admin viewer then Inl (Forbidden ''Admins only'')
      else Inr ())"

section \<open>Publisher decisions\<close>

definition publisher_is_admin :: "PublisherIdentity \<Rightarrow> bool" where
  "publisher_is_admin auth \<longleftrightarrow> pi_org auth = ADMIN_ORG"

definition publisher_list_scope :: "PublisherIdentity \<Rightarrow> ListScope" where
  "publisher_list_scope p =
     (if publisher_is_admin p then AllScope
      else (case pi_role p of Reader \<Rightarrow> OrgScope | Collaborator \<Rightarrow> OrgScope | Author \<Rightarrow> OwnScope))"

definition publisher_can_publish :: "PublisherIdentity \<Rightarrow> bool" where
  "publisher_can_publish p \<longleftrightarrow> publisher_is_admin p \<or> pi_role p \<noteq> Reader"

definition publisher_owns :: "PublisherIdentity \<Rightarrow> ArtifactMeta \<Rightarrow> bool" where
  "publisher_owns auth artifact \<longleftrightarrow>
     am_client_id artifact = pi_client_id auth \<and> am_org artifact = pi_org auth"

definition publisher_shares_org :: "PublisherIdentity \<Rightarrow> ArtifactMeta \<Rightarrow> bool" where
  "publisher_shares_org auth artifact \<longleftrightarrow> am_org artifact = pi_org auth"

definition publisher_can_read_row ::
    "bool \<Rightarrow> string \<Rightarrow> string \<Rightarrow> Role \<Rightarrow> string \<Rightarrow> string \<Rightarrow> bool" where
  "publisher_can_read_row is_admin publisher_org publisher_client_id role artifact_org artifact_client_id \<longleftrightarrow>
     is_admin \<or>
     publisher_org = artifact_org \<and>
     (case role of
        Reader \<Rightarrow> True
      | Collaborator \<Rightarrow> True
      | Author \<Rightarrow> publisher_client_id = artifact_client_id)"

definition publisher_can_read :: "PublisherIdentity \<Rightarrow> ArtifactMeta \<Rightarrow> bool" where
  "publisher_can_read auth artifact \<longleftrightarrow>
     publisher_can_read_row (publisher_is_admin auth) (pi_org auth) (pi_client_id auth)
       (pi_role auth) (am_org artifact) (am_client_id artifact)"

definition publisher_can_write :: "PublisherIdentity \<Rightarrow> ArtifactMeta \<Rightarrow> bool" where
  "publisher_can_write auth artifact \<longleftrightarrow>
     (if publisher_is_admin auth then True
      else publisher_shares_org auth artifact \<and>
           (pi_role auth = Collaborator \<or> pi_role auth = Author \<and> publisher_owns auth artifact))"

definition publisher_can_delete :: "PublisherIdentity \<Rightarrow> ArtifactMeta \<Rightarrow> bool" where
  "publisher_can_delete auth artifact \<longleftrightarrow>
     publisher_is_admin auth \<or>
     (pi_role auth = Author \<or> pi_role auth = Collaborator) \<and> publisher_owns auth artifact"

definition authorize_publisher_read ::
    "PublisherIdentity \<Rightarrow> ArtifactMeta option \<Rightarrow> string \<Rightarrow> OwnedArtifact result" where
  "authorize_publisher_read auth artifact aid =
     (case artifact of
        None \<Rightarrow> Inl (NotFound (unknown_artifact_message aid))
      | Some a \<Rightarrow>
          if \<not> publisher_is_admin auth \<and> \<not> publisher_shares_org auth a
          then Inl (NotFound (unknown_artifact_message aid))
          else if publisher_can_read auth a then Inr (OwnedArtifact a)
          else Inl (Forbidden ''Permission denied: this API key cannot read this artifact''))"

definition authorize_publisher_write ::
    "PublisherIdentity \<Rightarrow> ArtifactMeta option \<Rightarrow> string \<Rightarrow> OwnedArtifact result" where
  "authorize_publisher_write auth artifact aid =
     (case artifact of
        None \<Rightarrow> Inl (NotFound (unknown_artifact_message aid))
      | Some a \<Rightarrow>
          if \<not> publisher_is_admin auth \<and> \<not> publisher_shares_org auth a
          then Inl (NotFound (unknown_artifact_message aid))
          else if publisher_can_write auth a then Inr (OwnedArtifact a)
          else Inl (Forbidden ''Permission denied: this API key cannot modify this artifact''))"

definition authorize_publisher_delete ::
    "PublisherIdentity \<Rightarrow> ArtifactMeta option \<Rightarrow> string \<Rightarrow> OwnedArtifact result" where
  "authorize_publisher_delete auth artifact aid =
     (case artifact of
        None \<Rightarrow> Inl (NotFound (unknown_artifact_message aid))
      | Some a \<Rightarrow>
          if \<not> publisher_is_admin auth \<and> \<not> publisher_shares_org auth a
          then Inl (NotFound (unknown_artifact_message aid))
          else if publisher_can_delete auth a then Inr (OwnedArtifact a)
          else Inl (Forbidden ''Permission denied: this API key cannot delete this artifact''))"

definition share_matches :: "ShareGrant \<Rightarrow> ArtifactMeta \<Rightarrow> bool" where
  "share_matches grant artifact \<longleftrightarrow> sg_org grant = am_org artifact"

definition authorize_share :: "ShareGrant \<Rightarrow> ArtifactMeta option \<Rightarrow> AuthorizedArtifact result" where
  "authorize_share grant artifact =
     (case artifact of
        Some a \<Rightarrow> if share_matches grant a then Inr (AuthorizedArtifact a) else Inl ConcealedNotFound
      | None \<Rightarrow> Inl ConcealedNotFound)"

text \<open>
  The composed human gate; \<open>find_meta\<close> is the artifact service's lookup, which may fail.
\<close>

definition resolve_for_viewer ::
    "(string \<Rightarrow> ArtifactMeta option result) \<Rightarrow> Viewer \<Rightarrow> string \<Rightarrow> AuthorizedArtifact result" where
  "resolve_for_viewer find_meta viewer aid =
     try_bind (case lookup_target aid of Some target \<Rightarrow> find_meta target | None \<Rightarrow> Inr None)
       (\<lambda>meta. authorize_viewer viewer meta)"

section \<open>Gates that conceal\<close>

text \<open>
  The contract shared by every gate of the policy: a record the caller may not know about is
  answered like a record that does not exist. \<open>visible\<close> says what the caller may know.
\<close>

locale concealing_gate =
  fixes gate :: "'who \<Rightarrow> 'meta option \<Rightarrow> 'err + 'cap"
    and visible :: "'who \<Rightarrow> 'meta \<Rightarrow> bool"
    and denied :: "'who \<Rightarrow> 'err"
  assumes missing: "gate who None = Inl (denied who)"
    and foreign: "\<not> visible who m \<Longrightarrow> gate who (Some m) = Inl (denied who)"
begin

text \<open>The part of a lookup the caller may know.\<close>

definition view :: "'who \<Rightarrow> 'meta option \<Rightarrow> 'meta option" where
  "view who r = (case r of None \<Rightarrow> None | Some m \<Rightarrow> if visible who m then Some m else None)"

lemma gate_view: "gate who (view who r) = gate who r"
  by (auto simp: view_def missing foreign split: option.splits)

lemma noninterference: "view who r = view who r' \<Longrightarrow> gate who r = gate who r'"
  by (metis gate_view)

lemma granted_visible: "gate who (Some m) = Inr c \<Longrightarrow> visible who m"
  using foreign by force

lemma granted_present: "gate who r = Inr c \<Longrightarrow> \<exists>m. r = Some m \<and> visible who m"
  by (cases r) (auto simp: missing dest: granted_visible)

end

definition viewer_sees :: "Viewer \<Rightarrow> ArtifactMeta \<Rightarrow> bool" where
  "viewer_sees viewer a \<longleftrightarrow> is_signed_in viewer \<and> viewer_may_read viewer a"

definition publisher_sees :: "PublisherIdentity \<times> string \<Rightarrow> ArtifactMeta \<Rightarrow> bool" where
  "publisher_sees who a \<longleftrightarrow> publisher_is_admin (fst who) \<or> publisher_shares_org (fst who) a"

definition publisher_denied :: "PublisherIdentity \<times> string \<Rightarrow> AppError" where
  "publisher_denied who = NotFound (unknown_artifact_message (snd who))"

lemmas gate_defs = authorize_viewer_def artifact_access_def authorize_publisher_read_def
  authorize_publisher_write_def authorize_publisher_delete_def authorize_share_def
  viewer_sees_def publisher_sees_def publisher_denied_def

interpretation viewer_gate: concealing_gate authorize_viewer viewer_sees "\<lambda>_. ConcealedNotFound"
  by unfold_locales (auto simp: gate_defs)

interpretation read_gate: concealing_gate
  "\<lambda>who m. authorize_publisher_read (fst who) m (snd who)" publisher_sees publisher_denied
  by unfold_locales (auto simp: gate_defs)

interpretation write_gate: concealing_gate
  "\<lambda>who m. authorize_publisher_write (fst who) m (snd who)" publisher_sees publisher_denied
  by unfold_locales (auto simp: gate_defs)

interpretation delete_gate: concealing_gate
  "\<lambda>who m. authorize_publisher_delete (fst who) m (snd who)" publisher_sees publisher_denied
  by unfold_locales (auto simp: gate_defs)

interpretation share_gate: concealing_gate authorize_share share_matches "\<lambda>_. ConcealedNotFound"
  by unfold_locales (auto simp: gate_defs)

section \<open>Properties\<close>

text \<open>The records of one organization that a lookup may return, for a tenant's own view.\<close>

definition org_view :: "string \<Rightarrow> ArtifactMeta option \<Rightarrow> ArtifactMeta option" where
  "org_view org r = (case r of None \<Rightarrow> None | Some m \<Rightarrow> if am_org m = org then Some m else None)"

lemma viewer_view_org:
  assumes "\<not> v_is_admin viewer" and "tenant_org viewer = Some org \<or> tenant_org viewer = None"
    and "org_view org r = org_view org r'"
  shows "viewer_gate.view viewer r = viewer_gate.view viewer r'"
  using assms
  by (auto simp: viewer_gate.view_def viewer_sees_def viewer_may_read_def org_view_def
      split: option.splits if_splits)

text \<open>
  C5. Invariant 3 for people: what a non-administrator is told about an id does not depend on
  the artifacts of any other organization. For two stores that agree on the artifacts of the
  viewer's organization, the composed gate answers identically for every id, reserved,
  missing, foreign or owned.
\<close>

theorem resolve_for_viewer_noninterference:
  assumes "\<not> v_is_admin viewer" and "tenant_org viewer = Some org \<or> tenant_org viewer = None"
    and "\<And>i. org_view org (store i) = org_view org (store' i)"
  shows "resolve_for_viewer (\<lambda>i. Inr (store i)) viewer aid =
         resolve_for_viewer (\<lambda>i. Inr (store' i)) viewer aid"
proof (cases "lookup_target aid")
  case None
  then show ?thesis by (simp add: resolve_for_viewer_def)
next
  case (Some target)
  have "viewer_gate.view viewer (store target) = viewer_gate.view viewer (store' target)"
    using assms by (rule viewer_view_org)
  then have "authorize_viewer viewer (store target) = authorize_viewer viewer (store' target)"
    by (rule viewer_gate.noninterference)
  with Some show ?thesis by (simp add: resolve_for_viewer_def)
qed

definition demo_meta :: "string \<Rightarrow> string \<Rightarrow> ArtifactMeta" where
  "demo_meta org client =
     \<lparr> am_id = ''abc123def456'', am_client_id = client, am_org = org, am_title = ''T'',
       am_description = [], am_bytes = 12, am_created_at = [], am_updated_at = [],
       am_uploader_label = [], am_owner_email = None, am_is_bundle = False,
       am_entry = ''index.html'', am_revision = 1, am_category = [], am_hidden = False,
       am_body_sha256 = [], am_artifact_key = None \<rparr>"

definition demo_viewer :: Viewer where
  "demo_viewer = \<lparr> v_email = Some ''b@other.test'', v_org = Some ''other'', v_is_admin = False \<rparr>"

theorem resolve_for_viewer_noninterference_witness:
  "resolve_for_viewer (\<lambda>i. Inr (Some (demo_meta ''acme'' ''k''))) demo_viewer ''abc123def456'' =
   resolve_for_viewer (\<lambda>i. Inr None) demo_viewer ''abc123def456''"
proof -
  have h: "\<not> v_is_admin demo_viewer" by (simp add: demo_viewer_def)
  have o1: "tenant_org demo_viewer = Some ''other'' \<or> tenant_org demo_viewer = None"
    by (simp add: demo_viewer_def tenant_org_def nonempty_filter_def)
  have v: "org_view ''other'' (Some (demo_meta ''acme'' ''k'')) = org_view ''other'' None"
    by (simp add: org_view_def demo_meta_def)
  show ?thesis
    using resolve_for_viewer_noninterference
      [OF h o1, of "\<lambda>i. Some (demo_meta ''acme'' ''k'')" "\<lambda>i. None" "''abc123def456''"] v by simp
qed

lemma publisher_view_org:
  assumes "\<not> publisher_is_admin auth" and "org_view (pi_org auth) r = org_view (pi_org auth) r'"
  shows "read_gate.view (auth, aid) r = read_gate.view (auth, aid) r'"
  using assms
  by (auto simp: read_gate.view_def publisher_sees_def publisher_shares_org_def org_view_def
      split: option.splits if_splits)

text \<open>
  Invariant 3 for agents: the read, write and delete decisions of a key outside the
  administrator organization depend only on the artifacts of the key's own organization.
\<close>

theorem publisher_gates_noninterference:
  assumes "\<not> publisher_is_admin auth" and "org_view (pi_org auth) r = org_view (pi_org auth) r'"
  shows "authorize_publisher_read auth r aid = authorize_publisher_read auth r' aid \<and>
         authorize_publisher_write auth r aid = authorize_publisher_write auth r' aid \<and>
         authorize_publisher_delete auth r aid = authorize_publisher_delete auth r' aid"
proof -
  have v: "read_gate.view (auth, aid) r = read_gate.view (auth, aid) r'"
    using assms by (rule publisher_view_org)
  show ?thesis
    using read_gate.noninterference [OF v] write_gate.noninterference [OF v]
      delete_gate.noninterference [OF v] by simp
qed

definition demo_key :: PublisherIdentity where
  "demo_key = \<lparr> pi_client_id = ''key'', pi_org = ''other'', pi_label = [], pi_role = Collaborator,
                pi_scopes = None \<rparr>"

theorem publisher_gates_noninterference_witness:
  "authorize_publisher_write demo_key (Some (demo_meta ''acme'' ''key'')) ''x'' =
   authorize_publisher_write demo_key None ''x''"
proof -
  have h: "\<not> publisher_is_admin demo_key"
    by (simp add: demo_key_def publisher_is_admin_def ADMIN_ORG_def)
  have v: "org_view (pi_org demo_key) (Some (demo_meta ''acme'' ''key'')) = org_view (pi_org demo_key) None"
    by (simp add: org_view_def demo_meta_def demo_key_def)
  show ?thesis using publisher_gates_noninterference [OF h v, of "''x''"] by blast
qed

text \<open>
  Publisher capabilities form a chain: whoever may delete may write, whoever may write may
  read, and outside the administrator organization each of them needs the artifact's own
  organization; a reader key never writes or deletes there, and only the owning key deletes.
\<close>

theorem publisher_capability_chain:
  "(publisher_can_delete auth a \<longrightarrow> publisher_can_write auth a) \<and>
   (publisher_can_write auth a \<longrightarrow> publisher_can_read auth a) \<and>
   (\<not> publisher_is_admin auth \<longrightarrow>
      (publisher_can_read auth a \<longrightarrow> am_org a = pi_org auth) \<and>
      (publisher_can_write auth a \<longrightarrow> pi_role auth \<noteq> Reader) \<and>
      (publisher_can_delete auth a \<longrightarrow> am_client_id a = pi_client_id auth))"
  by (cases "pi_role auth")
    (auto simp: publisher_can_delete_def publisher_can_write_def publisher_can_read_def
      publisher_can_read_row_def publisher_owns_def publisher_shares_org_def)

theorem publisher_capability_chain_witness:
  "publisher_can_write demo_key (demo_meta ''other'' ''k2'') \<and>
   publisher_can_read demo_key (demo_meta ''other'' ''k2'')"
proof -
  have h: "publisher_can_write demo_key (demo_meta ''other'' ''k2'')" by code_simp
  show ?thesis using h publisher_capability_chain [of demo_key "demo_meta ''other'' ''k2''"] by blast
qed

text \<open>
  The three publisher gates grant exactly when the corresponding capability holds, and
  they hand out the metadata they were asked about.
\<close>

theorem publisher_gates_exact:
  "(authorize_publisher_read auth r aid = Inr c \<longleftrightarrow>
      (\<exists>a. r = Some a \<and> publisher_can_read auth a \<and> c = OwnedArtifact a)) \<and>
   (authorize_publisher_write auth r aid = Inr c \<longleftrightarrow>
      (\<exists>a. r = Some a \<and> publisher_can_write auth a \<and> c = OwnedArtifact a)) \<and>
   (authorize_publisher_delete auth r aid = Inr c \<longleftrightarrow>
      (\<exists>a. r = Some a \<and> publisher_can_delete auth a \<and> c = OwnedArtifact a))"
  by (cases r; cases "pi_role auth")
    (auto simp: gate_defs publisher_can_delete_def publisher_can_write_def publisher_can_read_def
      publisher_can_read_row_def publisher_owns_def publisher_shares_org_def)

text \<open>The rows a list scope selects.\<close>

definition in_list_scope :: "PublisherIdentity \<Rightarrow> ArtifactMeta \<Rightarrow> bool" where
  "in_list_scope p a =
     (case publisher_list_scope p of
        AllScope \<Rightarrow> True
      | OrgScope \<Rightarrow> am_org a = pi_org p
      | OwnScope \<Rightarrow> am_org a = pi_org p \<and> am_client_id a = pi_client_id p)"

text \<open>A key lists exactly the artifacts it may read.\<close>

theorem list_scope_is_read_policy: "in_list_scope p a \<longleftrightarrow> publisher_can_read p a"
  by (cases "pi_role p")
    (auto simp: in_list_scope_def publisher_list_scope_def publisher_can_read_def
      publisher_can_read_row_def)

text \<open>
  The human gate grants exactly the signed-in viewers who are administrators or members
  of the artifact's (non-empty) organization, and every refusal is the one concealed error;
  a viewer who may manage an artifact may also read it.
\<close>

theorem authorize_viewer_exact:
  "authorize_viewer viewer r =
     (case r of
        Some a \<Rightarrow> if is_signed_in viewer \<and> (v_is_admin viewer \<or> v_org viewer = Some (am_org a) \<and> am_org a \<noteq> [])
                  then Inr (AuthorizedArtifact a) else Inl ConcealedNotFound
      | None \<Rightarrow> Inl ConcealedNotFound)"
  by (cases "v_org viewer")
    (auto simp: gate_defs viewer_may_read_def tenant_org_def nonempty_filter_def split: option.splits)

text \<open>Managing an artifact needs the right to read it, and no one manages it unsigned.\<close>

theorem manage_implies_read:
  "viewer_can_manage_artifact viewer a \<Longrightarrow>
     authorize_viewer viewer (Some a) = Inr (AuthorizedArtifact a)"
  by (auto simp: viewer_can_manage_artifact_def gate_defs viewer_may_read_def is_signed_in_def
      split: option.splits if_splits)

definition demo_owner :: Viewer where
  "demo_owner = \<lparr> v_email = Some ''Ann@Acme.test'', v_org = Some ''acme'', v_is_admin = False \<rparr>"

theorem manage_implies_read_witness:
  "authorize_viewer demo_owner (Some ((demo_meta ''acme'' ''k'')\<lparr>am_owner_email := Some ''ann@acme.TEST''\<rparr>)) =
     Inr (AuthorizedArtifact ((demo_meta ''acme'' ''k'')\<lparr>am_owner_email := Some ''ann@acme.TEST''\<rparr>))"
proof -
  have h: "viewer_can_manage_artifact demo_owner
      ((demo_meta ''acme'' ''k'')\<lparr>am_owner_email := Some ''ann@acme.TEST''\<rparr>)" by code_simp
  show ?thesis by (rule manage_implies_read [OF h])
qed

text \<open>Role names round-trip: parsing a role's wire name gives the role, and nothing else parses to it.\<close>

theorem role_roundtrip: "Role_from_str s = Inr r \<longleftrightarrow> s = Role_as_str r"
  by (cases r) (auto simp: Role_from_str_def)

end
