(* ===== verification/Outbox.thy ===== *)
theory Outbox
  imports Bundle_Paths
begin

text \<open>
  The durable provider-delivery queue: src/src/persistence/outbox/ (model, validation,
  enqueue, claim, transition, status).

  The tables the module reads and writes are the state: \<open>provider_delivery_outbox\<close>,
  \<open>provider_delivery_rate_limits\<close>, the ids of \<open>artifact_durability_intents\<close>, the columns of
  \<open>org_discord_discussion_connections\<close> that the dependency check reads, and the outbox ids that
  rows of \<open>discussion_message_links\<close> and \<open>artifact_discussions\<close> refer to. The two updates of
  the queue outside the module (\<open>accept_outbox_raw\<close> and \<open>accept_outbox_in_transaction\<close> of
  src/src/persistence/discussions/delivery.rs) are modelled here too. Rows are
  kept in insertion order. A function that runs inside a transaction returns the new state, or
  an error, in which case SQLite rolls the transaction back and the state stays. The constraints
  of migrations 027 and 028 are part of the model: an insertion or deletion they forbid is an
  \<open>Internal\<close> error. The column \<open>provider\<close> is always \<open>discord\<close> and is left out. SHA-256 (crates
  \<open>sha2\<close> and \<open>hex\<close>) is the parameter \<open>sha\<close>.

  This theory holds the definitions; Outbox_Invariants holds what they satisfy.
\<close>

section \<open>Data (outbox/model.rs)\<close>

definition MAX_PAYLOAD_BYTES :: int where "MAX_PAYLOAD_BYTES = 32768"
definition MAX_QUEUE_GLOBAL :: int where "MAX_QUEUE_GLOBAL = 10000"
definition MAX_QUEUE_TENANT :: int where "MAX_QUEUE_TENANT = 1000"
definition LEASE_MILLIS :: int where "LEASE_MILLIS = 30000"
definition MAX_ATTEMPTS :: int where "MAX_ATTEMPTS = 8"
definition MAX_TARGET_KEY_BYTES :: nat where "MAX_TARGET_KEY_BYTES = 160"
definition MAX_SECRET_REF_BYTES :: nat where "MAX_SECRET_REF_BYTES = 128"
definition MAX_BUCKET_KEY_BYTES :: nat where "MAX_BUCKET_KEY_BYTES = 128"
definition MAX_ORDERING_KEY_BYTES :: nat where "MAX_ORDERING_KEY_BYTES = 160"
definition MAX_DEPENDENCY_ID_BYTES :: nat where "MAX_DEPENDENCY_ID_BYTES = 128"

definition DELIVERY_KIND_EVENT :: string where "DELIVERY_KIND_EVENT = ''event''"
definition DELIVERY_KIND_DISCUSSION_THREAD :: string where
  "DELIVERY_KIND_DISCUSSION_THREAD = ''discussion_thread''"
definition DELIVERY_KIND_DISCUSSION_MESSAGE :: string where
  "DELIVERY_KIND_DISCUSSION_MESSAGE = ''discussion_message''"
definition DELIVERY_KIND_DISCUSSION_TOMBSTONE :: string where
  "DELIVERY_KIND_DISCUSSION_TOMBSTONE = ''discussion_tombstone''"

lemmas outbox_constants = MAX_PAYLOAD_BYTES_def MAX_QUEUE_GLOBAL_def MAX_QUEUE_TENANT_def
  LEASE_MILLIS_def MAX_ATTEMPTS_def MAX_TARGET_KEY_BYTES_def MAX_SECRET_REF_BYTES_def
  MAX_BUCKET_KEY_BYTES_def MAX_ORDERING_KEY_BYTES_def MAX_DEPENDENCY_ID_BYTES_def

lemmas delivery_kinds = DELIVERY_KIND_EVENT_def DELIVERY_KIND_DISCUSSION_THREAD_def
  DELIVERY_KIND_DISCUSSION_MESSAGE_def DELIVERY_KIND_DISCUSSION_TOMBSTONE_def

record EnqueueDelivery =
  e_event_id :: string
  e_tenant :: string
  e_event_type :: string
  e_target_key :: string
  e_secret_ref :: string
  e_payload :: bytes
  e_payload_sha256 :: "string option"
  e_durability_intent_id :: "string option"
  e_delivery_kind :: string
  e_ordering_key :: string
  e_depends_on_outbox_id :: "string option"

text \<open>The values the \<open>state\<close> column's CHECK constraint allows.\<close>

datatype DeliveryState = Blocked | Ready | Leased | Retry | Accepted | DeadLetter

record DeliveryRecord =
  d_id :: string
  d_event_id :: string
  d_tenant :: string
  d_event_type :: string
  d_target_key :: string
  d_bucket_id :: string
  d_secret_ref :: string
  d_payload :: bytes
  d_payload_sha256 :: string
  d_durability_intent_id :: "string option"
  d_delivery_kind :: string
  d_ordering_key :: string
  d_depends_on_outbox_id :: "string option"
  d_state :: DeliveryState
  d_attempts :: int
  d_next_attempt_at :: int
  d_lease_owner :: "string option"
  d_lease_expires_at :: "int option"
  d_lease_token :: "string option"
  d_lease_version :: int
  d_result_classification :: string
  d_duplicate_risk :: bool
  d_discord_message_id :: "string option"
  d_terminal_error :: string
  d_created_at :: int
  d_updated_at :: int
  d_completed_at :: "int option"

record RetryTransition =
  rt_next_attempt_at :: int
  rt_classification :: string
  rt_duplicate_risk :: bool

record DeadLetterTransition =
  dl_classification :: string
  dl_error :: string
  dl_duplicate_risk :: bool

text \<open>A row of \<open>provider_delivery_rate_limits\<close>.\<close>

record RateLimitRow =
  r_scope :: string
  r_target_key :: string
  r_bucket_id :: string
  r_secret_ref :: string
  r_blocked_until :: int
  r_updated_at :: int

text \<open>The columns of a discussion connection that the dependency contract reads.\<close>

record DiscussionConnectionRow =
  c_id :: string
  c_org :: string
  c_strategy :: string
  c_notification_webhook_id :: "string option"

text \<open>
  \<open>ob_references\<close> holds the values of the columns \<open>outbox_id\<close> and \<open>tombstone_outbox_id\<close> of
  \<open>discussion_message_links\<close> and \<open>anchor_outbox_id\<close> of \<open>artifact_discussions\<close>, foreign keys on
  the queue with \<open>ON DELETE RESTRICT\<close> (migrations/m028_m029.rs).
\<close>

record outbox_db =
  ob_rows :: "DeliveryRecord list"
  ob_rate_limits :: "RateLimitRow list"
  ob_intents :: "string list"
  ob_connections :: "DiscussionConnectionRow list"
  ob_references :: "string list"

section \<open>Validation (outbox/validation.rs)\<close>

definition opaque_byte :: "char \<Rightarrow> bool" where
  "opaque_byte c \<longleftrightarrow> is_ascii_alphanumeric c \<or> c = CHR ''_'' \<or> c = CHR ''-'' \<or> c = CHR ''.''"

definition opaque_target_key :: "string \<Rightarrow> bool" where
  "opaque_target_key value \<longleftrightarrow>
     length value \<le> MAX_TARGET_KEY_BYTES \<and> value \<noteq> [] \<and> list_all opaque_byte value"

definition opaque_ordering_key :: "string \<Rightarrow> bool" where
  "opaque_ordering_key value \<longleftrightarrow>
     length value \<le> MAX_ORDERING_KEY_BYTES \<and> value \<noteq> [] \<and>
     list_all (\<lambda>c. opaque_byte c \<or> c = CHR '':'') value"

definition opaque_dependency_id :: "string \<Rightarrow> bool" where
  "opaque_dependency_id value \<longleftrightarrow>
     length value \<le> MAX_DEPENDENCY_ID_BYTES \<and> value \<noteq> [] \<and> list_all opaque_byte value"

definition opaque_secret_ref :: "string \<Rightarrow> bool" where
  "opaque_secret_ref value =
     (case strip_prefix value ''webhook:'' of
        None \<Rightarrow> False
      | Some identifier \<Rightarrow>
          length value \<le> MAX_SECRET_REF_BYTES \<and> identifier \<noteq> [] \<and> list_all opaque_byte identifier)"

definition opaque_discussion_ref :: "string \<Rightarrow> bool" where
  "opaque_discussion_ref value =
     (case strip_prefix value ''discussion:'' of
        None \<Rightarrow> False
      | Some aid \<Rightarrow>
          aid \<noteq> [] \<and> length aid \<le> MAX_SECRET_REF_BYTES - length ''discussion:'' \<and>
          list_all opaque_byte aid)"

definition opaque_provider_secret_ref :: "string \<Rightarrow> bool" where
  "opaque_provider_secret_ref value \<longleftrightarrow> opaque_secret_ref value \<or> opaque_discussion_ref value"

definition opaque_bucket_key :: "string \<Rightarrow> bool" where
  "opaque_bucket_key value \<longleftrightarrow>
     value \<noteq> [] \<and> length value \<le> MAX_BUCKET_KEY_BYTES \<and>
     \<not> list_ex (\<lambda>c. c = CHR 0x00 \<or> c = CHR 0x0D \<or> c = CHR 0x0A) value \<and>
     \<not> starts_with (to_ascii_lowercase value) ''http://'' \<and>
     \<not> starts_with (to_ascii_lowercase value) ''https://'' \<and>
     \<not> contains_str (to_ascii_lowercase value) ''/api/webhooks/''"

definition discussion_delivery_identity :: "EnqueueDelivery \<Rightarrow> bool" where
  "discussion_delivery_identity input \<longleftrightarrow>
     \<not> starts_with (e_target_key input) ''discussion:'' \<and>
     opaque_target_key (e_target_key input) \<and>
     strip_prefix (e_secret_ref input) ''discussion:'' = Some (e_target_key input) \<and>
     opaque_discussion_ref (e_secret_ref input) \<and>
     starts_with (e_ordering_key input) ''discussion:''"

definition blank_or_nul :: "string \<Rightarrow> bool" where
  "blank_or_nul v \<longleftrightarrow> trim v = [] \<or> List.member v (CHR 0x00)"

definition delivery_contract :: "EnqueueDelivery \<Rightarrow> bool" where
  "delivery_contract input \<longleftrightarrow>
     (let kind = e_delivery_kind input in
      if kind = DELIVERY_KIND_EVENT then
        opaque_secret_ref (e_secret_ref input) \<and> e_ordering_key input = e_target_key input \<and>
        e_depends_on_outbox_id input = None
      else if kind = DELIVERY_KIND_DISCUSSION_THREAD then discussion_delivery_identity input
      else if kind = DELIVERY_KIND_DISCUSSION_MESSAGE \<or> kind = DELIVERY_KIND_DISCUSSION_TOMBSTONE then
        discussion_delivery_identity input \<and> e_depends_on_outbox_id input \<noteq> None
      else False)"

definition validate :: "EnqueueDelivery \<Rightarrow> unit result" where
  "validate input =
     (if MAX_PAYLOAD_BYTES < int (length (e_payload input)) then Inl PayloadTooLarge
      else if list_ex blank_or_nul
                [e_event_id input, e_tenant input, e_event_type input, e_target_key input,
                 e_secret_ref input, e_delivery_kind input, e_ordering_key input]
              \<or> \<not> opaque_target_key (e_target_key input)
              \<or> \<not> opaque_ordering_key (e_ordering_key input)
      then Inl (Validation ''outbox identity fields are required'')
      else if (case e_depends_on_outbox_id input of None \<Rightarrow> False | Some i \<Rightarrow> \<not> opaque_dependency_id i)
      then Inl (Validation ''invalid outbox dependency'')
      else if \<not> delivery_contract input
      then Inl (Validation ''invalid discussion delivery contract'')
      else Inr ())"

text \<open>
  \<open>validate_dependency_contract\<close>: a thread job may wait only on the publication notification of
  its own connection and tenant; a message or tombstone only on its generation's thread job.
\<close>

definition thread_dependency_ok :: "outbox_db \<Rightarrow> EnqueueDelivery \<Rightarrow> string \<Rightarrow> bool" where
  "thread_dependency_ok db input dep \<longleftrightarrow>
     list_ex (\<lambda>r. list_ex (\<lambda>c.
        c_notification_webhook_id c = Some (d_target_key r) \<and>
        d_id r = dep \<and> d_delivery_kind r = ''event'' \<and> d_event_type r = ''published'' \<and>
        d_tenant r = e_tenant input \<and> c_id c = e_target_key input \<and> c_org c = e_tenant input \<and>
        c_strategy c = ''notification_thread'') (ob_connections db)) (ob_rows db)"

definition validate_dependency_contract :: "outbox_db \<Rightarrow> EnqueueDelivery \<Rightarrow> unit result" where
  "validate_dependency_contract db input =
     (case e_depends_on_outbox_id input of
        None \<Rightarrow> Inr ()
      | Some dep \<Rightarrow>
          if e_delivery_kind input = DELIVERY_KIND_DISCUSSION_THREAD then
            (if thread_dependency_ok db input dep then Inr ()
             else Inl (Validation ''invalid discussion delivery dependency''))
          else
            (case List.find (\<lambda>r. d_id r = dep \<and> d_delivery_kind r = ''discussion_thread'') (ob_rows db) of
               None \<Rightarrow> Inl (Validation ''invalid discussion delivery dependency'')
             | Some r \<Rightarrow>
                 if d_tenant r \<noteq> e_tenant input \<or> d_target_key r \<noteq> e_target_key input
                    \<or> d_secret_ref r \<noteq> e_secret_ref input \<or> d_ordering_key r \<noteq> e_ordering_key input
                 then Inl (Validation ''invalid discussion delivery dependency'')
                 else Inr ()))"

section \<open>Enqueueing (outbox/enqueue.rs, outbox/support.rs)\<close>

definition active_state :: "DeliveryState \<Rightarrow> bool" where
  "active_state s \<longleftrightarrow> s = Blocked \<or> s = Ready \<or> s = Leased \<or> s = Retry"

definition active :: "DeliveryRecord \<Rightarrow> bool" where
  "active r \<longleftrightarrow> active_state (d_state r)"

definition find_event :: "outbox_db \<Rightarrow> EnqueueDelivery \<Rightarrow> DeliveryRecord option" where
  "find_event db input =
     List.find (\<lambda>r. d_tenant r = e_tenant input \<and> d_target_key r = e_target_key input \<and>
                    d_event_id r = e_event_id input) (ob_rows db)"

definition get_row :: "outbox_db \<Rightarrow> string \<Rightarrow> DeliveryRecord option" where
  "get_row db i = List.find (\<lambda>r. d_id r = i) (ob_rows db)"

text \<open>The first loop: field validation and the supplied payload hash.\<close>

fun validate_inputs :: "(bytes \<Rightarrow> string) \<Rightarrow> (EnqueueDelivery \<times> string) list \<Rightarrow> unit result" where
  "validate_inputs sha [] = Inr ()"
| "validate_inputs sha ((input, i) # inputs) =
     try_bind (validate input) (\<lambda>_.
       if (case e_payload_sha256 input of None \<Rightarrow> False | Some s \<Rightarrow> s \<noteq> sha (e_payload input))
       then Inl (Validation ''payload hash does not match payload'')
       else validate_inputs sha inputs)"

definition same_delivery :: "(bytes \<Rightarrow> string) \<Rightarrow> DeliveryRecord \<Rightarrow> EnqueueDelivery \<Rightarrow> bool" where
  "same_delivery sha r input \<longleftrightarrow>
     d_payload_sha256 r = sha (e_payload input) \<and> d_event_type r = e_event_type input \<and>
     d_secret_ref r = e_secret_ref input \<and> d_durability_intent_id r = e_durability_intent_id input \<and>
     d_delivery_kind r = e_delivery_kind input \<and> d_ordering_key r = e_ordering_key input \<and>
     d_depends_on_outbox_id r = e_depends_on_outbox_id input"

text \<open>The second loop: rows that exist already, and the inputs that are fresh.\<close>

fun partition_inputs ::
    "(bytes \<Rightarrow> string) \<Rightarrow> outbox_db \<Rightarrow> (EnqueueDelivery \<times> string) list \<Rightarrow>
     (DeliveryRecord list \<times> (EnqueueDelivery \<times> string) list) result" where
  "partition_inputs sha db [] = Inr ([], [])"
| "partition_inputs sha db ((input, i) # inputs) =
     (case find_event db input of
        Some r \<Rightarrow>
          if \<not> same_delivery sha r input then Inl (Conflict ''outbox idempotency conflict'')
          else try_bind (partition_inputs sha db inputs) (\<lambda>(records, fresh). Inr (r # records, fresh))
      | None \<Rightarrow>
          try_bind (partition_inputs sha db inputs) (\<lambda>(records, fresh). Inr (records, (input, i) # fresh)))"

definition prior_created_at :: "outbox_db \<Rightarrow> string \<Rightarrow> int option" where
  "prior_created_at db okey =
     (let ts = map d_created_at (filter (\<lambda>r. d_ordering_key r = okey) (ob_rows db))
      in if ts = [] then None else Some (Max (set ts)))"

definition next_created_at :: "int option \<Rightarrow> int \<Rightarrow> int result" where
  "next_created_at prior now =
     (case prior of
        None \<Rightarrow> Inr now
      | Some p \<Rightarrow> (case i64_checked_add p 1 of None \<Rightarrow> Inl Internal | Some n \<Rightarrow> Inr (max now n)))"

definition new_row ::
    "(bytes \<Rightarrow> string) \<Rightarrow> EnqueueDelivery \<Rightarrow> string \<Rightarrow> int \<Rightarrow> int \<Rightarrow> DeliveryRecord" where
  "new_row sha input i now created_at =
     \<lparr> d_id = i, d_event_id = e_event_id input, d_tenant = e_tenant input,
       d_event_type = e_event_type input, d_target_key = e_target_key input,
       d_bucket_id = e_target_key input, d_secret_ref = e_secret_ref input,
       d_payload = e_payload input, d_payload_sha256 = sha (e_payload input),
       d_durability_intent_id = e_durability_intent_id input,
       d_delivery_kind = e_delivery_kind input, d_ordering_key = e_ordering_key input,
       d_depends_on_outbox_id = e_depends_on_outbox_id input,
       d_state = (if e_durability_intent_id input \<noteq> None then Blocked else Ready),
       d_attempts = 0, d_next_attempt_at = now, d_lease_owner = None, d_lease_expires_at = None,
       d_lease_token = None, d_lease_version = 0, d_result_classification = [],
       d_duplicate_risk = False, d_discord_message_id = None, d_terminal_error = [],
       d_created_at = created_at, d_updated_at = now, d_completed_at = None \<rparr>"

text \<open>
  \<open>INSERT\<close> under the table's constraints: primary key, the unique event key, the hash length,
  and the two foreign keys.
\<close>

definition insert_allowed :: "outbox_db \<Rightarrow> DeliveryRecord \<Rightarrow> bool" where
  "insert_allowed db row \<longleftrightarrow>
     \<not> list_ex (\<lambda>r. d_id r = d_id row) (ob_rows db) \<and>
     \<not> list_ex (\<lambda>r. d_tenant r = d_tenant row \<and> d_target_key r = d_target_key row \<and>
                    d_event_id r = d_event_id row) (ob_rows db) \<and>
     int (length (d_payload row)) \<le> 32768 \<and> length (d_payload_sha256 row) = 64 \<and>
     (case d_durability_intent_id row of None \<Rightarrow> True | Some i \<Rightarrow> List.member (ob_intents db) i) \<and>
     (case d_depends_on_outbox_id row of None \<Rightarrow> True
      | Some p \<Rightarrow> p = d_id row \<or> list_ex (\<lambda>r. d_id r = p) (ob_rows db))"

definition insert_row :: "outbox_db \<Rightarrow> DeliveryRecord \<Rightarrow> outbox_db result" where
  "insert_row db row =
     (if insert_allowed db row then Inr (db\<lparr>ob_rows := ob_rows db @ [row]\<rparr>) else Inl Internal)"

text \<open>The last loop: dependency contract, FIFO timestamp, insertion, read back.\<close>

fun insert_fresh ::
    "(bytes \<Rightarrow> string) \<Rightarrow> int \<Rightarrow> outbox_db \<Rightarrow> (EnqueueDelivery \<times> string) list \<Rightarrow>
     (DeliveryRecord list \<times> outbox_db) result" where
  "insert_fresh sha now db [] = Inr ([], db)"
| "insert_fresh sha now db ((input, i) # fresh) =
     try_bind (validate_dependency_contract db input) (\<lambda>_.
     try_bind (next_created_at (prior_created_at db (e_ordering_key input)) now) (\<lambda>created_at.
     try_bind (insert_row db (new_row sha input i now created_at)) (\<lambda>db'.
     try_bind (case get_row db' i of None \<Rightarrow> Inl Internal | Some r \<Rightarrow> Inr r) (\<lambda>r.
     try_bind (insert_fresh sha now db' fresh) (\<lambda>(records, db'').
     Inr (r # records, db''))))))"

definition tenant_over_capacity :: "outbox_db \<Rightarrow> (EnqueueDelivery \<times> string) list \<Rightarrow> string \<Rightarrow> bool" where
  "tenant_over_capacity db fresh tenant \<longleftrightarrow>
     MAX_QUEUE_TENANT <
       count_rows (\<lambda>r. d_tenant r = tenant \<and> active r) (ob_rows db) +
       i64_try_from_or_max (count_rows (\<lambda>f. e_tenant (fst f) = tenant) fresh)"

definition enqueue_many_in_transaction ::
    "(bytes \<Rightarrow> string) \<Rightarrow> outbox_db \<Rightarrow> (EnqueueDelivery \<times> string) list \<Rightarrow> int \<Rightarrow>
     (DeliveryRecord list \<times> outbox_db) result" where
  "enqueue_many_in_transaction sha db inputs now =
     try_bind (validate_inputs sha inputs) (\<lambda>_.
     try_bind (partition_inputs sha db inputs) (\<lambda>(records, fresh).
     if MAX_QUEUE_GLOBAL <
          count_rows active (ob_rows db) + i64_try_from_or_max (int (length fresh))
     then Inl RateLimited
     else if list_ex (\<lambda>f. tenant_over_capacity db fresh (e_tenant (fst f))) fresh
     then Inl RateLimited
     else try_bind (insert_fresh sha now db fresh) (\<lambda>(created, db').
       Inr (records @ created, db'))))"

text \<open>\<open>enqueue_in_transaction\<close>: \<open>rows.remove(0)\<close> of a one-element batch.\<close>

definition enqueue_in_transaction ::
    "(bytes \<Rightarrow> string) \<Rightarrow> outbox_db \<Rightarrow> EnqueueDelivery \<Rightarrow> string \<Rightarrow> int \<Rightarrow>
     (DeliveryRecord \<times> outbox_db) result" where
  "enqueue_in_transaction sha db input i now =
     try_bind (enqueue_many_in_transaction sha db [(input, i)] now) (\<lambda>(rows, db').
       Inr (hd rows, db'))"

text \<open>Producer success: release the blocked rows, then delete the intent.\<close>

definition blocked_on :: "string \<Rightarrow> DeliveryRecord \<Rightarrow> bool" where
  "blocked_on intent r \<longleftrightarrow> d_durability_intent_id r = Some intent \<and> d_state r = Blocked"

definition release_row :: "int \<Rightarrow> DeliveryRecord \<Rightarrow> DeliveryRecord" where
  "release_row now r = r\<lparr>d_state := Ready, d_durability_intent_id := None, d_updated_at := now\<rparr>"

text \<open>\<open>DELETE FROM artifact_durability_intents\<close> under \<open>ON DELETE RESTRICT\<close>: one row, unreferenced.\<close>

definition delete_intent :: "outbox_db \<Rightarrow> string \<Rightarrow> outbox_db result" where
  "delete_intent db intent =
     (if list_ex (\<lambda>r. d_durability_intent_id r = Some intent) (ob_rows db) then Inl Internal
      else if count_rows (\<lambda>i. i = intent) (ob_intents db) \<noteq> 1 then Inl Internal
      else Inr (db\<lparr>ob_intents := sql_delete (\<lambda>i. i = intent) (ob_intents db)\<rparr>))"

definition finalize_durability_success_in_transaction ::
    "outbox_db \<Rightarrow> string \<Rightarrow> int \<Rightarrow> (int \<times> outbox_db) result" where
  "finalize_durability_success_in_transaction db intent now =
     (let changed = count_rows (blocked_on intent) (ob_rows db);
          db' = db\<lparr>ob_rows := sql_update (blocked_on intent) (release_row now) (ob_rows db)\<rparr>
      in try_bind (delete_intent db' intent) (\<lambda>db''. Inr (changed, db'')))"

text \<open>
  Producer compensation. \<open>depends_on_outbox_id\<close> and the references of the discussion tables are
  \<open>ON DELETE RESTRICT\<close>: a row that another row depends on, or that a message link or a discussion
  names, cannot be deleted. Only discussion jobs have a dependency, and their producer
  (feedback_delivery.rs) gives them no durability intent, so a dependent is never among the
  deleted rows.
\<close>

definition referenced :: "outbox_db \<Rightarrow> DeliveryRecord \<Rightarrow> bool" where
  "referenced db p \<longleftrightarrow>
     list_ex (\<lambda>r. d_depends_on_outbox_id r = Some (d_id p)) (ob_rows db) \<or>
     List.member (ob_references db) (d_id p)"

definition compensate_durability_in_transaction ::
    "outbox_db \<Rightarrow> string \<Rightarrow> (int \<times> outbox_db) result" where
  "compensate_durability_in_transaction db intent =
     (let changed = count_rows (blocked_on intent) (ob_rows db);
          db' = db\<lparr>ob_rows := sql_delete (blocked_on intent) (ob_rows db)\<rparr>
      in if list_ex (\<lambda>p. blocked_on intent p \<and> referenced db p) (ob_rows db)
         then Inl Internal
         else try_bind (delete_intent db' intent) (\<lambda>db''. Inr (changed, db'')))"

section \<open>Claiming (outbox/claim.rs)\<close>

definition ready_or_retry :: "DeliveryRecord \<Rightarrow> bool" where
  "ready_or_retry r \<longleftrightarrow> d_state r = Ready \<or> d_state r = Retry"

definition lease_expired :: "int \<Rightarrow> DeliveryRecord \<Rightarrow> bool" where
  "lease_expired now r \<longleftrightarrow>
     d_state r = Leased \<and> (case d_lease_expires_at r of None \<Rightarrow> False | Some t \<Rightarrow> t \<le> now)"

text \<open>The recovery \<open>UPDATE\<close>: an expired lease is retried, or dead-lettered when exhausted.\<close>

definition recover_row :: "int \<Rightarrow> DeliveryRecord \<Rightarrow> DeliveryRecord" where
  "recover_row now r =
     (let exhausted = (MAX_ATTEMPTS \<le> d_attempts r) in
      r\<lparr>d_state := (if exhausted then DeadLetter else Retry),
        d_lease_owner := None, d_lease_expires_at := None, d_lease_token := None,
        d_result_classification := (if exhausted then ''attempts_exhausted_after_worker_restart''
                                    else ''ambiguous_worker_restart''),
        d_duplicate_risk := True,
        d_terminal_error := (if exhausted then ''delivery attempts exhausted after worker restart'' else []),
        d_next_attempt_at := now, d_updated_at := now,
        d_completed_at := (if exhausted then Some now else None)\<rparr>)"

definition recover_expired :: "int \<Rightarrow> DeliveryRecord list \<Rightarrow> DeliveryRecord list" where
  "recover_expired now rows = sql_update (lease_expired now) (recover_row now) rows"

definition predecessor_in :: "DeliveryState \<Rightarrow> DeliveryRecord list \<Rightarrow> DeliveryRecord \<Rightarrow> bool" where
  "predecessor_in s rows r =
     (case d_depends_on_outbox_id r of
        None \<Rightarrow> False
      | Some p \<Rightarrow> list_ex (\<lambda>q. d_id q = p \<and> d_state q = s) rows)"

definition dependency_failed :: "DeliveryRecord list \<Rightarrow> DeliveryRecord \<Rightarrow> bool" where
  "dependency_failed rows r \<longleftrightarrow>
     ready_or_retry r \<and> d_durability_intent_id r = None \<and> predecessor_in DeadLetter rows r"

definition fail_dependent :: "int \<Rightarrow> DeliveryRecord \<Rightarrow> DeliveryRecord" where
  "fail_dependent now r =
     r\<lparr>d_state := DeadLetter, d_lease_owner := None, d_lease_expires_at := None,
       d_lease_token := None, d_next_attempt_at := now,
       d_result_classification := ''dependency_failed'', d_duplicate_risk := False,
       d_terminal_error := ''dependency_failed'', d_updated_at := now, d_completed_at := Some now\<rparr>"

text \<open>The loop of \<open>propagate_terminal_dependencies\<close>: repeat the update until it changes nothing.\<close>

lemma dependency_failed_measure:
  assumes "list_ex (dependency_failed rows) rows"
  shows "length (filter ready_or_retry (sql_update (dependency_failed rows) (fail_dependent now) rows))
         < length (filter ready_or_retry rows)"
proof -
  have gen: "list_ex (dependency_failed db) rows \<Longrightarrow>
      length (filter ready_or_retry (sql_update (dependency_failed db) (fail_dependent now) rows))
        < length (filter ready_or_retry rows)" for db
  proof (induction rows)
    case Nil
    then show ?case by simp
  next
    case (Cons r rows)
    have le: "length (filter ready_or_retry (sql_update (dependency_failed db) (fail_dependent now) rows))
        \<le> length (filter ready_or_retry rows)"
      unfolding sql_update_def
      by (induction rows) (auto simp: fail_dependent_def ready_or_retry_def)
    have nr: "\<not> ready_or_retry (fail_dependent now r)"
      by (simp add: ready_or_retry_def fail_dependent_def)
    show ?case
    proof (cases "dependency_failed db r")
      case True
      then have "ready_or_retry r" by (simp add: dependency_failed_def)
      with True nr le show ?thesis by (simp add: sql_update_def)
    next
      case False
      with Cons show ?thesis by (simp add: sql_update_def)
    qed
  qed
  show ?thesis using gen assms by blast
qed

function propagate_terminal_dependencies ::
    "int \<Rightarrow> DeliveryRecord list \<Rightarrow> DeliveryRecord list" where
  "propagate_terminal_dependencies now rows =
     (if list_ex (dependency_failed rows) rows
      then propagate_terminal_dependencies now
             (sql_update (dependency_failed rows) (fail_dependent now) rows)
      else rows)"
  by pat_completeness auto
termination
  by (relation "measure (\<lambda>(now, rows). length (filter ready_or_retry rows))")
    (auto intro: dependency_failed_measure)

declare propagate_terminal_dependencies.simps [simp del]

definition rate_limited :: "outbox_db \<Rightarrow> int \<Rightarrow> DeliveryRecord \<Rightarrow> bool" where
  "rate_limited db now r \<longleftrightarrow>
     list_ex (\<lambda>l. now < r_blocked_until l \<and>
        (r_scope l = ''global'' \<or>
         r_scope l = ''target'' \<and> r_target_key l = d_target_key r \<or>
         r_scope l = ''bucket'' \<and> r_bucket_id l = d_bucket_id r \<and> r_secret_ref l = d_secret_ref r))
       (ob_rate_limits db)"

text \<open>\<open>ORDER BY created_at ASC, id ASC\<close>.\<close>

definition precedes :: "DeliveryRecord \<Rightarrow> DeliveryRecord \<Rightarrow> bool" where
  "precedes a b \<longleftrightarrow> d_created_at a < d_created_at b \<or> d_created_at a = d_created_at b \<and> d_id a < d_id b"

definition earlier_active :: "DeliveryRecord list \<Rightarrow> DeliveryRecord \<Rightarrow> bool" where
  "earlier_active rows r \<longleftrightarrow>
     list_ex (\<lambda>q. d_ordering_key q = d_ordering_key r \<and> active q \<and> precedes q r) rows"

definition claimable :: "outbox_db \<Rightarrow> int \<Rightarrow> DeliveryRecord \<Rightarrow> bool" where
  "claimable db now r \<longleftrightarrow>
     ready_or_retry r \<and> d_durability_intent_id r = None \<and> d_attempts r < MAX_ATTEMPTS \<and>
     d_next_attempt_at r \<le> now \<and>
     (d_depends_on_outbox_id r = None \<or> predecessor_in Accepted (ob_rows db) r) \<and>
     \<not> rate_limited db now r \<and> \<not> earlier_active (ob_rows db) r"

text \<open>The first row of the ordered result set, if any.\<close>

fun first_by_order :: "DeliveryRecord list \<Rightarrow> DeliveryRecord option" where
  "first_by_order [] = None"
| "first_by_order (r # rows) =
     (case first_by_order rows of
        None \<Rightarrow> Some r
      | Some q \<Rightarrow> Some (if precedes q r then q else r))"

definition select_claim :: "outbox_db \<Rightarrow> int \<Rightarrow> string option" where
  "select_claim db now = map_option d_id (first_by_order (filter (claimable db now) (ob_rows db)))"

definition lease_row :: "string \<Rightarrow> string \<Rightarrow> int \<Rightarrow> DeliveryRecord \<Rightarrow> DeliveryRecord" where
  "lease_row worker token now r =
     r\<lparr>d_state := Leased, d_attempts := d_attempts r + 1, d_lease_owner := Some worker,
       d_lease_expires_at := Some (i64_add now LEASE_MILLIS), d_lease_token := Some token,
       d_lease_version := d_lease_version r + 1, d_updated_at := now\<rparr>"

definition leasable :: "string \<Rightarrow> DeliveryRecord \<Rightarrow> bool" where
  "leasable i r \<longleftrightarrow> d_id r = i \<and> ready_or_retry r \<and> d_durability_intent_id r = None"

definition has_claimable_work :: "outbox_db \<Rightarrow> int \<Rightarrow> bool" where
  "has_claimable_work db now \<longleftrightarrow>
     list_ex (lease_expired now) (ob_rows db) \<or>
     list_ex (claimable db now) (ob_rows db) \<or>
     list_ex (dependency_failed (ob_rows db)) (ob_rows db)"

text \<open>The immediate transaction of \<open>claim_next\<close>.\<close>

definition claim_transaction ::
    "outbox_db \<Rightarrow> string \<Rightarrow> string \<Rightarrow> int \<Rightarrow> (DeliveryRecord option \<times> outbox_db) result" where
  "claim_transaction db worker token now =
     (let db1 = db\<lparr>ob_rows :=
            propagate_terminal_dependencies now (recover_expired now (ob_rows db))\<rparr>
      in case select_claim db1 now of
           None \<Rightarrow> Inr (None, db1)
         | Some i \<Rightarrow>
             if count_rows (leasable i) (ob_rows db1) \<noteq> 1 then Inl Internal
             else
               let db2 = db1\<lparr>ob_rows := sql_update (leasable i) (lease_row worker token now) (ob_rows db1)\<rparr>
               in case get_row db2 i of None \<Rightarrow> Inl Internal | Some r \<Rightarrow> Inr (Some r, db2))"

definition claim_next ::
    "outbox_db \<Rightarrow> string \<Rightarrow> string \<Rightarrow> int \<Rightarrow> (DeliveryRecord option \<times> outbox_db) result" where
  "claim_next db worker token now =
     (if trim worker = [] \<or> trim token = []
      then Inl (Validation ''worker and lease token are required'')
      else if \<not> has_claimable_work db now then Inr (None, db)
      else claim_transaction db worker token now)"

section \<open>Guarded transitions (outbox/transition.rs)\<close>

definition holds_lease :: "string \<Rightarrow> string \<Rightarrow> string \<Rightarrow> int \<Rightarrow> DeliveryRecord \<Rightarrow> bool" where
  "holds_lease i worker token version r \<longleftrightarrow>
     d_id r = i \<and> d_state r = Leased \<and> d_lease_owner r = Some worker \<and>
     d_lease_token r = Some token \<and> d_lease_version r = version"

definition safe_retry_classification :: "string \<Rightarrow> string result" where
  "safe_retry_classification value =
     (if List.member [''retry'', ''network_retry'', ''ambiguous_worker_restart'',
           ''provider_unavailable'', ''rate_limited'', ''network'', ''timeout'', ''ambiguous'',
           ''server_error''] value
      then Inr value else Inl (Validation ''invalid outbox result classification''))"

definition safe_terminal_classification :: "string \<Rightarrow> string result" where
  "safe_terminal_classification value =
     (if List.member [''attempts_exhausted'', ''attempts_exhausted_after_worker_restart'',
           ''invalid_webhook'', ''permission_denied'', ''validation_failed'',
           ''provider_unavailable'', ''dead_letter'', ''server_error'', ''invalid_secret'',
           ''decrypt_failed'', ''allowlist_rejected'', ''redirect'', ''bad_request'',
           ''unauthorized'', ''forbidden'', ''not_found'', ''invalid_rate_limit_delay'',
           ''client_error'', ''contract_error'', ''payload_hash_mismatch'', ''unknown_webhook'',
           ''dependency_failed''] value
      then Inr value else Inl (Validation ''invalid outbox result classification''))"

definition redact_error :: "string \<Rightarrow> string" where
  "redact_error error =
     (if List.member [''invalid_webhook'', ''unknown_webhook'', ''invalid_secret'',
           ''decrypt_failed'', ''allowlist_rejected'', ''redirect'', ''bad_request'',
           ''unauthorized'', ''forbidden'', ''not_found'', ''invalid_rate_limit_delay'',
           ''client_error'', ''contract_error'', ''payload_hash_mismatch'',
           ''permission_denied'', ''validation_failed'', ''provider_unavailable'',
           ''attempts_exhausted'', ''dependency_failed''] error
      then error else ''provider delivery failed'')"

record Transition =
  t_state :: DeliveryState
  t_now :: int
  t_next_attempt_at :: int
  t_classification :: string
  t_message :: string
  t_error :: string
  t_duplicate_risk :: bool
  t_requires_exhaustion :: bool

definition transition_row :: "Transition \<Rightarrow> string \<Rightarrow> DeliveryRecord \<Rightarrow> DeliveryRecord" where
  "transition_row u classification r =
     r\<lparr>d_state := t_state u, d_lease_owner := None, d_lease_expires_at := None,
       d_lease_token := None, d_next_attempt_at := t_next_attempt_at u,
       d_result_classification := classification, d_duplicate_risk := t_duplicate_risk u,
       d_discord_message_id := (if t_state u = Accepted then Some (t_message u) else d_discord_message_id r),
       d_terminal_error := redact_error (t_error u), d_updated_at := t_now u,
       d_completed_at := (if t_state u = Accepted \<or> t_state u = DeadLetter then Some (t_now u) else None)\<rparr>"

definition transition_guard ::
    "string \<Rightarrow> string \<Rightarrow> string \<Rightarrow> int \<Rightarrow> Transition \<Rightarrow> DeliveryRecord \<Rightarrow> bool" where
  "transition_guard i worker token version u r \<longleftrightarrow>
     holds_lease i worker token version r \<and>
     (\<not> t_requires_exhaustion u \<or> MAX_ATTEMPTS \<le> d_attempts r)"

definition transition_classification :: "Transition \<Rightarrow> string result" where
  "transition_classification u =
     (if t_state u = Accepted \<and> t_classification u = ''accepted'' then Inr (t_classification u)
      else if t_state u = DeadLetter then safe_terminal_classification (t_classification u)
      else Inl (Validation ''invalid outbox result classification''))"

definition transition ::
    "outbox_db \<Rightarrow> string \<Rightarrow> string \<Rightarrow> string \<Rightarrow> int \<Rightarrow> Transition \<Rightarrow> (bool \<times> outbox_db) result" where
  "transition db i worker token version u =
     try_bind (transition_classification u) (\<lambda>classification.
       let g = transition_guard i worker token version u
       in Inr (count_rows g (ob_rows db) = 1,
               db\<lparr>ob_rows := sql_update g (transition_row u classification) (ob_rows db)\<rparr>))"

definition accepted ::
    "outbox_db \<Rightarrow> string \<Rightarrow> string \<Rightarrow> string \<Rightarrow> int \<Rightarrow> string \<Rightarrow> int \<Rightarrow> (bool \<times> outbox_db) result" where
  "accepted db i worker token version message now =
     transition db i worker token version
       \<lparr> t_state = Accepted, t_now = now, t_next_attempt_at = now, t_classification = ''accepted'',
         t_message = message, t_error = [], t_duplicate_risk = False, t_requires_exhaustion = False \<rparr>"

definition dead_letter ::
    "outbox_db \<Rightarrow> string \<Rightarrow> string \<Rightarrow> string \<Rightarrow> int \<Rightarrow> DeadLetterTransition \<Rightarrow> int \<Rightarrow>
     (bool \<times> outbox_db) result" where
  "dead_letter db i worker token version u now =
     (if dl_duplicate_risk u \<and> dl_classification u \<noteq> ''attempts_exhausted''
      then Inl (Validation ''duplicate risk is valid only for exhausted delivery'')
      else transition db i worker token version
        \<lparr> t_state = DeadLetter, t_now = now, t_next_attempt_at = now,
          t_classification = dl_classification u, t_message = [], t_error = dl_error u,
          t_duplicate_risk = dl_duplicate_risk u,
          t_requires_exhaustion = starts_with (dl_classification u) ''attempts_exhausted'' \<rparr>)"

definition retry_row :: "RetryTransition \<Rightarrow> string \<Rightarrow> int \<Rightarrow> DeliveryRecord \<Rightarrow> DeliveryRecord" where
  "retry_row u classification now r =
     (let exhausted = (MAX_ATTEMPTS \<le> d_attempts r) in
      r\<lparr>d_state := (if exhausted then DeadLetter else Retry),
        d_lease_owner := None, d_lease_expires_at := None, d_lease_token := None,
        d_next_attempt_at := (if exhausted then now else rt_next_attempt_at u),
        d_result_classification := (if exhausted then ''attempts_exhausted'' else classification),
        d_duplicate_risk := rt_duplicate_risk u,
        d_terminal_error := (if exhausted then ''attempts_exhausted'' else []),
        d_updated_at := now,
        d_completed_at := (if exhausted then Some now else None)\<rparr>)"

definition retry ::
    "outbox_db \<Rightarrow> string \<Rightarrow> string \<Rightarrow> string \<Rightarrow> int \<Rightarrow> RetryTransition \<Rightarrow> int \<Rightarrow>
     (bool \<times> outbox_db) result" where
  "retry db i worker token version u now =
     try_bind (safe_retry_classification (rt_classification u)) (\<lambda>classification.
       let g = holds_lease i worker token version
       in Inr (count_rows g (ob_rows db) = 1,
               db\<lparr>ob_rows := sql_update g (retry_row u classification now) (ob_rows db)\<rparr>))"

text \<open>
  The acceptance of a discussion job (persistence/discussions/delivery.rs): \<open>accept_outbox_raw\<close> and
  \<open>accept_outbox_in_transaction\<close> run the same \<open>UPDATE\<close>, inside the transactions that record the
  Discord ids. It is the acceptance above, except that \<open>terminal_error\<close> becomes empty.
\<close>

definition accept_outbox_row :: "string \<Rightarrow> int \<Rightarrow> DeliveryRecord \<Rightarrow> DeliveryRecord" where
  "accept_outbox_row message now r =
     r\<lparr>d_state := Accepted, d_lease_owner := None, d_lease_expires_at := None, d_lease_token := None,
       d_next_attempt_at := now, d_result_classification := ''accepted'', d_duplicate_risk := False,
       d_discord_message_id := Some message, d_terminal_error := [], d_updated_at := now,
       d_completed_at := Some now\<rparr>"

definition accept_outbox_raw ::
    "outbox_db \<Rightarrow> string \<Rightarrow> string \<Rightarrow> string \<Rightarrow> int \<Rightarrow> string \<Rightarrow> int \<Rightarrow> (bool \<times> outbox_db) result" where
  "accept_outbox_raw db i worker token version message now =
     (let g = holds_lease i worker token version
      in Inr (count_rows g (ob_rows db) = 1,
              db\<lparr>ob_rows := sql_update g (accept_outbox_row message now) (ob_rows db)\<rparr>))"

definition verify_payload_hash :: "(bytes \<Rightarrow> string) \<Rightarrow> DeliveryRecord \<Rightarrow> bool" where
  "verify_payload_hash sha r \<longleftrightarrow> sha (d_payload r) = d_payload_sha256 r"

text \<open>The stored key of a rate limit, by scope.\<close>

definition rate_limit_key ::
    "string \<Rightarrow> string \<Rightarrow> string \<Rightarrow> string \<Rightarrow> (string \<times> string \<times> string) result" where
  "rate_limit_key scope target bucket secret =
     (if scope = ''global'' \<and> target = [] \<and> bucket = [] \<and> secret = [] then Inr ([], [], [])
      else if scope = ''target'' \<and> opaque_target_key target \<and> bucket = [] \<and> secret = []
      then Inr (target, [], [])
      else if scope = ''bucket'' \<and> opaque_target_key target \<and> opaque_bucket_key bucket
              \<and> opaque_provider_secret_ref secret
      then Inr ([], bucket, secret)
      else Inl (Validation ''invalid rate limit state''))"

definition same_limit_key :: "RateLimitRow \<Rightarrow> RateLimitRow \<Rightarrow> bool" where
  "same_limit_key a b \<longleftrightarrow>
     r_scope a = r_scope b \<and> r_target_key a = r_target_key b \<and> r_bucket_id a = r_bucket_id b \<and>
     r_secret_ref a = r_secret_ref b"

text \<open>\<open>INSERT \<dots> ON CONFLICT DO UPDATE\<close>: a block is never shortened.\<close>

definition merge_limit :: "RateLimitRow \<Rightarrow> RateLimitRow \<Rightarrow> RateLimitRow" where
  "merge_limit new old =
     old\<lparr>r_blocked_until := max (r_blocked_until old) (r_blocked_until new),
         r_updated_at := (if r_blocked_until old \<le> r_blocked_until new then r_updated_at new
                          else r_updated_at old)\<rparr>"

definition upsert_limit :: "RateLimitRow \<Rightarrow> RateLimitRow list \<Rightarrow> RateLimitRow list" where
  "upsert_limit new limits =
     (if list_ex (same_limit_key new) limits then sql_update (same_limit_key new) (merge_limit new) limits
      else limits @ [new])"

definition rebucket :: "string \<Rightarrow> string \<Rightarrow> DeliveryRecord \<Rightarrow> bool" where
  "rebucket target secret r \<longleftrightarrow>
     d_target_key r = target \<and> d_secret_ref r = secret \<and>
     (d_state r = Blocked \<or> d_state r = Ready \<or> d_state r = Retry)"

definition persist_rate_limit ::
    "outbox_db \<Rightarrow> string \<Rightarrow> string \<Rightarrow> string \<Rightarrow> string \<Rightarrow> int \<Rightarrow> int \<Rightarrow> outbox_db result" where
  "persist_rate_limit db scope target bucket secret blocked_until now =
     try_bind (rate_limit_key scope target bucket secret) (\<lambda>(st, sb, ss).
       if blocked_until < 0 then Inl (Validation ''invalid rate limit state'')
       else
         let limits = upsert_limit \<lparr> r_scope = scope, r_target_key = st, r_bucket_id = sb,
               r_secret_ref = ss, r_blocked_until = blocked_until, r_updated_at = now \<rparr>
               (ob_rate_limits db);
             rows = (if scope = ''bucket''
                     then sql_update (rebucket target secret)
                            (\<lambda>r. r\<lparr>d_bucket_id := bucket, d_updated_at := now\<rparr>) (ob_rows db)
                     else ob_rows db)
         in Inr (db\<lparr>ob_rate_limits := limits, ob_rows := rows\<rparr>))"

end
