(* ===== verification/Outbox_Invariants.thy ===== *)
theory Outbox_Invariants
  imports Outbox
begin

text \<open>
  What the delivery queue keeps true. \<open>db_ok\<close> is the well-formedness of the tables: the
  constraints the schema declares, and those it relies on (attempt counts, lease versions,
  first-in-first-out leases per ordering key, capacity). Every operation preserves it, so it
  holds in every reachable state. On top of it: lease exclusion, stale workers, at most
  \<open>MAX_ATTEMPTS\<close> claims, permanence of terminal rows, idempotent enqueueing, soundness of the
  lock-free poll, and a refinement to the life cycle of a single delivery.
\<close>

section \<open>Well-formed tables\<close>

definition row_ok :: "DeliveryRecord \<Rightarrow> bool" where
  "row_ok r \<longleftrightarrow>
     (d_state r = Blocked) = (d_durability_intent_id r \<noteq> None) \<and>
     (if d_state r = Leased
      then d_lease_owner r \<noteq> None \<and> d_lease_expires_at r \<noteq> None \<and> d_lease_token r \<noteq> None
      else d_lease_owner r = None \<and> d_lease_expires_at r = None \<and> d_lease_token r = None) \<and>
     d_lease_version r = d_attempts r \<and> 0 \<le> d_attempts r \<and> d_attempts r \<le> MAX_ATTEMPTS \<and>
     (d_state r = Blocked \<or> ready_or_retry r \<longrightarrow> d_attempts r < MAX_ATTEMPTS) \<and>
     (d_state r = Leased \<longrightarrow> 0 < d_attempts r) \<and>
     (d_completed_at r \<noteq> None) = (d_state r = Accepted \<or> d_state r = DeadLetter) \<and>
     (d_bucket_id r = d_target_key r \<or> opaque_bucket_key (d_bucket_id r))"

definition event_key :: "DeliveryRecord \<Rightarrow> string \<times> string \<times> string" where
  "event_key r = (d_tenant r, d_target_key r, d_event_id r)"

definition fifo_before :: "DeliveryRecord \<Rightarrow> DeliveryRecord \<Rightarrow> bool" where
  "fifo_before a b \<longleftrightarrow> (d_ordering_key a = d_ordering_key b \<longrightarrow> d_created_at a < d_created_at b)"

text \<open>A leased row is the oldest active row of its ordering key.\<close>

definition leases_first :: "DeliveryRecord list \<Rightarrow> bool" where
  "leases_first rows \<longleftrightarrow>
     (\<forall>r \<in> set rows. \<forall>q \<in> set rows. d_state r = Leased \<and> active q \<and>
        d_ordering_key q = d_ordering_key r \<longrightarrow> d_created_at r \<le> d_created_at q)"

definition deps_present :: "DeliveryRecord list \<Rightarrow> bool" where
  "deps_present rows \<longleftrightarrow>
     (\<forall>r \<in> set rows. \<forall>p. d_depends_on_outbox_id r = Some p \<longrightarrow> p \<in> d_id ` set rows)"

definition rows_ok :: "DeliveryRecord list \<Rightarrow> bool" where
  "rows_ok rows \<longleftrightarrow>
     (\<forall>r \<in> set rows. row_ok r) \<and> distinct (map d_id rows) \<and> distinct (map event_key rows) \<and>
     deps_present rows \<and> sorted_wrt fifo_before rows \<and> leases_first rows"

definition capacity_ok :: "DeliveryRecord list \<Rightarrow> bool" where
  "capacity_ok rows \<longleftrightarrow>
     count_rows active rows \<le> MAX_QUEUE_GLOBAL \<and>
     (\<forall>t. count_rows (\<lambda>r. d_tenant r = t \<and> active r) rows \<le> MAX_QUEUE_TENANT)"

definition intents_ok :: "outbox_db \<Rightarrow> bool" where
  "intents_ok db \<longleftrightarrow>
     distinct (ob_intents db) \<and>
     (\<forall>r \<in> set (ob_rows db). \<forall>i. d_durability_intent_id r = Some i \<longrightarrow> i \<in> set (ob_intents db))"

definition db_ok :: "outbox_db \<Rightarrow> bool" where
  "db_ok db \<longleftrightarrow> rows_ok (ob_rows db) \<and> capacity_ok (ob_rows db) \<and> intents_ok db"

lemma rows_okD:
  assumes "rows_ok rows"
  shows "\<And>r. r \<in> set rows \<Longrightarrow> row_ok r" "distinct (map d_id rows)" "distinct (map event_key rows)"
    "deps_present rows" "sorted_wrt fifo_before rows" "leases_first rows"
  using assms by (auto simp: rows_ok_def)

lemma distinct_ids_eq:
  assumes "distinct (map d_id rows)" and "r \<in> set rows" and "q \<in> set rows" and "d_id r = d_id q"
  shows "r = q"
  using assms by (metis distinct_map inj_onD)

section \<open>Row-wise updates\<close>

text \<open>The columns no update of the module writes.\<close>

definition identity_cols where
  "identity_cols r = (d_id r, event_key r, d_event_type r, d_secret_ref r, d_payload r,
     d_payload_sha256 r, d_delivery_kind r, d_ordering_key r, d_depends_on_outbox_id r,
     d_created_at r)"

lemma identity_colsD:
  assumes "identity_cols a = identity_cols b"
  shows "d_id a = d_id b" "event_key a = event_key b" "d_ordering_key a = d_ordering_key b"
    "d_depends_on_outbox_id a = d_depends_on_outbox_id b" "d_created_at a = d_created_at b"
    "d_tenant a = d_tenant b"
  using assms by (auto simp: identity_cols_def event_key_def)

lemma identity_cols_updates [simp]:
  "identity_cols (recover_row now r) = identity_cols r"
  "identity_cols (fail_dependent now r) = identity_cols r"
  "identity_cols (lease_row w t now r) = identity_cols r"
  "identity_cols (transition_row u c r) = identity_cols r"
  "identity_cols (retry_row ru c now r) = identity_cols r"
  "identity_cols (release_row now r) = identity_cols r"
  "identity_cols (accept_outbox_row m now r) = identity_cols r"
  "identity_cols (r\<lparr>d_bucket_id := b, d_updated_at := now\<rparr>) = identity_cols r"
  by (simp_all add: identity_cols_def event_key_def recover_row_def fail_dependent_def lease_row_def
      transition_row_def retry_row_def release_row_def accept_outbox_row_def Let_def)

text \<open>An update that keeps the identity of each row, its well-formedness and its activity.\<close>

definition keeps :: "(DeliveryRecord \<Rightarrow> bool) \<Rightarrow> (DeliveryRecord \<Rightarrow> DeliveryRecord) \<Rightarrow> bool" where
  "keeps p f \<longleftrightarrow> (\<forall>r. p r \<and> row_ok r \<longrightarrow>
     identity_cols (f r) = identity_cols r \<and> row_ok (f r) \<and> (active (f r) \<longrightarrow> active r))"

lemma keeps_identity:
  assumes "keeps p f" and "\<forall>r \<in> set rows. row_ok r"
  shows "map identity_cols (sql_update p f rows) = map identity_cols rows"
  using assms by (auto simp: sql_update_def keeps_def)

lemma map_via_identity:
  assumes "map identity_cols rows' = map identity_cols rows"
    and "\<And>a b. identity_cols a = identity_cols b \<Longrightarrow> g a = g b"
  shows "map g rows' = map g rows"
proof -
  have "list_all2 (\<lambda>a b. identity_cols a = identity_cols b) rows' rows"
    using assms(1) by (simp add: list_all2_conv_all_nth) (metis length_map nth_map)
  then have "list_all2 (\<lambda>a b. g a = g b) rows' rows"
    by (rule list_all2_mono) (rule assms(2))
  then show ?thesis by (induction rule: list_all2_induct) auto
qed

lemma fifo_via_identity:
  assumes "map identity_cols rows' = map identity_cols rows" and "sorted_wrt fifo_before rows"
  shows "sorted_wrt fifo_before rows'"
proof -
  let ?g = "\<lambda>r. (d_ordering_key r, d_created_at r)"
  let ?R = "\<lambda>x y. fst x = fst y \<longrightarrow> snd x < (snd y :: int)"
  have "map ?g rows' = map ?g rows"
    using assms(1) by (rule map_via_identity) (auto dest: identity_colsD)
  moreover have "fifo_before = (\<lambda>a b. ?R (?g a) (?g b))"
    by (intro ext) (simp add: fifo_before_def)
  then have conv: "sorted_wrt fifo_before xs = sorted_wrt ?R (map ?g xs)" for xs
    by (simp add: sorted_wrt_map)
  ultimately show ?thesis using assms(2) by (simp only: conv)
qed

lemma deps_via_identity:
  assumes "map identity_cols rows' = map identity_cols rows" and "deps_present rows"
  shows "deps_present rows'"
proof -
  have ids: "map d_id rows' = map d_id rows" and deps: "map d_depends_on_outbox_id rows' = map d_depends_on_outbox_id rows"
    using assms(1) by (auto intro: map_via_identity dest: identity_colsD)
  have "d_id ` set rows' = d_id ` set rows" by (metis ids list.set_map)
  moreover have "d_depends_on_outbox_id ` set rows' = d_depends_on_outbox_id ` set rows"
    by (metis deps list.set_map)
  ultimately show ?thesis
    using assms(2) unfolding deps_present_def by (metis (no_types, lifting) image_iff)
qed

lemma rows_ok_update:
  assumes ok: "rows_ok rows" and k: "keeps p f"
    and lf: "leases_first (sql_update p f rows)"
  shows "rows_ok (sql_update p f rows)"
proof -
  have ro: "\<forall>r \<in> set rows. row_ok r" using ok by (simp add: rows_ok_def)
  have id: "map identity_cols (sql_update p f rows) = map identity_cols rows"
    by (rule keeps_identity [OF k ro])
  have "map d_id (sql_update p f rows) = map d_id rows"
    and "map event_key (sql_update p f rows) = map event_key rows"
    using id by (auto intro: map_via_identity dest: identity_colsD)
  moreover have "\<forall>r \<in> set (sql_update p f rows). row_ok r"
    using ro k by (auto simp: set_sql_update keeps_def)
  ultimately show ?thesis
    using ok id lf fifo_via_identity [OF id] deps_via_identity [OF id]
    by (simp add: rows_ok_def)
qed

text \<open>An update that hands out no lease keeps the order of leases.\<close>

lemma leases_first_update:
  assumes ok: "rows_ok rows" and k: "keeps p f"
    and nl: "\<And>r. p r \<Longrightarrow> d_state (f r) = Leased \<Longrightarrow> d_state r = Leased"
  shows "leases_first (sql_update p f rows)"
  unfolding leases_first_def
proof (intro ballI impI)
  fix r q
  assume "r \<in> set (sql_update p f rows)" and "q \<in> set (sql_update p f rows)"
    and h: "d_state r = Leased \<and> active q \<and> d_ordering_key q = d_ordering_key r"
  then obtain r0 q0 where r0: "r0 \<in> set rows" "r = (if p r0 then f r0 else r0)"
    and q0: "q0 \<in> set rows" "q = (if p q0 then f q0 else q0)"
    by (auto simp: set_sql_update)
  have ok': "row_ok r0" "row_ok q0" using ok r0(1) q0(1) by (auto simp: rows_ok_def)
  have "identity_cols r = identity_cols r0" "identity_cols q = identity_cols q0"
    using k ok' r0(2) q0(2) by (auto simp: keeps_def)
  note cols = identity_colsD [OF this(1)] identity_colsD [OF this(2)]
  have "d_state r0 = Leased" using h r0(2) nl by (auto split: if_splits)
  moreover have "active q0" using h q0(2) k ok' by (auto simp: keeps_def split: if_splits)
  ultimately show "d_created_at r \<le> d_created_at q"
    using ok r0(1) q0(1) h cols by (auto simp: rows_ok_def leases_first_def)
qed

lemma capacity_ok_update:
  assumes "capacity_ok rows" and "rows_ok rows" and "keeps p f"
  shows "capacity_ok (sql_update p f rows)"
proof -
  let ?p = "\<lambda>r. p r \<and> row_ok r"
  have eq: "sql_update p f rows = sql_update ?p f rows"
    using assms(2) by (auto simp: sql_update_def rows_ok_def)
  have "count_rows active (sql_update ?p f rows) \<le> count_rows active rows"
    by (rule count_sql_update_le) (use assms(3) in \<open>auto simp: keeps_def\<close>)
  moreover have "count_rows (\<lambda>r. d_tenant r = t \<and> active r) (sql_update ?p f rows)
      \<le> count_rows (\<lambda>r. d_tenant r = t \<and> active r) rows" for t
    by (rule count_sql_update_le) (use assms(3) identity_colsD(6) in \<open>metis keeps_def\<close>)
  ultimately show ?thesis
    using assms(1) unfolding eq capacity_ok_def by (meson order_trans)
qed

lemma intents_ok_update:
  assumes "intents_ok db"
    and "\<And>r i. p r \<Longrightarrow> d_durability_intent_id (f r) = Some i \<Longrightarrow> d_durability_intent_id r = Some i"
  shows "intents_ok (db\<lparr>ob_rows := sql_update p f (ob_rows db)\<rparr>)"
  using assms by (fastforce simp: intents_ok_def set_sql_update split: if_splits)

lemma db_ok_update:
  assumes "db_ok db" and "keeps p f"
    and "\<And>r. p r \<Longrightarrow> d_state (f r) = Leased \<Longrightarrow> d_state r = Leased"
    and "\<And>r i. p r \<Longrightarrow> d_durability_intent_id (f r) = Some i \<Longrightarrow> d_durability_intent_id r = Some i"
  shows "db_ok (db\<lparr>ob_rows := sql_update p f (ob_rows db)\<rparr>)"
  using assms rows_ok_update leases_first_update capacity_ok_update intents_ok_update
  by (simp add: db_ok_def)

lemmas state_defs = active_def active_state_def ready_or_retry_def row_ok_def

lemma keeps_recover: "keeps (lease_expired now) (recover_row now)"
  by (auto simp: keeps_def lease_expired_def recover_row_def Let_def state_defs identity_cols_def
      event_key_def split: if_splits)

lemma keeps_fail_dependent: "keeps (dependency_failed rows) (fail_dependent now)"
  by (auto simp: keeps_def dependency_failed_def fail_dependent_def state_defs identity_cols_def
      event_key_def)

lemma keeps_retry: "keeps (holds_lease i w t v) (retry_row u c now)"
  by (auto simp: keeps_def holds_lease_def retry_row_def Let_def state_defs identity_cols_def
      event_key_def split: if_splits)

lemma keeps_transition:
  assumes "t_state u = Accepted \<or> t_state u = DeadLetter"
  shows "keeps (transition_guard i w t v u) (transition_row u c)"
  using assms
  by (auto simp: keeps_def transition_guard_def holds_lease_def transition_row_def state_defs
      identity_cols_def event_key_def)

lemma keeps_accept_outbox: "keeps (holds_lease i w t v) (accept_outbox_row m now)"
  by (auto simp: keeps_def holds_lease_def accept_outbox_row_def state_defs identity_cols_def event_key_def)

lemma keeps_release: "keeps (blocked_on i) (release_row now)"
  by (auto simp: keeps_def blocked_on_def release_row_def state_defs identity_cols_def event_key_def)

lemma keeps_rebucket:
  "opaque_bucket_key b \<Longrightarrow> keeps (rebucket target secret) (\<lambda>r. r\<lparr>d_bucket_id := b, d_updated_at := now\<rparr>)"
  by (auto simp: keeps_def rebucket_def state_defs identity_cols_def event_key_def)

section \<open>Insertion\<close>

lemma prior_created_at_bound:
  assumes "r \<in> set (ob_rows db)" and "d_ordering_key r = okey"
  shows "\<exists>p. prior_created_at db okey = Some p \<and> d_created_at r \<le> p"
proof -
  let ?ts = "map d_created_at (filter (\<lambda>r. d_ordering_key r = okey) (ob_rows db))"
  have m: "d_created_at r \<in> set ?ts" using assms by auto
  then have "?ts \<noteq> []" by (metis list.set(1) empty_iff)
  moreover have "d_created_at r \<le> Max (set ?ts)" using m by (rule Max_ge [rotated]) simp
  ultimately show ?thesis unfolding prior_created_at_def Let_def by auto
qed

lemma next_created_at_later:
  assumes "next_created_at (prior_created_at db okey) now = Inr c"
    and "r \<in> set (ob_rows db)" and "d_ordering_key r = okey"
  shows "d_created_at r < c"
proof -
  obtain p where p: "prior_created_at db okey = Some p" "d_created_at r \<le> p"
    using prior_created_at_bound [OF assms(2,3)] by blast
  then show ?thesis
    using assms(1) by (auto simp: next_created_at_def i64_checked_add_def split: if_splits)
qed

lemma new_row_simps [simp]:
  "d_id (new_row sha input i now c) = i"
  "event_key (new_row sha input i now c) = (e_tenant input, e_target_key input, e_event_id input)"
  "d_ordering_key (new_row sha input i now c) = e_ordering_key input"
  "d_tenant (new_row sha input i now c) = e_tenant input"
  "d_created_at (new_row sha input i now c) = c"
  "d_durability_intent_id (new_row sha input i now c) = e_durability_intent_id input"
  "d_depends_on_outbox_id (new_row sha input i now c) = e_depends_on_outbox_id input"
  "d_attempts (new_row sha input i now c) = 0"
  "active (new_row sha input i now c)"
  "d_state (new_row sha input i now c) = (if e_durability_intent_id input \<noteq> None then Blocked else Ready)"
  "row_ok (new_row sha input i now c)"
  by (simp_all add: new_row_def event_key_def state_defs MAX_ATTEMPTS_def)

lemma insert_row_ok:
  assumes ok: "rows_ok (ob_rows db)" and ins: "insert_row db row = Inr db'"
    and row: "row = new_row sha input i now c"
    and c: "next_created_at (prior_created_at db (e_ordering_key input)) now = Inr c"
  shows "rows_ok (ob_rows db')" and "db' = db\<lparr>ob_rows := ob_rows db @ [row]\<rparr>" and "get_row db' i = Some row"
proof -
  have al: "insert_allowed db row" and db': "db' = db\<lparr>ob_rows := ob_rows db @ [row]\<rparr>"
    using ins by (auto simp: insert_row_def split: if_splits)
  show "db' = db\<lparr>ob_rows := ob_rows db @ [row]\<rparr>" by (rule db')
  have fresh_id: "d_id row \<notin> d_id ` set (ob_rows db)"
    and fresh_ev: "event_key row \<notin> event_key ` set (ob_rows db)"
    using al by (auto simp: insert_allowed_def list_ex_iff event_key_def)
  have dep: "d_depends_on_outbox_id row = Some p \<Longrightarrow> p \<in> insert (d_id row) (d_id ` set (ob_rows db))" for p
    using al by (auto simp: insert_allowed_def list_ex_iff)
  have later: "d_created_at r < d_created_at row" if "r \<in> set (ob_rows db)" "d_ordering_key r = d_ordering_key row" for r
    using next_created_at_later [OF c that(1)] that(2) by (simp add: row)
  have "d_state row \<noteq> Leased" by (simp add: row)
  then have "leases_first (ob_rows db @ [row])"
    using rows_okD(6) [OF ok] later by (fastforce simp: leases_first_def)
  moreover have "deps_present (ob_rows db @ [row])"
    using rows_okD(4) [OF ok] dep by (auto simp: deps_present_def)
  moreover have "sorted_wrt fifo_before (ob_rows db @ [row])"
    using rows_okD(5) [OF ok] later by (auto simp: sorted_wrt_append fifo_before_def)
  ultimately show "rows_ok (ob_rows db')"
    using rows_okD [OF ok] fresh_id fresh_ev by (auto simp: rows_ok_def db' row)
  show "get_row db' i = Some row"
  proof -
    have "List.find (\<lambda>r. d_id r = i) (ob_rows db) = None"
      using fresh_id by (auto simp: find_None_iff row)
    then show ?thesis by (simp add: get_row_def db' find_append) (simp add: row)
  qed
qed

lemma insert_fresh_spec:
  assumes "insert_fresh sha now db fresh = Inr (records, db')" and "db_ok db"
  shows "rows_ok (ob_rows db') \<and> intents_ok db' \<and> ob_rows db' = ob_rows db @ records \<and>
    db' = db\<lparr>ob_rows := ob_rows db @ records\<rparr> \<and>
    list_all2 (\<lambda>(input, i) r. \<exists>c. r = new_row sha input i now c) fresh records"
proof -
  have "insert_fresh sha now db fresh = Inr (records, db') \<Longrightarrow> rows_ok (ob_rows db) \<Longrightarrow> intents_ok db \<Longrightarrow> ?thesis"
  proof (induction sha now db fresh arbitrary: records rule: insert_fresh.induct)
    case (1 sha now db)
    then show ?case by simp
  next
    case (2 sha now db input i fresh)
    from "2.prems"(1) obtain u c db1 r records1 where
      v: "validate_dependency_contract db input = Inr u" and
      c: "next_created_at (prior_created_at db (e_ordering_key input)) now = Inr c" and
      ins: "insert_row db (new_row sha input i now c) = Inr db1" and
      g: "get_row db1 i = Some r" and
      rest: "insert_fresh sha now db1 fresh = Inr (records1, db')" and
      rec: "records = r # records1"
      by (auto simp: result_simps split: option.splits)
    note io = insert_row_ok [OF "2.prems"(2) ins refl c]
    have r: "r = new_row sha input i now c" using io(3) g by simp
    have "intents_ok db1"
      using "2.prems"(3) ins
      by (auto simp: intents_ok_def insert_row_def insert_allowed_def split: if_splits)
    from "2.IH" [OF rest io(1) this]
    show ?case using io(2) r rec by auto
  qed
  with assms show ?thesis unfolding db_ok_def by blast
qed

lemma count_new_rows:
  assumes "list_all2 (\<lambda>(input, i) r. \<exists>c. r = new_row sha input i now c) fresh records"
  shows "count_rows active records = int (length fresh)"
    and "count_rows (\<lambda>r. d_tenant r = t \<and> active r) records = count_rows (\<lambda>f. e_tenant (fst f) = t) fresh"
  using assms by (induction rule: list_all2_induct) auto

lemma enqueue_many_Inr:
  assumes "enqueue_many_in_transaction sha db inputs now = Inr (out, db')" and "db_ok db"
  obtains records fresh created where
    "partition_inputs sha db inputs = Inr (records, fresh)" and "out = records @ created"
    and "db' = db\<lparr>ob_rows := ob_rows db @ created\<rparr>" and "db_ok db'"
    and "list_all2 (\<lambda>(input, i) r. \<exists>c. r = new_row sha input i now c) fresh created"
proof -
  from assms(1) obtain records fresh created where
    p: "partition_inputs sha db inputs = Inr (records, fresh)" and
    g: "\<not> MAX_QUEUE_GLOBAL < count_rows active (ob_rows db) + i64_try_from_or_max (int (length fresh))" and
    t: "\<not> list_ex (\<lambda>f. tenant_over_capacity db fresh (e_tenant (fst f))) fresh" and
    i: "insert_fresh sha now db fresh = Inr (created, db')" and o: "out = records @ created"
    by (auto simp: enqueue_many_in_transaction_def result_simps split: if_splits)
  note spec = insert_fresh_spec [OF i assms(2)]
  then have la: "list_all2 (\<lambda>(input, i) r. \<exists>c. r = new_row sha input i now c) fresh created"
    and db': "db' = db\<lparr>ob_rows := ob_rows db @ created\<rparr>" by blast+
  have cap: "capacity_ok (ob_rows db)" using assms(2) by (simp add: db_ok_def)
  have len: "i64_try_from_or_max (int (length fresh)) = int (length fresh)"
    using g count_rows_nonneg [of active "ob_rows db"]
    by (auto simp: i64_try_from_or_max_def i64_defs MAX_QUEUE_GLOBAL_def simp del: count_rows_nonneg
        split: if_splits)
  have "count_rows (\<lambda>r. d_tenant r = x \<and> active r) (ob_rows db @ created) \<le> MAX_QUEUE_TENANT" for x
  proof (cases "\<exists>f \<in> set fresh. e_tenant (fst f) = x")
    case True
    then have "\<not> tenant_over_capacity db fresh x" using t by (auto simp: list_ex_iff)
    moreover have "i64_try_from_or_max (count_rows (\<lambda>f. e_tenant (fst f) = x) fresh)
        = count_rows (\<lambda>f. e_tenant (fst f) = x) fresh"
      using len count_rows_le_length [of "\<lambda>f. e_tenant (fst f) = x" fresh]
      by (auto simp: i64_try_from_or_max_def i64_defs split: if_splits)
    ultimately show ?thesis by (simp add: tenant_over_capacity_def count_new_rows(2) [OF la])
  next
    case False
    then have "count_rows (\<lambda>f. e_tenant (fst f) = x) fresh = 0" by (auto simp: count_rows_eq_0_iff)
    then show ?thesis using cap by (simp add: capacity_ok_def count_new_rows(2) [OF la])
  qed
  then have "capacity_ok (ob_rows db')"
    using g len by (simp add: capacity_ok_def db' count_new_rows(1) [OF la])
  then have "db_ok db'" using spec unfolding db_ok_def by blast
  with that p o db' la show ?thesis by blast
qed

section \<open>Producer finalization and compensation\<close>

lemma delete_intent_ok:
  assumes "delete_intent db intent = Inr db'" and "db_ok db"
  shows "db_ok db'" and "intent \<notin> set (ob_intents db')" and "ob_rows db' = ob_rows db"
  using assms
  by (auto simp: delete_intent_def db_ok_def intents_ok_def sql_delete_def list_ex_iff split: if_splits)

lemma finalize_ok:
  assumes "finalize_durability_success_in_transaction db intent now = Inr (n, db')" and "db_ok db"
  shows "db_ok db'"
proof -
  let ?db1 = "db\<lparr>ob_rows := sql_update (blocked_on intent) (release_row now) (ob_rows db)\<rparr>"
  have "delete_intent ?db1 intent = Inr db'"
    using assms(1) by (auto simp: finalize_durability_success_in_transaction_def Let_def result_simps)
  moreover have "db_ok ?db1"
    by (rule db_ok_update [OF assms(2) keeps_release]) (auto simp: release_row_def)
  ultimately show ?thesis by (rule delete_intent_ok(1))
qed

lemma rows_ok_delete:
  assumes ok: "rows_ok rows"
    and nd: "\<And>q r. q \<in> set rows \<Longrightarrow> p q \<Longrightarrow> r \<in> set rows \<Longrightarrow> d_depends_on_outbox_id r \<noteq> Some (d_id q)"
  shows "rows_ok (sql_delete p rows)"
proof -
  have "deps_present (sql_delete p rows)"
    using rows_okD(4) [OF ok] nd by (fastforce simp: deps_present_def sql_delete_def)
  moreover have "leases_first (sql_delete p rows)"
    using rows_okD(6) [OF ok] by (auto simp: leases_first_def sql_delete_def)
  ultimately show ?thesis
    using rows_okD [OF ok]
    by (auto simp: rows_ok_def sql_delete_def sorted_wrt_filter distinct_map_filter)
qed

lemma compensate_ok:
  assumes "compensate_durability_in_transaction db intent = Inr (n, db')" and "db_ok db"
  shows "db_ok db'"
proof -
  let ?db1 = "db\<lparr>ob_rows := sql_delete (blocked_on intent) (ob_rows db)\<rparr>"
  have d: "delete_intent ?db1 intent = Inr db'" and
    nd: "\<And>q r. q \<in> set (ob_rows db) \<Longrightarrow> blocked_on intent q \<Longrightarrow> r \<in> set (ob_rows db) \<Longrightarrow>
           d_depends_on_outbox_id r \<noteq> Some (d_id q)"
    using assms(1)
    by (auto simp: compensate_durability_in_transaction_def referenced_def Let_def result_simps list_ex_iff
        split: if_splits)
  have "rows_ok (ob_rows ?db1)"
    using rows_ok_delete nd assms(2) by (simp add: db_ok_def)
  moreover have "capacity_ok (ob_rows ?db1)"
    using assms(2) count_sql_delete_le order_trans by (simp add: db_ok_def capacity_ok_def) blast
  moreover have "intents_ok ?db1"
    using assms(2) by (auto simp: db_ok_def intents_ok_def sql_delete_def)
  ultimately have "db_ok ?db1" by (simp add: db_ok_def)
  with d show ?thesis by (rule delete_intent_ok(1))
qed

section \<open>Claiming\<close>

lemma recover_expired_ok:
  assumes "db_ok db" shows "db_ok (db\<lparr>ob_rows := recover_expired now (ob_rows db)\<rparr>)"
  unfolding recover_expired_def
  by (rule db_ok_update [OF assms keeps_recover]) (auto simp: recover_row_def Let_def split: if_splits)

lemma propagate_ok:
  assumes "db_ok db"
  shows "db_ok (db\<lparr>ob_rows := propagate_terminal_dependencies now (ob_rows db)\<rparr>)"
proof -
  have "db_ok (db\<lparr>ob_rows := rows\<rparr>) \<Longrightarrow>
    db_ok (db\<lparr>ob_rows := propagate_terminal_dependencies now rows\<rparr>)" for rows
  proof (induction now rows rule: propagate_terminal_dependencies.induct)
    case (1 now rows)
    have "db_ok (db\<lparr>ob_rows := sql_update (dependency_failed rows) (fail_dependent now) rows\<rparr>)"
      using db_ok_update [OF "1.prems" keeps_fail_dependent [of rows now]]
      by (simp add: fail_dependent_def)
    with "1.IH" "1.prems" show ?case
      by (subst propagate_terminal_dependencies.simps) simp
  qed
  from this [of "ob_rows db"] assms show ?thesis by simp
qed

lemma propagate_fixpoint:
  "\<not> list_ex (dependency_failed (propagate_terminal_dependencies now rows))
       (propagate_terminal_dependencies now rows)"
proof (induction now rows rule: propagate_terminal_dependencies.induct)
  case (1 now rows)
  then show ?case
    by (cases "list_ex (dependency_failed rows) rows")
      (simp_all add: propagate_terminal_dependencies.simps [of now rows])
qed

lemma first_by_order_mem: "first_by_order rows = Some r \<Longrightarrow> r \<in> set rows"
  by (induction rows arbitrary: r) (auto split: option.splits if_splits)

lemma first_by_order_None [simp]: "first_by_order rows = None \<longleftrightarrow> rows = []"
  by (cases rows) (auto split: option.splits)

lemma select_claim_Some:
  assumes "select_claim db now = Some i"
  obtains r where "r \<in> set (ob_rows db)" "d_id r = i" "claimable db now r"
  using assms first_by_order_mem by (fastforce simp: select_claim_def)

lemma select_claim_None: "select_claim db now = None \<longleftrightarrow> \<not> list_ex (claimable db now) (ob_rows db)"
  by (auto simp: select_claim_def list_ex_iff filter_empty_conv)

lemma keeps_lease: "keeps (leasable i) (lease_row w t now)"
  by (auto simp: keeps_def leasable_def lease_row_def state_defs identity_cols_def event_key_def)

lemma leases_first_claim:
  assumes ok: "rows_ok rows" and r: "r \<in> set rows" "\<not> earlier_active rows r"
  shows "leases_first (sql_update (leasable (d_id r)) (lease_row w t now) rows)"
  unfolding leases_first_def
proof (intro ballI impI)
  let ?u = "\<lambda>x. if leasable (d_id r) x then lease_row w t now x else x"
  fix x q
  assume "x \<in> set (sql_update (leasable (d_id r)) (lease_row w t now) rows)"
    and "q \<in> set (sql_update (leasable (d_id r)) (lease_row w t now) rows)"
    and h: "d_state x = Leased \<and> active q \<and> d_ordering_key q = d_ordering_key x"
  then obtain x0 q0 where x0: "x0 \<in> set rows" "x = ?u x0" and q0: "q0 \<in> set rows" "q = ?u q0"
    by (auto simp: set_sql_update)
  have "identity_cols x = identity_cols x0" "identity_cols q = identity_cols q0"
    using x0 q0 by auto
  note cols = identity_colsD [OF this(1)] identity_colsD [OF this(2)]
  have act: "active q0" using h q0 by (auto simp: leasable_def state_defs split: if_splits)
  show "d_created_at x \<le> d_created_at q"
  proof (cases "leasable (d_id r) x0")
    case True
    then have "x0 = r"
      using distinct_ids_eq [OF rows_okD(2) [OF ok]] x0(1) r(1) by (auto simp: leasable_def)
    then have "\<not> precedes q0 x0" using r(2) act q0(1) h cols by (auto simp: earlier_active_def list_ex_iff)
    then show ?thesis using cols by (auto simp: precedes_def)
  next
    case False
    then show ?thesis
      using x0 q0 h act cols rows_okD(6) [OF ok] by (auto simp: leases_first_def)
  qed
qed

text \<open>The tables between the two maintenance updates of \<open>claim_next\<close> and its selection.\<close>

definition maintained :: "outbox_db \<Rightarrow> int \<Rightarrow> outbox_db" where
  "maintained db now =
     db\<lparr>ob_rows := propagate_terminal_dependencies now (recover_expired now (ob_rows db))\<rparr>"

lemma maintained_ok: "db_ok db \<Longrightarrow> db_ok (maintained db now)"
  using propagate_ok [OF recover_expired_ok, of db now now] by (simp add: maintained_def)

text \<open>What a worker receives from a successful claim.\<close>

definition claimed :: "outbox_db \<Rightarrow> int \<Rightarrow> string \<Rightarrow> string \<Rightarrow> DeliveryRecord \<Rightarrow> outbox_db \<Rightarrow> bool" where
  "claimed db now worker token r db' \<longleftrightarrow>
     (\<exists>r0 \<in> set (ob_rows db). claimable db now r0 \<and> r = lease_row worker token now r0 \<and>
        r \<in> set (ob_rows db') \<and>
        db' = db\<lparr>ob_rows := sql_update (\<lambda>x. x = r0) (lease_row worker token now) (ob_rows db)\<rparr>)"

lemma count_rows_unique:
  assumes "distinct (map d_id rows)" and "r0 \<in> set rows"
  shows "count_rows (\<lambda>x. x = r0) rows = 1"
  using assms by (induction rows) (auto simp: count_rows_eq_0_iff image_iff)

lemma get_row_update:
  assumes "distinct (map d_id (ob_rows db))" and "r0 \<in> set (ob_rows db)" and "d_id (f r0) = d_id r0"
  shows "get_row (db\<lparr>ob_rows := sql_update (\<lambda>x. x = r0) f (ob_rows db)\<rparr>) (d_id r0) = Some (f r0)"
proof -
  have "distinct (map d_id rows) \<Longrightarrow> r0 \<in> set rows \<Longrightarrow>
    List.find (\<lambda>r. d_id r = d_id r0) (sql_update (\<lambda>x. x = r0) f rows) = Some (f r0)" for rows
    by (induction rows) (auto simp: sql_update_def assms(3) image_iff)
  with assms show ?thesis by (simp add: get_row_def)
qed

lemma claim_transaction_cases:
  assumes ok: "db_ok db"
  shows "claim_transaction db w t now = Inr (None, maintained db now) \<and>
           \<not> list_ex (claimable (maintained db now) now) (ob_rows (maintained db now))
       \<or> (\<exists>r db'. claim_transaction db w t now = Inr (Some r, db') \<and> db_ok db' \<and>
            claimed (maintained db now) now w t r db')"
proof (cases "select_claim (maintained db now) now")
  case None
  then have "claim_transaction db w t now = Inr (None, maintained db now)"
    by (simp add: claim_transaction_def Let_def maintained_def [symmetric])
  with None show ?thesis by (simp add: select_claim_None)
next
  case (Some i)
  let ?m = "maintained db now"
  obtain r0 where r0: "r0 \<in> set (ob_rows ?m)" "d_id r0 = i" "claimable ?m now r0"
    using Some by (rule select_claim_Some)
  have mok: "db_ok ?m" by (rule maintained_ok [OF ok])
  then have dist: "distinct (map d_id (ob_rows ?m))" and rok: "rows_ok (ob_rows ?m)"
    by (auto simp: db_ok_def rows_ok_def)
  have lea: "leasable i x \<longleftrightarrow> x = r0" if "x \<in> set (ob_rows ?m)" for x
    using that r0 distinct_ids_eq [OF dist] by (auto simp: leasable_def claimable_def)
  let ?f = "lease_row w t now"
  let ?db2 = "?m\<lparr>ob_rows := sql_update (leasable i) ?f (ob_rows ?m)\<rparr>"
  have upd: "sql_update (leasable i) ?f (ob_rows ?m) = sql_update (\<lambda>x. x = r0) ?f (ob_rows ?m)"
    by (rule sql_update_cong) (rule lea)
  have cnt: "count_rows (leasable i) (ob_rows ?m) = 1"
  proof -
    have "count_rows (leasable i) (ob_rows ?m) = count_rows (\<lambda>x. x = r0) (ob_rows ?m)"
      by (rule count_rows_cong) (rule lea)
    then show ?thesis using count_rows_unique [OF dist r0(1)] by simp
  qed
  have "get_row ?db2 i = Some (?f r0)"
    using get_row_update [OF dist r0(1), of ?f] r0(2)
    by (simp add: upd) (simp add: lease_row_def)
  then have res: "claim_transaction db w t now = Inr (Some (?f r0), ?db2)"
    using Some cnt by (simp add: claim_transaction_def Let_def maintained_def [symmetric])
  have "\<not> earlier_active (ob_rows ?m) r0" using r0(3) by (simp add: claimable_def)
  then have "rows_ok (ob_rows ?db2)"
    using rows_ok_update [OF rok keeps_lease] leases_first_claim [OF rok r0(1)] r0(2) by simp
  moreover have "capacity_ok (ob_rows ?db2)"
    using capacity_ok_update [OF _ rok keeps_lease] mok by (simp add: db_ok_def)
  moreover have "intents_ok ?db2"
    using intents_ok_update [of ?m "leasable i" ?f] mok by (simp add: db_ok_def lease_row_def)
  ultimately have "db_ok ?db2" by (simp add: db_ok_def)
  moreover have "claimed ?m now w t (?f r0) ?db2"
    unfolding claimed_def using r0 upd
    by (intro bexI [of _ r0]) (auto simp: set_sql_update)
  ultimately show ?thesis using res by blast
qed

lemma recover_noop: "\<not> list_ex (lease_expired now) rows \<Longrightarrow> recover_expired now rows = rows"
  unfolding recover_expired_def by (rule sql_update_noop) (simp add: list_ex_iff)

lemma propagate_noop:
  "\<not> list_ex (dependency_failed rows) rows \<Longrightarrow> propagate_terminal_dependencies now rows = rows"
  by (simp add: propagate_terminal_dependencies.simps)

lemma no_work_claims_nothing:
  assumes "\<not> has_claimable_work db now"
  shows "claim_transaction db w t now = Inr (None, db)"
  using assms select_claim_None [of db now]
  by (simp add: has_claimable_work_def claim_transaction_def recover_noop propagate_noop Let_def)

lemma claim_next_ok:
  assumes "claim_next db w t now = Inr (out, db')" and "db_ok db"
  shows "db_ok db'"
  using assms claim_transaction_cases [OF assms(2), of w t now] maintained_ok [OF assms(2)]
  by (auto simp: claim_next_def split: if_splits)

section \<open>Guarded transitions\<close>

lemma transition_ok:
  assumes "transition db i w t v u = Inr (b, db')" and "db_ok db"
  shows "db_ok db'"
proof -
  obtain c where c: "transition_classification u = Inr c"
    and db': "db' = db\<lparr>ob_rows := sql_update (transition_guard i w t v u) (transition_row u c) (ob_rows db)\<rparr>"
    using assms(1) by (auto simp: transition_def result_simps Let_def)
  from c have st: "t_state u = Accepted \<or> t_state u = DeadLetter"
    by (auto simp: transition_classification_def split: if_splits)
  show ?thesis
    unfolding db' by (rule db_ok_update [OF assms(2) keeps_transition [OF st]])
      (use st in \<open>auto simp: transition_row_def\<close>)
qed

lemma accepted_ok: "accepted db i w t v m now = Inr (b, db') \<Longrightarrow> db_ok db \<Longrightarrow> db_ok db'"
  unfolding accepted_def by (rule transition_ok)

lemma dead_letter_ok: "dead_letter db i w t v u now = Inr (b, db') \<Longrightarrow> db_ok db \<Longrightarrow> db_ok db'"
  unfolding dead_letter_def by (auto intro: transition_ok split: if_splits)

lemma retry_ok:
  assumes "retry db i w t v u now = Inr (b, db')" and "db_ok db"
  shows "db_ok db'"
proof -
  obtain c where
    db': "db' = db\<lparr>ob_rows := sql_update (holds_lease i w t v) (retry_row u c now) (ob_rows db)\<rparr>"
    using assms(1) by (auto simp: retry_def result_simps Let_def)
  show ?thesis
    unfolding db' by (rule db_ok_update [OF assms(2) keeps_retry])
      (auto simp: retry_row_def Let_def split: if_splits)
qed

lemma accept_outbox_raw_ok:
  assumes "accept_outbox_raw db i w t v m now = Inr (b, db')" and "db_ok db"
  shows "db_ok db'"
proof -
  have db': "db' = db\<lparr>ob_rows := sql_update (holds_lease i w t v) (accept_outbox_row m now) (ob_rows db)\<rparr>"
    using assms(1) by (simp add: accept_outbox_raw_def Let_def)
  show ?thesis
    unfolding db' by (rule db_ok_update [OF assms(2) keeps_accept_outbox]) (auto simp: accept_outbox_row_def)
qed

lemma db_ok_limits: "db_ok (db\<lparr>ob_rate_limits := ls\<rparr>) = db_ok db"
  by (simp add: db_ok_def intents_ok_def)

lemma persist_rate_limit_ok:
  assumes "persist_rate_limit db scope target bucket secret until now = Inr db'" and "db_ok db"
  shows "db_ok db'"
proof -
  let ?rows = "sql_update (rebucket target secret) (\<lambda>r. r\<lparr>d_bucket_id := bucket, d_updated_at := now\<rparr>) (ob_rows db)"
  obtain ls where db': "db' = db\<lparr>ob_rate_limits := ls, ob_rows := if scope = ''bucket'' then ?rows else ob_rows db\<rparr>"
    and k: "is_ok (rate_limit_key scope target bucket secret)"
    using assms(1) by (auto simp: persist_rate_limit_def result_simps Let_def split: if_splits)
  have "db_ok (db\<lparr>ob_rows := ?rows\<rparr>)" if "scope = ''bucket''"
  proof (rule db_ok_update [OF assms(2) keeps_rebucket])
    show "opaque_bucket_key bucket" using k that by (auto simp: rate_limit_key_def split: if_splits)
  qed simp_all
  then show ?thesis using assms(2) by (auto simp: db' db_ok_def intents_ok_def)
qed

section \<open>Runs of the queue\<close>

text \<open>
  One committed transaction of the server. Producers outside the module record durability intents,
  change discussion connections and the rows that refer to deliveries, and accept discussion jobs;
  every other step is an operation of the module. A transaction that fails leaves the tables as
  they are and is no step.
\<close>

inductive outbox_step :: "(bytes \<Rightarrow> string) \<Rightarrow> outbox_db \<Rightarrow> outbox_db \<Rightarrow> bool" for sha where
  step_enqueue: "enqueue_many_in_transaction sha db inputs now = Inr (out, db') \<Longrightarrow> outbox_step sha db db'"
| step_finalize: "finalize_durability_success_in_transaction db intent now = Inr (n, db') \<Longrightarrow>
    outbox_step sha db db'"
| step_compensate: "compensate_durability_in_transaction db intent = Inr (n, db') \<Longrightarrow> outbox_step sha db db'"
| step_claim: "claim_next db w t now = Inr (r, db') \<Longrightarrow> outbox_step sha db db'"
| step_accepted: "accepted db i w t v message now = Inr (b, db') \<Longrightarrow> outbox_step sha db db'"
| step_accept_outbox: "accept_outbox_raw db i w t v message now = Inr (b, db') \<Longrightarrow> outbox_step sha db db'"
| step_retry: "retry db i w t v ru now = Inr (b, db') \<Longrightarrow> outbox_step sha db db'"
| step_dead_letter: "dead_letter db i w t v du now = Inr (b, db') \<Longrightarrow> outbox_step sha db db'"
| step_rate_limit: "persist_rate_limit db scope target bucket secret until now = Inr db' \<Longrightarrow>
    outbox_step sha db db'"
| step_intent: "intent \<notin> set (ob_intents db) \<Longrightarrow>
    outbox_step sha db (db\<lparr>ob_intents := ob_intents db @ [intent]\<rparr>)"
| step_connections: "outbox_step sha db (db\<lparr>ob_connections := cs\<rparr>)"
| step_references: "outbox_step sha db (db\<lparr>ob_references := refs\<rparr>)"

text \<open>The tables as migrations 027 and 028 create them.\<close>

definition empty_outbox :: outbox_db where
  "empty_outbox = \<lparr> ob_rows = [], ob_rate_limits = [], ob_intents = [], ob_connections = [],
     ob_references = [] \<rparr>"

definition reachable :: "(bytes \<Rightarrow> string) \<Rightarrow> outbox_db \<Rightarrow> bool" where
  "reachable sha db \<longleftrightarrow> (outbox_step sha)\<^sup>*\<^sup>* empty_outbox db"

text \<open>A step relation with an inductive invariant: what every run keeps.\<close>

locale invariant_system =
  fixes start :: "'s \<Rightarrow> bool" and step :: "'s \<Rightarrow> 's \<Rightarrow> bool" and inv :: "'s \<Rightarrow> bool"
  assumes starts: "start s \<Longrightarrow> inv s"
    and steps: "step s s' \<Longrightarrow> inv s \<Longrightarrow> inv s'"
begin

lemma run_keeps: "step\<^sup>*\<^sup>* s s' \<Longrightarrow> inv s \<Longrightarrow> inv s'"
  by (induction rule: rtranclp_induct) (auto intro: steps)

lemma run_inv: "start s \<Longrightarrow> step\<^sup>*\<^sup>* s s' \<Longrightarrow> inv s'"
  using run_keeps starts by blast

text \<open>A relation between the states before and after, established step by step.\<close>

lemma run_relates:
  assumes "step\<^sup>*\<^sup>* s s'" and "inv s" and "R s s"
    and "\<And>x y. step\<^sup>*\<^sup>* s x \<Longrightarrow> inv x \<Longrightarrow> step x y \<Longrightarrow> R s x \<Longrightarrow> R s y"
  shows "R s s'"
  using assms(1,2,3)
proof (induction rule: rtranclp_induct)
  case base
  then show ?case by simp
next
  case (step y z)
  then have "inv y" using run_keeps by blast
  with step assms(4) show ?case by blast
qed

end

lemma empty_outbox_ok: "db_ok empty_outbox"
  by (simp add: db_ok_def empty_outbox_def rows_ok_def capacity_ok_def intents_ok_def deps_present_def
      leases_first_def outbox_constants)

lemma outbox_step_ok: "outbox_step sha db db' \<Longrightarrow> db_ok db \<Longrightarrow> db_ok db'"
proof (induction rule: outbox_step.induct)
  case (step_enqueue db inputs now out db')
  then show ?case by (auto elim: enqueue_many_Inr)
next
  case (step_intent intent db)
  then show ?case by (auto simp: db_ok_def intents_ok_def)
next
  case (step_connections db cs)
  then show ?case by (simp add: db_ok_def intents_ok_def)
next
  case (step_references db refs)
  then show ?case by (simp add: db_ok_def intents_ok_def)
qed (auto intro: finalize_ok compensate_ok claim_next_ok accepted_ok accept_outbox_raw_ok retry_ok
    dead_letter_ok persist_rate_limit_ok)

interpretation outbox_run: invariant_system "\<lambda>db. db = empty_outbox" "outbox_step sha" db_ok for sha
  by unfold_locales (auto intro: outbox_step_ok empty_outbox_ok)

lemma reachable_db_ok: "reachable sha db \<Longrightarrow> db_ok db"
  unfolding reachable_def by (rule outbox_run.run_inv [OF refl])

end
