(* ===== verification/Outbox_Lifecycle.thy ===== *)
theory Outbox_Lifecycle
  imports Outbox_Invariants
begin

text \<open>
  The life of one delivery. The abstract machine \<open>life\<close> is the contract of
  src/src/persistence/outbox/: a delivery is blocked, then ready, leased up to \<open>MAX_ATTEMPTS\<close>
  times, and ends accepted or dead-lettered. Every committed transaction of the queue moves each
  row along this machine, keeps its identity columns, and leaves finished rows untouched. The
  properties of the queue that span several operations follow.
\<close>

section \<open>The abstract machine\<close>

type_synonym phase = "DeliveryState \<times> int"

inductive life :: "phase \<Rightarrow> phase \<Rightarrow> bool" where
  life_release: "life (Blocked, n) (Ready, n)"
| life_claim: "s = Ready \<or> s = Retry \<Longrightarrow> n < MAX_ATTEMPTS \<Longrightarrow> life (s, n) (Leased, n + 1)"
| life_again: "n < MAX_ATTEMPTS \<Longrightarrow> life (Leased, n) (Retry, n)"
| life_accept: "life (Leased, n) (Accepted, n)"
| life_reject: "life (Leased, n) (DeadLetter, n)"
| life_orphan: "s = Ready \<or> s = Retry \<Longrightarrow> life (s, n) (DeadLetter, n)"

inductive_cases life_from_AcceptedE: "life (Accepted, n) q"
inductive_cases life_from_DeadLetterE: "life (DeadLetter, n) q"

definition phase_of :: "DeliveryRecord \<Rightarrow> phase" where
  "phase_of r = (d_state r, d_attempts r)"

definition terminal :: "DeliveryRecord \<Rightarrow> bool" where
  "terminal r \<longleftrightarrow> d_state r = Accepted \<or> d_state r = DeadLetter"

lemma life_attempts_mono: "life p q \<Longrightarrow> snd p \<le> snd q"
  by (induction rule: life.induct) auto

lemma life_run_attempts_mono: "life\<^sup>*\<^sup>* p q \<Longrightarrow> snd p \<le> snd q"
  by (induction rule: rtranclp_induct) (auto dest: life_attempts_mono)

lemma life_terminal_stuck: "life p q \<Longrightarrow> fst p \<noteq> Accepted \<and> fst p \<noteq> DeadLetter"
  by (induction rule: life.induct) auto

lemma life_irrefl: "life p q \<Longrightarrow> p \<noteq> q"
  by (induction rule: life.induct) auto

text \<open>The phases after version \<open>v\<close> of a lease: a later attempt, or this one no longer leased.\<close>

definition past :: "int \<Rightarrow> phase \<Rightarrow> bool" where
  "past v p \<longleftrightarrow> fst p \<noteq> Blocked \<and> (v < snd p \<or> snd p = v \<and> fst p \<noteq> Leased)"

lemma life_keeps_past: "life p q \<Longrightarrow> past v p \<Longrightarrow> past v q"
  by (induction rule: life.induct) (auto simp: past_def)

lemma life_run_keeps_past: "life\<^sup>*\<^sup>* p q \<Longrightarrow> past v p \<Longrightarrow> past v q"
  by (induction rule: rtranclp_induct) (auto intro: life_keeps_past)

lemma life_leaves_lease: "life (Leased, v) q \<Longrightarrow> past v q"
  by (auto elim: life.cases simp: past_def)

lemma life_run_from_lease:
  assumes "life\<^sup>*\<^sup>* (Leased, v) q"
  shows "q = (Leased, v) \<or> past v q"
  using assms
  by (induction rule: rtranclp_induct) (auto intro: life_keeps_past life_leaves_lease)

section \<open>Rows follow the machine\<close>

text \<open>
  A row keeps its identity, moves along the machine, is permanent once finished, and as long as it
  stays leased at the same attempt it is the lease of the same worker and token.
\<close>

definition lease_cols :: "DeliveryRecord \<Rightarrow> string option \<times> string option \<times> int option \<times> int" where
  "lease_cols r = (d_lease_owner r, d_lease_token r, d_lease_expires_at r, d_lease_version r)"

definition row_run :: "DeliveryRecord \<Rightarrow> DeliveryRecord \<Rightarrow> bool" where
  "row_run r r' \<longleftrightarrow>
     identity_cols r' = identity_cols r \<and> life\<^sup>*\<^sup>* (phase_of r) (phase_of r') \<and>
     (terminal r \<longrightarrow> r' = r) \<and>
     (d_state r = Leased \<and> phase_of r' = phase_of r \<longrightarrow> lease_cols r' = lease_cols r)"

lemma row_run_refl [simp]: "row_run r r"
  by (simp add: row_run_def)

lemma lease_cols_trans:
  assumes "life\<^sup>*\<^sup>* p q" and "life\<^sup>*\<^sup>* q p" and "fst p = Leased"
  shows "q = p"
proof -
  obtain v where p: "p = (Leased, v)" using assms(3) by (cases p) auto
  then show ?thesis
    using life_run_from_lease [of v q] life_run_keeps_past [OF assms(2), of v] assms(1)
    by (auto simp: past_def)
qed

lemma row_run_trans:
  assumes ab: "row_run a b" and bc: "row_run b c"
  shows "row_run a c"
proof -
  have "lease_cols c = lease_cols a" if l: "d_state a = Leased" and p: "phase_of c = phase_of a"
  proof -
    have "phase_of b = phase_of a"
      using lease_cols_trans [of "phase_of a" "phase_of b"] ab bc p l
      by (simp add: row_run_def) (simp add: phase_of_def)
    then show ?thesis using ab bc l p by (auto simp: row_run_def phase_of_def)
  qed
  moreover have "life\<^sup>*\<^sup>* (phase_of a) (phase_of c)" using ab bc by (meson row_run_def rtranclp_trans)
  ultimately show ?thesis using ab bc by (simp add: row_run_def)
qed

lemma row_run_id: "row_run r r' \<Longrightarrow> d_id r' = d_id r"
  by (auto simp: row_run_def dest: identity_colsD)

definition advances :: "(DeliveryRecord \<Rightarrow> bool) \<Rightarrow> (DeliveryRecord \<Rightarrow> DeliveryRecord) \<Rightarrow> bool" where
  "advances p f \<longleftrightarrow> (\<forall>r. p r \<and> row_ok r \<longrightarrow> row_run r (f r))"

lemma row_run_step: "life (phase_of r) (phase_of r') \<Longrightarrow> identity_cols r' = identity_cols r \<Longrightarrow> row_run r r'"
  using life_terminal_stuck [of "phase_of r" "phase_of r'"] life_irrefl [of "phase_of r" "phase_of r'"]
  by (auto simp: row_run_def terminal_def phase_of_def)

lemma advances_recover: "advances (lease_expired now) (recover_row now)"
  unfolding advances_def
  by (intro allI impI row_run_step)
    (auto simp: lease_expired_def recover_row_def Let_def phase_of_def row_ok_def identity_cols_def event_key_def
      intro: life_reject life_again)

lemma advances_fail_dependent: "advances (dependency_failed rows) (fail_dependent now)"
  unfolding advances_def
  by (intro allI impI row_run_step)
    (auto simp: dependency_failed_def fail_dependent_def phase_of_def ready_or_retry_def
      intro!: life_orphan simp: identity_cols_def event_key_def)

lemma advances_lease: "advances (leasable i) (lease_row w t now)"
  unfolding advances_def
  by (intro allI impI row_run_step)
    (auto simp: leasable_def lease_row_def phase_of_def state_defs identity_cols_def event_key_def intro!: life_claim)

lemma advances_transition:
  assumes "t_state u = Accepted \<or> t_state u = DeadLetter"
  shows "advances (transition_guard i w t v u) (transition_row u c)"
  unfolding advances_def using assms
  by (intro allI impI row_run_step)
    (auto simp: transition_guard_def holds_lease_def transition_row_def phase_of_def identity_cols_def event_key_def
      intro: life_accept life_reject)

lemma advances_retry: "advances (holds_lease i w t v) (retry_row u c now)"
  unfolding advances_def
  by (intro allI impI row_run_step)
    (auto simp: holds_lease_def retry_row_def Let_def phase_of_def identity_cols_def event_key_def
      intro: life_reject life_again)

lemma advances_release: "advances (blocked_on i) (release_row now)"
  unfolding advances_def
  by (intro allI impI row_run_step)
    (auto simp: blocked_on_def release_row_def phase_of_def identity_cols_def event_key_def intro: life_release)

lemma advances_rebucket:
  "advances (rebucket target secret) (\<lambda>r. r\<lparr>d_bucket_id := b, d_updated_at := now\<rparr>)"
  by (auto simp: advances_def row_run_def rebucket_def phase_of_def terminal_def)

lemma advances_accept_outbox: "advances (holds_lease i w t v) (accept_outbox_row m now)"
  unfolding advances_def
  by (intro allI impI row_run_step)
    (auto simp: holds_lease_def accept_outbox_row_def phase_of_def identity_cols_def event_key_def
      intro: life_accept)

text \<open>Tables before and after: rows advance, only blocked rows vanish, new rows start fresh.\<close>

definition rows_advance :: "DeliveryRecord list \<Rightarrow> DeliveryRecord list \<Rightarrow> bool" where
  "rows_advance rows rows' \<longleftrightarrow>
     (\<forall>r \<in> set rows. d_state r = Blocked \<or> (\<exists>r' \<in> set rows'. row_run r r')) \<and>
     (\<forall>r' \<in> set rows'. (\<exists>r \<in> set rows. row_run r r') \<or>
        d_id r' \<notin> d_id ` set rows \<and> phase_of r' \<in> {(Blocked, 0), (Ready, 0)})"

lemma rows_advance_refl [simp]: "rows_advance rows rows"
  by (auto simp: rows_advance_def intro: row_run_refl)

lemma rows_advance_all2:
  assumes "list_all2 row_run rows rows'"
  shows "rows_advance rows rows'"
proof -
  have "\<exists>r' \<in> set rows'. row_run r r'" if "r \<in> set rows" for r
    using assms that by (metis in_set_conv_nth list_all2_conv_all_nth)
  moreover have "\<exists>r \<in> set rows. row_run r r'" if "r' \<in> set rows'" for r'
    using assms that by (metis in_set_conv_nth list_all2_conv_all_nth)
  ultimately show ?thesis by (simp add: rows_advance_def)
qed

lemma update_all2:
  assumes "\<forall>r \<in> set rows. row_ok r" and "advances p f"
  shows "list_all2 row_run rows (sql_update p f rows)"
  using assms by (auto simp: list_all2_conv_all_nth nth_sql_update advances_def)

lemma db_update_all2:
  "db_ok db \<Longrightarrow> advances p f \<Longrightarrow> list_all2 row_run (ob_rows db) (sql_update p f (ob_rows db))"
  by (rule update_all2) (auto simp: db_ok_def rows_ok_def)

lemma propagate_advances:
  assumes "db_ok (db\<lparr>ob_rows := rows\<rparr>)"
  shows "list_all2 row_run rows (propagate_terminal_dependencies now rows)"
  using assms
proof (induction now rows rule: propagate_terminal_dependencies.induct)
  case (1 now rows)
  let ?rows' = "sql_update (dependency_failed rows) (fail_dependent now) rows"
  have ok: "\<forall>r \<in> set rows. row_ok r" using "1.prems" by (simp add: db_ok_def rows_ok_def)
  have one: "list_all2 row_run rows ?rows'"
    by (rule update_all2 [OF ok advances_fail_dependent])
  have "db_ok (db\<lparr>ob_rows := ?rows'\<rparr>)"
    using db_ok_update [OF "1.prems" keeps_fail_dependent [of rows now]] by (simp add: fail_dependent_def)
  then show ?case
    using "1.IH" list_all2_trans [OF row_run_trans one]
    by (subst propagate_terminal_dependencies.simps) (auto simp: list_all2_refl)
qed

lemma rows_run_trans:
  "list_all2 row_run a b \<Longrightarrow> list_all2 row_run b c \<Longrightarrow> list_all2 row_run a c"
  by (rule list_all2_trans [OF row_run_trans])

lemma new_rows_fresh:
  assumes "list_all2 (\<lambda>(input, i) r. \<exists>c. r = new_row sha input i now c) fresh created"
    and "r \<in> set created"
  shows "phase_of r \<in> {(Blocked, 0), (Ready, 0)}"
  using assms by (induction rule: list_all2_induct) (auto simp: phase_of_def split: if_splits)

lemma maintained_all2:
  assumes "db_ok db"
  shows "list_all2 row_run (ob_rows db) (ob_rows (maintained db now))"
proof -
  have "list_all2 row_run (ob_rows db) (recover_expired now (ob_rows db))"
    unfolding recover_expired_def by (rule db_update_all2 [OF assms advances_recover])
  moreover have "list_all2 row_run (recover_expired now (ob_rows db)) (ob_rows (maintained db now))"
    using propagate_advances [OF recover_expired_ok [OF assms]] by (simp add: maintained_def)
  ultimately show ?thesis by (rule rows_run_trans)
qed

lemma claimed_all2:
  assumes "claimed db now w t r db'" and "db_ok db"
  shows "list_all2 row_run (ob_rows db) (ob_rows db')"
proof -
  obtain r0 where r0: "r0 \<in> set (ob_rows db)" "claimable db now r0"
    and db': "db' = db\<lparr>ob_rows := sql_update (\<lambda>x. x = r0) (lease_row w t now) (ob_rows db)\<rparr>"
    using assms(1) by (auto simp: claimed_def)
  have "leasable (d_id r0) r0" using r0(2) by (simp add: claimable_def leasable_def)
  then have "advances (\<lambda>x. x = r0) (lease_row w t now)"
    using advances_lease [of "d_id r0" w t now] by (auto simp: advances_def)
  then show ?thesis using db_update_all2 [OF assms(2)] by (simp add: db')
qed

lemma claim_next_all2:
  assumes "claim_next db w t now = Inr (out, db')" and "db_ok db"
  shows "list_all2 row_run (ob_rows db) (ob_rows db')"
proof (cases "has_claimable_work db now")
  case False
  with assms show ?thesis by (auto simp: claim_next_def list_all2_refl split: if_splits)
next
  case True
  then have "claim_transaction db w t now = Inr (out, db')"
    using assms(1) by (auto simp: claim_next_def split: if_splits)
  then have "db' = maintained db now \<or> (\<exists>r. claimed (maintained db now) now w t r db')"
    using claim_transaction_cases [OF assms(2), of w t now] by auto
  moreover have "list_all2 row_run (ob_rows db) (ob_rows (maintained db now))"
    by (rule maintained_all2 [OF assms(2)])
  ultimately show ?thesis
    using claimed_all2 [OF _ maintained_ok [OF assms(2)]] rows_run_trans by metis
qed

lemma transition_all2:
  assumes "transition db i w t v u = Inr (b, db')" and "db_ok db"
  shows "list_all2 row_run (ob_rows db) (ob_rows db')"
proof -
  obtain c where c: "transition_classification u = Inr c"
    and db': "db' = db\<lparr>ob_rows := sql_update (transition_guard i w t v u) (transition_row u c) (ob_rows db)\<rparr>"
    using assms(1) by (auto simp: transition_def result_simps Let_def)
  from c have "t_state u = Accepted \<or> t_state u = DeadLetter"
    by (auto simp: transition_classification_def split: if_splits)
  then show ?thesis using db_update_all2 [OF assms(2) advances_transition] by (simp add: db')
qed

lemma outbox_step_advances:
  assumes "outbox_step sha db db'" and "db_ok db"
  shows "rows_advance (ob_rows db) (ob_rows db')"
  using assms
proof (induction rule: outbox_step.induct)
  case (step_enqueue db inputs now out db')
  then obtain fresh created where db': "db' = db\<lparr>ob_rows := ob_rows db @ created\<rparr>" "db_ok db'"
    and la: "list_all2 (\<lambda>(input, i) r. \<exists>c. r = new_row sha input i now c) fresh created"
    using enqueue_many_Inr [OF step_enqueue] by blast
  have "d_id r \<notin> d_id ` set (ob_rows db)" if "r \<in> set created" for r
    using that db' by (auto simp: db_ok_def rows_ok_def)
  moreover have "phase_of r \<in> {(Blocked, 0), (Ready, 0)}" if "r \<in> set created" for r
    by (rule new_rows_fresh [OF la that])
  ultimately show ?case using db'(1) by (auto simp: rows_advance_def intro: row_run_refl)
next
  case (step_finalize db intent now n db')
  then have "ob_rows db' = sql_update (blocked_on intent) (release_row now) (ob_rows db)"
    by (auto simp: finalize_durability_success_in_transaction_def Let_def result_simps delete_intent_def
        split: if_splits)
  then show ?case using rows_advance_all2 [OF db_update_all2 [OF step_finalize(2) advances_release]] by simp
next
  case (step_compensate db intent n db')
  then have "ob_rows db' = sql_delete (blocked_on intent) (ob_rows db)"
    by (auto simp: compensate_durability_in_transaction_def Let_def result_simps delete_intent_def
        split: if_splits)
  then show ?case by (auto simp: rows_advance_def sql_delete_def blocked_on_def intro: row_run_refl)
next
  case (step_claim db w t now r db')
  then show ?case by (auto intro: rows_advance_all2 claim_next_all2)
next
  case (step_accepted db i w t v message now b db')
  then show ?case by (auto simp: accepted_def intro: rows_advance_all2 transition_all2)
next
  case (step_accept_outbox db i w t v message now b db')
  then have "ob_rows db' = sql_update (holds_lease i w t v) (accept_outbox_row message now) (ob_rows db)"
    by (auto simp: accept_outbox_raw_def Let_def)
  then show ?case
    using rows_advance_all2 [OF db_update_all2 [OF step_accept_outbox(2) advances_accept_outbox]] by simp
next
  case (step_retry db i w t v ru now b db')
  then obtain c where "ob_rows db' = sql_update (holds_lease i w t v) (retry_row ru c now) (ob_rows db)"
    by (auto simp: retry_def result_simps Let_def)
  then show ?case using rows_advance_all2 [OF db_update_all2 [OF step_retry(2) advances_retry]] by simp
next
  case (step_dead_letter db i w t v du now b db')
  then show ?case by (auto simp: dead_letter_def intro: rows_advance_all2 transition_all2 split: if_splits)
next
  case (step_rate_limit db scope target bucket secret until now db')
  have "rows_advance (ob_rows db) (sql_update (rebucket target secret)
      (\<lambda>r. r\<lparr>d_bucket_id := bucket, d_updated_at := now\<rparr>) (ob_rows db))"
    by (rule rows_advance_all2 [OF db_update_all2 [OF step_rate_limit(2) advances_rebucket]])
  with step_rate_limit(1) show ?case
    by (auto simp: persist_rate_limit_def result_simps Let_def split: if_splits)
qed simp_all

section \<open>Spent leases\<close>

text \<open>
  Version \<open>v\<close> of the lease on row \<open>i\<close> is spent: the row went on to a later attempt, or is no longer
  leased at this one. A spent version is never leased again.
\<close>

definition spent :: "string \<Rightarrow> int \<Rightarrow> outbox_db \<Rightarrow> bool" where
  "spent i v db \<longleftrightarrow>
     (\<exists>r \<in> set (ob_rows db). d_id r = i \<and> d_state r \<noteq> Blocked \<and>
        (v < d_attempts r \<or> d_attempts r = v \<and> d_state r \<noteq> Leased))"

lemma spent_past: "spent i v db \<longleftrightarrow> (\<exists>r \<in> set (ob_rows db). d_id r = i \<and> past v (phase_of r))"
  by (auto simp: spent_def past_def phase_of_def)

lemma spent_step:
  assumes "outbox_step sha db db'" and "db_ok db" and "spent i v db"
  shows "spent i v db'"
proof -
  obtain r where r: "r \<in> set (ob_rows db)" "d_id r = i" "past v (phase_of r)"
    using assms(3) by (auto simp: spent_past)
  then have "d_state r \<noteq> Blocked" by (auto simp: past_def phase_of_def)
  then obtain r' where r': "r' \<in> set (ob_rows db')" "row_run r r'"
    using outbox_step_advances [OF assms(1,2)] r(1) by (auto simp: rows_advance_def)
  then have "past v (phase_of r')" using r(3) by (auto simp: row_run_def intro: life_run_keeps_past)
  with r' r(2) row_run_id show ?thesis by (auto simp: spent_past)
qed

lemma spent_no_lease:
  assumes "spent i v db" and "db_ok db"
  shows "\<not> list_ex (holds_lease i w t v) (ob_rows db)"
proof
  assume "list_ex (holds_lease i w t v) (ob_rows db)"
  then obtain q where q: "q \<in> set (ob_rows db)" "holds_lease i w t v q" by (auto simp: list_ex_iff)
  obtain r where r: "r \<in> set (ob_rows db)" "d_id r = i" "past v (phase_of r)"
    using assms(1) by (auto simp: spent_past)
  have "q = r"
    using q r assms(2) distinct_ids_eq by (metis db_ok_def rows_okD(2) holds_lease_def)
  moreover have "d_lease_version r = d_attempts r"
    using r(1) assms(2) by (auto simp: db_ok_def rows_ok_def row_ok_def)
  ultimately show False using q(2) r(3) by (auto simp: holds_lease_def past_def phase_of_def)
qed

lemma lease_unique:
  assumes "db_ok db"
  shows "count_rows (holds_lease i w t v) (ob_rows db) \<le> 1"
proof -
  have "distinct (map d_id rows) \<Longrightarrow> count_rows (holds_lease i w t v) rows \<le> 1" for rows
  proof (induction rows)
    case (Cons r rows)
    have "count_rows (holds_lease i w t v) rows = 0" if "holds_lease i w t v r"
      using that Cons.prems by (auto simp: count_rows_eq_0_iff holds_lease_def image_iff)
    then show ?case using Cons by auto
  qed simp
  then show ?thesis using assms by (simp add: db_ok_def rows_ok_def)
qed

text \<open>
  The contract of an operation that settles a lease: it is one committed transaction, it reports
  whether the caller still held the lease, it does nothing if not, and the version it settles is
  spent.
\<close>

locale lease_operation =
  fixes sha :: "bytes \<Rightarrow> string"
    and op :: "outbox_db \<Rightarrow> string \<Rightarrow> string \<Rightarrow> string \<Rightarrow> int \<Rightarrow> (bool \<times> outbox_db) result"
  assumes commits: "op db i w t v = Inr (b, db') \<Longrightarrow> outbox_step sha db db'"
    and fenced: "\<not> list_ex (holds_lease i w t v) (ob_rows db) \<Longrightarrow> op db i w t v = Inr (b, db') \<Longrightarrow> \<not> b \<and> db' = db"
    and settles: "db_ok db \<Longrightarrow> op db i w t v = Inr (True, db') \<Longrightarrow> spent i v db'"
    and errors_local: "op db i w t v = Inl e \<Longrightarrow> op db' i' w' t' v' = Inl e"
begin

lemma spent_fenced:
  assumes "spent i v db" and "db_ok db" and "op db i w t v = Inr (b, db')"
  shows "\<not> b \<and> db' = db"
  by (rule fenced [OF spent_no_lease [OF assms(1,2)] assms(3)])

lemma returns_false:
  assumes "spent i v db" and "db_ok db" and "op db0 i0 w0 t0 v0 = Inr x"
  shows "op db i w t v = Inr (False, db)"
proof (cases "op db i w t v")
  case (Inl e)
  then show ?thesis using errors_local [OF Inl, of db0 i0 w0 t0 v0] assms(3) by simp
next
  case (Inr y)
  obtain b db' where y: "y = (b, db')" by (cases y)
  with Inr show ?thesis using spent_fenced [OF assms(1,2)] by auto
qed

end

lemma settled_row:
  assumes "count_rows p (ob_rows db) = 1" and "\<And>r. p r \<Longrightarrow> holds_lease i w t v r" and "db_ok db"
    and "\<And>r. identity_cols (f r) = identity_cols r"
    and "\<And>r. d_attempts (f r) = d_attempts r \<and> d_state (f r) \<noteq> Leased \<and> d_state (f r) \<noteq> Blocked"
  shows "spent i v (db\<lparr>ob_rows := sql_update p f (ob_rows db)\<rparr>)"
proof -
  obtain r where r: "r \<in> set (ob_rows db)" "p r"
    using assms(1) count_rows_eq_0_iff [of p "ob_rows db"] by auto
  then have "f r \<in> set (sql_update p f (ob_rows db))" by (auto simp: set_sql_update)
  moreover have "holds_lease i w t v r" using assms(2) r(2) .
  moreover have "d_lease_version r = d_attempts r"
    using r(1) assms(3) by (auto simp: db_ok_def rows_ok_def row_ok_def)
  moreover have "d_id (f r) = d_id r" using assms(4) identity_colsD(1) by blast
  ultimately show ?thesis using assms(5) by (auto simp: spent_def holds_lease_def)
qed

lemma transition_settles:
  assumes "db_ok db" and "transition db i w t v u = Inr (True, db')"
  shows "spent i v db'"
proof -
  obtain c where c: "transition_classification u = Inr c"
    and n: "count_rows (transition_guard i w t v u) (ob_rows db) = 1"
    and db': "db' = db\<lparr>ob_rows := sql_update (transition_guard i w t v u) (transition_row u c) (ob_rows db)\<rparr>"
    using assms(2) by (auto simp: transition_def result_simps Let_def)
  have "t_state u \<noteq> Leased \<and> t_state u \<noteq> Blocked"
    using c by (auto simp: transition_classification_def split: if_splits)
  then show ?thesis
    unfolding db' by (intro settled_row [OF n, of i w t v] assms(1))
      (simp_all add: transition_guard_def, simp add: transition_row_def)
qed

lemma transition_fenced:
  assumes "\<not> list_ex (holds_lease i w t v) (ob_rows db)" and "transition db i w t v u = Inr (b, db')"
  shows "\<not> b \<and> db' = db"
proof -
  have "\<forall>r \<in> set (ob_rows db). \<not> transition_guard i w t v u r"
    using assms(1) by (auto simp: list_ex_iff transition_guard_def)
  then show ?thesis
    using assms(2)
    by (auto simp: transition_def result_simps Let_def sql_update_noop count_rows_eq_0_iff [THEN iffD2])
qed

interpretation accepted_lease: lease_operation sha "\<lambda>db i w t v. accepted db i w t v message now"
  for sha message now
proof unfold_locales
  fix db i w t v b db'
  assume "accepted db i w t v message now = Inr (b, db')"
  then show "outbox_step sha db db'" by (rule step_accepted)
next
  fix i w t v db b db'
  assume "\<not> list_ex (holds_lease i w t v) (ob_rows db)" "accepted db i w t v message now = Inr (b, db')"
  then show "\<not> b \<and> db' = db" unfolding accepted_def by (rule transition_fenced)
next
  fix db i w t v db'
  assume "db_ok db" "accepted db i w t v message now = Inr (True, db')"
  then show "spent i v db'" unfolding accepted_def by (rule transition_settles)
qed (auto simp: accepted_def transition_def result_simps Let_def)

lemma dead_letter_transition:
  "dead_letter db i w t v u now = Inr x \<Longrightarrow> \<exists>u'. transition db i w t v u' = Inr x"
  unfolding dead_letter_def by (metis Inl_Inr_False)

interpretation dead_letter_lease: lease_operation sha "\<lambda>db i w t v. dead_letter db i w t v u now"
  for sha u now
proof unfold_locales
  fix db i w t v b db'
  assume "dead_letter db i w t v u now = Inr (b, db')"
  then show "outbox_step sha db db'" by (rule step_dead_letter)
next
  fix i w t v db b db'
  assume "\<not> list_ex (holds_lease i w t v) (ob_rows db)" "dead_letter db i w t v u now = Inr (b, db')"
  then show "\<not> b \<and> db' = db" using dead_letter_transition transition_fenced by metis
next
  fix db i w t v db'
  assume "db_ok db" "dead_letter db i w t v u now = Inr (True, db')"
  then show "spent i v db'" using dead_letter_transition transition_settles by metis
qed (auto simp: dead_letter_def transition_def result_simps Let_def split: if_splits)

interpretation accept_outbox_lease: lease_operation sha "\<lambda>db i w t v. accept_outbox_raw db i w t v message now"
  for sha message now
proof unfold_locales
  fix db i w t v b db'
  assume "accept_outbox_raw db i w t v message now = Inr (b, db')"
  then show "outbox_step sha db db'" by (rule step_accept_outbox)
next
  fix i w t v db b db'
  assume n: "\<not> list_ex (holds_lease i w t v) (ob_rows db)"
    and r: "accept_outbox_raw db i w t v message now = Inr (b, db')"
  have "\<forall>r \<in> set (ob_rows db). \<not> holds_lease i w t v r" using n by (simp add: list_ex_iff)
  then show "\<not> b \<and> db' = db"
    using r by (auto simp: accept_outbox_raw_def Let_def sql_update_noop count_rows_eq_0_iff [THEN iffD2])
next
  fix db i w t v db'
  assume ok: "db_ok db" and r: "accept_outbox_raw db i w t v message now = Inr (True, db')"
  then have n: "count_rows (holds_lease i w t v) (ob_rows db) = 1"
    and db': "db' = db\<lparr>ob_rows := sql_update (holds_lease i w t v) (accept_outbox_row message now) (ob_rows db)\<rparr>"
    by (auto simp: accept_outbox_raw_def Let_def)
  show "spent i v db'"
    unfolding db' by (rule settled_row [OF n _ ok]) (auto simp: accept_outbox_row_def identity_cols_def event_key_def)
qed (auto simp: accept_outbox_raw_def Let_def)

interpretation retry_lease: lease_operation sha "\<lambda>db i w t v. retry db i w t v u now"
  for sha u now
proof unfold_locales
  fix db i w t v b db'
  assume "retry db i w t v u now = Inr (b, db')"
  then show "outbox_step sha db db'" by (rule step_retry)
next
  fix i w t v db b db'
  assume n: "\<not> list_ex (holds_lease i w t v) (ob_rows db)" and r: "retry db i w t v u now = Inr (b, db')"
  have "\<forall>r \<in> set (ob_rows db). \<not> holds_lease i w t v r" using n by (simp add: list_ex_iff)
  then show "\<not> b \<and> db' = db"
    using r by (auto simp: retry_def result_simps Let_def sql_update_noop count_rows_eq_0_iff [THEN iffD2])
next
  fix db i w t v db'
  assume ok: "db_ok db" and r: "retry db i w t v u now = Inr (True, db')"
  then obtain c where n: "count_rows (holds_lease i w t v) (ob_rows db) = 1"
    and db': "db' = db\<lparr>ob_rows := sql_update (holds_lease i w t v) (retry_row u c now) (ob_rows db)\<rparr>"
    by (auto simp: retry_def result_simps Let_def)
  show "spent i v db'"
    unfolding db' by (rule settled_row [OF n _ ok]) (auto simp: retry_row_def Let_def identity_cols_def event_key_def)
qed (auto simp: retry_def result_simps Let_def)

lemma spent_run:
  assumes "(outbox_step sha)\<^sup>*\<^sup>* db db'" and "db_ok db" and "spent i v db"
  shows "db_ok db' \<and> spent i v db'"
  using assms by (induction rule: rtranclp_induct) (auto intro: outbox_step_ok spent_step)

text \<open>A lease handed out earlier is either still held by the same worker and token, or spent.\<close>

lemma held_or_spent_step:
  assumes "outbox_step sha db db'" and "db_ok db" and "list_ex (holds_lease i w t v) (ob_rows db)"
  shows "list_ex (holds_lease i w t v) (ob_rows db') \<or> spent i v db'"
proof -
  obtain r where r: "r \<in> set (ob_rows db)" "holds_lease i w t v r"
    using assms(3) by (auto simp: list_ex_iff)
  then obtain r' where r': "r' \<in> set (ob_rows db')" "row_run r r'"
    using outbox_step_advances [OF assms(1,2)] by (fastforce simp: rows_advance_def holds_lease_def)
  have "d_lease_version r = d_attempts r"
    using r(1) assms(2) by (auto simp: db_ok_def rows_ok_def row_ok_def)
  then have ph: "phase_of r = (Leased, v)" using r(2) by (simp add: phase_of_def holds_lease_def)
  then have "phase_of r' = phase_of r \<or> past v (phase_of r')"
    using r'(2) life_run_from_lease [of v "phase_of r'"] by (simp add: row_run_def)
  then show ?thesis
  proof
    assume p: "phase_of r' = phase_of r"
    then have "lease_cols r' = lease_cols r" using r'(2) ph by (simp add: row_run_def phase_of_def)
    then have "holds_lease i w t v r'"
      using r(2) p row_run_id [OF r'(2)] by (simp add: holds_lease_def lease_cols_def phase_of_def)
    then show ?thesis using r'(1) by (auto simp: list_ex_iff)
  next
    assume "past v (phase_of r')"
    then show ?thesis using r' r(2) row_run_id [OF r'(2)] by (auto simp: spent_past holds_lease_def)
  qed
qed

lemma held_or_spent_run:
  assumes "(outbox_step sha)\<^sup>*\<^sup>* db db'" and "db_ok db"
    and "list_ex (holds_lease i w t v) (ob_rows db) \<or> spent i v db"
  shows "db_ok db' \<and> (list_ex (holds_lease i w t v) (ob_rows db') \<or> spent i v db')"
  using assms
proof (induction rule: rtranclp_induct)
  case (step y z)
  then show ?case using held_or_spent_step [OF step(2)] spent_step [OF step(2)] outbox_step_ok by blast
qed simp

section \<open>A sample run\<close>

definition demo_sha :: "bytes \<Rightarrow> string" where
  "demo_sha b = replicate 64 (CHR ''0'')"

definition demo_delivery :: "string \<Rightarrow> EnqueueDelivery" where
  "demo_delivery event =
     \<lparr> e_event_id = event, e_tenant = ''acme'', e_event_type = ''published'', e_target_key = ''hook1'',
       e_secret_ref = ''webhook:hook1'', e_payload = ''{}'', e_payload_sha256 = None,
       e_durability_intent_id = None, e_delivery_kind = ''event'', e_ordering_key = ''hook1'',
       e_depends_on_outbox_id = None \<rparr>"

definition demo_queued :: outbox_db where
  "demo_queued = empty_outbox\<lparr>ob_rows :=
     [new_row demo_sha (demo_delivery ''e1'') ''o1'' 1000 1000,
      new_row demo_sha (demo_delivery ''e2'') ''o2'' 1000 1001]\<rparr>"

definition demo_leased_row :: DeliveryRecord where
  "demo_leased_row = lease_row ''w1'' ''t1'' 2000 (new_row demo_sha (demo_delivery ''e1'') ''o1'' 1000 1000)"

definition demo_leased :: outbox_db where
  "demo_leased = demo_queued\<lparr>ob_rows :=
     [demo_leased_row, new_row demo_sha (demo_delivery ''e2'') ''o2'' 1000 1001]\<rparr>"

definition demo_accepted :: outbox_db where
  "demo_accepted = snd (projr (accepted demo_leased ''o1'' ''w1'' ''t1'' 1 ''m1'' 3000))"

lemmas demo_defs = demo_queued_def demo_leased_def demo_leased_row_def demo_accepted_def

lemma demo_enqueue:
  "enqueue_many_in_transaction demo_sha empty_outbox [(demo_delivery ''e1'', ''o1''), (demo_delivery ''e2'', ''o2'')] 1000
     = Inr (ob_rows demo_queued, demo_queued)"
  by code_simp

lemma demo_claim: "claim_next demo_queued ''w1'' ''t1'' 2000 = Inr (Some demo_leased_row, demo_leased)"
  by code_simp

lemma demo_accept: "accepted demo_leased ''o1'' ''w1'' ''t1'' 1 ''m1'' 3000 = Inr (True, demo_accepted)"
  by code_simp

lemma demo_reachable: "reachable demo_sha demo_queued" "reachable demo_sha demo_leased"
    "reachable demo_sha demo_accepted"
proof -
  have 1: "(outbox_step demo_sha)\<^sup>*\<^sup>* empty_outbox demo_queued"
    using step_enqueue [OF demo_enqueue] by blast
  moreover have 2: "outbox_step demo_sha demo_queued demo_leased" by (rule step_claim [OF demo_claim])
  moreover have 3: "outbox_step demo_sha demo_leased demo_accepted" by (rule step_accepted [OF demo_accept])
  ultimately show "reachable demo_sha demo_queued" "reachable demo_sha demo_leased"
    "reachable demo_sha demo_accepted"
    by (auto simp: reachable_def intro: rtranclp.rtrancl_into_rtrancl)
qed

section \<open>Properties of the queue\<close>

text \<open>
  C17. In every state the server can reach the tables are well formed: lease columns are set exactly
  on leased rows, the lease version counts the attempts, which never exceed \<open>MAX_ATTEMPTS\<close>, ids
  and event keys are unique, dependencies exist, blocked rows name a live durability intent, and
  the global and per-tenant queue capacities hold.
\<close>

theorem outbox_reachable_ok:
  assumes "reachable sha db"
  shows "(\<forall>r \<in> set (ob_rows db). row_ok r) \<and> distinct (map d_id (ob_rows db)) \<and>
    distinct (map event_key (ob_rows db)) \<and> deps_present (ob_rows db) \<and> intents_ok db \<and>
    count_rows active (ob_rows db) \<le> MAX_QUEUE_GLOBAL \<and>
    (\<forall>t. count_rows (\<lambda>r. d_tenant r = t \<and> active r) (ob_rows db) \<le> MAX_QUEUE_TENANT)"
  using reachable_db_ok [OF assms] by (simp add: db_ok_def rows_ok_def capacity_ok_def)

theorem outbox_reachable_ok_witness:
  "reachable demo_sha demo_leased \<and> distinct (map d_id (ob_rows demo_leased)) \<and>
   count_rows active (ob_rows demo_leased) \<le> MAX_QUEUE_GLOBAL"
  using outbox_reachable_ok [OF demo_reachable(2)] demo_reachable(2) by blast

text \<open>
  C3. First in, first out: at most one delivery per ordering key is leased at any time, and it is
  older than every other unfinished delivery of that key.
\<close>

theorem lease_exclusion:
  assumes "reachable sha db" and "r \<in> set (ob_rows db)" and "d_state r = Leased"
    and "q \<in> set (ob_rows db)" and "active q" and "d_ordering_key q = d_ordering_key r" and "q \<noteq> r"
  shows "d_state q \<noteq> Leased \<and> d_created_at r < d_created_at q"
proof -
  have ok: "rows_ok (ob_rows db)" using reachable_db_ok [OF assms(1)] by (simp add: db_ok_def)
  have strict: "d_created_at r < d_created_at q \<or> d_created_at q < d_created_at r"
    using rows_okD(5) [OF ok] assms(2,4,6,7)
    by (metis fifo_before_def in_set_conv_nth nat_neq_iff sorted_wrt_nth_less)
  have "d_created_at r \<le> d_created_at q"
    using rows_okD(6) [OF ok] assms by (auto simp: leases_first_def)
  moreover have "d_created_at q \<le> d_created_at r" if "d_state q = Leased"
    using rows_okD(6) [OF ok] assms that by (auto simp: leases_first_def state_defs)
  ultimately show ?thesis using strict by force
qed

theorem lease_exclusion_witness:
  "d_created_at demo_leased_row < d_created_at (new_row demo_sha (demo_delivery ''e2'') ''o2'' 1000 1001)"
  using lease_exclusion [OF demo_reachable(2), of demo_leased_row "new_row demo_sha (demo_delivery ''e2'') ''o2'' 1000 1001"]
  by (simp add: demo_defs lease_row_def new_row_def demo_delivery_def state_defs)

lemma claim_next_cases:
  assumes "reachable sha db" and "trim w \<noteq> []" and "trim t \<noteq> []"
  shows "(\<exists>db'. claim_next db w t now = Inr (None, db') \<and> \<not> list_ex (claimable db' now) (ob_rows db')) \<or>
    (\<exists>r0 \<in> set (ob_rows (maintained db now)). claimable (maintained db now) now r0 \<and>
       claim_next db w t now = Inr (Some (lease_row w t now r0),
         (maintained db now)\<lparr>ob_rows := sql_update (\<lambda>x. x = r0) (lease_row w t now) (ob_rows (maintained db now))\<rparr>))"
proof (cases "has_claimable_work db now")
  case False
  then have "\<not> list_ex (claimable db now) (ob_rows db)" by (simp add: has_claimable_work_def)
  then show ?thesis using False assms by (auto simp: claim_next_def)
next
  case True
  then have "claim_next db w t now = claim_transaction db w t now"
    using assms by (simp add: claim_next_def)
  then show ?thesis
    using claim_transaction_cases [OF reachable_db_ok [OF assms(1)], of w t now]
    unfolding claimed_def by (metis (no_types, lifting))
qed

text \<open>
  C21. A claim by a worker with a name and a lease token that are not blank always returns. It hands out a row only when it was claimable (ready or due for
  retry, below the attempt limit, not rate limited, its predecessor accepted, nothing active ahead
  of it on its ordering key), leases it to the caller for \<open>LEASE_MILLIS\<close> with a fresh version, and
  changes no other row of the maintained table; it returns nothing only if no row is claimable.
\<close>

theorem claim_next_contract:
  assumes "reachable sha db" and "trim w \<noteq> []" and "trim t \<noteq> []"
  shows "(\<exists>db'. claim_next db w t now = Inr (None, db') \<and> \<not> list_ex (claimable db' now) (ob_rows db')) \<or>
    (\<exists>r0 \<in> set (ob_rows (maintained db now)). claimable (maintained db now) now r0 \<and>
       claim_next db w t now = Inr (Some (lease_row w t now r0),
         (maintained db now)\<lparr>ob_rows := sql_update (\<lambda>x. x = r0) (lease_row w t now) (ob_rows (maintained db now))\<rparr>))"
  using assms by (rule claim_next_cases)

theorem claim_next_contract_witness:
  "trim ''w1'' \<noteq> [] \<and> (\<exists>out. claim_next demo_queued ''w1'' ''t1'' 2000 = Inr out)"
proof -
  have "trim ''w1'' \<noteq> []" "trim ''t1'' \<noteq> []" by code_simp+
  then show ?thesis using claim_next_contract [OF demo_reachable(1), of "''w1''" "''t1''" 2000] by blast
qed

lemma propagate_changes:
  "list_all2 (\<lambda>r r'. r' = r \<or> d_state r' = DeadLetter) rows (propagate_terminal_dependencies now rows)"
proof (induction now rows rule: propagate_terminal_dependencies.induct)
  case (1 now rows)
  let ?R = "\<lambda>r r'. r' = r \<or> d_state r' = DeadLetter"
  let ?rows' = "sql_update (dependency_failed rows) (fail_dependent now) rows"
  have one: "list_all2 ?R rows ?rows'"
    by (auto simp: list_all2_conv_all_nth nth_sql_update fail_dependent_def)
  show ?case
  proof (cases "list_ex (dependency_failed rows) rows")
    case True
    then have "list_all2 ?R ?rows' (propagate_terminal_dependencies now rows)"
      using "1.IH" by (simp add: propagate_terminal_dependencies.simps [of now rows])
    then show ?thesis using list_all2_trans [of ?R ?R ?R rows, OF _ one] by auto
  next
    case False
    then show ?thesis by (simp add: propagate_noop list_all2_refl)
  qed
qed

lemma maintained_idle:
  assumes "ob_rows (maintained db now) = ob_rows db"
  shows "\<not> list_ex (lease_expired now) (ob_rows db) \<and> \<not> list_ex (dependency_failed (ob_rows db)) (ob_rows db)"
proof -
  let ?rec = "recover_expired now (ob_rows db)"
  have eq: "propagate_terminal_dependencies now ?rec = ob_rows db" using assms by (simp add: maintained_def)
  have "\<not> lease_expired now (ob_rows db ! k)" if k: "k < length (ob_rows db)" for k
  proof
    assume ex: "lease_expired now (ob_rows db ! k)"
    have "ob_rows db ! k = ?rec ! k \<or> d_state (ob_rows db ! k) = DeadLetter"
      using propagate_changes [of ?rec now] k unfolding eq list_all2_conv_all_nth
      by (simp add: recover_expired_def)
    moreover have "?rec ! k = recover_row now (ob_rows db ! k)"
      using ex k by (simp add: recover_expired_def nth_sql_update)
    moreover have "d_state (recover_row now (ob_rows db ! k)) \<noteq> Leased"
      by (simp add: recover_row_def Let_def)
    ultimately show False using ex by (auto simp: lease_expired_def)
  qed
  then have ne: "\<not> list_ex (lease_expired now) (ob_rows db)" by (auto simp: list_ex_iff in_set_conv_nth)
  then have "?rec = ob_rows db" by (rule recover_noop)
  then show ?thesis using ne propagate_fixpoint [of now ?rec] eq by simp
qed

text \<open>
  C31. The lock-free poll is exact: it reports no work exactly when the immediate transaction would
  claim nothing and change nothing, so skipping the transaction is unobservable.
\<close>

theorem poll_exact:
  assumes "reachable sha db"
  shows "claim_transaction db w t now = Inr (None, db) \<longleftrightarrow> \<not> has_claimable_work db now"
proof
  assume c: "claim_transaction db w t now = Inr (None, db)"
  then have m: "maintained db now = db"
    and "\<not> list_ex (claimable (maintained db now) now) (ob_rows (maintained db now))"
    using claim_transaction_cases [OF reachable_db_ok [OF assms], of w t now] by auto
  then show "\<not> has_claimable_work db now"
    using maintained_idle [of db now] by (simp add: has_claimable_work_def)
qed (rule no_work_claims_nothing)

theorem poll_exact_witness:
  "reachable demo_sha demo_leased \<and> claim_transaction demo_leased ''w2'' ''t2'' 2500 = Inr (None, demo_leased)"
proof -
  have "\<not> has_claimable_work demo_leased 2500" by code_simp
  then show ?thesis using poll_exact [OF demo_reachable(2)] demo_reachable(2) by blast
qed

text \<open>
  C16. A lease is settled at most once. After \<open>accepted\<close>, \<open>accept_outbox_raw\<close>, \<open>retry\<close> or
  \<open>dead_letter\<close> succeeded with a lease, every later use of the same row id and version, by any worker with any token, in any
  later state, reports failure and changes nothing.
\<close>

theorem lease_settled_once:
  assumes "reachable sha db"
    and "accepted db i w t v m now = Inr (True, db1) \<or> retry db i w t v ru now = Inr (True, db1) \<or>
         dead_letter db i w t v du now = Inr (True, db1) \<or>
         accept_outbox_raw db i w t v m now = Inr (True, db1)"
    and "(outbox_step sha)\<^sup>*\<^sup>* db1 db2"
  shows "accepted db2 i w' t' v m' now' = Inr (False, db2) \<and>
    accept_outbox_raw db2 i w' t' v m' now' = Inr (False, db2) \<and>
    retry db2 i w' t' v ru' now' \<in> {Inr (False, db2), Inl (Validation ''invalid outbox result classification'')} \<and>
    (\<forall>b db3. dead_letter db2 i w' t' v du' now' = Inr (b, db3) \<longrightarrow> \<not> b \<and> db3 = db2)"
proof -
  have ok: "db_ok db" by (rule reachable_db_ok [OF assms(1)])
  from assms(2) have "spent i v db1 \<and> db_ok db1"
  proof (elim disjE)
    assume "accepted db i w t v m now = Inr (True, db1)"
    then show ?thesis using accepted_lease.settles [OF ok] accepted_ok [OF _ ok] by simp
  next
    assume "retry db i w t v ru now = Inr (True, db1)"
    then show ?thesis using retry_lease.settles [OF ok] retry_ok [OF _ ok] by simp
  next
    assume "dead_letter db i w t v du now = Inr (True, db1)"
    then show ?thesis using dead_letter_lease.settles [OF ok] dead_letter_ok [OF _ ok] by simp
  next
    assume "accept_outbox_raw db i w t v m now = Inr (True, db1)"
    then show ?thesis using accept_outbox_lease.settles [OF ok] accept_outbox_raw_ok [OF _ ok] by simp
  qed
  then have s: "spent i v db2" "db_ok db2" using spent_run [OF assms(3)] by auto
  obtain b db3 where a: "accepted db2 i w' t' v m' now' = Inr (b, db3)"
    by (simp add: accepted_def transition_def transition_classification_def Let_def)
  obtain c db4 where d: "accept_outbox_raw db2 i w' t' v m' now' = Inr (c, db4)"
    by (simp add: accept_outbox_raw_def Let_def)
  from a have "accepted db2 i w' t' v m' now' = Inr (False, db2)"
    using accepted_lease.spent_fenced [OF s a] by simp
  moreover from d have "accept_outbox_raw db2 i w' t' v m' now' = Inr (False, db2)"
    using accept_outbox_lease.spent_fenced [OF s d] by simp
  moreover have "retry db2 i w' t' v ru' now' = Inr (False, db2)" if "retry db2 i w' t' v ru' now' = Inr y" for y
    using retry_lease.spent_fenced [OF s, of w' t' ru' now' "fst y" "snd y"] that by (cases y) simp
  then have "retry db2 i w' t' v ru' now' \<in> {Inr (False, db2), Inl (Validation ''invalid outbox result classification'')}"
    by (cases "safe_retry_classification (rt_classification ru')")
      (auto simp: retry_def Let_def safe_retry_classification_def split: if_splits)
  ultimately show ?thesis using dead_letter_lease.spent_fenced [OF s] by blast
qed

theorem lease_settled_once_witness:
  "accepted demo_accepted ''o1'' ''w1'' ''t1'' 1 ''m1'' 3000 = Inr (False, demo_accepted)"
  using lease_settled_once [OF demo_reachable(2) disjI1 [OF demo_accept] rtranclp.rtrancl_refl] by blast

lemma terminal_step:
  assumes "outbox_step sha db db'" and "db_ok db" and "terminal r" and "r \<in> set (ob_rows db)"
  shows "r \<in> set (ob_rows db')"
proof -
  have "d_state r \<noteq> Blocked" using assms(3) by (auto simp: terminal_def)
  then obtain r' where "r' \<in> set (ob_rows db')" "row_run r r'"
    using outbox_step_advances [OF assms(1,2)] assms(4) by (auto simp: rows_advance_def)
  then show ?thesis using assms(3) by (simp add: row_run_def)
qed

text \<open>
  C30. Finished deliveries are permanent: an accepted or dead-lettered row stays in the table,
  unchanged in every column, whatever happens later.
\<close>

theorem terminal_permanent:
  assumes "reachable sha db" and "(outbox_step sha)\<^sup>*\<^sup>* db db'"
    and "r \<in> set (ob_rows db)" and "d_state r = Accepted \<or> d_state r = DeadLetter"
  shows "r \<in> set (ob_rows db')"
proof (rule outbox_run.run_relates [OF assms(2) reachable_db_ok [OF assms(1)],
    where R = "\<lambda>_ y. r \<in> set (ob_rows y)"])
  show "r \<in> set (ob_rows db)" by (rule assms(3))
  show "r \<in> set (ob_rows y)" if "db_ok x" "outbox_step sha x y" "r \<in> set (ob_rows x)" for x y
    using terminal_step [OF that(2,1) _ that(3)] assms(4) by (simp add: terminal_def)
qed

theorem terminal_permanent_witness:
  "\<exists>r \<in> set (ob_rows demo_accepted). d_state r = Accepted \<and> d_discord_message_id r = Some ''m1''"
proof -
  define r where "r = hd (ob_rows demo_accepted)"
  have "d_state r = Accepted" "d_discord_message_id r = Some ''m1''" unfolding r_def by code_simp+
  moreover have "r \<in> set (ob_rows demo_accepted)" unfolding r_def by (rule hd_in_set) code_simp
  ultimately show ?thesis
    using terminal_permanent [OF demo_reachable(3) rtranclp.rtrancl_refl] by blast
qed

text \<open>
  C15. Refinement: along every committed transaction each surviving row keeps its identity (id,
  event, target, payload, hash, ordering key, dependency, creation time) and moves along the
  abstract life cycle; a row that is not in the table before starts blocked or ready with no
  attempt.
\<close>

theorem lifecycle_refinement:
  assumes "reachable sha db" and "outbox_step sha db db'" and "r' \<in> set (ob_rows db')"
  shows "(\<forall>r \<in> set (ob_rows db). d_id r = d_id r' \<longrightarrow>
            identity_cols r' = identity_cols r \<and> life\<^sup>*\<^sup>* (phase_of r) (phase_of r')) \<and>
         (d_id r' \<notin> d_id ` set (ob_rows db) \<longrightarrow> phase_of r' \<in> {(Blocked, 0), (Ready, 0)})"
proof -
  have ok: "db_ok db" by (rule reachable_db_ok [OF assms(1)])
  from outbox_step_advances [OF assms(2) ok] assms(3)
  consider (old) q where "q \<in> set (ob_rows db)" "row_run q r'"
    | (new) "d_id r' \<notin> d_id ` set (ob_rows db)" "phase_of r' \<in> {(Blocked, 0), (Ready, 0)}"
    unfolding rows_advance_def by blast
  then show ?thesis
  proof cases
    case old
    have "r = q" if "r \<in> set (ob_rows db)" "d_id r = d_id r'" for r
      using distinct_ids_eq [OF _ that(1) old(1)] ok that(2) row_run_id [OF old(2)]
      by (simp add: db_ok_def rows_ok_def)
    moreover have "d_id r' \<in> d_id ` set (ob_rows db)" using old row_run_id [OF old(2)] by simp
    ultimately show ?thesis using old(2) unfolding row_run_def by blast
  next
    case new
    have "d_id r \<noteq> d_id r'" if "r \<in> set (ob_rows db)" for r
      using new(1) imageI [OF that, of d_id] by auto
    then show ?thesis using new(2) by blast
  qed
qed

theorem lifecycle_refinement_witness:
  "life\<^sup>*\<^sup>* (Ready, 0) (Leased, 1)"
proof -
  have m: "demo_leased_row \<in> set (ob_rows demo_leased)" by (simp add: demo_leased_def)
  have "new_row demo_sha (demo_delivery ''e1'') ''o1'' 1000 1000 \<in> set (ob_rows demo_queued)"
    by (simp add: demo_queued_def)
  moreover have "d_id (new_row demo_sha (demo_delivery ''e1'') ''o1'' 1000 1000) = d_id demo_leased_row"
    by (simp add: demo_leased_row_def lease_row_def)
  moreover have "phase_of (new_row demo_sha (demo_delivery ''e1'') ''o1'' 1000 1000) = (Ready, 0)"
    "phase_of demo_leased_row = (Leased, 1)" by code_simp+
  ultimately show ?thesis
    using lifecycle_refinement [OF demo_reachable(1) step_claim [OF demo_claim] m] by metis
qed

lemma find_event_new:
  assumes "db_ok db'" and "r \<in> set (ob_rows db')"
    and "event_key r = (e_tenant input, e_target_key input, e_event_id input)"
  shows "find_event db' input = Some r"
proof -
  have key: "\<And>x. x \<in> set (ob_rows db') \<Longrightarrow> event_key x = event_key r \<Longrightarrow> x = r"
    using assms(1,2) by (metis db_ok_def distinct_map inj_onD rows_okD(3))
  show ?thesis
  proof (cases "find_event db' input")
    case None
    then show ?thesis using assms(2,3) by (auto simp: find_event_def find_None_iff event_key_def)
  next
    case (Some x)
    then have "x \<in> set (ob_rows db')" "event_key x = event_key r"
      using assms(3) by (auto simp: find_event_def find_Some_iff event_key_def)
    with key Some show ?thesis by simp
  qed
qed

lemma enqueue_known:
  assumes ok: "db_ok db" and v: "validate_inputs sha [(input, i)] = Inr ()"
    and f: "find_event db input = Some r" and s: "same_delivery sha r input"
  shows "enqueue_in_transaction sha db input i now = Inr (r, db)"
proof -
  have c: "count_rows active (ob_rows db) \<le> MAX_QUEUE_GLOBAL"
    using ok by (simp add: db_ok_def capacity_ok_def)
  have z: "i64_try_from_or_max 0 = 0" by (simp add: i64_try_from_or_max_def i64_defs)
  have "partition_inputs sha db [(input, i)] = Inr ([r], [])" using f s by simp
  then show ?thesis
    using c v
    by (simp add: enqueue_in_transaction_def enqueue_many_in_transaction_def z)
qed

text \<open>
  C26. Enqueueing is idempotent: enqueueing the same delivery again, under any new id and at any
  later time, returns the row of the first call and leaves the tables unchanged.
\<close>

theorem enqueue_idempotent:
  assumes "reachable sha db" and "enqueue_in_transaction sha db input i now = Inr (r, db')"
  shows "enqueue_in_transaction sha db' input j later = Inr (r, db')"
proof -
  have ok: "db_ok db" by (rule reachable_db_ok [OF assms(1)])
  obtain out where e: "enqueue_many_in_transaction sha db [(input, i)] now = Inr (out, db')"
    and r: "r = hd out"
    using assms(2) by (auto simp: enqueue_in_transaction_def result_simps)
  have v: "validate_inputs sha [(input, j)] = Inr ()"
    using e by (auto simp: enqueue_many_in_transaction_def result_simps)
  obtain records fresh created where
    p: "partition_inputs sha db [(input, i)] = Inr (records, fresh)" and o: "out = records @ created"
    and db': "db' = db\<lparr>ob_rows := ob_rows db @ created\<rparr>" "db_ok db'"
    and la: "list_all2 (\<lambda>(input, i) r. \<exists>c. r = new_row sha input i now c) fresh created"
    by (rule enqueue_many_Inr [OF e ok])
  show ?thesis
  proof (cases "find_event db input")
    case (Some x)
    with p la o r have "r = x" "same_delivery sha x input" "created = []"
      by (auto split: if_splits)
    moreover have "db' = db" using db'(1) \<open>created = []\<close> by simp
    ultimately show ?thesis using enqueue_known [OF db'(2) v] Some by simp
  next
    case None
    with p la o r obtain c where c: "created = [new_row sha input i now c]" "r = new_row sha input i now c"
      by (auto simp: list_all2_Cons1)
    then have "find_event db' input = Some r"
      using db'(1) by (intro find_event_new [OF db'(2)]) simp_all
    moreover have "same_delivery sha r input" by (simp add: c(2) same_delivery_def new_row_def)
    ultimately show ?thesis by (rule enqueue_known [OF db'(2) v])
  qed
qed

lemma demo_enqueue_one:
  "enqueue_in_transaction demo_sha empty_outbox (demo_delivery ''e1'') ''o1'' 1000 =
     Inr (new_row demo_sha (demo_delivery ''e1'') ''o1'' 1000 1000,
          empty_outbox\<lparr>ob_rows := [new_row demo_sha (demo_delivery ''e1'') ''o1'' 1000 1000]\<rparr>)"
  by code_simp

theorem enqueue_idempotent_witness:
  "enqueue_in_transaction demo_sha
     (empty_outbox\<lparr>ob_rows := [new_row demo_sha (demo_delivery ''e1'') ''o1'' 1000 1000]\<rparr>)
     (demo_delivery ''e1'') ''o9'' 5000 =
   Inr (new_row demo_sha (demo_delivery ''e1'') ''o1'' 1000 1000,
        empty_outbox\<lparr>ob_rows := [new_row demo_sha (demo_delivery ''e1'') ''o1'' 1000 1000]\<rparr>)"
  using enqueue_idempotent [OF _ demo_enqueue_one] by (simp add: reachable_def)

lemma upsert_limit_covers:
  "\<exists>l \<in> set (upsert_limit new limits). same_limit_key new l \<and> r_blocked_until new \<le> r_blocked_until l"
proof (cases "list_ex (same_limit_key new) limits")
  case True
  then obtain l where "l \<in> set limits" "same_limit_key new l" by (auto simp: list_ex_iff)
  then have "merge_limit new l \<in> set (upsert_limit new limits)" "same_limit_key new (merge_limit new l)"
    using True by (auto simp: upsert_limit_def set_sql_update merge_limit_def same_limit_key_def)
  then show ?thesis by (intro bexI [of _ "merge_limit new l"]) (auto simp: merge_limit_def)
next
  case False
  then show ?thesis by (intro bexI [of _ new]) (auto simp: upsert_limit_def same_limit_key_def)
qed

lemma upsert_limit_keeps:
  assumes "l \<in> set limits"
  shows "\<exists>l' \<in> set (upsert_limit new limits). same_limit_key l l' \<and> r_blocked_until l \<le> r_blocked_until l'"
proof (cases "list_ex (same_limit_key new) limits \<and> same_limit_key new l")
  case True
  then have "merge_limit new l \<in> set (upsert_limit new limits)"
    using assms by (auto simp: upsert_limit_def set_sql_update)
  then show ?thesis
    by (rule bexI [rotated]) (simp add: merge_limit_def same_limit_key_def)
next
  case False
  then have "l \<in> set (upsert_limit new limits)"
    using assms by (auto simp: upsert_limit_def set_sql_update list_ex_iff)
  then show ?thesis by (rule bexI [rotated]) (simp add: same_limit_key_def)
qed

lemma rebucketed:
  assumes "r \<in> set (sql_update (rebucket target secret) (\<lambda>r. r\<lparr>d_bucket_id := bucket, d_updated_at := now\<rparr>) rows)"
    and "d_target_key r = target" and "d_secret_ref r = secret" and "ready_or_retry r"
  shows "d_bucket_id r = bucket"
proof -
  obtain r0 where "r = (if rebucket target secret r0
      then r0\<lparr>d_bucket_id := bucket, d_updated_at := now\<rparr> else r0)"
    using assms(1) unfolding set_sql_update by blast
  then show ?thesis
    using assms(2-4) by (cases "rebucket target secret r0") (auto simp: rebucket_def ready_or_retry_def)
qed

definition limit_row :: "string \<Rightarrow> string \<Rightarrow> string \<Rightarrow> string \<Rightarrow> RateLimitRow \<Rightarrow> bool" where
  "limit_row scope target bucket secret l \<longleftrightarrow>
     r_scope l = scope \<and> (scope = ''target'' \<longrightarrow> r_target_key l = target) \<and>
     (scope = ''bucket'' \<longrightarrow> r_bucket_id l = bucket \<and> r_secret_ref l = secret)"

text \<open>The rows a limit covers: all, those of the target, or those of the bucket and secret.\<close>

definition covered :: "string \<Rightarrow> string \<Rightarrow> string \<Rightarrow> string \<Rightarrow> DeliveryRecord \<Rightarrow> bool" where
  "covered scope target bucket secret r \<longleftrightarrow>
     scope = ''global'' \<or> scope = ''target'' \<and> d_target_key r = target \<or>
     scope = ''bucket'' \<and> d_bucket_id r = bucket \<and> d_secret_ref r = secret"

text \<open>The limits of one table are no shorter in another.\<close>

definition limits_kept :: "outbox_db \<Rightarrow> outbox_db \<Rightarrow> bool" where
  "limits_kept db db' \<longleftrightarrow>
     (\<forall>l \<in> set (ob_rate_limits db). \<exists>l' \<in> set (ob_rate_limits db').
        same_limit_key l l' \<and> r_blocked_until l \<le> r_blocked_until l')"

lemma limits_kept_same: "ob_rate_limits db' = ob_rate_limits db \<Longrightarrow> limits_kept db db'"
  by (auto simp: limits_kept_def same_limit_key_def)

lemma limits_kept_trans: "limits_kept a b \<Longrightarrow> limits_kept b c \<Longrightarrow> limits_kept a c"
  by (fastforce simp: limits_kept_def same_limit_key_def)

lemma persist_rate_limit_Inr:
  assumes "persist_rate_limit db scope target bucket secret until now = Inr db'"
  shows "limits_kept db db'"
    and "\<exists>l \<in> set (ob_rate_limits db'). limit_row scope target bucket secret l \<and> until \<le> r_blocked_until l"
    and "ob_rows db' = (if scope = ''bucket''
       then sql_update (rebucket target secret) (\<lambda>r. r\<lparr>d_bucket_id := bucket, d_updated_at := now\<rparr>) (ob_rows db)
       else ob_rows db)"
proof -
  obtain st sb ss where k: "rate_limit_key scope target bucket secret = Inr (st, sb, ss)"
    and lim: "ob_rate_limits db' = upsert_limit \<lparr> r_scope = scope, r_target_key = st, r_bucket_id = sb,
       r_secret_ref = ss, r_blocked_until = until, r_updated_at = now \<rparr> (ob_rate_limits db)"
    and rows: "ob_rows db' = (if scope = ''bucket''
       then sql_update (rebucket target secret) (\<lambda>r. r\<lparr>d_bucket_id := bucket, d_updated_at := now\<rparr>) (ob_rows db)
       else ob_rows db)"
    using assms by (auto simp: persist_rate_limit_def result_simps Let_def split: if_splits)
  show "limits_kept db db'" unfolding limits_kept_def lim by (intro ballI upsert_limit_keeps)
  show "ob_rows db' = (if scope = ''bucket''
       then sql_update (rebucket target secret) (\<lambda>r. r\<lparr>d_bucket_id := bucket, d_updated_at := now\<rparr>) (ob_rows db)
       else ob_rows db)" by (rule rows)
  have "scope = ''target'' \<Longrightarrow> st = target" "scope = ''bucket'' \<Longrightarrow> sb = bucket \<and> ss = secret"
    using k by (auto simp: rate_limit_key_def split: if_splits)
  then show "\<exists>l \<in> set (ob_rate_limits db'). limit_row scope target bucket secret l \<and> until \<le> r_blocked_until l"
    using upsert_limit_covers [of "\<lparr> r_scope = scope, r_target_key = st, r_bucket_id = sb,
       r_secret_ref = ss, r_blocked_until = until, r_updated_at = now \<rparr>" "ob_rate_limits db"]
    by (force simp: lim limit_row_def same_limit_key_def)
qed

lemma claim_next_limits: "claim_next db w t now = Inr (out, db') \<Longrightarrow> ob_rate_limits db' = ob_rate_limits db"
  by (auto simp: claim_next_def claim_transaction_def Let_def split: if_splits option.splits)

lemma transition_limits: "transition db i w t v u = Inr (b, db') \<Longrightarrow> ob_rate_limits db' = ob_rate_limits db"
  by (auto simp: transition_def result_simps Let_def)

lemma outbox_step_limits: "outbox_step sha db db' \<Longrightarrow> db_ok db \<Longrightarrow> limits_kept db db'"
proof (induction rule: outbox_step.induct)
  case (step_enqueue db inputs now out db')
  then show ?case by (auto elim!: enqueue_many_Inr intro: limits_kept_same)
next
  case (step_finalize db intent now n db')
  then show ?case
    by (intro limits_kept_same) (auto simp: finalize_durability_success_in_transaction_def Let_def result_simps
        delete_intent_def split: if_splits)
next
  case (step_compensate db intent n db')
  then show ?case
    by (intro limits_kept_same) (auto simp: compensate_durability_in_transaction_def Let_def result_simps
        delete_intent_def split: if_splits)
next
  case (step_retry db i w t v ru now b db')
  then show ?case by (intro limits_kept_same) (auto simp: retry_def result_simps Let_def)
next
  case (step_dead_letter db i w t v du now b db')
  then show ?case
    by (intro limits_kept_same) (auto simp: dead_letter_def dest: transition_limits split: if_splits)
qed (auto intro: limits_kept_same persist_rate_limit_Inr(1) dest: claim_next_limits transition_limits
    simp: accepted_def accept_outbox_raw_def Let_def)

lemma limits_kept_run: "(outbox_step sha)\<^sup>*\<^sup>* db db' \<Longrightarrow> db_ok db \<Longrightarrow> limits_kept db db'"
  by (rule outbox_run.run_relates [where R = limits_kept])
    (auto intro: limits_kept_same limits_kept_trans outbox_step_limits)

lemma covered_not_claimable:
  assumes "limits_kept db db'" and "tm < until" and "covered scope target bucket secret r"
    and "\<exists>l \<in> set (ob_rate_limits db). limit_row scope target bucket secret l \<and> until \<le> r_blocked_until l"
  shows "\<not> claimable db' tm r"
proof -
  obtain l where l: "l \<in> set (ob_rate_limits db)" "limit_row scope target bucket secret l" "until \<le> r_blocked_until l"
    using assms(4) by blast
  then obtain l' where l': "l' \<in> set (ob_rate_limits db')" "same_limit_key l l'" "r_blocked_until l \<le> r_blocked_until l'"
    using assms(1) by (auto simp: limits_kept_def)
  have "tm < r_blocked_until l'" using assms(2) l(3) l'(3) by linarith
  then have "rate_limited db' tm r"
    using l(2) l'(1,2) assms(3)
    by (auto simp: rate_limited_def list_ex_iff covered_def limit_row_def same_limit_key_def intro!: bexI [of _ l'])
  then show ?thesis by (simp add: claimable_def)
qed

text \<open>
  C28. A recorded rate limit is honoured until it ends: after \<open>persist_rate_limit\<close> returned, whatever
  transactions follow, a claim before \<open>blocked_until\<close> hands out no row the limit covers: none at all
  (global), none of the target, or none in the limited bucket with that secret. A bucket limit
  first moves the waiting rows of the target and secret into the bucket. No limit is ever
  shortened, by this call or by any later transaction. (A row of the target that was leased at that
  moment, or is enqueued later, is not in the bucket, and only a limit on the target or a global
  one holds it back.)
\<close>

theorem rate_limit_honoured:
  assumes "reachable sha db"
    and "persist_rate_limit db scope target bucket secret until now = Inr db1"
    and "(outbox_step sha)\<^sup>*\<^sup>* db1 db2"
  shows "(\<forall>tm w t r db3. tm < until \<and> claim_next db2 w t tm = Inr (Some r, db3) \<longrightarrow>
            \<not> covered scope target bucket secret r) \<and>
         (\<forall>r \<in> set (ob_rows db1). scope = ''bucket'' \<and> d_target_key r = target \<and> d_secret_ref r = secret \<and>
            ready_or_retry r \<longrightarrow> covered scope target bucket secret r) \<and>
         limits_kept db db1 \<and> limits_kept db db2"
proof -
  note p = persist_rate_limit_Inr [OF assms(2)]
  have st: "outbox_step sha db db1" by (rule step_rate_limit [OF assms(2)])
  have r2: "reachable sha db2"
    using assms(1,3) st unfolding reachable_def by (meson rtranclp.rtrancl_into_rtrancl rtranclp_trans)
  have ok1: "db_ok db1" using outbox_step_ok [OF st reachable_db_ok [OF assms(1)]] .
  have k2: "limits_kept db1 db2" by (rule limits_kept_run [OF assms(3) ok1])
  have "\<not> covered scope target bucket secret r"
    if tm: "tm < until" and c: "claim_next db2 w t tm = Inr (Some r, db3)" for tm w t r db3
  proof
    assume cov: "covered scope target bucket secret r"
    have "trim w \<noteq> []" "trim t \<noteq> []" using c by (auto simp: claim_next_def split: if_splits)
    then obtain r0 where r0: "claimable (maintained db2 tm) tm r0" "r = lease_row w t tm r0"
      using claim_next_cases [OF r2, of w t tm] c by auto
    have "covered scope target bucket secret r0" using cov r0(2) by (simp add: covered_def lease_row_def)
    moreover have "limits_kept db1 (maintained db2 tm)"
      by (rule limits_kept_trans [OF k2 limits_kept_same]) (simp add: maintained_def)
    ultimately show False using covered_not_claimable [OF _ tm _ p(2)] r0(1) by blast
  qed
  moreover have "covered scope target bucket secret r"
    if "r \<in> set (ob_rows db1)" "scope = ''bucket''" "d_target_key r = target" "d_secret_ref r = secret"
      "ready_or_retry r" for r
    using that rebucketed [of r target secret now bucket "ob_rows db"] p(3) by (simp add: covered_def)
  ultimately show ?thesis using p(1) limits_kept_trans [OF p(1) k2] by blast
qed

definition demo_limited :: outbox_db where
  "demo_limited = projr (persist_rate_limit demo_queued ''bucket'' ''hook1'' ''b7'' ''webhook:hook1'' 9000 2000)"

theorem rate_limit_honoured_witness:
  "list_all (covered ''bucket'' ''hook1'' ''b7'' ''webhook:hook1'') (ob_rows demo_limited) \<and>
   limits_kept demo_queued demo_limited \<and>
   (\<nexists>r db3. claim_next demo_limited ''w1'' ''t1'' 8999 = Inr (Some r, db3) \<and>
      covered ''bucket'' ''hook1'' ''b7'' ''webhook:hook1'' r) \<and>
   (case claim_next demo_limited ''w1'' ''t1'' 9000 of Inr (Some r, _) \<Rightarrow> d_id r = ''o1'' | _ \<Rightarrow> False)"
proof -
  have "is_ok (persist_rate_limit demo_queued ''bucket'' ''hook1'' ''b7'' ''webhook:hook1'' 9000 2000)"
    by code_simp
  then have p: "persist_rate_limit demo_queued ''bucket'' ''hook1'' ''b7'' ''webhook:hook1'' 9000 2000 = Inr demo_limited"
    by (auto simp: demo_limited_def is_ok_def split: sum.splits)
  note h = rate_limit_honoured [OF demo_reachable(1) p rtranclp.rtrancl_refl]
  have "list_all (\<lambda>r. d_target_key r = ''hook1'' \<and> d_secret_ref r = ''webhook:hook1'' \<and> ready_or_retry r)
      (ob_rows demo_limited)" by code_simp
  then have "list_all (covered ''bucket'' ''hook1'' ''b7'' ''webhook:hook1'') (ob_rows demo_limited)"
    using h by (auto simp: list_all_iff)
  moreover have "\<nexists>r db3. claim_next demo_limited ''w1'' ''t1'' 8999 = Inr (Some r, db3) \<and>
      covered ''bucket'' ''hook1'' ''b7'' ''webhook:hook1'' r"
    using h [THEN conjunct1, rule_format, of 8999 "''w1''" "''t1''"] by auto
  moreover have "case claim_next demo_limited ''w1'' ''t1'' 9000 of
      Inr (Some r, _) \<Rightarrow> d_id r = ''o1'' | _ \<Rightarrow> False" by code_simp
  ultimately show ?thesis using h by blast
qed

lemma blocked_intent:
  assumes "db_ok db" and "r \<in> set (ob_rows db)" and "d_durability_intent_id r = Some i"
  shows "blocked_on i r"
  using assms by (auto simp: db_ok_def rows_ok_def row_ok_def blocked_on_def)

text \<open>
  C29. A producer resolves its durability intent atomically. When the intent is recorded,
  finalization always succeeds: it makes exactly the rows blocked on the intent ready, changes no
  other row, and removes the intent. Compensation succeeds exactly when no delivery depends on a
  row it has to remove and no message link or discussion refers to one; then it deletes exactly the
  blocked rows.
\<close>

theorem durability_resolution:
  assumes "reachable sha db" and "i \<in> set (ob_intents db)"
  shows "finalize_durability_success_in_transaction db i now =
      Inr (count_rows (blocked_on i) (ob_rows db),
           db\<lparr>ob_rows := sql_update (blocked_on i) (release_row now) (ob_rows db),
              ob_intents := sql_delete (\<lambda>j. j = i) (ob_intents db)\<rparr>) \<and>
    compensate_durability_in_transaction db i =
      (if \<exists>p \<in> set (ob_rows db). blocked_on i p \<and>
            (d_id p \<in> set (ob_references db) \<or>
             (\<exists>r \<in> set (ob_rows db). d_depends_on_outbox_id r = Some (d_id p)))
       then Inl Internal
       else Inr (count_rows (blocked_on i) (ob_rows db),
           db\<lparr>ob_rows := sql_delete (blocked_on i) (ob_rows db),
              ob_intents := sql_delete (\<lambda>j. j = i) (ob_intents db)\<rparr>))"
proof -
  have ok: "db_ok db" by (rule reachable_db_ok [OF assms(1)])
  have one: "count_rows (\<lambda>j. j = i) (ob_intents db) = 1"
    using ok assms(2) by (intro count_rows_single) (auto simp: db_ok_def intents_ok_def)
  have u: "\<not> list_ex (\<lambda>r. d_durability_intent_id r = Some i)
      (sql_update (blocked_on i) (release_row now) (ob_rows db))"
    using blocked_intent [OF ok] by (auto simp: list_ex_iff set_sql_update release_row_def)
  have d: "\<not> list_ex (\<lambda>r. d_durability_intent_id r = Some i) (sql_delete (blocked_on i) (ob_rows db))"
    using blocked_intent [OF ok] by (auto simp: list_ex_iff sql_delete_def)
  have f: "finalize_durability_success_in_transaction db i now =
      Inr (count_rows (blocked_on i) (ob_rows db),
           db\<lparr>ob_rows := sql_update (blocked_on i) (release_row now) (ob_rows db),
              ob_intents := sql_delete (\<lambda>j. j = i) (ob_intents db)\<rparr>)"
    using u one by (simp add: finalize_durability_success_in_transaction_def delete_intent_def Let_def)
  have "list_ex (\<lambda>p. blocked_on i p \<and> referenced db p) (ob_rows db) \<longleftrightarrow>
    (\<exists>p \<in> set (ob_rows db). blocked_on i p \<and> (d_id p \<in> set (ob_references db) \<or>
       (\<exists>r \<in> set (ob_rows db). d_depends_on_outbox_id r = Some (d_id p))))"
    by (auto simp: list_ex_iff referenced_def)
  then have "compensate_durability_in_transaction db i =
      (if \<exists>p \<in> set (ob_rows db). blocked_on i p \<and>
            (d_id p \<in> set (ob_references db) \<or>
             (\<exists>r \<in> set (ob_rows db). d_depends_on_outbox_id r = Some (d_id p)))
       then Inl Internal
       else Inr (count_rows (blocked_on i) (ob_rows db),
           db\<lparr>ob_rows := sql_delete (blocked_on i) (ob_rows db),
              ob_intents := sql_delete (\<lambda>j. j = i) (ob_intents db)\<rparr>))"
    using d one by (simp add: compensate_durability_in_transaction_def delete_intent_def Let_def)
  with f show ?thesis by simp
qed

definition demo_intent :: outbox_db where
  "demo_intent = empty_outbox\<lparr>ob_intents := [''i1'']\<rparr>"

definition demo_blocked :: outbox_db where
  "demo_blocked = demo_intent\<lparr>ob_rows :=
     [new_row demo_sha ((demo_delivery ''e1'')\<lparr>e_durability_intent_id := Some ''i1''\<rparr>) ''o1'' 1000 1000]\<rparr>"

lemma demo_blocked_reachable: "reachable demo_sha demo_blocked"
proof -
  have "outbox_step demo_sha empty_outbox (empty_outbox\<lparr>ob_intents := ob_intents empty_outbox @ [''i1'']\<rparr>)"
    by (rule step_intent) (simp add: empty_outbox_def)
  moreover have "empty_outbox\<lparr>ob_intents := ob_intents empty_outbox @ [''i1'']\<rparr> = demo_intent"
    by (simp add: demo_intent_def empty_outbox_def)
  moreover have "enqueue_many_in_transaction demo_sha demo_intent
      [((demo_delivery ''e1'')\<lparr>e_durability_intent_id := Some ''i1''\<rparr>, ''o1'')] 1000 =
      Inr (ob_rows demo_blocked, demo_blocked)"
    by code_simp
  then have "outbox_step demo_sha demo_intent demo_blocked" by (rule step_enqueue)
  ultimately show ?thesis unfolding reachable_def by (metis r_into_rtranclp rtranclp.rtrancl_into_rtrancl)
qed

theorem durability_resolution_witness:
  "\<exists>db'. finalize_durability_success_in_transaction demo_blocked ''i1'' 2000 = Inr (1, db') \<and>
     ob_intents db' = []"
proof -
  have "''i1'' \<in> set (ob_intents demo_blocked)" by code_simp
  note f = durability_resolution [OF demo_blocked_reachable this, of 2000, THEN conjunct1]
  moreover have "count_rows (blocked_on ''i1'') (ob_rows demo_blocked) = 1"
    "sql_delete (\<lambda>j. j = ''i1'') (ob_intents demo_blocked) = []" by code_simp+
  ultimately show ?thesis by simp
qed

text \<open>
  C32. Failure propagates through dependencies, completely and only there: after
  \<open>propagate_terminal_dependencies\<close> no waiting row has a dead-lettered predecessor, and every row
  it changed was waiting and has one; all other rows are as before.
\<close>

theorem dependency_failure_propagates:
  "\<not> list_ex (dependency_failed (propagate_terminal_dependencies now rows))
       (propagate_terminal_dependencies now rows) \<and>
   list_all2 (\<lambda>r r'. r' = r \<or> r' = fail_dependent now r \<and> ready_or_retry r \<and>
       predecessor_in DeadLetter (propagate_terminal_dependencies now rows) r)
     rows (propagate_terminal_dependencies now rows)"
proof (rule conjI [OF propagate_fixpoint], induction now rows rule: propagate_terminal_dependencies.induct)
  case (1 now rows)
  let ?rows1 = "sql_update (dependency_failed rows) (fail_dependent now) rows"
  let ?res = "propagate_terminal_dependencies now rows"
  show ?case
  proof (cases "list_ex (dependency_failed rows) rows")
    case False
    then show ?thesis by (simp add: propagate_noop list_all2_refl)
  next
    case True
    then have res: "?res = propagate_terminal_dependencies now ?rows1"
      by (simp add: propagate_terminal_dependencies.simps [of now rows])
    have ih: "k < length rows \<Longrightarrow> ?res ! k = ?rows1 ! k \<or> ?res ! k = fail_dependent now (?rows1 ! k) \<and>
        ready_or_retry (?rows1 ! k) \<and> predecessor_in DeadLetter ?res (?rows1 ! k)" for k
      using "1.IH" [OF True] unfolding res list_all2_conv_all_nth by simp
    have len: "length ?res = length rows"
      using "1.IH" [OF True] unfolding res list_all2_conv_all_nth by simp
    have dead: "predecessor_in DeadLetter ?res r" if "predecessor_in DeadLetter rows r" for r
    proof -
      from that obtain p k where p: "d_depends_on_outbox_id r = Some p" "k < length rows" "d_id (rows ! k) = p"
          "d_state (rows ! k) = DeadLetter"
        by (auto simp: predecessor_in_def list_ex_iff in_set_conv_nth split: option.splits)
      then have "?rows1 ! k = rows ! k"
        by (simp add: nth_sql_update dependency_failed_def ready_or_retry_def)
      then have "?res ! k = rows ! k" using ih [OF p(2)] p(4) by (auto simp: ready_or_retry_def)
      moreover have "?res ! k \<in> set ?res" using p(2) len by simp
      ultimately show ?thesis using p by (auto simp: predecessor_in_def list_ex_iff)
    qed
    have "?res ! k = rows ! k \<or> ?res ! k = fail_dependent now (rows ! k) \<and> ready_or_retry (rows ! k) \<and>
        predecessor_in DeadLetter ?res (rows ! k)" if k: "k < length rows" for k
    proof (cases "dependency_failed rows (rows ! k)")
      case True
      then have "?rows1 ! k = fail_dependent now (rows ! k)" using k by (simp add: nth_sql_update)
      moreover have "\<not> ready_or_retry (fail_dependent now (rows ! k))"
        by (simp add: ready_or_retry_def fail_dependent_def)
      ultimately show ?thesis using ih [OF k] True dead by (auto simp: dependency_failed_def)
    next
      case False
      then show ?thesis using ih [OF k] k by (simp add: nth_sql_update)
    qed
    then show ?thesis using len by (simp add: list_all2_conv_all_nth)
  qed
qed

end
