(* ===== verification/Delivery_Worker.thy ===== *)
theory Delivery_Worker
  imports Outbox_Lifecycle
begin

text \<open>
  The delivery worker: src/src/integrations/discord_delivery.rs (classification of provider
  responses) and src/src/integrations/delivery_worker/ (one turn of a worker: claim, resolve,
  send, settle).

  A worker turn passes the tables and the advisory webhook status log explicitly, because a
  turn is several transactions and an error after the first does not undo it. Between them other
  workers and producers commit transactions of their own: the field \<open>p_others\<close> of \<open>worker_ports\<close>
  is what they did to the tables by then. The traits of ports.rs (webhook lookup, preview,
  provider transport), the \<open>url\<close> crate, the envelope codec and the discussion pipeline are the
  other fields of \<open>worker_ports\<close>; \<open>serde_json::from_slice\<close> and the HTTP exchange are parameters
  of the provider transport.
\<close>

section \<open>Provider outcomes (discord_delivery.rs)\<close>

definition MAX_MESSAGE_ID_BYTES :: nat where "MAX_MESSAGE_ID_BYTES = 32"
definition MAX_RESPONSE_BODY_BYTES :: int where "MAX_RESPONSE_BODY_BYTES = 65536"
definition MAX_RATE_LIMIT_VALUE_BYTES :: nat where "MAX_RATE_LIMIT_VALUE_BYTES = 128"
definition MAX_RETRY_DELAY_MILLIS :: int where "MAX_RETRY_DELAY_MILLIS = 24 * 60 * 60 * 1000"

datatype DuplicateRisk = RiskNone | RiskPossible

datatype RateLimitScope = ScopeGlobal | ScopeShared | ScopeUser

record RateLimitMetadata =
  rl_webhook_ref :: "string option"
  rl_bucket :: "string option"
  rl_remaining :: "int option"
  rl_reset_after_ms :: "int option"
  rl_retry_after_ms :: "int option"
  rl_scope :: "RateLimitScope option"

datatype RetryReason = RrRateLimited | RrNetwork | RrTimeout | RrAmbiguous | RrServerError

datatype TerminalReason =
    TrInvalidSecret | TrDecryptFailed | TrAllowlistRejected | TrRedirect | TrBadRequest
  | TrUnauthorized | TrForbidden | TrNotFound | TrInvalidRateLimitDelay | TrClientError
  | TrServerError

datatype DeliveryClassification =
    DcAccepted (dc_message_id: string) (dc_accepted_rate_limit: RateLimitMetadata)
  | DcRetry (dc_reason: RetryReason) (dc_duplicate_risk: DuplicateRisk)
      (dc_rate_limit: "RateLimitMetadata option")
  | DcTerminal (dc_terminal: TerminalReason)

datatype ProviderFault =
    PfInvalidSecret | PfDecryptFailed | PfAllowlistRejected | PfNetwork | PfTimeout | PfAmbiguous

record DiscordHttpResponse =
  hr_status :: nat
  hr_webhook_ref :: "string option"
  hr_headers :: "(string \<times> string) list"
  hr_body :: bytes

text \<open>
  Binary64 numbers: \<open>Finite m e\<close> is \<open>m\<close> times two to the \<open>e\<close>; the infinities and NaN are \<open>NonFinite\<close>.
  \<open>f64_nearest n d\<close> is the number nearest to the fraction \<open>n / d\<close>, ties to even, with 53 bits of
  precision, the smallest exponent -1074, and overflow at two to the 1024.
\<close>

datatype f64 = Finite int int | NonFinite

function bit_length :: "int \<Rightarrow> int" where
  "bit_length n = (if n \<le> 0 then 0 else 1 + bit_length (n div 2))"
  by pat_completeness auto
termination by (relation "measure nat") auto

declare bit_length.simps [simp del]

definition round_half_even :: "int \<Rightarrow> int \<Rightarrow> int" where
  "round_half_even n d =
     (let q = n div d; r = n mod d
      in if 2 * r < d \<or> 2 * r = d \<and> even q then q else q + 1)"

definition scale_up :: "int \<Rightarrow> int \<Rightarrow> int" where
  "scale_up n e = n * 2 ^ nat e"

definition f64_nearest :: "int \<Rightarrow> int \<Rightarrow> f64" where
  "f64_nearest n d =
     (let e0 = bit_length n - bit_length d - 53;
          e1 = (if 2 ^ 53 * scale_up d e0 \<le> scale_up n (- e0) then e0 + 1 else e0);
          e = max (- 1074) e1;
          m = round_half_even (scale_up n (- e)) (scale_up d e)
      in if 1024 < bit_length m + e then NonFinite else Finite m e)"

text \<open>The product of a positive number and \<open>1_000.0\<close>, and \<open>ceil\<close> of a finite one.\<close>

definition f64_times_1000 :: "int \<Rightarrow> int \<Rightarrow> f64" where
  "f64_times_1000 m e = f64_nearest (scale_up (1000 * m) e) (scale_up 1 (- e))"

definition f64_ceil :: "int \<Rightarrow> int \<Rightarrow> int" where
  "f64_ceil m e = (if 0 \<le> e then m * 2 ^ nat e else - ((- m) div 2 ^ nat (- e)))"

text \<open>What the code reads of a \<open>serde_json\<close> value: objects, strings, booleans, and numbers as binary64.\<close>

datatype json =
    JNull | JBool bool | JNumber f64 | JString string | JArray "json list"
  | JObject "(string \<times> json) list"

text \<open>\<open>Value::get\<close>: the member of an object; a parsed object has each key once.\<close>

definition json_get :: "json \<Rightarrow> string \<Rightarrow> json option" where
  "json_get v k = (case v of JObject ms \<Rightarrow> map_of ms k | _ \<Rightarrow> None)"

definition valid_snowflake :: "string \<Rightarrow> bool" where
  "valid_snowflake value \<longleftrightarrow>
     value \<noteq> [] \<and> length value \<le> MAX_MESSAGE_ID_BYTES \<and> \<not> starts_with value ''0'' \<and>
     list_all is_ascii_digit value"

definition valid_webhook_ref :: "string \<Rightarrow> bool" where
  "valid_webhook_ref value =
     (case (case strip_prefix value ''webhook:'' of
              Some s \<Rightarrow> Some s | None \<Rightarrow> strip_prefix value ''discussion:'') of
        None \<Rightarrow> False
      | Some suffix \<Rightarrow>
          suffix \<noteq> [] \<and> length value \<le> MAX_RATE_LIMIT_VALUE_BYTES \<and> list_all opaque_byte suffix)"

definition header :: "DiscordHttpResponse \<Rightarrow> string \<Rightarrow> string option" where
  "header response wanted =
     map_option snd (List.find (\<lambda>(name, value). eq_ignore_ascii_case name wanted) (hr_headers response))"

definition bounded_header :: "string \<Rightarrow> bool" where
  "bounded_header value \<longleftrightarrow>
     value \<noteq> [] \<and> length value \<le> MAX_RATE_LIMIT_VALUE_BYTES \<and>
     \<not> list_ex (\<lambda>c. c = CHR 0x0D \<or> c = CHR 0x0A) value"

definition parse_scope :: "string \<Rightarrow> RateLimitScope option" where
  "parse_scope value =
     (if value = ''global'' then Some ScopeGlobal
      else if value = ''shared'' then Some ScopeShared
      else if value = ''user'' then Some ScopeUser else None)"

definition strict_decimal_seconds :: "string \<Rightarrow> bool" where
  "strict_decimal_seconds value =
     (case split_on (CHR ''.'') value of
        [whole] \<Rightarrow> whole \<noteq> [] \<and> list_all is_ascii_digit whole
      | [whole, digits] \<Rightarrow> whole \<noteq> [] \<and> list_all is_ascii_digit whole \<and>
          digits \<noteq> [] \<and> list_all is_ascii_digit digits
      | _ \<Rightarrow> False)"

text \<open>
  \<open>str::parse::<u64>\<close>: an optional plus sign, then at least one digit, within range.
\<close>

definition parse_u64 :: "string \<Rightarrow> int option" where
  "parse_u64 s =
     (let ds = (case s of c # cs \<Rightarrow> if c = CHR ''+'' then cs else s | [] \<Rightarrow> s);
          n = int (read_nat_acc 0 ds)
      in if ds \<noteq> [] \<and> list_all is_ascii_digit ds \<and> n \<le> u64_max then Some n else None)"

text \<open>
  \<open>str::parse::<f64>\<close> on the text that \<open>strict_decimal_seconds\<close> admits: digits, and digits after a point.
\<close>

definition parse_f64 :: "string \<Rightarrow> f64 option" where
  "parse_f64 value =
     (case split_on (CHR ''.'') value of
        [whole] \<Rightarrow> Some (f64_nearest (int (read_nat_acc 0 whole)) 1)
      | [whole, digits] \<Rightarrow> Some (f64_nearest (int (read_nat_acc 0 (whole @ digits))) (10 ^ length digits))
      | _ \<Rightarrow> None)"

definition delay_millis_from_seconds :: "f64 \<Rightarrow> int option" where
  "delay_millis_from_seconds seconds =
     (case seconds of
        NonFinite \<Rightarrow> None
      | Finite m e \<Rightarrow>
          if m \<le> 0 then None
          else case f64_times_1000 m e of
                 NonFinite \<Rightarrow> None
               | Finite m' e' \<Rightarrow>
                   let milliseconds = f64_ceil m' e'
                   in if 1 \<le> milliseconds \<and> milliseconds \<le> MAX_RETRY_DELAY_MILLIS then Some milliseconds
                      else None)"

text \<open>\<open>serde_json::from_slice\<close>.\<close>

type_synonym json_parser = "bytes \<Rightarrow> json option"

definition classify_fault :: "ProviderFault \<Rightarrow> DeliveryClassification" where
  "classify_fault fault =
     (case fault of
        PfInvalidSecret \<Rightarrow> DcTerminal TrInvalidSecret
      | PfDecryptFailed \<Rightarrow> DcTerminal TrDecryptFailed
      | PfAllowlistRejected \<Rightarrow> DcTerminal TrAllowlistRejected
      | PfNetwork \<Rightarrow> DcRetry RrNetwork RiskPossible None
      | PfTimeout \<Rightarrow> DcRetry RrTimeout RiskPossible None
      | PfAmbiguous \<Rightarrow> DcRetry RrAmbiguous RiskPossible None)"

definition message_id :: "json_parser \<Rightarrow> bytes \<Rightarrow> string option" where
  "message_id p body =
     (if MAX_RESPONSE_BODY_BYTES < int (length body) then None
      else case p body of
             None \<Rightarrow> None
           | Some value \<Rightarrow>
               (case json_get value ''id'' of
                  Some (JString aid) \<Rightarrow> if valid_snowflake aid then Some aid else None
                | _ \<Rightarrow> None))"

definition delay_millis_from_json :: "json \<Rightarrow> int option" where
  "delay_millis_from_json value = (case value of JNumber n \<Rightarrow> delay_millis_from_seconds n | _ \<Rightarrow> None)"

definition delay_millis_from_text :: "string \<Rightarrow> int option" where
  "delay_millis_from_text value =
     (if strict_decimal_seconds value then Option.bind (parse_f64 value) delay_millis_from_seconds else None)"

definition max_delay :: "int option \<Rightarrow> int option \<Rightarrow> int option" where
  "max_delay a b =
     (case (a, b) of
        (Some x, Some y) \<Rightarrow> Some (max x y)
      | (Some x, None) \<Rightarrow> Some x
      | (None, Some y) \<Rightarrow> Some y
      | (None, None) \<Rightarrow> None)"

definition rate_limit_metadata :: "json_parser \<Rightarrow> DiscordHttpResponse \<Rightarrow> RateLimitMetadata" where
  "rate_limit_metadata p response =
     (let body = (if int (length (hr_body response)) \<le> MAX_RESPONSE_BODY_BYTES
                  then p (hr_body response) else None);
          member = (\<lambda>k. Option.bind body (\<lambda>v. json_get v k));
          body_retry_after = Option.bind (member ''retry_after'') delay_millis_from_json;
          retry_after_header = Option.bind (header response ''retry-after'') delay_millis_from_text
      in \<lparr> rl_webhook_ref = hr_webhook_ref response,
           rl_bucket = (case header response ''x-ratelimit-bucket'' of
                          Some v \<Rightarrow> if bounded_header v then Some v else None | None \<Rightarrow> None),
           rl_remaining = (case header response ''x-ratelimit-remaining'' of
                             Some v \<Rightarrow> if bounded_header v then parse_u64 v else None | None \<Rightarrow> None),
           rl_reset_after_ms = Option.bind (header response ''x-ratelimit-reset-after'') delay_millis_from_text,
           rl_retry_after_ms = max_delay body_retry_after retry_after_header,
           rl_scope = (if (case member ''global'' of Some (JBool True) \<Rightarrow> True | _ \<Rightarrow> False)
                          \<or> header response ''x-ratelimit-global'' = Some ''true''
                       then Some ScopeGlobal
                       else Option.bind (header response ''x-ratelimit-scope'') parse_scope) \<rparr>)"

definition has_webhook_ref :: "DiscordHttpResponse \<Rightarrow> bool" where
  "has_webhook_ref response \<longleftrightarrow>
     (case hr_webhook_ref response of None \<Rightarrow> False | Some v \<Rightarrow> valid_webhook_ref v)"

definition classify_http_response ::
    "json_parser \<Rightarrow> DiscordHttpResponse \<Rightarrow> DeliveryClassification" where
  "classify_http_response p response =
     (let s = hr_status response in
      if 200 \<le> s \<and> s \<le> 299 then
        (if \<not> has_webhook_ref response then DcTerminal TrInvalidSecret
         else case message_id p (hr_body response) of
                Some aid \<Rightarrow> DcAccepted aid (rate_limit_metadata p response)
              | None \<Rightarrow> classify_fault PfAmbiguous)
      else if 300 \<le> s \<and> s \<le> 399 then DcTerminal TrRedirect
      else if s = 400 then DcTerminal TrBadRequest
      else if s = 401 then DcTerminal TrUnauthorized
      else if s = 403 then DcTerminal TrForbidden
      else if s = 404 then DcTerminal TrNotFound
      else if s = 429 then
        (if \<not> has_webhook_ref response then DcTerminal TrInvalidSecret
         else if (case rl_retry_after_ms (rate_limit_metadata p response) of
                    Some d \<Rightarrow> 0 < d | None \<Rightarrow> False)
         then DcRetry RrRateLimited RiskNone (Some (rate_limit_metadata p response))
         else DcTerminal TrInvalidRateLimitDelay)
      else if s = 500 \<or> s = 502 \<or> s = 503 \<or> s = 504 then DcRetry RrServerError RiskPossible None
      else if 405 \<le> s \<and> s \<le> 499 then DcTerminal TrClientError
      else if 500 \<le> s \<and> s \<le> 599 then DcTerminal TrServerError
      else DcTerminal TrClientError)"

section \<open>The provider transport (discord_delivery.rs)\<close>

record ProviderRequest =
  pr_url :: string
  pr_webhook_ref :: string
  pr_content_type :: string
  pr_payload :: bytes

text \<open>
  One HTTP exchange: no response within the timeout, a failed request, or a response with its
  status, its headers (sorted by name, each name once), the chunks of its body (\<open>None\<close> for a read
  error), and whether the body was read before the deadline.
\<close>

datatype HttpExchange =
    ExchangeTimeout | ExchangeFailed
  | ExchangeResponse nat "(string \<times> string) list" "bytes option list" bool

fun read_response_body :: "bytes \<Rightarrow> bytes option list \<Rightarrow> bytes option" where
  "read_response_body body [] = Some body"
| "read_response_body body (None # chunks) = None"
| "read_response_body body (Some chunk # chunks) =
     (if MAX_RESPONSE_BODY_BYTES < int (length body + length chunk) then None
      else read_response_body (body @ chunk) chunks)"

definition deliver ::
    "(string \<Rightarrow> string option \<Rightarrow> TerminalReason + string) \<Rightarrow> json_parser \<Rightarrow> (ProviderRequest \<Rightarrow> HttpExchange) \<Rightarrow>
     ProviderRequest \<Rightarrow> DeliveryClassification" where
  "deliver execution_url p http request =
     (if execution_url (pr_url request) None \<noteq> Inr (pr_url request) then classify_fault PfAllowlistRejected
      else case http request of
             ExchangeTimeout \<Rightarrow> classify_fault PfTimeout
           | ExchangeFailed \<Rightarrow> classify_fault PfNetwork
           | ExchangeResponse status headers chunks in_time \<Rightarrow>
               let observed = \<lparr> hr_status = status, hr_webhook_ref = Some (pr_webhook_ref request),
                                hr_headers = headers, hr_body = [] \<rparr>
               in if \<not> (200 \<le> status \<and> status \<le> 299) \<and> status \<noteq> 429 then classify_http_response p observed
                  else case (if in_time then read_response_body [] chunks else None) of
                         Some body \<Rightarrow> classify_http_response p (observed\<lparr>hr_body := body\<rparr>)
                       | None \<Rightarrow> if status = 429 then classify_http_response p observed
                                 else classify_fault PfAmbiguous)"

section \<open>Retry policy and codes (backoff.rs, outcome.rs)\<close>

text \<open>Delays are in milliseconds.\<close>

definition RETRY_BACKOFF :: "int list" where
  "RETRY_BACKOFF = [1000, 5000, 30000, 120000, 600000, 1800000, 3600000]"

text \<open>A negative index becomes \<open>usize::MAX\<close>, which the clamp turns into the last entry.\<close>

definition backoff :: "int \<Rightarrow> int" where
  "backoff attempt =
     (let i = i64_saturating_sub attempt 1
      in RETRY_BACKOFF ! (if i < 0 then 6 else min (nat i) 6))"

definition retry_code :: "RetryReason \<Rightarrow> string" where
  "retry_code reason =
     (case reason of
        RrRateLimited \<Rightarrow> ''rate_limited''
      | RrNetwork \<Rightarrow> ''network''
      | RrTimeout \<Rightarrow> ''timeout''
      | RrAmbiguous \<Rightarrow> ''ambiguous''
      | RrServerError \<Rightarrow> ''server_error'')"

definition terminal_code :: "TerminalReason \<Rightarrow> string" where
  "terminal_code reason =
     (case reason of
        TrInvalidSecret \<Rightarrow> ''invalid_secret''
      | TrDecryptFailed \<Rightarrow> ''decrypt_failed''
      | TrAllowlistRejected \<Rightarrow> ''allowlist_rejected''
      | TrRedirect \<Rightarrow> ''redirect''
      | TrBadRequest \<Rightarrow> ''bad_request''
      | TrUnauthorized \<Rightarrow> ''unauthorized''
      | TrForbidden \<Rightarrow> ''forbidden''
      | TrNotFound \<Rightarrow> ''not_found''
      | TrInvalidRateLimitDelay \<Rightarrow> ''invalid_rate_limit_delay''
      | TrClientError \<Rightarrow> ''client_error''
      | TrServerError \<Rightarrow> ''server_error'')"

definition rate_metadata :: "DeliveryClassification \<Rightarrow> RateLimitMetadata option" where
  "rate_metadata outcome =
     (case outcome of
        DcAccepted m rl \<Rightarrow> Some rl
      | DcRetry r d rl \<Rightarrow> rl
      | DcTerminal r \<Rightarrow> None)"

section \<open>The worker (ports.rs, outcome.rs, event.rs, mod.rs)\<close>

datatype WebhookResolutionFailure = WrfRetryable | WrfInvalidReference | WrfDecryptFailed

datatype WebhookEvent = EvPublished | EvUpdated | EvRestored | EvDeleted | EvFeedback | EvResolved

record WebhookDelivery =
  wd_id :: string
  wd_org :: string
  wd_url :: string
  wd_label :: string
  wd_events :: "WebhookEvent list"

definition event_from_name :: "string \<Rightarrow> WebhookEvent option" where
  "event_from_name value =
     (if value = ''published'' then Some EvPublished
      else if value = ''updated'' then Some EvUpdated
      else if value = ''restored'' then Some EvRestored
      else if value = ''deleted'' then Some EvDeleted
      else if value = ''feedback'' then Some EvFeedback
      else if value = ''resolved'' then Some EvResolved
      else None)"

text \<open>
  The tables, and the advisory results recorded on webhooks (\<open>None\<close> for success). Recording can
  fail without effect on the turn, so only the attempts are logged.
\<close>

record world =
  w_outbox :: outbox_db
  w_webhook_log :: "(string \<times> string option) list"

text \<open>
  The ports of a worker. \<open>p_decode\<close> is \<open>DeliveryEnvelopeV1::decode_canonical\<close>; \<open>p_discord_request\<close>
  resolves the preview and renders the request body; \<open>p_now k\<close> is the clock at the k-th reading
  of a turn; \<open>p_others k\<close> is what the transactions that other workers, producers and tasks
  commit between the claim and the turn's own k-th transaction after it (1 records a rate limit, 2
  settles the lease) make of the tables.
\<close>

record 'env worker_ports =
  p_worker_id :: string
  p_sha :: "bytes \<Rightarrow> string"
  p_now :: "nat \<Rightarrow> int"
  p_decode :: "DeliveryRecord \<Rightarrow> WebhookEvent \<Rightarrow> 'env option"
  p_discord_request :: "DeliveryRecord \<Rightarrow> 'env \<Rightarrow> (string \<times> bytes) option"
  p_delivery :: "string \<Rightarrow> string \<Rightarrow> WebhookResolutionFailure + WebhookDelivery"
  p_execution_url :: "string \<Rightarrow> string option \<Rightarrow> TerminalReason + string"
  p_deliver :: "ProviderRequest \<Rightarrow> DeliveryClassification"
  p_discussion :: "DeliveryRecord \<Rightarrow> world \<Rightarrow> unit result \<times> world"
  p_others :: "nat \<Rightarrow> outbox_db \<Rightarrow> outbox_db"

definition interleave :: "'env worker_ports \<Rightarrow> nat \<Rightarrow> world \<Rightarrow> world" where
  "interleave p k w = w\<lparr>w_outbox := p_others p k (w_outbox w)\<rparr>"

definition guarded :: "(bool \<times> outbox_db) result \<Rightarrow> string \<Rightarrow> world \<Rightarrow> unit result \<times> world" where
  "guarded res operation w =
     (case res of
        Inl e \<Rightarrow> (Inl e, w)
      | Inr (True, db) \<Rightarrow> (Inr (), w\<lparr>w_outbox := db\<rparr>)
      | Inr (False, db) \<Rightarrow>
          (Inl (Conflict (''outbox guarded '' @ operation @ '' lost lease'')), w\<lparr>w_outbox := db\<rparr>))"

definition lease_token_of :: "DeliveryRecord \<Rightarrow> string" where
  "lease_token_of record = (case d_lease_token record of None \<Rightarrow> [] | Some t \<Rightarrow> t)"

definition worker_accept ::
    "'env worker_ports \<Rightarrow> DeliveryRecord \<Rightarrow> string \<Rightarrow> world \<Rightarrow> unit result \<times> world" where
  "worker_accept p record message w =
     (let w' = interleave p 2 w
      in guarded (accepted (w_outbox w') (d_id record) (p_worker_id p) (lease_token_of record)
               (d_lease_version record) message (p_now p 3)) ''accepted'' w')"

definition worker_dead_letter ::
    "'env worker_ports \<Rightarrow> DeliveryRecord \<Rightarrow> string \<Rightarrow> bool \<Rightarrow> world \<Rightarrow> unit result \<times> world" where
  "worker_dead_letter p record class duplicate_risk w =
     (let w' = interleave p 2 w
      in guarded (dead_letter (w_outbox w') (d_id record) (p_worker_id p) (lease_token_of record)
               (d_lease_version record)
               \<lparr> dl_classification = class, dl_error = class, dl_duplicate_risk = duplicate_risk \<rparr>
               (p_now p 3)) ''dead-letter'' w')"

definition worker_retry_or_exhaust ::
    "'env worker_ports \<Rightarrow> DeliveryRecord \<Rightarrow> string \<Rightarrow> bool \<Rightarrow> int \<Rightarrow> world \<Rightarrow> unit result \<times> world" where
  "worker_retry_or_exhaust p record class duplicate_risk delay w =
     (if MAX_ATTEMPTS \<le> d_attempts record
      then worker_dead_letter p record ''attempts_exhausted'' duplicate_risk w
      else let w' = interleave p 2 w
           in guarded (retry (w_outbox w') (d_id record) (p_worker_id p) (lease_token_of record)
             (d_lease_version record)
             \<lparr> rt_next_attempt_at = i64_saturating_add (p_now p 2) (i64_try_from_or_max delay),
               rt_classification = class, rt_duplicate_risk = duplicate_risk \<rparr>
             (p_now p 3)) ''retry'' w')"

text \<open>Which delay of the outcome is persisted, if any.\<close>

definition persisted_delay :: "DeliveryClassification \<Rightarrow> RateLimitMetadata \<Rightarrow> int option" where
  "persisted_delay outcome rate =
     (case outcome of
        DcRetry reason d rl \<Rightarrow> if reason = RrRateLimited then rl_retry_after_ms rate else None
      | DcAccepted m rl \<Rightarrow> if rl_remaining rate = Some 0 then rl_reset_after_ms rate else Some 0
      | DcTerminal r \<Rightarrow> None)"

definition worker_persist_rate_limit ::
    "'env worker_ports \<Rightarrow> DeliveryRecord \<Rightarrow> DeliveryClassification \<Rightarrow> world \<Rightarrow> unit result \<times> world" where
  "worker_persist_rate_limit p record outcome w =
     (case rate_metadata outcome of
        None \<Rightarrow> (Inr (), w)
      | Some rate \<Rightarrow>
          (case persisted_delay outcome rate of
             None \<Rightarrow> (Inr (), w)
           | Some delay \<Rightarrow>
               let (scope, target, bucket, secret) =
                     (case rl_scope rate of
                        Some ScopeGlobal \<Rightarrow> (''global'', [], [], [])
                      | Some ScopeUser \<Rightarrow> (''target'', d_target_key record, [], [])
                      | _ \<Rightarrow> (''bucket'', d_target_key record,
                               case rl_bucket rate of Some b \<Rightarrow> b | None \<Rightarrow> d_bucket_id record,
                               d_secret_ref record));
                   w' = interleave p 1 w
               in case persist_rate_limit (w_outbox w') scope target bucket secret
                         (i64_saturating_add (p_now p 1) (i64_try_from_or_max delay)) (p_now p 4) of
                    Inl e \<Rightarrow> (Inl e, w')
                  | Inr db \<Rightarrow> (Inr (), w'\<lparr>w_outbox := db\<rparr>)))"

definition record_webhook_result :: "string \<Rightarrow> string option \<Rightarrow> world \<Rightarrow> world" where
  "record_webhook_result aid outcome w = w\<lparr>w_webhook_log := w_webhook_log w @ [(aid, outcome)]\<rparr>"

datatype EventExit =
    ExitDeadLetter string
  | ExitRetry (exit_class: string) (exit_duplicate_risk: bool) (exit_delay: int)

definition decode_event :: "'env worker_ports \<Rightarrow> DeliveryRecord \<Rightarrow> string + 'env \<times> string" where
  "decode_event p record =
     (if \<not> verify_payload_hash (p_sha p) record then Inl ''payload_hash_mismatch''
      else case event_from_name (d_event_type record) of
             None \<Rightarrow> Inl ''validation_failed''
           | Some event \<Rightarrow>
               (case p_decode p record event of
                  None \<Rightarrow> Inl ''validation_failed''
                | Some envelope \<Rightarrow>
                    (case strip_prefix (d_secret_ref record) ''webhook:'' of
                       None \<Rightarrow> Inl ''invalid_secret''
                     | Some webhook_id \<Rightarrow>
                         if webhook_id = [] then Inl ''invalid_secret'' else Inr (envelope, webhook_id))))"

definition resolve_webhook ::
    "'env worker_ports \<Rightarrow> DeliveryRecord \<Rightarrow> string \<Rightarrow> EventExit + WebhookDelivery" where
  "resolve_webhook p record webhook_id =
     (case p_delivery p webhook_id (d_tenant record) of
        Inl WrfRetryable \<Rightarrow> Inl (ExitRetry ''network'' True (backoff (d_attempts record)))
      | Inl WrfInvalidReference \<Rightarrow> Inl (ExitDeadLetter ''invalid_webhook'')
      | Inl WrfDecryptFailed \<Rightarrow> Inl (ExitDeadLetter ''decrypt_failed'')
      | Inr webhook \<Rightarrow>
          if wd_id webhook \<noteq> webhook_id \<or> wd_org webhook \<noteq> d_tenant record
             \<or> d_target_key record \<noteq> webhook_id
          then Inl (ExitDeadLetter ''invalid_webhook'')
          else Inr webhook)"

definition provider_request ::
    "'env worker_ports \<Rightarrow> string \<Rightarrow> string option \<Rightarrow> string \<Rightarrow> string \<Rightarrow> bytes \<Rightarrow>
     TerminalReason + ProviderRequest" where
  "provider_request p webhook_url thread_id webhook_ref content_type payload =
     (if \<not> valid_webhook_ref webhook_ref then Inl TrInvalidSecret
      else case p_execution_url p webhook_url thread_id of
             Inl reason \<Rightarrow> Inl reason
           | Inr url \<Rightarrow> Inr \<lparr> pr_url = url, pr_webhook_ref = webhook_ref,
               pr_content_type = content_type, pr_payload = payload \<rparr>)"

definition build_event_request ::
    "'env worker_ports \<Rightarrow> DeliveryRecord \<Rightarrow> 'env \<Rightarrow> WebhookDelivery \<Rightarrow> string + ProviderRequest" where
  "build_event_request p record envelope webhook =
     (case p_discord_request p record envelope of
        None \<Rightarrow> Inl ''validation_failed''
      | Some (content_type, body) \<Rightarrow>
          (case provider_request p (wd_url webhook) None (d_secret_ref record) content_type body of
             Inl reason \<Rightarrow> Inl (terminal_code reason)
           | Inr request \<Rightarrow> Inr request))"

definition settle_event ::
    "'env worker_ports \<Rightarrow> DeliveryRecord \<Rightarrow> EventExit \<Rightarrow> world \<Rightarrow> unit result \<times> world" where
  "settle_event p record ex w =
     (case ex of
        ExitDeadLetter class \<Rightarrow> worker_dead_letter p record class False w
      | ExitRetry class duplicate_risk delay \<Rightarrow>
          worker_retry_or_exhaust p record class duplicate_risk delay w)"

definition apply_event_outcome ::
    "'env worker_ports \<Rightarrow> DeliveryRecord \<Rightarrow> WebhookDelivery \<Rightarrow> DeliveryClassification \<Rightarrow> world \<Rightarrow>
     unit result \<times> world" where
  "apply_event_outcome p record webhook outcome w =
     (case outcome of
        DcAccepted message rl \<Rightarrow>
          (case worker_accept p record message w of
             (Inl e, w') \<Rightarrow> (Inl e, w')
           | (Inr u, w') \<Rightarrow> (Inr (), record_webhook_result (wd_id webhook) None w'))
      | DcRetry reason duplicate_risk rl \<Rightarrow>
          (if reason = RrRateLimited
           then (case Option.bind rl rl_retry_after_ms of
                   None \<Rightarrow> (Inl (Validation ''rate_limited outcome missing retry_after''), w)
                 | Some delay \<Rightarrow> worker_retry_or_exhaust p record (retry_code reason)
                     (duplicate_risk = RiskPossible) delay w)
           else worker_retry_or_exhaust p record (retry_code reason) (duplicate_risk = RiskPossible)
                  (backoff (d_attempts record)) w)
      | DcTerminal reason \<Rightarrow>
          (case worker_dead_letter p record (terminal_code reason) False w of
             (Inl e, w') \<Rightarrow> (Inl e, w')
           | (Inr u, w') \<Rightarrow>
               (Inr (), record_webhook_result (wd_id webhook) (Some (terminal_code reason)) w')))"

definition process_event ::
    "'env worker_ports \<Rightarrow> DeliveryRecord \<Rightarrow> world \<Rightarrow> unit result \<times> world" where
  "process_event p record w =
     (case decode_event p record of
        Inl class \<Rightarrow> worker_dead_letter p record class False w
      | Inr (envelope, webhook_id) \<Rightarrow>
          (case resolve_webhook p record webhook_id of
             Inl ex \<Rightarrow> settle_event p record ex w
           | Inr webhook \<Rightarrow>
               (case build_event_request p record envelope webhook of
                  Inl class \<Rightarrow> worker_dead_letter p record class False w
                | Inr request \<Rightarrow>
                    let outcome = p_deliver p request
                    in case worker_persist_rate_limit p record outcome w of
                         (Inl e, w') \<Rightarrow> (Inl e, w')
                       | (Inr u, w') \<Rightarrow> apply_event_outcome p record webhook outcome w')))"

definition process ::
    "'env worker_ports \<Rightarrow> DeliveryRecord \<Rightarrow> world \<Rightarrow> unit result \<times> world" where
  "process p record w =
     (if d_delivery_kind record = ''event'' then process_event p record w
      else if d_delivery_kind record = DELIVERY_KIND_DISCUSSION_THREAD
              \<or> d_delivery_kind record = DELIVERY_KIND_DISCUSSION_MESSAGE
              \<or> d_delivery_kind record = DELIVERY_KIND_DISCUSSION_TOMBSTONE
      then p_discussion p record w
      else worker_dead_letter p record ''validation_failed'' False w)"

datatype WorkerTurn = Idle | Processed | Shutdown

text \<open>
  One turn. \<open>down1\<close> and \<open>down2\<close> are the two readings of the shutdown flag, \<open>token\<close> the fresh
  lease token of the claim.
\<close>

definition run_once ::
    "'env worker_ports \<Rightarrow> bool \<Rightarrow> bool \<Rightarrow> string \<Rightarrow> world \<Rightarrow> WorkerTurn result \<times> world" where
  "run_once p down1 down2 token w =
     (if down1 then (Inr Shutdown, w)
      else case claim_next (w_outbox w) (p_worker_id p) token (p_now p 0) of
             Inl e \<Rightarrow> (Inl e, w)
           | Inr (None, db) \<Rightarrow> (Inr Idle, w\<lparr>w_outbox := db\<rparr>)
           | Inr (Some record, db) \<Rightarrow>
               let w1 = w\<lparr>w_outbox := db\<rparr> in
               if down2 then
                 (case worker_retry_or_exhaust p record ''network'' False 1000 w1 of
                    (Inl e, w') \<Rightarrow> (Inl e, w')
                  | (Inr u, w') \<Rightarrow> (Inr Shutdown, w'))
               else
                 (case process p record w1 of
                    (Inl e, w') \<Rightarrow> (Inl e, w')
                  | (Inr u, w') \<Rightarrow> (Inr Processed, w')))"

section \<open>Settling a lease\<close>

definition held :: "'env worker_ports \<Rightarrow> DeliveryRecord \<Rightarrow> world \<Rightarrow> bool" where
  "held p record w \<longleftrightarrow>
     db_ok (w_outbox w) \<and>
     (\<exists>r \<in> set (ob_rows (w_outbox w)). d_attempts r = d_attempts record \<and>
        holds_lease (d_id record) (p_worker_id p) (lease_token_of record) (d_lease_version record) r)"

text \<open>No transaction of anyone else falls into the turn.\<close>

definition quiet :: "'env worker_ports \<Rightarrow> bool" where
  "quiet p \<longleftrightarrow> (\<forall>k db. p_others p k db = db)"

lemma quiet_interleave: "quiet p \<Longrightarrow> interleave p k w = w"
  by (simp add: quiet_def interleave_def)

text \<open>The lease of a turn: held, or spent by somebody else's transaction.\<close>

definition in_hand :: "'env worker_ports \<Rightarrow> DeliveryRecord \<Rightarrow> world \<Rightarrow> bool" where
  "in_hand p record w \<longleftrightarrow>
     held p record w \<or>
     \<not> quiet p \<and> db_ok (w_outbox w) \<and> spent (d_id record) (d_lease_version record) (w_outbox w)"



text \<open>
  The other end of a turn: its settlement found the lease spent. It reports the lost lease, writes
  nothing of its own, and leaves the status log alone.
\<close>

definition lost :: "'env worker_ports \<Rightarrow> DeliveryRecord \<Rightarrow> world \<Rightarrow> unit result \<times> world \<Rightarrow> bool" where
  "lost p record w out \<longleftrightarrow>
     \<not> quiet p \<and>
     (\<exists>operation. fst out = Inl (Conflict (''outbox guarded '' @ operation @ '' lost lease''))) \<and>
     (\<exists>db. w_outbox (snd out) = p_others p 2 db) \<and> w_webhook_log (snd out) = w_webhook_log w \<and>
     db_ok (w_outbox (snd out)) \<and> spent (d_id record) (d_lease_version record) (w_outbox (snd out))"








lemma retry_code_accepted: "is_ok (safe_retry_classification (retry_code r))"
  by (induction r) code_simp+

lemma terminal_code_accepted: "is_ok (safe_terminal_classification (terminal_code t))"
  by (induction t) code_simp+

lemma terminal_code_not_exhausted: "\<not> starts_with (terminal_code t) ''attempts_exhausted''"
  by (induction t) code_simp+

section \<open>What a provider outcome guarantees\<close>

text \<open>What the worker relies on in an outcome.\<close>

definition metadata_ok :: "RateLimitMetadata \<Rightarrow> bool" where
  "metadata_ok rl \<longleftrightarrow>
     (\<forall>d. rl_retry_after_ms rl = Some d \<longrightarrow> 1 \<le> d \<and> d \<le> MAX_RETRY_DELAY_MILLIS) \<and>
     (\<forall>d. rl_reset_after_ms rl = Some d \<longrightarrow> 1 \<le> d \<and> d \<le> MAX_RETRY_DELAY_MILLIS)"

fun outcome_ok :: "DeliveryClassification \<Rightarrow> bool" where
  "outcome_ok (DcAccepted m rl) \<longleftrightarrow> valid_snowflake m \<and> metadata_ok rl"
| "outcome_ok (DcRetry reason risk rl) \<longleftrightarrow>
     (risk = RiskNone \<longleftrightarrow> reason = RrRateLimited) \<and>
     (reason = RrRateLimited \<longrightarrow> (\<exists>m d. rl = Some m \<and> metadata_ok m \<and> rl_retry_after_ms m = Some d)) \<and>
     (reason \<noteq> RrRateLimited \<longrightarrow> rl = None)"
| "outcome_ok (DcTerminal reason) \<longleftrightarrow> True"

lemma classify_fault_ok: "outcome_ok (classify_fault f)"
  by (cases f) (simp_all add: classify_fault_def)

definition delay_ok :: "int option \<Rightarrow> bool" where
  "delay_ok d = (case d of None \<Rightarrow> True | Some x \<Rightarrow> 1 \<le> x \<and> x \<le> MAX_RETRY_DELAY_MILLIS)"

lemma delay_ok_seconds: "delay_ok (delay_millis_from_seconds seconds)"
  by (simp add: delay_ok_def delay_millis_from_seconds_def Let_def split: f64.splits)

lemma delay_ok_None: "delay_ok None"
  by (simp add: delay_ok_def)

lemma delay_ok_json: "delay_ok (delay_millis_from_json v)"
  by (simp add: delay_millis_from_json_def delay_ok_seconds delay_ok_None split: json.splits)

lemma delay_ok_max: "delay_ok a \<Longrightarrow> delay_ok b \<Longrightarrow> delay_ok (max_delay a b)"
  by (auto simp: delay_ok_def max_delay_def split: option.splits)

lemma delay_ok_bind: "(\<And>x. delay_ok (f x)) \<Longrightarrow> delay_ok (Option.bind m f)"
  by (cases m) (auto simp: delay_ok_def)

lemma delay_ok_text: "delay_ok (delay_millis_from_text v)"
  by (simp add: delay_millis_from_text_def delay_ok_bind delay_ok_seconds delay_ok_None)

lemma metadata_ok_delays: "metadata_ok rl \<longleftrightarrow> delay_ok (rl_retry_after_ms rl) \<and> delay_ok (rl_reset_after_ms rl)"
  by (auto simp: metadata_ok_def delay_ok_def split: option.splits)

lemma metadata_ok_response: "metadata_ok (rate_limit_metadata p response)"
  by (simp add: metadata_ok_delays rate_limit_metadata_def Let_def delay_ok_max delay_ok_bind
      delay_ok_json delay_ok_text)

lemma message_id_snowflake: "message_id rp body = Some m \<Longrightarrow> valid_snowflake m"
  by (auto simp: message_id_def split: if_splits option.splits json.splits)

lemma classify_http_ok: "outcome_ok (classify_http_response p response)"
  unfolding classify_http_response_def Let_def
  using metadata_ok_response [of p response] message_id_snowflake classify_fault_ok
  by (auto split: option.splits)

lemma deliver_ok: "outcome_ok (deliver execution_url p http request)"
  unfolding deliver_def Let_def
  using classify_http_ok classify_fault_ok by (simp split: HttpExchange.splits option.splits)

section \<open>Opaque keys\<close>

lemma byte_char_of: "n < 256 \<Longrightarrow> byte (char_of n) = n"
  by (simp add: byte_def)

lemma opaque_byte_lower:
  assumes "opaque_byte c" shows "ascii_lower c \<noteq> CHR '':'' \<and> ascii_lower c \<noteq> CHR ''/''"
proof -
  have "byte (ascii_lower c) \<noteq> 58 \<and> byte (ascii_lower c) \<noteq> 47"
  proof (cases "is_ascii_uppercase c")
    case True
    then have "byte (ascii_lower c) = byte c + 32"
      by (simp add: ascii_lower_def byte_char_of is_ascii_uppercase_def)
    with True show ?thesis by (simp add: is_ascii_uppercase_def)
  next
    case False
    with assms show ?thesis
      by (auto simp: ascii_lower_def opaque_byte_def is_ascii_alphanumeric_def is_ascii_digit_def
          is_ascii_lowercase_def is_ascii_uppercase_def byte_def)
  qed
  moreover have "byte (CHR '':'') = 58" "byte (CHR ''/'') = 47" by (simp_all add: byte_def)
  ultimately show ?thesis by metis
qed

lemma opaque_bucket_from_target:
  assumes "k \<noteq> []" and "length k \<le> 128" and "list_all opaque_byte k"
  shows "opaque_bucket_key k"
proof -
  have "\<forall>c \<in> set k. ascii_lower c \<noteq> CHR '':'' \<and> ascii_lower c \<noteq> CHR ''/''"
    using assms(3) opaque_byte_lower by (simp add: list_all_iff)
  then have low: "CHR '':'' \<notin> set (to_ascii_lowercase k)" "CHR ''/'' \<notin> set (to_ascii_lowercase k)"
    unfolding to_ascii_lowercase_def set_map by (metis imageE)+
  have "\<not> starts_with (to_ascii_lowercase k) ''http://''"
    using low(1) by (auto simp: starts_with_iff)
  moreover have "\<not> starts_with (to_ascii_lowercase k) ''https://''"
    using low(1) by (auto simp: starts_with_iff)
  moreover have "\<not> contains_str (to_ascii_lowercase k) ''/api/webhooks/''"
    using low(2) by (auto simp: contains_str_iff)
  moreover have "\<not> opaque_byte (CHR 0x00)" "\<not> opaque_byte (CHR 0x0D)" "\<not> opaque_byte (CHR 0x0A)"
    by code_simp+
  then have "\<not> list_ex (\<lambda>c. c = CHR 0x00 \<or> c = CHR 0x0D \<or> c = CHR 0x0A) k"
    using assms(3) by (auto simp: list_all_iff list_ex_iff)
  ultimately show ?thesis
    using assms by (simp add: opaque_bucket_key_def MAX_BUCKET_KEY_BYTES_def)
qed

section \<open>A turn settles its lease\<close>

lemma persist_keeps_leased:
  assumes "persist_rate_limit db scope target bucket secret until now = Inr db'"
    and "r \<in> set (ob_rows db)" and "d_state r = Leased"
  shows "r \<in> set (ob_rows db')"
proof -
  have "\<not> rebucket target secret r" using assms(3) by (auto simp: rebucket_def)
  then show ?thesis
    using assms(1,2)
    by (auto simp: persist_rate_limit_def result_simps Let_def set_sql_update split: if_splits)
qed

lemma persist_in_hand:
  assumes h: "in_hand p record w"
    and db: "persist_rate_limit (w_outbox w) scope target bucket secret until now = Inr db"
  shows "in_hand p record (w\<lparr>w_outbox := db\<rparr>)"
proof -
  have ok: "db_ok (w_outbox w)" using h by (auto simp: in_hand_def held_def)
  have ok': "db_ok db" by (rule persist_rate_limit_ok [OF db ok])
  from h show ?thesis
    unfolding in_hand_def
  proof
    assume "held p record w"
    then obtain r where "r \<in> set (ob_rows (w_outbox w))" "d_attempts r = d_attempts record"
      "holds_lease (d_id record) (p_worker_id p) (lease_token_of record) (d_lease_version record) r"
      by (auto simp: held_def)
    moreover from this have "r \<in> set (ob_rows db)"
      by (intro persist_keeps_leased [OF db]) (simp_all add: holds_lease_def)
    ultimately show "held p record (w\<lparr>w_outbox := db\<rparr>) \<or>
        \<not> quiet p \<and> db_ok (w_outbox (w\<lparr>w_outbox := db\<rparr>)) \<and>
        spent (d_id record) (d_lease_version record) (w_outbox (w\<lparr>w_outbox := db\<rparr>))"
      using ok' by (auto simp: held_def)
  next
    assume l: "\<not> quiet p \<and> db_ok (w_outbox w) \<and> spent (d_id record) (d_lease_version record) (w_outbox w)"
    then have "spent (d_id record) (d_lease_version record) db"
      using spent_step [OF step_rate_limit [OF db] ok] by blast
    with l ok' show "held p record (w\<lparr>w_outbox := db\<rparr>) \<or>
        \<not> quiet p \<and> db_ok (w_outbox (w\<lparr>w_outbox := db\<rparr>)) \<and>
        spent (d_id record) (d_lease_version record) (w_outbox (w\<lparr>w_outbox := db\<rparr>))"
      by simp
  qed
qed

text \<open>The identity of an event row that reached the send stage.\<close>

lemma sendable_identity:
  assumes "decode_event p record = Inr (env, wid)" and "resolve_webhook p record wid = Inr webhook"
    and "build_event_request p record env webhook = Inr request"
  shows "opaque_target_key (d_target_key record) \<and> opaque_bucket_key (d_target_key record) \<and>
    opaque_provider_secret_ref (d_secret_ref record)"
proof -
  have sp: "strip_prefix (d_secret_ref record) ''webhook:'' = Some wid" "wid \<noteq> []"
    using assms(1) by (auto simp: decode_event_def split: if_splits option.splits)
  have t: "d_target_key record = wid"
    using assms(2)
    by (auto simp: resolve_webhook_def split: sum.splits WebhookResolutionFailure.splits if_splits)
  have v: "valid_webhook_ref (d_secret_ref record)"
    using assms(3)
    by (auto simp: build_event_request_def provider_request_def split: option.splits sum.splits if_splits)
  have ob: "list_all opaque_byte wid" and len: "length (d_secret_ref record) \<le> 128"
    using v sp by (auto simp: valid_webhook_ref_def MAX_RATE_LIMIT_VALUE_BYTES_def split: option.splits)
  have "length wid \<le> 128" using sp(1) len by (auto simp: strip_prefix_Some_iff)
  then have "opaque_target_key wid" "opaque_bucket_key wid"
    using sp(2) ob by (auto simp: opaque_target_key_def MAX_TARGET_KEY_BYTES_def opaque_bucket_from_target)
  moreover have "opaque_provider_secret_ref (d_secret_ref record)"
    using sp ob len by (simp add: opaque_provider_secret_ref_def opaque_secret_ref_def MAX_SECRET_REF_BYTES_def)
  ultimately show ?thesis by (simp add: t)
qed

lemma saturating_add_nonneg: "0 \<le> a \<Longrightarrow> 0 \<le> b \<Longrightarrow> 0 \<le> i64_saturating_add a (i64_try_from_or_max b)"
  by (auto simp: i64_saturating_add_def i64_clamp_def i64_try_from_or_max_def i64_defs)

text \<open>The outcomes the provider port may return, for a well-formed bucket header.\<close>

definition sendable_outcome :: "DeliveryClassification \<Rightarrow> bool" where
  "sendable_outcome c \<longleftrightarrow> outcome_ok c \<and>
     (\<forall>rl b. rate_metadata c = Some rl \<and> rl_bucket rl = Some b \<longrightarrow> opaque_bucket_key b)"

text \<open>Recording the rate limit of an outcome succeeds, and costs neither the lease nor a leased row.\<close>

lemma persist_continues:
  assumes h: "in_hand p record w" "in_hand p record (interleave p 1 w)"
    and out: "sendable_outcome outcome" and now: "0 \<le> p_now p 1"
    and key: "opaque_target_key (d_target_key record)" "opaque_bucket_key (d_bucket_id record)"
      "opaque_provider_secret_ref (d_secret_ref record)"
  shows "\<exists>w'. worker_persist_rate_limit p record outcome w = (Inr (), w') \<and> in_hand p record w' \<and>
    w_webhook_log w' = w_webhook_log w \<and>
    (quiet p \<longrightarrow> (\<forall>r \<in> set (ob_rows (w_outbox w)). d_state r = Leased \<longrightarrow> r \<in> set (ob_rows (w_outbox w'))))"
proof (cases "Option.bind (rate_metadata outcome) (persisted_delay outcome)")
  case None
  then have "worker_persist_rate_limit p record outcome w = (Inr (), w)"
    by (auto simp: worker_persist_rate_limit_def split: option.splits)
  then show ?thesis using h(1) by simp
next
  case (Some delay)
  then obtain rate where rate: "rate_metadata outcome = Some rate" "persisted_delay outcome rate = Some delay"
    by (auto simp: bind_eq_Some_conv)
  have m: "metadata_ok rate"
    using out rate
    by (cases outcome) (auto simp: sendable_outcome_def rate_metadata_def persisted_delay_def split: if_splits)
  have d: "0 \<le> delay"
    using m rate(2) by (cases outcome) (auto simp: persisted_delay_def metadata_ok_def split: if_splits)
  let ?b = "case rl_bucket rate of Some b \<Rightarrow> b | None \<Rightarrow> d_bucket_id record"
  have b: "opaque_bucket_key ?b"
    using out rate(1) key(2) by (auto simp: sendable_outcome_def split: option.splits)
  define k where "k = (case rl_scope rate of
      Some ScopeGlobal \<Rightarrow> (''global'', [], [], [])
    | Some ScopeUser \<Rightarrow> (''target'', d_target_key record, [], [])
    | _ \<Rightarrow> (''bucket'', d_target_key record, ?b, d_secret_ref record))"
  obtain scope target bucket secret where k4: "k = (scope, target, bucket, secret)" by (cases k)
  have "is_ok (rate_limit_key scope target bucket secret)"
    using k4 key(1,3) b unfolding k_def
    by (auto simp: rate_limit_key_def split: option.splits RateLimitScope.splits)
  then obtain db where db: "persist_rate_limit (w_outbox (interleave p 1 w)) scope target bucket secret
      (i64_saturating_add (p_now p 1) (i64_try_from_or_max delay)) (p_now p 4) = Inr db"
    using saturating_add_nonneg [OF now d]
    by (cases "rate_limit_key scope target bucket secret")
      (auto simp: persist_rate_limit_def Let_def split: prod.splits)
  let ?w' = "(interleave p 1 w)\<lparr>w_outbox := db\<rparr>"
  have "worker_persist_rate_limit p record outcome w = (Inr (), ?w')"
    unfolding worker_persist_rate_limit_def Let_def
    using rate k4 db by (simp add: k_def [symmetric])
  moreover have "w_webhook_log ?w' = w_webhook_log w" by (simp add: interleave_def)
  moreover have "quiet p \<longrightarrow> (\<forall>r \<in> set (ob_rows (w_outbox w)). d_state r = Leased \<longrightarrow> r \<in> set (ob_rows db))"
    using persist_keeps_leased [OF db] by (auto simp: quiet_interleave)
  ultimately show ?thesis using persist_in_hand [OF h(2) db] by auto
qed












section \<open>A turn is a run of the queue\<close>







lemma claim_next_held:
  assumes ok: "db_ok db" and c: "claim_next db (p_worker_id p) token now = Inr (Some r, db')"
  shows "held p r (w\<lparr>w_outbox := db'\<rparr>) \<and> row_ok r \<and> r \<in> set (ob_rows db') \<and> d_state r = Leased \<and>
    holds_lease (d_id r) (p_worker_id p) (lease_token_of r) (d_lease_version r) r \<and>
    (\<exists>r0 \<in> set (ob_rows db). identity_cols r0 = identity_cols r)"
proof -
  have "claim_transaction db (p_worker_id p) token now = Inr (Some r, db')"
    using c by (auto simp: claim_next_def split: if_splits)
  then have ok': "db_ok db'" and cl: "claimed (maintained db now) now (p_worker_id p) token r db'"
    using claim_transaction_cases [OF ok, of "p_worker_id p" token now] by auto
  then obtain r1 where r1: "r1 \<in> set (ob_rows (maintained db now))" "r = lease_row (p_worker_id p) token now r1"
    and r: "r \<in> set (ob_rows db')"
    by (auto simp: claimed_def)
  obtain r0 where "r0 \<in> set (ob_rows db)" "row_run r0 r1"
    using maintained_all2 [OF ok, of now] r1(1) by (metis in_set_conv_nth list_all2_conv_all_nth)
  then have "\<exists>r0 \<in> set (ob_rows db). identity_cols r0 = identity_cols r"
    using r1(2) by (auto simp: row_run_def)
  moreover have "holds_lease (d_id r) (p_worker_id p) (lease_token_of r) (d_lease_version r) r"
    by (simp add: r1(2) lease_row_def holds_lease_def lease_token_of_def)
  moreover have "row_ok r" using ok' r by (simp add: db_ok_def rows_ok_def)
  ultimately show ?thesis using ok' r by (auto simp: held_def holds_lease_def)
qed


section \<open>What the provider answers is what is recorded\<close>

lemma settle_get_row:
  assumes ok: "db_ok db" and r: "r \<in> set (ob_rows db)"
    and g: "g r" "\<And>x. g x \<Longrightarrow> d_id x = d_id r" and f: "d_id (f r) = d_id r"
  shows "count_rows g (ob_rows db) = 1"
    and "get_row (db\<lparr>ob_rows := sql_update g f (ob_rows db)\<rparr>) (d_id r) = Some (f r)"
proof -
  have dist: "distinct (map d_id (ob_rows db))" using ok by (simp add: db_ok_def rows_ok_def)
  have eq: "g x \<longleftrightarrow> x = r" if "x \<in> set (ob_rows db)" for x
    using g distinct_ids_eq [OF dist that r] by blast
  have "count_rows g (ob_rows db) = count_rows (\<lambda>x. x = r) (ob_rows db)" by (rule count_rows_cong) (rule eq)
  then show "count_rows g (ob_rows db) = 1" using count_rows_unique [OF dist r] by simp
  have "sql_update g f (ob_rows db) = sql_update (\<lambda>x. x = r) f (ob_rows db)" by (rule sql_update_cong) (rule eq)
  then show "get_row (db\<lparr>ob_rows := sql_update g f (ob_rows db)\<rparr>) (d_id r) = Some (f r)"
    using get_row_update [of db r f, OF dist r f] by simp
qed

text \<open>A settlement that succeeded and left the row as \<open>Q\<close> says.\<close>

definition recorded :: "DeliveryRecord \<Rightarrow> (DeliveryRecord \<Rightarrow> bool) \<Rightarrow> unit result \<times> world \<Rightarrow> bool" where
  "recorded r Q out \<longleftrightarrow>
     fst out = Inr () \<and> (\<exists>r'. get_row (w_outbox (snd out)) (d_id r) = Some r' \<and> Q r')"

lemma recorded_mono: "recorded r Q out \<Longrightarrow> (\<And>r'. Q r' \<Longrightarrow> Q' r') \<Longrightarrow> recorded r Q' out"
  by (auto simp: recorded_def)

lemma recorded_then_log:
  "recorded r Q out \<Longrightarrow> recorded r Q (case out of (Inl e, w') \<Rightarrow> (Inl e, w')
     | (Inr u, w') \<Rightarrow> (Inr (), record_webhook_result aid res w'))"
  by (cases out; cases "fst out") (auto simp: recorded_def record_webhook_result_def)

text \<open>The claimed row itself is in the table, and nobody interferes.\<close>

definition holding :: "'env worker_ports \<Rightarrow> DeliveryRecord \<Rightarrow> world \<Rightarrow> bool" where
  "holding p r w \<longleftrightarrow>
     quiet p \<and> db_ok (w_outbox w) \<and> r \<in> set (ob_rows (w_outbox w)) \<and>
     holds_lease (d_id r) (p_worker_id p) (lease_token_of r) (d_lease_version r) r"

lemma guarded_recorded:
  assumes "res = Inr (count_rows g (ob_rows (w_outbox w)) = 1,
      (w_outbox w)\<lparr>ob_rows := sql_update g f (ob_rows (w_outbox w))\<rparr>)"
    and "holding p r w" and "g r" and "\<And>x. g x \<Longrightarrow> d_id x = d_id r" and "d_id (f r) = d_id r" and "Q (f r)"
  shows "recorded r Q (guarded res operation w)"
proof -
  have h: "db_ok (w_outbox w)" "r \<in> set (ob_rows (w_outbox w))" using assms(2) by (simp_all add: holding_def)
  note u = settle_get_row [of "w_outbox w" r g f, OF h assms(3,4,5)]
  show ?thesis by (simp add: assms(1) guarded_def recorded_def u assms(6))
qed

lemma accept_recorded:
  assumes "holding p r w"
  shows "recorded r (\<lambda>r'. d_state r' = Accepted \<and> d_discord_message_id r' = Some m) (worker_accept p r m w)"
proof -
  have q: "interleave p 2 w = w" using assms by (simp add: holding_def quiet_interleave)
  let ?u = "\<lparr> t_state = Accepted, t_now = p_now p 3, t_next_attempt_at = p_now p 3,
    t_classification = ''accepted'', t_message = m, t_error = [], t_duplicate_risk = False,
    t_requires_exhaustion = False \<rparr>"
  let ?g = "transition_guard (d_id r) (p_worker_id p) (lease_token_of r) (d_lease_version r) ?u"
  have res: "accepted (w_outbox w) (d_id r) (p_worker_id p) (lease_token_of r) (d_lease_version r) m (p_now p 3) =
      Inr (count_rows ?g (ob_rows (w_outbox w)) = 1,
        (w_outbox w)\<lparr>ob_rows := sql_update ?g (transition_row ?u ''accepted'') (ob_rows (w_outbox w))\<rparr>)"
    by (simp add: accepted_def transition_def transition_classification_def Let_def)
  show ?thesis
    unfolding worker_accept_def Let_def q
    by (rule guarded_recorded [OF res assms])
      (use assms in \<open>auto simp: holding_def transition_guard_def holds_lease_def transition_row_def\<close>)
qed

lemma dead_letter_recorded:
  assumes h: "holding p r w" and c: "is_ok (safe_terminal_classification class)"
    and "risk \<longrightarrow> class = ''attempts_exhausted''"
    and ex: "starts_with class ''attempts_exhausted'' \<longrightarrow> MAX_ATTEMPTS \<le> d_attempts r"
  shows "recorded r (\<lambda>r'. d_state r' = DeadLetter \<and> d_result_classification r' = class \<and>
    d_duplicate_risk r' = risk) (worker_dead_letter p r class risk w)"
proof -
  have q: "interleave p 2 w = w" using h by (simp add: holding_def quiet_interleave)
  have cl: "safe_terminal_classification class = Inr class"
    using c by (auto simp: safe_terminal_classification_def split: if_splits)
  let ?u = "\<lparr> t_state = DeadLetter, t_now = p_now p 3, t_next_attempt_at = p_now p 3,
    t_classification = class, t_message = [], t_error = class, t_duplicate_risk = risk,
    t_requires_exhaustion = starts_with class ''attempts_exhausted'' \<rparr>"
  let ?g = "transition_guard (d_id r) (p_worker_id p) (lease_token_of r) (d_lease_version r) ?u"
  have res: "dead_letter (w_outbox w) (d_id r) (p_worker_id p) (lease_token_of r) (d_lease_version r)
      \<lparr> dl_classification = class, dl_error = class, dl_duplicate_risk = risk \<rparr> (p_now p 3) =
      Inr (count_rows ?g (ob_rows (w_outbox w)) = 1,
        (w_outbox w)\<lparr>ob_rows := sql_update ?g (transition_row ?u class) (ob_rows (w_outbox w))\<rparr>)"
    using assms(3) cl by (simp add: dead_letter_def transition_def transition_classification_def Let_def)
  show ?thesis
    unfolding worker_dead_letter_def Let_def q
    by (rule guarded_recorded [OF res h])
      (use h ex in \<open>auto simp: holding_def transition_guard_def holds_lease_def transition_row_def\<close>)
qed

text \<open>The row after a retry that was granted, or refused because the attempts are exhausted.\<close>

definition retried ::
    "'env worker_ports \<Rightarrow> DeliveryRecord \<Rightarrow> string \<Rightarrow> bool \<Rightarrow> int \<Rightarrow> DeliveryRecord \<Rightarrow> bool" where
  "retried p r class risk delay r' \<longleftrightarrow>
     d_duplicate_risk r' = risk \<and>
     (if d_attempts r < MAX_ATTEMPTS
      then d_state r' = Retry \<and> d_result_classification r' = class \<and>
           d_next_attempt_at r' = i64_saturating_add (p_now p 2) (i64_try_from_or_max delay)
      else d_state r' = DeadLetter \<and> d_result_classification r' = ''attempts_exhausted'')"

lemma retry_recorded:
  assumes h: "holding p r w" and c: "is_ok (safe_retry_classification class)"
  shows "recorded r (retried p r class risk delay) (worker_retry_or_exhaust p r class risk delay w)"
proof (cases "MAX_ATTEMPTS \<le> d_attempts r")
  case True
  have x: "is_ok (safe_terminal_classification ''attempts_exhausted'')" by code_simp
  show ?thesis
    using True recorded_mono [OF dead_letter_recorded [OF h x, of risk]]
    by (simp add: worker_retry_or_exhaust_def retried_def)
next
  case False
  have q: "interleave p 2 w = w" using h by (simp add: holding_def quiet_interleave)
  have cl: "safe_retry_classification class = Inr class"
    using c by (auto simp: safe_retry_classification_def split: if_splits)
  let ?u = "\<lparr> rt_next_attempt_at = i64_saturating_add (p_now p 2) (i64_try_from_or_max delay),
    rt_classification = class, rt_duplicate_risk = risk \<rparr>"
  let ?g = "holds_lease (d_id r) (p_worker_id p) (lease_token_of r) (d_lease_version r)"
  have res: "retry (w_outbox w) (d_id r) (p_worker_id p) (lease_token_of r) (d_lease_version r) ?u (p_now p 3) =
      Inr (count_rows ?g (ob_rows (w_outbox w)) = 1,
        (w_outbox w)\<lparr>ob_rows := sql_update ?g (retry_row ?u class (p_now p 3)) (ob_rows (w_outbox w))\<rparr>)"
    using cl by (simp add: retry_def Let_def)
  have "recorded r (retried p r class risk delay) (guarded (retry (w_outbox w) (d_id r) (p_worker_id p)
      (lease_token_of r) (d_lease_version r) ?u (p_now p 3)) ''retry'' w)"
    by (rule guarded_recorded [OF res h])
      (use h False in \<open>auto simp: holding_def holds_lease_def retry_row_def retried_def Let_def\<close>)
  with False show ?thesis by (simp add: worker_retry_or_exhaust_def q Let_def)
qed

text \<open>What the row says after an outcome.\<close>

definition outcome_row :: "'env worker_ports \<Rightarrow> DeliveryRecord \<Rightarrow> DeliveryClassification \<Rightarrow> DeliveryRecord \<Rightarrow> bool" where
  "outcome_row p r outcome r' =
     (case outcome of
        DcAccepted m rl \<Rightarrow> d_state r' = Accepted \<and> d_discord_message_id r' = Some m
      | DcRetry reason risk rl \<Rightarrow>
          retried p r (retry_code reason) (risk = RiskPossible)
            (case rl of None \<Rightarrow> backoff (d_attempts r) | Some m \<Rightarrow> the (rl_retry_after_ms m)) r'
      | DcTerminal reason \<Rightarrow>
          d_state r' = DeadLetter \<and> d_result_classification r' = terminal_code reason \<and> \<not> d_duplicate_risk r')"

lemma apply_outcome_recorded:
  assumes h: "holding p r w" and out: "outcome_ok outcome"
  shows "recorded r (outcome_row p r outcome) (apply_event_outcome p r webhook outcome w)"
proof (cases outcome)
  case (DcAccepted m rl)
  show ?thesis
    using recorded_then_log [OF recorded_mono [OF accept_recorded [OF h, of m], of "outcome_row p r outcome"]] DcAccepted
    by (simp add: apply_event_outcome_def outcome_row_def)
next
  case (DcRetry reason risk rl)
  have "recorded r (retried p r (retry_code reason) (risk = RiskPossible) delay)
      (worker_retry_or_exhaust p r (retry_code reason) (risk = RiskPossible) delay w)" for delay
    by (rule retry_recorded [OF h retry_code_accepted])
  from recorded_mono [OF this, of _ "outcome_row p r outcome"] show ?thesis
    using DcRetry out by (auto simp: apply_event_outcome_def outcome_row_def)
next
  case (DcTerminal reason)
  have "recorded r (\<lambda>r'. d_state r' = DeadLetter \<and> d_result_classification r' = terminal_code reason \<and>
      d_duplicate_risk r' = False) (worker_dead_letter p r (terminal_code reason) False w)"
    using dead_letter_recorded [OF h terminal_code_accepted, of False reason] terminal_code_not_exhausted by simp
  from recorded_then_log [OF recorded_mono [OF this, of "outcome_row p r outcome"]] DcTerminal
  show ?thesis by (simp add: apply_event_outcome_def outcome_row_def)
qed

lemma process_event_recorded:
  assumes h: "holding p r w" and rok: "row_ok r" and now: "0 \<le> p_now p 1"
    and dec: "decode_event p r = Inr (env, wid)" and res: "resolve_webhook p r wid = Inr webhook"
    and req: "build_event_request p r env webhook = Inr request"
    and out: "sendable_outcome (p_deliver p request)"
  shows "recorded r (outcome_row p r (p_deliver p request)) (process_event p r w)"
proof -
  have hand: "in_hand p r w" using h by (auto simp: in_hand_def held_def holding_def)
  then have hand1: "in_hand p r (interleave p 1 w)" using h by (simp add: holding_def quiet_interleave)
  have leased: "d_state r = Leased" using h by (simp add: holding_def holds_lease_def)
  have bucket: "d_bucket_id r = d_target_key r \<or> opaque_bucket_key (d_bucket_id r)"
    using rok by (simp add: row_ok_def)
  obtain w' where w': "worker_persist_rate_limit p r (p_deliver p request) w = (Inr (), w')" "in_hand p r w'"
      "quiet p \<longrightarrow> (\<forall>x \<in> set (ob_rows (w_outbox w)). d_state x = Leased \<longrightarrow> x \<in> set (ob_rows (w_outbox w')))"
    using persist_continues [OF hand hand1 out now] sendable_identity [OF dec res req] bucket by metis
  have "db_ok (w_outbox w')" using w'(2) by (auto simp: in_hand_def held_def)
  then have "holding p r w'" using h w'(3) leased by (auto simp: holding_def)
  then have "recorded r (outcome_row p r (p_deliver p request))
      (apply_event_outcome p r webhook (p_deliver p request) w')"
    by (rule apply_outcome_recorded) (use out in \<open>simp add: sendable_outcome_def\<close>)
  then show ?thesis using dec res req w'(1) by (simp add: process_event_def Let_def)
qed

text \<open>The delay a 429 answer asks for: the longer one of its body and its \<open>Retry-After\<close> header.\<close>

definition asked_delay :: "json_parser \<Rightarrow> (string \<times> string) list \<Rightarrow> bytes option \<Rightarrow> int option" where
  "asked_delay parse headers body =
     max_delay
       (Option.bind (Option.bind (parse (case body of None \<Rightarrow> [] | Some b \<Rightarrow> b)) (\<lambda>v. json_get v ''retry_after''))
          delay_millis_from_json)
       (Option.bind (List.find (\<lambda>(name, _). eq_ignore_ascii_case name ''retry-after'') headers)
          (\<lambda>(_, text). delay_millis_from_text text))"

lemma read_response_body_bounded:
  "read_response_body acc chunks = Some body \<Longrightarrow> int (length acc) \<le> MAX_RESPONSE_BODY_BYTES \<Longrightarrow>
   int (length body) \<le> MAX_RESPONSE_BODY_BYTES"
  by (induction acc chunks rule: read_response_body.induct) (auto split: if_splits)

lemma asked_delay_metadata:
  assumes "int (length (case body of None \<Rightarrow> [] | Some b \<Rightarrow> b)) \<le> MAX_RESPONSE_BODY_BYTES"
  shows "rl_retry_after_ms (rate_limit_metadata parse \<lparr> hr_status = status, hr_webhook_ref = ref, hr_headers = headers,
      hr_body = (case body of None \<Rightarrow> [] | Some b \<Rightarrow> b) \<rparr>) = asked_delay parse headers body"
  using assms
  by (cases "List.find (\<lambda>(name, _). eq_ignore_ascii_case name ''retry-after'') headers")
    (auto simp: rate_limit_metadata_def asked_delay_def Let_def header_def)

lemma asked_delay_bounds: "asked_delay parse headers body = Some d \<Longrightarrow> 1 \<le> d \<and> d \<le> MAX_RETRY_DELAY_MILLIS"
proof -
  have "delay_ok (asked_delay parse headers body)"
    by (simp add: asked_delay_def delay_ok_max delay_ok_bind delay_ok_json delay_ok_text case_prod_unfold)
  then show "asked_delay parse headers body = Some d \<Longrightarrow> 1 \<le> d \<and> d \<le> MAX_RETRY_DELAY_MILLIS"
    by (simp add: delay_ok_def)
qed

text \<open>The row that an HTTP exchange has to leave behind.\<close>

definition answer_row :: "'env worker_ports \<Rightarrow> json_parser \<Rightarrow> DeliveryRecord \<Rightarrow> HttpExchange \<Rightarrow> DeliveryRecord \<Rightarrow> bool" where
  "answer_row p parse r exchange r' =
     (case exchange of
        ExchangeTimeout \<Rightarrow> retried p r ''timeout'' True (backoff (d_attempts r)) r'
      | ExchangeFailed \<Rightarrow> retried p r ''network'' True (backoff (d_attempts r)) r'
      | ExchangeResponse status headers chunks in_time \<Rightarrow>
          let body = (if in_time then read_response_body [] chunks else None)
          in if 200 \<le> status \<and> status \<le> 299 then
               (case Option.bind body (message_id parse) of
                  Some m \<Rightarrow> d_state r' = Accepted \<and> d_discord_message_id r' = Some m \<and> valid_snowflake m
                | None \<Rightarrow> retried p r ''ambiguous'' True (backoff (d_attempts r)) r')
             else if status = 429 then
               (case asked_delay parse headers body of
                  Some d \<Rightarrow> retried p r ''rate_limited'' False d r' \<and> 1 \<le> d \<and> d \<le> MAX_RETRY_DELAY_MILLIS
                | None \<Rightarrow> d_state r' = DeadLetter \<and> d_result_classification r' = ''invalid_rate_limit_delay'')
             else if status = 500 \<or> status = 502 \<or> status = 503 \<or> status = 504 then
               retried p r ''server_error'' True (backoff (d_attempts r)) r'
             else d_state r' = DeadLetter \<and> \<not> d_duplicate_risk r')"

lemma answer_row_deliver:
  assumes "execution_url (pr_url request) None = Inr (pr_url request)" and "valid_webhook_ref (pr_webhook_ref request)"
    and "outcome_row p r (deliver execution_url parse http request) r'"
  shows "answer_row p parse r (http request) r'"
proof (cases "http request")
  case ExchangeTimeout
  then show ?thesis
    using assms by (simp add: answer_row_def deliver_def outcome_row_def classify_fault_def retry_code_def)
next
  case ExchangeFailed
  then show ?thesis
    using assms by (simp add: answer_row_def deliver_def outcome_row_def classify_fault_def retry_code_def)
next
  case (ExchangeResponse status headers chunks in_time)
  let ?body = "if in_time then read_response_body [] chunks else None"
  let ?resp = "\<lambda>b. \<lparr> hr_status = status, hr_webhook_ref = Some (pr_webhook_ref request), hr_headers = headers,
    hr_body = (case b of None \<Rightarrow> [] | Some b \<Rightarrow> b) \<rparr>"
  have ref: "has_webhook_ref \<lparr> hr_status = status, hr_webhook_ref = Some (pr_webhook_ref request),
      hr_headers = headers, hr_body = b \<rparr>" for b
    using assms(2) by (simp add: has_webhook_ref_def)
  consider (success) "200 \<le> status" "status \<le> 299" | (limited) "status = 429"
    | (server) "status = 500 \<or> status = 502 \<or> status = 503 \<or> status = 504"
    | (other) "\<not> (200 \<le> status \<and> status \<le> 299)" "status \<noteq> 429"
        "\<not> (status = 500 \<or> status = 502 \<or> status = 503 \<or> status = 504)"
    by blast
  then show ?thesis
  proof cases
    case success
    have "deliver execution_url parse http request =
        (case Option.bind ?body (message_id parse) of
           Some m \<Rightarrow> DcAccepted m (rate_limit_metadata parse (?resp ?body)) | None \<Rightarrow> classify_fault PfAmbiguous)"
      using ExchangeResponse assms(1) success ref
      by (auto simp: deliver_def classify_http_response_def Let_def split: option.splits)
    moreover have "valid_snowflake m" if "Option.bind ?body (message_id parse) = Some m" for m
      using that message_id_snowflake by (auto simp: bind_eq_Some_conv)
    ultimately show ?thesis
      using assms(3) ExchangeResponse success
      by (cases "Option.bind ?body (message_id parse)")
        (simp_all add: answer_row_def outcome_row_def classify_fault_def retry_code_def)
  next
    case limited
    have len: "int (length (case ?body of None \<Rightarrow> [] | Some b \<Rightarrow> b)) \<le> MAX_RESPONSE_BODY_BYTES"
      using read_response_body_bounded [of "[]" chunks]
      by (auto simp: MAX_RESPONSE_BODY_BYTES_def split: option.split)
    have "deliver execution_url parse http request = classify_http_response parse (?resp ?body)"
      using ExchangeResponse assms(1) limited by (auto simp: deliver_def Let_def split: option.splits)
    also have "\<dots> = (case asked_delay parse headers ?body of
        Some d \<Rightarrow> DcRetry RrRateLimited RiskNone (Some (rate_limit_metadata parse (?resp ?body)))
      | None \<Rightarrow> DcTerminal TrInvalidRateLimitDelay)"
      using limited ref asked_delay_metadata [OF len, of parse status "Some (pr_webhook_ref request)" headers]
      by (auto simp: classify_http_response_def Let_def dest: asked_delay_bounds split: option.splits)
    finally show ?thesis
      using assms(3) ExchangeResponse limited asked_delay_bounds [of parse headers ?body]
        asked_delay_metadata [OF len, of parse status "Some (pr_webhook_ref request)" headers]
      by (cases "asked_delay parse headers ?body")
        (simp_all add: answer_row_def outcome_row_def retry_code_def terminal_code_def)
  next
    case server
    then have "deliver execution_url parse http request = DcRetry RrServerError RiskPossible None"
      using ExchangeResponse assms(1) by (auto simp: deliver_def classify_http_response_def Let_def)
    then show ?thesis
      using assms(3) ExchangeResponse server by (auto simp: answer_row_def outcome_row_def retry_code_def Let_def)
  next
    case other
    then have "\<exists>reason. deliver execution_url parse http request = DcTerminal reason"
      using ExchangeResponse assms(1) by (auto simp: deliver_def classify_http_response_def Let_def)
    then show ?thesis
      using assms(3) ExchangeResponse other by (auto simp: answer_row_def outcome_row_def Let_def)
  qed
qed

text \<open>
  C27. What the provider answers is what the queue records. When a turn that nobody interferes with
  reaches the send stage, its row ends: accepted, only with a well-formed message id from a 2xx
  answer; retried with the duplicate risk marked, when the provider may have accepted the message (a
  2xx answer without a readable id, an unreadable or oversized body, a timeout, a failed request, a
  500, 502, 503 or 504); retried without that risk, not before the delay the provider asked for (the
  longer one of its body and header, between one millisecond and a day), after a 429; and dead-lettered
  otherwise, a 429 without a usable delay included. A retry of an exhausted delivery is
  dead-lettered instead. (The provider's bucket name is opaque, and its validated URL validates
  to itself.)
\<close>

theorem provider_answer_recorded:
  assumes "reachable sha (w_outbox w)" and "quiet p" and "0 \<le> p_now p 1"
    and "claim_next (w_outbox w) (p_worker_id p) token (p_now p 0) = Inr (Some r, db)"
    and "d_delivery_kind r = ''event''" and "decode_event p r = Inr (env, wid)"
    and "resolve_webhook p r wid = Inr webhook" and "build_event_request p r env webhook = Inr request"
    and "p_execution_url p (pr_url request) None = Inr (pr_url request)"
    and "p_deliver p request = deliver (p_execution_url p) parse http request"
    and "\<forall>rl b. rate_metadata (p_deliver p request) = Some rl \<and> rl_bucket rl = Some b \<longrightarrow> opaque_bucket_key b"
  shows "\<exists>w' r'. run_once p False False token w = (Inr Processed, w') \<and>
    get_row (w_outbox w') (d_id r) = Some r' \<and> answer_row p parse r (http request) r'"
proof -
  let ?w1 = "w\<lparr>w_outbox := db\<rparr>"
  note cl = claim_next_held [OF reachable_db_ok [OF assms(1)] assms(4), of w]
  have h: "holding p r ?w1" using cl assms(2) by (auto simp: holding_def held_def)
  have "sendable_outcome (p_deliver p request)"
    using assms(10,11) deliver_ok by (simp add: sendable_outcome_def)
  then have "recorded r (outcome_row p r (p_deliver p request)) (process_event p r ?w1)"
    using process_event_recorded [OF h _ assms(3,6,7,8)] cl by blast
  then obtain w' r' where w': "process_event p r ?w1 = (Inr (), w')" "get_row (w_outbox w') (d_id r) = Some r'"
      "outcome_row p r (p_deliver p request) r'"
    by (cases "process_event p r ?w1") (auto simp: recorded_def)
  have "valid_webhook_ref (pr_webhook_ref request)"
    using assms(8) by (auto simp: build_event_request_def provider_request_def split: option.splits sum.splits if_splits)
  then have "answer_row p parse r (http request) r'"
    using answer_row_deliver [of "p_execution_url p" request p r parse http r'] assms(9) w'(3) assms(10) by simp
  moreover have "run_once p False False token w = (Inr Processed, w')"
    using assms(4,5) w'(1) by (simp add: run_once_def process_def)
  ultimately show ?thesis using w'(2) by blast
qed

text \<open>
  A sample turn. In the contested one another process accepts the delivery with the same lease
  before the turn settles it.
\<close>

definition demo_rival :: "bool \<Rightarrow> nat \<Rightarrow> outbox_db \<Rightarrow> outbox_db" where
  "demo_rival contested k db =
     (if contested \<and> k = 2 then snd (projr (accepted db ''o1'' ''w1'' ''t1'' 1 ''m9'' 2500)) else db)"

definition demo_exchange :: "ProviderRequest \<Rightarrow> HttpExchange" where
  "demo_exchange req = ExchangeResponse 200 [(''x-ratelimit-bucket'', ''b7''), (''x-ratelimit-remaining'', ''0''),
     (''x-ratelimit-reset-after'', ''0.5'')] [Some ''{id:'', Some ''77}''] True"

definition demo_json :: json_parser where
  "demo_json body = (if body = ''{id:77}'' then Some (JObject [(''id'', JString ''77'')]) else None)"

definition demo_ports :: "bool \<Rightarrow> unit worker_ports" where
  "demo_ports contested = \<lparr> p_worker_id = ''w1'', p_sha = demo_sha, p_now = (\<lambda>k. 2000), p_decode = (\<lambda>r e. Some ()),
     p_discord_request = (\<lambda>r e. Some (''application/json'', ''{}'')),
     p_delivery = (\<lambda>i org. Inr \<lparr> wd_id = i, wd_org = org, wd_url = ''u'', wd_label = [], wd_events = [] \<rparr>),
     p_execution_url = (\<lambda>u t. Inr u),
     p_deliver = deliver (\<lambda>u t. Inr u) demo_json demo_exchange,
     p_discussion = (\<lambda>r w. (Inr (), w)), p_others = demo_rival contested \<rparr>"

definition demo_world :: world where
  "demo_world = \<lparr> w_outbox = demo_queued, w_webhook_log = [] \<rparr>"

lemma demo_rival_runs: "(outbox_step demo_sha)\<^sup>*\<^sup>* db (demo_rival contested k db)"
proof (cases "contested \<and> k = 2")
  case True
  obtain b db' where a: "accepted db ''o1'' ''w1'' ''t1'' 1 ''m9'' 2500 = Inr (b, db')"
    by (simp add: accepted_def transition_def transition_classification_def Let_def)
  then have "outbox_step demo_sha db (demo_rival contested k db)"
    using True step_accepted [OF a] by (simp add: demo_rival_def)
  then show ?thesis by blast
next
  case False
  then have "demo_rival contested k db = db" by (auto simp: demo_rival_def)
  then show ?thesis by simp
qed



lemma demo_hypotheses:
  "reachable demo_sha (w_outbox demo_world)" "trim (p_worker_id (demo_ports contested)) \<noteq> []" "trim ''t1'' \<noteq> []"
  "0 \<le> p_now (demo_ports contested) 1"
  "\<forall>r \<in> set (ob_rows (w_outbox demo_world)). d_delivery_kind r = ''event''"
  "\<forall>k db. (outbox_step demo_sha)\<^sup>*\<^sup>* db (p_others (demo_ports contested) k db)"
proof -
  show "reachable demo_sha (w_outbox demo_world)" by (simp add: demo_world_def demo_reachable(1))
  have "trim ''w1'' \<noteq> []" by code_simp
  then show "trim (p_worker_id (demo_ports contested)) \<noteq> []" by (simp add: demo_ports_def)
  show "trim ''t1'' \<noteq> []" by code_simp
  show "0 \<le> p_now (demo_ports contested) 1" by (simp add: demo_ports_def)
  show "\<forall>r \<in> set (ob_rows (w_outbox demo_world)). d_delivery_kind r = ''event''"
    by (simp add: demo_world_def demo_queued_def new_row_def demo_delivery_def)
  show "\<forall>k db. (outbox_step demo_sha)\<^sup>*\<^sup>* db (p_others (demo_ports contested) k db)"
    using demo_rival_runs by (simp add: demo_ports_def)
qed

lemma demo_world_claim:
  "claim_next (w_outbox demo_world) (p_worker_id (demo_ports contested)) ''t1'' (p_now (demo_ports contested) 0) =
     Inr (Some demo_leased_row, demo_leased)"
  using demo_claim by (simp add: demo_world_def demo_ports_def)


text \<open>A rate-limited answer: the body asks for 1.25 seconds, the header for 2.\<close>

definition limited_exchange :: "ProviderRequest \<Rightarrow> HttpExchange" where
  "limited_exchange req = ExchangeResponse 429 [(''Retry-After'', ''2'')] [Some ''{limited}''] True"

definition limited_json :: json_parser where
  "limited_json body = (if body = ''{limited}'' then Some (JObject [(''retry_after'', JNumber (Finite 5 (- 2)))]) else None)"

definition limited_ports :: "unit worker_ports" where
  "limited_ports = (demo_ports False)\<lparr>p_deliver := deliver (\<lambda>u t. Inr u) limited_json limited_exchange\<rparr>"

definition limited_request :: ProviderRequest where
  "limited_request = \<lparr> pr_url = ''u'', pr_webhook_ref = ''webhook:hook1'', pr_content_type = ''application/json'',
     pr_payload = ''{}'' \<rparr>"

theorem provider_answer_recorded_witness:
  "\<exists>w' r'. run_once limited_ports False False ''t1'' demo_world = (Inr Processed, w') \<and>
     get_row (w_outbox w') ''o1'' = Some r' \<and> d_state r' = Retry \<and> d_next_attempt_at r' = 4000 \<and>
     \<not> d_duplicate_risk r'"
proof -
  let ?p = limited_ports
  have c: "claim_next (w_outbox demo_world) (p_worker_id ?p) ''t1'' (p_now ?p 0) = Inr (Some demo_leased_row, demo_leased)"
    using demo_world_claim [of False] by (simp add: limited_ports_def demo_ports_def)
  have q: "quiet ?p" by (simp add: quiet_def limited_ports_def demo_ports_def demo_rival_def)
  have n: "0 \<le> p_now ?p 1" by (simp add: limited_ports_def demo_ports_def)
  have k: "d_delivery_kind demo_leased_row = ''event''" "decode_event ?p demo_leased_row = Inr ((), ''hook1'')"
    "d_id demo_leased_row = ''o1''" "d_attempts demo_leased_row < MAX_ATTEMPTS" by code_simp+
  obtain webhook where r: "resolve_webhook ?p demo_leased_row ''hook1'' = Inr webhook"
    and b: "build_event_request ?p demo_leased_row () webhook = Inr limited_request"
  proof -
    have "case resolve_webhook ?p demo_leased_row ''hook1'' of Inl _ \<Rightarrow> False
      | Inr webhook \<Rightarrow> build_event_request ?p demo_leased_row () webhook = Inr limited_request" by code_simp
    then show ?thesis using that by (auto split: sum.splits)
  qed
  have u: "p_execution_url ?p (pr_url limited_request) None = Inr (pr_url limited_request)"
    by (simp add: limited_ports_def demo_ports_def)
  have d: "p_deliver ?p limited_request = deliver (p_execution_url ?p) limited_json limited_exchange limited_request"
    by (simp add: limited_ports_def demo_ports_def)
  have "case rate_metadata (p_deliver ?p limited_request) of None \<Rightarrow> True | Some rl \<Rightarrow> rl_bucket rl = None" by code_simp
  then have o: "\<forall>rl b. rate_metadata (p_deliver ?p limited_request) = Some rl \<and> rl_bucket rl = Some b \<longrightarrow> opaque_bucket_key b"
    by (simp split: option.splits)
  obtain w' r' where w': "run_once ?p False False ''t1'' demo_world = (Inr Processed, w')"
      "get_row (w_outbox w') (d_id demo_leased_row) = Some r'"
      "answer_row ?p limited_json demo_leased_row (limited_exchange limited_request) r'"
    using provider_answer_recorded [OF demo_hypotheses(1) q n c k(1,2) r b u d o] by blast
  have "read_response_body [] [Some ''{limited}''] = Some ''{limited}''"
    "asked_delay limited_json [(''Retry-After'', ''2'')] (Some ''{limited}'') = Some 2000"
    "i64_saturating_add (p_now ?p 2) (i64_try_from_or_max 2000) = 4000" by code_simp+
  then have "retried ?p demo_leased_row ''rate_limited'' False 2000 r'"
    using w'(3) by (simp add: answer_row_def limited_exchange_def)
  then have "d_state r' = Retry \<and> d_next_attempt_at r' = 4000 \<and> \<not> d_duplicate_risk r'"
    using k(4) \<open>i64_saturating_add (p_now ?p 2) (i64_try_from_or_max 2000) = 4000\<close> by (simp add: retried_def)
  then show ?thesis using w'(1,2) k(3) by auto
qed

end
