(* ===== verification/Audit_Ledger.thy ===== *)
theory Audit_Ledger
  imports Access
begin

text \<open>
  The security audit ledger: src/src/security/audit/ (schema, encoding, chain, append, verify,
  receipts, retention, attribution).

  The four tables of migrations 025 and 026 are the state: the events and the checkpoints in the
  order of their primary keys, the singleton head row, and the receipts. HMAC-SHA256 under the
  ledger key, rendered in hex, is the parameter \<open>mac\<close>, SHA-256 in hex is \<open>sha\<close> (crates \<open>hmac\<close>,
  \<open>sha2\<close>, \<open>hex\<close>), SQLite's \<open>julianday\<close> is \<open>julian\<close>. Random identifiers and the clock are
  arguments. A function that runs inside a transaction returns the new tables, or an error, which
  rolls them back. Timestamps nothing reads (\<open>updated_at\<close>, \<open>created_at\<close>, \<open>finalized_at\<close>,
  \<open>pruned_at\<close>) are left out. \<open>prune_expired\<close> verifies the ledger before it opens its transaction; the
  model runs the verification and the pruning as one step, so an event that another connection
  appends between the two is not covered.

  This theory holds the definitions; Audit_Integrity holds what they satisfy.
\<close>

section \<open>Data (audit/schema.rs, audit/chain.rs, audit/receipts.rs)\<close>

definition VERSION :: int where "VERSION = 1"
definition DOMAIN :: bytes where "DOMAIN = ''artifact-mcp/security-audit/v1'' @ [CHR 0x00]"
definition KEY_ID :: string where "KEY_ID = ''v1''"

record AuditContext =
  ac_tenant :: string
  ac_actor_type :: string
  ac_actor_id :: string
  ac_actor_role :: string
  ac_source :: string
  ac_request_id :: string

record AuditEvent =
  ae_operation :: string
  ae_target_type :: string
  ae_target_id :: string
  ae_result :: string
  ae_classification :: string
  ae_revision :: "int option"

record AuditRow =
  ar_sequence :: int
  ar_event_id :: string
  ar_tenant :: string
  ar_operation :: string
  ar_target_type :: string
  ar_target_id :: string
  ar_result :: string
  ar_classification :: string
  ar_occurred_at :: string
  ar_event_hash :: string

text \<open>A row of \<open>security_audit_events\<close>; the actor and event columns are grouped.\<close>

record EventRow =
  er_sequence :: int
  er_event_id :: string
  er_key_id :: string
  er_version :: int
  er_context :: AuditContext
  er_event :: AuditEvent
  er_occurred_at :: string
  er_canonical :: bytes
  er_prev_hash :: string
  er_event_hash :: string

record CheckpointRow =
  ck_first :: int
  ck_last :: int
  ck_key_id :: string
  ck_version :: int
  ck_bridge :: string
  ck_prior :: string
  ck_hash :: string

record PersistedHead =
  ph_sequence :: int
  ph_key_id :: string
  ph_head_hash :: string
  ph_head_mac :: string
  ph_canonical_version :: int
  ph_pending_receipts_root :: string

record PersistedReceipt =
  rc_event_id :: "string option"
  rc_state :: string
  rc_correlation_id :: string
  rc_durability_intent_id :: string
  rc_context :: AuditContext
  rc_event :: AuditEvent
  rc_key_id :: string
  rc_canonical_version :: int
  rc_receipt_mac :: string

record ledger =
  al_events :: "EventRow list"
  al_checkpoints :: "CheckpointRow list"
  al_head :: "PersistedHead option"
  al_receipts :: "PersistedReceipt list"

section \<open>Encodings (audit/encoding.rs, audit/chain.rs)\<close>

text \<open>\<open>to_be_bytes\<close>: \<open>k\<close> bytes, most significant first.\<close>

fun be_bytes :: "nat \<Rightarrow> int \<Rightarrow> bytes" where
  "be_bytes 0 n = []"
| "be_bytes (Suc k) n = be_bytes k (n div 256) @ [char_of (nat (n mod 256))]"

lemma be_bytes_code [code]:
  "be_bytes k n = (if k = 0 then [] else be_bytes (k - 1) (n div 256) @ [char_of (n mod 256)])"
proof (cases k)
  case (Suc j)
  have "char_of (n mod 256) = (char_of (nat (n mod 256)) :: char)"
    by (metis char_of_nat int_nat_eq nat_0_le pos_mod_sign zero_less_numeral)
  then show ?thesis by (simp add: Suc)
qed simp

definition u32_max :: int where "u32_max = 4294967295"

definition part :: "bytes \<Rightarrow> bytes" where
  "part value = be_bytes 4 (if int (length value) \<le> u32_max then int (length value) else u32_max) @ value"

definition audit_id :: "string \<Rightarrow> bool \<Rightarrow> string result" where
  "audit_id value required =
     (let v = trim value in
      if required \<and> v = [] \<or> 100 < length v
         \<or> \<not> list_all (\<lambda>b. is_ascii_lowercase b \<or> is_ascii_digit b \<or> b = CHR ''.'' \<or> b = CHR ''_'' \<or> b = CHR ''-'') v
      then Inl (Validation ''audit fields must be server-controlled identifiers'')
      else Inr v)"

definition bounded :: "string \<Rightarrow> nat \<Rightarrow> string result" where
  "bounded value maximum =
     (let v = trim value in
      if maximum < length v \<or> List.member v (CHR 0x00) then Inl (Validation ''invalid audit context'')
      else Inr v)"

text \<open>The length-prefixed field list both encoders end with.\<close>

fun encode_fields :: "string list \<Rightarrow> bytes result" where
  "encode_fields [] = Inr []"
| "encode_fields (f # fs) =
     (if u32_max < int (length f) then Inl Internal
      else try_bind (encode_fields fs) (\<lambda>rest. Inr (be_bytes 4 (int (length f)) @ f @ rest)))"

definition revision_string :: "int option \<Rightarrow> string" where
  "revision_string r = (case r of None \<Rightarrow> [] | Some v \<Rightarrow> show_int v)"

definition canonical_admissible :: "AuditContext \<Rightarrow> AuditEvent \<Rightarrow> unit result" where
  "canonical_admissible context event =
     (if \<not> List.member [''api_key'', ''viewer'', ''system''] (ac_actor_type context)
         \<or> \<not> List.member [''mcp'', ''browser'', ''maintenance'', ''reconciliation''] (ac_source context)
         \<or> \<not> List.member [''success'', ''denied'', ''failure'', ''recovered''] (ae_result event)
      then Inl (Validation ''invalid server-derived audit context or result'')
      else
        let target_id = trim (ae_target_id event);
            target_type = to_ascii_lowercase (ae_target_type event)
        in if target_id \<noteq> [] \<and> contains_str target_type ''share''
           then Inl (Validation ''audit events must not retain share tokens'')
           else if target_id \<noteq> [] \<and> contains_str target_type ''webhook'' \<and> \<not> is_valid_webhook_id target_id
           then Inl (Validation ''audit events must not retain unvalidated webhook identifiers'')
           else Inr ())"

definition canonical_fields :: "string \<Rightarrow> AuditContext \<Rightarrow> AuditEvent \<Rightarrow> string \<Rightarrow> string list result" where
  "canonical_fields event_id context event occurred_at =
     collect_results
       [audit_id event_id True,
        audit_id KEY_ID True,
        bounded (ac_tenant context) 80,
        bounded (ac_actor_type context) 20,
        bounded (ac_actor_id context) 160,
        bounded (ac_actor_role context) 40,
        audit_id (ae_operation event) True,
        audit_id (ae_target_type event) True,
        audit_id (ae_target_id event) False,
        audit_id (ae_result event) True,
        audit_id (ae_classification event) False,
        bounded (ac_source context) 20,
        bounded (ac_request_id context) 120,
        audit_id (revision_string (ae_revision event)) False,
        Inr (trim occurred_at)]"

definition canonical :: "string \<Rightarrow> AuditContext \<Rightarrow> AuditEvent \<Rightarrow> string \<Rightarrow> bytes result" where
  "canonical event_id context event occurred_at =
     try_bind (canonical_admissible context event) (\<lambda>_.
     try_bind (canonical_fields event_id context event occurred_at) (\<lambda>fields.
     try_bind (encode_fields fields) (\<lambda>bytes. Inr (char_of (nat VERSION) # bytes))))"

record ReceiptMacInput =
  ri_correlation_id :: string
  ri_durability_intent_id :: string
  ri_state :: string
  ri_event_id :: string
  ri_context :: AuditContext
  ri_event :: AuditEvent
  ri_key_id :: string
  ri_canonical_version :: int

definition bad_receipt_identifier :: "string \<Rightarrow> bool" where
  "bad_receipt_identifier v \<longleftrightarrow> v = [] \<or> 240 < length v \<or> List.member v (CHR 0x00)"

definition canonical_receipt_bytes :: "ReceiptMacInput \<Rightarrow> bytes result" where
  "canonical_receipt_bytes input =
     try_bind (canonical ''receipt'' (ri_context input) (ri_event input) []) (\<lambda>_.
     if bad_receipt_identifier (ri_correlation_id input) \<or> bad_receipt_identifier (ri_durability_intent_id input)
     then Inl (Validation ''invalid audit receipt identifier'')
     else if \<not> List.member [''pending'', ''finalized''] (ri_state input)
             \<or> ri_state input = ''pending'' \<and> ri_event_id input \<noteq> []
             \<or> ri_state input = ''finalized'' \<and> ri_event_id input = []
     then Inl (Validation ''invalid audit receipt state'')
     else
       try_bind (audit_id (ri_event_id input) (ri_state input = ''finalized'')) (\<lambda>event_id.
       if ri_canonical_version input < 0 \<or> 255 < ri_canonical_version input then Inl Internal
       else
         try_bind (encode_fields
           [ri_correlation_id input, ri_durability_intent_id input, ri_state input, event_id,
            ac_tenant (ri_context input), ac_actor_type (ri_context input),
            ac_actor_id (ri_context input), ac_actor_role (ri_context input),
            ac_source (ri_context input), ac_request_id (ri_context input),
            ae_operation (ri_event input), ae_target_type (ri_event input),
            ae_target_id (ri_event input), ae_result (ri_event input),
            ae_classification (ri_event input), revision_string (ae_revision (ri_event input)),
            ri_key_id input, show_int (ri_canonical_version input)])
           (\<lambda>bytes. Inr (char_of (nat (ri_canonical_version input)) # bytes))))"

definition receipt_message :: "ReceiptMacInput \<Rightarrow> bytes result" where
  "receipt_message input =
     try_bind (canonical_receipt_bytes input) (\<lambda>c. Inr (DOMAIN @ ''receipt'' @ [CHR 0x00] @ c))"

definition receipt_mac ::
    "(bytes \<Rightarrow> string) \<Rightarrow> string \<Rightarrow> string \<Rightarrow> string \<Rightarrow> string \<Rightarrow> AuditContext \<Rightarrow> AuditEvent \<Rightarrow> string result" where
  "receipt_mac mac correlation_id durability_intent_id state event_id context event =
     try_bind (receipt_message \<lparr> ri_correlation_id = correlation_id,
         ri_durability_intent_id = durability_intent_id, ri_state = state, ri_event_id = event_id,
         ri_context = context, ri_event = event, ri_key_id = KEY_ID, ri_canonical_version = VERSION \<rparr>)
       (\<lambda>message. Inr (mac message))"

definition hash_message :: "int \<Rightarrow> string \<Rightarrow> bytes \<Rightarrow> bytes" where
  "hash_message sequence previous body =
     DOMAIN @ be_bytes 8 sequence @ part previous @ part body"

definition hash :: "(bytes \<Rightarrow> string) \<Rightarrow> int \<Rightarrow> string \<Rightarrow> bytes \<Rightarrow> string" where
  "hash mac sequence previous body = mac (hash_message sequence previous body)"

text \<open>\<open>ORDER BY receipt_mac\<close> compares bytes; equal codes are equal strings.\<close>

definition pending_receipts_root :: "(bytes \<Rightarrow> string) \<Rightarrow> ledger \<Rightarrow> string" where
  "pending_receipts_root sha l =
     (let receipts = sort (map rc_receipt_mac (filter (\<lambda>r. rc_state r = ''pending'') (al_receipts l)))
      in sha (DOMAIN @ ''pending-receipts'' @ [CHR 0x00] @ be_bytes 8 (int (length receipts)) @
              concat (map part receipts)))"

definition head_message :: "int \<Rightarrow> string \<Rightarrow> string \<Rightarrow> bytes" where
  "head_message sequence head pending_root =
     DOMAIN @ ''head'' @ [CHR 0x00] @ part KEY_ID @ [char_of (nat VERSION)] @ be_bytes 8 sequence @
     part head @ part pending_root"

definition head_mac :: "(bytes \<Rightarrow> string) \<Rightarrow> int \<Rightarrow> string \<Rightarrow> string \<Rightarrow> string" where
  "head_mac mac sequence head pending_root = mac (head_message sequence head pending_root)"

definition load_head :: "ledger \<Rightarrow> PersistedHead result" where
  "load_head l = (case al_head l of None \<Rightarrow> Inl Internal | Some h \<Rightarrow> Inr h)"

definition verify_head_mac :: "(bytes \<Rightarrow> string) \<Rightarrow> PersistedHead \<Rightarrow> int result" where
  "verify_head_mac mac head =
     (if ph_sequence head < 0 then Inl Internal
      else if ph_key_id head \<noteq> KEY_ID \<or> ph_canonical_version head \<noteq> VERSION
              \<or> ph_head_mac head \<noteq> head_mac mac (ph_sequence head) (ph_head_hash head) (ph_pending_receipts_root head)
      then Inl Internal
      else Inr (ph_sequence head))"

definition checkpoint_message :: "int \<Rightarrow> int \<Rightarrow> string \<Rightarrow> string \<Rightarrow> bytes" where
  "checkpoint_message first lst bridge previous =
     DOMAIN @ ''checkpoint'' @ [CHR 0x00] @ be_bytes 8 first @ be_bytes 8 lst @ part KEY_ID @
     [char_of (nat VERSION)] @ part bridge @ part previous"

definition checkpoint_mac :: "(bytes \<Rightarrow> string) \<Rightarrow> int \<Rightarrow> int \<Rightarrow> string \<Rightarrow> string \<Rightarrow> string" where
  "checkpoint_mac mac first lst bridge previous = mac (checkpoint_message first lst bridge previous)"

section \<open>Receipt verification (audit/receipts.rs)\<close>

text \<open>\<open>PersistedReceipt::event\<close>: a negative stored revision is an error.\<close>

definition receipt_event :: "PersistedReceipt \<Rightarrow> AuditEvent result" where
  "receipt_event r =
     (case ae_revision (rc_event r) of
        Some v \<Rightarrow> if v < 0 then Inl Internal else Inr (rc_event r)
      | None \<Rightarrow> Inr (rc_event r))"

definition is_hex_digit :: "char \<Rightarrow> bool" where
  "is_hex_digit c \<longleftrightarrow>
     is_ascii_digit c \<or> 97 \<le> byte c \<and> byte c \<le> 102 \<or> 65 \<le> byte c \<and> byte c \<le> 70"

lemma is_hex_digit_code [code]:
  "is_hex_digit c \<longleftrightarrow> is_ascii_digit c \<or> 97 \<le> (of_char c :: int) \<and> (of_char c :: int) \<le> 102
     \<or> 65 \<le> (of_char c :: int) \<and> (of_char c :: int) \<le> 70"
proof -
  have "(of_char c :: int) = int (byte c)" by (simp add: byte_def of_nat_of_char)
  then show ?thesis by (simp add: is_hex_digit_def)
qed

text \<open>
  \<open>hex::decode\<close>, the length check and \<open>verify_slice\<close>: the supplied text is 64 hex digits, in either
  case, that spell the tag \<open>mac message\<close> renders in lower case.
\<close>

definition verify_slice :: "string \<Rightarrow> string \<Rightarrow> bool" where
  "verify_slice tag supplied \<longleftrightarrow>
     length supplied = 64 \<and> list_all is_hex_digit supplied \<and> to_ascii_lowercase supplied = tag"

definition verify_receipt_snapshot :: "(bytes \<Rightarrow> string) \<Rightarrow> PersistedReceipt \<Rightarrow> unit result" where
  "verify_receipt_snapshot mac receipt =
     (if rc_key_id receipt \<noteq> KEY_ID \<or> rc_canonical_version receipt \<noteq> VERSION then Inl Internal
      else try_bind (receipt_event receipt) (\<lambda>event.
        case receipt_message \<lparr> ri_correlation_id = rc_correlation_id receipt,
               ri_durability_intent_id = rc_durability_intent_id receipt, ri_state = rc_state receipt,
               ri_event_id = (case rc_event_id receipt of None \<Rightarrow> [] | Some e \<Rightarrow> e),
               ri_context = rc_context receipt, ri_event = event, ri_key_id = rc_key_id receipt,
               ri_canonical_version = rc_canonical_version receipt \<rparr> of
          Inl e \<Rightarrow> Inl Internal
        | Inr message \<Rightarrow>
            if verify_slice (mac message) (rc_receipt_mac receipt) then Inr () else Inl Internal))"

fun verify_receipts :: "(bytes \<Rightarrow> string) \<Rightarrow> PersistedReceipt list \<Rightarrow> unit result" where
  "verify_receipts mac [] = Inr ()"
| "verify_receipts mac (r # rs) = try_bind (verify_receipt_snapshot mac r) (\<lambda>_. verify_receipts mac rs)"

definition verify_pending_receipts ::
    "(bytes \<Rightarrow> string) \<Rightarrow> (bytes \<Rightarrow> string) \<Rightarrow> ledger \<Rightarrow> unit result" where
  "verify_pending_receipts mac sha l =
     try_bind (load_head l) (\<lambda>head.
     try_bind (verify_head_mac mac head) (\<lambda>_.
     if ph_pending_receipts_root head \<noteq> pending_receipts_root sha l then Inl Internal
     else verify_receipts mac
            (sort_key rc_correlation_id (filter (\<lambda>r. rc_state r = ''pending'') (al_receipts l)))))"

definition unsealed :: "PersistedHead \<Rightarrow> bool" where
  "unsealed h \<longleftrightarrow>
     ph_sequence h = 0 \<and> ph_key_id h = ''v1'' \<and> ph_head_hash h = [] \<and> ph_head_mac h = [] \<and>
     ph_pending_receipts_root h = [] \<and> ph_canonical_version h = 1"

definition seal_head :: "(bytes \<Rightarrow> string) \<Rightarrow> (bytes \<Rightarrow> string) \<Rightarrow> ledger \<Rightarrow> ledger" where
  "seal_head mac sha l =
     (let pending_root = pending_receipts_root sha l in
      l\<lparr>al_head := map_option (\<lambda>h. if unsealed h
          then h\<lparr>ph_pending_receipts_root := pending_root, ph_head_mac := head_mac mac 0 [] pending_root\<rparr>
          else h) (al_head l)\<rparr>)"

definition initialize_head ::
    "(bytes \<Rightarrow> string) \<Rightarrow> (bytes \<Rightarrow> string) \<Rightarrow> ledger \<Rightarrow> ledger result" where
  "initialize_head mac sha l =
     (let l' = seal_head mac sha l
      in try_bind (verify_pending_receipts mac sha l') (\<lambda>_. Inr l'))"

section \<open>Appending (audit/append.rs)\<close>

text \<open>
  The column a \<open>u64\<close> revision is stored in: \<open>i64::try_from\<close> fails above the signed range. A value
  below zero is no \<open>u64\<close> and is rejected with them.
\<close>

definition revision_column :: "int option \<Rightarrow> int option result" where
  "revision_column r =
     (case r of None \<Rightarrow> Inr None | Some v \<Rightarrow> if v < 0 \<or> i64_max < v then Inl Internal else Inr (Some v))"

text \<open>\<open>INSERT\<close> into a table ordered by its primary key; both keys are unique.\<close>

definition insert_event :: "ledger \<Rightarrow> EventRow \<Rightarrow> ledger result" where
  "insert_event l row =
     (if list_ex (\<lambda>r. er_sequence r = er_sequence row \<or> er_event_id r = er_event_id row) (al_events l)
      then Inl Internal
      else Inr (l\<lparr>al_events := insort_key er_sequence row (al_events l)\<rparr>))"

definition append_in_transaction ::
    "(bytes \<Rightarrow> string) \<Rightarrow> (bytes \<Rightarrow> string) \<Rightarrow> ledger \<Rightarrow> string \<Rightarrow> AuditContext \<Rightarrow> AuditEvent \<Rightarrow> string \<Rightarrow>
     (AuditRow \<times> ledger) result" where
  "append_in_transaction mac sha l0 event_id context event occurred_at =
     try_bind (initialize_head mac sha l0) (\<lambda>l.
     try_bind (verify_pending_receipts mac sha l) (\<lambda>_.
     try_bind (load_head l) (\<lambda>old.
     try_bind (verify_head_mac mac old) (\<lambda>old_sequence.
     try_bind (if u64_max < old_sequence + 1 then Inl Internal else Inr (old_sequence + 1)) (\<lambda>sequence.
     try_bind (canonical event_id context event occurred_at) (\<lambda>bytes.
     let event_hash = hash mac sequence (ph_head_hash old) bytes in
     try_bind (revision_column (ae_revision event)) (\<lambda>revision.
     if i64_max < sequence then Inl Internal
     else
       try_bind (insert_event l
         \<lparr> er_sequence = sequence, er_event_id = event_id, er_key_id = ''v1'', er_version = 1,
           er_context = context, er_event = event\<lparr>ae_revision := revision\<rparr>,
           er_occurred_at = occurred_at, er_canonical = bytes, er_prev_hash = ph_head_hash old,
           er_event_hash = event_hash \<rparr>) (\<lambda>l'.
       let new_mac = head_mac mac sequence event_hash (ph_pending_receipts_root old)
       in Inr (\<lparr> ar_sequence = sequence, ar_event_id = event_id, ar_tenant = ac_tenant context,
                ar_operation = ae_operation event, ar_target_type = ae_target_type event,
                ar_target_id = ae_target_id event, ar_result = ae_result event,
                ar_classification = ae_classification event, ar_occurred_at = occurred_at,
                ar_event_hash = event_hash \<rparr>,
              l'\<lparr>al_head := Some (old\<lparr>ph_sequence := sequence, ph_key_id := ''v1'',
                   ph_head_hash := event_hash, ph_head_mac := new_mac\<rparr>)\<rparr>)))))))))"

section \<open>Verification (audit/verify.rs)\<close>

text \<open>The outcome is an error, a failed check (\<open>None\<close>), or the next sequence and the hash to link to.\<close>

fun verify_checkpoints ::
    "(bytes \<Rightarrow> string) \<Rightarrow> CheckpointRow list \<Rightarrow> int \<Rightarrow> string \<Rightarrow> string \<Rightarrow> (int \<times> string) option result" where
  "verify_checkpoints mac [] expected bridge previous = Inr (Some (expected, bridge))"
| "verify_checkpoints mac (c # cs) expected bridge previous =
     (if ck_first c < 0 \<or> ck_last c < 0 then Inl Internal
      else if ck_first c \<noteq> expected \<or> ck_last c < ck_first c \<or> ck_key_id c \<noteq> KEY_ID
              \<or> ck_version c \<noteq> VERSION \<or> ck_prior c \<noteq> previous
              \<or> ck_hash c \<noteq> checkpoint_mac mac (ck_first c) (ck_last c) (ck_bridge c) previous
      then Inr None
      else if u64_max < ck_last c + 1 then Inl Internal
      else verify_checkpoints mac cs (ck_last c + 1) (ck_bridge c) (ck_hash c))"

text \<open>A stored revision is read back as \<open>u64\<close>; a negative one becomes \<open>u64::MAX\<close>.\<close>

definition stored_event :: "AuditEvent \<Rightarrow> AuditEvent" where
  "stored_event e = e\<lparr>ae_revision := map_option (\<lambda>v. if v < 0 then u64_max else v) (ae_revision e)\<rparr>"

fun verify_events ::
    "(bytes \<Rightarrow> string) \<Rightarrow> EventRow list \<Rightarrow> int \<Rightarrow> string \<Rightarrow> (int \<times> string) option result" where
  "verify_events mac [] expected previous = Inr (Some (expected, previous))"
| "verify_events mac (r # rs) expected previous =
     (if er_sequence r < 0 then Inl Internal
      else if er_sequence r \<noteq> expected \<or> er_key_id r \<noteq> KEY_ID \<or> er_version r \<noteq> VERSION
              \<or> er_prev_hash r \<noteq> previous
      then Inr None
      else try_bind (canonical (er_event_id r) (er_context r) (stored_event (er_event r)) (er_occurred_at r))
        (\<lambda>bytes.
          if bytes \<noteq> er_canonical r \<or> hash mac (er_sequence r) previous (er_canonical r) \<noteq> er_event_hash r
          then Inr None
          else verify_events mac rs (expected + 1) (er_event_hash r)))"

definition verify_chain_head ::
    "(bytes \<Rightarrow> string) \<Rightarrow> (bytes \<Rightarrow> string) \<Rightarrow> ledger \<Rightarrow> int \<Rightarrow> string \<Rightarrow> bool result" where
  "verify_chain_head mac sha l expected previous =
     try_bind (load_head l) (\<lambda>head.
     let root = pending_receipts_root sha l
     in Inr (0 \<le> ph_sequence head \<and> ph_sequence head = expected - 1 \<and> ph_key_id head = KEY_ID \<and>
             ph_canonical_version head = VERSION \<and> ph_head_hash head = previous \<and>
             ph_pending_receipts_root head = root \<and>
             ph_head_mac head = head_mac mac (expected - 1) previous root))"

definition verify :: "(bytes \<Rightarrow> string) \<Rightarrow> (bytes \<Rightarrow> string) \<Rightarrow> ledger \<Rightarrow> bool result" where
  "verify mac sha l =
     try_bind (verify_checkpoints mac (al_checkpoints l) 1 [] []) (\<lambda>c.
     case c of
       None \<Rightarrow> Inr False
     | Some (expected, bridge) \<Rightarrow>
         try_bind (verify_events mac (al_events l) expected bridge) (\<lambda>e.
         case e of
           None \<Rightarrow> Inr False
         | Some (expected', previous) \<Rightarrow> verify_chain_head mac sha l expected' previous))"

section \<open>Receipts (audit/receipts.rs)\<close>

definition refresh_pending_receipts_root ::
    "(bytes \<Rightarrow> string) \<Rightarrow> (bytes \<Rightarrow> string) \<Rightarrow> ledger \<Rightarrow> ledger result" where
  "refresh_pending_receipts_root mac sha l =
     try_bind (load_head l) (\<lambda>head.
     try_bind (verify_head_mac mac head) (\<lambda>sequence.
     let new_root = pending_receipts_root sha l;
         new_mac = head_mac mac sequence (ph_head_hash head) new_root
     in Inr (l\<lparr>al_head := Some (head\<lparr>ph_pending_receipts_root := new_root, ph_head_mac := new_mac\<rparr>)\<rparr>)))"

definition receipt_by_correlation :: "ledger \<Rightarrow> string \<Rightarrow> PersistedReceipt option" where
  "receipt_by_correlation l c = List.find (\<lambda>r. rc_correlation_id r = c) (al_receipts l)"

definition receipt_by_intent :: "ledger \<Rightarrow> string \<Rightarrow> PersistedReceipt option" where
  "receipt_by_intent l i = List.find (\<lambda>r. rc_durability_intent_id r = i) (al_receipts l)"

text \<open>
  \<open>INSERT \<dots> ON CONFLICT(durability_intent_id) DO NOTHING\<close>: the correlation is the primary key, and
  a conflict on it alone is an error.
\<close>

definition reserve_receipt_in_transaction ::
    "(bytes \<Rightarrow> string) \<Rightarrow> (bytes \<Rightarrow> string) \<Rightarrow> ledger \<Rightarrow> string \<Rightarrow> string \<Rightarrow> AuditContext \<Rightarrow> AuditEvent \<Rightarrow>
     (bool \<times> ledger) result" where
  "reserve_receipt_in_transaction mac sha l0 correlation intent context event =
     try_bind (initialize_head mac sha l0) (\<lambda>l.
     try_bind (verify_pending_receipts mac sha l) (\<lambda>_.
     try_bind (canonical ''receipt'' context event []) (\<lambda>_.
     try_bind (revision_column (ae_revision event)) (\<lambda>revision.
     try_bind (receipt_mac mac correlation intent ''pending'' [] context event) (\<lambda>tag.
     if receipt_by_intent l intent \<noteq> None then Inr (False, l)
     else if receipt_by_correlation l correlation \<noteq> None then Inl Internal
     else
       let l' = l\<lparr>al_receipts := al_receipts l @
             [\<lparr> rc_event_id = None, rc_state = ''pending'', rc_correlation_id = correlation,
                rc_durability_intent_id = intent, rc_context = context,
                rc_event = event\<lparr>ae_revision := revision\<rparr>, rc_key_id = ''v1'',
                rc_canonical_version = 1, rc_receipt_mac = tag \<rparr>]\<rparr>
       in try_bind (refresh_pending_receipts_root mac sha l') (\<lambda>l''. Inr (True, l'')))))))"

definition event_by_id :: "ledger \<Rightarrow> string \<Rightarrow> EventRow option" where
  "event_by_id l i = List.find (\<lambda>r. er_event_id r = i) (al_events l)"

definition verify_finalized_event_projection :: "ledger \<Rightarrow> PersistedReceipt \<Rightarrow> unit result" where
  "verify_finalized_event_projection l receipt =
     (case rc_event_id receipt of
        None \<Rightarrow> Inl Internal
      | Some i \<Rightarrow>
          (case event_by_id l i of
             None \<Rightarrow> Inl Internal
           | Some p \<Rightarrow>
               if er_key_id p \<noteq> rc_key_id receipt \<or> er_context p \<noteq> rc_context receipt
                  \<or> er_event p \<noteq> rc_event receipt \<or> er_version p \<noteq> rc_canonical_version receipt
               then Inl Internal else Inr ()))"

definition audit_row_of :: "EventRow \<Rightarrow> AuditRow" where
  "audit_row_of r =
     \<lparr> ar_sequence = (if er_sequence r < 0 then 0 else er_sequence r), ar_event_id = er_event_id r,
       ar_tenant = ac_tenant (er_context r), ar_operation = ae_operation (er_event r),
       ar_target_type = ae_target_type (er_event r), ar_target_id = ae_target_id (er_event r),
       ar_result = ae_result (er_event r), ar_classification = ae_classification (er_event r),
       ar_occurred_at = er_occurred_at r, ar_event_hash = er_event_hash r \<rparr>"

definition pending_with :: "string \<Rightarrow> string \<Rightarrow> PersistedReceipt \<Rightarrow> bool" where
  "pending_with correlation tag r \<longleftrightarrow>
     rc_correlation_id r = correlation \<and> rc_state r = ''pending'' \<and> rc_receipt_mac r = tag"

text \<open>The guarded \<open>UPDATE\<close> that finalizes a receipt; \<open>event_id\<close> is unique among receipts.\<close>

definition finalize_receipts ::
    "string \<Rightarrow> string \<Rightarrow> string \<Rightarrow> string \<Rightarrow> AuditEvent \<Rightarrow> ledger \<Rightarrow> ledger result" where
  "finalize_receipts correlation tag event_id new_mac event l =
     (if count_rows (pending_with correlation tag) (al_receipts l) \<noteq> 1
         \<or> list_ex (\<lambda>r. rc_event_id r = Some event_id) (al_receipts l)
      then Inl Internal
      else Inr (l\<lparr>al_receipts := sql_update (pending_with correlation tag)
             (\<lambda>r. r\<lparr>rc_event_id := Some event_id, rc_state := ''finalized'', rc_event := event,
                     rc_receipt_mac := new_mac\<rparr>) (al_receipts l)\<rparr>))"

definition finalize_receipt_in_transaction ::
    "(bytes \<Rightarrow> string) \<Rightarrow> (bytes \<Rightarrow> string) \<Rightarrow> ledger \<Rightarrow> string \<Rightarrow> string \<Rightarrow> AuditContext \<Rightarrow> AuditEvent \<Rightarrow>
     string \<Rightarrow> ((AuditRow \<times> bool) \<times> ledger) result" where
  "finalize_receipt_in_transaction mac sha l correlation event_id context event occurred_at =
     try_bind (verify_pending_receipts mac sha l) (\<lambda>_.
     case receipt_by_correlation l correlation of
       None \<Rightarrow> Inl Internal
     | Some existing \<Rightarrow>
         try_bind (verify_receipt_snapshot mac existing) (\<lambda>_.
         try_bind (canonical ''receipt'' context event []) (\<lambda>_.
         try_bind (revision_column (ae_revision event)) (\<lambda>expected_revision.
         if rc_context existing \<noteq> context
            \<or> rc_event existing \<noteq> event\<lparr>ae_revision := expected_revision\<rparr>
         then Inl (Validation ''audit receipt context mismatch'')
         else if rc_state existing = ''finalized'' then
           try_bind (verify_finalized_event_projection l existing) (\<lambda>_.
             case Option.bind (rc_event_id existing) (event_by_id l) of
               None \<Rightarrow> Inl Internal
             | Some r \<Rightarrow> Inr ((audit_row_of r, True), l))
         else if rc_state existing \<noteq> ''pending'' then Inl Internal
         else
           try_bind (append_in_transaction mac sha l event_id context event occurred_at) (\<lambda>(row, l1).
           try_bind (receipt_mac mac (rc_correlation_id existing) (rc_durability_intent_id existing)
                       ''finalized'' event_id context event) (\<lambda>tag.
           try_bind (finalize_receipts correlation (rc_receipt_mac existing) event_id tag (rc_event existing) l1) (\<lambda>l2.
           try_bind (refresh_pending_receipts_root mac sha l2) (\<lambda>l3.
           Inr ((row, False), l3)))))))))"

definition finalize_reconciled_receipt_in_transaction ::
    "(bytes \<Rightarrow> string) \<Rightarrow> (bytes \<Rightarrow> string) \<Rightarrow> ledger \<Rightarrow> string \<Rightarrow> string \<Rightarrow> string \<Rightarrow> string \<Rightarrow> string \<Rightarrow>
     (bool \<times> ledger) result" where
  "finalize_reconciled_receipt_in_transaction mac sha l intent event_id outcome classification occurred_at =
     try_bind (verify_pending_receipts mac sha l) (\<lambda>_.
     case receipt_by_intent l intent of
       None \<Rightarrow> Inr (False, l)
     | Some receipt \<Rightarrow>
         if rc_state receipt \<noteq> ''pending'' \<or> \<not> List.member [''recovered'', ''failure''] outcome
         then Inl Internal
         else
           try_bind (verify_receipt_snapshot mac receipt) (\<lambda>_.
           try_bind (receipt_event receipt) (\<lambda>event0.
           let event = event0\<lparr>ae_result := outcome, ae_classification := classification\<rparr>;
               context = rc_context receipt
           in
           try_bind (append_in_transaction mac sha l event_id context event occurred_at) (\<lambda>(row, l1).
           try_bind
             (if outcome = ''failure''
              then (if count_rows (pending_with (rc_correlation_id receipt) (rc_receipt_mac receipt)) (al_receipts l1) \<noteq> 1
                    then Inl Internal
                    else Inr (l1\<lparr>al_receipts := sql_delete (pending_with (rc_correlation_id receipt) (rc_receipt_mac receipt))
                           (al_receipts l1)\<rparr>))
              else try_bind (receipt_mac mac (rc_correlation_id receipt) (rc_durability_intent_id receipt)
                       ''finalized'' event_id context event) (\<lambda>tag.
                   finalize_receipts (rc_correlation_id receipt) (rc_receipt_mac receipt) event_id tag
                     ((rc_event receipt)\<lparr>ae_result := outcome, ae_classification := classification\<rparr>) l1))
             (\<lambda>l2. try_bind (refresh_pending_receipts_root mac sha l2) (\<lambda>l3. Inr (True, l3)))))))"

definition verify_pending_receipt_in_transaction ::
    "(bytes \<Rightarrow> string) \<Rightarrow> (bytes \<Rightarrow> string) \<Rightarrow> ledger \<Rightarrow> string \<Rightarrow> unit result" where
  "verify_pending_receipt_in_transaction mac sha l intent =
     try_bind (verify_pending_receipts mac sha l) (\<lambda>_.
     case receipt_by_intent l intent of
       None \<Rightarrow> Inl Internal
     | Some receipt \<Rightarrow>
         if rc_state receipt \<noteq> ''pending'' then Inl Internal else verify_receipt_snapshot mac receipt)"

definition delete_pending_receipt_in_transaction ::
    "(bytes \<Rightarrow> string) \<Rightarrow> (bytes \<Rightarrow> string) \<Rightarrow> ledger \<Rightarrow> string \<Rightarrow> ledger result" where
  "delete_pending_receipt_in_transaction mac sha l intent =
     try_bind (verify_pending_receipt_in_transaction mac sha l intent) (\<lambda>_.
     case receipt_by_intent l intent of
       None \<Rightarrow> Inl Internal
     | Some receipt \<Rightarrow>
         let p = (\<lambda>r. rc_durability_intent_id r = intent \<and> rc_state r = ''pending'' \<and>
                      rc_receipt_mac r = rc_receipt_mac receipt)
         in if count_rows p (al_receipts l) \<noteq> 1 then Inl Internal
            else refresh_pending_receipts_root mac sha (l\<lparr>al_receipts := sql_delete p (al_receipts l)\<rparr>))"

section \<open>Attribution (audit/attribution.rs)\<close>

text \<open>Request ids come from a random source and are arguments.\<close>

record MutationAudit =
  ma_context :: AuditContext
  ma_request_id :: string

definition MutationAudit_publisher :: "PublisherIdentity \<Rightarrow> string \<Rightarrow> MutationAudit" where
  "MutationAudit_publisher publisher request_id =
     \<lparr> ma_context = \<lparr> ac_tenant = pi_org publisher, ac_actor_type = ''api_key'',
         ac_actor_id = pi_client_id publisher, ac_actor_role = Role_as_str (pi_role publisher),
         ac_source = ''mcp'', ac_request_id = request_id \<rparr>,
       ma_request_id = request_id \<rparr>"

definition viewer_with_request_id :: "Viewer \<Rightarrow> string \<Rightarrow> MutationAudit result" where
  "viewer_with_request_id viewer request_id =
     (case v_email viewer of
        None \<Rightarrow> Inl (Validation ''verified viewer identity required for audit'')
      | Some email \<Rightarrow>
          (case v_org viewer of
             None \<Rightarrow> Inl (Validation ''verified viewer organization required for audit'')
           | Some org \<Rightarrow>
               Inr \<lparr> ma_context = \<lparr> ac_tenant = org, ac_actor_type = ''viewer'', ac_actor_id = email,
                       ac_actor_role = (if v_is_admin viewer then ''admin'' else ''member''),
                       ac_source = ''browser'', ac_request_id = request_id \<rparr>,
                     ma_request_id = request_id \<rparr>))"

definition recovery :: "string \<Rightarrow> MutationAudit" where
  "recovery request_id =
     \<lparr> ma_context = \<lparr> ac_tenant = ''system'', ac_actor_type = ''system'', ac_actor_id = ''artifact-mcp'',
         ac_actor_role = [], ac_source = ''reconciliation'', ac_request_id = request_id \<rparr>,
       ma_request_id = request_id \<rparr>"

definition maintenance :: "string \<Rightarrow> MutationAudit" where
  "maintenance request_id =
     \<lparr> ma_context = \<lparr> ac_tenant = ''system'', ac_actor_type = ''system'', ac_actor_id = ''artifact-mcp'',
         ac_actor_role = [], ac_source = ''maintenance'', ac_request_id = request_id \<rparr>,
       ma_request_id = request_id \<rparr>"

definition admin_for_tenant :: "MutationAudit \<Rightarrow> string \<Rightarrow> MutationAudit result" where
  "admin_for_tenant a tenant =
     (if ac_actor_type (ma_context a) \<noteq> ''viewer'' \<or> ac_actor_role (ma_context a) \<noteq> ''admin''
      then Inl (Forbidden ''administrator audit context required'')
      else try_bind (audit_id tenant True) (\<lambda>t.
        Inr (a\<lparr>ma_context := (ma_context a)\<lparr>ac_tenant := t\<rparr>\<rparr>)))"

definition for_target_tenant :: "MutationAudit \<Rightarrow> string \<Rightarrow> MutationAudit result" where
  "for_target_tenant a tenant =
     (if ac_tenant (ma_context a) = tenant then Inr a else admin_for_tenant a tenant)"

text \<open>Re-scoping without a check, for the tenant of a persisted record.\<close>

definition for_affected_tenant :: "MutationAudit \<Rightarrow> string \<Rightarrow> MutationAudit" where
  "for_affected_tenant a tenant = a\<lparr>ma_context := (ma_context a)\<lparr>ac_tenant := tenant\<rparr>\<rparr>"

definition correlation :: "MutationAudit \<Rightarrow> string \<Rightarrow> string \<Rightarrow> int option \<Rightarrow> string" where
  "correlation a operation target_id revision =
     ''audit:'' @ operation @ '':'' @ target_id @ '':'' @
     (case revision of None \<Rightarrow> ''new'' | Some v \<Rightarrow> show_int v) @ '':'' @ ma_request_id a"

section \<open>Retention (audit/retention.rs)\<close>

text \<open>
  \<open>cutoff\<close> is the explicit or computed cutoff text; \<open>request_id\<close> and \<open>event_id\<close> are the fresh
  identifiers of the maintenance record.
\<close>

definition prune_context :: "string \<Rightarrow> AuditContext" where
  "prune_context request_id = (ma_context (recovery request_id))\<lparr>ac_source := ''maintenance''\<rparr>"

definition prune_event :: AuditEvent where
  "prune_event = \<lparr> ae_operation = ''audit.prune'', ae_target_type = ''audit_ledger'',
     ae_target_id = ''retention'', ae_result = ''success'', ae_classification = ''retention'',
     ae_revision = None \<rparr>"

definition expired :: "(string \<Rightarrow> ('j::linorder) option) \<Rightarrow> 'j \<Rightarrow> EventRow \<Rightarrow> bool" where
  "expired julian cutoff r = (case julian (er_occurred_at r) of None \<Rightarrow> False | Some t \<Rightarrow> t < cutoff)"

definition last_checkpoint_hash :: "ledger \<Rightarrow> string" where
  "last_checkpoint_hash l = (if al_checkpoints l = [] then [] else ck_hash (last (al_checkpoints l)))"

text \<open>The checkpoint of a non-empty expired prefix, and its deletion.\<close>

definition checkpoint_prefix ::
    "(bytes \<Rightarrow> string) \<Rightarrow> ledger \<Rightarrow> EventRow list \<Rightarrow> ledger" where
  "checkpoint_prefix mac l prefix =
     (let first = er_sequence (hd prefix); lst = er_sequence (last prefix);
          bridge = er_event_hash (last prefix); previous = last_checkpoint_hash l
      in l\<lparr>al_checkpoints := al_checkpoints l @
             [\<lparr> ck_first = first, ck_last = lst, ck_key_id = ''v1'', ck_version = 1,
                ck_bridge = bridge, ck_prior = previous,
                ck_hash = checkpoint_mac mac first lst bridge previous \<rparr>],
           al_events := sql_delete (\<lambda>r. first \<le> er_sequence r \<and> er_sequence r \<le> lst) (al_events l)\<rparr>)"

definition prune_expired ::
    "(bytes \<Rightarrow> string) \<Rightarrow> (bytes \<Rightarrow> string) \<Rightarrow> (string \<Rightarrow> ('j::linorder) option) \<Rightarrow> ledger \<Rightarrow> string \<Rightarrow> nat \<Rightarrow>
     string \<Rightarrow> string \<Rightarrow> string \<Rightarrow> (int \<times> ledger) result" where
  "prune_expired mac sha julian l cutoff batch_size request_id event_id occurred_at =
     try_bind (verify mac sha l) (\<lambda>ok.
     if \<not> ok then Inl (Validation ''audit ledger integrity verification failed before retention'')
     else case julian cutoff of
       None \<Rightarrow> Inl (Validation ''invalid audit retention cutoff'')
     | Some c \<Rightarrow>
         let batch = max 1 (min batch_size 1000);
             prefix = takeWhile (expired julian c) (take batch (al_events l))
         in if prefix = [] then Inr (0, l)
            else
              let l1 = checkpoint_prefix mac l prefix;
                  deleted = int (length (al_events l)) - int (length (al_events l1))
              in try_bind (append_in_transaction mac sha l1 event_id (prune_context request_id) prune_event occurred_at)
                   (\<lambda>(row, l2). Inr (deleted, l2)))"

end
