(* ===== verification/Audit_Integrity.thy ===== *)
theory Audit_Integrity
  imports Audit_Ledger Outbox_Invariants
begin

text \<open>
  What the audit ledger guarantees. Every operation of src/src/security/audit/ keeps the ledger
  verifiable, so every state the server reaches passes the full check of verify.rs; the check is
  tamper evident: two ledgers with the same head that both pass it hold the same events, unless
  two of their messages collide under the MAC. The canonical encoding determines the fields it
  was built from. Finalization is exactly once, and attribution never leaves its tenant without
  administrator authority.
\<close>

section \<open>Chains\<close>

lemma verify_events_append:
  "verify_events mac (rs @ qs) e p =
     (case verify_events mac rs e p of
        Inr (Some (e', p')) \<Rightarrow> verify_events mac qs e' p' | x \<Rightarrow> x)"
proof (induction rs arbitrary: e p)
  case Nil
  then show ?case by simp
next
  case (Cons r rs)
  show ?case
    by (cases "canonical (er_event_id r) (er_context r) (stored_event (er_event r)) (er_occurred_at r)")
      (simp_all add: Cons.IH)
qed

lemma verify_checkpoints_append:
  assumes "verify_checkpoints mac cs e b p = Inr (Some (e', b'))"
  shows "verify_checkpoints mac (cs @ ds) e b p =
     verify_checkpoints mac ds e' b' (if cs = [] then p else ck_hash (last cs))"
  using assms
proof (induction cs arbitrary: e b p)
  case Nil
  then show ?case by simp
next
  case (Cons c cs)
  then have v: "verify_checkpoints mac cs (ck_last c + 1) (ck_bridge c) (ck_hash c) = Inr (Some (e', b'))"
    and same: "verify_checkpoints mac ((c # cs) @ ds) e b p =
      verify_checkpoints mac (cs @ ds) (ck_last c + 1) (ck_bridge c) (ck_hash c)"
    by (simp_all split: if_splits)
  show ?case unfolding same Cons.IH [OF v] by simp
qed

text \<open>One accepted link.\<close>

definition link_ok :: "(bytes \<Rightarrow> string) \<Rightarrow> EventRow \<Rightarrow> int \<Rightarrow> string \<Rightarrow> bool" where
  "link_ok mac r e p \<longleftrightarrow>
     0 \<le> er_sequence r \<and> er_sequence r = e \<and> er_key_id r = KEY_ID \<and> er_version r = VERSION \<and>
     er_prev_hash r = p \<and>
     canonical (er_event_id r) (er_context r) (stored_event (er_event r)) (er_occurred_at r) = Inr (er_canonical r) \<and>
     er_event_hash r = hash mac e p (er_canonical r)"

lemma verify_events_Cons:
  "verify_events mac (r # rs) e p = Inr (Some q) \<longleftrightarrow>
     link_ok mac r e p \<and> verify_events mac rs (e + 1) (er_event_hash r) = Inr (Some q)"
  by (auto simp: link_ok_def result_simps split: if_splits)

lemma verify_events_end:
  "verify_events mac rs e p = Inr (Some (e', p')) \<Longrightarrow>
     e' = e + int (length rs) \<and> p' = (if rs = [] then p else er_event_hash (last rs)) \<and>
     (\<forall>k < length rs. er_sequence (rs ! k) = e + int k)"
proof (induction rs arbitrary: e p)
  case Nil
  then show ?case by simp
next
  case (Cons r rs)
  then have l: "link_ok mac r e p" and v: "verify_events mac rs (e + 1) (er_event_hash r) = Inr (Some (e', p'))"
    by (simp_all add: verify_events_Cons del: verify_events.simps)
  have "er_sequence ((r # rs) ! k) = e + int k" if "k < length (r # rs)" for k
    using that Cons.IH [OF v] l by (cases k) (auto simp: link_ok_def)
  with Cons.IH [OF v] show ?case by auto
qed

section \<open>Verified ledgers\<close>

text \<open>The part of the check that does not read the receipts.\<close>

definition chain_ok :: "(bytes \<Rightarrow> string) \<Rightarrow> ledger \<Rightarrow> bool" where
  "chain_ok mac l \<longleftrightarrow>
     (\<exists>e b e' p h. verify_checkpoints mac (al_checkpoints l) 1 [] [] = Inr (Some (e, b)) \<and>
        verify_events mac (al_events l) e b = Inr (Some (e', p)) \<and> al_head l = Some h \<and>
        verify_head_mac mac h = Inr (e' - 1) \<and> ph_head_hash h = p)"

lemma verify_head_mac_iff:
  "verify_head_mac mac h = Inr s \<longleftrightarrow>
     0 \<le> s \<and> ph_sequence h = s \<and> ph_key_id h = KEY_ID \<and> ph_canonical_version h = VERSION \<and>
     ph_head_mac h = head_mac mac s (ph_head_hash h) (ph_pending_receipts_root h)"
  by (auto simp: verify_head_mac_def)

lemma verify_iff:
  "verify mac sha l = Inr True \<longleftrightarrow>
     chain_ok mac l \<and> (\<exists>h. al_head l = Some h \<and> ph_pending_receipts_root h = pending_receipts_root sha l)"
proof
  assume "verify mac sha l = Inr True"
  then show "chain_ok mac l \<and> (\<exists>h. al_head l = Some h \<and> ph_pending_receipts_root h = pending_receipts_root sha l)"
    by (auto simp: verify_def chain_ok_def verify_chain_head_def load_head_def verify_head_mac_iff
        result_simps Let_def split: option.splits prod.splits)
next
  assume "chain_ok mac l \<and> (\<exists>h. al_head l = Some h \<and> ph_pending_receipts_root h = pending_receipts_root sha l)"
  then show "verify mac sha l = Inr True"
    by (auto simp: verify_def chain_ok_def verify_chain_head_def load_head_def verify_head_mac_iff Let_def)
qed

definition sequence_bounded :: "ledger \<Rightarrow> bool" where
  "sequence_bounded l = (case al_head l of None \<Rightarrow> True | Some h \<Rightarrow> ph_sequence h \<le> i64_max)"

definition ledger_ok :: "(bytes \<Rightarrow> string) \<Rightarrow> (bytes \<Rightarrow> string) \<Rightarrow> ledger \<Rightarrow> bool" where
  "ledger_ok mac sha l \<longleftrightarrow> verify mac sha l = Inr True \<and> sequence_bounded l"

lemma pending_root_updates [simp]:
  "pending_receipts_root sha (l\<lparr>al_head := h\<rparr>) = pending_receipts_root sha l"
  "pending_receipts_root sha (l\<lparr>al_events := es\<rparr>) = pending_receipts_root sha l"
  "pending_receipts_root sha (l\<lparr>al_checkpoints := cs\<rparr>) = pending_receipts_root sha l"
  by (simp_all add: pending_receipts_root_def)

lemma chain_ok_receipts [simp]: "chain_ok mac (l\<lparr>al_receipts := rs\<rparr>) = chain_ok mac l"
  by (simp add: chain_ok_def)

lemma sealed_noop:
  assumes "al_head l = Some h" and "verify_head_mac mac h = Inr s"
    and "ph_pending_receipts_root h = pending_receipts_root sha l"
  shows "seal_head mac sha l = l"
  using assms by (auto simp: seal_head_def unsealed_def verify_head_mac_iff Let_def)

lemma initialize_verified:
  assumes "verify mac sha l = Inr True" and "initialize_head mac sha l = Inr l'"
  shows "l' = l"
proof -
  have "seal_head mac sha l = l"
    using assms(1) by (auto simp: verify_iff chain_ok_def intro: sealed_noop)
  then show ?thesis using assms(2) by (auto simp: initialize_head_def Let_def result_simps)
qed

lemma insort_key_append: "\<forall>y \<in> set xs. f y < f x \<Longrightarrow> insort_key f x xs = xs @ [x]"
  by (induction xs) auto

lemma revision_column_Inr:
  "revision_column r = Inr c \<Longrightarrow> c = r \<and> (\<forall>v. r = Some v \<longrightarrow> 0 \<le> v)"
  by (auto simp: revision_column_def split: option.splits if_splits)

lemma stored_event_id:
  "revision_column (ae_revision event) = Inr c \<Longrightarrow> stored_event (event\<lparr>ae_revision := c\<rparr>) = event"
  by (cases "ae_revision event") (auto simp: stored_event_def dest!: revision_column_Inr)

text \<open>The row an append adds.\<close>

lemma append_spec:
  assumes v: "verify mac sha l = Inr True"
    and a: "append_in_transaction mac sha l event_id context event occurred_at = Inr (row, l')"
  obtains h r where "al_head l = Some h" and "ph_sequence h + 1 \<le> i64_max"
    and "er_sequence r = ph_sequence h + 1" and "er_event_id r = event_id" and "er_context r = context"
    and "er_event r = event" and "er_occurred_at r = occurred_at"
    and "link_ok mac r (ph_sequence h + 1) (ph_head_hash h)" and "row = audit_row_of r"
    and "l' = l\<lparr>al_events := al_events l @ [r], al_head := Some (h\<lparr>ph_sequence := ph_sequence h + 1,
           ph_head_hash := er_event_hash r,
           ph_head_mac := head_mac mac (ph_sequence h + 1) (er_event_hash r) (ph_pending_receipts_root h)\<rparr>)\<rparr>"
proof -
  obtain li h s bytes revision l1 where
    i: "initialize_head mac sha l = Inr li" and ld: "load_head li = Inr h"
    and s: "verify_head_mac mac h = Inr s" and b: "s + 1 \<le> i64_max"
    and c: "canonical event_id context event occurred_at = Inr bytes"
    and rc: "revision_column (ae_revision event) = Inr revision"
    and ins: "insert_event li \<lparr> er_sequence = s + 1, er_event_id = event_id, er_key_id = ''v1'', er_version = 1,
           er_context = context, er_event = event\<lparr>ae_revision := revision\<rparr>,
           er_occurred_at = occurred_at, er_canonical = bytes, er_prev_hash = ph_head_hash h,
           er_event_hash = hash mac (s + 1) (ph_head_hash h) bytes \<rparr> = Inr l1"
    and row: "row = \<lparr> ar_sequence = s + 1, ar_event_id = event_id, ar_tenant = ac_tenant context,
                ar_operation = ae_operation event, ar_target_type = ae_target_type event,
                ar_target_id = ae_target_id event, ar_result = ae_result event,
                ar_classification = ae_classification event, ar_occurred_at = occurred_at,
                ar_event_hash = hash mac (s + 1) (ph_head_hash h) bytes \<rparr>"
    and l': "l' = l1\<lparr>al_head := Some (h\<lparr>ph_sequence := s + 1, ph_key_id := ''v1'',
                   ph_head_hash := hash mac (s + 1) (ph_head_hash h) bytes,
                   ph_head_mac := head_mac mac (s + 1) (hash mac (s + 1) (ph_head_hash h) bytes)
                     (ph_pending_receipts_root h)\<rparr>)\<rparr>"
    using a unfolding append_in_transaction_def Let_def
    by (auto simp: result_simps split: if_splits)
  let ?r = "\<lparr> er_sequence = s + 1, er_event_id = event_id, er_key_id = ''v1'', er_version = 1,
           er_context = context, er_event = event\<lparr>ae_revision := revision\<rparr>,
           er_occurred_at = occurred_at, er_canonical = bytes, er_prev_hash = ph_head_hash h,
           er_event_hash = hash mac (s + 1) (ph_head_hash h) bytes \<rparr>"
  have li: "li = l" by (rule initialize_verified [OF v i])
  have h: "al_head l = Some h" using ld by (simp add: li load_head_def split: option.splits)
  have sq: "ph_sequence h = s" "0 \<le> s" "ph_key_id h = KEY_ID" using s by (auto simp: verify_head_mac_iff)
  obtain e b e' p where "verify_events mac (al_events l) e b = Inr (Some (e', p))"
    and e': "verify_head_mac mac h = Inr (e' - 1)"
    using v h by (auto simp: verify_iff chain_ok_def)
  then have "\<forall>k < length (al_events l). er_sequence (al_events l ! k) = e + int k" "e' = e + int (length (al_events l))"
    by (auto dest: verify_events_end)
  then have "\<forall>y \<in> set (al_events l). er_sequence y < s + 1" using e' s by (auto simp: in_set_conv_nth)
  then have l1: "l1 = l\<lparr>al_events := al_events l @ [?r]\<rparr>"
    using ins by (auto simp: insert_event_def li insort_key_append split: if_splits)
  have ev: "event\<lparr>ae_revision := revision\<rparr> = event" using revision_column_Inr [OF rc] by simp
  have "link_ok mac ?r (s + 1) (ph_head_hash h)"
    using c sq by (simp add: link_ok_def stored_event_id [OF rc] KEY_ID_def VERSION_def)
  moreover have "row = audit_row_of ?r" using sq by (simp add: row audit_row_of_def)
  moreover have "h\<lparr>ph_sequence := n, ph_key_id := ''v1'', ph_head_hash := x, ph_head_mac := m\<rparr> =
      h\<lparr>ph_sequence := n, ph_head_hash := x, ph_head_mac := m\<rparr>" for n x m
    using sq(3) by (cases h) (simp add: KEY_ID_def)
  ultimately show thesis
    using that [of h ?r] h b sq(1) ev l1 l' by simp
qed

lemma append_ok:
  assumes "ledger_ok mac sha l"
    and "append_in_transaction mac sha l event_id context event occurred_at = Inr (row, l')"
  shows "ledger_ok mac sha l'"
proof -
  have v: "verify mac sha l = Inr True" using assms(1) by (simp add: ledger_ok_def)
  obtain h r where h: "al_head l = Some h" and b: "ph_sequence h + 1 \<le> i64_max"
    and lk: "link_ok mac r (ph_sequence h + 1) (ph_head_hash h)"
    and l': "l' = l\<lparr>al_events := al_events l @ [r], al_head := Some (h\<lparr>ph_sequence := ph_sequence h + 1,
           ph_head_hash := er_event_hash r,
           ph_head_mac := head_mac mac (ph_sequence h + 1) (er_event_hash r) (ph_pending_receipts_root h)\<rparr>)\<rparr>"
    by (rule append_spec [OF v assms(2)])
  obtain e b0 e' where c: "verify_checkpoints mac (al_checkpoints l) 1 [] [] = Inr (Some (e, b0))"
    and ev: "verify_events mac (al_events l) e b0 = Inr (Some (e', ph_head_hash h))"
    and hm: "verify_head_mac mac h = Inr (e' - 1)"
    using v h by (auto simp: verify_iff chain_ok_def)
  have e': "e' = ph_sequence h + 1" "0 \<le> ph_sequence h" using hm by (auto simp: verify_head_mac_iff)
  have "verify_events mac (al_events l @ [r]) e b0 = Inr (Some (e' + 1, er_event_hash r))"
    using ev lk e' by (simp add: verify_events_append verify_events_Cons del: verify_events.simps(2))
  moreover have "verify_head_mac mac (h\<lparr>ph_sequence := ph_sequence h + 1, ph_head_hash := er_event_hash r,
      ph_head_mac := head_mac mac (ph_sequence h + 1) (er_event_hash r) (ph_pending_receipts_root h)\<rparr>)
      = Inr (e' + 1 - 1)"
    using e' hm by (simp add: verify_head_mac_iff add.commute)
  ultimately have "chain_ok mac l'"
    using c unfolding chain_ok_def l' by simp
  moreover have "ph_pending_receipts_root h = pending_receipts_root sha l"
    using v h by (simp add: verify_iff)
  ultimately show ?thesis
    using b by (simp add: ledger_ok_def verify_iff l' sequence_bounded_def)
qed

section \<open>Receipts and the pending root\<close>

lemma chain_ok_head:
  assumes "chain_ok mac l" and "al_head l = Some h"
  shows "verify_head_mac mac h = Inr (ph_sequence h)"
  using assms by (auto simp: chain_ok_def verify_head_mac_iff)

lemma chain_ok_reroot:
  assumes "chain_ok mac l" and "al_head l = Some h"
  shows "chain_ok mac (l\<lparr>al_head := Some (h\<lparr>ph_pending_receipts_root := root,
    ph_head_mac := head_mac mac (ph_sequence h) (ph_head_hash h) root\<rparr>)\<rparr>)"
  using assms by (fastforce simp: chain_ok_def verify_head_mac_iff)

lemma refresh_ok:
  assumes c: "chain_ok mac l" and b: "sequence_bounded l"
    and r: "refresh_pending_receipts_root mac sha l = Inr l'"
  shows "ledger_ok mac sha l'"
proof -
  obtain h where h: "al_head l = Some h"
    and l': "l' = l\<lparr>al_head := Some (h\<lparr>ph_pending_receipts_root := pending_receipts_root sha l,
      ph_head_mac := head_mac mac (ph_sequence h) (ph_head_hash h) (pending_receipts_root sha l)\<rparr>)\<rparr>"
    using r chain_ok_head [OF c]
    by (auto simp: refresh_pending_receipts_root_def load_head_def result_simps Let_def split: option.splits)
  show ?thesis
    using chain_ok_reroot [OF c h] b h by (simp add: l' ledger_ok_def verify_iff sequence_bounded_def)
qed

lemma ledger_ok_chain: "ledger_ok mac sha l \<Longrightarrow> chain_ok mac l \<and> sequence_bounded l"
  by (simp add: ledger_ok_def verify_iff)

lemma refresh_receipts_ok:
  assumes "ledger_ok mac sha l" and "refresh_pending_receipts_root mac sha (l\<lparr>al_receipts := rs\<rparr>) = Inr l'"
  shows "ledger_ok mac sha l'"
  using refresh_ok [OF _ _ assms(2)] ledger_ok_chain [OF assms(1)] by (simp add: sequence_bounded_def)

lemma initialize_ok:
  assumes "ledger_ok mac sha l" and "initialize_head mac sha l = Inr l'"
  shows "l' = l"
  using initialize_verified [OF _ assms(2)] assms(1) by (simp add: ledger_ok_def)

lemma reserve_ok:
  assumes ok: "ledger_ok mac sha l"
    and r: "reserve_receipt_in_transaction mac sha l corr intent context event = Inr (b, l')"
  shows "ledger_ok mac sha l'"
proof -
  obtain li where i: "initialize_head mac sha l = Inr li"
    and rest: "l' = li \<or> (\<exists>rs. refresh_pending_receipts_root mac sha (li\<lparr>al_receipts := rs\<rparr>) = Inr l')"
    using r unfolding reserve_receipt_in_transaction_def Let_def
    by (auto simp: result_simps split: if_splits)
  then show ?thesis
    using initialize_ok [OF ok i] ok refresh_receipts_ok [OF ok] by auto
qed

lemma finalize_receipt_ok:
  assumes ok: "ledger_ok mac sha l"
    and r: "finalize_receipt_in_transaction mac sha l corr event_id context event occurred_at = Inr (x, l')"
  shows "ledger_ok mac sha l'"
proof -
  have "l' = l \<or> (\<exists>row l1 rs. append_in_transaction mac sha l event_id context event occurred_at = Inr (row, l1) \<and>
      refresh_pending_receipts_root mac sha (l1\<lparr>al_receipts := rs\<rparr>) = Inr l')"
    using r unfolding finalize_receipt_in_transaction_def
    by (fastforce simp: result_simps finalize_receipts_def split: if_splits option.splits)
  then show ?thesis using ok append_ok [OF ok] refresh_receipts_ok by blast
qed

lemma reconcile_ok:
  assumes ok: "ledger_ok mac sha l"
    and r: "finalize_reconciled_receipt_in_transaction mac sha l intent event_id outcome classification occurred_at
      = Inr (b, l')"
  shows "ledger_ok mac sha l'"
proof -
  have "l' = l \<or> (\<exists>context event row l1 rs. append_in_transaction mac sha l event_id context event occurred_at = Inr (row, l1) \<and>
      refresh_pending_receipts_root mac sha (l1\<lparr>al_receipts := rs\<rparr>) = Inr l')"
    using r unfolding finalize_reconciled_receipt_in_transaction_def Let_def
    by (fastforce simp: result_simps finalize_receipts_def split: if_splits option.splits)
  then show ?thesis using ok append_ok [OF ok] refresh_receipts_ok by blast
qed

lemma release_ok:
  assumes ok: "ledger_ok mac sha l" and r: "delete_pending_receipt_in_transaction mac sha l intent = Inr l'"
  shows "ledger_ok mac sha l'"
proof -
  obtain rs where "refresh_pending_receipts_root mac sha (l\<lparr>al_receipts := rs\<rparr>) = Inr l'"
    using r unfolding delete_pending_receipt_in_transaction_def Let_def
    by (auto simp: result_simps split: if_splits option.splits)
  then show ?thesis by (rule refresh_receipts_ok [OF ok])
qed

section \<open>Retention\<close>

lemma delete_prefix:
  assumes "\<forall>k < length rs. er_sequence (rs ! k) = e + int k" and "n \<le> length rs"
  shows "sql_delete (\<lambda>r. e \<le> er_sequence r \<and> er_sequence r \<le> e + int n - 1) rs = drop n rs"
proof -
  have "sql_delete (\<lambda>r. e \<le> er_sequence r \<and> er_sequence r \<le> e + int n - 1) (take n rs) = []"
    using assms by (auto simp: sql_delete_def filter_empty_conv in_set_conv_nth)
  moreover have "sql_delete (\<lambda>r. e \<le> er_sequence r \<and> er_sequence r \<le> e + int n - 1) (drop n rs) = drop n rs"
    using assms by (auto simp: sql_delete_def filter_id_conv in_set_conv_nth)
  ultimately have "sql_delete (\<lambda>r. e \<le> er_sequence r \<and> er_sequence r \<le> e + int n - 1) (take n rs @ drop n rs) = drop n rs"
    unfolding sql_delete_def filter_append by simp
  then show ?thesis by simp
qed

lemma checkpoint_ok:
  assumes ok: "ledger_ok mac sha l" and pre: "prefix = take n (al_events l)" and n: "0 < n" "n \<le> length (al_events l)"
  shows "ledger_ok mac sha (checkpoint_prefix mac l prefix) \<and> al_events (checkpoint_prefix mac l prefix) = drop n (al_events l)"
proof -
  have v: "verify mac sha l = Inr True" and bd: "sequence_bounded l" using ok by (simp_all add: ledger_ok_def)
  then obtain e b e' p h where c: "verify_checkpoints mac (al_checkpoints l) 1 [] [] = Inr (Some (e, b))"
    and ev: "verify_events mac (al_events l) e b = Inr (Some (e', p))" and h: "al_head l = Some h"
    and hm: "verify_head_mac mac h = Inr (e' - 1)" "ph_head_hash h = p"
    by (auto simp: verify_iff chain_ok_def)
  have "verify_events mac (prefix @ drop n (al_events l)) e b = Inr (Some (e', p))" using ev pre by simp
  then obtain e1 p1 where t: "verify_events mac prefix e b = Inr (Some (e1, p1))"
    and d: "verify_events mac (drop n (al_events l)) e1 p1 = Inr (Some (e', p))"
    unfolding verify_events_append by (auto split: sum.splits option.splits prod.splits)
  have ne: "prefix \<noteq> []" "length prefix = n" using pre n by auto
  note te = verify_events_end [OF t] and ee = verify_events_end [OF ev]
  have hd: "er_sequence (hd prefix) = e" using te ne n by (metis add_0_right hd_conv_nth of_nat_0)
  have ls: "er_sequence (last prefix) = e + int n - 1"
  proof -
    have "er_sequence (prefix ! (n - 1)) = e + int (n - 1)" using te ne n by simp
    then show ?thesis using ne n by (simp add: last_conv_nth of_nat_diff)
  qed
  have p1: "p1 = er_event_hash (last prefix)" and e1: "e1 = e + int n" using te ne by auto
  have pos: "0 \<le> e" using t ne(1) by (cases prefix) (auto simp: verify_events_Cons link_ok_def simp del: verify_events.simps(2))
  have u: "e + int n \<le> u64_max"
    using ee hm(1) bd h n by (auto simp: verify_head_mac_iff sequence_bounded_def i64_defs)
  let ?c = "\<lparr> ck_first = e, ck_last = e + int n - 1, ck_key_id = ''v1'', ck_version = 1, ck_bridge = p1,
    ck_prior = last_checkpoint_hash l,
    ck_hash = checkpoint_mac mac e (e + int n - 1) p1 (last_checkpoint_hash l) \<rparr>"
  have cp: "checkpoint_prefix mac l prefix =
      l\<lparr>al_checkpoints := al_checkpoints l @ [?c], al_events := drop n (al_events l)\<rparr>"
    using delete_prefix [of "al_events l" e n] ee n(2) by (simp add: checkpoint_prefix_def Let_def hd ls p1)
  have "verify_checkpoints mac (al_checkpoints l @ [?c]) 1 [] [] = Inr (Some (e1, p1))"
    using verify_checkpoints_append [OF c, of "[?c]"] pos n(1) u e1
    by (simp add: last_checkpoint_hash_def KEY_ID_def VERSION_def)
  then have "chain_ok mac (checkpoint_prefix mac l prefix)"
    using d h hm by (auto simp: chain_ok_def cp)
  moreover have "\<exists>h. al_head l = Some h \<and> ph_pending_receipts_root h = pending_receipts_root sha l"
    using v by (simp add: verify_iff)
  moreover have "sequence_bounded (checkpoint_prefix mac l prefix)" using bd by (simp add: cp sequence_bounded_def)
  ultimately show ?thesis by (auto simp: ledger_ok_def verify_iff cp)
qed

lemma takeWhile_prefix: "takeWhile q (take m xs) = take (length (takeWhile q (take m xs))) xs"
  by (metis length_takeWhile_le length_take min.bounded_iff min_absorb2 take_take takeWhile_eq_take)

lemma prune_ok:
  assumes ok: "ledger_ok mac sha l"
    and r: "prune_expired mac sha julian l cutoff batch request_id event_id occurred_at = Inr (d, l')"
  shows "ledger_ok mac sha l'"
proof -
  obtain c where c: "julian cutoff = Some c"
    using r by (auto simp: prune_expired_def result_simps split: option.splits if_splits)
  let ?prefix = "takeWhile (expired julian c) (take (max 1 (min batch 1000)) (al_events l))"
  show ?thesis
  proof (cases "?prefix = []")
    case True
    then show ?thesis using r c ok by (auto simp: prune_expired_def result_simps Let_def split: if_splits)
  next
    case False
    then have a: "\<exists>row. append_in_transaction mac sha (checkpoint_prefix mac l ?prefix) event_id
        (prune_context request_id) prune_event occurred_at = Inr (row, l')"
      using r c by (auto simp: prune_expired_def result_simps Let_def split: if_splits)
    have "length ?prefix \<le> length (al_events l)"
      by (metis length_takeWhile_le length_take min.boundedE)
    then have "ledger_ok mac sha (checkpoint_prefix mac l ?prefix)"
      using checkpoint_ok [OF ok takeWhile_prefix] False by blast
    then show ?thesis using a append_ok by blast
  qed
qed

section \<open>Runs of the ledger\<close>

text \<open>The tables as migrations 025 and 026 create them; the server seals the head at startup.\<close>

definition migrated_ledger :: ledger where
  "migrated_ledger = \<lparr> al_events = [], al_checkpoints = [],
     al_head = Some \<lparr> ph_sequence = 0, ph_key_id = ''v1'', ph_head_hash = [], ph_head_mac = [],
       ph_canonical_version = 1, ph_pending_receipts_root = [] \<rparr>, al_receipts = [] \<rparr>"

inductive audit_step ::
    "(bytes \<Rightarrow> string) \<Rightarrow> (bytes \<Rightarrow> string) \<Rightarrow> (string \<Rightarrow> int option) \<Rightarrow> ledger \<Rightarrow> ledger \<Rightarrow> bool"
    for mac sha julian where
  audit_append: "append_in_transaction mac sha l event_id context event occurred_at = Inr (row, l') \<Longrightarrow>
    audit_step mac sha julian l l'"
| audit_reserve: "reserve_receipt_in_transaction mac sha l corr intent context event = Inr (b, l') \<Longrightarrow>
    audit_step mac sha julian l l'"
| audit_finalize: "finalize_receipt_in_transaction mac sha l corr event_id context event occurred_at = Inr (x, l') \<Longrightarrow>
    audit_step mac sha julian l l'"
| audit_reconcile: "finalize_reconciled_receipt_in_transaction mac sha l intent event_id outcome classification occurred_at
      = Inr (b, l') \<Longrightarrow> audit_step mac sha julian l l'"
| audit_release: "delete_pending_receipt_in_transaction mac sha l intent = Inr l' \<Longrightarrow> audit_step mac sha julian l l'"
| audit_prune: "prune_expired mac sha julian l cutoff batch request_id event_id occurred_at = Inr (d, l') \<Longrightarrow>
    audit_step mac sha julian l l'"

lemma start_ok:
  assumes "initialize_head mac sha migrated_ledger = Inr l"
  shows "ledger_ok mac sha l"
proof -
  have "l = seal_head mac sha migrated_ledger"
    using assms by (auto simp: initialize_head_def Let_def result_simps)
  then show ?thesis
    by (auto simp: ledger_ok_def verify_iff chain_ok_def seal_head_def migrated_ledger_def unsealed_def
        verify_head_mac_iff sequence_bounded_def Let_def KEY_ID_def VERSION_def i64_defs pending_receipts_root_def)
qed

lemma audit_step_ok: "audit_step mac sha julian l l' \<Longrightarrow> ledger_ok mac sha l \<Longrightarrow> ledger_ok mac sha l'"
  by (induction rule: audit_step.induct)
    (auto intro: append_ok reserve_ok finalize_receipt_ok reconcile_ok release_ok prune_ok)

interpretation audit_run: invariant_system "\<lambda>l. initialize_head mac sha migrated_ledger = Inr l"
    "audit_step mac sha julian" "ledger_ok mac sha" for mac sha julian
  by unfold_locales (auto intro: audit_step_ok start_ok)


section \<open>What the bytes determine\<close>

lemma length_be_bytes [simp]: "length (be_bytes k n) = k"
  by (induction k arbitrary: n) simp_all

lemma char_of_mod_inject:
  "char_of (nat (m mod 256)) = char_of (nat (n mod 256)) \<Longrightarrow> m mod 256 = (n::int) mod 256"
proof -
  assume "char_of (nat (m mod 256)) = char_of (nat (n mod 256))"
  then have "nat (m mod 256) mod 256 = nat (n mod 256) mod 256" by (metis of_char_of)
  moreover have "nat (x mod 256) mod 256 = nat (x mod 256)" for x :: int
    by (simp add: nat_less_iff)
  ultimately show "m mod 256 = n mod 256"
    by (metis eq_nat_nat_iff pos_mod_sign zero_less_numeral)
qed

lemma be_bytes_inject:
  "be_bytes k m = be_bytes k n \<Longrightarrow> 0 \<le> m \<Longrightarrow> m < 256 ^ k \<Longrightarrow> 0 \<le> n \<Longrightarrow> n < 256 ^ k \<Longrightarrow> m = n"
proof (induction k arbitrary: m n)
  case 0
  then show ?case by simp
next
  case (Suc k)
  have "m div 256 < 256 ^ k" "n div 256 < 256 ^ k"
    using Suc.prems by (simp_all add: div_less_iff_less_mult mult.commute)
  then have "m div 256 = n div 256"
    using Suc.prems by (intro Suc.IH) (simp_all add: pos_imp_zdiv_nonneg_iff)
  moreover have "m mod 256 = n mod 256"
    using Suc.prems(1) by (intro char_of_mod_inject) simp
  ultimately show ?case by (metis div_mult_mod_eq)
qed

lemma prefixed_inject:
  assumes "be_bytes 4 (int (length x)) @ x @ u = be_bytes 4 (int (length y)) @ y @ v"
    and "int (length x) \<le> u32_max" and "int (length y) \<le> u32_max"
  shows "x = y \<and> u = v"
proof -
  have be: "be_bytes 4 (int (length x)) = be_bytes 4 (int (length y))" and r: "x @ u = y @ v"
    using assms(1) by simp_all
  have lt: "n \<le> u32_max \<Longrightarrow> n < 256 ^ 4" for n by (simp add: u32_max_def)
  have "int (length x) = int (length y)"
    using lt [OF assms(2)] lt [OF assms(3)] by (intro be_bytes_inject [OF be]) linarith+
  then show ?thesis using r by simp
qed

lemma encode_fields_inject:
  "encode_fields fs = Inr b \<Longrightarrow> encode_fields gs = Inr b \<Longrightarrow> length fs = length gs \<Longrightarrow> fs = gs"
proof (induction fs arbitrary: gs b)
  case Nil
  then show ?case by simp
next
  case (Cons f fs)
  then obtain g hs where gs: "gs = g # hs" by (cases gs) auto
  obtain r s where "encode_fields fs = Inr r" "int (length f) \<le> u32_max" "b = be_bytes 4 (int (length f)) @ f @ r"
    "encode_fields hs = Inr s" "int (length g) \<le> u32_max" "b = be_bytes 4 (int (length g)) @ g @ s"
    using Cons.prems(1,2) by (auto simp: gs result_simps split: if_splits)
  with prefixed_inject [of f r g s] Cons.IH [of r hs] Cons.prems(3) show ?case by (auto simp: gs)
qed

lemma trim_graphic:
  assumes "s \<noteq> []" and "is_ascii_graphic (hd s)" and "is_ascii_graphic (last s)"
  shows "trim s = s"
proof -
  have no: "strip_any ws t = None"
    if "list_all (\<lambda>w. w = [] \<or> \<not> is_ascii_graphic (hd w)) ws" "t \<noteq> []" "is_ascii_graphic (hd t)" for ws t
    using that by (force simp: strip_any_def starts_with_iff find_None_iff list_all_iff split: option.splits dest: find_Some_iff [THEN iffD1])
  have "list_all (\<lambda>w. w = [] \<or> \<not> is_ascii_graphic (hd w)) unicode_white_space"
    and "list_all (\<lambda>w. w = [] \<or> \<not> is_ascii_graphic (hd w)) (map rev unicode_white_space)"
    by code_simp+
  then have "strip_any unicode_white_space s = None" "strip_any (map rev unicode_white_space) (rev s) = None"
    using assms by (auto intro!: no simp: hd_rev)
  then show ?thesis by (simp add: trim_def trim_any_def trim_end_any_def trim_start_any_stable)
qed

lemma show_int_chars: "c \<in> set (show_int i) \<Longrightarrow> is_ascii_graphic c"
  using show_nat_digits
  by (fastforce simp: show_int_def is_ascii_graphic_def is_ascii_digit_def byte_def split: if_splits)

lemma show_int_not_Nil [simp]: "show_int i \<noteq> []"
  by (simp add: show_int_def)

lemma show_int_inject: "show_int i = show_int j \<Longrightarrow> i = j"
proof -
  have "show_nat n \<noteq> CHR ''-'' # s" for n s
    using show_nat_digits [of "CHR ''-''" n] by (auto simp: is_ascii_digit_def byte_def)
  then have "show_nat n \<noteq> CHR ''-'' # s" "CHR ''-'' # s \<noteq> show_nat n" for n s by metis+
  then show "show_int i = show_int j \<Longrightarrow> i = j"
    by (auto simp: show_int_def split: if_splits)
qed

lemma trim_revision_inject: "trim (revision_string r) = trim (revision_string q) \<Longrightarrow> r = q"
proof -
  have "trim (show_int i) = show_int i" for i
    by (rule trim_graphic) (simp_all add: show_int_chars [of _ i])
  then show "trim (revision_string r) = trim (revision_string q) \<Longrightarrow> r = q"
    by (auto simp: revision_string_def show_int_not_Nil [symmetric] dest: show_int_inject split: option.splits)
qed

lemma audit_id_Inr: "audit_id v q = Inr w \<Longrightarrow> w = trim v"
  by (auto simp: audit_id_def Let_def split: if_splits)

lemma bounded_Inr: "bounded v n = Inr w \<Longrightarrow> w = trim v \<and> length w \<le> n \<and> CHR 0x00 \<notin> set w"
  by (auto simp: bounded_def Let_def split: if_splits)

text \<open>The fields a canonical encoding is built from, in order.\<close>

definition audit_fields :: "string \<Rightarrow> AuditContext \<Rightarrow> AuditEvent \<Rightarrow> string \<Rightarrow> string list" where
  "audit_fields event_id context event occurred_at = map trim
     [event_id, KEY_ID, ac_tenant context, ac_actor_type context, ac_actor_id context, ac_actor_role context,
      ae_operation event, ae_target_type event, ae_target_id event, ae_result event, ae_classification event,
      ac_source context, ac_request_id context, revision_string (ae_revision event), occurred_at]"

lemma canonical_fields_Inr:
  "canonical_fields i c e t = Inr fs \<Longrightarrow> fs = audit_fields i c e t"
  unfolding canonical_fields_def audit_fields_def
  by (auto simp: result_simps dest!: audit_id_Inr bounded_Inr)

lemma canonical_Inr:
  assumes "canonical i c e t = Inr b"
  shows "canonical_admissible c e = Inr () \<and> canonical_fields i c e t = Inr (audit_fields i c e t) \<and>
    (\<exists>bytes. encode_fields (audit_fields i c e t) = Inr bytes \<and> b = char_of (nat VERSION) # bytes)"
proof -
  obtain fs bytes where "canonical_admissible c e = Inr ()" and f: "canonical_fields i c e t = Inr fs"
    and "encode_fields fs = Inr bytes" and "b = char_of (nat VERSION) # bytes"
    using assms unfolding canonical_def by (auto simp: result_simps)
  with canonical_fields_Inr [OF f] show ?thesis by simp
qed

lemma canonical_determines:
  assumes "canonical i c e t = Inr b" and "canonical i' c' e' t' = Inr b"
  shows "audit_fields i c e t = audit_fields i' c' e' t' \<and> ae_revision e = ae_revision e'"
proof -
  obtain x where "encode_fields (audit_fields i c e t) = Inr x" "encode_fields (audit_fields i' c' e' t') = Inr x"
    using canonical_Inr [OF assms(1)] canonical_Inr [OF assms(2)] by auto
  then have "audit_fields i c e t = audit_fields i' c' e' t'"
    by (rule encode_fields_inject) (simp add: audit_fields_def)
  then show ?thesis using trim_revision_inject by (auto simp: audit_fields_def)
qed

text \<open>A message without a saturated length prefix determines its parts.\<close>

lemma part_inject:
  assumes "part x @ u = part y @ v" and "int (length x) \<le> u32_max" and "int (length y) \<le> u32_max"
  shows "x = y \<and> u = v"
  using assms by (intro prefixed_inject) (simp_all add: part_def)

lemma hash_message_inject:
  assumes "hash_message s p b = hash_message s p' b'" and "int (length p) \<le> u32_max" and "int (length p') \<le> u32_max"
  shows "p = p' \<and> b = b'"
proof -
  have "p = p' \<and> part b = part b'"
    using assms by (intro part_inject) (simp_all add: hash_message_def)
  moreover have "drop 4 (part x) = x" for x by (simp add: part_def)
  ultimately show ?thesis by metis
qed

section \<open>Tamper evidence\<close>

definition event_message :: "EventRow \<Rightarrow> bytes" where
  "event_message r = hash_message (er_sequence r) (er_prev_hash r) (er_canonical r)"

definition event_fields :: "EventRow \<Rightarrow> string list" where
  "event_fields r = audit_fields (er_event_id r) (er_context r) (stored_event (er_event r)) (er_occurred_at r)"

lemma verify_events_snoc:
  assumes "verify_events mac (rs @ [r]) e p = Inr (Some (e', q))"
  shows "verify_events mac rs e p = Inr (Some (e' - 1, er_prev_hash r)) \<and> link_ok mac r (e' - 1) (er_prev_hash r) \<and>
    q = mac (event_message r)"
proof -
  obtain e1 p1 where v: "verify_events mac rs e p = Inr (Some (e1, p1))"
    and w: "verify_events mac [r] e1 p1 = Inr (Some (e', q))"
    using assms unfolding verify_events_append by (auto split: sum.splits option.splits prod.splits)
  then have l: "link_ok mac r e1 p1" and "e' = e1 + 1" "q = er_event_hash r"
    by (simp_all add: verify_events_Cons del: verify_events.simps(2))
  with v show ?thesis by (auto simp: link_ok_def event_message_def hash_def)
qed

lemma chains_agree:
  assumes "verify_events mac rs e b = Inr (Some (n, p))" and "verify_events mac rs' e' b' = Inr (Some (n, p))"
    and "inj_on mac (event_message ` (set rs \<union> set rs'))"
    and "\<forall>r \<in> set rs \<union> set rs'. int (length (er_prev_hash r)) \<le> u32_max"
    and "r \<in> set rs" and "r' \<in> set rs'" and "er_sequence r = er_sequence r'"
  shows "er_canonical r = er_canonical r' \<and> er_prev_hash r = er_prev_hash r' \<and> er_event_hash r = er_event_hash r'"
  using assms
proof (induction rs arbitrary: rs' n p rule: rev_induct)
  case Nil
  then show ?case by simp
next
  case (snoc x xs)
  then have "rs' \<noteq> []" by auto
  then obtain ys y where rs': "rs' = ys @ [y]" by (metis rev_exhaust)
  note vx = verify_events_snoc [OF snoc.prems(1)] and vy = verify_events_snoc [OF snoc.prems(2) [unfolded rs']]
  have "mac (event_message x) = mac (event_message y)" using vx vy by simp
  then have "event_message x = event_message y"
    by (rule inj_onD [OF snoc.prems(3)]) (simp_all add: rs')
  then have same: "er_prev_hash x = er_prev_hash y \<and> er_canonical x = er_canonical y"
    using snoc.prems(4) vx vy by (intro hash_message_inject) (auto simp: rs' event_message_def link_ok_def)
  have below: "z \<in> set zs \<Longrightarrow> er_sequence z < n - 1" if "verify_events mac zs e b = Inr (Some (n - 1, q))" for zs e b q z
    using verify_events_end [OF that] by (auto simp: in_set_conv_nth)
  have "er_sequence x = n - 1" "er_sequence y = n - 1" using vx vy by (auto simp: link_ok_def)
  moreover have "z \<in> set xs \<Longrightarrow> er_sequence z < n - 1" "z \<in> set ys \<Longrightarrow> er_sequence z < n - 1" for z
    using below vx vy by blast+
  moreover have "r = x \<or> r \<in> set xs" "r' = y \<or> r' \<in> set ys" using snoc.prems(5,6) by (auto simp: rs')
  ultimately consider "r = x" "r' = y" | "r \<in> set xs" "r' \<in> set ys"
    using snoc.prems(7) by (metis less_irrefl)
  then show ?case
  proof cases
    case 1
    then show ?thesis using same vx vy by (simp add: link_ok_def)
  next
    case 2
    have "inj_on mac (event_message ` (set xs \<union> set ys))"
      by (rule inj_on_subset [OF snoc.prems(3)]) (auto simp: rs')
    then show ?thesis
      using 2 vx vy same snoc.prems(4,7) by (intro snoc.IH [of "n - 1" "er_prev_hash x" ys]) (auto simp: rs')
  qed
qed


lemma verified_event_canonical:
  assumes "verify_events mac rs e b = Inr (Some q)" and "r \<in> set rs"
  shows "canonical (er_event_id r) (er_context r) (stored_event (er_event r)) (er_occurred_at r) = Inr (er_canonical r)"
  using assms
  by (induction rs arbitrary: e b) (auto simp: verify_events_Cons link_ok_def simp del: verify_events.simps(2))

text \<open>
  C4. Tamper evidence. Two ledgers that pass verification and have the same head agree on every
  event both still hold, up to the white space the encoder trims: no field, link or hash of an
  event below the head can be changed, and no event before the head is missing after the first
  retained one, unless two of the hashed messages collide under the MAC. Stored texts stay below
  SQLite's length limit, far below the 32-bit length prefix.\<close>

theorem tamper_evident:
  assumes "verify mac sha l = Inr True" and "verify mac sha l' = Inr True"
    and "al_head l = al_head l'"
    and "inj_on mac (event_message ` (set (al_events l) \<union> set (al_events l')))"
    and "\<forall>r \<in> set (al_events l) \<union> set (al_events l'). int (length (er_prev_hash r)) \<le> u32_max"
  shows "(\<forall>r \<in> set (al_events l). \<forall>r' \<in> set (al_events l').
      er_sequence r = er_sequence r' \<longrightarrow>
      event_fields r = event_fields r' \<and> er_canonical r = er_canonical r' \<and>
      er_prev_hash r = er_prev_hash r' \<and> er_event_hash r = er_event_hash r') \<and>
      (\<forall>k < length (al_events l). \<exists>h. al_head l = Some h \<and>
      er_sequence (al_events l ! k) = ph_sequence h + 1 - int (length (al_events l)) + int k)"
    (is "?same \<and> ?gapless")
proof -
  obtain e b n p h where v: "verify_events mac (al_events l) e b = Inr (Some (n, p))"
    and h: "al_head l = Some h" "verify_head_mac mac h = Inr (n - 1)" "ph_head_hash h = p"
    using assms(1) by (auto simp: verify_iff chain_ok_def)
  obtain e' b' n' p' h' where v': "verify_events mac (al_events l') e' b' = Inr (Some (n', p'))"
    and h': "al_head l' = Some h'" "verify_head_mac mac h' = Inr (n' - 1)" "ph_head_hash h' = p'"
    using assms(2) by (auto simp: verify_iff chain_ok_def)
  have np: "n' = n" "p' = p" using h h' assms(3) by auto
  note agree = chains_agree [OF v v' [unfolded np] assms(4,5)]
  note fields = verified_event_canonical
  have ?same
  proof (intro ballI impI)
    fix r r' assume r: "r \<in> set (al_events l)" "r' \<in> set (al_events l')" "er_sequence r = er_sequence r'"
    note a = agree [OF r]
    have "event_fields r = event_fields r'"
      using canonical_determines [OF fields [OF v r(1)]] fields [OF v' r(2)] a unfolding event_fields_def by simp
    with a show "event_fields r = event_fields r' \<and> er_canonical r = er_canonical r' \<and>
      er_prev_hash r = er_prev_hash r' \<and> er_event_hash r = er_event_hash r'" by simp
  qed
  moreover have ?gapless
    using verify_events_end [OF v] h by (auto simp: verify_head_mac_iff)
  ultimately show "?same \<and> ?gapless" ..
qed

lemma hd_be_bytes: "hd (be_bytes (Suc k) n) = char_of (nat (n div 256 ^ k mod 256))"
proof (induction k arbitrary: n)
  case 0
  then show ?case by simp
next
  case (Suc k)
  have "hd (be_bytes (Suc (Suc k)) n) = hd (be_bytes (Suc k) (n div 256))"
    by (simp add: hd_append)
  then show ?case unfolding Suc.IH by (simp add: zdiv_zmult2_eq)
qed

text \<open>
  Domain separation. The messages of an event, of a head, of a checkpoint and of a receipt are
  pairwise different, so no tag of one purpose can be replayed for another. An event's message
  starts with its sequence number where the others carry a label, so the bound on the sequence
  matters: below 2 to the 56 its first byte is zero.\<close>

theorem domain_separation:
  assumes "0 \<le> s" and "s < 2 ^ 56" and "receipt_message x = Inr m"
  shows "hash_message s p b \<noteq> head_message s' q r \<and> hash_message s p b \<noteq> checkpoint_message f t g w \<and>
    hash_message s p b \<noteq> m \<and> head_message s' q r \<noteq> checkpoint_message f t g w \<and>
    head_message s' q r \<noteq> m \<and> checkpoint_message f t g w \<noteq> m"
proof -
  have "s div 256 ^ 7 mod 256 = 0" using assms(1,2) by simp
  moreover have "(8::nat) = Suc 7" by simp
  ultimately have "hd (be_bytes 8 s) = CHR 0x00" by (simp only: hd_be_bytes) code_simp
  moreover obtain c cs where c: "be_bytes 8 s = c # cs"
    by (metis length_be_bytes length_0_conv list.exhaust zero_neq_numeral)
  ultimately have "be_bytes 8 s = CHR 0x00 # cs" by simp
  moreover obtain body where "m = DOMAIN @ ''receipt'' @ [CHR 0x00] @ body"
    using assms(3) by (auto simp: receipt_message_def result_simps)
  ultimately show ?thesis
    by (simp add: hash_message_def head_message_def checkpoint_message_def)
qed

lemma canonical_bounds:
  assumes "canonical i c e t = Inr b"
  shows "length (trim (ac_tenant c)) \<le> 80 \<and> length (trim (ac_actor_id c)) \<le> 160 \<and> length (trim (ae_target_id e)) \<le> 100"
proof -
  obtain x y z where "bounded (ac_tenant c) 80 = Inr x" "bounded (ac_actor_id c) 160 = Inr y"
    "audit_id (ae_target_id e) False = Inr z"
    using canonical_Inr [OF assms] unfolding canonical_fields_def by (auto simp: result_simps)
  then show ?thesis by (auto dest!: bounded_Inr simp: audit_id_def Let_def split: if_splits)
qed

section \<open>Appending\<close>

lemma append_succeeds:
  assumes v: "verify mac sha l = Inr True" and h: "al_head l = Some h"
  shows "is_ok (append_in_transaction mac sha l event_id context event occurred_at) \<longleftrightarrow>
    is_ok (verify_pending_receipts mac sha l) \<and> is_ok (canonical event_id context event occurred_at) \<and>
    is_ok (revision_column (ae_revision event)) \<and> ph_sequence h < i64_max \<and>
    (\<forall>r \<in> set (al_events l). er_event_id r \<noteq> event_id)"
proof -
  have sl: "seal_head mac sha l = l"
    using v by (auto simp: verify_iff chain_ok_def intro: sealed_noop)
  have hm: "verify_head_mac mac h = Inr (ph_sequence h)" using v h by (auto simp: verify_iff dest: chain_ok_head)
  obtain e b e' p where "verify_events mac (al_events l) e b = Inr (Some (e', p))"
    and "verify_head_mac mac h = Inr (e' - 1)"
    using v h by (auto simp: verify_iff chain_ok_def)
  then have seq: "\<forall>y \<in> set (al_events l). er_sequence y \<noteq> ph_sequence h + 1"
    using verify_events_end [of mac "al_events l" e b e' p] by (auto simp: in_set_conv_nth verify_head_mac_iff)
  have ld: "load_head l = Inr h" using h by (simp add: load_head_def)
  have ov: "ph_sequence h < i64_max \<Longrightarrow> \<not> u64_max < ph_sequence h + 1" by (simp add: i64_defs)
  show ?thesis
    unfolding append_in_transaction_def initialize_head_def Let_def sl insert_event_def
    using seq ov
    by (cases "verify_pending_receipts mac sha l"; cases "canonical event_id context event occurred_at";
        cases "revision_column (ae_revision event)")
      (auto simp: ld hm list_ex_iff i64_defs split: if_splits)
qed

text \<open>
  Appending. On a verified ledger an append succeeds exactly when the pending receipts verify,
  the event is admissible, its revision fits the column, the sequence does not overflow and the
  event identifier is fresh; it then adds one row after the others, numbered and hashed after
  the previous head and carrying the caller's context and event, moves the head to it, and
  touches neither checkpoints nor receipts.\<close>

theorem append_exact:
  assumes v: "verify mac sha l = Inr True" and h: "al_head l = Some h"
  shows "(is_ok (append_in_transaction mac sha l event_id context event occurred_at) \<longleftrightarrow>
    is_ok (verify_pending_receipts mac sha l) \<and> is_ok (canonical event_id context event occurred_at) \<and>
    is_ok (revision_column (ae_revision event)) \<and> ph_sequence h < i64_max \<and>
    (\<forall>r \<in> set (al_events l). er_event_id r \<noteq> event_id)) \<and>
    (\<forall>row l'. append_in_transaction mac sha l event_id context event occurred_at = Inr (row, l') \<longrightarrow>
      (\<exists>r h'. al_events l' = al_events l @ [r] \<and> al_head l' = Some h' \<and> row = audit_row_of r \<and>
        er_sequence r = ph_sequence h + 1 \<and> er_prev_hash r = ph_head_hash h \<and>
        er_event_hash r = hash mac (er_sequence r) (ph_head_hash h) (er_canonical r) \<and>
        er_event_id r = event_id \<and> er_context r = context \<and> er_event r = event \<and> er_occurred_at r = occurred_at \<and>
        ph_sequence h' = er_sequence r \<and> ph_head_hash h' = er_event_hash r) \<and>
      al_checkpoints l' = al_checkpoints l \<and> al_receipts l' = al_receipts l)"
proof (intro conjI allI impI)
  fix row l' assume a: "append_in_transaction mac sha l event_id context event occurred_at = Inr (row, l')"
  show "(\<exists>r h'. al_events l' = al_events l @ [r] \<and> al_head l' = Some h' \<and> row = audit_row_of r \<and>
        er_sequence r = ph_sequence h + 1 \<and> er_prev_hash r = ph_head_hash h \<and>
        er_event_hash r = hash mac (er_sequence r) (ph_head_hash h) (er_canonical r) \<and>
        er_event_id r = event_id \<and> er_context r = context \<and> er_event r = event \<and> er_occurred_at r = occurred_at \<and>
        ph_sequence h' = er_sequence r \<and> ph_head_hash h' = er_event_hash r)"
    by (rule append_spec [OF v a]) (use h in \<open>auto simp: link_ok_def\<close>)
  show "al_checkpoints l' = al_checkpoints l" "al_receipts l' = al_receipts l"
    by (rule append_spec [OF v a], simp)+
qed (use append_succeeds [OF v h] in blast)+

section \<open>Retention, attribution and privacy\<close>

text \<open>
  C33. Retention. Pruning a verified ledger removes exactly the longest expired prefix of the
  first batch, at most a thousand rows, appends the record of the pruning, and leaves a ledger
  that still verifies; with nothing expired it changes nothing.\<close>

theorem prune_exact:
  assumes ok: "ledger_ok mac sha l"
    and r: "prune_expired mac sha julian l cutoff batch request_id event_id occurred_at = Inr (d, l')"
  shows "\<exists>c n. julian cutoff = Some c \<and> d = int n \<and> n \<le> max 1 (min batch 1000) \<and>
    (\<forall>x \<in> set (take n (al_events l)). expired julian c x) \<and>
    (if n = 0 then l' = l
     else \<exists>record_row. al_events l' = drop n (al_events l) @ [record_row] \<and>
       er_context record_row = prune_context request_id \<and> er_event record_row = prune_event) \<and>
    (n < length (al_events l) \<and> n < max 1 (min batch 1000) \<longrightarrow> \<not> expired julian c (al_events l ! n)) \<and>
    verify mac sha l' = Inr True"
proof -
  obtain c where c: "julian cutoff = Some c"
    using r by (auto simp: prune_expired_def result_simps split: option.splits if_splits)
  define m where "m = max 1 (min batch 1000)"
  define n where "n = length (takeWhile (expired julian c) (take m (al_events l)))"
  have pre: "takeWhile (expired julian c) (take m (al_events l)) = take n (al_events l)"
    unfolding n_def by (rule takeWhile_prefix)
  have "n \<le> length (take m (al_events l))" unfolding n_def by (rule length_takeWhile_le)
  then have nm: "n \<le> m" "n \<le> length (al_events l)" by simp_all
  have "\<forall>x \<in> set (take n (al_events l)). expired julian c x"
    unfolding pre [symmetric] by (auto dest: set_takeWhileD)
  moreover have "\<not> expired julian c (al_events l ! n)" if "n < length (al_events l)" "n < m"
    using nth_length_takeWhile [of "expired julian c" "take m (al_events l)"] that by (simp add: n_def [symmetric])
  moreover have "d = int n \<and> (if n = 0 then l' = l
     else \<exists>record_row. al_events l' = drop n (al_events l) @ [record_row] \<and>
       er_context record_row = prune_context request_id \<and> er_event record_row = prune_event)"
  proof (cases "n = 0")
    case True
    then show ?thesis using r c pre by (auto simp: prune_expired_def result_simps Let_def m_def split: if_splits)
  next
    case False
    let ?l1 = "checkpoint_prefix mac l (take n (al_events l))"
    have ok1: "ledger_ok mac sha ?l1" and ev: "al_events ?l1 = drop n (al_events l)"
      using checkpoint_ok [OF ok refl] False nm by auto
    have ne: "take n (al_events l) \<noteq> []" using False nm by auto
    obtain row where a: "append_in_transaction mac sha ?l1 event_id (prune_context request_id) prune_event occurred_at = Inr (row, l')"
      and d: "d = int (length (al_events l)) - int (length (al_events ?l1))"
      using r ne unfolding prune_expired_def Let_def m_def [symmetric]
      by (auto simp: c pre result_simps split: if_splits)
    have v1: "verify mac sha ?l1 = Inr True" using ok1 by (simp add: ledger_ok_def)
    have "\<exists>record_row. al_events l' = drop n (al_events l) @ [record_row] \<and>
       er_context record_row = prune_context request_id \<and> er_event record_row = prune_event"
      by (rule append_spec [OF v1 a]) (use ev in auto)
    then show ?thesis using False d ev nm by simp
  qed
  moreover have "verify mac sha l' = Inr True" using prune_ok [OF ok r] by (simp add: ledger_ok_def)
  ultimately show ?thesis using c nm(1) unfolding m_def by blast
qed

text \<open>
  Attribution. A mutation recorded for a tenant keeps its actor, and the tenant differs from
  the actor's own only for a verified viewer with the administrator role; a publisher key can
  never write to another tenant's history.\<close>

theorem attribution_confined:
  assumes "for_target_tenant a tenant = Inr a'"
  shows "ma_request_id a' = ma_request_id a \<and>
    ma_context a' = (ma_context a)\<lparr>ac_tenant := ac_tenant (ma_context a')\<rparr> \<and>
    (ac_tenant (ma_context a') = tenant \<or> ac_tenant (ma_context a') = trim tenant) \<and>
    (ac_tenant (ma_context a') \<noteq> ac_tenant (ma_context a) \<longrightarrow>
       ac_actor_type (ma_context a) = ''viewer'' \<and> ac_actor_role (ma_context a) = ''admin'') \<and>
    (\<forall>publisher request_id. a = MutationAudit_publisher publisher request_id \<longrightarrow> tenant = pi_org publisher \<and> a' = a) \<and>
    (\<forall>viewer request_id. viewer_with_request_id viewer request_id = Inr a \<longrightarrow>
       v_is_admin viewer \<or> v_org viewer = Some tenant \<and> a' = a)"
proof (cases "ac_tenant (ma_context a) = tenant")
  case True
  then have "a' = a" using assms by (simp add: for_target_tenant_def)
  moreover have "v_org viewer = Some (ac_tenant (ma_context a))"
    if "viewer_with_request_id viewer request_id = Inr a" for viewer request_id
    using that by (auto simp: viewer_with_request_id_def split: option.split_asm)
  ultimately show ?thesis using True by (auto simp: MutationAudit_publisher_def)
next
  case False
  then have r: "ac_actor_type (ma_context a) = ''viewer''" "ac_actor_role (ma_context a) = ''admin''"
    and "\<exists>t. audit_id tenant True = Inr t \<and> a' = a\<lparr>ma_context := (ma_context a)\<lparr>ac_tenant := t\<rparr>\<rparr>"
    using assms by (auto simp: for_target_tenant_def admin_for_tenant_def result_simps split: if_split_asm)
  then have a': "a' = a\<lparr>ma_context := (ma_context a)\<lparr>ac_tenant := trim tenant\<rparr>\<rparr>" by (auto dest: audit_id_Inr)
  have "a \<noteq> MutationAudit_publisher publisher request_id" for publisher request_id
    using r(1) by (auto simp: MutationAudit_publisher_def)
  moreover have "v_is_admin viewer" if "viewer_with_request_id viewer request_id = Inr a" for viewer request_id
    using that r(2) by (auto simp: viewer_with_request_id_def split: option.split_asm if_split_asm)
  ultimately show ?thesis using r by (simp add: a')
qed

text \<open>
  Privacy. No event of a verified ledger names a share target, and a webhook target is a
  validated webhook identifier; the actor, source and result are of the closed sets, and the
  attribution fields are bounded.\<close>

theorem verified_ledger_clean:
  assumes "verify mac sha l = Inr True" and "r \<in> set (al_events l)"
  shows "(contains_str (to_ascii_lowercase (ae_target_type (er_event r))) ''share'' \<longrightarrow> trim (ae_target_id (er_event r)) = []) \<and>
    (contains_str (to_ascii_lowercase (ae_target_type (er_event r))) ''webhook'' \<longrightarrow>
       trim (ae_target_id (er_event r)) = [] \<or> is_valid_webhook_id (trim (ae_target_id (er_event r)))) \<and>
    ac_actor_type (er_context r) \<in> {''api_key'', ''viewer'', ''system''} \<and>
    ac_source (er_context r) \<in> {''mcp'', ''browser'', ''maintenance'', ''reconciliation''} \<and>
    ae_result (er_event r) \<in> {''success'', ''denied'', ''failure'', ''recovered''} \<and>
    length (trim (ac_tenant (er_context r))) \<le> 80 \<and> length (trim (ac_actor_id (er_context r))) \<le> 160 \<and>
    length (trim (ae_target_id (er_event r))) \<le> 100"
proof -
  have c: "canonical (er_event_id r) (er_context r) (stored_event (er_event r)) (er_occurred_at r) = Inr (er_canonical r)"
    using assms by (auto simp: verify_iff chain_ok_def intro: verified_event_canonical)
  have st: "ae_target_type (stored_event e) = ae_target_type e" "ae_target_id (stored_event e) = ae_target_id e"
    "ae_result (stored_event e) = ae_result e" for e by (simp_all add: stored_event_def)
  have "canonical_admissible (er_context r) (stored_event (er_event r)) = Inr ()" using canonical_Inr [OF c] by simp
  then show ?thesis using canonical_bounds [OF c]
    unfolding canonical_admissible_def Let_def st by (simp split: if_split_asm) blast
qed


section \<open>Receipts are finalized once\<close>

lemma find_sql_update:
  assumes "\<And>r. p r \<Longrightarrow> q (f r) = q r"
  shows "List.find q (sql_update p f xs) = map_option (\<lambda>r. if p r then f r else r) (List.find q xs)"
  using assms by (induction xs) (auto simp: sql_update_def)

lemma verify_receipts_iff:
  "verify_receipts mac rs = Inr () \<longleftrightarrow> (\<forall>r \<in> set rs. verify_receipt_snapshot mac r = Inr ())"
  by (induction rs) (auto simp: result_simps)

lemma verify_pending_receipts_iff:
  "verify_pending_receipts mac sha l = Inr () \<longleftrightarrow>
     (\<exists>h. al_head l = Some h \<and> verify_head_mac mac h = Inr (ph_sequence h) \<and>
        ph_pending_receipts_root h = pending_receipts_root sha l) \<and>
     (\<forall>r \<in> set (al_receipts l). rc_state r = ''pending'' \<longrightarrow> verify_receipt_snapshot mac r = Inr ())"
  by (auto simp: verify_pending_receipts_def load_head_def result_simps verify_receipts_iff verify_head_mac_iff
      split: option.splits)

lemma ledger_ok_head:
  assumes "ledger_ok mac sha l"
  shows "\<exists>h. al_head l = Some h \<and> verify_head_mac mac h = Inr (ph_sequence h) \<and>
    ph_pending_receipts_root h = pending_receipts_root sha l"
  using assms chain_ok_head by (auto simp: ledger_ok_def verify_iff)

lemma refresh_keeps:
  "refresh_pending_receipts_root mac sha l = Inr l' \<Longrightarrow>
     al_events l' = al_events l \<and> al_receipts l' = al_receipts l \<and> al_checkpoints l' = al_checkpoints l"
  by (auto simp: refresh_pending_receipts_root_def result_simps Let_def)

text \<open>A first finalization, step by step.\<close>

lemma finalize_spec:
  assumes "finalize_receipt_in_transaction mac sha l corr event_id context event occurred_at = Inr ((row, False), l')"
  obtains ex l1 l2 tag where "verify_pending_receipts mac sha l = Inr ()"
    and "receipt_by_correlation l corr = Some ex" and "verify_receipt_snapshot mac ex = Inr ()"
    and "is_ok (canonical ''receipt'' context event [])" and "revision_column (ae_revision event) = Inr (ae_revision event)"
    and "rc_context ex = context" and "rc_event ex = event" and "rc_state ex = ''pending''"
    and "append_in_transaction mac sha l event_id context event occurred_at = Inr (row, l1)"
    and "receipt_mac mac (rc_correlation_id ex) (rc_durability_intent_id ex) ''finalized'' event_id context event = Inr tag"
    and "finalize_receipts corr (rc_receipt_mac ex) event_id tag event l1 = Inr l2"
    and "refresh_pending_receipts_root mac sha l2 = Inr l'"
proof -
  define T where "T ex = (if rc_state ex = ''finalized'' then
           try_bind (verify_finalized_event_projection l ex) (\<lambda>_.
             case Option.bind (rc_event_id ex) (event_by_id l) of
               None \<Rightarrow> Inl Internal
             | Some r \<Rightarrow> Inr ((audit_row_of r, True), l))
         else if rc_state ex \<noteq> ''pending'' then Inl Internal
         else
           try_bind (append_in_transaction mac sha l event_id context event occurred_at) (\<lambda>(row, l1).
           try_bind (receipt_mac mac (rc_correlation_id ex) (rc_durability_intent_id ex)
                       ''finalized'' event_id context event) (\<lambda>tag.
           try_bind (finalize_receipts corr (rc_receipt_mac ex) event_id tag (rc_event ex) l1) (\<lambda>l2.
           try_bind (refresh_pending_receipts_root mac sha l2) (\<lambda>l3.
           Inr ((row, False), l3))))))" for ex
  obtain ex c revision where 1: "verify_pending_receipts mac sha l = Inr ()"
    "receipt_by_correlation l corr = Some ex" "verify_receipt_snapshot mac ex = Inr ()"
    "canonical ''receipt'' context event [] = Inr c" "revision_column (ae_revision event) = Inr revision"
    and 2: "rc_context ex = context" "rc_event ex = event\<lparr>ae_revision := revision\<rparr>"
    and T: "T ex = Inr ((row, False), l')"
    using assms unfolding finalize_receipt_in_transaction_def T_def [symmetric]
    by (auto simp: result_simps split: option.split_asm if_split_asm)
  note 3 = T [unfolded T_def]
  have rev: "revision = ae_revision event" using revision_column_Inr [OF 1(5)] by simp
  have "\<not> rc_state ex = ''finalized''"
    using 3 by (auto simp: result_simps split: option.splits)
  then have "rc_state ex = ''pending'' \<and> (\<exists>l1 tag l2. append_in_transaction mac sha l event_id context event occurred_at = Inr (row, l1) \<and>
     receipt_mac mac (rc_correlation_id ex) (rc_durability_intent_id ex) ''finalized'' event_id context event = Inr tag \<and>
     finalize_receipts corr (rc_receipt_mac ex) event_id tag (rc_event ex) l1 = Inr l2 \<and>
     refresh_pending_receipts_root mac sha l2 = Inr l')"
    using 3 by (auto simp: result_simps split: if_split_asm)
  then show thesis using that 1 2 unfolding rev by auto
qed

text \<open>The receipt a finalization leaves verifies, and so do the receipts still pending.\<close>

lemma finalized_receipt_verifies:
  assumes ex: "verify_receipt_snapshot mac ex = Inr ()"
    and tag: "receipt_mac mac (rc_correlation_id ex) (rc_durability_intent_id ex) ''finalized'' event_id
      (rc_context ex) (rc_event ex) = Inr tag"
    and hex: "\<forall>m. verify_slice (mac m) (mac m)"
  shows "verify_receipt_snapshot mac (ex\<lparr>rc_event_id := Some event_id, rc_state := ''finalized'',
    rc_event := rc_event ex, rc_receipt_mac := tag\<rparr>) = Inr ()"
proof -
  have k: "rc_key_id ex = KEY_ID" "rc_canonical_version ex = VERSION" "receipt_event ex = Inr (rc_event ex)"
    using ex by (auto simp: verify_receipt_snapshot_def receipt_event_def result_simps split: if_splits option.splits)
  then have "receipt_event (ex\<lparr>rc_event_id := Some event_id, rc_state := ''finalized'',
    rc_event := rc_event ex, rc_receipt_mac := tag\<rparr>) = Inr (rc_event ex)"
    by (auto simp: receipt_event_def split: option.splits if_splits)
  then show ?thesis
    using tag hex k by (auto simp: verify_receipt_snapshot_def receipt_mac_def result_simps)
qed

text \<open>
  C22. A receipt is finalized exactly once. When finalization of a reserved receipt returns its
  new audit row, that row is the one event it added; repeating the finalization, with whatever
  fresh identifier and clock, returns the same row, marked as a replay, and changes nothing. Tags
  are 64 hex digits.\<close>

theorem finalize_once:
  assumes ok: "ledger_ok mac sha l" and hex: "\<forall>m. verify_slice (mac m) (mac m)"
    and fin: "finalize_receipt_in_transaction mac sha l corr event_id context event occurred_at = Inr ((row, False), l')"
  shows "(\<exists>r. al_events l' = al_events l @ [r] \<and> row = audit_row_of r \<and> er_context r = context \<and> er_event r = event) \<and>
    finalize_receipt_in_transaction mac sha l' corr event_id' context event occurred_at' = Inr ((row, True), l')"
proof -
  obtain ex l1 l2 tag where vp: "verify_pending_receipts mac sha l = Inr ()"
    and ex: "receipt_by_correlation l corr = Some ex" and sn: "verify_receipt_snapshot mac ex = Inr ()"
    and can: "is_ok (canonical ''receipt'' context event [])" and rev: "revision_column (ae_revision event) = Inr (ae_revision event)"
    and cx: "rc_context ex = context" "rc_event ex = event" "rc_state ex = ''pending''"
    and a: "append_in_transaction mac sha l event_id context event occurred_at = Inr (row, l1)"
    and tag: "receipt_mac mac (rc_correlation_id ex) (rc_durability_intent_id ex) ''finalized'' event_id context event = Inr tag"
    and fr: "finalize_receipts corr (rc_receipt_mac ex) event_id tag event l1 = Inr l2"
    and rf: "refresh_pending_receipts_root mac sha l2 = Inr l'"
    by (rule finalize_spec [OF fin])
  define f where "f = (\<lambda>r. r\<lparr>rc_event_id := Some event_id, rc_state := ''finalized'', rc_event := event,
      rc_receipt_mac := tag\<rparr> :: PersistedReceipt)"
  define p where "p = pending_with corr (rc_receipt_mac ex)"
  have v: "verify mac sha l = Inr True" using ok by (simp add: ledger_ok_def)
  obtain h r where h: "al_head l = Some h" and lk: "link_ok mac r (ph_sequence h + 1) (ph_head_hash h)"
    and r: "er_event_id r = event_id" "er_context r = context" "er_event r = event" "row = audit_row_of r"
    and l1: "al_events l1 = al_events l @ [r]" "al_receipts l1 = al_receipts l"
    by (rule append_spec [OF v a]) (auto intro: that)
  have ev: "al_events l' = al_events l @ [r]" and rc: "al_receipts l' = sql_update p f (al_receipts l)"
    using refresh_keeps [OF rf] fr l1 by (auto simp: finalize_receipts_def p_def f_def split: if_splits)
  have "ledger_ok mac sha l'" by (rule finalize_receipt_ok [OF ok fin])
  moreover have "verify_receipt_snapshot mac q = Inr ()" if "q \<in> set (al_receipts l')" "rc_state q = ''pending''" for q
    using that vp by (auto simp: rc set_sql_update f_def verify_pending_receipts_iff split: if_split_asm)
  ultimately have vp': "verify_pending_receipts mac sha l' = Inr ()"
    using ledger_ok_head by (simp add: verify_pending_receipts_iff)
  have "rc_correlation_id ex = corr" using ex by (auto simp: receipt_by_correlation_def find_Some_iff)
  then have "p ex" using cx by (simp add: p_def pending_with_def)
  then have ex': "receipt_by_correlation l' corr = Some (f ex)"
    using ex unfolding receipt_by_correlation_def rc by (subst find_sql_update) (auto simp: f_def)
  have sn': "verify_receipt_snapshot mac (f ex) = Inr ()"
    using finalized_receipt_verifies [OF sn _ hex, of event_id tag] tag cx by (simp add: f_def)
  have "\<forall>q \<in> set (al_events l). er_event_id q \<noteq> event_id" using append_succeeds [OF v h] a by (metis is_ok_simps(2))
  then have e: "event_by_id l' event_id = Some r"
    using r(1) by (auto simp: event_by_id_def ev find_append find_None_iff split: option.splits dest: find_Some_iff [THEN iffD1])
  have "rc_key_id ex = KEY_ID" "rc_canonical_version ex = VERSION"
    using sn by (auto simp: verify_receipt_snapshot_def split: if_splits)
  then have pj: "verify_finalized_event_projection l' (f ex) = Inr ()"
    using e lk r cx by (simp add: verify_finalized_event_projection_def f_def link_ok_def)
  obtain c where c: "canonical ''receipt'' context event [] = Inr c" using can by (cases "canonical ''receipt'' context event []") auto
  have f: "rc_context (f ex) = context" "rc_event (f ex) = event" "rc_state (f ex) = ''finalized''" "rc_event_id (f ex) = Some event_id"
    using cx by (simp_all add: f_def)
  have "finalize_receipt_in_transaction mac sha l' corr event_id' context event occurred_at' = Inr ((row, True), l')"
    unfolding finalize_receipt_in_transaction_def
    by (simp add: vp' ex' sn' c rev pj f e r(4))
  then show ?thesis using ev r by blast
qed

section \<open>A run\<close>

definition demo_tag :: "bytes \<Rightarrow> string" where "demo_tag m = replicate 64 (CHR ''a'')"
definition demo_context :: AuditContext where
  "demo_context = \<lparr> ac_tenant = ''acme'', ac_actor_type = ''api_key'', ac_actor_id = ''ci'', ac_actor_role = ''member'',
     ac_source = ''mcp'', ac_request_id = ''mcp-1'' \<rparr>"
definition demo_event :: AuditEvent where
  "demo_event = \<lparr> ae_operation = ''artifact.create'', ae_target_type = ''artifact'', ae_target_id = ''a1'',
     ae_result = ''success'', ae_classification = [], ae_revision = Some 1 \<rparr>"

definition demo_start :: "(bytes \<Rightarrow> string) \<Rightarrow> ledger" where
  "demo_start mac = seal_head mac (\<lambda>m. []) migrated_ledger"

definition demo_appended :: "(bytes \<Rightarrow> string) \<Rightarrow> string \<Rightarrow> ledger" where
  "demo_appended mac t =
     (case append_in_transaction mac (\<lambda>m. []) (demo_start mac) ''e1'' demo_context demo_event t of
        Inl _ \<Rightarrow> demo_start mac | Inr (row, l) \<Rightarrow> l)"

definition demo_reserved :: "(bytes \<Rightarrow> string) \<Rightarrow> ledger" where
  "demo_reserved mac =
     (case reserve_receipt_in_transaction mac (\<lambda>m. []) (demo_start mac) ''c1'' ''i1'' demo_context demo_event of
        Inl _ \<Rightarrow> demo_start mac | Inr (b, l) \<Rightarrow> l)"

lemma demo_start_eq: "initialize_head mac (\<lambda>m. []) migrated_ledger = Inr (demo_start mac)"
  by (simp add: initialize_head_def demo_start_def seal_head_def migrated_ledger_def unsealed_def Let_def
      verify_pending_receipts_def load_head_def verify_head_mac_def KEY_ID_def VERSION_def pending_receipts_root_def)

lemma demo_append_step:
  "\<exists>row. append_in_transaction id (\<lambda>m. []) (demo_start id) ''e1'' demo_context demo_event ''t'' =
     Inr (row, demo_appended id ''t'')"
proof -
  have "is_ok (append_in_transaction id (\<lambda>m. []) (demo_start id) ''e1'' demo_context demo_event ''t'')"
    by code_simp
  then show ?thesis by (auto simp: demo_appended_def is_ok_def split: sum.splits)
qed

lemma demo_reserve_step:
  "\<exists>b. reserve_receipt_in_transaction demo_tag (\<lambda>m. []) (demo_start demo_tag) ''c1'' ''i1'' demo_context demo_event =
     Inr (b, demo_reserved demo_tag)"
proof -
  have "is_ok (reserve_receipt_in_transaction demo_tag (\<lambda>m. []) (demo_start demo_tag) ''c1'' ''i1'' demo_context demo_event)"
    by code_simp
  then show ?thesis by (auto simp: demo_reserved_def is_ok_def split: sum.splits)
qed

lemma demo_start_ok: "ledger_ok mac (\<lambda>m. []) (demo_start mac)"
  by (rule start_ok [OF demo_start_eq])

lemma demo_appended_ok: "ledger_ok id (\<lambda>m. []) (demo_appended id ''t'')"
  using demo_append_step append_ok [OF demo_start_ok] by blast

lemma demo_reserved_ok: "ledger_ok demo_tag (\<lambda>m. []) (demo_reserved demo_tag)"
  using demo_reserve_step reserve_ok [OF demo_start_ok] by blast

section \<open>Properties\<close>

text \<open>
  C18. Every ledger the server can reach, from the tables the migrations create through any sequence
  of appends, reservations, finalizations, reconciliations, releases and prunings, passes the
  full verification, whatever the MAC and the digest compute.\<close>

theorem audit_reachable_verifies:
  assumes "initialize_head mac sha migrated_ledger = Inr l" and "(audit_step mac sha julian)\<^sup>*\<^sup>* l l'"
  shows "verify mac sha l' = Inr True"
  using audit_run.run_inv [OF assms] by (simp add: ledger_ok_def)

theorem audit_reachable_verifies_witness:
  "initialize_head id (\<lambda>m. []) migrated_ledger = Inr (demo_start id) \<and>
   audit_step id (\<lambda>m. []) (\<lambda>t. None) (demo_start id) (demo_appended id ''t'') \<and>
   verify id (\<lambda>m. []) (demo_appended id ''t'') = Inr True"
proof -
  have s: "audit_step id (\<lambda>m. []) (\<lambda>t. None) (demo_start id) (demo_appended id ''t'')"
    using demo_append_step by (blast intro: audit_append)
  then have "(audit_step id (\<lambda>m. []) (\<lambda>t. None))\<^sup>*\<^sup>* (demo_start id) (demo_appended id ''t'')" by (rule r_into_rtranclp)
  then show ?thesis
    using audit_reachable_verifies [OF demo_start_eq] s demo_start_eq by blast
qed

text \<open>
  C37. The canonical bytes of an event determine every field they were built from, up to the
  surrounding white space the encoder trims, and the revision exactly.\<close>

theorem canonical_inject:
  assumes "canonical i c e t = Inr b" and "canonical i' c' e' t' = Inr b"
  shows "audit_fields i c e t = audit_fields i' c' e' t' \<and> ae_revision e = ae_revision e'"
  using assms by (rule canonical_determines)

theorem canonical_inject_witness:
  "\<exists>b. canonical ''e1'' demo_context demo_event ''t'' = Inr b \<and> canonical ''e1'' demo_context demo_event '' t '' = Inr b \<and>
    audit_fields ''e1'' demo_context demo_event ''t'' = audit_fields ''e1'' demo_context demo_event '' t ''"
proof -
  have "is_ok (canonical ''e1'' demo_context demo_event ''t'')"
    and e: "canonical ''e1'' demo_context demo_event '' t '' = canonical ''e1'' demo_context demo_event ''t''"
    by code_simp+
  then obtain b where b: "canonical ''e1'' demo_context demo_event ''t'' = Inr b" by (auto simp: is_ok_def split: sum.splits)
  then show ?thesis using canonical_inject [OF b, of "''e1''" demo_context demo_event "'' t ''"] e by simp
qed

theorem domain_separation_witness:
  "\<exists>m. receipt_message \<lparr> ri_correlation_id = ''c1'', ri_durability_intent_id = ''i1'', ri_state = ''pending'',
      ri_event_id = [], ri_context = demo_context, ri_event = demo_event, ri_key_id = KEY_ID,
      ri_canonical_version = VERSION \<rparr> = Inr m \<and> hash_message 1 [] [] \<noteq> m"
proof -
  let ?x = "\<lparr> ri_correlation_id = ''c1'', ri_durability_intent_id = ''i1'', ri_state = ''pending'',
      ri_event_id = [], ri_context = demo_context, ri_event = demo_event, ri_key_id = KEY_ID,
      ri_canonical_version = VERSION \<rparr>"
  have "is_ok (receipt_message ?x)" by code_simp
  then obtain m where m: "receipt_message ?x = Inr m" by (auto simp: is_ok_def split: sum.splits)
  then show ?thesis using domain_separation [of 1, OF _ _ m] by simp
qed

theorem append_exact_witness:
  "verify id (\<lambda>m. []) (demo_start id) = Inr True \<and>
   (\<exists>h row l'. al_head (demo_start id) = Some h \<and>
     append_in_transaction id (\<lambda>m. []) (demo_start id) ''e1'' demo_context demo_event ''t'' = Inr (row, l') \<and>
     al_receipts l' = al_receipts (demo_start id) \<and> ph_sequence h < i64_max)"
proof -
  have v: "verify id (\<lambda>m. []) (demo_start id) = Inr True" using demo_start_ok by (simp add: ledger_ok_def)
  obtain h where h: "al_head (demo_start id) = Some h" using ledger_ok_head [OF demo_start_ok] by blast
  obtain row where a: "append_in_transaction id (\<lambda>m. []) (demo_start id) ''e1'' demo_context demo_event ''t'' =
     Inr (row, demo_appended id ''t'')" using demo_append_step by blast
  show ?thesis using append_exact [OF v h, of "''e1''" demo_context demo_event "''t''"] a v h by auto
qed

theorem attribution_confined_witness:
  "for_target_tenant \<lparr> ma_context = demo_context, ma_request_id = ''mcp-1'' \<rparr> ''acme'' =
     Inr \<lparr> ma_context = demo_context, ma_request_id = ''mcp-1'' \<rparr> \<and>
   ma_context \<lparr> ma_context = demo_context, ma_request_id = ''mcp-1'' \<rparr> = demo_context\<lparr>ac_tenant := ''acme''\<rparr>"
proof -
  have a: "for_target_tenant \<lparr> ma_context = demo_context, ma_request_id = ''mcp-1'' \<rparr> ''acme'' =
     Inr \<lparr> ma_context = demo_context, ma_request_id = ''mcp-1'' \<rparr>" by code_simp
  show ?thesis using attribution_confined [OF a] a by (simp add: demo_context_def)
qed

theorem verified_ledger_clean_witness:
  "\<exists>r. r \<in> set (al_events (demo_appended id ''t'')) \<and> verify id (\<lambda>m. []) (demo_appended id ''t'') = Inr True \<and>
     length (trim (ae_target_id (er_event r))) \<le> 100"
proof -
  have "al_events (demo_appended id ''t'') \<noteq> []" by code_simp
  then have r: "last (al_events (demo_appended id ''t'')) \<in> set (al_events (demo_appended id ''t''))" by simp
  have v: "verify id (\<lambda>m. []) (demo_appended id ''t'') = Inr True" using demo_appended_ok by (simp add: ledger_ok_def)
  show ?thesis using verified_ledger_clean [OF v r] r v by blast
qed

theorem finalize_once_witness:
  "\<exists>row l'. finalize_receipt_in_transaction demo_tag (\<lambda>m. []) (demo_reserved demo_tag) ''c1'' ''e1'' demo_context demo_event ''t''
       = Inr ((row, False), l') \<and>
     finalize_receipt_in_transaction demo_tag (\<lambda>m. []) l' ''c1'' ''e2'' demo_context demo_event ''u'' = Inr ((row, True), l')"
proof -
  let ?f = "finalize_receipt_in_transaction demo_tag (\<lambda>m. []) (demo_reserved demo_tag) ''c1'' ''e1'' demo_context demo_event ''t''"
  have "(case ?f of Inl _ \<Rightarrow> False | Inr ((row, replay), l') \<Rightarrow> \<not> replay)" by code_simp
  then obtain row l' where f: "?f = Inr ((row, False), l')" by (auto split: sum.splits prod.splits)
  have "verify_slice (demo_tag []) (demo_tag [])" by code_simp
  then have "\<forall>m. verify_slice (demo_tag m) (demo_tag m)" by (simp add: demo_tag_def)
  then show ?thesis using finalize_once [OF demo_reserved_ok _ f, of "''e2''" "''u''"] f by blast
qed

definition demo_julian :: "string \<Rightarrow> int option" where
  "demo_julian t = (if t = ''t'' then Some 0 else Some 5)"

theorem prune_exact_witness:
  "\<exists>d l'. ledger_ok id (\<lambda>m. []) (demo_appended id ''t'') \<and>
     prune_expired id (\<lambda>m. []) demo_julian (demo_appended id ''t'') ''cutoff'' 10 ''r1'' ''e2'' ''u'' = Inr (d, l') \<and>
     verify id (\<lambda>m. []) l' = Inr True"
proof -
  let ?p = "prune_expired id (\<lambda>m. []) demo_julian (demo_appended id ''t'') ''cutoff'' 10 ''r1'' ''e2'' ''u''"
  have "is_ok ?p" by code_simp
  then obtain d l' where p: "?p = Inr (d, l')" by (auto simp: is_ok_def split: sum.splits)
  show ?thesis using prune_exact [OF demo_appended_ok p] demo_appended_ok p by blast
qed

theorem tamper_evident_witness:
  "verify id (\<lambda>m. []) (demo_appended id ''t'') = Inr True \<and> verify id (\<lambda>m. []) (demo_appended id '' t'') = Inr True \<and>
   al_head (demo_appended id ''t'') = al_head (demo_appended id '' t'') \<and>
   er_occurred_at (hd (al_events (demo_appended id ''t''))) \<noteq> er_occurred_at (hd (al_events (demo_appended id '' t''))) \<and>
   event_fields (hd (al_events (demo_appended id ''t''))) = event_fields (hd (al_events (demo_appended id '' t'')))"
proof -
  have v: "verify id (\<lambda>m. []) (demo_appended id ''t'') = Inr True" "verify id (\<lambda>m. []) (demo_appended id '' t'') = Inr True"
    by code_simp+
  have h: "al_head (demo_appended id ''t'') = al_head (demo_appended id '' t'')" by code_simp
  have p: "list_all (\<lambda>r. er_prev_hash r = []) (al_events (demo_appended id ''t''))"
    "list_all (\<lambda>r. er_prev_hash r = []) (al_events (demo_appended id '' t''))" by code_simp+
  have l: "\<forall>r \<in> set (al_events (demo_appended id ''t'')) \<union> set (al_events (demo_appended id '' t'')).
      int (length (er_prev_hash r)) \<le> u32_max" using p by (auto simp: list_all_iff u32_max_def)
  have "al_events (demo_appended id ''t'') \<noteq> []" "al_events (demo_appended id '' t'') \<noteq> []" by code_simp+
  then have "hd (al_events (demo_appended id ''t'')) \<in> set (al_events (demo_appended id ''t''))"
    "hd (al_events (demo_appended id '' t'')) \<in> set (al_events (demo_appended id '' t''))" by simp_all
  moreover have "er_sequence (hd (al_events (demo_appended id ''t''))) = er_sequence (hd (al_events (demo_appended id '' t'')))"
    "er_occurred_at (hd (al_events (demo_appended id ''t''))) \<noteq> er_occurred_at (hd (al_events (demo_appended id '' t'')))"
    by code_simp+
  ultimately show ?thesis using tamper_evident [OF v h inj_on_id l] v h by blast
qed

end
