(* ===== verification/Audit_Query.thy ===== *)
theory Audit_Query
  imports Audit_Integrity "HOL-Library.Word"
begin

unbundle bit_operations_syntax

text \<open>
  The readers of the audit ledger and its runtime-owned service: src/src/security/audit/query.rs,
  src/src/security/audit/access.rs and the audited mutation of append.rs.

  Cursors are JSON payloads in URL-safe base64 (crates \<open>serde_json\<close>, \<open>base64\<close>): the pair
  \<open>encode\<close>, \<open>decode\<close> is a parameter, and so is \<open>row_json\<close>, the JSON line of a row. What the code
  relies on of them is the predicate \<open>codec_ok\<close>: decoding inverts encoding, and an encoded
  payload has no dot. The theory shows that the readers are gated by explicit capabilities and
  tenant, that a cursor is bound to its tenant, that following the cursors of a page query
  reads every event of the tenant exactly once and in order, and that an export is bounded.
\<close>

section \<open>Constants and requests (audit/mod.rs, audit/query.rs)\<close>

definition AUDIT_DEFAULT_LIMIT :: int where "AUDIT_DEFAULT_LIMIT = 100"
definition AUDIT_MAX_LIMIT :: int where "AUDIT_MAX_LIMIT = 500"
definition AUDIT_EXPORT_MAX_ROWS :: int where "AUDIT_EXPORT_MAX_ROWS = 10000"
definition AUDIT_EXPORT_MAX_BYTES :: int where "AUDIT_EXPORT_MAX_BYTES = 5 * 1024 * 1024"
definition AUDIT_READ_CAPABILITY :: string where "AUDIT_READ_CAPABILITY = ''audit:read''"
definition AUDIT_EXPORT_CAPABILITY :: string where "AUDIT_EXPORT_CAPABILITY = ''audit:export''"
definition AUDIT_GLOBAL_CAPABILITY :: string where "AUDIT_GLOBAL_CAPABILITY = ''audit:global''"

record AuditQuery =
  aq_tenant :: "string option"
  aq_cursor :: "string option"
  aq_limit :: "int option"

record AuditPage =
  ap_events :: "AuditRow list"
  ap_next :: "string option"

record AuditExportQuery =
  xq_tenant :: "string option"
  xq_cursor :: "string option"
  xq_limit :: "int option"

record AuditExport =
  ax_ndjson :: string
  ax_rows :: nat
  ax_bytes :: nat
  ax_truncated :: bool
  ax_next :: "string option"
  ax_reason :: "string option"

record CursorPayload =
  cp_v :: int
  cp_tenant :: string
  cp_last_sequence :: int

section \<open>Admission\<close>

definition audit_error :: "string \<Rightarrow> AppError" where "audit_error message = Forbidden message"

definition require_capability :: "PublisherIdentity \<Rightarrow> string \<Rightarrow> string \<Rightarrow> unit result" where
  "require_capability actor capability tenant =
     (case pi_scopes actor of
        None \<Rightarrow> Inl (audit_error ''audit capability is required'')
      | Some scopes \<Rightarrow>
          if \<not> List.member scopes capability then Inl (audit_error ''audit capability is required'')
          else if tenant \<noteq> pi_org actor \<and> \<not> List.member scopes AUDIT_GLOBAL_CAPABILITY
          then Inl (audit_error ''global audit capability is required'')
          else Inr ())"

definition tenant_for :: "PublisherIdentity \<Rightarrow> string option \<Rightarrow> string result" where
  "tenant_for actor requested =
     (let tenant = trim (case requested of None \<Rightarrow> pi_org actor | Some t \<Rightarrow> t) in
      if tenant = [] \<or> 80 < length tenant \<or> List.member tenant (CHR 0x00)
      then Inl (Validation ''invalid audit tenant'') else Inr tenant)"

section \<open>Cursors\<close>

definition cursor_message :: "string \<Rightarrow> bytes" where
  "cursor_message payload = DOMAIN @ ''cursor'' @ [CHR 0x00] @ payload"

definition cursor_mac :: "(bytes \<Rightarrow> string) \<Rightarrow> string \<Rightarrow> string" where
  "cursor_mac mac payload = mac (cursor_message payload)"

text \<open>The bytes are compared without an early exit: the differences are or-ed together.\<close>

definition constant_equal :: "string \<Rightarrow> string \<Rightarrow> bool" where
  "constant_equal left right \<longleftrightarrow>
     length left = length right \<and>
     fold (\<lambda>(a, b) different. different OR (of_char a XOR of_char b)) (zip left right) (0 :: 8 word) = 0"

definition cursor_for ::
    "(CursorPayload \<Rightarrow> string) \<Rightarrow> (bytes \<Rightarrow> string) \<Rightarrow> string \<Rightarrow> int \<Rightarrow> string" where
  "cursor_for encode mac tenant last_sequence =
     (let payload = encode \<lparr> cp_v = 1, cp_tenant = tenant, cp_last_sequence = last_sequence \<rparr>
      in payload @ ''.'' @ cursor_mac mac payload)"

definition cursor_from ::
    "(string \<Rightarrow> CursorPayload option) \<Rightarrow> (bytes \<Rightarrow> string) \<Rightarrow> string option \<Rightarrow> string \<Rightarrow> int result" where
  "cursor_from decode mac cursor tenant =
     (case nonempty_filter cursor of
        None \<Rightarrow> Inr 0
      | Some c \<Rightarrow>
          (case split_on (CHR ''.'') c of
             [payload, signature] \<Rightarrow>
               if \<not> constant_equal signature (cursor_mac mac payload)
               then Inl (Validation ''invalid audit cursor'')
               else (case decode payload of
                       None \<Rightarrow> Inl (Validation ''invalid audit cursor'')
                     | Some parsed \<Rightarrow>
                         if cp_v parsed \<noteq> 1 \<or> cp_tenant parsed \<noteq> tenant
                         then Inl (Validation ''audit cursor does not match tenant'')
                         else Inr (cp_last_sequence parsed))
           | _ \<Rightarrow> Inl (Validation ''invalid audit cursor'')))"

section \<open>Pages and exports\<close>

text \<open>The events are in primary-key order; a cursor beyond the signed range is an error.\<close>

definition audit_rows :: "ledger \<Rightarrow> string \<Rightarrow> int \<Rightarrow> int \<Rightarrow> AuditRow list result" where
  "audit_rows l tenant after limit =
     (if i64_max < after \<or> i64_max < limit then Inl Internal
      else Inr (map audit_row_of (take (nat limit)
             (filter (\<lambda>r. ac_tenant (er_context r) = tenant \<and> after < er_sequence r) (al_events l)))))"

definition clamp :: "int \<Rightarrow> int \<Rightarrow> int \<Rightarrow> int" where
  "clamp lo hi x = max lo (min hi x)"

definition query_authorized ::
    "(CursorPayload \<Rightarrow> string) \<Rightarrow> (string \<Rightarrow> CursorPayload option) \<Rightarrow> (bytes \<Rightarrow> string) \<Rightarrow> ledger \<Rightarrow>
     PublisherIdentity \<Rightarrow> AuditQuery \<Rightarrow> AuditPage result" where
  "query_authorized encode decode mac l actor query =
     try_bind (tenant_for actor (aq_tenant query)) (\<lambda>tenant.
     try_bind (require_capability actor AUDIT_READ_CAPABILITY tenant) (\<lambda>_.
     try_bind (cursor_from decode mac (aq_cursor query) tenant) (\<lambda>after.
     let limit = clamp 1 AUDIT_MAX_LIMIT (case aq_limit query of None \<Rightarrow> AUDIT_DEFAULT_LIMIT | Some n \<Rightarrow> n) in
     try_bind (audit_rows l tenant after (limit + 1)) (\<lambda>found.
     let has_more = limit < int (length found);
         rows = take (nat limit) found;
         next_cursor = (if has_more \<and> rows \<noteq> []
           then Some (cursor_for encode mac tenant (ar_sequence (last rows))) else None)
     in Inr \<lparr> ap_events = rows, ap_next = next_cursor \<rparr>))))"

text \<open>The loop that stops before the first line that would exceed the byte cap.\<close>

fun export_lines :: "(AuditRow \<Rightarrow> string) \<Rightarrow> AuditRow list \<Rightarrow> string \<Rightarrow> nat \<Rightarrow> int option \<Rightarrow> string \<times> nat \<times> int option" where
  "export_lines row_json [] ndjson count last_sequence = (ndjson, count, last_sequence)"
| "export_lines row_json (row # rows) ndjson count last_sequence =
     (let line = row_json row @ [CHR 0x0A] in
      if AUDIT_EXPORT_MAX_BYTES < int (length ndjson + length line) then (ndjson, count, last_sequence)
      else export_lines row_json rows (ndjson @ line) (count + 1) (Some (ar_sequence row)))"

definition export_authorized ::
    "(CursorPayload \<Rightarrow> string) \<Rightarrow> (string \<Rightarrow> CursorPayload option) \<Rightarrow> (AuditRow \<Rightarrow> string) \<Rightarrow> (bytes \<Rightarrow> string) \<Rightarrow>
     ledger \<Rightarrow> PublisherIdentity \<Rightarrow> AuditExportQuery \<Rightarrow> AuditExport result" where
  "export_authorized encode decode row_json mac l actor query =
     try_bind (tenant_for actor (xq_tenant query)) (\<lambda>tenant.
     try_bind (require_capability actor AUDIT_EXPORT_CAPABILITY tenant) (\<lambda>_.
     try_bind (require_capability actor AUDIT_READ_CAPABILITY tenant) (\<lambda>_.
     try_bind (cursor_from decode mac (xq_cursor query) tenant) (\<lambda>after.
     let limit = clamp 1 AUDIT_EXPORT_MAX_ROWS (case xq_limit query of None \<Rightarrow> AUDIT_EXPORT_MAX_ROWS | Some n \<Rightarrow> n) in
     try_bind (audit_rows l tenant after (limit + 1)) (\<lambda>rows.
     case export_lines row_json (take (nat limit) rows) [] 0 None of
       (ndjson, count, last_sequence) \<Rightarrow>
         let truncated = count < length rows in
         Inr \<lparr> ax_ndjson = ndjson, ax_rows = count, ax_bytes = length ndjson, ax_truncated = truncated,
               ax_next = (if 0 < count \<and> truncated
                          then map_option (cursor_for encode mac tenant) last_sequence else None),
               ax_reason = (if count = 0 \<and> rows \<noteq> [] then Some ''first_row_exceeds_export_cap'' else None) \<rparr>)))))"

definition query_tenant :: "ledger \<Rightarrow> string \<Rightarrow> int \<Rightarrow> int \<Rightarrow> AuditRow list result" where
  "query_tenant l tenant after limit = audit_rows l tenant after (clamp 1 500 limit)"

section \<open>Audited mutations (audit/append.rs, audit/access.rs)\<close>

text \<open>
  The business tables are a state \<open>'s\<close>; an error of the mutation or of the append drops the
  transaction, so nothing of either remains.
\<close>

definition mutate_in_transaction ::
    "(bytes \<Rightarrow> string) \<Rightarrow> (bytes \<Rightarrow> string) \<Rightarrow> MutationAudit \<Rightarrow> string \<Rightarrow> string \<Rightarrow>
     ('s \<Rightarrow> (('v \<times> AuditEvent) \<times> 's) result) \<Rightarrow> 's \<Rightarrow> ledger \<Rightarrow> ('v \<times> 's \<times> ledger) result" where
  "mutate_in_transaction mac sha audit event_id occurred_at mutation s l =
     try_bind (mutation s) (\<lambda>((v, event), s').
     try_bind (append_in_transaction mac sha l event_id (ma_context audit) event occurred_at) (\<lambda>(row, l').
     Inr (v, s', l')))"

definition live_action_operation :: "string \<Rightarrow> string" where
  "live_action_operation classification =
     (if starts_with classification ''investigate-finding.'' then ''artifact.action.investigate-finding''
      else if starts_with classification ''analyze-differences.'' then ''artifact.action.analyze-differences''
      else ''artifact.action.check-live-signals'')"

definition record_live_action ::
    "(bytes \<Rightarrow> string) \<Rightarrow> (bytes \<Rightarrow> string) \<Rightarrow> ledger \<Rightarrow> MutationAudit \<Rightarrow> string \<Rightarrow> string \<Rightarrow> string \<Rightarrow> int \<Rightarrow>
     string \<Rightarrow> string \<Rightarrow> ledger result" where
  "record_live_action mac sha l audit event_id occurred_at artifact_id revision outcome classification =
     try_bind (mutate_in_transaction mac sha audit event_id occurred_at
       (\<lambda>s. Inr (((), \<lparr> ae_operation = live_action_operation classification, ae_target_type = ''artifact'',
          ae_target_id = artifact_id, ae_result = outcome, ae_classification = classification,
          ae_revision = Some revision \<rparr>), s)) () l)
       (\<lambda>(v, s, l'). Inr l')"

section \<open>Cursors are exact and bound to their tenant\<close>

lemma of_char_word_inject: "(of_char a :: 8 word) = of_char b \<longleftrightarrow> a = b"
proof
  assume "(of_char a :: 8 word) = of_char b"
  then have "unat (of_nat (of_char a) :: 8 word) = unat (of_nat (of_char b) :: 8 word)"
    by (simp only: of_nat_of_char)
  then show "a = b" by (simp add: unat_of_nat)
qed simp

lemma fold_differences:
  "fold (\<lambda>(a, b) different. different OR (of_char a XOR of_char b)) zs d = (0 :: 8 word) \<longleftrightarrow>
     d = 0 \<and> (\<forall>(a, b) \<in> set zs. a = b)"
proof (induction zs arbitrary: d)
  case (Cons z zs)
  have "a XOR b = 0 \<longleftrightarrow> a = b" for a b :: "8 word" by (auto simp: bit_eq_iff bit_xor_iff)
  then show ?case
    by (cases z) (auto simp: Cons.IH or_eq_0_iff of_char_word_inject)
qed simp

lemma constant_equal_iff: "constant_equal left right \<longleftrightarrow> left = right"
proof -
  have "constant_equal left right \<longleftrightarrow> list_all2 (=) left right"
    by (simp add: constant_equal_def fold_differences list_all2_iff)
  then show ?thesis by (simp add: list.rel_eq)
qed

lemma constant_equal_code [code]: "constant_equal left right \<longleftrightarrow> left = right"
  by (rule constant_equal_iff)

definition codec_ok :: "(CursorPayload \<Rightarrow> string) \<Rightarrow> (string \<Rightarrow> CursorPayload option) \<Rightarrow> bool" where
  "codec_ok encode decode \<longleftrightarrow> (\<forall>p. decode (encode p) = Some p \<and> CHR ''.'' \<notin> set (encode p))"

lemma cursor_from_for:
  assumes "codec_ok encode decode" and "\<forall>m. CHR ''.'' \<notin> set (mac m)"
  shows "cursor_from decode mac (Some (cursor_for encode mac t s)) t' =
    (if t = t' then Inr s else Inl (Validation ''audit cursor does not match tenant''))"
  using assms
  by (simp add: cursor_from_def cursor_for_def Let_def nonempty_filter_def codec_ok_def split_on_append_sep
      split_on_single constant_equal_iff cursor_mac_def)

lemma nonempty_cursor: "cursor_for encode mac t s \<noteq> []"
  by (simp add: cursor_for_def Let_def)

section \<open>Paging\<close>

lemma checkpoints_advance:
  "verify_checkpoints mac cs e b p = Inr (Some (e', b')) \<Longrightarrow> e \<le> e'"
proof (induction cs arbitrary: e b p)
  case (Cons c cs)
  then have "ck_first c = e" "e \<le> ck_last c"
    and "verify_checkpoints mac cs (ck_last c + 1) (ck_bridge c) (ck_hash c) = Inr (Some (e', b'))"
    by (auto split: if_splits)
  then show ?case using Cons.IH by fastforce
qed simp

lemma filter_after_take:
  fixes f :: "'a \<Rightarrow> int"
  assumes "sorted_wrt (\<lambda>x y. f x < f y) xs" and "0 < k" and "k \<le> length xs"
  shows "filter (\<lambda>x. f (last (take k xs)) < f x) xs = drop k xs"
  using assms
proof (induction xs arbitrary: k)
  case (Cons x xs)
  show ?case
  proof (cases "k = 1")
    case True
    then show ?thesis using Cons.prems(1) by (simp add: filter_id_conv)
  next
    case False
    then obtain j where k: "k = Suc j" "0 < j" using Cons.prems(2) by (cases k) auto
    then have j: "j \<le> length xs" "take j xs \<noteq> []" using Cons.prems(3) by auto
    have "last (take j xs) \<in> set xs" by (rule in_set_takeD [OF last_in_set [OF j(2)]])
    then have "f x < f (last (take j xs))" using Cons.prems(1) by simp
    then show ?thesis using Cons.IH [OF _ k(2) j(1)] Cons.prems(1) j(2) by (auto simp: k)
  qed
qed simp

definition tenant_after :: "ledger \<Rightarrow> string \<Rightarrow> int \<Rightarrow> EventRow list" where
  "tenant_after l t a = filter (\<lambda>r. ac_tenant (er_context r) = t \<and> a < er_sequence r) (al_events l)"

lemma ledger_ok_sequences:
  assumes "ledger_ok mac sha l"
  shows "sorted_wrt (\<lambda>x y. er_sequence x < er_sequence y) (al_events l)"
    and "r \<in> set (al_events l) \<Longrightarrow> 0 < er_sequence r \<and> er_sequence r \<le> i64_max"
proof -
  obtain e b n p h where c: "verify_checkpoints mac (al_checkpoints l) 1 [] [] = Inr (Some (e, b))"
    and v: "verify_events mac (al_events l) e b = Inr (Some (n, p))"
    and h: "al_head l = Some h" "verify_head_mac mac h = Inr (n - 1)"
    using assms by (auto simp: ledger_ok_def verify_iff chain_ok_def)
  have "1 \<le> e" using c by (rule checkpoints_advance)
  moreover note seqs = verify_events_end [OF v]
  moreover have "n - 1 \<le> i64_max" using assms h by (auto simp: ledger_ok_def sequence_bounded_def verify_head_mac_iff)
  ultimately show "r \<in> set (al_events l) \<Longrightarrow> 0 < er_sequence r \<and> er_sequence r \<le> i64_max"
    by (auto simp: in_set_conv_nth)
  show "sorted_wrt (\<lambda>x y. er_sequence x < er_sequence y) (al_events l)"
    using seqs by (simp add: sorted_wrt_iff_nth_less)
qed

lemma tenant_after_sorted:
  assumes "ledger_ok mac sha l"
  shows "sorted_wrt (\<lambda>x y. er_sequence x < er_sequence y) (tenant_after l t a)"
  unfolding tenant_after_def by (rule sorted_wrt_filter [OF ledger_ok_sequences(1) [OF assms]])

lemma tenant_after_next:
  assumes "ledger_ok mac sha l" and "0 < k" and "k \<le> length (tenant_after l t a)"
  shows "tenant_after l t (er_sequence (last (take k (tenant_after l t a)))) = drop k (tenant_after l t a)"
    and "er_sequence (last (take k (tenant_after l t a))) \<le> i64_max"
proof -
  let ?x = "last (take k (tenant_after l t a))"
  have "take k (tenant_after l t a) \<noteq> []" using assms(2,3) by auto
  then have "?x \<in> set (tenant_after l t a)" by (rule in_set_takeD [OF last_in_set])
  then have a: "a < er_sequence ?x" and "?x \<in> set (al_events l)" by (auto simp: tenant_after_def)
  then show "er_sequence ?x \<le> i64_max" using ledger_ok_sequences(2) [OF assms(1)] by blast
  have "filter (\<lambda>r. er_sequence ?x < er_sequence r) (tenant_after l t a) = drop k (tenant_after l t a)"
    by (rule filter_after_take [OF tenant_after_sorted [OF assms(1)] assms(2,3)])
  moreover have "filter (\<lambda>r. er_sequence ?x < er_sequence r) (tenant_after l t a) = tenant_after l t (er_sequence ?x)"
    using a by (auto simp: tenant_after_def intro!: filter_cong)
  ultimately show "tenant_after l t (er_sequence ?x) = drop k (tenant_after l t a)" by simp
qed

text \<open>A client that follows the cursors until there is none.\<close>

fun follow :: "(string option \<Rightarrow> AuditPage result) \<Rightarrow> nat \<Rightarrow> string option \<Rightarrow> AuditRow list option" where
  "follow page 0 c = None"
| "follow page (Suc n) c =
     (case page c of
        Inl _ \<Rightarrow> None
      | Inr p \<Rightarrow>
          (case ap_next p of
             None \<Rightarrow> Some (ap_events p)
           | Some c' \<Rightarrow> map_option (\<lambda>rs. ap_events p @ rs) (follow page n (Some c'))))"

lemma clamp_bounds: "lo \<le> hi \<Longrightarrow> lo \<le> clamp lo hi x \<and> clamp lo hi x \<le> hi"
  by (simp add: clamp_def)

text \<open>One page: the next rows, and a cursor exactly when rows remain.\<close>

lemma query_page:
  assumes "tenant_for actor (aq_tenant q) = Inr t" and "require_capability actor AUDIT_READ_CAPABILITY t = Inr ()"
    and "cursor_from decode mac (aq_cursor q) t = Inr a" and "a \<le> i64_max"
  obtains k where "0 < k" and "k \<le> 500"
    and "query_authorized encode decode mac l actor q = Inr \<lparr> ap_events = map audit_row_of (take k (tenant_after l t a)),
      ap_next = (if k < length (tenant_after l t a)
        then Some (cursor_for encode mac t (ar_sequence (audit_row_of (last (take k (tenant_after l t a)))))) else None) \<rparr>"
proof -
  define m where "m = clamp 1 AUDIT_MAX_LIMIT (case aq_limit q of None \<Rightarrow> AUDIT_DEFAULT_LIMIT | Some n \<Rightarrow> n)"
  have m: "1 \<le> m" "m \<le> 500" unfolding m_def using clamp_bounds [of 1 AUDIT_MAX_LIMIT] by (simp_all add: AUDIT_MAX_LIMIT_def)
  then obtain k where k: "m = int k" "0 < k" by (metis nonneg_int_cases of_nat_0_less_iff order_trans zero_le_one zero_less_one less_le_trans)
  let ?R = "tenant_after l t a"
  have rows: "audit_rows l t a (int k + 1) = Inr (map audit_row_of (take (Suc k) ?R))"
    using assms(4) m k by (simp add: audit_rows_def tenant_after_def i64_defs nat_add_distrib)
  have tk: "take k (map audit_row_of (take (Suc k) ?R)) = map audit_row_of (take k ?R)" by (simp add: take_map)
  have more: "int k < int (length (map audit_row_of (take (Suc k) ?R))) \<longleftrightarrow> k < length ?R" by auto
  have ne: "k < length ?R \<Longrightarrow> take k ?R \<noteq> []" using k(2) by auto
  have "query_authorized encode decode mac l actor q = Inr \<lparr> ap_events = map audit_row_of (take k ?R),
      ap_next = (if k < length ?R then Some (cursor_for encode mac t (ar_sequence (audit_row_of (last (take k ?R))))) else None) \<rparr>"
    unfolding query_authorized_def Let_def assms(1-3) try_bind_simps m_def [symmetric] k(1) rows nat_int tk more
    using ne by (auto simp: last_map)
  moreover have "k \<le> 500" using m k by simp
  ultimately show thesis using that k(2) by blast
qed

lemma follow_reads_all:
  assumes ok: "ledger_ok mac sha l" and codec: "codec_ok encode decode" "\<forall>m. CHR ''.'' \<notin> set (mac m)"
    and tn: "tenant_for actor (aq_tenant q) = Inr t" and cap: "require_capability actor AUDIT_READ_CAPABILITY t = Inr ()"
    and c: "cursor_from decode mac c t = Inr a" and a: "a \<le> i64_max" and n: "length (tenant_after l t a) < n"
  shows "follow (\<lambda>c. query_authorized encode decode mac l actor (q\<lparr>aq_cursor := c\<rparr>)) n c =
    Some (map audit_row_of (tenant_after l t a))"
  using c a n
proof (induction n arbitrary: c a)
  case 0
  then show ?case by simp
next
  case (Suc n)
  obtain k where k: "0 < k" and page: "query_authorized encode decode mac l actor (q\<lparr>aq_cursor := c\<rparr>) =
    Inr \<lparr> ap_events = map audit_row_of (take k (tenant_after l t a)),
      ap_next = (if k < length (tenant_after l t a)
        then Some (cursor_for encode mac t (ar_sequence (audit_row_of (last (take k (tenant_after l t a)))))) else None) \<rparr>"
    by (rule query_page [of actor "q\<lparr>aq_cursor := c\<rparr>" t decode mac a encode l]) (use tn cap Suc.prems in \<open>auto intro: that\<close>)
  let ?R = "tenant_after l t a" let ?x = "last (take k ?R)"
  show ?case
  proof (cases "k < length ?R")
    case True
    have "take k ?R \<noteq> []" using True k by auto
    then have "?x \<in> set ?R" by (rule in_set_takeD [OF last_in_set])
    then have s: "ar_sequence (audit_row_of ?x) = er_sequence ?x"
      using ledger_ok_sequences(2) [OF ok, of ?x] by (auto simp: audit_row_of_def tenant_after_def)
    note nxt = tenant_after_next [OF ok k, of t a]
    have rec: "follow (\<lambda>c. query_authorized encode decode mac l actor (q\<lparr>aq_cursor := c\<rparr>)) n
        (Some (cursor_for encode mac t (er_sequence ?x))) = Some (map audit_row_of (drop k ?R))"
      using Suc.IH [of "Some (cursor_for encode mac t (er_sequence ?x))" "er_sequence ?x"] nxt True Suc.prems k
      by (simp add: cursor_from_for [OF codec])
    show ?thesis using True page s rec by (simp flip: map_append)
  next
    case False
    then show ?thesis using page by simp
  qed
qed

section \<open>Exports\<close>

definition export_line :: "(AuditRow \<Rightarrow> string) \<Rightarrow> AuditRow \<Rightarrow> string" where
  "export_line row_json row = row_json row @ [CHR 0x0A]"

lemma export_lines_spec:
  assumes "export_lines row_json rows nd c ls = (nd', c', ls')" and "int (length nd) \<le> AUDIT_EXPORT_MAX_BYTES"
  shows "\<exists>k \<le> length rows. nd' = nd @ concat (map (export_line row_json) (take k rows)) \<and> c' = c + k \<and>
    ls' = (if k = 0 then ls else Some (ar_sequence (last (take k rows)))) \<and>
    int (length nd') \<le> AUDIT_EXPORT_MAX_BYTES \<and>
    (k < length rows \<longrightarrow> AUDIT_EXPORT_MAX_BYTES < int (length nd' + length (export_line row_json (rows ! k))))"
  using assms
proof (induction rows arbitrary: nd c ls)
  case Nil
  then show ?case by simp
next
  case (Cons row rows)
  let ?line = "export_line row_json row"
  show ?case
  proof (cases "AUDIT_EXPORT_MAX_BYTES < int (length nd + length ?line)")
    case True
    then show ?thesis using Cons.prems by (intro exI [of _ 0]) (simp add: Let_def export_line_def)
  next
    case False
    then have e: "export_lines row_json rows (nd @ ?line) (c + 1) (Some (ar_sequence row)) = (nd', c', ls')"
      and l: "int (length (nd @ ?line)) \<le> AUDIT_EXPORT_MAX_BYTES"
      using Cons.prems(1) by (simp_all add: Let_def export_line_def)
    obtain k where k: "k \<le> length rows" "nd' = (nd @ ?line) @ concat (map (export_line row_json) (take k rows))"
      "c' = c + 1 + k" "ls' = (if k = 0 then Some (ar_sequence row) else Some (ar_sequence (last (take k rows))))"
      "int (length nd') \<le> AUDIT_EXPORT_MAX_BYTES"
      "k < length rows \<longrightarrow> AUDIT_EXPORT_MAX_BYTES < int (length nd' + length (export_line row_json (rows ! k)))"
      using Cons.IH [OF e l] by blast
    have "take k rows \<noteq> []" if "k \<noteq> 0" using that k(1) by auto
    then show ?thesis using k by (intro exI [of _ "Suc k"]) auto
  qed
qed

lemma export_lines_start:
  assumes "export_lines row_json rows [] 0 None = (nd, c, ls)"
  shows "c \<le> length rows \<and> nd = concat (map (export_line row_json) (take c rows)) \<and>
    ls = (if c = 0 then None else Some (ar_sequence (last (take c rows)))) \<and>
    int (length nd) \<le> AUDIT_EXPORT_MAX_BYTES \<and>
    (c < length rows \<longrightarrow> AUDIT_EXPORT_MAX_BYTES < int (length nd + length (export_line row_json (rows ! c))))"
proof -
  have "int (length ([] :: string)) \<le> AUDIT_EXPORT_MAX_BYTES" by (simp add: AUDIT_EXPORT_MAX_BYTES_def)
  from export_lines_spec [OF assms this] show ?thesis by force
qed

lemma tenant_for_Inr: "tenant_for actor requested = Inr t \<Longrightarrow>
   t = trim (case requested of None \<Rightarrow> pi_org actor | Some t \<Rightarrow> t) \<and> t \<noteq> [] \<and> length t \<le> 80"
  by (auto simp: tenant_for_def Let_def split: if_splits)

lemma require_capability_Inr: "require_capability actor c t = Inr () \<longleftrightarrow>
   (\<exists>scopes. pi_scopes actor = Some scopes \<and> c \<in> set scopes \<and> (t = pi_org actor \<or> AUDIT_GLOBAL_CAPABILITY \<in> set scopes))"
  by (auto simp: require_capability_def split: option.splits if_splits)

lemma audit_rows_Inr:
  "audit_rows l t a n = Inr rows \<longleftrightarrow> a \<le> i64_max \<and> n \<le> i64_max \<and> rows = map audit_row_of (take (nat n) (tenant_after l t a))"
  by (auto simp: audit_rows_def tenant_after_def)

lemma export_page:
  assumes "export_authorized encode decode row_json mac l actor q = Inr x"
  obtains t a rows nd c ls where "require_capability actor AUDIT_READ_CAPABILITY t = Inr ()"
    and "require_capability actor AUDIT_EXPORT_CAPABILITY t = Inr ()"
    and "tenant_for actor (xq_tenant q) = Inr t"
    and "cursor_from decode mac (xq_cursor q) t = Inr a"
    and "audit_rows l t a (clamp 1 AUDIT_EXPORT_MAX_ROWS (case xq_limit q of None \<Rightarrow> AUDIT_EXPORT_MAX_ROWS | Some n \<Rightarrow> n) + 1) = Inr rows"
    and "export_lines row_json (take (nat (clamp 1 AUDIT_EXPORT_MAX_ROWS
           (case xq_limit q of None \<Rightarrow> AUDIT_EXPORT_MAX_ROWS | Some n \<Rightarrow> n))) rows) [] 0 None = (nd, c, ls)"
    and "x = \<lparr> ax_ndjson = nd, ax_rows = c, ax_bytes = length nd, ax_truncated = c < length rows,
               ax_next = (if 0 < c \<and> c < length rows then map_option (cursor_for encode mac t) ls else None),
               ax_reason = (if c = 0 \<and> rows \<noteq> [] then Some ''first_row_exceeds_export_cap'' else None) \<rparr>"
proof -
  define m where "m = clamp 1 AUDIT_EXPORT_MAX_ROWS (case xq_limit q of None \<Rightarrow> AUDIT_EXPORT_MAX_ROWS | Some n \<Rightarrow> n)"
  obtain t a rows where 1: "require_capability actor AUDIT_READ_CAPABILITY t = Inr ()"
    "require_capability actor AUDIT_EXPORT_CAPABILITY t = Inr ()" "tenant_for actor (xq_tenant q) = Inr t"
    "cursor_from decode mac (xq_cursor q) t = Inr a" "audit_rows l t a (m + 1) = Inr rows"
    using assms unfolding export_authorized_def Let_def m_def [symmetric] by (auto simp: result_simps)
  obtain nd c ls where e: "export_lines row_json (take (nat m) rows) [] 0 None = (nd, c, ls)" by (rule prod_cases3)
  show thesis
    using that [of t a rows nd c ls] 1 e assms unfolding export_authorized_def Let_def m_def [symmetric] by simp
qed

text \<open>
  An export holds exactly the leading events of the tenant after the cursor, one JSON line
  each, in order: at most ten thousand, at most five mebibytes, and as many as those two
  limits allow. It is marked truncated exactly when events of the page remain, and its cursor then
  continues right after the last exported event, for the same tenant only.\<close>

theorem audit_export_exact:
  assumes "codec_ok encode decode" and "\<forall>m. CHR ''.'' \<notin> set (mac m)"
    and "export_authorized encode decode row_json mac l actor q = Inr x"
  shows "\<exists>t a n. tenant_for actor (xq_tenant q) = Inr t \<and> cursor_from decode mac (xq_cursor q) t = Inr a \<and>
    1 \<le> n \<and> n \<le> 10000 \<and> ax_rows x \<le> n \<and> ax_rows x \<le> length (tenant_after l t a) \<and>
    ax_ndjson x = concat (map (export_line row_json) (map audit_row_of (take (ax_rows x) (tenant_after l t a)))) \<and>
    ax_bytes x = length (ax_ndjson x) \<and> int (ax_bytes x) \<le> AUDIT_EXPORT_MAX_BYTES \<and>
    ax_truncated x = (ax_rows x < length (tenant_after l t a)) \<and>
    (ax_rows x < min n (length (tenant_after l t a)) \<longrightarrow> AUDIT_EXPORT_MAX_BYTES <
       int (ax_bytes x + length (export_line row_json (audit_row_of (tenant_after l t a ! ax_rows x))))) \<and>
    (\<forall>c. ax_next x = Some c \<longrightarrow> ax_truncated x \<and> (\<forall>t'. cursor_from decode mac (Some c) t' =
       (if t = t' then Inr (ar_sequence (audit_row_of (tenant_after l t a ! (ax_rows x - 1))))
        else Inl (Validation ''audit cursor does not match tenant''))))"
proof -
  define m where "m = clamp 1 AUDIT_EXPORT_MAX_ROWS (case xq_limit q of None \<Rightarrow> AUDIT_EXPORT_MAX_ROWS | Some n \<Rightarrow> n)"
  have m: "1 \<le> m" "m \<le> 10000" unfolding m_def using clamp_bounds [of 1 AUDIT_EXPORT_MAX_ROWS] by (simp_all add: AUDIT_EXPORT_MAX_ROWS_def)
  define n where "n = nat m"
  have n: "m = int n" "1 \<le> n" "n \<le> 10000" "nat (m + 1) = Suc n" using m by (simp_all add: n_def nat_add_distrib)
  obtain t a rows nd c ls where "require_capability actor AUDIT_READ_CAPABILITY t = Inr ()"
    and "require_capability actor AUDIT_EXPORT_CAPABILITY t = Inr ()" and t: "tenant_for actor (xq_tenant q) = Inr t"
    and a: "cursor_from decode mac (xq_cursor q) t = Inr a" and rows: "audit_rows l t a (m + 1) = Inr rows"
    and e: "export_lines row_json (take n rows) [] 0 None = (nd, c, ls)"
    and x: "x = \<lparr> ax_ndjson = nd, ax_rows = c, ax_bytes = length nd, ax_truncated = c < length rows,
               ax_next = (if 0 < c \<and> c < length rows then map_option (cursor_for encode mac t) ls else None),
               ax_reason = (if c = 0 \<and> rows \<noteq> [] then Some ''first_row_exceeds_export_cap'' else None) \<rparr>"
    by (rule export_page [OF assms(3), folded m_def, folded n_def])
  let ?R = "tenant_after l t a"
  have r: "rows = map audit_row_of (take (Suc n) ?R)" using rows n(4) by (simp add: audit_rows_Inr)
  then have tr: "take n rows = map audit_row_of (take n ?R)" by (simp add: take_map)
  note k = export_lines_start [OF e]
  have kn: "c \<le> n" "c \<le> length ?R" using k by (simp_all add: tr)
  then have tk: "take c (take n rows) = map audit_row_of (take c ?R)" by (simp add: tr take_map)
  have trunc: "(c < length rows) = (c < length ?R)" using kn by (auto simp: r)
  have lst: "ar_sequence (last (take c (take n rows))) = ar_sequence (audit_row_of (?R ! (c - 1)))" if "0 < c"
    using that kn unfolding tk by (subst last_conv_nth) auto
  have nx: "\<forall>t'. cursor_from decode mac (Some cu) t' =
       (if t = t' then Inr (ar_sequence (audit_row_of (?R ! (c - 1))))
        else Inl (Validation ''audit cursor does not match tenant''))"
    if "(if 0 < c \<and> c < length rows then map_option (cursor_for encode mac t) ls else None) = Some cu" for cu
    using that k lst by (auto simp: cursor_from_for [OF assms(1,2)] split: if_splits)
  have cap: "AUDIT_EXPORT_MAX_BYTES < int (length nd + length (export_line row_json (audit_row_of (?R ! c))))"
    if "c < min n (length ?R)"
  proof -
    have "c < length (take n rows)" using that by (simp add: tr)
    then have "AUDIT_EXPORT_MAX_BYTES < int (length nd + length (export_line row_json (take n rows ! c)))"
      using k by blast
    then show ?thesis using that by (simp add: tr)
  qed
  show ?thesis
    by (intro exI [of _ t] exI [of _ a] exI [of _ n]) (use t a n kn k tk trunc nx cap in \<open>auto simp: x\<close>)
qed

text \<open>
  C39. The readers of the ledger are gated. A page or an export is produced only for a scoped
  credential that holds the capability explicitly, never for a legacy key, and only for the
  credential's own organization unless it also holds the global capability; every row it returns
  belongs to that tenant.\<close>

theorem audit_readers_gated:
  "(\<forall>page. query_authorized encode decode mac l actor q = Inr page \<longrightarrow>
      (\<exists>scopes t. pi_scopes actor = Some scopes \<and> AUDIT_READ_CAPABILITY \<in> set scopes \<and>
        t = trim (case aq_tenant q of None \<Rightarrow> pi_org actor | Some t \<Rightarrow> t) \<and>
        (t = pi_org actor \<or> AUDIT_GLOBAL_CAPABILITY \<in> set scopes) \<and>
        (\<forall>r \<in> set (ap_events page). ar_tenant r = t) \<and> length (ap_events page) \<le> 500)) \<and>
   (\<forall>x. export_authorized encode decode row_json mac l actor xq = Inr x \<longrightarrow>
      (\<exists>scopes t rows. pi_scopes actor = Some scopes \<and> AUDIT_READ_CAPABILITY \<in> set scopes \<and>
        AUDIT_EXPORT_CAPABILITY \<in> set scopes \<and>
        t = trim (case xq_tenant xq of None \<Rightarrow> pi_org actor | Some t \<Rightarrow> t) \<and>
        (t = pi_org actor \<or> AUDIT_GLOBAL_CAPABILITY \<in> set scopes) \<and>
        ax_ndjson x = concat (map (export_line row_json) rows) \<and> (\<forall>r \<in> set rows. ar_tenant r = t)))"
proof (intro conjI allI impI)
  fix page assume p: "query_authorized encode decode mac l actor q = Inr page"
  then obtain t a where t: "tenant_for actor (aq_tenant q) = Inr t"
    and c: "require_capability actor AUDIT_READ_CAPABILITY t = Inr ()"
    and a: "cursor_from decode mac (aq_cursor q) t = Inr a"
    and b: "a \<le> i64_max"
    unfolding query_authorized_def Let_def by (auto simp: result_simps audit_rows_Inr)
  obtain k where "ap_events page = map audit_row_of (take k (tenant_after l t a))" "k \<le> 500"
    by (rule query_page [OF t c a b, of encode l]) (use p in auto)
  then have "(\<forall>r \<in> set (ap_events page). ar_tenant r = t) \<and> length (ap_events page) \<le> 500"
    by (auto simp: audit_row_of_def tenant_after_def dest!: in_set_takeD)
  then show "\<exists>scopes t. pi_scopes actor = Some scopes \<and> AUDIT_READ_CAPABILITY \<in> set scopes \<and>
        t = trim (case aq_tenant q of None \<Rightarrow> pi_org actor | Some t \<Rightarrow> t) \<and>
        (t = pi_org actor \<or> AUDIT_GLOBAL_CAPABILITY \<in> set scopes) \<and>
        (\<forall>r \<in> set (ap_events page). ar_tenant r = t) \<and> length (ap_events page) \<le> 500"
    using c tenant_for_Inr [OF t] unfolding require_capability_Inr by blast
next
  fix x assume x: "export_authorized encode decode row_json mac l actor xq = Inr x"
  obtain t a rows nd c ls n where c: "require_capability actor AUDIT_READ_CAPABILITY t = Inr ()"
    "require_capability actor AUDIT_EXPORT_CAPABILITY t = Inr ()" and t: "tenant_for actor (xq_tenant xq) = Inr t"
    and rows: "audit_rows l t a n = Inr rows" and e: "export_lines row_json (take (nat (n - 1)) rows) [] 0 None = (nd, c, ls)"
    and nd: "ax_ndjson x = nd"
    by (rule export_page [OF x]) auto
  have "nd = concat (map (export_line row_json) (take c (take (nat (n - 1)) rows)))"
    using export_lines_start [OF e] by simp
  moreover have "\<forall>r \<in> set rows. ar_tenant r = t"
    using rows by (auto simp: audit_rows_Inr audit_row_of_def tenant_after_def dest!: in_set_takeD)
  ultimately have "ax_ndjson x = concat (map (export_line row_json) (take c (take (nat (n - 1)) rows))) \<and>
      (\<forall>r \<in> set (take c (take (nat (n - 1)) rows)). ar_tenant r = t)"
    using nd by (auto dest!: in_set_takeD)
  then show "\<exists>scopes t rows. pi_scopes actor = Some scopes \<and> AUDIT_READ_CAPABILITY \<in> set scopes \<and>
        AUDIT_EXPORT_CAPABILITY \<in> set scopes \<and>
        t = trim (case xq_tenant xq of None \<Rightarrow> pi_org actor | Some t \<Rightarrow> t) \<and>
        (t = pi_org actor \<or> AUDIT_GLOBAL_CAPABILITY \<in> set scopes) \<and>
        ax_ndjson x = concat (map (export_line row_json) rows) \<and> (\<forall>r \<in> set rows. ar_tenant r = t)"
    using c tenant_for_Inr [OF t] unfolding require_capability_Inr by fastforce
qed

text \<open>
  C38. Following the cursors of a page query, whatever the page size, ends and reads every
  event of the tenant exactly once, in sequence order.\<close>

theorem audit_pages_complete:
  assumes "ledger_ok mac sha l" and "codec_ok encode decode" and "\<forall>m. CHR ''.'' \<notin> set (mac m)"
    and "tenant_for actor (aq_tenant q) = Inr t" and "require_capability actor AUDIT_READ_CAPABILITY t = Inr ()"
    and "length (al_events l) < n"
  shows "follow (\<lambda>c. query_authorized encode decode mac l actor (q\<lparr>aq_cursor := c\<rparr>)) n None =
    Some (map audit_row_of (filter (\<lambda>r. ac_tenant (er_context r) = t) (al_events l)))"
proof -
  have all: "tenant_after l t 0 = filter (\<lambda>r. ac_tenant (er_context r) = t) (al_events l)"
    using ledger_ok_sequences(2) [OF assms(1)] by (auto simp: tenant_after_def intro!: filter_cong)
  have "length (tenant_after l t 0) < n" using assms(6) by (simp add: all less_le_trans [OF le_less_trans [OF length_filter_le]])
  moreover have "cursor_from decode mac None t = Inr 0" by (simp add: cursor_from_def nonempty_filter_def)
  ultimately show ?thesis
    using follow_reads_all [OF assms(1-5), of None 0 n] by (simp add: all i64_defs)
qed

text \<open>
  A cursor is bound to its tenant: the server reads back exactly the position it wrote, for
  the tenant it wrote it for, and refuses it for every other tenant; and every cursor the server
  accepts carries the tag of its own payload.\<close>

theorem audit_cursor_roundtrip:
  assumes "codec_ok encode decode" and "\<forall>m. CHR ''.'' \<notin> set (mac m)"
  shows "cursor_from decode mac (Some (cursor_for encode mac t s)) t' =
      (if t = t' then Inr s else Inl (Validation ''audit cursor does not match tenant'')) \<and>
    (\<forall>c a. c \<noteq> [] \<and> cursor_from decode mac (Some c) t' = Inr a \<longrightarrow>
       (\<exists>payload. c = payload @ ''.'' @ mac (cursor_message payload)))"
proof -
  have "\<exists>payload. c = payload @ ''.'' @ mac (cursor_message payload)"
    if c: "c \<noteq> []" "cursor_from decode mac (Some c) t' = Inr a" for c a
  proof -
    obtain payload signature where s: "split_on (CHR ''.'') c = [payload, signature]"
      and "signature = cursor_mac mac payload"
      using c by (auto simp: cursor_from_def nonempty_filter_def constant_equal_iff split: list.splits if_splits)
    moreover have "c = payload @ ''.'' @ signature" using join_split [of "CHR ''.''" c] unfolding s by simp
    ultimately show ?thesis by (auto simp: cursor_mac_def)
  qed
  then show ?thesis using cursor_from_for [OF assms] by blast
qed

section \<open>Examples\<close>

definition demo_zig :: "int \<Rightarrow> string" where
  "demo_zig i = replicate (nat (if i < 0 then - 2 * i - 1 else 2 * i)) (CHR ''a'')"
definition demo_zag :: "string \<Rightarrow> int" where
  "demo_zag s = (if even (length s) then int (length s) div 2 else - (int (length s) + 1) div 2)"
definition demo_bit :: "bool \<Rightarrow> char" where "demo_bit b = (if b then CHR ''1'' else CHR ''0'')"
fun demo_bits :: "string \<Rightarrow> string" where
  "demo_bits [] = []"
| "demo_bits (Char a b c d e f g h # s) = map demo_bit [a, b, c, d, e, f, g, h] @ demo_bits s"
fun demo_unbits :: "string \<Rightarrow> string" where
  "demo_unbits (a # b # c # d # e # f # g # h # s) =
     Char (a = CHR ''1'') (b = CHR ''1'') (c = CHR ''1'') (d = CHR ''1'') (e = CHR ''1'') (f = CHR ''1'') (g = CHR ''1'') (h = CHR ''1'')
     # demo_unbits s"
| "demo_unbits _ = []"
definition demo_encode :: "CursorPayload \<Rightarrow> string" where
  "demo_encode p = demo_zig (cp_v p) @ '','' @ demo_zig (cp_last_sequence p) @ '','' @ demo_bits (cp_tenant p)"
definition demo_decode :: "string \<Rightarrow> CursorPayload option" where
  "demo_decode s = (case split_on (CHR '','') s of
     [v, n, t] \<Rightarrow> Some \<lparr> cp_v = demo_zag v, cp_tenant = demo_unbits t, cp_last_sequence = demo_zag n \<rparr>
   | _ \<Rightarrow> None)"

lemma demo_bits_inverse: "demo_unbits (demo_bits s) = s"
  by (induction s rule: demo_bits.induct) (auto simp: demo_bit_def)

lemma demo_bits_chars: "c \<in> set (demo_bits s) \<Longrightarrow> c = CHR ''0'' \<or> c = CHR ''1''"
  by (induction s rule: demo_bits.induct) (auto simp: demo_bit_def split: if_splits)

lemma demo_zag_inverse: "demo_zag (demo_zig i) = i"
  by (auto simp: demo_zag_def demo_zig_def even_nat_iff)

lemma demo_codec: "codec_ok demo_encode demo_decode"
proof -
  have z: "c \<notin> set (demo_zig i)" if "c \<noteq> CHR ''a''" for c i using that by (auto simp: demo_zig_def)
  have b: "CHR '','' \<notin> set (demo_bits s)" "CHR ''.'' \<notin> set (demo_bits s)" for s by (auto dest: demo_bits_chars)
  have "split_on (CHR '','') (demo_encode p) = [demo_zig (cp_v p), demo_zig (cp_last_sequence p), demo_bits (cp_tenant p)]" for p
    using split_on_append_sep [of "CHR '',''" "demo_zig (cp_v p)"] split_on_append_sep [of "CHR '',''" "demo_zig (cp_last_sequence p)"]
      split_on_single [of "CHR '',''" "demo_bits (cp_tenant p)"] z b by (simp add: demo_encode_def)
  then show ?thesis
    using z b by (auto simp: codec_ok_def demo_decode_def demo_bits_inverse demo_zag_inverse demo_encode_def)
qed

definition demo_reader :: PublisherIdentity where
  "demo_reader = \<lparr> pi_client_id = ''auditor'', pi_org = ''acme'', pi_label = ''auditor'', pi_role = Reader,
     pi_scopes = Some [''audit:read'', ''audit:export''] \<rparr>"
definition demo_all :: AuditQuery where
  "demo_all = \<lparr> aq_tenant = None, aq_cursor = None, aq_limit = Some 1 \<rparr>"

lemma demo_appended_tag_ok: "ledger_ok demo_tag (\<lambda>m. []) (demo_appended demo_tag ''t'')"
proof -
  have "is_ok (append_in_transaction demo_tag (\<lambda>m. []) (demo_start demo_tag) ''e1'' demo_context demo_event ''t'')"
    by code_simp
  then have "\<exists>row. append_in_transaction demo_tag (\<lambda>m. []) (demo_start demo_tag) ''e1'' demo_context demo_event ''t'' =
     Inr (row, demo_appended demo_tag ''t'')" by (auto simp: demo_appended_def is_ok_def split: sum.splits)
  then show ?thesis using append_ok [OF demo_start_ok] by blast
qed

lemma demo_tag_no_dot: "\<forall>m. CHR ''.'' \<notin> set (demo_tag m)" by (simp add: demo_tag_def)

theorem audit_pages_complete_witness:
  "\<exists>rows. follow (\<lambda>c. query_authorized demo_encode demo_decode demo_tag (demo_appended demo_tag ''t'') demo_reader
       (demo_all\<lparr>aq_cursor := c\<rparr>)) 5 None = Some rows \<and> length rows = 1"
proof -
  have t: "tenant_for demo_reader (aq_tenant demo_all) = Inr ''acme''" by code_simp
  have c: "require_capability demo_reader AUDIT_READ_CAPABILITY ''acme'' = Inr ()" by code_simp
  have n: "length (al_events (demo_appended demo_tag ''t'')) < 5" by code_simp
  have "length (filter (\<lambda>r. ac_tenant (er_context r) = ''acme'') (al_events (demo_appended demo_tag ''t''))) = 1" by code_simp
  then show ?thesis
    using audit_pages_complete [OF demo_appended_tag_ok demo_codec demo_tag_no_dot t c n] by simp
qed

theorem audit_cursor_roundtrip_witness:
  "cursor_from demo_decode demo_tag (Some (cursor_for demo_encode demo_tag ''acme'' 7)) ''acme'' = Inr 7"
  using audit_cursor_roundtrip [OF demo_codec demo_tag_no_dot, of "''acme''" 7 "''acme''"] by simp

theorem audit_export_exact_witness:
  "\<exists>x. export_authorized demo_encode demo_decode ar_event_id demo_tag (demo_appended demo_tag ''t'') demo_reader
       \<lparr> xq_tenant = None, xq_cursor = None, xq_limit = Some 1 \<rparr> = Inr x \<and> int (ax_bytes x) \<le> AUDIT_EXPORT_MAX_BYTES"
proof -
  let ?x = "export_authorized demo_encode demo_decode ar_event_id demo_tag (demo_appended demo_tag ''t'') demo_reader
       \<lparr> xq_tenant = None, xq_cursor = None, xq_limit = Some 1 \<rparr>"
  have "is_ok ?x" by code_simp
  then obtain x where x: "?x = Inr x" by (auto simp: is_ok_def split: sum.splits)
  show ?thesis using audit_export_exact [OF demo_codec demo_tag_no_dot x] x by blast
qed

theorem audit_readers_gated_witness:
  "\<exists>x scopes. export_authorized demo_encode demo_decode ar_event_id demo_tag (demo_appended demo_tag ''t'') demo_reader
       \<lparr> xq_tenant = None, xq_cursor = None, xq_limit = Some 1 \<rparr> = Inr x \<and>
     pi_scopes demo_reader = Some scopes \<and> AUDIT_EXPORT_CAPABILITY \<in> set scopes"
proof -
  let ?q = "\<lparr> xq_tenant = None, xq_cursor = None, xq_limit = Some 1 \<rparr>"
  let ?x = "export_authorized demo_encode demo_decode ar_event_id demo_tag (demo_appended demo_tag ''t'') demo_reader ?q"
  have "is_ok ?x" by code_simp
  then obtain x where x: "?x = Inr x" by (auto simp: is_ok_def split: sum.splits)
  show ?thesis
    using audit_readers_gated [of demo_encode demo_decode demo_tag "demo_appended demo_tag ''t''" demo_reader demo_all ar_event_id ?q] x
    by blast
qed

end
