(* ===== verification/Lifecycle_Effects.thy ===== *)
theory Lifecycle_Effects
  imports Prelude
begin

text \<open>
  The effects of the artifact life cycle: the failpoints of
  src/src/artifacts/lifecycle/faults.rs, and a small language of operations that touch the
  database and the file system.

  An operation runs on a world: the store (every table and the artifact directory), the list of
  all earlier stores that were durable at some instant, most recent first, the failpoints visited
  so far, and a counter for the random and clock values it has drawn. One \<open>step\<close> is one atomic
  effect: a committed transaction, or one file system call. An error does not undo the steps
  before it, and a crash may happen after any step, so what must hold at every instant has to hold
  of every store on the trace. \<open>triple\<close> is the Hoare logic for this: precondition, crash
  condition, and postconditions for success and for failure.
\<close>

section \<open>Failpoints (lifecycle/faults.rs)\<close>

datatype FaultPoint =
    PublishStageWrite | PublishStageFileSync | PublishStageDirectorySync | PublishInsert
  | PublishRename | PublishComplete | PublishRenameBarrier | PublishDeleteRow
  | UpdateStageWrite | UpdateStageFileSync | UpdateStageDirectorySync | UpdateCommit
  | UpdateCommitTransaction | UpdateSnapshot | UpdateSnapshotFileSync | UpdateSwap
  | UpdateSwapBarrier | UpdateSnapshotBarrier | UpdateHistoryDirectorySync | UpdatePrune
  | UpdateRestoreSnapshot | UpdateRevertMetadata | UpdateSnapshotTempRemove
  | UpdateSnapshotTempRemoveBarrier | DeleteTrashRename | DeleteTrashRenameBarrier | DeleteRow
  | DeleteTrashRemove | DeleteHistoryRemove | DeleteRestoreBody | MoveTransaction | MetadataWrite
  | ReconcileRecover | ReconcileDiscard | ReconcileOrphanHistory | BackfillWrite

datatype InjectedFault = Error AppError | Crash AppError

fun into_error :: "InjectedFault \<Rightarrow> AppError" where
  "into_error (Error e) = e"
| "into_error (Crash e) = e"

text \<open>An aborted operation, and whether its compensation should run.\<close>

record Interrupt =
  error :: AppError
  compensate :: bool

definition Interrupt_from_error :: "AppError \<Rightarrow> Interrupt" where
  "Interrupt_from_error e = \<lparr> error = e, compensate = True \<rparr>"

definition Interrupt_from_fault :: "InjectedFault \<Rightarrow> Interrupt" where
  "Interrupt_from_fault f =
     \<lparr> error = into_error f, compensate = (case f of Error _ \<Rightarrow> True | Crash _ \<Rightarrow> False) \<rparr>"

text \<open>
  The trait \<open>FaultInjector\<close>: the verdict at a point may depend on the points visited before.
  \<open>NoFaults\<close> is the injector of the production server.
\<close>

type_synonym FaultInjector = "FaultPoint list \<Rightarrow> FaultPoint \<Rightarrow> InjectedFault option"

definition NoFaults :: FaultInjector where
  "NoFaults visited point = None"

section \<open>Operations\<close>

record 's world =
  w_store :: 's
  w_trace :: "'s list"
  w_visited :: "FaultPoint list"
  w_drawn :: nat

type_synonym ('s, 'e, 'a) op = "'s world \<Rightarrow> ('e + 'a) \<times> 's world"

definition op_return :: "'a \<Rightarrow> ('s, 'e, 'a) op" where
  "op_return x w = (Inr x, w)"

definition op_raise :: "'e \<Rightarrow> ('s, 'e, 'a) op" where
  "op_raise e w = (Inl e, w)"

definition op_bind :: "('s, 'e, 'a) op \<Rightarrow> ('a \<Rightarrow> ('s, 'e, 'b) op) \<Rightarrow> ('s, 'e, 'b) op" where
  "op_bind m f w = (case m w of (Inl e, w') \<Rightarrow> (Inl e, w') | (Inr x, w') \<Rightarrow> f x w')"

definition op_catch :: "('s, 'e, 'a) op \<Rightarrow> ('e \<Rightarrow> ('s, 'f, 'a) op) \<Rightarrow> ('s, 'f, 'a) op" where
  "op_catch m h w = (case m w of (Inl e, w') \<Rightarrow> h e w' | (Inr x, w') \<Rightarrow> (Inr x, w'))"

text \<open>\<open>let _ = operation;\<close>: the outcome is ignored.\<close>

definition op_ignore :: "('s, 'e, 'a) op \<Rightarrow> ('s, 'f, unit) op" where
  "op_ignore m w = (case m w of (r, w') \<Rightarrow> (Inr (), w'))"

text \<open>The conversions that \<open>?\<close> inserts where an \<open>Interrupt\<close> is expected.\<close>

definition op_interrupt :: "('s, AppError, 'a) op \<Rightarrow> ('s, Interrupt, 'a) op" where
  "op_interrupt m = op_catch m (\<lambda>e. op_raise (Interrupt_from_error e))"

definition op_no_compensation :: "('s, AppError, 'a) op \<Rightarrow> ('s, Interrupt, 'a) op" where
  "op_no_compensation m = op_catch m (\<lambda>e. op_raise \<lparr> error = e, compensate = False \<rparr>)"

text \<open>One atomic effect, a read, a value from the random source or the clock, and a failpoint.\<close>

definition step :: "('s \<Rightarrow> 'e + ('a \<times> 's)) \<Rightarrow> ('s, 'e, 'a) op" where
  "step f w =
     (case f (w_store w) of
        Inl e \<Rightarrow> (Inl e, w)
      | Inr (x, s) \<Rightarrow> (Inr x, w\<lparr>w_store := s, w_trace := s # w_trace w\<rparr>))"

definition query :: "('s \<Rightarrow> 'e + 'a) \<Rightarrow> ('s, 'e, 'a) op" where
  "query f w = (f (w_store w), w)"

definition draw :: "(nat \<Rightarrow> 'e + 'a) \<Rightarrow> ('s, 'e, 'a) op" where
  "draw f w = (f (w_drawn w), w\<lparr>w_drawn := Suc (w_drawn w)\<rparr>)"

definition check :: "FaultInjector \<Rightarrow> FaultPoint \<Rightarrow> ('s, InjectedFault, unit) op" where
  "check faults point w =
     ((case faults (w_visited w) point of None \<Rightarrow> Inr () | Some f \<Rightarrow> Inl f),
      w\<lparr>w_visited := point # w_visited w\<rparr>)"

definition fault :: "FaultInjector \<Rightarrow> FaultPoint \<Rightarrow> ('s, Interrupt, unit) op" where
  "fault faults point = op_catch (check faults point) (\<lambda>f. op_raise (Interrupt_from_fault f))"

definition bare_fault :: "FaultInjector \<Rightarrow> FaultPoint \<Rightarrow> ('s, AppError, unit) op" where
  "bare_fault faults point = op_catch (check faults point) (\<lambda>f. op_raise (into_error f))"

text \<open>A \<open>for\<close> loop whose body may fail.\<close>

fun op_each :: "('x \<Rightarrow> ('s, 'e, unit) op) \<Rightarrow> 'x list \<Rightarrow> ('s, 'e, unit) op" where
  "op_each f [] = op_return ()"
| "op_each f (x # xs) = op_bind (f x) (\<lambda>_. op_each f xs)"

declare op_bind_def [code_unfold] op_catch_def [code_unfold]

section \<open>A logic with crash conditions\<close>

definition triple ::
    "('s \<Rightarrow> bool) \<Rightarrow> ('s \<Rightarrow> bool) \<Rightarrow> ('s, 'e, 'a) op \<Rightarrow> ('a \<Rightarrow> 's \<Rightarrow> bool) \<Rightarrow> ('e \<Rightarrow> 's \<Rightarrow> bool) \<Rightarrow> bool" where
  "triple C P m Q E \<longleftrightarrow>
     (\<forall>w. P (w_store w) \<longrightarrow>
        (case m w of (r, w') \<Rightarrow>
           (\<exists>t. w_trace w' = t @ w_trace w \<and> (\<forall>s \<in> set t. C s)) \<and>
           (case r of Inl e \<Rightarrow> E e (w_store w') | Inr x \<Rightarrow> Q x (w_store w'))))"

lemma tripleI:
  assumes "\<And>w r w'. P (w_store w) \<Longrightarrow> m w = (r, w') \<Longrightarrow>
      (\<exists>t. w_trace w' = t @ w_trace w \<and> (\<forall>s \<in> set t. C s)) \<and>
      (case r of Inl e \<Rightarrow> E e (w_store w') | Inr x \<Rightarrow> Q x (w_store w'))"
  shows "triple C P m Q E"
  unfolding triple_def using assms by (auto split: prod.split)

lemma tripleD:
  assumes "triple C P m Q E" and "P (w_store w)" and "m w = (r, w')"
  obtains t where "w_trace w' = t @ w_trace w" "\<forall>s \<in> set t. C s"
    "case r of Inl e \<Rightarrow> E e (w_store w') | Inr x \<Rightarrow> Q x (w_store w')"
  using assms unfolding triple_def by (auto dest: spec [of _ w])

lemma triple_conseq:
  assumes "triple C P m Q E" and "\<And>s. P' s \<Longrightarrow> P s" and "\<And>x s. Q x s \<Longrightarrow> Q' x s"
    and "\<And>e s. E e s \<Longrightarrow> E' e s"
  shows "triple C P' m Q' E'"
proof (rule tripleI)
  fix w r w' assume p: "P' (w_store w)" and m: "m w = (r, w')"
  show "(\<exists>t. w_trace w' = t @ w_trace w \<and> (\<forall>s \<in> set t. C s)) \<and>
      (case r of Inl e \<Rightarrow> E' e (w_store w') | Inr x \<Rightarrow> Q' x (w_store w'))"
    by (rule tripleD [OF assms(1) assms(2) [OF p] m]) (use assms(3,4) in \<open>auto split: sum.splits\<close>)
qed

lemma triple_pre: "triple C P m Q E \<Longrightarrow> (\<And>s. P' s \<Longrightarrow> P s) \<Longrightarrow> triple C P' m Q E"
  by (erule triple_conseq)

lemma triple_post:
  "triple C P m Q E \<Longrightarrow> (\<And>x s. Q x s \<Longrightarrow> Q' x s) \<Longrightarrow> (\<And>e s. E e s \<Longrightarrow> E' e s) \<Longrightarrow> triple C P m Q' E'"
  by (erule triple_conseq)

lemma triple_return: "(\<And>s. P s \<Longrightarrow> Q x s) \<Longrightarrow> triple C P (op_return x) Q E"
  by (rule tripleI) (auto simp: op_return_def)

lemma triple_raise: "(\<And>s. P s \<Longrightarrow> E e s) \<Longrightarrow> triple C P (op_raise e) Q E"
  by (rule tripleI) (auto simp: op_raise_def)

lemma triple_bind:
  assumes "triple C P m R E" and "\<And>x. triple C (R x) (f x) Q E"
  shows "triple C P (op_bind m f) Q E"
proof (rule tripleI)
  fix w r w' assume p: "P (w_store w)" and m: "op_bind m f w = (r, w')"
  obtain r1 w1 where m1: "m w = (r1, w1)" by fastforce
  obtain t where t: "w_trace w1 = t @ w_trace w" "\<forall>s \<in> set t. C s"
    "case r1 of Inl e \<Rightarrow> E e (w_store w1) | Inr x \<Rightarrow> R x (w_store w1)"
    by (rule tripleD [OF assms(1) p m1])
  show "(\<exists>t. w_trace w' = t @ w_trace w \<and> (\<forall>s \<in> set t. C s)) \<and>
      (case r of Inl e \<Rightarrow> E e (w_store w') | Inr x \<Rightarrow> Q x (w_store w'))"
  proof (cases r1)
    case (Inl e)
    then show ?thesis using m m1 t by (auto simp: op_bind_def)
  next
    case (Inr x)
    then have f: "f x w1 = (r, w')" using m m1 by (simp add: op_bind_def)
    obtain t' where "w_trace w' = t' @ w_trace w1" "\<forall>s \<in> set t'. C s"
      "case r of Inl e \<Rightarrow> E e (w_store w') | Inr x \<Rightarrow> Q x (w_store w')"
      by (rule tripleD [OF assms(2) _ f]) (use t(3) Inr in simp)
    then show ?thesis using t by (intro conjI exI [of _ "t' @ t"]) auto
  qed
qed

lemma triple_catch:
  assumes "triple C P m Q R" and "\<And>e. triple C (R e) (h e) Q E"
  shows "triple C P (op_catch m h) Q E"
proof (rule tripleI)
  fix w r w' assume p: "P (w_store w)" and m: "op_catch m h w = (r, w')"
  obtain r1 w1 where m1: "m w = (r1, w1)" by fastforce
  obtain t where t: "w_trace w1 = t @ w_trace w" "\<forall>s \<in> set t. C s"
    "case r1 of Inl e \<Rightarrow> R e (w_store w1) | Inr x \<Rightarrow> Q x (w_store w1)"
    by (rule tripleD [OF assms(1) p m1])
  show "(\<exists>t. w_trace w' = t @ w_trace w \<and> (\<forall>s \<in> set t. C s)) \<and>
      (case r of Inl e \<Rightarrow> E e (w_store w') | Inr x \<Rightarrow> Q x (w_store w'))"
  proof (cases r1)
    case (Inr x)
    then show ?thesis using m m1 t by (auto simp: op_catch_def)
  next
    case (Inl e)
    then have f: "h e w1 = (r, w')" using m m1 by (simp add: op_catch_def)
    obtain t' where "w_trace w' = t' @ w_trace w1" "\<forall>s \<in> set t'. C s"
      "case r of Inl e \<Rightarrow> E e (w_store w') | Inr x \<Rightarrow> Q x (w_store w')"
      by (rule tripleD [OF assms(2) _ f]) (use t(3) Inl in simp)
    then show ?thesis using t by (intro conjI exI [of _ "t' @ t"]) auto
  qed
qed

lemma triple_ignore:
  assumes "triple C P m (\<lambda>_. Q) (\<lambda>_. Q)"
  shows "triple C P (op_ignore m) (\<lambda>_. Q) E"
using assms unfolding triple_def op_ignore_def
  by (fastforce split: prod.split sum.splits)

lemma triple_interrupt:
  "triple C P m Q (\<lambda>e. E (Interrupt_from_error e)) \<Longrightarrow> triple C P (op_interrupt m) Q E"
  unfolding op_interrupt_def by (rule triple_catch, assumption) (rule triple_raise)

lemma triple_no_compensation:
  "triple C P m Q (\<lambda>e. E \<lparr> error = e, compensate = False \<rparr>) \<Longrightarrow> triple C P (op_no_compensation m) Q E"
  unfolding op_no_compensation_def by (rule triple_catch, assumption) (rule triple_raise)

lemma triple_step:
  assumes "\<And>s x s'. P s \<Longrightarrow> f s = Inr (x, s') \<Longrightarrow> C s' \<and> Q x s'"
    and "\<And>s e. P s \<Longrightarrow> f s = Inl e \<Longrightarrow> E e s"
  shows "triple C P (step f) Q E"
proof (rule tripleI)
  fix w r w' assume p: "P (w_store w)" and m: "step f w = (r, w')"
  show "(\<exists>t. w_trace w' = t @ w_trace w \<and> (\<forall>s \<in> set t. C s)) \<and>
      (case r of Inl e \<Rightarrow> E e (w_store w') | Inr x \<Rightarrow> Q x (w_store w'))"
  proof (cases "f (w_store w)")
    case (Inl e)
    then show ?thesis using m assms(2) [OF p] by (auto simp: step_def)
  next
    case (Inr y)
    then obtain x s where f: "f (w_store w) = Inr (x, s)" by (cases y) auto
    then have "r = Inr x" "w' = w\<lparr>w_store := s, w_trace := s # w_trace w\<rparr>"
      using m by (auto simp: step_def)
    then show ?thesis using assms(1) [OF p f] by (auto intro!: exI [of _ "[s]"])
  qed
qed

lemma triple_query:
  assumes "\<And>s x. P s \<Longrightarrow> f s = Inr x \<Longrightarrow> Q x s" and "\<And>s e. P s \<Longrightarrow> f s = Inl e \<Longrightarrow> E e s"
  shows "triple C P (query f) Q E"
  by (rule tripleI) (auto simp: query_def assms split: sum.split)

lemma triple_draw:
  assumes "\<And>n s x. P s \<Longrightarrow> f n = Inr x \<Longrightarrow> Q x s" and "\<And>n s e. P s \<Longrightarrow> f n = Inl e \<Longrightarrow> E e s"
  shows "triple C P (draw f) Q E"
  by (rule tripleI) (auto simp: draw_def assms split: sum.split)

lemma triple_check: "(\<And>s f. P s \<Longrightarrow> E f s) \<Longrightarrow> triple C P (check faults p) (\<lambda>_. P) E"
  by (rule tripleI) (auto simp: check_def split: option.split)

lemma triple_fault:
  assumes "\<And>s i. P s \<Longrightarrow> E i s"
  shows "triple C P (fault faults p) (\<lambda>_. P) E"
  unfolding fault_def
  by (rule triple_catch [OF triple_check [where E = "\<lambda>_. P"]]) (auto intro: triple_raise assms)

lemma triple_bare_fault:
  assumes "\<And>s e. P s \<Longrightarrow> E e s"
  shows "triple C P (bare_fault faults p) (\<lambda>_. P) E"
  unfolding bare_fault_def
  by (rule triple_catch [OF triple_check [where E = "\<lambda>_. P"]]) (auto intro: triple_raise assms)

lemma triple_each:
  assumes "\<And>x ys. triple C (I (x # ys)) (f x) (\<lambda>_. I ys) E"
  shows "triple C (I xs) (op_each f xs) (\<lambda>_. I []) E"
proof (induction xs)
  case Nil
  show ?case unfolding op_each.simps by (rule triple_return)
next
  case (Cons x xs)
  show ?case unfolding op_each.simps by (rule triple_bind [OF assms Cons.IH])
qed

lemma triple_if:
  "(b \<Longrightarrow> triple C P m Q E) \<Longrightarrow> (\<not> b \<Longrightarrow> triple C P n Q E) \<Longrightarrow> triple C P (if b then m else n) Q E"
  by simp

lemma triple_option:
  "(v = None \<Longrightarrow> triple C P m Q E) \<Longrightarrow> (\<And>x. v = Some x \<Longrightarrow> triple C P (f x) Q E) \<Longrightarrow>
     triple C P (case v of None \<Rightarrow> m | Some x \<Rightarrow> f x) Q E"
  by (cases v) auto

text \<open>A pure fact of the precondition becomes a hypothesis.\<close>

lemma triple_fact:
  assumes "\<And>s. P s \<Longrightarrow> R" and "R \<Longrightarrow> triple C P m Q E"
  shows "triple C P m Q E"
proof (rule tripleI)
  fix w r w' assume p: "P (w_store w)" and m: "m w = (r, w')"
  show "(\<exists>t. w_trace w' = t @ w_trace w \<and> (\<forall>s \<in> set t. C s)) \<and>
      (case r of Inl e \<Rightarrow> E e (w_store w') | Inr x \<Rightarrow> Q x (w_store w'))"
    by (rule tripleD [OF assms(2) [OF assms(1) [OF p]] p m]) auto
qed

lemma triple_exists:
  assumes "\<And>y. triple C (P y) m Q E"
  shows "triple C (\<lambda>s. \<exists>y. P y s) m Q E"
proof (rule tripleI)
  fix w r w' assume "\<exists>y. P y (w_store w)" and m: "m w = (r, w')"
  then obtain y where p: "P y (w_store w)" by blast
  show "(\<exists>t. w_trace w' = t @ w_trace w \<and> (\<forall>s \<in> set t. C s)) \<and>
      (case r of Inl e \<Rightarrow> E e (w_store w') | Inr x \<Rightarrow> Q x (w_store w'))"
    by (rule tripleD [OF assms p m]) auto
qed

section \<open>Derived rules\<close>

lemma triple_crash:
  assumes "triple C P m Q E" and "\<And>s. C s \<Longrightarrow> C' s"
  shows "triple C' P m Q E"
  using assms unfolding triple_def by (fastforce split: prod.splits)

lemma triple_conj:
  assumes "triple C P m Q E" and "triple C' P' m Q' E'"
  shows "triple (\<lambda>s. C s \<and> C' s) (\<lambda>s. P s \<and> P' s) m (\<lambda>x s. Q x s \<and> Q' x s) (\<lambda>e s. E e s \<and> E' e s)"
proof (rule tripleI)
  fix w r w' assume p: "P (w_store w) \<and> P' (w_store w)" and m: "m w = (r, w')"
  obtain t where t: "w_trace w' = t @ w_trace w" "\<forall>s \<in> set t. C s"
    "case r of Inl e \<Rightarrow> E e (w_store w') | Inr x \<Rightarrow> Q x (w_store w')"
    by (rule tripleD [OF assms(1) _ m]) (use p in blast)
  obtain t' where t': "w_trace w' = t' @ w_trace w" "\<forall>s \<in> set t'. C' s"
    "case r of Inl e \<Rightarrow> E' e (w_store w') | Inr x \<Rightarrow> Q' x (w_store w')"
    by (rule tripleD [OF assms(2) _ m]) (use p in blast)
  have "t' = t" using t(1) t'(1) by simp
  then show "(\<exists>t. w_trace w' = t @ w_trace w \<and> (\<forall>s \<in> set t. C s \<and> C' s)) \<and>
      (case r of Inl e \<Rightarrow> E e (w_store w') \<and> E' e (w_store w') | Inr x \<Rightarrow> Q x (w_store w') \<and> Q' x (w_store w'))"
    using t t' by (auto split: sum.splits)
qed

lemma triple_query_any:
  "triple C P (query f) (\<lambda>_. P) (\<lambda>_. P)"
  by (rule triple_query) auto

lemma triple_fault_any:
  "(\<And>s. P s \<Longrightarrow> Q () s) \<Longrightarrow> (\<And>i s. P s \<Longrightarrow> E i s) \<Longrightarrow> triple C P (fault f p) Q E"
  by (rule triple_post [OF triple_fault [where E = "\<lambda>_. P"]]) auto

lemma triple_bare_fault_any:
  "(\<And>s. P s \<Longrightarrow> Q () s) \<Longrightarrow> (\<And>e s. P s \<Longrightarrow> E e s) \<Longrightarrow> triple C P (bare_fault f p) Q E"
  by (rule triple_post [OF triple_bare_fault [where E = "\<lambda>_. P"]]) auto

lemma triple_false: "(\<And>s. \<not> P s) \<Longrightarrow> triple C P m Q E"
  unfolding triple_def by blast

lemma triple_disj:
  "triple C P m Q E \<Longrightarrow> triple C P' m Q E \<Longrightarrow> triple C (\<lambda>s. P s \<or> P' s) m Q E"
  unfolding triple_def by simp

lemma triple_prod: "(\<And>x y. triple C P (f x y) Q E) \<Longrightarrow> triple C P (case p of (x, y) \<Rightarrow> f x y) Q E"
  by (cases p) simp

lemma triple_each_mem:
  assumes "\<And>x. x \<in> set xs \<Longrightarrow> triple C P (f x) (\<lambda>_. P) E"
  shows "triple C P (op_each f xs) (\<lambda>_. P) E"
  using assms by (induction xs) (auto intro!: triple_return triple_bind)

end
