(* ===== verification/Artifact_Text.thy ===== *)
theory Artifact_Text
  imports Bundle_Paths "HOL-Library.Multiset"
begin

text \<open>
  Text of artifact metadata and digests of artifact bodies:
  src/src/artifacts/lifecycle/normalize.rs and src/src/artifacts/digest.rs, with the part of
  Rust's UTF-8 handling they use.

  A string is the list of its UTF-8 bytes; \<open>utf8_pieces\<close> cuts it into the encodings of its
  characters and, where the bytes are not UTF-8, into the maximal ill-formed parts that
  \<open>String::from_utf8_lossy\<close> replaces. SHA-256 is the parameter \<open>sha\<close>, the compact JSON text of a
  manifest (crate \<open>serde_json\<close>) is \<open>json\<close>. The theory shows that the cuts of
  \<open>js_slice\<close> respect their limit in UTF-16 units and never split a character, and that the
  digest of a bundle does not depend on the order in which a directory lists it.
\<close>

section \<open>UTF-8\<close>

definition octet :: "char \<Rightarrow> int" where "octet c = of_char c"

definition continuation :: "char \<Rightarrow> bool" where
  "continuation c \<longleftrightarrow> 0x80 \<le> octet c \<and> octet c \<le> 0xBF"

text \<open>The length an initial byte announces; 0 for a byte that cannot start a character.\<close>

definition utf8_width :: "char \<Rightarrow> nat" where
  "utf8_width c =
     (if octet c < 0x80 then 1
      else if 0xC2 \<le> octet c \<and> octet c \<le> 0xDF then 2
      else if 0xE0 \<le> octet c \<and> octet c \<le> 0xEF then 3
      else if 0xF0 \<le> octet c \<and> octet c \<le> 0xF4 then 4 else 0)"

text \<open>No overlong forms, no surrogates, nothing above U+10FFFF.\<close>

definition second_byte_ok :: "char \<Rightarrow> char \<Rightarrow> bool" where
  "second_byte_ok c d \<longleftrightarrow>
     continuation d \<and>
     (octet c = 0xE0 \<longrightarrow> 0xA0 \<le> octet d) \<and> (octet c = 0xED \<longrightarrow> octet d \<le> 0x9F) \<and>
     (octet c = 0xF0 \<longrightarrow> 0x90 \<le> octet d) \<and> (octet c = 0xF4 \<longrightarrow> octet d \<le> 0x8F)"

text \<open>How many bytes after \<open>c\<close> belong to the character, or to its longest correct beginning.\<close>

definition utf8_run :: "char \<Rightarrow> string \<Rightarrow> nat" where
  "utf8_run c s =
     (if utf8_width c \<le> 1 then 0
      else case s of
             [] \<Rightarrow> 0
           | d # ds \<Rightarrow>
               if second_byte_ok c d
               then Suc (length (takeWhile continuation (take (utf8_width c - 2) ds))) else 0)"

function utf8_pieces :: "string \<Rightarrow> (bool \<times> string) list" where
  "utf8_pieces [] = []"
| "utf8_pieces (c # s) =
     (let n = utf8_run c s
      in (Suc n = utf8_width c, c # take n s) # utf8_pieces (drop n s))"
  by pat_completeness auto
termination by (relation "measure length") auto

definition is_utf8 :: "string \<Rightarrow> bool" where
  "is_utf8 s \<longleftrightarrow> list_all fst (utf8_pieces s)"

definition utf8_chars :: "string \<Rightarrow> string list" where
  "utf8_chars s = map snd (utf8_pieces s)"

text \<open>\<open>String::from_utf8_lossy\<close>.\<close>

definition from_utf8_lossy :: "bytes \<Rightarrow> string" where
  "from_utf8_lossy s =
     concat (map (\<lambda>(ok, p). if ok then p else [CHR 0xEF, CHR 0xBF, CHR 0xBD]) (utf8_pieces s))"

lemma concat_utf8_chars [simp]: "concat (utf8_chars s) = s"
  by (induction s rule: utf8_pieces.induct) (auto simp: utf8_chars_def Let_def)

lemma from_utf8_lossy_id: "is_utf8 s \<Longrightarrow> from_utf8_lossy s = s"
proof -
  assume "is_utf8 s"
  then have "map (\<lambda>(ok, p). if ok then p else [CHR 0xEF, CHR 0xBF, CHR 0xBD]) (utf8_pieces s) = utf8_chars s"
    by (auto simp: is_utf8_def utf8_chars_def list_all_iff)
  then show ?thesis by (simp add: from_utf8_lossy_def)
qed

section \<open>Metadata (lifecycle/normalize.rs)\<close>

definition len_utf16 :: "string \<Rightarrow> int" where
  "len_utf16 ch = (if length ch = 4 then 2 else 1)"

fun slice_chars :: "int \<Rightarrow> int \<Rightarrow> string list \<Rightarrow> string" where
  "slice_chars units limit [] = []"
| "slice_chars units limit (ch # chs) =
     (if limit < units + len_utf16 ch then [] else ch @ slice_chars (units + len_utf16 ch) limit chs)"

definition js_slice :: "string \<Rightarrow> int \<Rightarrow> string" where
  "js_slice value limit = slice_chars 0 limit (utf8_chars value)"

definition TITLE_MAX_UNITS :: int where "TITLE_MAX_UNITS = 200"
definition DESCRIPTION_MAX_UNITS :: int where "DESCRIPTION_MAX_UNITS = 500"
definition LABEL_MAX_UNITS :: int where "LABEL_MAX_UNITS = 60"
definition CATEGORY_MAX_UNITS :: int where "CATEGORY_MAX_UNITS = 60"
definition DEFAULT_TITLE :: string where "DEFAULT_TITLE = ''Untitled artifact''"
definition DEFAULT_ORG :: string where "DEFAULT_ORG = ''default''"

definition is_js_whitespace :: "string \<Rightarrow> bool" where
  "is_js_whitespace ch \<longleftrightarrow> List.member js_white_space ch"

fun collapse_whitespace :: "bool \<Rightarrow> string list \<Rightarrow> string" where
  "collapse_whitespace in_whitespace [] = []"
| "collapse_whitespace in_whitespace (ch # chs) =
     (if is_js_whitespace ch
      then (if in_whitespace then [] else '' '') @ collapse_whitespace True chs
      else ch @ collapse_whitespace False chs)"

definition normalize_category :: "string \<Rightarrow> string" where
  "normalize_category value =
     js_slice (collapse_whitespace False (utf8_chars (js_trim value))) CATEGORY_MAX_UNITS"

definition normalize_title :: "string option \<Rightarrow> string" where
  "normalize_title value =
     js_slice (case nonempty_filter value of None \<Rightarrow> DEFAULT_TITLE | Some v \<Rightarrow> v) TITLE_MAX_UNITS"

definition normalize_description :: "string option \<Rightarrow> string" where
  "normalize_description value = js_slice (case value of None \<Rightarrow> [] | Some v \<Rightarrow> v) DESCRIPTION_MAX_UNITS"

definition normalize_label :: "string \<Rightarrow> string" where
  "normalize_label value = js_slice value LABEL_MAX_UNITS"

section \<open>Digests (artifacts/digest.rs)\<close>

fun code_point :: "string \<Rightarrow> int" where
  "code_point [a] = octet a"
| "code_point [a, b] = (octet a - 0xC0) * 64 + (octet b - 0x80)"
| "code_point [a, b, c] = (octet a - 0xE0) * 4096 + (octet b - 0x80) * 64 + (octet c - 0x80)"
| "code_point [a, b, c, d] =
     (octet a - 0xF0) * 262144 + (octet b - 0x80) * 4096 + (octet c - 0x80) * 64 + (octet d - 0x80)"
| "code_point _ = 0xFFFD"

definition utf16_units :: "string \<Rightarrow> int list" where
  "utf16_units ch =
     (let u = code_point ch
      in if u < 0x10000 then [u]
         else [0xD800 + (u - 0x10000) div 1024, 0xDC00 + (u - 0x10000) mod 1024])"

definition encode_utf16 :: "string \<Rightarrow> int list" where
  "encode_utf16 s = concat (map utf16_units (utf8_chars s))"

text \<open>\<open>sort_by(utf16_cmp)\<close> is stable, as \<^const>\<open>sort_key\<close> is.\<close>

definition bundle_manifest_digest ::
    "(bytes \<Rightarrow> string) \<Rightarrow> ((string \<times> string) list \<Rightarrow> string) \<Rightarrow> (string \<times> bytes) list \<Rightarrow> string" where
  "bundle_manifest_digest sha json entries =
     sha (json (sort_key (\<lambda>e. encode_utf16 (fst e)) (map (\<lambda>(rel, content). (rel, sha content)) entries)))"

section \<open>What slicing keeps\<close>

lemma slice_chars_prefix: "\<exists>rest. concat chs = slice_chars units limit chs @ rest"
  by (induction units limit chs rule: slice_chars.induct) auto

lemma slice_chars_whole:
  "units + sum_list (map len_utf16 chs) \<le> limit \<Longrightarrow> slice_chars units limit chs = concat chs"
proof (induction units limit chs rule: slice_chars.induct)
  case (2 units limit ch chs)
  have "0 \<le> sum_list (map len_utf16 chs)" by (rule sum_list_nonneg) (auto simp: len_utf16_def)
  then show ?case using 2 by auto
qed simp

lemma slice_chars_take:
  "units \<le> limit \<Longrightarrow> \<exists>k. slice_chars units limit chs = concat (take k chs) \<and>
     units + sum_list (map len_utf16 (take k chs)) \<le> limit"
proof (induction units limit chs rule: slice_chars.induct)
  case (2 units limit ch chs)
  show ?case
  proof (cases "limit < units + len_utf16 ch")
    case True
    then show ?thesis using 2(2) by (intro exI [of _ 0]) simp
  next
    case False
    then obtain k where "slice_chars (units + len_utf16 ch) limit chs = concat (take k chs)"
      "units + len_utf16 ch + sum_list (map len_utf16 (take k chs)) \<le> limit"
      using 2(1) by auto
    then show ?thesis using False by (intro exI [of _ "Suc k"]) simp
  qed
qed simp

section \<open>UTF-16 order determines a string\<close>

lemma octet_inject [simp]: "octet a = octet b \<longleftrightarrow> a = b"
  by (simp add: octet_def)

lemma octet_bounds: "0 \<le> octet a" "octet a \<le> 255"
proof -
  have "octet a = int (of_char a)" unfolding octet_def by (simp only: of_nat_of_char)
  moreover have "(of_char a :: nat) < 256" by (rule nat_of_char_less_256)
  ultimately show "0 \<le> octet a" "octet a \<le> 255" by linarith+
qed

fun valid_char :: "string \<Rightarrow> bool" where
  "valid_char [a] \<longleftrightarrow> octet a < 0x80"
| "valid_char [a, b] \<longleftrightarrow> 0xC2 \<le> octet a \<and> octet a \<le> 0xDF \<and> continuation b"
| "valid_char [a, b, c] \<longleftrightarrow> 0xE0 \<le> octet a \<and> octet a \<le> 0xEF \<and> second_byte_ok a b \<and> continuation c"
| "valid_char [a, b, c, d] \<longleftrightarrow>
     0xF0 \<le> octet a \<and> octet a \<le> 0xF4 \<and> second_byte_ok a b \<and> continuation c \<and> continuation d"
| "valid_char _ \<longleftrightarrow> False"

lemma utf8_run_valid:
  assumes "Suc (utf8_run c s) = utf8_width c"
  shows "valid_char (c # take (utf8_run c s) s)"
proof -
  consider "octet c < 0x80" | "0xC2 \<le> octet c" "octet c \<le> 0xDF" | "0xE0 \<le> octet c" "octet c \<le> 0xEF"
    | "0xF0 \<le> octet c" "octet c \<le> 0xF4"
    using assms by (force simp: utf8_width_def split: if_splits)
  then show ?thesis
  proof cases
    case 1
    then show ?thesis by (simp add: utf8_run_def utf8_width_def)
  next
    case 2
    then have w: "utf8_width c = 2" by (simp add: utf8_width_def)
    then obtain d ds where "s = d # ds" "second_byte_ok c d"
      using assms by (auto simp: utf8_run_def split: list.splits if_splits)
    then show ?thesis using 2 w by (simp add: utf8_run_def second_byte_ok_def)
  next
    case 3
    then have w: "utf8_width c = 3" by (simp add: utf8_width_def)
    then obtain d ds where s: "s = d # ds" "second_byte_ok c d" "length (takeWhile continuation (take 1 ds)) = 1"
      using assms by (auto simp: utf8_run_def split: list.splits if_splits)
    then obtain e es where "ds = e # es" "continuation e" by (cases ds) (auto split: if_splits)
    then show ?thesis using 3 w s by (simp add: utf8_run_def)
  next
    case 4
    then have w: "utf8_width c = 4" by (simp add: utf8_width_def)
    then obtain d ds where s: "s = d # ds" "second_byte_ok c d" "length (takeWhile continuation (take 2 ds)) = 2"
      using assms by (auto simp: utf8_run_def split: list.splits if_splits)
    then obtain e es where e: "ds = e # es" "continuation e" by (cases ds) (auto split: if_splits)
    then obtain f fs where "es = f # fs" "continuation f" using s by (cases es) (auto split: if_splits)
    then show ?thesis using 4 w s e by (simp add: utf8_run_def eval_nat_numeral)
  qed
qed

lemma utf8_pieces_valid: "(True, p) \<in> set (utf8_pieces s) \<Longrightarrow> valid_char p"
  by (induction s rule: utf8_pieces.induct) (auto simp: Let_def utf8_run_valid)

lemma digits_inject:
  fixes k :: int
  assumes "q * k + r = q' * k + r'" and "0 \<le> r" "r < k" "0 \<le> r'" "r' < k"
  shows "q = q'" "r = r'"
proof -
  have k: "0 < k" using assms by linarith
  have "(q * k + r) div k = q" using k assms(2,3) by (simp add: div_pos_pos_trivial)
  moreover have "(q' * k + r') div k = q'" using k assms(4,5) by (simp add: div_pos_pos_trivial)
  ultimately show "q = q'" using assms(1) by simp
  then show "r = r'" using assms(1) by simp
qed

lemma code_point_range:
  assumes "valid_char p"
  shows "(length p = 1 \<and> 0 \<le> code_point p \<and> code_point p < 0x80) \<or>
    (length p = 2 \<and> 0x80 \<le> code_point p \<and> code_point p < 0x800) \<or>
    (length p = 3 \<and> 0x800 \<le> code_point p \<and> code_point p < 0x10000 \<and>
       \<not> (0xD800 \<le> code_point p \<and> code_point p \<le> 0xDFFF)) \<or>
    (length p = 4 \<and> 0x10000 \<le> code_point p \<and> code_point p \<le> 0x10FFFF)"
  using assms octet_bounds
proof (induction p rule: valid_char.induct)
  case (3 a b c)
  then have b: "0xE0 \<le> octet a" "octet a \<le> 0xEF" "0x80 \<le> octet b" "octet b \<le> 0xBF" "0x80 \<le> octet c" "octet c \<le> 0xBF"
    "octet a = 0xE0 \<longrightarrow> 0xA0 \<le> octet b" "octet a = 0xED \<longrightarrow> octet b \<le> 0x9F"
    by (auto simp: second_byte_ok_def continuation_def)
  consider "octet a = 0xE0" | "0xE1 \<le> octet a" "octet a \<le> 0xEC" | "octet a = 0xED" | "0xEE \<le> octet a"
    using b by linarith
  then show ?case using b by cases auto
next
  case (4 a b c d)
  then have b: "0xF0 \<le> octet a" "octet a \<le> 0xF4" "0x80 \<le> octet b" "octet b \<le> 0xBF" "0x80 \<le> octet c" "octet c \<le> 0xBF"
    "0x80 \<le> octet d" "octet d \<le> 0xBF" "octet a = 0xF0 \<longrightarrow> 0x90 \<le> octet b" "octet a = 0xF4 \<longrightarrow> octet b \<le> 0x8F"
    by (auto simp: second_byte_ok_def continuation_def)
  consider "octet a = 0xF0" | "0xF1 \<le> octet a" "octet a \<le> 0xF3" | "octet a = 0xF4"
    using b by linarith
  then show ?case using b by cases auto
qed (auto simp: continuation_def)

lemma code_point_inject_2:
  assumes "code_point [a, b] = code_point [a', b']" "continuation b" "continuation b'"
  shows "a = a' \<and> b = b'"
  using digits_inject [of "octet a - 0xC0" 64 "octet b - 0x80" "octet a' - 0xC0" "octet b' - 0x80"] assms
  by (auto simp: continuation_def)

lemma code_point_inject_3:
  assumes e: "code_point [a, b, c] = code_point [a', b', c']"
    and "continuation b" "continuation b'" "continuation c" "continuation c'"
  shows "a = a' \<and> b = b' \<and> c = c'"
proof -
  have "((octet a - 0xE0) * 64 + (octet b - 0x80)) * 64 + (octet c - 0x80) =
      ((octet a' - 0xE0) * 64 + (octet b' - 0x80)) * 64 + (octet c' - 0x80)"
    using e by (simp add: algebra_simps)
  from digits_inject [OF this] have "c = c'"
    "(octet a - 0xE0) * 64 + (octet b - 0x80) = (octet a' - 0xE0) * 64 + (octet b' - 0x80)"
    using assms by (auto simp: continuation_def)
  with digits_inject [OF this(2)] show ?thesis using assms by (auto simp: continuation_def)
qed

lemma code_point_inject_4:
  assumes e: "code_point [a, b, c, d] = code_point [a', b', c', d']"
    and "continuation b" "continuation b'" "continuation c" "continuation c'" "continuation d" "continuation d'"
  shows "a = a' \<and> b = b' \<and> c = c' \<and> d = d'"
proof -
  have "(((octet a - 0xF0) * 64 + (octet b - 0x80)) * 64 + (octet c - 0x80)) * 64 + (octet d - 0x80) =
      (((octet a' - 0xF0) * 64 + (octet b' - 0x80)) * 64 + (octet c' - 0x80)) * 64 + (octet d' - 0x80)"
    using e by (simp add: algebra_simps)
  from digits_inject [OF this] have d: "d = d'" and
    r: "((octet a - 0xF0) * 64 + (octet b - 0x80)) * 64 + (octet c - 0x80) =
      ((octet a' - 0xF0) * 64 + (octet b' - 0x80)) * 64 + (octet c' - 0x80)"
    using assms by (auto simp: continuation_def)
  from digits_inject [OF r] have c: "c = c'"
    and r: "(octet a - 0xF0) * 64 + (octet b - 0x80) = (octet a' - 0xF0) * 64 + (octet b' - 0x80)"
    using assms by (auto simp: continuation_def)
  from digits_inject [OF r] show ?thesis using assms c d by (auto simp: continuation_def)
qed

lemma code_point_inject:
  assumes "valid_char p" and "valid_char q" and "code_point p = code_point q"
  shows "p = q"
proof -
  have len: "length p = length q"
    using code_point_range [OF assms(1)] code_point_range [OF assms(2)] assms(3) by auto
  have sb: "second_byte_ok x y \<Longrightarrow> continuation y" for x y by (simp add: second_byte_ok_def)
  show ?thesis
    using assms(1)
  proof (rule valid_char.elims(2))
    fix a assume "p = [a]"
    moreover then obtain a' where "q = [a']" using len by (cases q) auto
    ultimately show ?thesis using assms(3) by simp
  next
    fix a b assume p: "p = [a, b]" "0xC2 \<le> octet a \<and> octet a \<le> 0xDF \<and> continuation b"
    then obtain a' b' where "q = [a', b']" using len [symmetric] by (auto simp: length_Suc_conv)
    then show ?thesis using code_point_inject_2 [of a b a' b'] p assms(2,3) by auto
  next
    fix a b c assume p: "p = [a, b, c]" "0xE0 \<le> octet a \<and> octet a \<le> 0xEF \<and> second_byte_ok a b \<and> continuation c"
    then obtain a' b' c' where "q = [a', b', c']" using len [symmetric] by (auto simp: length_Suc_conv)
    then show ?thesis using code_point_inject_3 [of a b c a' b' c'] p assms(2,3) sb by auto
  next
    fix a b c d assume p: "p = [a, b, c, d]"
      "0xF0 \<le> octet a \<and> octet a \<le> 0xF4 \<and> second_byte_ok a b \<and> continuation c \<and> continuation d"
    then obtain a' b' c' d' where "q = [a', b', c', d']" using len [symmetric] by (auto simp: length_Suc_conv)
    then show ?thesis using code_point_inject_4 [of a b c d a' b' c' d'] p assms(2,3) sb by auto
  qed
qed

lemma utf16_units_prefix_free:
  assumes "valid_char p" and "valid_char q" and "utf16_units p @ xs = utf16_units q @ ys"
  shows "p = q \<and> xs = ys"
proof -
  let ?u = "code_point p" and ?v = "code_point q"
  have hi: "0xD800 \<le> 0xD800 + (w - 0x10000) div 1024 \<and> 0xD800 + (w - 0x10000) div 1024 \<le> 0xDBFF"
    if "0x10000 \<le> w" "w \<le> 0x10FFFF" for w :: int using that by auto
  have s: "utf16_units r = [code_point r]" if "code_point r < 0x10000" for r
    using that by (simp add: utf16_units_def)
  have l: "utf16_units r = [0xD800 + (code_point r - 0x10000) div 1024, 0xDC00 + (code_point r - 0x10000) mod 1024]"
    if "\<not> code_point r < 0x10000" for r
    using that by (simp add: utf16_units_def Let_def)
  have r: "code_point r \<le> 0x10FFFF \<and> (code_point r < 0x10000 \<longrightarrow> \<not> (0xD800 \<le> code_point r \<and> code_point r \<le> 0xDFFF))"
    if "valid_char r" for r
    using code_point_range [OF that] by linarith
  have "?u = ?v \<and> xs = ys"
  proof (cases "?u < 0x10000")
    case True
    have "?v < 0x10000"
    proof (rule ccontr)
      assume v: "\<not> ?v < 0x10000"
      then have "?u = 0xD800 + (?v - 0x10000) div 1024" using assms(3) s [OF True] l [OF v] by simp
      then show False using hi [of ?v] r [OF assms(1)] r [OF assms(2)] True v by linarith
    qed
    then show ?thesis using assms(3) s True by simp
  next
    case False
    have v: "\<not> ?v < 0x10000"
    proof
      assume v: "?v < 0x10000"
      then have "?v = 0xD800 + (?u - 0x10000) div 1024" using assms(3) s [OF v] l [OF False] by simp
      then show False using hi [of ?u] r [OF assms(1)] r [OF assms(2)] False v by linarith
    qed
    have d: "(?u - 0x10000) div 1024 = (?v - 0x10000) div 1024" "(?u - 0x10000) mod 1024 = (?v - 0x10000) mod 1024" "xs = ys"
      using assms(3) l [OF False] l [OF v] by simp_all
    have "?u - 0x10000 = ?v - 0x10000" using d(1,2) by (metis mult_div_mod_eq)
    then show ?thesis using d by simp
  qed
  then show ?thesis using code_point_inject [OF assms(1,2)] by simp
qed

lemma utf16_units_nonempty [simp]: "utf16_units p \<noteq> []"
  by (simp add: utf16_units_def Let_def)

lemma concat_utf16_inject:
  "\<forall>p \<in> set ps. valid_char p \<Longrightarrow> \<forall>q \<in> set qs. valid_char q \<Longrightarrow>
     concat (map utf16_units ps) = concat (map utf16_units qs) \<Longrightarrow> ps = qs"
proof (induction ps arbitrary: qs)
  case Nil
  then show ?case by (cases qs) simp_all
next
  case (Cons p ps)
  obtain q qs' where q: "qs = q # qs'" using Cons.prems(3) by (cases qs) simp_all
  have "p = q \<and> concat (map utf16_units ps) = concat (map utf16_units qs')"
    by (rule utf16_units_prefix_free) (use Cons.prems q in simp_all)
  moreover then have "ps = qs'" by (intro Cons.IH) (use Cons.prems q in simp_all)
  ultimately show ?case using q by simp
qed

lemma encode_utf16_inject:
  assumes "is_utf8 s" and "is_utf8 t" and "encode_utf16 s = encode_utf16 t"
  shows "s = t"
proof -
  have v: "\<forall>p \<in> set (utf8_chars r). valid_char p" if "is_utf8 r" for r
    using that utf8_pieces_valid by (fastforce simp: is_utf8_def utf8_chars_def list_all_iff)
  have "utf8_chars s = utf8_chars t"
    using concat_utf16_inject [OF v [OF assms(1)] v [OF assms(2)]] assms(3) by (simp add: encode_utf16_def)
  then show ?thesis by (metis concat_utf8_chars)
qed

text \<open>
  The digest of a bundle does not depend on the order in which its files are listed: for
  distinct UTF-8 paths, any two listings of the same files have the same digest. A directory read
  back from disk therefore has the digest that was computed from the submitted files.\<close>

theorem bundle_digest_order_independent:
  assumes "mset files = mset listed" and "distinct (map fst files)" and "\<forall>f \<in> set files. is_utf8 (fst f)"
  shows "bundle_manifest_digest sha json files = bundle_manifest_digest sha json listed"
proof -
  let ?m = "map (\<lambda>(rel, content). (rel, sha content))" and ?k = "\<lambda>e :: string \<times> string. encode_utf16 (fst e)"
  have m: "mset (?m files) = mset (?m listed)" using assms(1) by simp
  have f: "fst ` set (?m files) = fst ` set files" by force
  have d: "distinct (map fst (?m files))" using assms(2) by (simp add: comp_def case_prod_unfold)
  have "inj_on ?k (set (?m files))"
  proof (rule inj_onI)
    fix x y assume x: "x \<in> set (?m files)" and y: "y \<in> set (?m files)" and e: "?k x = ?k y"
    have "fst x = fst y" using encode_utf16_inject [OF _ _ e] x y assms(3) f by (metis (no_types, lifting) image_iff)
    moreover have "snd x = snd y"
      using eq_key_imp_eq_value [OF d, of "fst x" "snd x" "snd y"] x y \<open>fst x = fst y\<close> by (metis prod.collapse)
    ultimately show "x = y" by (simp add: prod_eq_iff)
  qed
  then have "sort_key ?k (?m files) = sort_key ?k (?m listed)"
    using m by (intro sort_key_inj_key_eq) auto
  then show ?thesis by (simp add: bundle_manifest_digest_def)
qed

theorem bundle_digest_order_independent_witness:
  "bundle_manifest_digest id (\<lambda>es. concat (map (\<lambda>(a, b). a @ b) es)) [(''b'', ''2''), (''a'', ''1'')] =
   bundle_manifest_digest id (\<lambda>es. concat (map (\<lambda>(a, b). a @ b) es)) [(''a'', ''1''), (''b'', ''2'')]"
proof -
  have u: "\<forall>f \<in> set [(''b'', ''2''), (''a'', ''1'')]. is_utf8 (fst f)" by code_simp
  show ?thesis by (rule bundle_digest_order_independent [OF _ _ u]) simp_all
qed

end
