(* ===== verification/Artifact_Store.thy ===== *)
theory Artifact_Store
  imports Lifecycle_Effects Delivery_Worker Audit_Integrity Artifact_Text "HOL-Library.AList"
begin

text \<open>
  The store of the artifact life cycle: the artifact directory, the tables the life cycle reads
  and writes, and the helpers of src/src/artifacts/lifecycle/ (mod.rs, sql.rs, context.rs, fs.rs)
  and src/src/artifacts/durable.rs that every operation uses.

  A location is an entry of the artifact directory or of one history directory; \<open>loc_path\<close> gives
  its path. A body is a file, or a directory of files given by their relative paths. The tables
  keep the columns the life cycle reads or writes; rows that only hang off an artifact (feedback,
  views, shares, Discord bindings) are \<open>ChildRow\<close>s. The durability intents are one table of the
  store; the outbox sees their ids. Identifiers, event ids, the clock and the rendering of a
  delivery envelope are parameters of \<open>StoreContext\<close>.

  Every file system call takes effect at once. The barriers of durable.rs (fsync of a file, of a tree
  and of the parent directory) are points where a fault may strike or the process may die, and have
  no other effect: the model covers the death of the process at any point, and not a loss of power
  that drops writes the operating system has not flushed.
\<close>

section \<open>The artifact directory\<close>

datatype loc = Entry string | Past string string

fun loc_path :: "string \<Rightarrow> loc \<Rightarrow> string" where
  "loc_path artifact_dir (Entry name) = path_join artifact_dir name"
| "loc_path artifact_dir (Past aid name) = path_join (history_dir artifact_dir aid) name"

datatype body = File bytes | Tree "(string \<times> bytes) list"

record filesystem =
  fs_nodes :: "(loc \<times> body) list"
  fs_history :: "string list"

definition node :: "filesystem \<Rightarrow> loc \<Rightarrow> body option" where
  "node fs l = map_of (fs_nodes fs) l"

definition path_exists :: "filesystem \<Rightarrow> loc \<Rightarrow> bool" where
  "path_exists fs l \<longleftrightarrow> node fs l \<noteq> None"

definition put_node :: "filesystem \<Rightarrow> loc \<Rightarrow> body \<Rightarrow> filesystem" where
  "put_node fs l b = fs\<lparr>fs_nodes := AList.update l b (fs_nodes fs)\<rparr>"

definition drop_node :: "filesystem \<Rightarrow> loc \<Rightarrow> filesystem" where
  "drop_node fs l = fs\<lparr>fs_nodes := AList.delete l (fs_nodes fs)\<rparr>"

text \<open>The names of live, transient and retained bodies (artifacts/paths.rs) as locations.\<close>

definition live_loc :: "string \<Rightarrow> bool \<Rightarrow> loc" where
  "live_loc aid is_bundle = Entry (if is_bundle then aid else aid @ ''.html'')"

definition history_loc :: "string \<Rightarrow> int \<Rightarrow> bool \<Rightarrow> loc" where
  "history_loc aid revision is_bundle =
     Past aid (if is_bundle then show_nat (nat revision) else show_nat (nat revision) @ ''.html'')"

text \<open>\<open>with_extension\<close> replaces \<open>.html\<close>, and is appended to the bare number of a bundle.\<close>

definition history_snapshot_temp_loc :: "string \<Rightarrow> int \<Rightarrow> loc" where
  "history_snapshot_temp_loc aid revision = Past aid (show_nat (nat revision) @ ''.snapshot-tmp'')"

definition metadata_recovery_temp_loc :: "string \<Rightarrow> int \<Rightarrow> loc" where
  "metadata_recovery_temp_loc aid revision = Past aid (show_nat (nat revision) @ ''.metadata-recovery-tmp'')"

text \<open>
  \<open>rename(2)\<close>: the parent of the target must exist; a file replaces a file, a directory only an
  empty directory.
\<close>

definition parent_exists :: "filesystem \<Rightarrow> loc \<Rightarrow> bool" where
  "parent_exists fs l = (case l of Entry _ \<Rightarrow> True | Past aid _ \<Rightarrow> List.member (fs_history fs) aid)"

definition may_replace :: "body \<Rightarrow> body option \<Rightarrow> bool" where
  "may_replace b target =
     (case target of
        None \<Rightarrow> True
      | Some (File _) \<Rightarrow> (case b of File _ \<Rightarrow> True | Tree _ \<Rightarrow> False)
      | Some (Tree files) \<Rightarrow> (case b of File _ \<Rightarrow> False | Tree _ \<Rightarrow> files = []))"

definition fs_rename :: "loc \<Rightarrow> loc \<Rightarrow> filesystem \<Rightarrow> filesystem result" where
  "fs_rename from target fs =
     (case node fs from of
        None \<Rightarrow> Inl Internal
      | Some b \<Rightarrow>
          if \<not> parent_exists fs target then Inl Internal
          else if from = target then Inr fs
          else if may_replace b (node fs target) then Inr (put_node (drop_node fs from) target b)
          else Inl Internal)"

text \<open>\<open>fs::write\<close> of a file: a directory in its place is an error.\<close>

definition fs_write :: "loc \<Rightarrow> bytes \<Rightarrow> filesystem \<Rightarrow> filesystem result" where
  "fs_write l content fs =
     (if \<not> parent_exists fs l then Inl Internal
      else case node fs l of
        Some (Tree _) \<Rightarrow> Inl Internal
      | _ \<Rightarrow> Inr (put_node fs l (File content)))"

definition fs_create_dir :: "loc \<Rightarrow> filesystem \<Rightarrow> filesystem result" where
  "fs_create_dir l fs =
     (if \<not> parent_exists fs l then Inl Internal
      else case node fs l of
        None \<Rightarrow> Inr (put_node fs l (Tree []))
      | Some (Tree _) \<Rightarrow> Inr fs
      | Some (File _) \<Rightarrow> Inl Internal)"

text \<open>Writing below a directory fails where a path is both a file and a directory.\<close>

definition path_conflict :: "(string \<times> bytes) list \<Rightarrow> string \<Rightarrow> bool" where
  "path_conflict files rel \<longleftrightarrow>
     list_ex (\<lambda>(other, _). starts_with other (rel @ [slash]) \<or> starts_with rel (other @ [slash])) files"

definition fs_write_below :: "loc \<Rightarrow> string \<Rightarrow> bytes \<Rightarrow> filesystem \<Rightarrow> filesystem result" where
  "fs_write_below l rel content fs =
     (case node fs l of
        Some (Tree files) \<Rightarrow>
          if rel = [] \<or> path_conflict files rel then Inl Internal
          else Inr (put_node fs l (Tree (AList.update rel content files)))
      | _ \<Rightarrow> Inl Internal)"

definition fs_create_history :: "string \<Rightarrow> filesystem \<Rightarrow> filesystem" where
  "fs_create_history aid fs =
     (if List.member (fs_history fs) aid then fs else fs\<lparr>fs_history := fs_history fs @ [aid]\<rparr>)"

definition history_entries :: "filesystem \<Rightarrow> string \<Rightarrow> loc list" where
  "history_entries fs aid =
     filter (\<lambda>l. case l of Past a _ \<Rightarrow> a = aid | Entry _ \<Rightarrow> False) (map fst (fs_nodes fs))"

section \<open>Tables (migrations m001 to m040) and the store\<close>

record ArtifactRevision =
  rv_artifact_id :: string
  rv_org :: string
  rv_revision :: int
  rv_title :: string
  rv_description :: string
  rv_category :: string
  rv_bytes :: int
  rv_is_bundle :: bool
  rv_entry :: string
  rv_body_sha256 :: string
  rv_created_at :: string
  rv_client_id :: "string option"

record DurabilityIntent =
  di_id :: string
  di_artifact_id :: string
  di_operation :: string
  di_state :: string
  di_expected_sha256 :: string
  di_prior_sha256 :: string
  di_staging_path :: string

text \<open>
  Tables whose rows name an artifact and an organization. For most of them the pair is a foreign key
  on \<open>artifacts(id, org)\<close>; the bindings to data sources (migration 035), the reminders and the
  push opt-ins (migration 039) refer to \<open>artifacts(id)\<close> only, and their organization is the one they
  were recorded under.
\<close>

datatype ChildTable =
    Feedback | ArtifactViews | ArtifactShares | DiscordInboundMessageState
  | ArtifactDiscordInboundPolicies | DiscussionMessageLinks | DiscordNotificationAnchorRecoveries
  | ArtifactDiscussionOverrides | ArtifactDiscussions | CollectionArtifacts
  | ArtifactDataBindings | ArtifactReminders | ArtifactPushOptins

definition org_bound :: "ChildTable \<Rightarrow> bool" where
  "org_bound t \<longleftrightarrow> t \<noteq> ArtifactDataBindings \<and> t \<noteq> ArtifactReminders \<and> t \<noteq> ArtifactPushOptins"

record ChildRow =
  ch_table :: ChildTable
  ch_artifact_id :: string
  ch_org :: string
  ch_key :: string

record WebhookRow =
  wr_id :: string
  wr_org :: string
  wr_events :: string
  wr_created_at :: string

record KeyRow =
  kr_client_id :: string
  kr_org :: string
  kr_owner_email :: "string option"

record store =
  st_artifacts :: "ArtifactMeta list"
  st_revisions :: "ArtifactRevision list"
  st_intents :: "DurabilityIntent list"
  st_children :: "ChildRow list"
  st_webhooks :: "WebhookRow list"
  st_keys :: "KeyRow list"
  st_orgs :: "string list"
  st_ledger :: ledger
  st_outbox :: outbox_db
  st_fs :: filesystem

record StoreContext =
  sc_root :: "component list"
  sc_cwd :: "component list"
  sc_limits :: StorageLimits
  sc_mac :: "bytes \<Rightarrow> string"
  sc_sha :: "bytes \<Rightarrow> string"
  sc_manifest_json :: "(string \<times> string) list \<Rightarrow> string"
  sc_envelope_bytes :: "ArtifactMeta \<Rightarrow> WebhookEvent \<Rightarrow> bytes"
  sc_faults :: FaultInjector
  sc_artifact_id :: "nat \<Rightarrow> string result"
  sc_webhook_id :: "nat \<Rightarrow> nat \<Rightarrow> string result"
  sc_event_id :: "nat \<Rightarrow> string result"
  sc_now :: "nat \<Rightarrow> int"
  sc_datetime :: "nat \<Rightarrow> string"

type_synonym 'a store_op = "(store, AppError, 'a) op"
type_synonym 'a guarded_op = "(store, Interrupt, 'a) op"

text \<open>A file system call as a step of the store.\<close>

definition on_fs :: "(filesystem \<Rightarrow> filesystem result) \<Rightarrow> unit store_op" where
  "on_fs f = step (\<lambda>s. try_bind (f (st_fs s)) (\<lambda>fs. Inr ((), s\<lparr>st_fs := fs\<rparr>)))"

definition ask :: "(store \<Rightarrow> 'a) \<Rightarrow> (store, 'e, 'a) op" where
  "ask f = query (\<lambda>s. Inr (f s))"

section \<open>Digests of bodies on disk (artifacts/digest.rs)\<close>

definition body_digest :: "StoreContext \<Rightarrow> body option \<Rightarrow> bool \<Rightarrow> string option" where
  "body_digest c b is_bundle =
     (case b of
        Some (File content) \<Rightarrow> if is_bundle then None else Some (sc_sha c content)
      | Some (Tree files) \<Rightarrow>
          if is_bundle then Some (bundle_manifest_digest (sc_sha c) (sc_manifest_json c) files) else None
      | None \<Rightarrow> None)"

definition body_digest_at_path :: "StoreContext \<Rightarrow> filesystem \<Rightarrow> loc \<Rightarrow> bool \<Rightarrow> string option" where
  "body_digest_at_path c fs l is_bundle = body_digest c (node fs l) is_bundle"

section \<open>File system primitives (lifecycle/fs.rs, artifacts/durable.rs)\<close>

text \<open>
  \<open>rename_after_move\<close>: the hook runs after the kernel rename, before the directories are synced;
  \<open>rename_with_barrier\<close> (lifecycle/context.rs) puts a failpoint there.
\<close>

definition durable_rename :: "loc \<Rightarrow> loc \<Rightarrow> unit store_op" where
  "durable_rename from target = on_fs (fs_rename from target)"

definition rename_with_barrier :: "StoreContext \<Rightarrow> loc \<Rightarrow> loc \<Rightarrow> FaultPoint \<Rightarrow> unit store_op" where
  "rename_with_barrier c from target point =
     op_bind (durable_rename from target) (\<lambda>_. bare_fault (sc_faults c) point)"

text \<open>
  \<open>remove_with_barrier\<close>: nothing for an absent path; the files of a directory go one by one.
\<close>

definition remove_node :: "loc \<Rightarrow> unit store_op" where
  "remove_node l =
     op_bind (ask (\<lambda>s. node (st_fs s) l)) (\<lambda>b.
     case b of
       None \<Rightarrow> op_return ()
     | Some (File _) \<Rightarrow> on_fs (\<lambda>fs. Inr (drop_node fs l))
     | Some (Tree files) \<Rightarrow>
         op_bind (op_each (\<lambda>(rel, _). on_fs (\<lambda>fs.
             case node fs l of
               Some (Tree rest) \<Rightarrow> Inr (put_node fs l (Tree (AList.delete rel rest)))
             | _ \<Rightarrow> Inr fs)) files) (\<lambda>_.
         on_fs (\<lambda>fs. Inr (drop_node fs l))))"

definition remove_with_barrier :: "StoreContext \<Rightarrow> loc \<Rightarrow> FaultPoint \<Rightarrow> unit store_op" where
  "remove_with_barrier c l point =
     op_bind (ask (\<lambda>s. path_exists (st_fs s) l)) (\<lambda>present.
     if \<not> present then op_return ()
     else op_bind (remove_node l) (\<lambda>_. bare_fault (sc_faults c) point))"

text \<open>\<open>ensure_removed\<close> only adds a directory sync to \<open>remove\<close>.\<close>

definition ensure_removed :: "loc \<Rightarrow> unit store_op" where
  "ensure_removed l = remove_node l"

definition safe_remove :: "loc \<Rightarrow> (store, 'e, unit) op" where
  "safe_remove l = op_ignore (remove_node l)"

text \<open>\<open>durable::remove(history_dir)\<close>: every entry of the directory, then the directory.\<close>

definition remove_history_dir :: "string \<Rightarrow> unit store_op" where
  "remove_history_dir aid =
     op_bind (ask (\<lambda>s. history_entries (st_fs s) aid)) (\<lambda>entries.
     op_bind (op_each remove_node entries) (\<lambda>_.
     on_fs (\<lambda>fs. Inr (fs\<lparr>fs_history := sql_delete (\<lambda>a. a = aid) (fs_history fs)\<rparr>))))"

text \<open>\<open>create_dir_all_with_barrier\<close> for \<open>.history/<id>\<close>: the hook runs at the first sync.\<close>

definition create_history_dir :: "StoreContext \<Rightarrow> string \<Rightarrow> unit store_op" where
  "create_history_dir c aid =
     op_bind (bare_fault (sc_faults c) UpdateHistoryDirectorySync) (\<lambda>_.
     on_fs (\<lambda>fs. Inr (fs_create_history aid fs)))"

text \<open>A file is created empty before its bytes are written.\<close>

definition write_file :: "loc \<Rightarrow> bytes \<Rightarrow> unit store_op" where
  "write_file l content = op_bind (on_fs (fs_write l [])) (\<lambda>_. on_fs (fs_write l content))"

definition write_below :: "loc \<Rightarrow> string \<times> bytes \<Rightarrow> unit store_op" where
  "write_below l file =
     op_bind (on_fs (fs_write_below l (fst file) [])) (\<lambda>_. on_fs (fs_write_below l (fst file) (snd file)))"

definition copy_recursive :: "loc \<Rightarrow> loc \<Rightarrow> unit store_op" where
  "copy_recursive source destination =
     op_bind (ask (\<lambda>s. node (st_fs s) source)) (\<lambda>b.
     case b of
       None \<Rightarrow> op_raise Internal
     | Some (File content) \<Rightarrow> write_file destination content
     | Some (Tree files) \<Rightarrow>
         op_bind (on_fs (fs_create_dir destination)) (\<lambda>_. op_each (write_below destination) files))"

text \<open>\<open>sync_file_with_barrier\<close> and \<open>sync_tree_with_barrier\<close>: the path must exist.\<close>

definition sync_with_barrier :: "StoreContext \<Rightarrow> loc \<Rightarrow> FaultPoint \<Rightarrow> unit store_op" where
  "sync_with_barrier c l point =
     op_bind (ask (\<lambda>s. path_exists (st_fs s) l)) (\<lambda>present.
     if present then bare_fault (sc_faults c) point else op_raise Internal)"

definition stage_single_body ::
    "StoreContext \<Rightarrow> loc \<Rightarrow> string \<Rightarrow> FaultPoint \<Rightarrow> FaultPoint \<Rightarrow> unit store_op" where
  "stage_single_body c staging html file_sync directory_sync =
     op_bind (write_file staging html) (\<lambda>_.
     op_bind (sync_with_barrier c staging file_sync) (\<lambda>_.
     bare_fault (sc_faults c) directory_sync))"

fun component_name :: "component \<Rightarrow> string" where
  "component_name (Normal s) = s"
| "component_name RootDir = [slash]"
| "component_name CurDir = ''.''"
| "component_name ParentDir = ''..''"

text \<open>The path of a file relative to the directory it is written below.\<close>

definition relative_key :: "StoreContext \<Rightarrow> string \<Rightarrow> string \<Rightarrow> string option" where
  "relative_key c staging_name rel =
     (let base = sc_root c @ [Normal staging_name]
      in map_option (\<lambda>full. join_with slash (map component_name
             (drop (length (lexically_resolve (sc_cwd c) base)) full)))
           (contained_path (sc_cwd c) base rel))"

definition stage_bundle_files ::
    "StoreContext \<Rightarrow> string \<Rightarrow> (string \<times> string) list \<Rightarrow> FaultPoint \<Rightarrow> FaultPoint \<Rightarrow> unit store_op" where
  "stage_bundle_files c staging_name files file_sync directory_sync =
     op_bind (on_fs (fs_create_dir (Entry staging_name))) (\<lambda>_.
     op_bind (op_each (\<lambda>(rel, content).
         if ends_with rel [slash] then op_raise Internal
         else case relative_key c staging_name rel of
                None \<Rightarrow> op_raise Internal
              | Some key \<Rightarrow> write_below (Entry staging_name) (key, content)) files) (\<lambda>_.
     op_bind (sync_with_barrier c (Entry staging_name) file_sync) (\<lambda>_.
     bare_fault (sc_faults c) directory_sync)))"

section \<open>Rows (lifecycle/sql.rs)\<close>

definition ARTIFACT_KEY_TAKEN :: string where "ARTIFACT_KEY_TAKEN = ''artifact_key is already in use''"

definition as_i64 :: "int \<Rightarrow> int result" where
  "as_i64 value = (if value \<le> i64_max then Inr value else Inl Internal)"

definition durability_pending :: "store \<Rightarrow> string \<Rightarrow> bool" where
  "durability_pending s aid \<longleftrightarrow> list_ex (\<lambda>i. di_artifact_id i = aid) (st_intents s)"

text \<open>\<open>meta_from_row\<close> refuses a negative integer column.\<close>

definition meta_from_row :: "ArtifactMeta \<Rightarrow> ArtifactMeta result" where
  "meta_from_row m = (if am_bytes m < 0 \<or> am_revision m < 0 then Inl Internal else Inr m)"

definition load_meta_unchecked :: "store \<Rightarrow> string \<Rightarrow> ArtifactMeta option result" where
  "load_meta_unchecked s aid =
     (case List.find (\<lambda>m. am_id m = aid) (st_artifacts s) of
        None \<Rightarrow> Inr None
      | Some m \<Rightarrow> try_bind (meta_from_row m) (\<lambda>m. Inr (Some m)))"

definition load_meta :: "store \<Rightarrow> string \<Rightarrow> ArtifactMeta option result" where
  "load_meta s aid = (if durability_pending s aid then Inr None else load_meta_unchecked s aid)"

definition load_meta_by_key :: "store \<Rightarrow> string \<Rightarrow> string \<Rightarrow> ArtifactMeta option result" where
  "load_meta_by_key s org key =
     (case List.find (\<lambda>m. am_org m = org \<and> am_artifact_key m = Some key) (st_artifacts s) of
        None \<Rightarrow> Inr None
      | Some m \<Rightarrow> load_meta s (am_id m))"

definition list_metas :: "store \<Rightarrow> ArtifactMeta list \<Rightarrow> ArtifactMeta list result" where
  "list_metas s rows =
     try_bind (collect_results (map meta_from_row rows)) (\<lambda>metas.
       Inr (filter (\<lambda>m. \<not> durability_pending s (am_id m)) metas))"

definition start_durability_intent ::
    "string \<Rightarrow> string \<Rightarrow> string \<Rightarrow> string \<Rightarrow> string \<Rightarrow> string \<Rightarrow> store \<Rightarrow> (unit \<times> store) result" where
  "start_durability_intent intent_id aid operation expected prior staging_name s =
     (if \<not> (is_transient_name staging_name \<and> transient_name_artifact_id staging_name = Some aid)
         \<or> list_ex (\<lambda>i. di_id i = intent_id) (st_intents s)
      then Inl Internal
      else Inr ((), s\<lparr>st_intents := st_intents s @
             [\<lparr> di_id = intent_id, di_artifact_id = aid, di_operation = operation, di_state = ''prepared'',
                di_expected_sha256 = expected, di_prior_sha256 = prior, di_staging_path = staging_name \<rparr>]\<rparr>))"

definition advance_durability_intent :: "string \<Rightarrow> string \<Rightarrow> store \<Rightarrow> (unit \<times> store) result" where
  "advance_durability_intent intent_id state s =
     (if count_rows (\<lambda>i. di_id i = intent_id) (st_intents s) \<noteq> 1 then Inl Internal
      else Inr ((), s\<lparr>st_intents := sql_update (\<lambda>i. di_id i = intent_id) (\<lambda>i. i\<lparr>di_state := state\<rparr>)
             (st_intents s)\<rparr>))"

text \<open>A delivery that is still blocked on the intent restricts its deletion.\<close>

definition finish_durability_intent :: "string \<Rightarrow> store \<Rightarrow> (unit \<times> store) result" where
  "finish_durability_intent intent_id s =
     (if list_ex (\<lambda>i. di_id i = intent_id) (st_intents s)
         \<and> list_ex (\<lambda>r. d_durability_intent_id r = Some intent_id) (ob_rows (st_outbox s))
      then Inl Internal
      else Inr ((), s\<lparr>st_intents := sql_delete (\<lambda>i. di_id i = intent_id) (st_intents s)\<rparr>))"

definition durability_intent_state :: "store \<Rightarrow> string \<Rightarrow> string option" where
  "durability_intent_state s intent_id =
     map_option di_state (List.find (\<lambda>i. di_id i = intent_id) (st_intents s))"

definition revision_row :: "ArtifactMeta \<Rightarrow> string option \<Rightarrow> string \<Rightarrow> ArtifactRevision" where
  "revision_row m client now =
     \<lparr> rv_artifact_id = am_id m, rv_org = am_org m, rv_revision = am_revision m, rv_title = am_title m,
       rv_description = am_description m, rv_category = am_category m, rv_bytes = am_bytes m,
       rv_is_bundle = am_is_bundle m, rv_entry = am_entry m, rv_body_sha256 = am_body_sha256 m,
       rv_created_at = now, rv_client_id = client \<rparr>"

definition same_revision :: "ArtifactRevision \<Rightarrow> ArtifactRevision \<Rightarrow> bool" where
  "same_revision r q \<longleftrightarrow> rv_artifact_id q = rv_artifact_id r \<and> rv_revision q = rv_revision r"

definition artifact_with_org :: "store \<Rightarrow> string \<Rightarrow> string \<Rightarrow> bool" where
  "artifact_with_org s aid org \<longleftrightarrow> list_ex (\<lambda>m. am_id m = aid \<and> am_org m = org) (st_artifacts s)"

text \<open>
  \<open>INSERT OR REPLACE\<close> and \<open>INSERT OR IGNORE\<close> into \<open>artifact_revisions\<close>, whose rows reference an
  artifact of the same organization and have a positive revision.
\<close>

definition record_revision_row ::
    "ArtifactMeta \<Rightarrow> string option \<Rightarrow> string \<Rightarrow> store \<Rightarrow> store result" where
  "record_revision_row m client now s =
     try_bind (as_i64 (am_revision m)) (\<lambda>_.
     try_bind (as_i64 (am_bytes m)) (\<lambda>_.
     let r = revision_row m client now in
     if am_revision m < 1 \<or> \<not> artifact_with_org s (am_id m) (am_org m) then Inl Internal
     else Inr (s\<lparr>st_revisions := sql_delete (same_revision r) (st_revisions s) @ [r]\<rparr>)))"

definition record_legacy_revision_row :: "ArtifactMeta \<Rightarrow> string \<Rightarrow> store \<Rightarrow> store result" where
  "record_legacy_revision_row m now s =
     try_bind (as_i64 (am_revision m)) (\<lambda>_.
     try_bind (as_i64 (am_bytes m)) (\<lambda>_.
     let r = revision_row m None now in
     if am_revision m < 1 \<or> list_ex (same_revision r) (st_revisions s) then Inr s
     else if \<not> artifact_with_org s (am_id m) (am_org m) then Inl Internal
     else Inr (s\<lparr>st_revisions := st_revisions s @ [r]\<rparr>)))"

definition load_revision :: "store \<Rightarrow> string \<Rightarrow> int \<Rightarrow> ArtifactRevision option result" where
  "load_revision s aid revision =
     try_bind (as_i64 revision) (\<lambda>_.
     case List.find (\<lambda>m. am_id m = aid) (st_artifacts s) of
       None \<Rightarrow> Inr None
     | Some m \<Rightarrow>
         (case List.find (\<lambda>r. rv_artifact_id r = aid \<and> rv_revision r = revision \<and> revision < am_revision m)
                 (st_revisions s) of
            None \<Rightarrow> Inr None
          | Some r \<Rightarrow> if rv_bytes r < 0 then Inl Internal else Inr (Some r)))"

definition org_exists :: "store \<Rightarrow> string \<Rightarrow> bool" where
  "org_exists s name \<longleftrightarrow> List.member (st_orgs s) name"

text \<open>\<open>DELETE FROM artifacts\<close> cascades to the revisions and the child rows.\<close>

definition delete_artifact :: "string \<Rightarrow> store \<Rightarrow> store" where
  "delete_artifact aid s =
     s\<lparr>st_artifacts := sql_delete (\<lambda>m. am_id m = aid) (st_artifacts s),
       st_revisions := sql_delete (\<lambda>r. rv_artifact_id r = aid) (st_revisions s),
       st_children := sql_delete (\<lambda>ch. ch_artifact_id ch = aid) (st_children s)\<rparr>"

section \<open>The outbox and the ledger inside a store transaction\<close>

definition outbox_view :: "store \<Rightarrow> outbox_db" where
  "outbox_view s = (st_outbox s)\<lparr>ob_intents := map di_id (st_intents s)\<rparr>"

text \<open>The outbox functions delete intents; the intents of the store follow.\<close>

definition set_outbox :: "outbox_db \<Rightarrow> store \<Rightarrow> store" where
  "set_outbox db s =
     s\<lparr>st_outbox := db, st_intents := filter (\<lambda>i. List.member (ob_intents db) (di_id i)) (st_intents s)\<rparr>"

definition finalize_durability_success :: "string \<Rightarrow> int \<Rightarrow> store \<Rightarrow> store result" where
  "finalize_durability_success intent now s =
     try_bind (finalize_durability_success_in_transaction (outbox_view s) intent now) (\<lambda>(n, db).
       Inr (set_outbox db s))"

definition compensate_durability :: "string \<Rightarrow> store \<Rightarrow> store result" where
  "compensate_durability intent s =
     try_bind (compensate_durability_in_transaction (outbox_view s) intent) (\<lambda>(n, db).
       Inr (set_outbox db s))"

fun event_name :: "WebhookEvent \<Rightarrow> string" where
  "event_name EvPublished = ''published''"
| "event_name EvUpdated = ''updated''"
| "event_name EvRestored = ''restored''"
| "event_name EvDeleted = ''deleted''"
| "event_name EvFeedback = ''feedback''"
| "event_name EvResolved = ''resolved''"

definition accepts_preview :: "WebhookEvent \<Rightarrow> bool" where
  "accepts_preview event \<longleftrightarrow> event = EvPublished \<or> event = EvUpdated \<or> event = EvRestored"

record DeliveryEnvelope =
  ev_event_id :: string
  ev_tenant :: string
  ev_event_type :: string
  ev_bytes :: bytes

definition stable_delivery_event_id :: "(bytes \<Rightarrow> string) \<Rightarrow> string \<Rightarrow> WebhookEvent \<Rightarrow> string \<Rightarrow> string" where
  "stable_delivery_event_id sha tenant event subject =
     ''delivery:v1:'' @ sha (''delivery-envelope-v1'' @ [CHR 0x00] @ tenant @ [CHR 0x00] @ event_name event
       @ [CHR 0x00] @ subject)"

text \<open>
  \<open>delivery_envelope\<close> with the checks of \<open>build_with_preview\<close>; the canonical bytes of the
  rendered envelope are a parameter.
\<close>

definition delivery_envelope :: "StoreContext \<Rightarrow> ArtifactMeta \<Rightarrow> WebhookEvent \<Rightarrow> DeliveryEnvelope result" where
  "delivery_envelope c m event =
     (if \<not> am_is_bundle m \<and> accepts_preview event \<and>
         (am_revision m = 0 \<or> SafeArtifactId_addressable (am_id m) = None \<or> BodyDigest_parse (am_body_sha256 m) = None)
      then Inl (Validation ''invalid delivery preview reference'')
      else if trim (am_org m) = [] then Inl (Validation ''invalid delivery envelope'')
      else if MAX_PAYLOAD_BYTES < int (length (sc_envelope_bytes c m event)) then Inl PayloadTooLarge
      else Inr \<lparr> ev_event_id = stable_delivery_event_id (sc_sha c) (am_org m) event
                     (''artifact:'' @ am_id m @ '':'' @ show_int (am_revision m)),
                 ev_tenant = am_org m, ev_event_type = event_name event,
                 ev_bytes = sc_envelope_bytes c m event \<rparr>)"

section \<open>Fan-out (persistence/outbox_fanout.rs)\<close>

definition subscribed :: "string \<Rightarrow> WebhookEvent \<Rightarrow> string option \<Rightarrow> WebhookRow \<Rightarrow> bool" where
  "subscribed tenant event excluded w \<longleftrightarrow>
     wr_org w = tenant \<and> contains_str ('','' @ wr_events w @ '','') ('','' @ event_name event @ '','') \<and>
     (case excluded of None \<Rightarrow> True | Some x \<Rightarrow> wr_id w \<noteq> x)"

definition fanout_targets :: "store \<Rightarrow> string \<Rightarrow> WebhookEvent \<Rightarrow> string option \<Rightarrow> string list" where
  "fanout_targets s tenant event excluded =
     map wr_id (sort_key (\<lambda>w. [wr_created_at w, wr_id w]) (filter (subscribed tenant event excluded) (st_webhooks s)))"

definition fanout_input ::
    "(bytes \<Rightarrow> string) \<Rightarrow> DeliveryEnvelope \<Rightarrow> string option \<Rightarrow> string \<Rightarrow> EnqueueDelivery" where
  "fanout_input sha envelope intent target =
     \<lparr> e_event_id = ev_event_id envelope, e_tenant = ev_tenant envelope, e_event_type = ev_event_type envelope,
       e_target_key = target, e_secret_ref = ''webhook:'' @ target, e_payload = ev_bytes envelope,
       e_payload_sha256 = Some (sha (ev_bytes envelope)), e_durability_intent_id = intent,
       e_delivery_kind = DELIVERY_KIND_EVENT, e_ordering_key = target, e_depends_on_outbox_id = None \<rparr>"

definition fanout_with_policy ::
    "(bytes \<Rightarrow> string) \<Rightarrow> (nat \<Rightarrow> string result) \<Rightarrow> DeliveryEnvelope \<Rightarrow> string \<Rightarrow> WebhookEvent \<Rightarrow> string option \<Rightarrow>
     string option \<Rightarrow> int \<Rightarrow> store \<Rightarrow> store result" where
  "fanout_with_policy sha next_id envelope tenant event intent excluded now s =
     (if trim (ev_event_id envelope) = [] \<or> trim (ev_tenant envelope) = []
         \<or> ev_event_type envelope \<noteq> event_name event \<or> ev_tenant envelope \<noteq> tenant
      then Inl (Validation ''invalid delivery envelope'')
      else
        let targets = fanout_targets s (ev_tenant envelope) event excluded in
        try_bind (collect_results (map (\<lambda>(k, target).
            try_bind (next_id k) (\<lambda>i. Inr (fanout_input sha envelope intent target, i)))
            (zip [0..<length targets] targets))) (\<lambda>inputs.
        try_bind (enqueue_many_in_transaction sha (outbox_view s) inputs now) (\<lambda>(rows, db).
        Inr (set_outbox db s))))"

definition fanout_in_transaction where
  "fanout_in_transaction sha next_id envelope tenant event intent now s =
     fanout_with_policy sha next_id envelope tenant event intent None now s"

definition fanout_in_transaction_excluding where
  "fanout_in_transaction_excluding sha next_id envelope tenant event now excluded s =
     fanout_with_policy sha next_id envelope tenant event None excluded now s"

section \<open>Context helpers (lifecycle/context.rs)\<close>

definition fanout_delivery ::
    "StoreContext \<Rightarrow> nat \<Rightarrow> ArtifactMeta \<Rightarrow> WebhookEvent \<Rightarrow> string \<Rightarrow> store \<Rightarrow> store result" where
  "fanout_delivery c n m event intent s =
     try_bind (delivery_envelope c m event) (\<lambda>envelope.
     fanout_in_transaction (sc_sha c) (sc_webhook_id c n) envelope (am_org m) event (Some intent) (sc_now c n) s)"

definition audit_event :: "string \<Rightarrow> string \<Rightarrow> int option \<Rightarrow> AuditEvent" where
  "audit_event operation target_id revision =
     \<lparr> ae_operation = operation, ae_target_type = ''artifact'', ae_target_id = target_id,
       ae_result = ''success'', ae_classification = [], ae_revision = revision \<rparr>"

definition compensated_event :: "string \<Rightarrow> string \<Rightarrow> int option \<Rightarrow> AuditEvent" where
  "compensated_event operation target_id revision =
     \<lparr> ae_operation = operation, ae_target_type = ''artifact'', ae_target_id = target_id,
       ae_result = ''failure'', ae_classification = ''compensated'', ae_revision = revision \<rparr>"

definition reserve_audit ::
    "StoreContext \<Rightarrow> MutationAudit \<Rightarrow> string \<Rightarrow> string \<Rightarrow> string \<Rightarrow> int option \<Rightarrow> store \<Rightarrow> store result" where
  "reserve_audit c audit intent operation target_id revision s =
     try_bind (reserve_receipt_in_transaction (sc_mac c) (sc_sha c) (st_ledger s)
         (correlation audit operation target_id revision) intent (ma_context audit)
         (audit_event operation target_id revision)) (\<lambda>(reserved, l).
     if reserved then Inr (s\<lparr>st_ledger := l\<rparr>) else Inl Internal)"

text \<open>A random event id and a time stamp, drawn for one audit record.\<close>

definition draw_event :: "StoreContext \<Rightarrow> (string \<times> nat) store_op" where
  "draw_event c = draw (\<lambda>n. try_bind (sc_event_id c n) (\<lambda>i. Inr (i, n)))"

definition finalize_audit_and_intent ::
    "StoreContext \<Rightarrow> MutationAudit \<Rightarrow> string \<Rightarrow> string \<Rightarrow> string \<Rightarrow> int option \<Rightarrow> unit store_op" where
  "finalize_audit_and_intent c audit intent operation target_id revision =
     op_bind (draw_event c) (\<lambda>(event_id, n).
     step (\<lambda>s.
       try_bind (finalize_receipt_in_transaction (sc_mac c) (sc_sha c) (st_ledger s)
           (correlation audit operation target_id revision) event_id (ma_context audit)
           (audit_event operation target_id revision) (sc_datetime c n)) (\<lambda>(row, l).
       try_bind (finalize_durability_success intent (sc_now c n) (s\<lparr>st_ledger := l\<rparr>)) (\<lambda>s'.
       Inr ((), s')))))"

definition cancel_compensated_audit_intent ::
    "StoreContext \<Rightarrow> MutationAudit \<Rightarrow> string \<Rightarrow> string \<Rightarrow> string \<Rightarrow> int option \<Rightarrow> unit store_op" where
  "cancel_compensated_audit_intent c audit intent operation target_id revision =
     op_bind (draw_event c) (\<lambda>(event_id, n).
     step (\<lambda>s.
       try_bind (verify_pending_receipt_in_transaction (sc_mac c) (sc_sha c) (st_ledger s) intent) (\<lambda>_.
       try_bind (append_in_transaction (sc_mac c) (sc_sha c) (st_ledger s) event_id (ma_context audit)
           (compensated_event operation target_id revision) (sc_datetime c n)) (\<lambda>(row, l).
       try_bind (delete_pending_receipt_in_transaction (sc_mac c) (sc_sha c) l intent) (\<lambda>l'.
       try_bind (compensate_durability intent (s\<lparr>st_ledger := l'\<rparr>)) (\<lambda>s'.
       Inr ((), s')))))))"

definition transient_entry :: "StoreContext \<Rightarrow> string \<Rightarrow> TransientKind \<Rightarrow> string store_op" where
  "transient_entry c aid kind =
     draw (\<lambda>n. try_bind (sc_artifact_id c n) (\<lambda>token.
       case SafeArtifactId_parse token of
         None \<Rightarrow> Inl Internal
       | Some token \<Rightarrow> Inr (transient_name aid kind token)))"

definition id_available :: "store \<Rightarrow> string \<Rightarrow> bool result" where
  "id_available s candidate =
     (if is_reserved_artifact_id candidate then Inr False
      else case SafeArtifactId_parse candidate of
             None \<Rightarrow> Inr False
           | Some aid \<Rightarrow>
               if path_exists (st_fs s) (live_loc aid False) \<or> path_exists (st_fs s) (live_loc aid True)
               then Inr False
               else try_bind (load_meta s aid) (\<lambda>m. Inr (m = None)))"

fun next_id_attempts :: "StoreContext \<Rightarrow> nat \<Rightarrow> string store_op" where
  "next_id_attempts c 0 = op_raise Internal"
| "next_id_attempts c (Suc k) =
     op_bind (draw (sc_artifact_id c)) (\<lambda>candidate.
     op_bind (query (\<lambda>s. id_available s candidate)) (\<lambda>free.
     if free then op_return candidate else next_id_attempts c k))"

definition next_id :: "StoreContext \<Rightarrow> string store_op" where
  "next_id c = next_id_attempts c 64"

end
