(* ===== verification/Artifact_Lifecycle.thy ===== *)
theory Artifact_Lifecycle
  imports Artifact_Store
begin

text \<open>
  The operations of the artifact life cycle, src/src/artifacts/lifecycle/: publish.rs, update.rs
  and body_swap.rs, trash.rs (restore and delete), metadata.rs and org_move.rs.

  Every operation is written as the code runs it: validation, the durability intent, staging, the
  metadata transaction, the moves of the body, and the compensation of each failure. A mutable
  flag that a compensation reads travels with the error. The lifecycle gate (a lock held for the
  whole call) makes the operations atomic with respect to each other, so they are composed
  sequentially. Lifecycle_Safety holds what the definitions satisfy.
\<close>

section \<open>Requests and results (model/artifact.rs, lifecycle/mod.rs)\<close>

datatype ArtifactContent = SingleHtml string | Bundle "(string \<times> string) list" "string option"

record PublishArtifact =
  pa_publisher :: PublisherIdentity
  pa_target_org :: string
  pa_title :: "string option"
  pa_description :: "string option"
  pa_category :: "string option"
  pa_content :: ArtifactContent
  pa_artifact_key :: "string option"

record PublishedArtifact =
  pd_meta :: ArtifactMeta
  pd_file_count :: "nat option"

record ArtifactUpdate =
  au_expected_revision :: int
  au_acting_client_id :: "string option"
  au_title :: "string option"
  au_description :: "string option"
  au_category :: "string option"
  au_content :: "ArtifactContent option"

record UpdateArtifactResult =
  ur_meta :: ArtifactMeta
  ur_changed :: bool

record RestoreArtifactResult =
  rr_meta :: ArtifactMeta
  rr_restored_from :: int

record RevisionHistory =
  rh_current :: int
  rh_revisions :: "ArtifactRevision list"

record PublishState =
  ps_inserted :: bool
  ps_final_durable :: bool

record BodySnapshot =
  bs_source :: loc
  bs_destination :: loc
  bs_moved :: bool

record MetaBefore =
  mb_title :: string
  mb_description :: string
  mb_bytes :: int
  mb_entry :: string
  mb_category :: string
  mb_body_sha256 :: string
  mb_revision :: int
  mb_updated_at :: string

datatype StagedBody = NoBody | Single string | BundleBody "(string \<times> string) list"

record UpdatePlan =
  up_title :: string
  up_description :: string
  up_category :: string
  up_bytes :: int
  up_entry :: string
  up_body_sha256 :: string
  up_body :: StagedBody
  up_content_changed :: bool
  up_changed :: bool

record PreparedPublish =
  pp_bytes :: int
  pp_body_sha256 :: string
  pp_is_bundle :: bool
  pp_entry :: string
  pp_file_count :: "nat option"
  pp_single :: "string option"
  pp_bundle :: "ValidatedBundle option"

text \<open>An error together with the local state its compensation reads.\<close>

definition op_tag :: "'t \<Rightarrow> (store, 'e, 'a) op \<Rightarrow> (store, 'e \<times> 't, 'a) op" where
  "op_tag t m = op_catch m (\<lambda>e. op_raise (e, t))"

section \<open>Publish (lifecycle/publish.rs)\<close>

definition prepare_publish :: "StoreContext \<Rightarrow> ArtifactContent \<Rightarrow> PreparedPublish result" where
  "prepare_publish c content =
     (case content of
        SingleHtml html \<Rightarrow>
          try_bind (validate_single_body (sc_sha c) html (sc_limits c)) (\<lambda>v.
          Inr \<lparr> pp_bytes = vb_bytes v, pp_body_sha256 = vb_body_sha256 v, pp_is_bundle = False,
                pp_entry = [], pp_file_count = None, pp_single = Some html, pp_bundle = None \<rparr>)
      | Bundle files entry \<Rightarrow>
          try_bind (validate_bundle files entry None (sc_limits c)) (\<lambda>v.
          Inr \<lparr> pp_bytes = vbun_total_bytes v,
                pp_body_sha256 = bundle_manifest_digest (sc_sha c) (sc_manifest_json c) (vbun_files v),
                pp_is_bundle = True, pp_entry = vbun_entry v, pp_file_count = Some (length (vbun_files v)),
                pp_single = None, pp_bundle = Some v \<rparr>))"

definition publish_org :: "PublishArtifact \<Rightarrow> string" where
  "publish_org request = (if pa_target_org request = [] then DEFAULT_ORG else pa_target_org request)"

definition key_owner :: "store \<Rightarrow> PublisherIdentity \<Rightarrow> string option" where
  "key_owner s publisher =
     (case List.find (\<lambda>k. kr_client_id k = pi_client_id publisher \<and> kr_org k = pi_org publisher) (st_keys s) of
        None \<Rightarrow> None | Some k \<Rightarrow> kr_owner_email k)"

definition new_meta ::
    "string \<Rightarrow> PublishArtifact \<Rightarrow> PreparedPublish \<Rightarrow> string option \<Rightarrow> string \<Rightarrow> ArtifactMeta" where
  "new_meta aid request prepared owner now =
     \<lparr> am_id = aid, am_client_id = pi_client_id (pa_publisher request), am_org = publish_org request,
       am_title = normalize_title (pa_title request), am_description = normalize_description (pa_description request),
       am_bytes = pp_bytes prepared, am_created_at = now, am_updated_at = now,
       am_uploader_label = normalize_label (pi_label (pa_publisher request)), am_owner_email = owner,
       am_is_bundle = pp_is_bundle prepared, am_entry = pp_entry prepared, am_revision = 1,
       am_category = normalize_category (case pa_category request of None \<Rightarrow> [] | Some v \<Rightarrow> v),
       am_hidden = False, am_body_sha256 = pp_body_sha256 prepared, am_artifact_key = pa_artifact_key request \<rparr>"

text \<open>The id is the primary key; \<open>(org, artifact_key)\<close> is unique where a key is set.\<close>

definition insert_artifact :: "ArtifactMeta \<Rightarrow> store \<Rightarrow> store result" where
  "insert_artifact m s =
     try_bind (as_i64 (am_bytes m)) (\<lambda>_.
     if list_ex (\<lambda>q. am_id q = am_id m) (st_artifacts s) then Inl Internal
     else if am_artifact_key m \<noteq> None \<and>
             list_ex (\<lambda>q. am_org q = am_org m \<and> am_artifact_key q = am_artifact_key m) (st_artifacts s)
     then Inl (Conflict ARTIFACT_KEY_TAKEN)
     else Inr (s\<lparr>st_artifacts := st_artifacts s @ [m]\<rparr>))"

definition publish_intent :: "string \<Rightarrow> string" where
  "publish_intent aid = ''publish:'' @ aid"

definition publish_transaction ::
    "StoreContext \<Rightarrow> nat \<Rightarrow> PublishArtifact \<Rightarrow> MutationAudit \<Rightarrow> string \<Rightarrow> PreparedPublish \<Rightarrow> store \<Rightarrow>
     (ArtifactMeta \<times> store) result" where
  "publish_transaction c n request audit aid prepared s =
     (let m = new_meta aid request prepared (key_owner s (pa_publisher request)) (sc_datetime c n) in
      try_bind (insert_artifact m s) (\<lambda>s1.
      try_bind (load_meta_unchecked s1 aid) (\<lambda>found.
      case found of
        None \<Rightarrow> Inl Internal
      | Some meta \<Rightarrow>
          try_bind (record_revision_row meta (Some (pi_client_id (pa_publisher request))) (sc_datetime c n) s1) (\<lambda>s2.
          try_bind (reserve_audit c audit (publish_intent aid) ''artifact.publish'' aid (Some 1) s2) (\<lambda>s3.
          try_bind (fanout_delivery c n meta EvPublished (publish_intent aid) s3) (\<lambda>s4.
          Inr (meta, s4)))))))"

definition stage_publish_body :: "StoreContext \<Rightarrow> string \<Rightarrow> PreparedPublish \<Rightarrow> unit guarded_op" where
  "stage_publish_body c staging prepared =
     op_bind (fault (sc_faults c) PublishStageWrite) (\<lambda>_.
     case pp_single prepared of
       Some html \<Rightarrow>
         op_interrupt (stage_single_body c (Entry staging) html PublishStageFileSync PublishStageDirectorySync)
     | None \<Rightarrow>
         (case pp_bundle prepared of
            Some v \<Rightarrow>
              op_interrupt (stage_bundle_files c staging (vbun_files v) PublishStageFileSync PublishStageDirectorySync)
          | None \<Rightarrow> op_return ()))"

definition finish_publish_body ::
    "StoreContext \<Rightarrow> MutationAudit \<Rightarrow> string \<Rightarrow> string \<Rightarrow> bool \<Rightarrow> (store, Interrupt \<times> PublishState, unit) op" where
  "finish_publish_body c audit aid staging is_bundle =
     op_bind (op_tag \<lparr> ps_inserted = True, ps_final_durable = False \<rparr> (fault (sc_faults c) PublishRename)) (\<lambda>_.
     op_bind (op_catch
         (rename_with_barrier c (Entry staging) (live_loc aid is_bundle) PublishRenameBarrier)
         (\<lambda>e. op_bind (ask (\<lambda>s. path_exists (st_fs s) (live_loc aid is_bundle) \<and>
                                  \<not> path_exists (st_fs s) (Entry staging))) (\<lambda>moved.
              if moved
              then op_raise (\<lparr> error = e, compensate = False \<rparr>, \<lparr> ps_inserted = True, ps_final_durable = True \<rparr>)
              else op_raise (Interrupt_from_error e, \<lparr> ps_inserted = True, ps_final_durable = False \<rparr>)))) (\<lambda>_.
     op_tag \<lparr> ps_inserted = True, ps_final_durable = True \<rparr>
       (op_bind (op_interrupt (step (advance_durability_intent (publish_intent aid) ''body_durable''))) (\<lambda>_.
        op_bind (fault (sc_faults c) PublishComplete) (\<lambda>_.
        op_interrupt (finalize_audit_and_intent c audit (publish_intent aid) ''artifact.publish'' aid (Some 1)))))))"

definition publish_attempt ::
    "StoreContext \<Rightarrow> PublishArtifact \<Rightarrow> MutationAudit \<Rightarrow> string \<Rightarrow> string \<Rightarrow> PreparedPublish \<Rightarrow>
     (store, Interrupt \<times> PublishState, ArtifactMeta) op" where
  "publish_attempt c request audit aid staging prepared =
     op_bind (op_tag \<lparr> ps_inserted = False, ps_final_durable = False \<rparr>
       (op_bind (stage_publish_body c staging prepared) (\<lambda>_.
        op_bind (fault (sc_faults c) PublishInsert) (\<lambda>_.
        op_bind (draw Inr) (\<lambda>n.
        op_interrupt (step (publish_transaction c n request audit aid prepared))))))) (\<lambda>meta.
     op_bind (op_tag \<lparr> ps_inserted = True, ps_final_durable = False \<rparr>
       (op_interrupt (step (advance_durability_intent (publish_intent aid) ''metadata_committed'')))) (\<lambda>_.
     op_bind (finish_publish_body c audit aid staging (pp_is_bundle prepared)) (\<lambda>_.
     op_return meta)))"

definition publish_compensation ::
    "StoreContext \<Rightarrow> MutationAudit \<Rightarrow> string \<Rightarrow> string \<Rightarrow> bool \<Rightarrow> PublishState \<Rightarrow> unit store_op" where
  "publish_compensation c audit aid staging is_bundle state =
     op_bind (if ps_inserted state
       then op_bind (bare_fault (sc_faults c) PublishDeleteRow) (\<lambda>_.
            step (\<lambda>s. Inr ((), delete_artifact aid s)))
       else op_return ()) (\<lambda>_.
     op_bind (safe_remove (Entry staging)) (\<lambda>_.
     op_bind (if ps_final_durable state then safe_remove (live_loc aid is_bundle) else op_return ()) (\<lambda>_.
     if ps_inserted state
     then cancel_compensated_audit_intent c audit (publish_intent aid) ''artifact.publish'' aid (Some 1)
     else step (finish_durability_intent (publish_intent aid)))))"

definition publish_body ::
    "StoreContext \<Rightarrow> PublishArtifact \<Rightarrow> MutationAudit \<Rightarrow> PreparedPublish \<Rightarrow> string \<Rightarrow> string \<Rightarrow> PublishedArtifact store_op" where
  "publish_body c request audit prepared aid staging =
     op_bind (step (start_durability_intent (publish_intent aid) aid ''publish'' (pp_body_sha256 prepared) [] staging)) (\<lambda>_.
     op_bind (op_catch (publish_attempt c request audit aid staging prepared)
       (\<lambda>(interrupt, state).
          op_bind (if compensate interrupt
                   then publish_compensation c audit aid staging (pp_is_bundle prepared) state
                   else op_return ()) (\<lambda>_.
          op_raise (error interrupt)))) (\<lambda>meta.
     op_return \<lparr> pd_meta = meta, pd_file_count = pp_file_count prepared \<rparr>))"

definition publish_sync ::
    "StoreContext \<Rightarrow> PublishArtifact \<Rightarrow> MutationAudit \<Rightarrow> PublishedArtifact store_op" where
  "publish_sync c request audit =
     op_bind (query (\<lambda>s. prepare_publish c (pa_content request))) (\<lambda>prepared.
     op_bind (next_id c) (\<lambda>aid.
     op_bind (transient_entry c aid Staging) (\<lambda>staging.
     publish_body c request (for_affected_tenant audit (publish_org request)) prepared aid staging)))"

section \<open>Swapping bodies (lifecycle/body_swap.rs)\<close>

definition snapshot_body :: "StoreContext \<Rightarrow> ArtifactMeta \<Rightarrow> bool \<Rightarrow> BodySnapshot store_op" where
  "snapshot_body c m move_body =
     (let source = live_loc (am_id m) (am_is_bundle m);
          destination = history_loc (am_id m) (am_revision m) (am_is_bundle m);
          temporary = history_snapshot_temp_loc (am_id m) (am_revision m) in
      op_bind (ask (\<lambda>s. path_exists (st_fs s) source)) (\<lambda>present.
      if \<not> present then op_raise (Gone ''body_missing'')
      else
        op_bind (create_history_dir c (am_id m)) (\<lambda>_.
        op_bind (ask (\<lambda>s. path_exists (st_fs s) destination)) (\<lambda>taken.
        if taken then op_raise (Conflict ''history destination already exists'')
        else if move_body then
          op_bind (rename_with_barrier c source destination UpdateSnapshotBarrier) (\<lambda>_.
          op_return \<lparr> bs_source = source, bs_destination = destination, bs_moved = True \<rparr>)
        else
          op_bind (ask (\<lambda>s. path_exists (st_fs s) temporary)) (\<lambda>left.
          if left then op_raise (Conflict ''history snapshot temporary already exists'')
          else
            op_bind (copy_recursive source temporary) (\<lambda>_.
            op_bind (sync_with_barrier c temporary UpdateSnapshotFileSync) (\<lambda>_.
            op_bind (rename_with_barrier c temporary destination UpdateSnapshotBarrier) (\<lambda>_.
            op_return \<lparr> bs_source = source, bs_destination = destination, bs_moved = False \<rparr>)))))))) "

text \<open>What a failed snapshot leaves decides whether the update is compensated or retained.\<close>

definition snapshot_retained :: "StoreContext \<Rightarrow> ArtifactMeta \<Rightarrow> bool \<Rightarrow> store \<Rightarrow> bool" where
  "snapshot_retained c m has_staged s \<longleftrightarrow>
     (let source = live_loc (am_id m) (am_is_bundle m);
          history = history_loc (am_id m) (am_revision m) (am_is_bundle m) in
      (has_staged \<and> \<not> path_exists (st_fs s) source \<and> path_exists (st_fs s) history) \<or>
      (\<not> has_staged \<and> path_exists (st_fs s) source \<and>
       body_digest_at_path c (st_fs s) history (am_is_bundle m) = Some (am_body_sha256 m)))"

definition swap_body ::
    "StoreContext \<Rightarrow> ArtifactMeta \<Rightarrow> string option \<Rightarrow> (store, Interrupt \<times> BodySnapshot option, unit) op" where
  "swap_body c m staged =
     op_bind (op_tag None (fault (sc_faults c) UpdateSnapshot)) (\<lambda>_.
     op_bind (op_catch (snapshot_body c m (staged \<noteq> None))
       (\<lambda>e. op_bind (ask (snapshot_retained c m (staged \<noteq> None))) (\<lambda>retained.
            op_raise (\<lparr> error = e, compensate = \<not> retained \<rparr>, None)))) (\<lambda>snapshot.
     op_bind (op_tag (Some snapshot) (fault (sc_faults c) UpdateSwap)) (\<lambda>_.
     case staged of
       None \<Rightarrow> op_return ()
     | Some path \<Rightarrow>
         op_catch (rename_with_barrier c (Entry path) (live_loc (am_id m) (am_is_bundle m)) UpdateSwapBarrier)
           (\<lambda>e. op_bind (ask (\<lambda>s. path_exists (st_fs s) (live_loc (am_id m) (am_is_bundle m)) \<and>
                                    \<not> path_exists (st_fs s) (Entry path))) (\<lambda>moved.
                op_raise (\<lparr> error = e, compensate = \<not> moved \<rparr>, Some snapshot))))))"

definition remove_snapshot_temporary :: "StoreContext \<Rightarrow> ArtifactMeta \<Rightarrow> unit store_op" where
  "remove_snapshot_temporary c m =
     (let temporary = history_snapshot_temp_loc (am_id m) (am_revision m) in
      op_bind (ask (\<lambda>s. path_exists (st_fs s) temporary)) (\<lambda>present.
      if present then
        op_bind (bare_fault (sc_faults c) UpdateSnapshotTempRemove) (\<lambda>_.
        remove_with_barrier c temporary UpdateSnapshotTempRemoveBarrier)
      else op_return ()))"

definition require_current_body :: "StoreContext \<Rightarrow> ArtifactMeta \<Rightarrow> store \<Rightarrow> unit result" where
  "require_current_body c m s =
     (case body_digest_at_path c (st_fs s) (live_loc (am_id m) (am_is_bundle m)) (am_is_bundle m) of
        None \<Rightarrow> Inl (Gone ''body_missing'')
      | Some digest \<Rightarrow>
          if digest \<noteq> am_body_sha256 m then Inl (Conflict ''body_digest_mismatch'') else Inr ())"

definition restore_snapshot_body :: "StoreContext \<Rightarrow> BodySnapshot option \<Rightarrow> unit store_op" where
  "restore_snapshot_body c snapshot =
     op_bind (bare_fault (sc_faults c) UpdateRestoreSnapshot) (\<lambda>_.
     case snapshot of
       None \<Rightarrow> op_return ()
     | Some snap \<Rightarrow>
         op_bind (ask (\<lambda>s. path_exists (st_fs s) (bs_destination snap))) (\<lambda>present.
         if \<not> bs_moved snap \<or> \<not> present then op_return ()
         else durable_rename (bs_destination snap) (bs_source snap)))"

definition meta_before :: "ArtifactMeta \<Rightarrow> MetaBefore" where
  "meta_before m =
     \<lparr> mb_title = am_title m, mb_description = am_description m, mb_bytes = am_bytes m, mb_entry = am_entry m,
       mb_category = am_category m, mb_body_sha256 = am_body_sha256 m, mb_revision = am_revision m,
       mb_updated_at = am_updated_at m \<rparr>"

definition revert_transaction :: "string \<Rightarrow> MetaBefore \<Rightarrow> store \<Rightarrow> (unit \<times> store) result" where
  "revert_transaction aid before s =
     try_bind (as_i64 (u64_saturating_add (mb_revision before) 1)) (\<lambda>next.
     try_bind (as_i64 (mb_bytes before)) (\<lambda>_.
     try_bind (as_i64 (mb_revision before)) (\<lambda>_.
     Inr ((), s\<lparr>st_revisions := sql_delete (\<lambda>r. rv_artifact_id r = aid \<and> rv_revision r = next) (st_revisions s),
       st_artifacts := sql_update (\<lambda>m. am_id m = aid)
         (\<lambda>m. m\<lparr>am_title := mb_title before, am_description := mb_description before, am_bytes := mb_bytes before,
                am_entry := mb_entry before, am_category := mb_category before,
                am_body_sha256 := mb_body_sha256 before, am_revision := mb_revision before,
                am_updated_at := mb_updated_at before\<rparr>) (st_artifacts s)\<rparr>))))"

definition revert_update :: "StoreContext \<Rightarrow> ArtifactMeta \<Rightarrow> MetaBefore \<Rightarrow> unit store_op" where
  "revert_update c m before =
     op_bind (bare_fault (sc_faults c) UpdateRevertMetadata) (\<lambda>_.
     step (revert_transaction (am_id m) before))"

definition prunable :: "StoreContext \<Rightarrow> string \<Rightarrow> store \<Rightarrow> (int \<times> bool) list" where
  "prunable c aid s =
     (if i64_max < max_history (sc_limits c) then []
      else case List.find (\<lambda>m. am_id m = aid) (st_artifacts s) of
             None \<Rightarrow> []
           | Some m \<Rightarrow>
               map (\<lambda>r. (rv_revision r, rv_is_bundle r))
                 (drop (nat (max_history (sc_limits c)))
                   (sort_key (\<lambda>r. - rv_revision r)
                     (filter (\<lambda>r. rv_artifact_id r = aid \<and> rv_revision r < am_revision m) (st_revisions s)))))"

definition prune_history :: "StoreContext \<Rightarrow> string \<Rightarrow> unit store_op" where
  "prune_history c aid =
     op_bind (ask (prunable c aid)) (\<lambda>rows.
     op_each (\<lambda>(revision, is_bundle).
       op_bind (step (\<lambda>s. Inr ((), s\<lparr>st_revisions :=
           sql_delete (\<lambda>r. rv_artifact_id r = aid \<and> rv_revision r = revision) (st_revisions s)\<rparr>))) (\<lambda>_.
       if revision < 0 then op_return () else safe_remove (history_loc aid revision is_bundle))) rows)"

section \<open>Update (lifecycle/update.rs)\<close>

definition read_bundle_entry :: "StoreContext \<Rightarrow> store \<Rightarrow> string \<Rightarrow> string \<Rightarrow> bytes option" where
  "read_bundle_entry c s aid entry =
     (if entry = [] then None
      else Option.bind (relative_key c aid entry) (\<lambda>key.
        case node (st_fs s) (live_loc aid True) of
          Some (Tree files) \<Rightarrow> map_of files key
        | _ \<Rightarrow> None))"

definition update_content ::
    "StoreContext \<Rightarrow> ArtifactMeta \<Rightarrow> ArtifactUpdate \<Rightarrow> store \<Rightarrow> (int \<times> string \<times> string \<times> StagedBody) result" where
  "update_content c m update s =
     (case au_content update of
        None \<Rightarrow> Inr (am_bytes m, am_entry m, am_body_sha256 m, NoBody)
      | Some (SingleHtml html) \<Rightarrow>
          try_bind (validate_single_body (sc_sha c) html (sc_limits c)) (\<lambda>v.
          Inr (vb_bytes v, am_entry m, vb_body_sha256 v, Single html))
      | Some (Bundle files entry) \<Rightarrow>
          if \<not> (files = [] \<and> entry \<noteq> None) then
            try_bind (validate_bundle files entry (Some (am_entry m)) (sc_limits c)) (\<lambda>v.
            Inr (vbun_total_bytes v, vbun_entry v,
                 bundle_manifest_digest (sc_sha c) (sc_manifest_json c) (vbun_files v), BundleBody (vbun_files v)))
          else
            (let requested = (case entry of None \<Rightarrow> [] | Some e \<Rightarrow> e);
                 selected = (if requested = [] then Some (am_entry m) else sanitize_relative_path requested)
             in case selected of
                  Some value \<Rightarrow>
                    if value \<noteq> [] \<and> read_bundle_entry c s (am_id m) value \<noteq> None
                    then Inr (am_bytes m, value, am_body_sha256 m, NoBody)
                    else Inl (Validation (''entry '' @ [CHR 0x22] @ requested @ [CHR 0x22] @ '' is not one of the files''))
                | None \<Rightarrow> Inl (Validation (''entry '' @ [CHR 0x22] @ requested @ [CHR 0x22] @ '' is not one of the files''))))"

definition plan_update :: "StoreContext \<Rightarrow> ArtifactMeta \<Rightarrow> ArtifactUpdate \<Rightarrow> store \<Rightarrow> UpdatePlan result" where
  "plan_update c m update s =
     (let wants_single = (case au_content update of Some (SingleHtml _) \<Rightarrow> True | _ \<Rightarrow> False);
          entry_only = (case au_content update of Some (Bundle files entry) \<Rightarrow> files = [] \<and> entry \<noteq> None | _ \<Rightarrow> False);
          wants_bundle = (case au_content update of Some (Bundle _ _) \<Rightarrow> \<not> entry_only | _ \<Rightarrow> False)
      in if wants_single \<and> am_is_bundle m
         then Inl (Validation ''artifact is a bundle; pass files, not html'')
         else if wants_bundle \<and> \<not> am_is_bundle m
         then Inl (Validation ''artifact is single-file; pass html, not files'')
         else if entry_only \<and> \<not> am_is_bundle m
         then Inl (Validation ''artifact is single-file; entry only applies to bundles'')
         else
           let title = (case au_title update of None \<Rightarrow> am_title m | Some v \<Rightarrow> normalize_title (Some v));
               description = (case au_description update of None \<Rightarrow> am_description m
                              | Some v \<Rightarrow> normalize_description (Some v));
               category = (case au_category update of None \<Rightarrow> am_category m | Some v \<Rightarrow> normalize_category v)
           in try_bind (update_content c m update s) (\<lambda>(bytes, entry, digest, body).
              let content_changed = (bytes \<noteq> am_bytes m \<or> digest \<noteq> am_body_sha256 m)
              in Inr \<lparr> up_title = title, up_description = description, up_category = category,
                       up_bytes = bytes, up_entry = entry, up_body_sha256 = digest,
                       up_body = (if content_changed then body else NoBody),
                       up_content_changed = content_changed,
                       up_changed = (content_changed \<or> entry \<noteq> am_entry m \<or> title \<noteq> am_title m
                         \<or> description \<noteq> am_description m \<or> category \<noteq> am_category m) \<rparr>))"

definition produced_meta :: "ArtifactMeta \<Rightarrow> UpdatePlan \<Rightarrow> ArtifactMeta" where
  "produced_meta m plan =
     m\<lparr>am_title := up_title plan, am_description := up_description plan, am_bytes := up_bytes plan,
       am_entry := up_entry plan, am_category := up_category plan, am_body_sha256 := up_body_sha256 plan,
       am_revision := u64_saturating_add (am_revision m) 1\<rparr>"

definition guarded_row :: "ArtifactMeta \<Rightarrow> int \<Rightarrow> ArtifactMeta \<Rightarrow> bool" where
  "guarded_row m expected_revision q \<longleftrightarrow>
     am_id q = am_id m \<and> am_client_id q = am_client_id m \<and> am_org q = am_org m \<and>
     am_revision q = expected_revision"

text \<open>The metadata transaction: \<open>Inr None\<close> where the guarded row is gone.\<close>

definition update_transaction ::
    "StoreContext \<Rightarrow> nat \<Rightarrow> ArtifactMeta \<Rightarrow> int \<Rightarrow> UpdatePlan \<Rightarrow> string option \<Rightarrow> string \<Rightarrow> MutationAudit \<Rightarrow> string \<Rightarrow>
     store \<Rightarrow> store option result" where
  "update_transaction c n m expected_revision plan acting intent audit operation s =
     try_bind (as_i64 (up_bytes plan)) (\<lambda>_.
     try_bind (as_i64 expected_revision) (\<lambda>_.
     if count_rows (guarded_row m expected_revision) (st_artifacts s) \<noteq> 1 then Inr None
     else
       let s1 = s\<lparr>st_artifacts := sql_update (guarded_row m expected_revision)
             (\<lambda>q. q\<lparr>am_title := up_title plan, am_description := up_description plan, am_bytes := up_bytes plan,
                    am_entry := up_entry plan, am_category := up_category plan,
                    am_body_sha256 := up_body_sha256 plan, am_revision := am_revision q + 1,
                    am_updated_at := sc_datetime c n\<rparr>) (st_artifacts s)\<rparr>
       in
       try_bind (reserve_audit c audit intent operation (am_id m) (Some (u64_saturating_add (am_revision m) 1)) s1) (\<lambda>s2.
       try_bind (record_legacy_revision_row m (sc_datetime c n) s2) (\<lambda>s3.
       try_bind (record_revision_row (produced_meta m plan) acting (sc_datetime c n) s3) (\<lambda>s4.
       try_bind (fanout_delivery c n (produced_meta m plan)
           (if operation = ''artifact.restore'' then EvRestored else EvUpdated) intent s4) (\<lambda>s5.
       try_bind (advance_durability_intent intent ''metadata_committed'' s5) (\<lambda>(u, s6).
       Inr (Some s6))))))))"

text \<open>The last failpoint lies inside the transaction, before its commit.\<close>

definition commit_update ::
    "StoreContext \<Rightarrow> ArtifactMeta \<Rightarrow> int \<Rightarrow> UpdatePlan \<Rightarrow> string option \<Rightarrow> string \<Rightarrow> MutationAudit \<Rightarrow> string \<Rightarrow>
     bool store_op" where
  "commit_update c m expected_revision plan acting intent audit operation =
     op_bind (draw Inr) (\<lambda>n.
     op_bind (query (update_transaction c n m expected_revision plan acting intent audit operation)) (\<lambda>planned.
     if planned = None then op_return False
     else
       op_bind (bare_fault (sc_faults c) UpdateCommitTransaction) (\<lambda>_.
       op_bind (step (\<lambda>s. try_bind (update_transaction c n m expected_revision plan acting intent audit operation s)
           (\<lambda>committed. case committed of None \<Rightarrow> Inr ((), s) | Some s' \<Rightarrow> Inr ((), s')))) (\<lambda>_.
       op_return True))))"

definition update_intent :: "ArtifactMeta \<Rightarrow> string" where
  "update_intent m = ''update:'' @ am_id m @ '':'' @ show_int (u64_saturating_add (am_revision m) 1)"

definition stage_planned_body :: "StoreContext \<Rightarrow> ArtifactMeta \<Rightarrow> UpdatePlan \<Rightarrow> string \<Rightarrow> unit store_op" where
  "stage_planned_body c m plan path =
     op_catch
       (case up_body plan of
          Single html \<Rightarrow> stage_single_body c (Entry path) html UpdateStageFileSync UpdateStageDirectorySync
        | BundleBody files \<Rightarrow> stage_bundle_files c path files UpdateStageFileSync UpdateStageDirectorySync
        | NoBody \<Rightarrow> op_return ())
       (\<lambda>e. op_bind (safe_remove (Entry path)) (\<lambda>_.
            op_bind (op_ignore (step (finish_durability_intent (update_intent m)))) (\<lambda>_.
            op_raise e)))"

definition stage_update_body ::
    "StoreContext \<Rightarrow> ArtifactMeta \<Rightarrow> UpdatePlan \<Rightarrow> string option store_op" where
  "stage_update_body c m plan =
     op_bind (transient_entry c (am_id m) Staging) (\<lambda>path.
     op_bind (if up_content_changed plan then bare_fault (sc_faults c) UpdateStageWrite else op_return ()) (\<lambda>_.
     op_bind (step (start_durability_intent (update_intent m) (am_id m) ''update'' (up_body_sha256 plan)
         (am_body_sha256 m) path)) (\<lambda>_.
     if \<not> up_content_changed plan then op_return None
     else op_bind (stage_planned_body c m plan path) (\<lambda>_. op_return (Some path)))))"

definition remove_staged :: "string option \<Rightarrow> (store, 'e, unit) op" where
  "remove_staged staged = (case staged of None \<Rightarrow> op_return () | Some path \<Rightarrow> safe_remove (Entry path))"

definition update_compensation ::
    "StoreContext \<Rightarrow> ArtifactMeta \<Rightarrow> string option \<Rightarrow> MutationAudit \<Rightarrow> string \<Rightarrow> BodySnapshot option \<Rightarrow> unit store_op" where
  "update_compensation c m staged audit operation snapshot =
     op_bind (restore_snapshot_body c snapshot) (\<lambda>_.
     op_bind (remove_staged staged) (\<lambda>_.
     op_bind (revert_update c m (meta_before m)) (\<lambda>_.
     op_bind (remove_snapshot_temporary c m) (\<lambda>_.
     cancel_compensated_audit_intent c audit (update_intent m) operation (am_id m)
       (Some (u64_saturating_add (am_revision m) 1))))))"

definition finish_update_body ::
    "StoreContext \<Rightarrow> ArtifactMeta \<Rightarrow> string option \<Rightarrow> MutationAudit \<Rightarrow> string \<Rightarrow> UpdateArtifactResult store_op" where
  "finish_update_body c m staged audit operation =
     op_bind (op_catch (swap_body c m staged)
       (\<lambda>(interrupt, snapshot).
          op_bind (if compensate interrupt then update_compensation c m staged audit operation snapshot
                   else op_return ()) (\<lambda>_.
          op_raise (error interrupt)))) (\<lambda>_.
     op_bind (step (advance_durability_intent (update_intent m) ''body_durable'')) (\<lambda>_.
     op_bind (bare_fault (sc_faults c) UpdatePrune) (\<lambda>_.
     op_bind (prune_history c (am_id m)) (\<lambda>_.
     op_bind (finalize_audit_and_intent c audit (update_intent m) operation (am_id m)
         (Some (u64_saturating_add (am_revision m) 1))) (\<lambda>_.
     op_bind (query (\<lambda>s. load_meta s (am_id m))) (\<lambda>found.
     case found of
       None \<Rightarrow> op_raise Internal
     | Some meta \<Rightarrow> op_return \<lparr> ur_meta = meta, ur_changed = True \<rparr>))))))"

definition precommit_error :: "AppError \<Rightarrow> bool" where
  "precommit_error e = (case e of RateLimited \<Rightarrow> True | PayloadTooLarge \<Rightarrow> True | Validation _ \<Rightarrow> True
     | Conflict _ \<Rightarrow> True | _ \<Rightarrow> False)"

definition abandon_update :: "ArtifactMeta \<Rightarrow> string option \<Rightarrow> (store, 'e, unit) op" where
  "abandon_update m staged =
     op_bind (remove_staged staged) (\<lambda>_. op_ignore (step (finish_durability_intent (update_intent m))))"

definition update_commit ::
    "StoreContext \<Rightarrow> ArtifactMeta \<Rightarrow> int \<Rightarrow> UpdatePlan \<Rightarrow> string option \<Rightarrow> string option \<Rightarrow> MutationAudit \<Rightarrow> string \<Rightarrow> bool store_op" where
  "update_commit c m expected_revision plan acting staged audit operation =
     op_catch (commit_update c m expected_revision plan acting (update_intent m) audit operation)
       (\<lambda>e. op_bind (ask (\<lambda>s. durability_intent_state s (update_intent m))) (\<lambda>state.
            op_bind (if precommit_error e \<and> state = Some ''prepared''
              then op_bind (remove_staged staged) (\<lambda>_. step (finish_durability_intent (update_intent m)))
              else op_return ()) (\<lambda>_.
            op_raise e)))"

definition update_staged ::
    "StoreContext \<Rightarrow> ArtifactMeta \<Rightarrow> int \<Rightarrow> UpdatePlan \<Rightarrow> string option \<Rightarrow> MutationAudit \<Rightarrow> string \<Rightarrow> string option \<Rightarrow>
     UpdateArtifactResult store_op" where
  "update_staged c m expected_revision plan acting audit operation staged =
     op_bind (op_catch (fault (sc_faults c) UpdateCommit)
       (\<lambda>interrupt.
          op_bind (if compensate interrupt then abandon_update m staged else op_return ()) (\<lambda>_.
          op_raise (error interrupt)))) (\<lambda>_.
     op_bind (update_commit c m expected_revision plan acting staged audit operation) (\<lambda>committed.
     if \<not> committed then
       op_bind (abandon_update m staged) (\<lambda>_. op_raise (Conflict ''conflict''))
     else finish_update_body c m staged audit operation))"

definition update_locked ::
    "StoreContext \<Rightarrow> string \<Rightarrow> int \<Rightarrow> ArtifactUpdate \<Rightarrow> MutationAudit \<Rightarrow> string \<Rightarrow> UpdateArtifactResult store_op" where
  "update_locked c aid expected_revision update audit operation =
     op_bind (query (\<lambda>s. load_meta s aid)) (\<lambda>found.
     case found of
       None \<Rightarrow> op_raise (NotFound ''not_found'')
     | Some m \<Rightarrow>
         if SafeArtifactId_parse aid = None then op_raise ConcealedNotFound
         else if expected_revision < 1 \<or> expected_revision \<noteq> am_revision m
         then op_raise (Conflict ''conflict'')
         else
           op_bind (query (plan_update c m update)) (\<lambda>plan.
           if \<not> up_changed plan then op_return \<lparr> ur_meta = m, ur_changed = False \<rparr>
           else
             op_bind (query (require_current_body c m)) (\<lambda>_.
             op_bind (stage_update_body c m plan) (\<lambda>staged.
             update_staged c m expected_revision plan (au_acting_client_id update)
               (for_affected_tenant audit (am_org m)) operation staged))))"

definition update_sync ::
    "StoreContext \<Rightarrow> string \<Rightarrow> ArtifactUpdate \<Rightarrow> MutationAudit \<Rightarrow> UpdateArtifactResult store_op" where
  "update_sync c aid update audit =
     update_locked c aid (au_expected_revision update) update audit ''artifact.update''"

section \<open>Restore and delete (lifecycle/trash.rs)\<close>

text \<open>\<open>read_tree\<close> collects into an ordered map and decodes lossily.\<close>

definition read_tree :: "(string \<times> bytes) list \<Rightarrow> (string \<times> string) list" where
  "read_tree files = sort_key fst (map (\<lambda>(rel, content). (rel, from_utf8_lossy content)) files)"

definition restore_content :: "StoreContext \<Rightarrow> ArtifactMeta \<Rightarrow> ArtifactRevision \<Rightarrow> store \<Rightarrow> ArtifactContent result" where
  "restore_content c m row s =
     (if rv_is_bundle row \<noteq> am_is_bundle m then Inl (Conflict ''type_mismatch'')
      else case node (st_fs s) (history_loc (am_id m) (rv_revision row) (rv_is_bundle row)) of
             None \<Rightarrow> Inl (Gone ''body_missing'')
           | Some (Tree files) \<Rightarrow>
               if rv_is_bundle row then Inr (Bundle (read_tree files) (Some (rv_entry row))) else Inl Internal
           | Some (File content) \<Rightarrow>
               if rv_is_bundle row then Inl Internal else Inr (SingleHtml (from_utf8_lossy content)))"

definition restore_sync ::
    "StoreContext \<Rightarrow> string \<Rightarrow> int \<Rightarrow> string option \<Rightarrow> MutationAudit \<Rightarrow> RestoreArtifactResult store_op" where
  "restore_sync c aid revision acting audit =
     op_bind (query (\<lambda>s. load_meta s aid)) (\<lambda>found.
     case found of
       None \<Rightarrow> op_raise (NotFound ''not_found'')
     | Some m \<Rightarrow>
         if SafeArtifactId_parse aid = None then op_raise ConcealedNotFound
         else
           op_bind (query (\<lambda>s. load_revision s aid revision)) (\<lambda>old.
           case old of
             None \<Rightarrow> op_raise (NotFound ''revision_not_found'')
           | Some row \<Rightarrow>
               op_bind (query (restore_content c m row)) (\<lambda>content.
               op_bind (update_locked c aid (am_revision m)
                   \<lparr> au_expected_revision = am_revision m, au_acting_client_id = acting,
                     au_title = Some (rv_title row), au_description = Some (rv_description row),
                     au_category = Some (rv_category row), au_content = Some content \<rparr>
                   audit ''artifact.restore'') (\<lambda>updated.
               op_return \<lparr> rr_meta = ur_meta updated, rr_restored_from = rv_revision row \<rparr>))))"

definition move_body_to_trash :: "StoreContext \<Rightarrow> ArtifactMeta \<Rightarrow> string \<Rightarrow> bool store_op" where
  "move_body_to_trash c m trash =
     (let source = live_loc (am_id m) (am_is_bundle m) in
      op_bind (ask (\<lambda>s. path_exists (st_fs s) source)) (\<lambda>present.
      if \<not> present then op_return False
      else
        op_bind (bare_fault (sc_faults c) DeleteTrashRename) (\<lambda>_.
        op_bind (rename_with_barrier c source (Entry trash) DeleteTrashRenameBarrier) (\<lambda>_.
        op_return True))))"

definition restore_body :: "StoreContext \<Rightarrow> ArtifactMeta \<Rightarrow> string \<Rightarrow> bool \<Rightarrow> unit store_op" where
  "restore_body c m trash moved =
     op_bind (bare_fault (sc_faults c) DeleteRestoreBody) (\<lambda>_.
     if \<not> moved then op_return ()
     else
       op_bind (ask (\<lambda>s. path_exists (st_fs s) (Entry trash))) (\<lambda>present.
       if \<not> present then op_return ()
       else durable_rename (Entry trash) (live_loc (am_id m) (am_is_bundle m))))"

definition delete_transaction :: "StoreContext \<Rightarrow> nat \<Rightarrow> ArtifactMeta \<Rightarrow> string \<Rightarrow> store \<Rightarrow> (unit \<times> store) result" where
  "delete_transaction c n m intent s =
     try_bind (fanout_delivery c n m EvDeleted intent (delete_artifact (am_id m) s)) (\<lambda>s1.
     advance_durability_intent intent ''metadata_committed'' s1)"

definition delete_attempt :: "StoreContext \<Rightarrow> ArtifactMeta \<Rightarrow> string \<Rightarrow> bool \<Rightarrow> string \<Rightarrow> bool guarded_op" where
  "delete_attempt c m trash moved intent =
     op_bind (fault (sc_faults c) DeleteRow) (\<lambda>_.
     op_bind (ask (\<lambda>s. list_ex (\<lambda>q. am_id q = am_id m) (st_artifacts s))) (\<lambda>present.
     if \<not> present then
       op_bind (op_interrupt (restore_body c m trash moved)) (\<lambda>_.
       op_raise \<lparr> error = Conflict ''conflict'', compensate = True \<rparr>)
     else
       op_bind (draw Inr) (\<lambda>n.
       op_bind (op_interrupt (step (delete_transaction c n m intent))) (\<lambda>_.
       op_bind (op_no_compensation (bare_fault (sc_faults c) DeleteTrashRemove)) (\<lambda>_.
       op_bind (if moved then op_no_compensation (remove_node (Entry trash)) else op_return ()) (\<lambda>_.
       op_bind (op_no_compensation (bare_fault (sc_faults c) DeleteHistoryRemove)) (\<lambda>_.
       op_bind (op_no_compensation (remove_history_dir (am_id m))) (\<lambda>_.
       op_bind (op_interrupt (step (advance_durability_intent intent ''body_durable''))) (\<lambda>_.
       op_return True)))))))))"

definition delete_intent_id :: "ArtifactMeta \<Rightarrow> string" where
  "delete_intent_id m = ''delete:'' @ am_id m @ '':'' @ show_int (am_revision m)"

definition delete_reservation :: "StoreContext \<Rightarrow> ArtifactMeta \<Rightarrow> MutationAudit \<Rightarrow> string \<Rightarrow> store \<Rightarrow> (unit \<times> store) result" where
  "delete_reservation c m audit trash s =
     try_bind (start_durability_intent (delete_intent_id m) (am_id m) ''delete'' [] (am_body_sha256 m) trash s) (\<lambda>(u, s1).
     try_bind (reserve_audit c audit (delete_intent_id m) ''artifact.delete'' (am_id m) (Some (am_revision m)) s1) (\<lambda>s2.
     Inr ((), s2)))"

definition cancel_delete :: "StoreContext \<Rightarrow> ArtifactMeta \<Rightarrow> MutationAudit \<Rightarrow> unit store_op" where
  "cancel_delete c m audit =
     cancel_compensated_audit_intent c audit (delete_intent_id m) ''artifact.delete'' (am_id m) (Some (am_revision m))"

definition delete_body :: "StoreContext \<Rightarrow> ArtifactMeta \<Rightarrow> MutationAudit \<Rightarrow> string \<Rightarrow> bool store_op" where
  "delete_body c m audit trash =
     op_bind (step (delete_reservation c m audit trash)) (\<lambda>_.
     op_bind (op_catch (move_body_to_trash c m trash)
       (\<lambda>e. op_bind (ask (\<lambda>s. path_exists (st_fs s) (Entry trash) \<and>
                               \<not> path_exists (st_fs s) (live_loc (am_id m) (am_is_bundle m)))) (\<lambda>partial.
            if partial then op_raise e else op_bind (cancel_delete c m audit) (\<lambda>_. op_raise e)))) (\<lambda>moved.
     op_bind (op_catch (delete_attempt c m trash moved (delete_intent_id m))
       (\<lambda>interrupt.
          op_bind (if compensate interrupt
            then op_bind (restore_body c m trash moved) (\<lambda>_. cancel_delete c m audit) else op_return ()) (\<lambda>_.
          op_raise (error interrupt)))) (\<lambda>deleted.
     op_bind (finalize_audit_and_intent c audit (delete_intent_id m) ''artifact.delete'' (am_id m)
         (Some (am_revision m))) (\<lambda>_.
     op_return deleted))))"

definition delete_sync :: "StoreContext \<Rightarrow> string \<Rightarrow> MutationAudit \<Rightarrow> bool store_op" where
  "delete_sync c aid audit =
     op_bind (query (\<lambda>s. load_meta s aid)) (\<lambda>found.
     case found of
       None \<Rightarrow> op_return False
     | Some m \<Rightarrow>
         if SafeArtifactId_parse aid = None then op_raise ConcealedNotFound
         else
           op_bind (transient_entry c aid Trash) (\<lambda>trash.
           delete_body c m (for_affected_tenant audit (am_org m)) trash))"

section \<open>Metadata-only mutations (lifecycle/metadata.rs)\<close>

text \<open>One transaction: the row and its audit event.\<close>

definition audited_row_update ::
    "StoreContext \<Rightarrow> string \<Rightarrow> nat \<Rightarrow> string \<Rightarrow> MutationAudit \<Rightarrow> AuditEvent \<Rightarrow> (ArtifactMeta \<Rightarrow> ArtifactMeta) \<Rightarrow>
     store \<Rightarrow> (unit \<times> store) result" where
  "audited_row_update c aid n event_id audit event change s =
     try_bind (append_in_transaction (sc_mac c) (sc_sha c) (st_ledger s) event_id (ma_context audit) event
         (sc_datetime c n)) (\<lambda>(row, l).
     Inr ((), s\<lparr>st_artifacts := sql_update (\<lambda>m. am_id m = aid) change (st_artifacts s), st_ledger := l\<rparr>))"

definition reload :: "string \<Rightarrow> ArtifactMeta store_op" where
  "reload aid =
     op_bind (query (\<lambda>s. load_meta s aid)) (\<lambda>found.
     case found of None \<Rightarrow> op_raise Internal | Some m \<Rightarrow> op_return m)"

definition set_category_sync :: "StoreContext \<Rightarrow> string \<Rightarrow> string \<Rightarrow> MutationAudit \<Rightarrow> ArtifactMeta store_op" where
  "set_category_sync c aid category audit =
     op_bind (query (\<lambda>s. load_meta s aid)) (\<lambda>found.
     case found of
       None \<Rightarrow> op_raise (NotFound ''not_found'')
     | Some m \<Rightarrow>
         op_bind (bare_fault (sc_faults c) MetadataWrite) (\<lambda>_.
         op_bind (draw_event c) (\<lambda>(event_id, n).
         op_bind (step (audited_row_update c aid n event_id (for_affected_tenant audit (am_org m))
             (audit_event ''artifact.category.set'' aid (Some (am_revision m)))
             (\<lambda>q. q\<lparr>am_category := normalize_category category, am_updated_at := sc_datetime c n\<rparr>))) (\<lambda>_.
         reload aid))))"

definition visibility_event :: "string \<Rightarrow> bool \<Rightarrow> int \<Rightarrow> AuditEvent" where
  "visibility_event aid hidden revision =
     \<lparr> ae_operation = ''artifact.visibility.set'', ae_target_type = ''artifact'', ae_target_id = aid,
       ae_result = ''success'', ae_classification = (if hidden then ''hidden'' else ''shared''),
       ae_revision = Some revision \<rparr>"

definition set_hidden_sync :: "StoreContext \<Rightarrow> string \<Rightarrow> bool \<Rightarrow> MutationAudit \<Rightarrow> ArtifactMeta store_op" where
  "set_hidden_sync c aid hidden audit =
     op_bind (query (\<lambda>s. load_meta s aid)) (\<lambda>found.
     case found of
       None \<Rightarrow> op_raise (NotFound ''not_found'')
     | Some m \<Rightarrow>
         op_bind (bare_fault (sc_faults c) MetadataWrite) (\<lambda>_.
         op_bind (draw_event c) (\<lambda>(event_id, n).
         op_bind (step (audited_row_update c aid n event_id (for_affected_tenant audit (am_org m))
             (visibility_event aid hidden (am_revision m))
             (\<lambda>q. q\<lparr>am_hidden := hidden, am_updated_at := sc_datetime c n\<rparr>))) (\<lambda>_.
         reload aid))))"

definition list_revisions_sync :: "ArtifactMeta \<Rightarrow> store \<Rightarrow> RevisionHistory result" where
  "list_revisions_sync m s =
     try_bind (load_meta s (am_id m)) (\<lambda>found.
     let current = (case found of None \<Rightarrow> am_revision m | Some q \<Rightarrow> am_revision q) in
     try_bind (as_i64 current) (\<lambda>_.
     let rows = sort_key (\<lambda>r. - rv_revision r)
           (filter (\<lambda>r. rv_artifact_id r = am_id m \<and> rv_revision r < current) (st_revisions s)) in
     if list_ex (\<lambda>r. rv_bytes r < 0 \<or> rv_revision r < 0) rows then Inl Internal
     else Inr \<lparr> rh_current = current, rh_revisions = rows \<rparr>))"

section \<open>Moving to another organization (lifecycle/org_move.rs)\<close>

definition revoked_tables :: "ChildTable list" where
  "revoked_tables = [DiscordInboundMessageState, ArtifactDiscordInboundPolicies, DiscussionMessageLinks,
     DiscordNotificationAnchorRecoveries, ArtifactDiscussionOverrides, ArtifactDiscussions]"

definition revoke_cross_org_bindings :: "string \<Rightarrow> store \<Rightarrow> store" where
  "revoke_cross_org_bindings aid s =
     s\<lparr>st_children := sql_delete (\<lambda>ch. ch_artifact_id ch = aid \<and> List.member revoked_tables (ch_table ch)) (st_children s),
       st_artifacts := sql_update (\<lambda>m. am_id m = aid) (\<lambda>m. m\<lparr>am_artifact_key := None\<rparr>) (st_artifacts s)\<rparr>"

definition move_org_bearing_children :: "string \<Rightarrow> string \<Rightarrow> store \<Rightarrow> store" where
  "move_org_bearing_children org aid s =
     s\<lparr>st_children := sql_update (\<lambda>ch. ch_artifact_id ch = aid \<and> List.member [Feedback, ArtifactViews] (ch_table ch))
         (\<lambda>ch. ch\<lparr>ch_org := org\<rparr>) (st_children s),
       st_revisions := sql_update (\<lambda>r. rv_artifact_id r = aid) (\<lambda>r. r\<lparr>rv_org := org\<rparr>) (st_revisions s)\<rparr>"

definition revoke_shares :: "string \<Rightarrow> store \<Rightarrow> int \<times> store" where
  "revoke_shares aid s =
     (let p = (\<lambda>ch. ch_table ch = ArtifactShares \<and> ch_artifact_id ch = aid) in
      (count_rows p (st_children s), s\<lparr>st_children := sql_delete p (st_children s)\<rparr>))"

text \<open>
  The trigger \<open>collection_artifacts_before_artifact_org_move\<close> of migrations/037-artifact-collections.sql:
  an artifact that changes its organization leaves the collections of the old one.
\<close>

definition collections_before_org_move :: "string \<Rightarrow> string \<Rightarrow> store \<Rightarrow> store" where
  "collections_before_org_move org aid s =
     s\<lparr>st_children := sql_delete (\<lambda>ch. ch_table ch = CollectionArtifacts \<and> ch_artifact_id ch = aid \<and>
         list_ex (\<lambda>q. am_id q = aid \<and> am_org q \<noteq> org \<and> am_org q = ch_org ch) (st_artifacts s)) (st_children s)\<rparr>"

text \<open>The deferred foreign keys, checked when the transaction commits.\<close>

definition children_consistent :: "store \<Rightarrow> bool" where
  "children_consistent s \<longleftrightarrow>
     list_all (\<lambda>ch. if org_bound (ch_table ch) then artifact_with_org s (ch_artifact_id ch) (ch_org ch)
                    else list_ex (\<lambda>m. am_id m = ch_artifact_id ch) (st_artifacts s)) (st_children s) \<and>
     list_all (\<lambda>r. artifact_with_org s (rv_artifact_id r) (rv_org r)) (st_revisions s)"

definition move_event :: "string \<Rightarrow> int \<Rightarrow> int \<Rightarrow> AuditEvent" where
  "move_event aid revoked revision =
     \<lparr> ae_operation = ''artifact.org.move'', ae_target_type = ''artifact'', ae_target_id = aid,
       ae_result = ''success'', ae_classification = ''shares_revoked_'' @ show_int revoked,
       ae_revision = Some revision \<rparr>"

definition move_transaction ::
    "StoreContext \<Rightarrow> nat \<Rightarrow> string \<Rightarrow> ArtifactMeta \<Rightarrow> string \<Rightarrow> string \<Rightarrow> MutationAudit \<Rightarrow> store \<Rightarrow> (unit \<times> store) result" where
  "move_transaction c n event_id m org category audit s =
     (let s1 = (if org \<noteq> am_org m then revoke_cross_org_bindings (am_id m) s else s);
          s2 = (collections_before_org_move org (am_id m) s1)\<lparr>st_artifacts := sql_update (\<lambda>q. am_id q = am_id m)
                 (\<lambda>q. q\<lparr>am_org := org, am_category := category, am_updated_at := sc_datetime c n\<rparr>) (st_artifacts s1)\<rparr>;
          s3 = move_org_bearing_children org (am_id m) s2;
          (revoked, s4) = revoke_shares (am_id m) s3
      in try_bind (append_in_transaction (sc_mac c) (sc_sha c) (st_ledger s4) event_id (ma_context audit)
             (move_event (am_id m) revoked (am_revision m)) (sc_datetime c n)) (\<lambda>(row, l).
         if children_consistent s4 then Inr ((), s4\<lparr>st_ledger := l\<rparr>) else Inl Internal))"

definition move_to_org_sync ::
    "StoreContext \<Rightarrow> string \<Rightarrow> string \<Rightarrow> string option \<Rightarrow> MutationAudit \<Rightarrow> ArtifactMeta store_op" where
  "move_to_org_sync c aid target_org category audit =
     op_bind (query (\<lambda>s. load_meta s aid)) (\<lambda>found.
     case found of
       None \<Rightarrow> op_raise (NotFound ''not_found'')
     | Some m \<Rightarrow>
         let org = js_trim target_org in
         op_bind (ask (\<lambda>s. org_exists s org)) (\<lambda>known.
         if \<not> known then op_raise (Validation (''Unknown organization '' @ [CHR 0x22] @ org @ [CHR 0x22] @ ''.''))
         else
           op_bind (bare_fault (sc_faults c) MoveTransaction) (\<lambda>_.
           op_bind (draw_event c) (\<lambda>(event_id, n).
           op_bind (step (move_transaction c n event_id m org
               (case category of None \<Rightarrow> am_category m | Some v \<Rightarrow> normalize_category v)
               (for_affected_tenant audit (am_org m)))) (\<lambda>_.
           reload aid)))))"

end
