(* ===== verification/Reconciliation.thy ===== *)
theory Reconciliation
  imports Artifact_Lifecycle
begin

text \<open>
  Start-up reconciliation: src/src/artifacts/reconciliation/ (support.rs, intents.rs, audit.rs,
  backfill.rs). It looks at every durability intent and every transient body that an interrupted
  operation left, installs the body the committed metadata names, or proves that the old one is
  intact, and only then closes the intent together with its audit receipt and blocked deliveries.
\<close>

section \<open>Rows and directory entries (reconciliation/support.rs)\<close>

record BodyRow =
  br_id :: string
  br_safe_id :: "string option"
  br_is_bundle :: bool
  br_body_sha256 :: string
  br_revision :: int
  br_outgoing_is_bundle :: "bool option"

definition br_body_path :: "BodyRow \<Rightarrow> loc option" where
  "br_body_path row = map_option (\<lambda>aid. live_loc aid (br_is_bundle row)) (br_safe_id row)"

definition expected_name :: "BodyRow \<Rightarrow> string" where
  "expected_name row = (if br_is_bundle row then br_id row else br_id row @ ''.html'')"

text \<open>\<open>i64::unsigned_abs\<close> is the absolute value.\<close>

definition body_row_from :: "store \<Rightarrow> ArtifactMeta \<Rightarrow> BodyRow" where
  "body_row_from s m =
     \<lparr> br_id = am_id m, br_safe_id = SafeArtifactId_parse (am_id m), br_is_bundle = am_is_bundle m,
       br_body_sha256 = am_body_sha256 m, br_revision = abs (am_revision m),
       br_outgoing_is_bundle = map_option rv_is_bundle
         (List.find (\<lambda>r. rv_artifact_id r = am_id m \<and> rv_revision r = am_revision m - 1) (st_revisions s)) \<rparr>"

definition load_body_rows :: "store \<Rightarrow> BodyRow list" where
  "load_body_rows s = map (body_row_from s) (st_artifacts s)"

definition staging_marker :: string where "staging_marker = ''.'' @ TransientKind_as_str Staging @ ''-''"
definition trash_marker :: string where "trash_marker = ''.'' @ TransientKind_as_str Trash @ ''-''"

definition transient_rank :: "string \<Rightarrow> nat" where
  "transient_rank name =
     (if contains_str name staging_marker then 0 else if contains_str name trash_marker then 1 else 2)"

text \<open>Entries by rank, then by name; \<open>.history\<close> is not among the entries of the model.\<close>

definition entry_names :: "filesystem \<Rightarrow> string list" where
  "entry_names fs = concat (map (\<lambda>l. case l of Entry name \<Rightarrow> [name] | Past _ _ \<Rightarrow> []) (map fst (fs_nodes fs)))"

definition ranked_entries :: "filesystem \<Rightarrow> string list" where
  "ranked_entries fs = sort_key transient_rank (sort (entry_names fs))"

section \<open>Intents (reconciliation/intents.rs)\<close>

definition transient_path_for_intent :: "string \<Rightarrow> string \<Rightarrow> loc option" where
  "transient_path_for_intent aid name =
     (if length (components name) = 1 \<and> is_transient_name name \<and> transient_name_artifact_id name = Some aid
      then Some (Entry name) else None)"

text \<open>Closing an intent: the receipt, the blocked deliveries and the intent row in one transaction.\<close>

definition complete_reconciled_intent :: "StoreContext \<Rightarrow> string \<Rightarrow> string \<Rightarrow> string \<Rightarrow> unit store_op" where
  "complete_reconciled_intent c intent outcome classification =
     op_bind (draw_event c) (\<lambda>(event_id, n).
     step (\<lambda>s.
       try_bind (finalize_reconciled_receipt_in_transaction (sc_mac c) (sc_sha c) (st_ledger s) intent event_id
           outcome classification (sc_datetime c n)) (\<lambda>(found, l).
       try_bind (if outcome = ''failure'' then compensate_durability intent (s\<lparr>st_ledger := l\<rparr>)
                 else finalize_durability_success intent (sc_now c n) (s\<lparr>st_ledger := l\<rparr>)) (\<lambda>s'.
       Inr ((), s')))))"

definition close_recovered :: "StoreContext \<Rightarrow> string \<Rightarrow> unit store_op" where
  "close_recovered c intent = complete_reconciled_intent c intent ''recovered'' ''reconciliation''"

definition close_compensated :: "StoreContext \<Rightarrow> string \<Rightarrow> unit store_op" where
  "close_compensated c intent = complete_reconciled_intent c intent ''failure'' ''compensated''"

datatype MetadataOnlyIntent = NotApplicable | Committed | Reverted | Ambiguous

text \<open>A decimal number without leading zeros, at most 2^53 - 1.\<close>

definition intent_target_revision :: "string \<Rightarrow> string \<Rightarrow> int option" where
  "intent_target_revision intent aid =
     Option.bind (strip_prefix intent ''update:'') (\<lambda>r1.
     Option.bind (strip_prefix r1 aid) (\<lambda>r2.
     Option.bind (strip_prefix r2 '':'') (\<lambda>raw.
     if starts_with raw ''0'' \<or> \<not> list_all is_ascii_digit raw \<or> raw = [] then None
     else let revision = int (read_nat_acc 0 raw)
          in if revision \<le> 9007199254740991 then Some revision else None)))"

definition classify_metadata_only_intent :: "DurabilityIntent \<Rightarrow> BodyRow \<Rightarrow> MetadataOnlyIntent" where
  "classify_metadata_only_intent i row =
     (if di_operation i \<noteq> ''update'' \<or> di_expected_sha256 i \<noteq> di_prior_sha256 i then NotApplicable
      else if br_body_sha256 row \<noteq> di_prior_sha256 i then Ambiguous
      else case intent_target_revision (di_id i) (br_id row) of
             None \<Rightarrow> Ambiguous
           | Some target \<Rightarrow>
               if target = br_revision row then Committed
               else if br_revision row + 1 = target then Reverted else Ambiguous)"

definition ensure_metadata_only_history :: "StoreContext \<Rightarrow> BodyRow \<Rightarrow> loc \<Rightarrow> string \<Rightarrow> bool store_op" where
  "ensure_metadata_only_history c row final digest =
     (if br_revision row < 2 then op_return False
      else case (br_safe_id row, br_outgoing_is_bundle row) of
        (Some aid, Some outgoing) \<Rightarrow>
          (let destination = history_loc aid (br_revision row - 1) outgoing;
               temporary = metadata_recovery_temp_loc aid (br_revision row - 1);
               matches = (\<lambda>s. body_digest_at_path c (st_fs s) destination outgoing = Some digest) in
           op_bind (ensure_removed (history_snapshot_temp_loc aid (br_revision row - 1))) (\<lambda>_.
           op_bind (ask (\<lambda>s. path_exists (st_fs s) destination)) (\<lambda>present.
           if present then ask matches
           else
             op_bind (on_fs (\<lambda>fs. Inr (fs_create_history aid fs))) (\<lambda>_.
             op_bind (remove_node temporary) (\<lambda>_.
             op_bind (copy_recursive final temporary) (\<lambda>_.
             op_bind (durable_rename temporary destination) (\<lambda>_.
             ask matches)))))))
      | _ \<Rightarrow> op_return False)"

definition cleanup_reverted_metadata_snapshot_temp :: "BodyRow \<Rightarrow> bool store_op" where
  "cleanup_reverted_metadata_snapshot_temp row =
     (case br_safe_id row of
        None \<Rightarrow> op_return False
      | Some aid \<Rightarrow>
          op_bind (ensure_removed (history_snapshot_temp_loc aid (br_revision row))) (\<lambda>_.
          ask (\<lambda>s. \<not> path_exists (st_fs s) (history_snapshot_temp_loc aid (br_revision row)))))"

definition recover_prepared_delete_intent ::
    "StoreContext \<Rightarrow> DurabilityIntent \<Rightarrow> BodyRow option \<Rightarrow> unit store_op" where
  "recover_prepared_delete_intent c i row =
     (case row of
        None \<Rightarrow>
          (case SafeArtifactId_parse (di_artifact_id i) of
             None \<Rightarrow> op_return ()
           | Some aid \<Rightarrow>
               op_bind (case transient_path_for_intent (di_artifact_id i) (di_staging_path i) of
                          None \<Rightarrow> op_return () | Some trash \<Rightarrow> remove_node trash) (\<lambda>_.
               op_bind (remove_history_dir aid) (\<lambda>_.
               close_recovered c (di_id i))))
      | Some r \<Rightarrow>
          (case br_body_path r of
             None \<Rightarrow> op_return ()
           | Some final \<Rightarrow>
               op_bind (ask (\<lambda>s. body_digest_at_path c (st_fs s) final (br_is_bundle r) = Some (di_prior_sha256 i))) (\<lambda>intact.
               if intact then close_compensated c (di_id i) else op_return ())))"

definition recover_prepared_current_body_intent ::
    "StoreContext \<Rightarrow> DurabilityIntent \<Rightarrow> BodyRow \<Rightarrow> loc \<Rightarrow> unit store_op" where
  "recover_prepared_current_body_intent c i row final =
     op_bind (ask (\<lambda>s. body_digest_at_path c (st_fs s) final (br_is_bundle row))) (\<lambda>digest.
     if digest = Some (di_expected_sha256 i) then
       (case classify_metadata_only_intent i row of
          Ambiguous \<Rightarrow> op_return ()
        | NotApplicable \<Rightarrow> close_recovered c (di_id i)
        | Committed \<Rightarrow>
            op_bind (ensure_metadata_only_history c row final (di_expected_sha256 i)) (\<lambda>ok.
            if ok then close_recovered c (di_id i) else op_return ())
        | Reverted \<Rightarrow>
            op_bind (cleanup_reverted_metadata_snapshot_temp row) (\<lambda>ok.
            if ok then close_compensated c (di_id i) else op_return ()))
     else if br_body_sha256 row = di_prior_sha256 i \<and> digest = Some (di_prior_sha256 i) then
       op_bind (case transient_path_for_intent (di_artifact_id i) (di_staging_path i) of
                  None \<Rightarrow> op_return ()
                | Some staged \<Rightarrow>
                    op_bind (ask (\<lambda>s. body_digest_at_path c (st_fs s) staged (br_is_bundle row) = Some (di_expected_sha256 i))) (\<lambda>m.
                    if m then safe_remove staged else op_return ())) (\<lambda>_.
       close_compensated c (di_id i))
     else op_return ())"

definition row_of :: "BodyRow list \<Rightarrow> string \<Rightarrow> BodyRow option" where
  "row_of rows aid = List.find (\<lambda>row. br_id row = aid) rows"

definition recover_prepared_intent :: "StoreContext \<Rightarrow> BodyRow list \<Rightarrow> DurabilityIntent \<Rightarrow> unit store_op" where
  "recover_prepared_intent c rows i =
     (let row = row_of rows (di_artifact_id i) in
      if di_operation i = ''delete'' then recover_prepared_delete_intent c i row
      else case row of
             None \<Rightarrow> if di_operation i = ''publish'' then close_compensated c (di_id i) else op_return ()
           | Some r \<Rightarrow>
               (case br_body_path r of
                  None \<Rightarrow> op_return ()
                | Some final \<Rightarrow> recover_prepared_current_body_intent c i r final))"

definition recover_prepared_intents :: "StoreContext \<Rightarrow> BodyRow list \<Rightarrow> unit store_op" where
  "recover_prepared_intents c rows =
     op_bind (ask st_intents) (\<lambda>intents. op_each (recover_prepared_intent c rows) intents)"

definition intent_transient_exists :: "store \<Rightarrow> string \<Rightarrow> bool" where
  "intent_transient_exists s intent =
     (case List.find (\<lambda>i. di_id i = intent) (st_intents s) of
        None \<Rightarrow> False
      | Some i \<Rightarrow>
          (case transient_path_for_intent (di_artifact_id i) (di_staging_path i) of
             None \<Rightarrow> False | Some l \<Rightarrow> path_exists (st_fs s) l))"

text \<open>\<open>path_exists(history_dir)\<close>.\<close>

definition history_dir_exists :: "filesystem \<Rightarrow> string \<Rightarrow> bool" where
  "history_dir_exists fs aid \<longleftrightarrow> List.member (fs_history fs) aid"

definition delete_complete :: "StoreContext \<Rightarrow> DurabilityIntent \<Rightarrow> BodyRow option \<Rightarrow> store \<Rightarrow> bool" where
  "delete_complete c i row s =
     (case row of
        None \<Rightarrow>
          \<not> intent_transient_exists s (di_id i) \<and>
          (case SafeArtifactId_parse (di_artifact_id i) of
             None \<Rightarrow> False | Some aid \<Rightarrow> \<not> history_dir_exists (st_fs s) aid)
      | Some r \<Rightarrow>
          (case br_body_path r of
             None \<Rightarrow> False
           | Some final \<Rightarrow> body_digest_at_path c (st_fs s) final (br_is_bundle r) = Some (di_prior_sha256 i)) \<and>
          \<not> (case transient_path_for_intent (di_artifact_id i) (di_staging_path i) of
               None \<Rightarrow> False | Some l \<Rightarrow> path_exists (st_fs s) l))"

definition body_complete :: "StoreContext \<Rightarrow> DurabilityIntent \<Rightarrow> BodyRow \<Rightarrow> bool store_op" where
  "body_complete c i row =
     (case br_body_path row of
        None \<Rightarrow> op_return False
      | Some final \<Rightarrow>
          op_bind (ask (\<lambda>s. body_digest_at_path c (st_fs s) final (br_is_bundle row) = Some (di_expected_sha256 i))) (\<lambda>installed.
          if \<not> installed then op_return False
          else case classify_metadata_only_intent i row of
                 Committed \<Rightarrow> ensure_metadata_only_history c row final (di_expected_sha256 i)
               | Reverted \<Rightarrow> cleanup_reverted_metadata_snapshot_temp row
               | Ambiguous \<Rightarrow> op_return False
               | NotApplicable \<Rightarrow> op_return True))"

definition resolution_outcome :: "DurabilityIntent \<Rightarrow> BodyRow option \<Rightarrow> string" where
  "resolution_outcome i row =
     (case row of
        None \<Rightarrow> ''recovered''
      | Some r \<Rightarrow>
          if di_operation i = ''delete'' then ''failure''
          else if classify_metadata_only_intent i r = Reverted then ''failure''
          else if br_body_sha256 r = di_prior_sha256 i \<and> di_expected_sha256 i \<noteq> di_prior_sha256 i then ''failure''
          else ''recovered'')"

definition resolve_durability_intent :: "StoreContext \<Rightarrow> BodyRow list \<Rightarrow> DurabilityIntent \<Rightarrow> unit store_op" where
  "resolve_durability_intent c rows i =
     (let row = row_of rows (di_artifact_id i) in
      op_bind (if di_operation i = ''delete'' then ask (delete_complete c i row)
               else case row of
                      None \<Rightarrow> op_return (di_operation i = ''publish'')
                    | Some r \<Rightarrow> body_complete c i r) (\<lambda>complete.
      if complete then
        (if resolution_outcome i row = ''failure'' then close_compensated c (di_id i) else close_recovered c (di_id i))
      else op_return ()))"

definition resolve_durability_intents :: "StoreContext \<Rightarrow> BodyRow list \<Rightarrow> unit store_op" where
  "resolve_durability_intents c rows =
     op_bind (ask st_intents) (\<lambda>intents. op_each (resolve_durability_intent c rows) intents)"

section \<open>The storage audit (reconciliation/audit.rs)\<close>

record StorageAuditReport =
  sr_missing_bodies :: "string list"
  sr_divergent_bodies :: "string list"
  sr_orphan_bodies :: "string list"
  sr_orphan_history :: "string list"
  sr_transient_paths :: "string list"
  sr_recovered_paths :: "string list"

definition transient_is_recovery_evidence :: "string \<Rightarrow> store \<Rightarrow> bool" where
  "transient_is_recovery_evidence name s =
     (case transient_name_artifact_id name of
        None \<Rightarrow> False
      | Some owner \<Rightarrow>
          (case List.find (\<lambda>i. di_artifact_id i = owner) (st_intents s) of
             None \<Rightarrow> False
           | Some i \<Rightarrow> transient_path_for_intent owner (di_staging_path i) = Some (Entry name)))"

definition preserve_outgoing_body :: "BodyRow \<Rightarrow> unit store_op" where
  "preserve_outgoing_body row =
     (case (br_safe_id row, br_outgoing_is_bundle row) of
        (Some aid, Some outgoing) \<Rightarrow>
          (let source = live_loc aid outgoing;
               destination = history_loc aid (u64_saturating_sub (br_revision row) 1) outgoing in
           op_bind (on_fs (\<lambda>fs. Inr (fs_create_history aid fs))) (\<lambda>_.
           op_bind (ask (\<lambda>s. path_exists (st_fs s) destination)) (\<lambda>present.
           if present then op_return () else durable_rename source destination)))
      | _ \<Rightarrow> op_return ())"

text \<open>One transient entry; the result says whether it was installed.\<close>

definition reconcile_transient :: "StoreContext \<Rightarrow> BodyRow list \<Rightarrow> string \<Rightarrow> bool store_op" where
  "reconcile_transient c rows name =
     (let transient = Entry name;
          owner = Option.bind (transient_name_artifact_id name) (row_of rows);
          recover = bare_fault (sc_faults c) ReconcileRecover;
          discard = op_bind (bare_fault (sc_faults c) ReconcileDiscard) (\<lambda>_.
            op_bind (safe_remove transient) (\<lambda>_. op_return False)) in
      case owner of
        None \<Rightarrow>
          op_bind (ask (transient_is_recovery_evidence name)) (\<lambda>evidence.
          if evidence then op_return False else discard)
      | Some row \<Rightarrow>
          (case br_body_path row of
             None \<Rightarrow>
               op_bind (ask (transient_is_recovery_evidence name)) (\<lambda>evidence.
               if evidence then op_return False else discard)
           | Some final \<Rightarrow>
               op_bind (ask (\<lambda>s. br_body_sha256 row \<noteq> [] \<and>
                   body_digest_at_path c (st_fs s) transient (br_is_bundle row) = Some (br_body_sha256 row))) (\<lambda>transient_matches.
               op_bind (ask (\<lambda>s. path_exists (st_fs s) final)) (\<lambda>present.
               op_bind (ask (\<lambda>s. br_body_sha256 row = [] \<or>
                   body_digest_at_path c (st_fs s) final (br_is_bundle row) = Some (br_body_sha256 row))) (\<lambda>installed_matches.
               if \<not> present then
                 (if \<not> transient_matches then op_return False
                  else op_bind recover (\<lambda>_. op_bind (durable_rename transient final) (\<lambda>_. op_return True)))
               else if contains_str name staging_marker \<and> \<not> installed_matches then
                 (if \<not> transient_matches then op_return False
                  else
                    op_bind recover (\<lambda>_.
                    if br_outgoing_is_bundle row = None then op_return False
                    else
                      op_bind (preserve_outgoing_body row) (\<lambda>_.
                      op_bind (durable_rename transient final) (\<lambda>_. op_return True))))
               else discard)))))"

text \<open>The sweep over the directory entries: transient paths, recovered paths, orphan bodies.\<close>

fun sweep_entries ::
    "StoreContext \<Rightarrow> bool \<Rightarrow> BodyRow list \<Rightarrow> string list \<Rightarrow> (string list \<times> string list \<times> string list) store_op" where
  "sweep_entries c clean rows [] = op_return ([], [], [])"
| "sweep_entries c clean rows (name # names) =
     op_bind (if is_transient_name name \<and> clean then reconcile_transient c rows name else op_return False) (\<lambda>installed.
     op_bind (sweep_entries c clean rows names) (\<lambda>(transient, recovered, orphans).
     op_return
       (if is_transient_name name
        then (name # transient, if installed then name # recovered else recovered, orphans)
        else (transient, recovered,
              if List.member (map expected_name rows) name then orphans else name # orphans))))"

fun reclaim_dirs :: "StoreContext \<Rightarrow> string list \<Rightarrow> string list \<Rightarrow> string list store_op" where
  "reclaim_dirs c live [] = op_return []"
| "reclaim_dirs c live (name # names) =
     (if List.member live name then reclaim_dirs c live names
      else
        op_bind (bare_fault (sc_faults c) ReconcileOrphanHistory) (\<lambda>_.
        op_bind (op_ignore (remove_history_dir name)) (\<lambda>_.
        op_bind (reclaim_dirs c live names) (\<lambda>rest. op_return (name # rest)))))"

definition reclaim_orphan_history :: "StoreContext \<Rightarrow> BodyRow list \<Rightarrow> string list store_op" where
  "reclaim_orphan_history c rows =
     op_bind (ask (\<lambda>s. sort (fs_history (st_fs s)))) (\<lambda>names. reclaim_dirs c (map br_id rows) names)"

definition row_divergent :: "StoreContext \<Rightarrow> store \<Rightarrow> BodyRow \<Rightarrow> bool" where
  "row_divergent c s row =
     (case br_body_path row of
        None \<Rightarrow> False
      | Some final \<Rightarrow>
          path_exists (st_fs s) final \<and> br_body_sha256 row \<noteq> [] \<and>
          body_digest_at_path c (st_fs s) final (br_is_bundle row) \<noteq> Some (br_body_sha256 row))"

definition row_missing :: "store \<Rightarrow> BodyRow \<Rightarrow> bool" where
  "row_missing s row =
     (case br_body_path row of None \<Rightarrow> True | Some final \<Rightarrow> \<not> path_exists (st_fs s) final)"

definition admit_reconciliation :: "StoreContext \<Rightarrow> unit store_op" where
  "admit_reconciliation c =
     op_bind (step (\<lambda>s. try_bind (initialize_head (sc_mac c) (sc_sha c) (st_ledger s)) (\<lambda>l. Inr ((), s\<lparr>st_ledger := l\<rparr>)))) (\<lambda>_.
     query (\<lambda>s. verify_pending_receipts (sc_mac c) (sc_sha c) (st_ledger s)))"

definition audit_storage :: "StoreContext \<Rightarrow> bool \<Rightarrow> StorageAuditReport store_op" where
  "audit_storage c clean =
     op_bind (if clean then admit_reconciliation c else op_return ()) (\<lambda>_.
     op_bind (ask load_body_rows) (\<lambda>rows0.
     op_bind (if clean then recover_prepared_intents c rows0 else op_return ()) (\<lambda>_.
     op_bind (ask load_body_rows) (\<lambda>rows.
     op_bind (ask (\<lambda>s. ranked_entries (st_fs s))) (\<lambda>names.
     op_bind (sweep_entries c clean rows names) (\<lambda>(transient, recovered, orphans).
     op_bind (if clean then reclaim_orphan_history c rows else op_return []) (\<lambda>orphan_history.
     op_bind (ask (\<lambda>s. filter (row_divergent c s) rows)) (\<lambda>divergent.
     op_bind (ask (\<lambda>s. filter (row_missing s) rows)) (\<lambda>missing.
     op_bind (if clean then op_bind (ask load_body_rows) (resolve_durability_intents c) else op_return ()) (\<lambda>_.
     op_return \<lparr> sr_missing_bodies = map br_id missing, sr_divergent_bodies = map br_id divergent,
       sr_orphan_bodies = orphans, sr_orphan_history = orphan_history, sr_transient_paths = transient,
       sr_recovered_paths = recovered \<rparr>))))))))))"

section \<open>Digest backfill (reconciliation/backfill.rs)\<close>

record DigestBackfillReport =
  bf_scanned :: nat
  bf_updated :: nat

fun backfill_rows :: "StoreContext \<Rightarrow> ArtifactMeta list \<Rightarrow> nat store_op" where
  "backfill_rows c [] = op_return 0"
| "backfill_rows c (m # ms) =
     op_bind (ask (\<lambda>s. Option.bind (SafeArtifactId_parse (am_id m)) (\<lambda>aid.
         body_digest_at_path c (st_fs s) (live_loc aid (am_is_bundle m)) (am_is_bundle m)))) (\<lambda>digest.
     case digest of
       None \<Rightarrow> backfill_rows c ms
     | Some d \<Rightarrow>
         op_bind (bare_fault (sc_faults c) BackfillWrite) (\<lambda>_.
         op_bind (step (\<lambda>s. Inr ((), s\<lparr>st_artifacts :=
             sql_update (\<lambda>q. am_id q = am_id m \<and> am_body_sha256 q = []) (\<lambda>q. q\<lparr>am_body_sha256 := d\<rparr>) (st_artifacts s)\<rparr>))) (\<lambda>_.
         op_bind (backfill_rows c ms) (\<lambda>n. op_return (Suc n)))))"

definition backfill_body_digests :: "StoreContext \<Rightarrow> DigestBackfillReport store_op" where
  "backfill_body_digests c =
     op_bind (ask (\<lambda>s. filter (\<lambda>m. am_body_sha256 m = []) (st_artifacts s))) (\<lambda>rows.
     op_bind (backfill_rows c rows) (\<lambda>n.
     op_return \<lparr> bf_scanned = length rows, bf_updated = n \<rparr>))"

end
