(* ===== verification/Crash_Views.thy ===== *)
theory Crash_Views
  imports Reconciliation
begin

text \<open>
  What a request may touch. The rows, revisions, intents and bodies of one artifact are its view;
  \<open>same_view\<close> says that a step left them alone, \<open>untouched\<close> that it left every other artifact alone,
  \<open>confined\<close> that an operation only changes the bodies of a set of locations.
\<close>

section \<open>Reads and tagged errors\<close>

lemma triple_ask: "triple C P (ask f) (\<lambda>x s. P s \<and> x = f s) E"
  unfolding ask_def by (rule triple_query) auto

lemma triple_bind_ask:
  assumes "\<And>x. triple C (\<lambda>s. P s \<and> x = f s) (g x) Q E"
  shows "triple C P (op_bind (ask f) g) Q E"
  by (rule triple_bind [OF triple_ask assms])

lemma triple_tag:
  "triple C P m Q (\<lambda>e. E (e, t)) \<Longrightarrow> triple C P (op_tag t m) Q E"
  unfolding op_tag_def by (rule triple_catch, assumption) (rule triple_raise)

section \<open>What belongs to an artifact\<close>

definition rows_of :: "store \<Rightarrow> string \<Rightarrow> ArtifactMeta list" where
  "rows_of s a = filter (\<lambda>m. am_id m = a) (st_artifacts s)"

definition revs_of :: "store \<Rightarrow> string \<Rightarrow> ArtifactRevision list" where
  "revs_of s a = filter (\<lambda>r. rv_artifact_id r = a) (st_revisions s)"

definition intents_of :: "store \<Rightarrow> string \<Rightarrow> DurabilityIntent list" where
  "intents_of s a = filter (\<lambda>i. di_artifact_id i = a) (st_intents s)"

definition transient_of :: "string \<Rightarrow> string \<Rightarrow> bool" where
  "transient_of a name \<longleftrightarrow> is_transient_name name \<and> transient_name_artifact_id name = Some a"

fun owned :: "string \<Rightarrow> loc \<Rightarrow> bool" where
  "owned a (Entry name) \<longleftrightarrow> name = a \<or> name = a @ ''.html'' \<or> transient_of a name"
| "owned a (Past b name) \<longleftrightarrow> b = a"

definition same_view :: "string \<Rightarrow> store \<Rightarrow> store \<Rightarrow> bool" where
  "same_view a s s' \<longleftrightarrow> rows_of s' a = rows_of s a \<and> revs_of s' a = revs_of s a \<and>
     intents_of s' a = intents_of s a \<and> (\<forall>l. owned a l \<longrightarrow> node (st_fs s') l = node (st_fs s) l)"

definition untouched :: "string \<Rightarrow> store \<Rightarrow> store \<Rightarrow> bool" where
  "untouched a s s' \<longleftrightarrow> (\<forall>b. is_valid_artifact_id b \<and> b \<noteq> a \<longrightarrow> same_view b s s')"

lemma valid_no_dot: "is_valid_artifact_id a \<Longrightarrow> CHR ''.'' \<notin> set a"
  using valid_id_no_dot by blast

lemma transient_name_parts:
  "is_valid_artifact_id aid \<Longrightarrow> is_transient_name (transient_name aid kind token) \<and>
     transient_name_artifact_id (transient_name aid kind token) = Some aid"
  by (rule transient_name_roundtrip)

lemma transient_of_dot: "transient_of a name \<Longrightarrow> \<exists>x. name = CHR ''.'' # x"
  by (auto simp: transient_of_def is_transient_name_def starts_with_iff)

lemma not_transient_of:
  assumes "is_valid_artifact_id a"
  shows "\<not> transient_of b a" and "\<not> transient_of b (a @ ''.html'')"
proof -
  have "a \<noteq> []" using assms by (auto simp: is_valid_artifact_id_def)
  then obtain x y where a: "a = x # y" by (cases a) auto
  with valid_no_dot [OF assms] have "x \<noteq> CHR ''.''" by auto
  then show "\<not> transient_of b a" and "\<not> transient_of b (a @ ''.html'')"
    unfolding a by (auto dest!: transient_of_dot)
qed

lemma owned_unique:
  assumes "owned a l" and "owned b l" and "is_valid_artifact_id a" and "is_valid_artifact_id b"
  shows "a = b"
proof (cases l)
  case (Past x y)
  then show ?thesis using assms by simp
next
  case (Entry name)
  note t = not_transient_of [OF assms(3), of b] not_transient_of [OF assms(4), of a]
  show ?thesis
  proof (cases "transient_of a name")
    case True
    then show ?thesis using assms(2) Entry t by (auto simp: transient_of_def)
  next
    case False
    then show ?thesis
      using assms(1,2) Entry t valid_no_dot [OF assms(3)] valid_no_dot [OF assms(4)] by auto
  qed
qed

lemma owned_simps [simp]:
  "owned a (live_loc a b)" "owned a (history_loc a n b)" "owned a (history_snapshot_temp_loc a n)"
  "owned a (metadata_recovery_temp_loc a n)" "transient_of a name \<Longrightarrow> owned a (Entry name)"
  by (auto simp: live_loc_def history_loc_def history_snapshot_temp_loc_def metadata_recovery_temp_loc_def)

lemma node_put [simp]: "node (put_node fs l b) k = (if k = l then Some b else node fs k)"
  by (simp add: node_def put_node_def update_conv')

lemma node_drop [simp]: "node (drop_node fs l) k = (if k = l then None else node fs k)"
  by (simp add: node_def drop_node_def delete_conv')

lemma same_view_refl [simp]: "same_view a s s"
  by (simp add: same_view_def)

lemma same_view_trans: "same_view a s s' \<Longrightarrow> same_view a s' s'' \<Longrightarrow> same_view a s s''"
  by (simp add: same_view_def)

lemma untouched_refl [simp]: "untouched a s s"
  by (simp add: untouched_def)

lemma untouched_trans: "untouched a s s' \<Longrightarrow> untouched a s' s'' \<Longrightarrow> untouched a s s''"
  unfolding untouched_def using same_view_trans by blast

section \<open>Operations that only write some locations\<close>

definition canonical_key :: "string \<Rightarrow> bool" where
  "canonical_key k \<longleftrightarrow> sanitize_relative_path k = Some k"

definition tree_ok :: "(string \<times> bytes) list \<Rightarrow> bool" where
  "tree_ok files \<longleftrightarrow> distinct (map fst files) \<and> (\<forall>k \<in> fst ` set files. canonical_key k)"

definition trees_ok :: "filesystem \<Rightarrow> bool" where
  "trees_ok fs \<longleftrightarrow> (\<forall>l files. node fs l = Some (Tree files) \<longrightarrow> tree_ok files)"

definition fs_within :: "loc set \<Rightarrow> store \<Rightarrow> store \<Rightarrow> bool" where
  "fs_within L s s' \<longleftrightarrow> (\<exists>fs. s' = s\<lparr>st_fs := fs\<rparr> \<and> trees_ok fs \<and> (\<forall>l. l \<notin> L \<longrightarrow> node fs l = node (st_fs s) l))"

definition confined :: "loc set \<Rightarrow> (store, 'e, 'a) op \<Rightarrow> bool" where
  "confined L m \<longleftrightarrow> (\<forall>s0. triple (fs_within L s0) (fs_within L s0) m (\<lambda>_. fs_within L s0) (\<lambda>_. fs_within L s0))"

lemma fs_within_refl: "trees_ok (st_fs s) \<Longrightarrow> fs_within L s s"
  unfolding fs_within_def by (rule exI [of _ "st_fs s"]) simp

lemma fs_within_trans: "fs_within L s s' \<Longrightarrow> fs_within L s' s'' \<Longrightarrow> fs_within L s s''"
  unfolding fs_within_def by force

lemma fs_within_mono: "fs_within L s s' \<Longrightarrow> L \<subseteq> M \<Longrightarrow> fs_within M s s'"
  unfolding fs_within_def by blast

named_theorems confined_intro \<open>operations that write only given locations\<close>


lemma confinedI:
  "(\<And>s0. triple (fs_within L s0) (fs_within L s0) m (\<lambda>_. fs_within L s0) (\<lambda>_. fs_within L s0)) \<Longrightarrow> confined L m"
  by (simp add: confined_def)

lemma confinedD:
  "confined L m \<Longrightarrow> triple (fs_within L s0) (fs_within L s0) m (\<lambda>_. fs_within L s0) (\<lambda>_. fs_within L s0)"
  by (simp add: confined_def)

lemma confined_run:
  assumes "confined L m" and "trees_ok (st_fs (w_store w))" and "m w = (r, w')"
  obtains t where "w_trace w' = t @ w_trace w" "\<forall>s \<in> set t. fs_within L (w_store w) s"
    "fs_within L (w_store w) (w_store w')"
proof -
  obtain t where "w_trace w' = t @ w_trace w" "\<forall>s \<in> set t. fs_within L (w_store w) s"
    "case r of Inl e \<Rightarrow> fs_within L (w_store w) (w_store w') | Inr x \<Rightarrow> fs_within L (w_store w) (w_store w')"
    by (rule tripleD [OF confinedD [OF assms(1)] fs_within_refl [OF assms(2)] assms(3)])
  then show thesis using that by (cases r) auto
qed

text \<open>What a store predicate needs to survive a confined operation.\<close>

lemma triple_confined:
  assumes "confined L m" and "\<And>s s'. P s \<Longrightarrow> fs_within L s s' \<Longrightarrow> P s'"
    and "\<And>s. P s \<Longrightarrow> C s" and "\<And>s. P s \<Longrightarrow> trees_ok (st_fs s)"
  shows "triple C P m (\<lambda>_. P) (\<lambda>_. P)"
proof (rule tripleI)
  fix w r w' assume p: "P (w_store w)" and m: "m w = (r, w')"
  obtain t where t: "w_trace w' = t @ w_trace w" "\<forall>s \<in> set t. fs_within L (w_store w) s"
    "fs_within L (w_store w) (w_store w')" by (rule confined_run [OF assms(1) assms(4) [OF p] m])
  have "P (w_store w')" and "\<forall>s \<in> set t. C s" using t assms(2) [OF p] assms(3) by blast+
  then show "(\<exists>t. w_trace w' = t @ w_trace w \<and> (\<forall>s \<in> set t. C s)) \<and>
      (case r of Inl e \<Rightarrow> P (w_store w') | Inr x \<Rightarrow> P (w_store w'))"
    using t(1) by (auto split: sum.splits)
qed

lemma confined_mono:
  assumes "confined L m" and "L \<subseteq> M"
  shows "confined M m"
proof (rule confinedI, rule triple_confined [OF assms(1)])
  fix s0 s s' assume "fs_within M s0 s" "fs_within L s s'"
  then show "fs_within M s0 s'" using fs_within_trans fs_within_mono [OF _ assms(2)] by blast
qed (auto simp: fs_within_def)

lemma confined_return [confined_intro]: "confined L (op_return x)"
  by (rule confinedI) (rule triple_return)

lemma confined_raise [confined_intro]: "confined L (op_raise e)"
  by (rule confinedI) (rule triple_raise)

lemma confined_bind [confined_intro]: "confined L m \<Longrightarrow> (\<And>x. confined L (f x)) \<Longrightarrow> confined L (op_bind m f)"
  by (rule confinedI) (rule triple_bind [OF confinedD confinedD])

lemma confined_catch [confined_intro]: "confined L m \<Longrightarrow> (\<And>e. confined L (h e)) \<Longrightarrow> confined L (op_catch m h)"
  by (rule confinedI) (rule triple_catch [OF confinedD confinedD])

lemma confined_ignore [confined_intro]: "confined L m \<Longrightarrow> confined L (op_ignore m)"
  by (rule confinedI) (rule triple_ignore [OF confinedD])

lemma confined_ask [confined_intro]: "confined L (ask f)"
  by (rule confinedI) (rule triple_post [OF triple_ask]; simp)

lemma confined_fault [confined_intro]: "confined L (fault f p)"
  by (rule confinedI) (rule triple_fault)

lemma confined_bare_fault [confined_intro]: "confined L (bare_fault f p)"
  by (rule confinedI) (rule triple_bare_fault)

lemma confined_interrupt [confined_intro]: "confined L m \<Longrightarrow> confined L (op_interrupt m)"
  unfolding op_interrupt_def by (intro confined_intro)

lemma confined_no_compensation [confined_intro]: "confined L m \<Longrightarrow> confined L (op_no_compensation m)"
  unfolding op_no_compensation_def by (intro confined_intro)

lemma confined_tag [confined_intro]: "confined L m \<Longrightarrow> confined L (op_tag t m)"
  unfolding op_tag_def by (intro confined_intro)

lemma confined_if [confined_intro]: "(b \<Longrightarrow> confined L m) \<Longrightarrow> (\<not> b \<Longrightarrow> confined L n) \<Longrightarrow> confined L (if b then m else n)"
  by simp

lemma confined_option [confined_intro]:
  "(v = None \<Longrightarrow> confined L m) \<Longrightarrow> (\<And>x. v = Some x \<Longrightarrow> confined L (f x)) \<Longrightarrow>
     confined L (case v of None \<Rightarrow> m | Some x \<Rightarrow> f x)"
  by (cases v) auto

lemma confined_body [confined_intro]:
  "(\<And>x. v = File x \<Longrightarrow> confined L (f x)) \<Longrightarrow> (\<And>x. v = Tree x \<Longrightarrow> confined L (g x)) \<Longrightarrow>
     confined L (case v of File x \<Rightarrow> f x | Tree y \<Rightarrow> g y)"
  by (cases v) auto

lemma confined_each [confined_intro]: "(\<And>x. x \<in> set xs \<Longrightarrow> confined L (f x)) \<Longrightarrow> confined L (op_each f xs)"
  by (induction xs) (auto intro!: confined_intro)

lemma confined_on_fs:
  assumes "\<And>fs fs'. f fs = Inr fs' \<Longrightarrow> trees_ok fs \<Longrightarrow> trees_ok fs' \<and> (\<forall>l. l \<notin> L \<longrightarrow> node fs' l = node fs l)"
  shows "confined L (on_fs f)"
proof (rule confinedI, unfold on_fs_def, rule triple_step)
  fix s0 s x s' assume w: "fs_within L s0 s" and f: "try_bind (f (st_fs s)) (\<lambda>fs. Inr ((), s\<lparr>st_fs := fs\<rparr>)) = Inr (x, s')"
  then obtain fs where fs: "f (st_fs s) = Inr fs" "s' = s\<lparr>st_fs := fs\<rparr>" by (auto simp: result_simps)
  have "trees_ok (st_fs s)" using w by (auto simp: fs_within_def)
  then have "fs_within L s s'" unfolding fs_within_def using assms [OF fs(1)] fs(2) by blast
  then show "fs_within L s0 s' \<and> fs_within L s0 s'" using fs_within_trans [OF w] by blast
qed

end
