(* ===== verification/Crash_Confined.thy ===== *)
theory Crash_Confined
  imports Crash_Views
begin

text \<open>
  The file system primitives, the reads of a body and the guarded removals of
  src/src/artifacts/lifecycle/fs.rs, each confined to the locations it names.
\<close>

lemma canonical_clean: "canonical_key k \<Longrightarrow> \<exists>names. clean_relative names k"
  using sanitize_clean by (simp add: canonical_key_def)

lemma sanitize_canonical: "sanitize_relative_path v = Some r \<Longrightarrow> canonical_key r"
  using sanitize_clean clean_sanitize by (auto simp: canonical_key_def)

definition rooted_store :: "StoreContext \<Rightarrow> bool" where
  "rooted_store c \<longleftrightarrow> rooted (sc_cwd c) \<or> rooted (sc_root c)"

lemma relative_key_canonical:
  assumes "rooted_store c" and "canonical_key r" and "\<not> ends_with r [slash]"
  shows "relative_key c name r = Some r"
proof -
  obtain names where cl: "clean_relative names r" using canonical_clean [OF assms(2)] ..
  have "r = join_with slash names"
    using cl assms(3)
    by (cases "names = []") (auto simp: clean_relative_def ends_with_iff, simp add: slash_def)
  moreover have "rooted (sc_cwd c) \<or> rooted (sc_root c @ [Normal name])"
    using assms(1) by (auto simp: rooted_store_def rooted_def)
  ultimately show ?thesis
    using clean_contained [OF cl] by (simp add: relative_key_def Let_def comp_def)
qed

section \<open>The file system primitives\<close>

lemma trees_okD: "trees_ok fs \<Longrightarrow> node fs l = Some (Tree files) \<Longrightarrow> tree_ok files"
  unfolding trees_ok_def by blast

lemma trees_ok_drop: "trees_ok fs \<Longrightarrow> trees_ok (drop_node fs l)"
  unfolding trees_ok_def by auto

lemma trees_ok_put: "trees_ok fs \<Longrightarrow> (\<And>files. b = Tree files \<Longrightarrow> tree_ok files) \<Longrightarrow> trees_ok (put_node fs l b)"
  unfolding trees_ok_def by auto

lemma tree_ok_update: "tree_ok files \<Longrightarrow> canonical_key k \<Longrightarrow> tree_ok (AList.update k v files)"
  by (auto simp: tree_ok_def distinct_update dom_update)

lemma tree_ok_delete: "tree_ok files \<Longrightarrow> tree_ok (AList.delete k files)"
  using dom_delete_subset by (fastforce simp: tree_ok_def distinct_delete)

lemma node_history [simp]: "node (fs\<lparr>fs_history := h\<rparr>) = node fs"
  by (rule ext) (simp add: node_def)

lemma trees_ok_history [simp]: "trees_ok (fs\<lparr>fs_history := h\<rparr>) = trees_ok fs"
  by (simp add: trees_ok_def)

lemma create_history_simps [simp]:
  "node (fs_create_history a fs) = node fs" "trees_ok (fs_create_history a fs) = trees_ok fs"
  by (simp_all add: fs_create_history_def)

lemma fs_rename_effect:
  assumes "fs_rename from target fs = Inr fs'"
  shows "\<exists>b. node fs from = Some b \<and>
    (\<forall>l. node fs' l = (if l = target then Some b else if l = from then None else node fs l)) \<and>
    (trees_ok fs \<longrightarrow> trees_ok fs')"
proof -
  from assms obtain b where b: "node fs from = Some b"
    and fs': "fs' = (if from = target then fs else put_node (drop_node fs from) target b)"
    by (auto simp: fs_rename_def split: option.splits if_splits)
  have "trees_ok fs \<Longrightarrow> trees_ok fs'"
    unfolding fs' using b by (auto intro!: trees_ok_put trees_ok_drop dest: trees_okD)
  then show ?thesis using b fs' by auto
qed

lemma confined_rename: "from \<in> L \<Longrightarrow> target \<in> L \<Longrightarrow> confined L (durable_rename from target)"
  unfolding durable_rename_def
  by (rule confined_on_fs) (drule fs_rename_effect, auto)

lemma confined_drop: "l \<in> L \<Longrightarrow> confined L (on_fs (\<lambda>fs. Inr (drop_node fs l)))"
  by (rule confined_on_fs) (auto intro: trees_ok_drop)

lemma confined_remove_node [confined_intro]:
  assumes "l \<in> L"
  shows "confined L (remove_node l)"
proof -
  have part: "confined L (on_fs (\<lambda>fs. case node fs l of
       Some (Tree rest) \<Rightarrow> Inr (put_node fs l (Tree (AList.delete rel rest))) | _ \<Rightarrow> Inr fs))" for rel
    by (rule confined_on_fs)
      (use assms in \<open>auto split: option.splits body.splits intro!: trees_ok_put tree_ok_delete dest: trees_okD\<close>)
  show ?thesis
    unfolding remove_node_def using assms by (auto intro!: confined_intro part confined_drop)
qed

lemma confined_safe_remove [confined_intro]: "l \<in> L \<Longrightarrow> confined L (safe_remove l)"
  unfolding safe_remove_def by (intro confined_intro)

lemma confined_remove_with_barrier [confined_intro]: "l \<in> L \<Longrightarrow> confined L (remove_with_barrier c l p)"
  unfolding remove_with_barrier_def by (intro confined_intro)

lemma confined_create_history [confined_intro]: "confined L (on_fs (\<lambda>fs. Inr (fs_create_history a fs)))"
  by (rule confined_on_fs) auto

lemma confined_create_history_dir [confined_intro]: "confined L (create_history_dir c a)"
  unfolding create_history_dir_def by (intro confined_intro)

lemma confined_remove_history_dir:
  assumes "\<And>name. Past a name \<in> L"
  shows "confined L (remove_history_dir a)"
proof (rule confinedI, unfold remove_history_dir_def, rule triple_bind_ask)
  fix s0 entries
  have e: "confined L (op_each remove_node (history_entries fs a))" for fs
  proof (rule confined_each)
    fix l assume "l \<in> set (history_entries fs a)"
    then have "\<exists>name. l = Past a name" by (auto simp: history_entries_def split: loc.splits)
    then show "confined L (remove_node l)" using assms by (auto intro: confined_intro)
  qed
  have h: "confined L (on_fs (\<lambda>fs. Inr (fs\<lparr>fs_history := sql_delete (\<lambda>x. x = a) (fs_history fs)\<rparr>)))"
    by (rule confined_on_fs) auto
  show "triple (fs_within L s0) (\<lambda>s. fs_within L s0 s \<and> entries = history_entries (st_fs s) a)
      (op_bind (op_each remove_node entries)
         (\<lambda>_. on_fs (\<lambda>fs. Inr (fs\<lparr>fs_history := sql_delete (\<lambda>x. x = a) (fs_history fs)\<rparr>))))
      (\<lambda>_. fs_within L s0) (\<lambda>_. fs_within L s0)"
  proof (rule triple_fact)
    show "\<exists>fs. entries = history_entries fs a" if "fs_within L s0 s \<and> entries = history_entries (st_fs s) a" for s
      using that by blast
    assume "\<exists>fs. entries = history_entries fs a"
    then have "confined L (op_bind (op_each remove_node entries)
         (\<lambda>_. on_fs (\<lambda>fs. Inr (fs\<lparr>fs_history := sql_delete (\<lambda>x. x = a) (fs_history fs)\<rparr>))))"
      using e h by (auto intro!: confined_bind)
    then show "triple (fs_within L s0) (\<lambda>s. fs_within L s0 s \<and> entries = history_entries (st_fs s) a)
      (op_bind (op_each remove_node entries)
         (\<lambda>_. on_fs (\<lambda>fs. Inr (fs\<lparr>fs_history := sql_delete (\<lambda>x. x = a) (fs_history fs)\<rparr>))))
      (\<lambda>_. fs_within L s0) (\<lambda>_. fs_within L s0)"
      by (rule triple_pre [OF confinedD]) simp
  qed
qed

lemma confined_write_file [confined_intro]: "l \<in> L \<Longrightarrow> confined L (write_file l x)"
proof -
  assume l: "l \<in> L"
  have "confined L (on_fs (fs_write l y))" for y
    by (rule confined_on_fs) (use l in \<open>auto simp: fs_write_def split: if_splits option.splits body.splits intro!: trees_ok_put\<close>)
  then show ?thesis unfolding write_file_def by (intro confined_intro)
qed

lemma confined_fs_write_below:
  assumes "l \<in> L" and "canonical_key k"
  shows "confined L (on_fs (fs_write_below l k x))"
  by (rule confined_on_fs)
    (use assms in \<open>auto simp: fs_write_below_def split: if_splits option.splits body.splits
       intro!: trees_ok_put tree_ok_update dest: trees_okD\<close>)

lemma confined_write_below:
  "l \<in> L \<Longrightarrow> canonical_key (fst file) \<Longrightarrow> confined L (write_below l file)"
  unfolding write_below_def by (intro confined_intro confined_fs_write_below)

lemma confined_create_dir: "l \<in> L \<Longrightarrow> confined L (on_fs (fs_create_dir l))"
  by (rule confined_on_fs)
    (auto simp: fs_create_dir_def tree_ok_def split: if_splits option.splits body.splits intro!: trees_ok_put)

lemma confined_sync [confined_intro]: "confined L (sync_with_barrier c l p)"
  unfolding sync_with_barrier_def by (intro confined_intro)

lemma confined_stage_single [confined_intro]: "l \<in> L \<Longrightarrow> confined L (stage_single_body c l html p q)"
  unfolding stage_single_body_def by (intro confined_intro)

lemma confined_rename_with_barrier:
  "from \<in> L \<Longrightarrow> target \<in> L \<Longrightarrow> confined L (rename_with_barrier c from target p)"
  unfolding rename_with_barrier_def by (intro confined_intro confined_rename)

section \<open>What staging and copying leave behind\<close>

lemma triple_on_fs:
  assumes "\<And>s fs. P s \<Longrightarrow> f (st_fs s) = Inr fs \<Longrightarrow> C (s\<lparr>st_fs := fs\<rparr>) \<and> Q () (s\<lparr>st_fs := fs\<rparr>)"
    and "\<And>s e. P s \<Longrightarrow> f (st_fs s) = Inl e \<Longrightarrow> E e s"
  shows "triple C P (on_fs f) Q E"
  unfolding on_fs_def by (rule triple_step) (use assms in \<open>auto simp: result_simps\<close>)

definition holds :: "loc \<Rightarrow> body \<Rightarrow> store \<Rightarrow> bool" where
  "holds l b s \<longleftrightarrow> node (st_fs s) l = Some b"

lemma update_snoc: "k \<notin> fst ` set files \<Longrightarrow> AList.update k v files = files @ [(k, v)]"
  by (induction files) auto

lemma write_below_holds:
  assumes "fst file \<notin> fst ` set files"
  shows "triple (\<lambda>_. True) (holds l (Tree files)) (write_below l file)
    (\<lambda>_. holds l (Tree (files @ [file]))) (\<lambda>_ _. True)"
  unfolding write_below_def
proof (rule triple_bind [where R = "\<lambda>_. holds l (Tree (files @ [(fst file, [])]))"])
  show "triple (\<lambda>_. True) (holds l (Tree files)) (on_fs (fs_write_below l (fst file) []))
      (\<lambda>_. holds l (Tree (files @ [(fst file, [])]))) (\<lambda>_ _. True)"
    by (rule triple_on_fs)
      (use assms in \<open>auto simp: holds_def fs_write_below_def update_snoc split: if_splits\<close>)
  have "AList.update (fst file) (snd file) (files @ [(fst file, [])]) = files @ [file]"
    using assms by (induction files) auto
  then show "triple (\<lambda>_. True) (holds l (Tree (files @ [(fst file, [])])))
      (on_fs (fs_write_below l (fst file) (snd file))) (\<lambda>_. holds l (Tree (files @ [file]))) (\<lambda>_ _. True)"
    by (intro triple_on_fs) (auto simp: holds_def fs_write_below_def split: if_splits)
qed

lemma each_write_below_holds:
  assumes "distinct (map fst (done @ files))"
  shows "triple (\<lambda>_. True) (holds l (Tree done))
    (op_each (\<lambda>f. if g f then op_raise e else write_below l f) files)
    (\<lambda>_. holds l (Tree (done @ files))) (\<lambda>_ _. True)"
  using assms
proof (induction files arbitrary: "done")
  case Nil
  show ?case by (auto intro: triple_return)
next
  case (Cons f files)
  have "triple (\<lambda>_. True) (holds l (Tree done)) (if g f then op_raise e else write_below l f)
      (\<lambda>_. holds l (Tree (done @ [f]))) (\<lambda>_ _. True)"
    by (intro triple_if triple_raise write_below_holds) (use Cons.prems in auto)
  moreover have "triple (\<lambda>_. True) (holds l (Tree (done @ [f])))
      (op_each (\<lambda>f. if g f then op_raise e else write_below l f) files)
      (\<lambda>_. holds l (Tree ((done @ [f]) @ files))) (\<lambda>_ _. True)"
    by (rule Cons.IH) (use Cons.prems in simp)
  ultimately show ?case using triple_bind by fastforce
qed

lemma create_dir_holds:
  "triple (\<lambda>_. True) (\<lambda>s. node (st_fs s) l = None) (on_fs (fs_create_dir l)) (\<lambda>_. holds l (Tree [])) (\<lambda>_ _. True)"
  by (rule triple_on_fs) (auto simp: holds_def fs_create_dir_def split: if_splits)

lemma write_file_holds: "triple (\<lambda>_. True) (\<lambda>_. True) (write_file l x) (\<lambda>_. holds l (File x)) (\<lambda>_ _. True)"
  unfolding write_file_def
  by (rule triple_bind [where R = "\<lambda>_ _. True"]; rule triple_on_fs)
    (auto simp: holds_def fs_write_def split: if_splits option.splits body.splits)

lemma sync_keeps:
  "(\<And>e s. P s \<Longrightarrow> E e s) \<Longrightarrow> triple C P (sync_with_barrier c l p) (\<lambda>_. P) E"
  unfolding sync_with_barrier_def
  by (intro triple_bind_ask triple_if triple_bare_fault_any triple_raise) auto

lemma stage_single_holds:
  "triple (\<lambda>_. True) (\<lambda>_. True) (stage_single_body c l html p q) (\<lambda>_. holds l (File html)) (\<lambda>_ _. True)"
  unfolding stage_single_body_def
  by (intro triple_bind [OF write_file_holds] triple_bind [OF sync_keeps] triple_bare_fault_any) simp_all

lemma stage_bundle_write:
  assumes "rooted_store c" and "\<forall>f \<in> set files. canonical_key (fst f)"
  shows "op_each (\<lambda>(rel, content).
       if ends_with rel [slash] then op_raise Internal
       else case relative_key c name rel of
              None \<Rightarrow> op_raise Internal
            | Some key \<Rightarrow> write_below l (key, content)) files =
     op_each (\<lambda>f. if ends_with (fst f) [slash] then op_raise Internal else write_below l f) files"
  using assms(2)
  by (induction files) (auto simp: relative_key_canonical [OF assms(1)] split: prod.splits)

lemma confined_stage_bundle:
  assumes "rooted_store c" and "\<forall>f \<in> set files. canonical_key (fst f)" and "Entry name \<in> L"
  shows "confined L (stage_bundle_files c name files p q)"
  unfolding stage_bundle_files_def stage_bundle_write [OF assms(1,2)]
  by (intro confined_intro confined_create_dir confined_write_below) (use assms in auto)

lemma stage_bundle_holds:
  assumes "rooted_store c" and "\<forall>f \<in> set files. canonical_key (fst f)" and "distinct (map fst files)"
  shows "triple (\<lambda>_. True) (\<lambda>s. node (st_fs s) (Entry name) = None) (stage_bundle_files c name files p q)
    (\<lambda>_. holds (Entry name) (Tree files)) (\<lambda>_ _. True)"
proof -
  have w: "triple (\<lambda>_. True) (holds (Entry name) (Tree []))
     (op_each (\<lambda>f. if ends_with (fst f) [slash] then op_raise Internal else write_below (Entry name) f) files)
     (\<lambda>_. holds (Entry name) (Tree files)) (\<lambda>_ _. True)"
    using each_write_below_holds [of "[]" files] assms(3) by simp
  show ?thesis
    unfolding stage_bundle_files_def stage_bundle_write [OF assms(1,2)]
    by (intro triple_bind [OF create_dir_holds] triple_bind [OF w] triple_bind [OF sync_keeps]
        triple_bare_fault_any) simp_all
qed

lemma copy_recursive_holds:
  assumes "l \<noteq> src"
  shows "triple (\<lambda>_. True) (\<lambda>s. holds src b s \<and> trees_ok (st_fs s) \<and> node (st_fs s) l = None)
    (copy_recursive src l) (\<lambda>_. holds l b) (\<lambda>_ _. True)"
  unfolding copy_recursive_def
proof (rule triple_bind_ask)
  fix x
  show "triple (\<lambda>_. True) (\<lambda>s. (holds src b s \<and> trees_ok (st_fs s) \<and> node (st_fs s) l = None) \<and> x = node (st_fs s) src)
    (case x of None \<Rightarrow> op_raise Internal
     | Some (File content) \<Rightarrow> write_file l content
     | Some (Tree files) \<Rightarrow> op_bind (on_fs (fs_create_dir l)) (\<lambda>_. op_each (write_below l) files))
    (\<lambda>_. holds l b) (\<lambda>_ _. True)"
  proof (rule triple_fact)
    show "x = Some b \<and> (\<forall>files. b = Tree files \<longrightarrow> tree_ok files)"
      if "(holds src b s \<and> trees_ok (st_fs s) \<and> node (st_fs s) l = None) \<and> x = node (st_fs s) src" for s
      using that by (auto simp: holds_def dest: trees_okD)
    assume x: "x = Some b \<and> (\<forall>files. b = Tree files \<longrightarrow> tree_ok files)"
    show "triple (\<lambda>_. True) (\<lambda>s. (holds src b s \<and> trees_ok (st_fs s) \<and> node (st_fs s) l = None) \<and> x = node (st_fs s) src)
      (case x of None \<Rightarrow> op_raise Internal
       | Some (File content) \<Rightarrow> write_file l content
       | Some (Tree files) \<Rightarrow> op_bind (on_fs (fs_create_dir l)) (\<lambda>_. op_each (write_below l) files))
      (\<lambda>_. holds l b) (\<lambda>_ _. True)"
    proof (cases b)
      case (File y)
      then show ?thesis using x by (auto intro: triple_pre [OF write_file_holds])
    next
      case (Tree files)
      then have "distinct (map fst ([] @ files))" using x by (simp add: tree_ok_def)
      from each_write_below_holds [OF this, where g = "\<lambda>_. False"]
      have "triple (\<lambda>_. True) (holds l (Tree [])) (op_each (write_below l) files) (\<lambda>_. holds l b) (\<lambda>_ _. True)"
        using Tree by simp
      then show ?thesis using x Tree
        by (auto intro: triple_pre [OF triple_bind [OF create_dir_holds]])
    qed
  qed
qed

lemma confined_copy:
  assumes "l \<in> L"
  shows "confined L (copy_recursive src l)"
proof (rule confinedI, unfold copy_recursive_def, rule triple_bind_ask)
  fix s0 x
  let ?m = "case x of None \<Rightarrow> op_raise Internal
     | Some (File content) \<Rightarrow> write_file l content
     | Some (Tree files) \<Rightarrow> op_bind (on_fs (fs_create_dir l)) (\<lambda>_. op_each (write_below l) files)"
  show "triple (fs_within L s0) (\<lambda>s. fs_within L s0 s \<and> x = node (st_fs s) src) ?m
     (\<lambda>_. fs_within L s0) (\<lambda>_. fs_within L s0)"
  proof (rule triple_fact)
    show "\<forall>files. x = Some (Tree files) \<longrightarrow> tree_ok files" if "fs_within L s0 s \<and> x = node (st_fs s) src" for s
      using that by (auto simp: fs_within_def dest: trees_okD)
    assume "\<forall>files. x = Some (Tree files) \<longrightarrow> tree_ok files"
    then have "confined L ?m"
      using assms by (auto intro!: confined_intro confined_create_dir confined_write_below simp: tree_ok_def)
    then show "triple (fs_within L s0) (\<lambda>s. fs_within L s0 s \<and> x = node (st_fs s) src) ?m
       (\<lambda>_. fs_within L s0) (\<lambda>_. fs_within L s0)"
      by (rule triple_pre [OF confinedD]) simp
  qed
qed

end
