(* ===== verification/Crash_Invariant.thy ===== *)
theory Crash_Invariant
  imports Crash_Confined
begin

text \<open>
  The invariant \<open>crash_ok\<close> of the artifact store, which holds at every instant: every visible
  artifact has its committed body on disk and every kept revision its history body; an artifact
  with an open intent has one of the bodies the intent accounts for.
\<close>

section \<open>The invariant\<close>

definition past_ok :: "StoreContext \<Rightarrow> store \<Rightarrow> string \<Rightarrow> int \<Rightarrow> bool" where
  "past_ok c s a n \<longleftrightarrow> list_all (\<lambda>r. rv_revision r < n \<longrightarrow>
     body_digest_at_path c (st_fs s) (history_loc a (rv_revision r) (rv_is_bundle r)) (rv_is_bundle r)
       = Some (rv_body_sha256 r)) (revs_of s a)"

definition revision_digest :: "store \<Rightarrow> string \<Rightarrow> int \<Rightarrow> string \<Rightarrow> bool" where
  "revision_digest s a n d \<longleftrightarrow> list_all (\<lambda>r. rv_revision r = n \<longrightarrow> rv_body_sha256 r = d) (revs_of s a)"

definition slot_ok :: "StoreContext \<Rightarrow> store \<Rightarrow> string \<Rightarrow> bool \<Rightarrow> int \<Rightarrow> string \<Rightarrow> bool" where
  "slot_ok c s a b n d \<longleftrightarrow> node (st_fs s) (history_loc a n b) = None \<or>
     body_digest_at_path c (st_fs s) (history_loc a n b) b = Some d"

definition no_future :: "store \<Rightarrow> string \<Rightarrow> bool \<Rightarrow> int \<Rightarrow> bool" where
  "no_future s a b n \<longleftrightarrow> (\<forall>k > n. node (st_fs s) (history_loc a k b) = None)"

definition live_is :: "StoreContext \<Rightarrow> store \<Rightarrow> ArtifactMeta \<Rightarrow> string \<Rightarrow> bool" where
  "live_is c s m d \<longleftrightarrow>
     body_digest_at_path c (st_fs s) (live_loc (am_id m) (am_is_bundle m)) (am_is_bundle m) = Some d"

definition live_absent :: "store \<Rightarrow> ArtifactMeta \<Rightarrow> bool" where
  "live_absent s m \<longleftrightarrow> node (st_fs s) (live_loc (am_id m) (am_is_bundle m)) = None"

definition staged_is :: "StoreContext \<Rightarrow> store \<Rightarrow> ArtifactMeta \<Rightarrow> string \<Rightarrow> bool" where
  "staged_is c s m d \<longleftrightarrow> (\<exists>name. transient_of (am_id m) name \<and>
     body_digest_at_path c (st_fs s) (Entry name) (am_is_bundle m) = Some d)"

definition available :: "StoreContext \<Rightarrow> store \<Rightarrow> ArtifactMeta \<Rightarrow> bool" where
  "available c s m \<longleftrightarrow> live_is c s m (am_body_sha256 m) \<or> live_absent s m \<and> staged_is c s m (am_body_sha256 m)"

definition history_ok :: "StoreContext \<Rightarrow> store \<Rightarrow> ArtifactMeta \<Rightarrow> bool" where
  "history_ok c s m \<longleftrightarrow>
     past_ok c s (am_id m) (am_revision m) \<and>
     slot_ok c s (am_id m) (am_is_bundle m) (am_revision m) (am_body_sha256 m) \<and>
     no_future s (am_id m) (am_is_bundle m) (am_revision m) \<and>
     revision_digest s (am_id m) (am_revision m) (am_body_sha256 m)"

definition at_rest :: "StoreContext \<Rightarrow> store \<Rightarrow> ArtifactMeta \<Rightarrow> bool" where
  "at_rest c s m \<longleftrightarrow> live_is c s m (am_body_sha256 m) \<and> history_ok c s m"

definition update_id :: "string \<Rightarrow> int \<Rightarrow> string" where
  "update_id a n = ''update:'' @ a @ '':'' @ show_int n"

definition update_prepared :: "StoreContext \<Rightarrow> store \<Rightarrow> ArtifactMeta \<Rightarrow> DurabilityIntent \<Rightarrow> bool" where
  "update_prepared c s m i \<longleftrightarrow> di_operation i = ''update'' \<and> di_id i = update_id (am_id m) (am_revision m + 1) \<and>
     di_prior_sha256 i = am_body_sha256 m \<and> at_rest c s m"

definition update_committed :: "StoreContext \<Rightarrow> store \<Rightarrow> ArtifactMeta \<Rightarrow> DurabilityIntent \<Rightarrow> bool" where
  "update_committed c s m i \<longleftrightarrow> di_operation i = ''update'' \<and> di_id i = update_id (am_id m) (am_revision m) \<and>
     2 \<le> am_revision m \<and> di_expected_sha256 i = am_body_sha256 m \<and>
     revision_digest s (am_id m) (am_revision m) (am_body_sha256 m) \<and>
     revision_digest s (am_id m) (am_revision m - 1) (di_prior_sha256 i) \<and>
     no_future s (am_id m) (am_is_bundle m) (am_revision m - 1) \<and>
     (live_is c s m (di_prior_sha256 i) \<and> past_ok c s (am_id m) (am_revision m - 1) \<and>
      slot_ok c s (am_id m) (am_is_bundle m) (am_revision m - 1) (di_prior_sha256 i)
      \<or> available c s m \<and> past_ok c s (am_id m) (am_revision m))"

definition body_pending :: "StoreContext \<Rightarrow> store \<Rightarrow> ArtifactMeta \<Rightarrow> DurabilityIntent \<Rightarrow> bool" where
  "body_pending c s m i \<longleftrightarrow>
     (di_operation i = ''publish'' \<and> di_expected_sha256 i = am_body_sha256 m \<or>
      di_operation i = ''delete'' \<and> di_prior_sha256 i = am_body_sha256 m) \<and>
     available c s m \<and> history_ok c s m"

definition pending_ok :: "StoreContext \<Rightarrow> store \<Rightarrow> ArtifactMeta \<Rightarrow> DurabilityIntent \<Rightarrow> bool" where
  "pending_ok c s m i \<longleftrightarrow> body_pending c s m i \<or> update_prepared c s m i \<or> update_committed c s m i"

definition meta_ok :: "store \<Rightarrow> ArtifactMeta \<Rightarrow> bool" where
  "meta_ok s m \<longleftrightarrow> 1 \<le> am_revision m \<and> am_revision m \<le> i64_max \<and>
     list_all (\<lambda>r. 1 \<le> rv_revision r \<and> rv_is_bundle r = am_is_bundle m) (revs_of s (am_id m))"

definition art_ok :: "StoreContext \<Rightarrow> store \<Rightarrow> string \<Rightarrow> bool" where
  "art_ok c s a \<longleftrightarrow>
     length (rows_of s a) \<le> 1 \<and> length (intents_of s a) \<le> 1 \<and>
     (\<forall>m \<in> set (rows_of s a). meta_ok s m \<and>
        (if intents_of s a = [] then at_rest c s m else \<forall>i \<in> set (intents_of s a). pending_ok c s m i))"

definition intent_owner :: "string \<Rightarrow> string" where
  "intent_owner intent = takeWhile (\<lambda>x. x \<noteq> CHR '':'') (tl (dropWhile (\<lambda>x. x \<noteq> CHR '':'') intent))"

definition intent_ok :: "DurabilityIntent \<Rightarrow> bool" where
  "intent_ok i \<longleftrightarrow> is_valid_artifact_id (di_artifact_id i) \<and> intent_owner (di_id i) = di_artifact_id i \<and>
     transient_of (di_artifact_id i) (di_staging_path i)"

definition base_ok :: "store \<Rightarrow> bool" where
  "base_ok s \<longleftrightarrow> (\<forall>m \<in> set (st_artifacts s). is_valid_artifact_id (am_id m)) \<and>
     (\<forall>i \<in> set (st_intents s). intent_ok i) \<and> trees_ok (st_fs s)"

definition crash_ok :: "StoreContext \<Rightarrow> store \<Rightarrow> bool" where
  "crash_ok c s \<longleftrightarrow> base_ok s \<and> (\<forall>a. is_valid_artifact_id a \<longrightarrow> art_ok c s a)"

definition focus :: "StoreContext \<Rightarrow> string \<Rightarrow> store \<Rightarrow> bool" where
  "focus c a s \<longleftrightarrow> is_valid_artifact_id a \<and> base_ok s \<and> (\<forall>b. is_valid_artifact_id b \<and> b \<noteq> a \<longrightarrow> art_ok c s b)"

lemmas phase_defs = past_ok_def revision_digest_def slot_ok_def no_future_def live_is_def live_absent_def
  staged_is_def available_def

lemma crash_ok_focus: "is_valid_artifact_id a \<Longrightarrow> crash_ok c s \<longleftrightarrow> focus c a s \<and> art_ok c s a"
  unfolding crash_ok_def focus_def by metis

section \<open>Frame\<close>

lemma art_ok_frame:
  assumes "same_view a s s'"
  shows "art_ok c s' a = art_ok c s a"
proof -
  have n: "owned a l \<Longrightarrow> node (st_fs s') l = node (st_fs s) l" for l
    using assms by (simp add: same_view_def)
  have v: "rows_of s' a = rows_of s a" "revs_of s' a = revs_of s a" "intents_of s' a = intents_of s a"
    using assms by (simp_all add: same_view_def)
  have m: "(meta_ok s' m \<longleftrightarrow> meta_ok s m) \<and> (at_rest c s' m \<longleftrightarrow> at_rest c s m) \<and> (pending_ok c s' m i \<longleftrightarrow> pending_ok c s m i)"
    if "am_id m = a" for m i
    unfolding meta_ok_def at_rest_def pending_ok_def body_pending_def update_prepared_def update_committed_def
      history_ok_def phase_defs body_digest_at_path_def
    using that v n by (auto simp: cong: conj_cong)
  show ?thesis unfolding art_ok_def v using m by (auto simp: rows_of_def)
qed

lemma focus_step: "focus c a s \<Longrightarrow> untouched a s s' \<Longrightarrow> base_ok s' \<Longrightarrow> focus c a s'"
  unfolding focus_def untouched_def using art_ok_frame by blast

end
