(* ===== verification/Crash_Tables.thy ===== *)
theory Crash_Tables
  imports Crash_Invariant
begin

text \<open>
  Transactions on tables no body depends on keep the invariant: deliveries, audit receipts and
  the rows that only hang off an artifact.
\<close>

section \<open>Transactions that leave the artifact tables alone\<close>

definition core :: "store \<Rightarrow> ArtifactMeta list \<times> ArtifactRevision list \<times> DurabilityIntent list \<times> filesystem" where
  "core s = (st_artifacts s, st_revisions s, st_intents s, st_fs s)"

lemma core_views:
  "core s' = core s \<Longrightarrow> rows_of s' a = rows_of s a" "core s' = core s \<Longrightarrow> revs_of s' a = revs_of s a"
  "core s' = core s \<Longrightarrow> intents_of s' a = intents_of s a" "core s' = core s \<Longrightarrow> st_fs s' = st_fs s"
  "core s' = core s \<Longrightarrow> base_ok s' = base_ok s"
  by (simp_all add: core_def rows_of_def revs_of_def intents_of_def base_ok_def)

lemma core_untouched: "core s' = core s \<Longrightarrow> untouched a s s'"
  using core_views [of s' s] unfolding untouched_def same_view_def by presburger

lemma insert_fresh_intents: "insert_fresh sha now db xs = Inr (out, db') \<Longrightarrow> ob_intents db' = ob_intents db"
proof (induction sha now db xs arbitrary: out db' rule: insert_fresh.induct)
  case (2 sha now db input i fresh)
  then show ?case
    by (fastforce simp: result_simps insert_row_def split: if_splits option.splits)
qed simp

lemma enqueue_many_intents:
  "enqueue_many_in_transaction sha db inputs now = Inr (out, db') \<Longrightarrow> ob_intents db' = ob_intents db"
  by (auto simp: enqueue_many_in_transaction_def result_simps split: if_splits dest: insert_fresh_intents)

lemma set_outbox_core:
  "ob_intents db = map di_id (st_intents s) \<Longrightarrow> core (set_outbox db s) = core s"
  by (auto simp: core_def set_outbox_def filter_id_conv)

lemma fanout_delivery_core:
  assumes "fanout_delivery c n m event intent s = Inr s'"
  shows "core s' = core s"
  using assms
  by (auto simp: fanout_delivery_def fanout_in_transaction_def fanout_with_policy_def Let_def result_simps
      outbox_view_def split: if_splits dest!: enqueue_many_intents intro!: set_outbox_core)

lemma reserve_audit_core:
  assumes "reserve_audit c audit intent operation target revision s = Inr s'"
  shows "core s' = core s"
  using assms by (auto simp: reserve_audit_def result_simps core_def split: if_splits)

section \<open>Closing an intent\<close>

definition closed :: "string \<Rightarrow> store \<Rightarrow> store \<Rightarrow> bool" where
  "closed intent s s' \<longleftrightarrow> st_artifacts s' = st_artifacts s \<and> st_revisions s' = st_revisions s \<and>
     st_fs s' = st_fs s \<and> st_intents s' = filter (\<lambda>i. di_id i \<noteq> intent) (st_intents s)"

lemma set_outbox_closed:
  "ob_intents db = sql_delete (\<lambda>i. i = intent) (map di_id (st_intents s)) \<Longrightarrow> closed intent s (set_outbox db s)"
  by (auto simp: closed_def set_outbox_def sql_delete_def intro!: filter_cong)

lemma finalize_durability_closed:
  "finalize_durability_success intent now s = Inr s' \<Longrightarrow> closed intent s s'"
  by (auto simp: finalize_durability_success_def finalize_durability_success_in_transaction_def Let_def
      result_simps delete_intent_def outbox_view_def split: if_splits intro!: set_outbox_closed)

lemma compensate_durability_closed:
  "compensate_durability intent s = Inr s' \<Longrightarrow> closed intent s s'"
  by (auto simp: compensate_durability_def compensate_durability_in_transaction_def Let_def
      result_simps delete_intent_def outbox_view_def split: if_splits intro!: set_outbox_closed)

lemma closed_ledger: "closed intent (s\<lparr>st_ledger := l\<rparr>) s' \<longleftrightarrow> closed intent s s'"
  by (simp add: closed_def)

lemma finish_durability_closed:
  "finish_durability_intent intent s = Inr (x, s') \<Longrightarrow> closed intent s s'"
  by (auto simp: finish_durability_intent_def closed_def sql_delete_def split: if_splits)

lemma closed_base: "closed intent s s' \<Longrightarrow> base_ok s \<Longrightarrow> base_ok s'"
  by (simp add: closed_def base_ok_def)

lemma intents_closed:
  assumes "closed intent s s'" and "base_ok s"
  shows "intents_of s' a = (if a = intent_owner intent then filter (\<lambda>i. di_id i \<noteq> intent) (intents_of s a) else intents_of s a)"
proof -
  have "intents_of s' a = filter (\<lambda>i. di_id i \<noteq> intent) (intents_of s a)"
    using assms(1) by (auto simp: closed_def intents_of_def conj_commute)
  moreover have "filter (\<lambda>i. di_id i \<noteq> intent) (intents_of s a) = intents_of s a" if "a \<noteq> intent_owner intent"
    unfolding filter_id_conv using assms(2) that by (auto simp: base_ok_def intent_ok_def intents_of_def)
  ultimately show ?thesis by simp
qed

lemma closed_views:
  assumes "closed intent s s'"
  shows "rows_of s' a = rows_of s a" "revs_of s' a = revs_of s a" "st_fs s' = st_fs s"
  using assms by (simp_all add: closed_def rows_of_def revs_of_def)

lemma closed_untouched:
  "closed intent s s' \<Longrightarrow> base_ok s \<Longrightarrow> untouched (intent_owner intent) s s'"
  by (simp add: untouched_def same_view_def closed_views intents_closed)

section \<open>Names of intents\<close>

lemma valid_no_colon: "is_valid_artifact_id a \<Longrightarrow> CHR '':'' \<notin> set a"
  by (auto simp: is_valid_artifact_id_def list_all_iff is_ascii_digit_def is_ascii_lowercase_def byte_def)

lemma takeWhile_colon: "CHR '':'' \<notin> set a \<Longrightarrow> takeWhile (\<lambda>x. x \<noteq> CHR '':'') (a @ CHR '':'' # t) = a"
  "CHR '':'' \<notin> set a \<Longrightarrow> takeWhile (\<lambda>x. x \<noteq> CHR '':'') a = a"
  by (induction a) auto

lemma intent_owner_simps:
  assumes "is_valid_artifact_id a"
  shows "intent_owner (publish_intent a) = a" "intent_owner (update_id a n) = a"
    "am_id m = a \<Longrightarrow> intent_owner (update_intent m) = a"
    "am_id m = a \<Longrightarrow> intent_owner (delete_intent_id m) = a"
  using takeWhile_colon [OF valid_no_colon [OF assms]]
  by (simp_all add: intent_owner_def publish_intent_def update_id_def update_intent_def delete_intent_id_def)

section \<open>Opening and advancing an intent\<close>

lemma start_intent_effect:
  assumes "start_durability_intent intent a operation expected prior staging s = Inr (x, s')"
  shows "transient_of a staging \<and> core s' = (st_artifacts s, st_revisions s, st_intents s @
     [\<lparr> di_id = intent, di_artifact_id = a, di_operation = operation, di_state = ''prepared'',
        di_expected_sha256 = expected, di_prior_sha256 = prior, di_staging_path = staging \<rparr>], st_fs s)"
  using assms by (auto simp: start_durability_intent_def core_def transient_of_def split: if_splits)

lemma advance_intent_effect:
  assumes "advance_durability_intent intent state s = Inr (x, s')"
  shows "core s' = (st_artifacts s, st_revisions s,
     sql_update (\<lambda>i. di_id i = intent) (\<lambda>i. i\<lparr>di_state := state\<rparr>) (st_intents s), st_fs s)"
  using assms by (auto simp: advance_durability_intent_def core_def split: if_splits)

definition pending :: "string \<Rightarrow> DurabilityIntent \<Rightarrow> store \<Rightarrow> bool" where
  "pending a i s \<longleftrightarrow> (\<exists>state. intents_of s a = [i\<lparr>di_state := state\<rparr>])"

lemma pending_ok_state [simp]: "pending_ok c s m (i\<lparr>di_state := x\<rparr>) = pending_ok c s m i"
  by (simp add: pending_ok_def body_pending_def update_prepared_def update_committed_def)

lemma start_intent_pending:
  assumes "start_durability_intent intent a operation expected prior staging s = Inr (x, s')"
    and "base_ok s" and "is_valid_artifact_id a" and "intent_owner intent = a" and "intents_of s a = []"
  shows "untouched a s s'" "base_ok s'" "rows_of s' b = rows_of s b" "revs_of s' b = revs_of s b" "st_fs s' = st_fs s"
    "pending a \<lparr> di_id = intent, di_artifact_id = a, di_operation = operation, di_state = ''prepared'',
        di_expected_sha256 = expected, di_prior_sha256 = prior, di_staging_path = staging \<rparr> s'"
  using start_intent_effect [OF assms(1)] assms(2-)
  by (auto simp: core_def untouched_def same_view_def rows_of_def revs_of_def intents_of_def base_ok_def
      intent_ok_def pending_def intro!: exI [of _ "''prepared''"])

lemma advance_intent_pending:
  assumes "advance_durability_intent intent state s = Inr (x, s')" and "base_ok s" and "intent_owner intent = a"
    and "is_valid_artifact_id a"
  shows "untouched a s s'" "base_ok s'" "rows_of s' b = rows_of s b" "revs_of s' b = revs_of s b" "st_fs s' = st_fs s"
    "pending a i s \<Longrightarrow> pending a i s'"
proof -
  let ?adv = "sql_update (\<lambda>i. di_id i = intent) (\<lambda>i. i\<lparr>di_state := state\<rparr>) :: DurabilityIntent list \<Rightarrow> _"
  note eff = advance_intent_effect [OF assms(1)]
  have int: "intents_of s' b = ?adv (intents_of s b)" for b
  proof -
    have "filter (\<lambda>i. di_artifact_id i = b) (?adv xs) = ?adv (filter (\<lambda>i. di_artifact_id i = b) xs)" for xs
      by (induction xs) (auto simp: sql_update_def)
    then show ?thesis using eff by (simp add: core_def intents_of_def)
  qed
  have same: "intents_of s' b = intents_of s b" if "b \<noteq> a" for b
    unfolding int using assms(2,3) that
    by (intro sql_update_noop) (auto simp: intents_of_def base_ok_def intent_ok_def)
  show "untouched a s s'"
    using eff same by (auto simp: untouched_def same_view_def core_def rows_of_def revs_of_def)
  show "base_ok s'"
    using eff assms(2) by (auto simp: base_ok_def core_def set_sql_update intent_ok_def)
  show "rows_of s' b = rows_of s b" "revs_of s' b = revs_of s b" "st_fs s' = st_fs s"
    using eff by (auto simp: core_def rows_of_def revs_of_def)
  show "pending a i s'" if "pending a i s"
    using that unfolding pending_def int by (auto simp: sql_update_def)
qed

lemma closed_pending:
  assumes "closed (di_id i) s s'" and "base_ok s" and "pending a i s" 
  shows "intents_of s' a = []" "untouched a s s'" "base_ok s'"
proof -
  obtain st where i: "intents_of s a = [i\<lparr>di_state := st\<rparr>]" using assms(3) by (auto simp: pending_def)
  then have "i\<lparr>di_state := st\<rparr> \<in> set (st_intents s)" "di_artifact_id i = a"
    by (auto simp: intents_of_def filter_eq_Cons_iff)
  with assms(2) have "intent_owner (di_id i) = a" by (auto simp: base_ok_def intent_ok_def)
  then show "intents_of s' a = []" "untouched a s s'" "base_ok s'"
    using intents_closed [OF assms(1,2), of a] closed_untouched [OF assms(1,2)] closed_base [OF assms(1,2)] i by auto
qed

end
