(* ===== verification/Crash_Sites.thy ===== *)
theory Crash_Sites
  imports Crash_Tables
begin

text \<open>
  An artifact in the middle of an operation. \<open>site\<close> and \<open>vacant\<close> describe the store while one
  intent is open; opening and closing an intent and loading a visible artifact move into and out
  of them.
\<close>

section \<open>Sites: one artifact in the middle of an operation\<close>

definition site :: "StoreContext \<Rightarrow> ArtifactMeta \<Rightarrow> DurabilityIntent \<Rightarrow> store \<Rightarrow> bool" where
  "site c m i s \<longleftrightarrow> focus c (am_id m) s \<and> rows_of s (am_id m) = [m] \<and> pending (am_id m) i s \<and> meta_ok s m"

definition vacant :: "StoreContext \<Rightarrow> string \<Rightarrow> DurabilityIntent \<Rightarrow> store \<Rightarrow> bool" where
  "vacant c a i s \<longleftrightarrow> focus c a s \<and> rows_of s a = [] \<and> pending a i s"

lemma vacant_crash_ok: "vacant c a i s \<Longrightarrow> crash_ok c s"
  by (auto simp: vacant_def art_ok_def pending_def focus_def crash_ok_focus [of a])

lemma site_crash_ok: "site c m i s \<Longrightarrow> pending_ok c s m i \<Longrightarrow> crash_ok c s"
  by (auto simp: site_def art_ok_def pending_def focus_def crash_ok_focus [of "am_id m"])

lemma rest_crash_ok:
  "focus c (am_id m) s \<Longrightarrow> rows_of s (am_id m) = [m] \<Longrightarrow> intents_of s (am_id m) = [] \<Longrightarrow> meta_ok s m \<Longrightarrow>
   at_rest c s m \<Longrightarrow> crash_ok c s"
  by (auto simp: art_ok_def focus_def crash_ok_focus [of "am_id m"])

lemma empty_crash_ok:
  "focus c a s \<Longrightarrow> rows_of s a = [] \<Longrightarrow> intents_of s a = [] \<Longrightarrow> crash_ok c s"
  by (auto simp: art_ok_def focus_def crash_ok_focus [of a])

lemma fs_within_views:
  assumes "fs_within L s s'"
  shows "rows_of s' a = rows_of s a" "revs_of s' a = revs_of s a" "intents_of s' a = intents_of s a"
    "pending a i s' = pending a i s" "meta_ok s' m = meta_ok s m" "l \<notin> L \<Longrightarrow> node (st_fs s') l = node (st_fs s) l"
    "base_ok s \<Longrightarrow> base_ok s'"
  using assms by (auto simp: fs_within_def rows_of_def revs_of_def intents_of_def pending_def meta_ok_def base_ok_def)

lemma fs_within_untouched:
  assumes "fs_within L s s'" and "\<And>l. l \<in> L \<Longrightarrow> owned a l" and "is_valid_artifact_id a"
  shows "untouched a s s'"
  unfolding untouched_def same_view_def
  using fs_within_views [OF assms(1)] assms(2,3) owned_unique by metis

lemma fs_within_focus:
  "fs_within L s s' \<Longrightarrow> (\<And>l. l \<in> L \<Longrightarrow> owned a l) \<Longrightarrow> focus c a s \<Longrightarrow> focus c a s'"
  using focus_step fs_within_untouched fs_within_views(7) unfolding focus_def by metis

lemma fs_within_vacant:
  "fs_within L s s' \<Longrightarrow> (\<And>l. l \<in> L \<Longrightarrow> owned a l) \<Longrightarrow> vacant c a i s \<Longrightarrow> vacant c a i s'"
  using fs_within_focus by (simp add: vacant_def fs_within_views)

lemma fs_within_site:
  "fs_within L s s' \<Longrightarrow> (\<And>l. l \<in> L \<Longrightarrow> owned (am_id m) l) \<Longrightarrow> site c m i s \<Longrightarrow> site c m i s'"
  using fs_within_focus by (simp add: site_def fs_within_views)

lemma focus_trees: "focus c a s \<Longrightarrow> trees_ok (st_fs s)"
  by (simp add: focus_def base_ok_def)

lemma site_trees: "site c m i s \<Longrightarrow> trees_ok (st_fs s)" and vacant_trees: "vacant c a i s \<Longrightarrow> trees_ok (st_fs s)"
  by (auto simp: site_def vacant_def dest: focus_trees)

text \<open>Steps that leave the three tables of the focus alone.\<close>

lemma site_step:
  assumes "site c m i s" and "untouched (am_id m) s s'" and "base_ok s'" and "rows_of s' (am_id m) = rows_of s (am_id m)"
    and "revs_of s' (am_id m) = revs_of s (am_id m)" and "pending (am_id m) i s'"
  shows "site c m i s'"
  using assms focus_step unfolding site_def meta_ok_def by metis

text \<open>What depends only on the history directory and the revision rows.\<close>

definition same_past :: "string \<Rightarrow> store \<Rightarrow> store \<Rightarrow> bool" where
  "same_past a s s' \<longleftrightarrow> revs_of s' a = revs_of s a \<and>
     (\<forall>n b. node (st_fs s') (history_loc a n b) = node (st_fs s) (history_loc a n b))"

lemma same_past_fs:
  "fs_within L s s' \<Longrightarrow> (\<And>n b. history_loc a n b \<notin> L) \<Longrightarrow> same_past a s s'"
  by (simp add: same_past_def fs_within_views)

lemma past_same:
  assumes "same_past a s s'"
  shows "past_ok c s' a n = past_ok c s a n" "slot_ok c s' a b n d = slot_ok c s a b n d"
    "no_future s' a b n = no_future s a b n" "revision_digest s' a n d = revision_digest s a n d"
  using assms
  by (simp_all add: past_ok_def slot_ok_def no_future_def revision_digest_def body_digest_at_path_def same_past_def)

lemma history_ok_same: "same_past (am_id m) s s' \<Longrightarrow> history_ok c s' m = history_ok c s m"
  by (simp add: history_ok_def past_same)

lemma loc_distinct [simp]:
  "live_loc a b \<noteq> Past x y" "Past x y \<noteq> live_loc a b" "history_loc d n e \<noteq> Entry z" "Entry z \<noteq> history_loc d n e"
  "live_loc a b \<noteq> history_loc d n e" "history_loc d n e \<noteq> live_loc a b"
  by (simp_all add: live_loc_def history_loc_def)

lemma live_not_transient:
  "is_valid_artifact_id a \<Longrightarrow> transient_of d name \<Longrightarrow> live_loc a b \<noteq> Entry name"
  using not_transient_of by (auto simp: live_loc_def)

section \<open>Publish\<close>

definition fresh_for :: "store \<Rightarrow> string \<Rightarrow> bool" where
  "fresh_for s x \<longleftrightarrow> \<not> list_ex (\<lambda>m. am_id m = x) (st_artifacts s) \<and> \<not> list_ex (\<lambda>r. rv_artifact_id r = x) (st_revisions s)
     \<and> \<not> list_ex (\<lambda>i. di_artifact_id i = x) (st_intents s) \<and>
     \<not> list_ex (\<lambda>l. case l of Past a _ \<Rightarrow> a = x | Entry name \<Rightarrow> ends_with name x) (map fst (fs_nodes (st_fs s)))"

definition fresh_source :: "StoreContext \<Rightarrow> store \<Rightarrow> bool" where
  "fresh_source c s \<longleftrightarrow> (\<forall>n x. sc_artifact_id c n = Inr x \<longrightarrow> fresh_for s x)"

lemma node_None_fresh: "l \<notin> set (map fst (fs_nodes fs)) \<Longrightarrow> node fs l = None"
  by (simp add: node_def map_of_eq_None_iff)

lemma fresh_forD:
  assumes "fresh_for s x"
  shows "rows_of s x = []" "revs_of s x = []" "intents_of s x = []" "node (st_fs s) (Past x name) = None"
    "node (st_fs s) (Entry (transient_name a kind x)) = None"
proof -
  show "rows_of s x = []" "revs_of s x = []" "intents_of s x = []"
    using assms by (auto simp: fresh_for_def rows_of_def revs_of_def intents_of_def filter_empty_conv list_ex_iff)
  show "node (st_fs s) (Past x name) = None"
    by (rule node_None_fresh) (use assms in \<open>force simp: fresh_for_def list_ex_iff\<close>)
  have "ends_with (transient_name a kind x) x"
    unfolding ends_with_iff transient_name_def by (metis append.assoc)
  then show "node (st_fs s) (Entry (transient_name a kind x)) = None"
    by (intro node_None_fresh) (use assms in \<open>force simp: fresh_for_def list_ex_iff\<close>)
qed

text \<open>The contents of a request name every file once.\<close>

definition distinct_content :: "ArtifactContent \<Rightarrow> bool" where
  "distinct_content content = (case content of SingleHtml _ \<Rightarrow> True
     | Bundle files _ \<Rightarrow> distinct (map (sanitize_relative_path \<circ> fst) files))"

lemma validated_bundle:
  assumes "validate_bundle files entry prefer limits = Inr v"
    and "distinct (map (sanitize_relative_path \<circ> fst) files)"
  shows "distinct (map fst (vbun_files v)) \<and> (\<forall>f \<in> set (vbun_files v). canonical_key (fst f))"
proof -
  obtain t where "clean_files 0 [] files = Inr (t, vbun_files v)"
    using assms(1) by (auto simp: validate_bundle_def try_bind_Inr_iff split: if_splits prod.splits)
  from clean_files_Inr [OF this] have all: "list_all2 (\<lambda>f g. sanitize_relative_path (fst f) = Some (fst g)) files (vbun_files v)"
    by (auto simp: u64_max_def)
  then have "map (sanitize_relative_path \<circ> fst) files = map Some (map fst (vbun_files v))"
    by (induction rule: list_all2_induct) auto
  then have "distinct (map Some (map fst (vbun_files v)))" using assms(2) by simp
  then have "distinct (map fst (vbun_files v))" unfolding distinct_map by blast
  moreover have "\<forall>f \<in> set (vbun_files v). canonical_key (fst f)"
    using all by (induction rule: list_all2_induct) (auto intro: sanitize_canonical)
  ultimately show ?thesis ..
qed

definition prepared_body :: "PreparedPublish \<Rightarrow> body" where
  "prepared_body p = (case pp_single p of Some html \<Rightarrow> File html
     | None \<Rightarrow> (case pp_bundle p of Some v \<Rightarrow> Tree (vbun_files v) | None \<Rightarrow> Tree []))"

lemma prepare_publish_body:
  assumes "prepare_publish c content = Inr p"
  shows "body_digest c (Some (prepared_body p)) (pp_is_bundle p) = Some (pp_body_sha256 p)"
  using assms
  by (cases content) (auto simp: prepare_publish_def result_simps prepared_body_def body_digest_def
      validate_single_body_def Let_def split: if_splits)

lemma stage_publish_cases:
  assumes "prepare_publish c content = Inr p" and "distinct_content content"
  obtains html where "pp_single p = Some html"
  | v where "pp_single p = None" "pp_bundle p = Some v" "distinct (map fst (vbun_files v))"
    "\<forall>f \<in> set (vbun_files v). canonical_key (fst f)"
proof (cases content)
  case (SingleHtml html)
  then show ?thesis using assms(1) that(1) by (auto simp: prepare_publish_def result_simps)
next
  case (Bundle files entry)
  then show ?thesis using assms that(2) validated_bundle
    by (fastforce simp: prepare_publish_def result_simps distinct_content_def)
qed

lemma stage_publish_confined:
  assumes "rooted_store c" and "prepare_publish c content = Inr p" and "distinct_content content"
  shows "confined {Entry staging} (stage_publish_body c staging p)"
  by (rule stage_publish_cases [OF assms(2,3)])
    (auto simp: stage_publish_body_def intro!: confined_intro confined_stage_bundle assms(1))

lemma stage_publish_holds:
  assumes "rooted_store c" and "prepare_publish c content = Inr p" and "distinct_content content"
  shows "triple (\<lambda>_. True) (\<lambda>s. node (st_fs s) (Entry staging) = None) (stage_publish_body c staging p)
    (\<lambda>_. holds (Entry staging) (prepared_body p)) (\<lambda>_ _. True)"
  unfolding stage_publish_body_def
proof (rule triple_bind [OF triple_fault])
  show "triple (\<lambda>_. True) (\<lambda>s. node (st_fs s) (Entry staging) = None)
     (case pp_single p of
       Some html \<Rightarrow> op_interrupt (stage_single_body c (Entry staging) html PublishStageFileSync PublishStageDirectorySync)
     | None \<Rightarrow>
         (case pp_bundle p of
            Some v \<Rightarrow> op_interrupt (stage_bundle_files c staging (vbun_files v) PublishStageFileSync PublishStageDirectorySync)
          | None \<Rightarrow> op_return ()))
     (\<lambda>_. holds (Entry staging) (prepared_body p)) (\<lambda>_ _. True)"
    by (rule stage_publish_cases [OF assms(2,3)])
      (auto simp: prepared_body_def intro!: triple_interrupt stage_bundle_holds assms(1)
        intro: triple_pre [OF stage_single_holds])
qed simp

section \<open>A body on its way\<close>

definition in_transit :: "StoreContext \<Rightarrow> DurabilityIntent \<Rightarrow> ArtifactMeta \<Rightarrow> string \<Rightarrow> store \<Rightarrow> bool" where
  "in_transit c i m name s \<longleftrightarrow> site c m i s \<and> history_ok c s m \<and> live_absent s m \<and>
     body_digest_at_path c (st_fs s) (Entry name) (am_is_bundle m) = Some (am_body_sha256 m)"

definition installed :: "StoreContext \<Rightarrow> DurabilityIntent \<Rightarrow> ArtifactMeta \<Rightarrow> store \<Rightarrow> bool" where
  "installed c i m s \<longleftrightarrow> site c m i s \<and> history_ok c s m \<and> live_is c s m (am_body_sha256 m)"

definition body_intent :: "DurabilityIntent \<Rightarrow> ArtifactMeta \<Rightarrow> bool" where
  "body_intent i m \<longleftrightarrow> di_operation i = ''publish'' \<and> di_expected_sha256 i = am_body_sha256 m \<or>
     di_operation i = ''delete'' \<and> di_prior_sha256 i = am_body_sha256 m"

definition underway :: "StoreContext \<Rightarrow> DurabilityIntent \<Rightarrow> ArtifactMeta \<Rightarrow> store \<Rightarrow> bool" where
  "underway c i m s \<longleftrightarrow> site c m i s \<and> body_pending c s m i"

lemma underway_crash_ok: "underway c i m s \<Longrightarrow> crash_ok c s"
  using site_crash_ok by (auto simp: underway_def pending_ok_def)

lemma staged_underway:
  "in_transit c i m name s \<Longrightarrow> body_intent i m \<Longrightarrow> transient_of (am_id m) name \<Longrightarrow> underway c i m s"
  by (auto simp: in_transit_def underway_def body_pending_def body_intent_def available_def staged_is_def)

lemma installed_underway: "installed c i m s \<Longrightarrow> body_intent i m \<Longrightarrow> underway c i m s"
  by (auto simp: installed_def underway_def body_pending_def body_intent_def available_def)

lemma staged_crash_ok:
  "in_transit c i m name s \<Longrightarrow> body_intent i m \<Longrightarrow> transient_of (am_id m) name \<Longrightarrow> crash_ok c s"
  by (rule underway_crash_ok [OF staged_underway])

lemma installed_crash_ok: "installed c i m s \<Longrightarrow> body_intent i m \<Longrightarrow> crash_ok c s"
  by (rule underway_crash_ok [OF installed_underway])

lemma phase_step:
  assumes "untouched (am_id m) s s'" and "base_ok s'" and "rows_of s' (am_id m) = rows_of s (am_id m)"
    and "revs_of s' (am_id m) = revs_of s (am_id m)" and "st_fs s' = st_fs s" and "pending (am_id m) i s'"
  shows "in_transit c i m name s \<Longrightarrow> in_transit c i m name s'" "installed c i m s \<Longrightarrow> installed c i m s'"
    "underway c i m s \<Longrightarrow> underway c i m s'"
proof -
  have p: "same_past (am_id m) s s'" using assms by (simp add: same_past_def)
  note st = site_step [OF _ assms(1-4) assms(6)] history_ok_same [OF p]
  show "in_transit c i m name s \<Longrightarrow> in_transit c i m name s'" "installed c i m s \<Longrightarrow> installed c i m s'"
    "underway c i m s \<Longrightarrow> underway c i m s'"
    using st assms(5)
    by (auto simp: in_transit_def installed_def underway_def body_pending_def available_def live_absent_def
        live_is_def staged_is_def)
qed

lemma install_effect:
  assumes st: "in_transit c i m name s" and t: "transient_of (am_id m) name"
    and r: "fs_rename (Entry name) (live_loc (am_id m) (am_is_bundle m)) (st_fs s) = Inr fs"
  shows "installed c i m (s\<lparr>st_fs := fs\<rparr>)"
proof -
  obtain b where b: "node (st_fs s) (Entry name) = Some b"
    "\<forall>l. node fs l = (if l = live_loc (am_id m) (am_is_bundle m) then Some b else if l = Entry name then None else node (st_fs s) l)"
    "trees_ok (st_fs s) \<longrightarrow> trees_ok fs"
    using fs_rename_effect [OF r] by blast
  have w: "fs_within {Entry name, live_loc (am_id m) (am_is_bundle m)} s (s\<lparr>st_fs := fs\<rparr>)"
    unfolding fs_within_def using b st by (auto simp: in_transit_def dest: site_trees)
  have "site c m i (s\<lparr>st_fs := fs\<rparr>)"
    by (rule fs_within_site [OF w]) (use st t in \<open>auto simp: in_transit_def\<close>)
  moreover have "history_ok c (s\<lparr>st_fs := fs\<rparr>) m"
    using history_ok_same [OF same_past_fs [OF w]] st by (simp add: in_transit_def)
  ultimately show ?thesis
    using st b by (simp add: installed_def in_transit_def live_is_def body_digest_at_path_def)
qed

lemma install_staged:
  assumes "transient_of (am_id m) name" and "body_intent i m"
  shows "triple (crash_ok c) (in_transit c i m name) (durable_rename (Entry name) (live_loc (am_id m) (am_is_bundle m)))
    (\<lambda>_. installed c i m) (\<lambda>_. in_transit c i m name)"
  unfolding durable_rename_def
  by (rule triple_on_fs) (use install_effect [OF _ assms(1)] installed_underway underway_crash_ok assms(2) in blast)+

section \<open>Closing\<close>

text \<open>An artifact that readers see: a row, no intent, and its bodies in place.\<close>

definition visible :: "StoreContext \<Rightarrow> ArtifactMeta \<Rightarrow> store \<Rightarrow> bool" where
  "visible c m s \<longleftrightarrow> focus c (am_id m) s \<and> rows_of s (am_id m) = [m] \<and> intents_of s (am_id m) = [] \<and>
     meta_ok s m \<and> at_rest c s m"

lemma visible_crash_ok: "visible c m s \<Longrightarrow> crash_ok c s"
  using rest_crash_ok by (auto simp: visible_def)

lemma visible_unique:
  assumes "visible c m s" and "visible c q s" and "am_id q = am_id m"
  shows "q = m"
proof -
  have "rows_of s (am_id m) = [m]" "rows_of s (am_id q) = [q]" using assms(1,2) unfolding visible_def by blast+
  then show ?thesis unfolding assms(3) by (metis list.inject)
qed

lemma closed_visible:
  assumes "closed (di_id i) s s'" and "site c m i s" and "at_rest c s m"
  shows "visible c m s'"
proof -
  have b: "base_ok s" "pending (am_id m) i s" using assms(2) by (auto simp: site_def focus_def)
  note cl = closed_pending [OF assms(1) b] closed_views [OF assms(1)]
  have p: "same_past (am_id m) s s'" using cl by (simp add: same_past_def)
  have "focus c (am_id m) s'" using focus_step cl assms(2) unfolding site_def by blast
  moreover have "rows_of s' (am_id m) = [m]" "intents_of s' (am_id m) = []" "meta_ok s' m"
    using cl assms(2) by (auto simp: site_def meta_ok_def)
  moreover have "at_rest c s' m"
    using assms(3) history_ok_same [OF p] cl by (simp add: at_rest_def live_is_def)
  ultimately show ?thesis by (simp add: visible_def)
qed

lemma closed_rest: "closed (di_id i) s s' \<Longrightarrow> site c m i s \<Longrightarrow> at_rest c s m \<Longrightarrow> crash_ok c s'"
  by (rule visible_crash_ok [OF closed_visible])

text \<open>Nothing is left of the artifact in the tables.\<close>

definition cleared :: "StoreContext \<Rightarrow> string \<Rightarrow> store \<Rightarrow> bool" where
  "cleared c a s \<longleftrightarrow> focus c a s \<and> rows_of s a = [] \<and> intents_of s a = []"

lemma cleared_crash_ok: "cleared c a s \<Longrightarrow> crash_ok c s"
  by (auto simp: cleared_def intro: empty_crash_ok)

lemma closed_cleared:
  assumes "closed (di_id i) s s'" and "vacant c a i s"
  shows "cleared c a s'"
proof -
  have b: "base_ok s" "pending a i s" using assms(2) by (auto simp: vacant_def focus_def)
  note cl = closed_pending [OF assms(1) b] closed_views [OF assms(1)]
  show ?thesis using focus_step cl assms(2) by (auto simp: vacant_def cleared_def)
qed

lemma closed_vacant: "closed (di_id i) s s' \<Longrightarrow> vacant c a i s \<Longrightarrow> crash_ok c s'"
  by (rule cleared_crash_ok [OF closed_cleared])

lemma triple_closing:
  assumes "\<And>s x s'. f s = Inr (x, s') \<Longrightarrow> closed intent s s'"
    and "\<And>s s'. P s \<Longrightarrow> closed intent s s' \<Longrightarrow> crash_ok c s'"
  shows "triple (crash_ok c) P (step f) (\<lambda>_. crash_ok c) (\<lambda>_. P)"
  by (rule triple_step) (use assms in blast)+

lemma triple_draw_event:
  "(\<And>event_id n. triple C P (f (event_id, n)) Q (\<lambda>_. P)) \<Longrightarrow> triple C P (op_bind (draw_event c) f) Q (\<lambda>_. P)"
  unfolding draw_event_def
  by (rule triple_bind [OF triple_draw [where Q = "\<lambda>_. P"]]) (auto split: prod.splits)

lemma finalize_closed:
  assumes "\<And>s s'. P s \<Longrightarrow> closed intent s s' \<Longrightarrow> Q s'" and "\<And>s. Q s \<Longrightarrow> crash_ok c s"
  shows "triple (crash_ok c) P (finalize_audit_and_intent c audit intent operation target revision) (\<lambda>_. Q) (\<lambda>_. P)"
  unfolding finalize_audit_and_intent_def
  by (rule triple_draw_event, simp only: prod.case, rule triple_step)
    (use assms in \<open>auto simp: result_simps closed_ledger dest!: finalize_durability_closed\<close>)

lemma cancel_closed:
  assumes "\<And>s s'. P s \<Longrightarrow> closed intent s s' \<Longrightarrow> crash_ok c s'"
  shows "triple (crash_ok c) P (cancel_compensated_audit_intent c audit intent operation target revision)
    (\<lambda>_. crash_ok c) (\<lambda>_. P)"
  unfolding cancel_compensated_audit_intent_def
  by (rule triple_draw_event, simp only: prod.case, rule triple_closing [OF _ assms])
    (auto simp: result_simps closed_ledger dest!: compensate_durability_closed)

lemma advance_keeps:
  assumes "\<And>s. P s \<Longrightarrow> base_ok s \<and> pending a i s" and "intent_owner intent = a" and "is_valid_artifact_id a"
    and "\<And>s s'. P s \<Longrightarrow> untouched a s s' \<Longrightarrow> base_ok s' \<Longrightarrow> rows_of s' a = rows_of s a \<Longrightarrow>
      revs_of s' a = revs_of s a \<Longrightarrow> st_fs s' = st_fs s \<Longrightarrow> pending a i s' \<Longrightarrow> P s'"
    and "\<And>s. P s \<Longrightarrow> C s"
  shows "triple C P (step (advance_durability_intent intent state)) (\<lambda>_. P) (\<lambda>_. P)"
proof (rule triple_step)
  fix s x s' assume p: "P s" and a: "advance_durability_intent intent state s = Inr (x, s')"
  have b: "base_ok s" "pending a i s" using assms(1) [OF p] by auto
  note eff = advance_intent_pending [OF a b(1) assms(2,3)]
  have "P s'" by (rule assms(4) [OF p eff(1,2) eff(3,4,5) eff(6) [OF b(2)]])
  then show "C s' \<and> P s'" using assms(5) by blast
qed

lemma site_pending: "site c m i s \<Longrightarrow> base_ok s \<and> pending (am_id m) i s \<and> is_valid_artifact_id (am_id m)"
  by (auto simp: site_def focus_def)

lemma advance_phase:
  assumes "intent_owner intent = am_id m" and "is_valid_artifact_id (am_id m)" and "body_intent i m"
  shows advance_staged: "transient_of (am_id m) name \<Longrightarrow>
      triple (crash_ok c) (in_transit c i m name) (step (advance_durability_intent intent state)) (\<lambda>_. in_transit c i m name) (\<lambda>_. in_transit c i m name)"
    and advance_installed:
      "triple (crash_ok c) (installed c i m) (step (advance_durability_intent intent state)) (\<lambda>_. installed c i m) (\<lambda>_. installed c i m)"
proof -
  have u: "underway c i m s \<Longrightarrow> crash_ok c s" for s by (rule underway_crash_ok)
  show "triple (crash_ok c) (in_transit c i m name) (step (advance_durability_intent intent state)) (\<lambda>_. in_transit c i m name) (\<lambda>_. in_transit c i m name)"
    if t: "transient_of (am_id m) name"
    by (rule advance_keeps [OF _ assms(1,2) phase_step(1) u])
      (use staged_underway [OF _ assms(3) t] site_pending in \<open>(simp only: in_transit_def, blast)+\<close>)
  show "triple (crash_ok c) (installed c i m) (step (advance_durability_intent intent state)) (\<lambda>_. installed c i m) (\<lambda>_. installed c i m)"
    by (rule advance_keeps [OF _ assms(1,2) phase_step(2) u])
      (use installed_underway [OF _ assms(3)] site_pending in \<open>(simp only: installed_def, blast)+\<close>)
qed

lemma installed_closed: "installed c i m s \<Longrightarrow> closed (di_id i) s s' \<Longrightarrow> visible c m s'"
  by (erule closed_visible [of i s s' c m]) (auto simp: installed_def at_rest_def)

lemma rename_installs:
  assumes "transient_of (am_id m) name" and "body_intent i m"
  shows "triple (crash_ok c) (in_transit c i m name)
    (rename_with_barrier c (Entry name) (live_loc (am_id m) (am_is_bundle m)) point)
    (\<lambda>_. installed c i m) (\<lambda>_. underway c i m)"
  unfolding rename_with_barrier_def
  by (rule triple_bind [OF triple_post [OF install_staged [OF assms]] triple_bare_fault])
    (use assms in \<open>auto intro: staged_underway installed_underway\<close>)

lemma delete_artifact_vacant:
  assumes "focus c a s" and "pending a i s"
  shows "vacant c a i (delete_artifact a s)"
proof -
  let ?s = "delete_artifact a s"
  have "filter (\<lambda>x. am_id x \<noteq> a \<and> am_id x = b) (st_artifacts s) = filter (\<lambda>x. am_id x = b) (st_artifacts s)"
    "filter (\<lambda>x. rv_artifact_id x \<noteq> a \<and> rv_artifact_id x = b) (st_revisions s) = filter (\<lambda>x. rv_artifact_id x = b) (st_revisions s)"
    if "b \<noteq> a" for b using that by (auto intro: filter_cong)
  then have "untouched a s ?s"
    by (auto simp: untouched_def same_view_def delete_artifact_def rows_of_def revs_of_def intents_of_def sql_delete_def conj_commute)
  moreover have "base_ok ?s" using assms(1) by (auto simp: focus_def base_ok_def delete_artifact_def sql_delete_def)
  ultimately have "focus c a ?s" using focus_step [OF assms(1)] by blast
  then show ?thesis using assms(2)
    by (simp add: vacant_def pending_def delete_artifact_def rows_of_def intents_of_def sql_delete_def filter_empty_conv)
qed

lemma vacant_remove:
  assumes "owned a l"
  shows "triple (crash_ok c) (vacant c a i) (safe_remove l) (\<lambda>_. vacant c a i) (\<lambda>_. vacant c a i)"
proof (rule triple_confined [where L = "{l}"])
  show "confined {l} (safe_remove l)" by (intro confined_intro) simp
  show "vacant c a i s'" if "vacant c a i s" "fs_within {l} s s'" for s s'
    by (rule fs_within_vacant [OF that(2) _ that(1)]) (use assms in simp)
qed (use vacant_crash_ok vacant_trees in blast)+

lemma transient_entry_fresh:
  assumes "is_valid_artifact_id a" and "\<And>s. P s \<Longrightarrow> fresh_source c s" and "\<And>e s. P s \<Longrightarrow> E e s"
  shows "triple C P (transient_entry c a kind)
    (\<lambda>name s. P s \<and> transient_of a name \<and> node (st_fs s) (Entry name) = None) E"
  unfolding transient_entry_def
proof (rule triple_draw)
  fix n s x assume p: "P s" and d: "try_bind (sc_artifact_id c n) (\<lambda>token.
       case SafeArtifactId_parse token of None \<Rightarrow> Inl Internal | Some token \<Rightarrow> Inr (transient_name a kind token)) = Inr x"
  then obtain token where t: "sc_artifact_id c n = Inr token" "x = transient_name a kind token"
    by (auto simp: result_simps SafeArtifactId_parse_def split: option.splits if_splits)
  then have "fresh_for s token" using assms(2) [OF p] by (auto simp: fresh_source_def)
  then show "P s \<and> transient_of a x \<and> node (st_fs s) (Entry x) = None"
    using p t transient_name_parts [OF assms(1)] fresh_forD(5) by (auto simp: transient_of_def)
qed (use assms(3) in auto)

section \<open>Visible artifacts\<close>

lemma load_meta_visible:
  assumes "crash_ok c s" and "load_meta s a = Inr (Some m)"
  shows "am_id m = a \<and> visible c m s"
proof -
  have p: "intents_of s a = []" and f: "List.find (\<lambda>m. am_id m = a) (st_artifacts s) = Some m"
    using assms(2)
    by (auto simp: load_meta_def durability_pending_def load_meta_unchecked_def result_simps meta_from_row_def
        intents_of_def filter_empty_conv list_ex_iff split: if_splits option.splits)
  have m: "am_id m = a" "m \<in> set (rows_of s a)" "m \<in> set (st_artifacts s)"
    using f by (auto simp: rows_of_def find_Some_iff)
  have v: "is_valid_artifact_id a" using assms(1) m by (auto simp: crash_ok_def base_ok_def)
  then have "art_ok c s a" and fo: "focus c a s" using assms(1) crash_ok_focus by blast+
  then have "rows_of s a = [m]" "meta_ok s m" "at_rest c s m"
    using m p by (auto simp: art_ok_def length_Suc_conv le_Suc_eq split: if_splits)
  then show ?thesis using m p fo by (simp add: visible_def)
qed

lemma triple_load_visible:
  assumes "triple C (\<lambda>s. crash_ok c s \<and> R s) none Q E"
    and "\<And>m. am_id m = a \<Longrightarrow> triple C (\<lambda>s. visible c m s \<and> R s) (f m) Q E" and "\<And>e s. crash_ok c s \<Longrightarrow> E e s"
  shows "triple C (\<lambda>s. crash_ok c s \<and> R s)
    (op_bind (query (\<lambda>s. load_meta s a)) (\<lambda>found. case found of None \<Rightarrow> none | Some m \<Rightarrow> f m)) Q E"
proof (rule triple_bind [OF triple_query])
  let ?F = "\<lambda>found s. (crash_ok c s \<and> R s) \<and> (\<forall>m. found = Some m \<longrightarrow> am_id m = a \<and> visible c m s)"
  show "?F found s" if "crash_ok c s \<and> R s" "load_meta s a = Inr found" for s found
    using that load_meta_visible by blast
  show "triple C (?F found) (case found of None \<Rightarrow> none | Some m \<Rightarrow> f m) Q E" for found
  proof (cases found)
    case None
    then show ?thesis using assms(1) by simp
  next
    case (Some m)
    show ?thesis unfolding Some option.case
      by (rule triple_fact [where R = "am_id m = a"], blast, rule triple_pre [OF assms(2)]) auto
  qed
qed (use assms(3) in blast)

end
