(* ===== verification/Crash_Publish.thy ===== *)
theory Crash_Publish
  imports Crash_Sites
begin

text \<open>
  The publication of an artifact (src/src/artifacts/lifecycle/publish.rs) keeps the invariant at
  every step, and on success leaves the visible artifact it was asked for.
\<close>

section \<open>Publish\<close>

definition publish_record :: "string \<Rightarrow> string \<Rightarrow> string \<Rightarrow> DurabilityIntent" where
  "publish_record a d staging =
     \<lparr> di_id = publish_intent a, di_artifact_id = a, di_operation = ''publish'', di_state = ''prepared'',
       di_expected_sha256 = d, di_prior_sha256 = [], di_staging_path = staging \<rparr>"

text \<open>Nothing of the artifact is on disk but its staging body.\<close>

definition pristine :: "string \<Rightarrow> store \<Rightarrow> bool" where
  "pristine a s \<longleftrightarrow> revs_of s a = [] \<and> (\<forall>name. node (st_fs s) (Past a name) = None) \<and>
     (\<forall>b. node (st_fs s) (live_loc a b) = None)"

lemma pristine_within:
  "fs_within {Entry name} s s' \<Longrightarrow> transient_of a name \<Longrightarrow> is_valid_artifact_id a \<Longrightarrow> pristine a s \<Longrightarrow> pristine a s'"
  by (auto simp: pristine_def fs_within_views live_not_transient)

lemma publish_transaction_effect:
  assumes "publish_transaction c n request audit a prepared s = Inr (m, s')" and "rows_of s a = []"
  shows "am_id m = a" "am_is_bundle m = pp_is_bundle prepared" "am_body_sha256 m = pp_body_sha256 prepared"
    "am_revision m = 1" "\<exists>client. st_revisions s' = sql_delete (same_revision (revision_row m client (sc_datetime c n))) (st_revisions s)
        @ [revision_row m client (sc_datetime c n)]"
    "st_artifacts s' = st_artifacts s @ [m]" "st_intents s' = st_intents s" "st_fs s' = st_fs s" "0 \<le> am_bytes m"
proof -
  let ?m = "new_meta a request prepared (key_owner s (pa_publisher request)) (sc_datetime c n)"
  obtain s1 s2 s3 where s1: "insert_artifact ?m s = Inr s1"
    and m: "load_meta_unchecked s1 a = Inr (Some m)"
    and s2: "record_revision_row m (Some (pi_client_id (pa_publisher request))) (sc_datetime c n) s1 = Inr s2"
    and s3: "reserve_audit c audit (publish_intent a) ''artifact.publish'' a (Some 1) s2 = Inr s3"
    and s4: "fanout_delivery c n m EvPublished (publish_intent a) s3 = Inr s'"
    using assms(1) by (auto simp: publish_transaction_def Let_def result_simps split: option.splits)
  have i: "s1 = s\<lparr>st_artifacts := st_artifacts s @ [?m]\<rparr>"
    using s1 by (auto simp: insert_artifact_def result_simps split: if_splits)
  have none: "List.find (\<lambda>m. am_id m = a) (st_artifacts s) = None"
    using assms(2) by (auto simp: rows_of_def find_None_iff filter_empty_conv)
  have m': "m = ?m"
    using m none unfolding i
    by (auto simp: load_meta_unchecked_def find_append meta_from_row_def new_meta_def result_simps split: if_splits)
  show "0 \<le> am_bytes m"
    using m by (auto simp: load_meta_unchecked_def meta_from_row_def result_simps split: option.splits if_splits)
  show "am_id m = a" "am_is_bundle m = pp_is_bundle prepared" "am_body_sha256 m = pp_body_sha256 prepared" "am_revision m = 1"
    by (simp_all add: m' new_meta_def)
  have "core s' = core s2" using reserve_audit_core [OF s3] fanout_delivery_core [OF s4] by simp
  moreover have "s2 = s1\<lparr>st_revisions := sql_delete (same_revision (revision_row m (Some (pi_client_id (pa_publisher request)))
      (sc_datetime c n))) (st_revisions s1) @ [revision_row m (Some (pi_client_id (pa_publisher request))) (sc_datetime c n)]\<rparr>"
    using s2 by (auto simp: record_revision_row_def result_simps Let_def split: if_splits)
  ultimately show "\<exists>client. st_revisions s' = sql_delete (same_revision (revision_row m client (sc_datetime c n))) (st_revisions s)
        @ [revision_row m client (sc_datetime c n)]"
    "st_artifacts s' = st_artifacts s @ [m]" "st_intents s' = st_intents s" "st_fs s' = st_fs s"
    by (auto simp: core_def i m')
qed

lemma publish_transaction_staged:
  assumes t: "publish_transaction c n request audit a prepared s = Inr (m, s')" and v: "vacant c a i s"
    and p: "pristine a s" and d: "body_digest_at_path c (st_fs s) (Entry name) (pp_is_bundle prepared) = Some (pp_body_sha256 prepared)"
  shows "am_id m = a \<and> am_is_bundle m = pp_is_bundle prepared \<and> am_body_sha256 m = pp_body_sha256 prepared \<and> am_revision m = 1 \<and> 0 \<le> am_bytes m \<and> in_transit c i m name s'"
proof -
  have rows: "rows_of s a = []" and f: "focus c a s" using v by (auto simp: vacant_def)
  note e = publish_transaction_effect [OF t rows]
  obtain client where rv: "st_revisions s' = sql_delete (same_revision (revision_row m client (sc_datetime c n))) (st_revisions s)
        @ [revision_row m client (sc_datetime c n)]" using e(5) by blast
  let ?r = "revision_row m client (sc_datetime c n)"
  have r: "rv_artifact_id ?r = a" "rv_revision ?r = 1" "rv_is_bundle ?r = am_is_bundle m" "rv_body_sha256 ?r = am_body_sha256 m"
    by (simp_all add: revision_row_def e)
  have revs: "revs_of s' b = (if b = a then [?r] else revs_of s b)" for b
  proof (cases "b = a")
    case True
    then show ?thesis using p r(1)
      by (auto simp: revs_of_def rv pristine_def sql_delete_def filter_empty_conv)
  next
    case False
    have "filter (\<lambda>x. \<not> same_revision ?r x \<and> rv_artifact_id x = b) (st_revisions s) = filter (\<lambda>x. rv_artifact_id x = b) (st_revisions s)"
      by (rule filter_cong) (use False r(1) in \<open>auto simp: same_revision_def\<close>)
    then show ?thesis using False r(1) by (simp add: revs_of_def rv sql_delete_def conj_commute)
  qed
  have rows': "rows_of s' b = (if b = a then [m] else rows_of s b)" for b
    using rows e by (auto simp: rows_of_def)
  have ints: "intents_of s' b = intents_of s b" for b using e by (simp add: intents_of_def)
  have u: "untouched a s s'" by (simp add: untouched_def same_view_def revs rows' ints e)
  have b: "base_ok s'" using f e by (auto simp: base_ok_def focus_def)
  have "site c m i s'"
    unfolding site_def using focus_step [OF f u b] v rows' ints e r revs
    by (auto simp: vacant_def pending_def meta_ok_def i64_max_def)
  moreover have "history_ok c s' m"
    using p by (simp add: history_ok_def past_ok_def slot_ok_def no_future_def revision_digest_def
        revs r e pristine_def history_loc_def)
  moreover have "live_absent s' m" using p by (simp add: live_absent_def pristine_def e)
  ultimately show ?thesis using d e by (simp add: in_transit_def)
qed

definition published :: "StoreContext \<Rightarrow> string \<Rightarrow> PreparedPublish \<Rightarrow> ArtifactMeta \<Rightarrow> store \<Rightarrow> bool" where
  "published c a p m s \<longleftrightarrow> am_id m = a \<and> am_is_bundle m = pp_is_bundle p \<and> am_body_sha256 m = pp_body_sha256 p \<and>
     am_revision m = 1 \<and> 0 \<le> am_bytes m \<and> visible c m s"

definition publish_failed :: "StoreContext \<Rightarrow> string \<Rightarrow> DurabilityIntent \<Rightarrow> Interrupt \<times> PublishState \<Rightarrow> store \<Rightarrow> bool" where
  "publish_failed c a i e s \<longleftrightarrow>
     (if ps_inserted (snd e) then \<exists>m. am_id m = a \<and> underway c i m s else vacant c a i s)"

lemma finish_publish_body_safe:
  assumes "transient_of (am_id m) name" and "body_intent i m" and "di_id i = publish_intent (am_id m)"
    and "is_valid_artifact_id (am_id m)"
  shows "triple (crash_ok c) (in_transit c i m name) (finish_publish_body c audit (am_id m) name (am_is_bundle m))
    (\<lambda>_. visible c m) (publish_failed c (am_id m) i)"
proof -
  have u: "publish_failed c (am_id m) i (e, st) s" if "ps_inserted st" "underway c i m s" for e st s
    using that by (auto simp: publish_failed_def)
  have us: "underway c i m s" if "in_transit c i m name s \<or> installed c i m s" for s
    using that staged_underway [OF _ assms(2,1)] installed_underway [OF _ assms(2)] by blast
  have own: "intent_owner (publish_intent (am_id m)) = am_id m" by (rule intent_owner_simps(1) [OF assms(4)])
  have 1: "triple (crash_ok c) (in_transit c i m name) (op_tag st (fault (sc_faults c) PublishRename))
      (\<lambda>_. in_transit c i m name) (publish_failed c (am_id m) i)" if "ps_inserted st" for st
    by (intro triple_tag triple_fault u us that) simp
  have 2: "triple (crash_ok c) (in_transit c i m name)
       (op_catch (rename_with_barrier c (Entry name) (live_loc (am_id m) (am_is_bundle m)) PublishRenameBarrier)
         (\<lambda>e. op_bind (ask (\<lambda>s. path_exists (st_fs s) (live_loc (am_id m) (am_is_bundle m)) \<and>
                                  \<not> path_exists (st_fs s) (Entry name))) (\<lambda>moved.
              if moved
              then op_raise (\<lparr> error = e, compensate = False \<rparr>, \<lparr> ps_inserted = True, ps_final_durable = True \<rparr>)
              else op_raise (Interrupt_from_error e, \<lparr> ps_inserted = True, ps_final_durable = False \<rparr>))))
       (\<lambda>_. installed c i m) (publish_failed c (am_id m) i)"
    by (intro triple_catch [OF rename_installs [OF assms(1,2)]] triple_bind_ask triple_if triple_raise u) auto
  have 3: "triple (crash_ok c) (installed c i m)
       (op_interrupt (step (advance_durability_intent (publish_intent (am_id m)) ''body_durable''))) (\<lambda>_. installed c i m)
       (\<lambda>e. publish_failed c (am_id m) i (e, st))" if "ps_inserted st" for st
    by (rule triple_interrupt [OF triple_post [OF advance_installed [OF own assms(4,2)]]])
      (use u [OF that] us in blast)+
  have 4: "triple (crash_ok c) (installed c i m) (fault (sc_faults c) PublishComplete) (\<lambda>_. installed c i m)
       (\<lambda>e. publish_failed c (am_id m) i (e, st))" if "ps_inserted st" for st
    by (rule triple_fault) (use u [OF that] us in blast)
  have 5: "triple (crash_ok c) (installed c i m)
       (op_interrupt (finalize_audit_and_intent c audit (publish_intent (am_id m)) ''artifact.publish'' (am_id m) (Some 1)))
       (\<lambda>_. visible c m) (\<lambda>e. publish_failed c (am_id m) i (e, st))" if "ps_inserted st" for st
  proof (rule triple_interrupt [OF triple_post [OF finalize_closed [where P = "installed c i m" and Q = "visible c m"]]])
    show "\<And>s s'. installed c i m s \<Longrightarrow> closed (publish_intent (am_id m)) s s' \<Longrightarrow> visible c m s'"
      using installed_closed assms(3) by metis
  qed (use u [OF that] us visible_crash_ok in blast)+
  show ?thesis
    unfolding finish_publish_body_def
    by (rule triple_bind [OF 1 triple_bind [OF 2 triple_tag [OF triple_bind [OF 3 triple_bind [OF 4 5]]]]]) simp_all
qed

lemma publish_attempt_safe:
  assumes "rooted_store c" and "prepare_publish c content = Inr p" and "distinct_content content"
    and "transient_of a name" and "is_valid_artifact_id a"
  defines "i \<equiv> publish_record a (pp_body_sha256 p) name"
  shows "triple (crash_ok c) (\<lambda>s. vacant c a i s \<and> pristine a s \<and> node (st_fs s) (Entry name) = None)
    (publish_attempt c request audit a name p) (published c a p) (publish_failed c a i)"
proof -
  let ?st0 = "\<lparr> ps_inserted = False, ps_final_durable = False \<rparr>"
  let ?body = "\<lambda>s. vacant c a i s \<and> pristine a s \<and> holds (Entry name) (prepared_body p) s"
  let ?meta = "\<lambda>m s. am_id m = a \<and> am_is_bundle m = pp_is_bundle p \<and> am_body_sha256 m = pp_body_sha256 p \<and> am_revision m = 1 \<and> 0 \<le> am_bytes m \<and> in_transit c i m name s"
  have v: "publish_failed c a i (e, ?st0) s" if "vacant c a i s" for e s using that by (simp add: publish_failed_def)
  have own: "intent_owner (publish_intent a) = a" by (rule intent_owner_simps(1) [OF assms(5)])
  have owned: "l \<in> {Entry name} \<Longrightarrow> owned a l" for l using assms(4) by simp
  have keep: "triple (crash_ok c) (\<lambda>s. vacant c a i s \<and> pristine a s) (stage_publish_body c name p)
      (\<lambda>_ s. vacant c a i s \<and> pristine a s) (\<lambda>_ s. vacant c a i s \<and> pristine a s)"
  proof (rule triple_confined [OF stage_publish_confined [OF assms(1-3)]])
    show "vacant c a i s' \<and> pristine a s'" if "vacant c a i s \<and> pristine a s" "fs_within {Entry name} s s'" for s s'
      using that fs_within_vacant [OF that(2) owned] pristine_within [OF that(2) assms(4,5)] by blast
  qed (use vacant_crash_ok vacant_trees in blast)+
  have 1: "triple (crash_ok c) (\<lambda>s. vacant c a i s \<and> pristine a s \<and> node (st_fs s) (Entry name) = None)
      (stage_publish_body c name p) (\<lambda>_. ?body) (\<lambda>e. publish_failed c a i (e, ?st0))"
    by (rule triple_conseq [OF triple_crash [OF triple_conj [OF keep stage_publish_holds [OF assms(1-3)]]]])
      (auto intro: v)
  have 2: "triple (crash_ok c) ?body (fault (sc_faults c) PublishInsert) (\<lambda>_. ?body) (\<lambda>e. publish_failed c a i (e, ?st0))"
    by (rule triple_fault) (auto intro: v)
  have 3: "triple (crash_ok c) ?body (draw Inr) (\<lambda>_. ?body) (\<lambda>e. publish_failed c a i (e, ?st0))"
    by (rule triple_draw) auto
  have meta_i: "body_intent i m" "di_id i = publish_intent a" if "am_body_sha256 m = pp_body_sha256 p" for m
    using that by (simp_all add: body_intent_def i_def publish_record_def)
  have 4: "triple (crash_ok c) ?body (op_interrupt (step (publish_transaction c n request audit a p))) ?meta
      (\<lambda>e. publish_failed c a i (e, ?st0))" for n
  proof (intro triple_interrupt triple_step)
    fix s m s' assume b: "?body s" and t: "publish_transaction c n request audit a p s = Inr (m, s')"
    have d: "body_digest_at_path c (st_fs s) (Entry name) (pp_is_bundle p) = Some (pp_body_sha256 p)"
      using b prepare_publish_body [OF assms(2)] by (simp add: holds_def body_digest_at_path_def)
    have m: "?meta m s'" by (rule publish_transaction_staged [OF t _ _ d]) (use b in auto)
    have "transient_of (am_id m) name" using m assms(4) by simp
    then have "underway c i m s'" using m staged_underway meta_i(1) by blast
    then show "crash_ok c s' \<and> ?meta m s'" using m underway_crash_ok by blast
  qed (auto intro: v)
  have 5: "triple (crash_ok c) (?meta m)
     (op_bind (op_tag \<lparr> ps_inserted = True, ps_final_durable = False \<rparr>
       (op_interrupt (step (advance_durability_intent (publish_intent a) ''metadata_committed'')))) (\<lambda>_.
     op_bind (finish_publish_body c audit a name (pp_is_bundle p)) (\<lambda>_. op_return m)))
     (published c a p) (publish_failed c a i)" for m
  proof (rule triple_fact)
    show "am_id m = a \<and> am_is_bundle m = pp_is_bundle p \<and> am_body_sha256 m = pp_body_sha256 p \<and> am_revision m = 1 \<and> 0 \<le> am_bytes m" if "?meta m s" for s
      using that by blast
    assume f: "am_id m = a \<and> am_is_bundle m = pp_is_bundle p \<and> am_body_sha256 m = pp_body_sha256 p \<and> am_revision m = 1 \<and> 0 \<le> am_bytes m"
    have h: "transient_of (am_id m) name" "body_intent i m" "di_id i = publish_intent (am_id m)"
      "is_valid_artifact_id (am_id m)" "intent_owner (publish_intent a) = am_id m"
      using assms(4,5) f meta_i own by auto
    have adv: "triple (crash_ok c) (?meta m) (op_tag \<lparr> ps_inserted = True, ps_final_durable = False \<rparr>
       (op_interrupt (step (advance_durability_intent (publish_intent a) ''metadata_committed''))))
       (\<lambda>_. in_transit c i m name) (publish_failed c a i)"
      by (rule triple_tag [OF triple_interrupt [OF triple_conseq [OF advance_staged [OF h(5,4,2,1)]]]])
        (use f staged_underway [OF _ h(2,1)] in \<open>auto simp: publish_failed_def\<close>)
    show "triple (crash_ok c) (?meta m)
     (op_bind (op_tag \<lparr> ps_inserted = True, ps_final_durable = False \<rparr>
       (op_interrupt (step (advance_durability_intent (publish_intent a) ''metadata_committed'')))) (\<lambda>_.
     op_bind (finish_publish_body c audit a name (pp_is_bundle p)) (\<lambda>_. op_return m)))
     (published c a p) (publish_failed c a i)"
      using finish_publish_body_safe [OF h(1-4)] f
      by (intro triple_bind [OF adv] triple_bind [where R = "\<lambda>_. visible c m"] triple_return) (auto simp: published_def)
  qed
  show ?thesis
    unfolding publish_attempt_def
    by (rule triple_bind [OF triple_tag [OF triple_bind [OF 1 triple_bind [OF 2 triple_bind [OF 3 4]]]] 5])
qed

lemma publish_compensation_safe:
  assumes "transient_of a name" and "is_valid_artifact_id a" and "di_id i = publish_intent a"
  shows "triple (crash_ok c) (publish_failed c a i (e, st)) (publish_compensation c audit a name is_bundle st)
    (\<lambda>_. crash_ok c) (\<lambda>_. crash_ok c)"
proof -
  have failed: "crash_ok c s" if "publish_failed c a i (e, st) s" for s
    using that vacant_crash_ok underway_crash_ok by (auto simp: publish_failed_def split: if_splits)
  have 1: "triple (crash_ok c) (publish_failed c a i (e, st))
     (if ps_inserted st
       then op_bind (bare_fault (sc_faults c) PublishDeleteRow) (\<lambda>_.
            step (\<lambda>s. Inr ((), delete_artifact a s)))
       else op_return ()) (\<lambda>_. vacant c a i) (\<lambda>_. crash_ok c)"
  proof (rule triple_if)
    assume ins: "ps_inserted st"
    have "vacant c a i (delete_artifact a s)" if "publish_failed c a i (e, st) s" for s
      using that ins by (auto simp: publish_failed_def underway_def site_def intro: delete_artifact_vacant)
    then show "triple (crash_ok c) (publish_failed c a i (e, st)) (op_bind (bare_fault (sc_faults c) PublishDeleteRow) (\<lambda>_.
            step (\<lambda>s. Inr ((), delete_artifact a s)))) (\<lambda>_. vacant c a i) (\<lambda>_. crash_ok c)"
      by (intro triple_bind [OF triple_bare_fault] triple_step) (auto intro: failed vacant_crash_ok)
  next
    assume "\<not> ps_inserted st"
    then show "triple (crash_ok c) (publish_failed c a i (e, st)) (op_return ()) (\<lambda>_. vacant c a i) (\<lambda>_. crash_ok c)"
      by (intro triple_return) (simp add: publish_failed_def)
  qed
  have rm: "triple (crash_ok c) (vacant c a i) (safe_remove l :: unit store_op) (\<lambda>_. vacant c a i) (\<lambda>_. crash_ok c)"
    if "owned a l" for l
    by (rule triple_post [OF vacant_remove [OF that]]) (auto intro: vacant_crash_ok)
  have fin: "closed (publish_intent a) s s' \<Longrightarrow> vacant c a i s \<Longrightarrow> crash_ok c s'" for s s'
    using closed_vacant assms(3) by metis
  show ?thesis
    unfolding publish_compensation_def
  proof (intro triple_bind [OF 1] triple_bind [OF rm] triple_bind [where R = "\<lambda>_. vacant c a i"] triple_if triple_return)
    show "triple (crash_ok c) (vacant c a i) (cancel_compensated_audit_intent c audit (publish_intent a) ''artifact.publish'' a (Some 1))
      (\<lambda>_. crash_ok c) (\<lambda>_. crash_ok c)"
      by (rule triple_post [OF cancel_closed [where P = "vacant c a i"]]) (use fin in \<open>auto intro: vacant_crash_ok\<close>)
    show "triple (crash_ok c) (vacant c a i) (step (finish_durability_intent (publish_intent a))) (\<lambda>_. crash_ok c) (\<lambda>_. crash_ok c)"
      by (rule triple_post [OF triple_closing [where P = "vacant c a i" and intent = "publish_intent a"]])
        (use fin in \<open>auto intro: vacant_crash_ok finish_durability_closed\<close>)
  qed (use assms rm in auto)
qed

lemma next_id_fresh:
  assumes "\<And>s. P s \<Longrightarrow> fresh_source c s" and "\<And>e s. P s \<Longrightarrow> E e s"
  shows "triple C P (next_id_attempts c k)
    (\<lambda>a s. P s \<and> is_valid_artifact_id a \<and> fresh_for s a \<and> pristine a s) E"
proof (induction k)
  case 0
  show ?case by (auto intro: triple_raise assms(2))
next
  case (Suc k)
  have 1: "triple C P (draw (sc_artifact_id c)) (\<lambda>a s. P s \<and> fresh_for s a) E"
    by (rule triple_draw) (use assms in \<open>auto simp: fresh_source_def\<close>)
  have 2: "triple C (\<lambda>s. P s \<and> fresh_for s a) (query (\<lambda>s. id_available s a))
     (\<lambda>free s. P s \<and> (free \<longrightarrow> is_valid_artifact_id a \<and> fresh_for s a \<and> pristine a s)) E" for a
  proof (rule triple_query)
    fix s free assume p: "P s \<and> fresh_for s a" and f: "id_available s a = Inr free"
    have "is_valid_artifact_id a \<and> pristine a s" if free
    proof -
      have v: "is_valid_artifact_id a" and l: "\<not> path_exists (st_fs s) (live_loc a False)" "\<not> path_exists (st_fs s) (live_loc a True)"
        using f that by (auto simp: id_available_def SafeArtifactId_parse_def split: if_splits option.splits)
      have "node (st_fs s) (live_loc a b) = None" for b
        using l by (cases b) (auto simp: path_exists_def)
      then show ?thesis using v p fresh_forD(2,4) by (auto simp: pristine_def)
    qed
    then show "P s \<and> (free \<longrightarrow> is_valid_artifact_id a \<and> fresh_for s a \<and> pristine a s)" using p by blast
  qed (use assms(2) in auto)
  show ?case unfolding next_id_attempts.simps
    by (intro triple_bind [OF 1] triple_bind [OF 2] triple_if triple_return triple_pre [OF Suc.IH]) auto
qed

lemma publish_failed_crash_ok: "publish_failed c a i e s \<Longrightarrow> crash_ok c s"
  using vacant_crash_ok underway_crash_ok by (auto simp: publish_failed_def split: if_splits)

lemma publish_start:
  assumes "is_valid_artifact_id a"
  shows "triple (crash_ok c) (\<lambda>s. crash_ok c s \<and> fresh_for s a \<and> pristine a s \<and> node (st_fs s) (Entry name) = None)
     (step (start_durability_intent (publish_intent a) a ''publish'' d [] name))
     (\<lambda>_ s. vacant c a (publish_record a d name) s \<and> pristine a s \<and> node (st_fs s) (Entry name) = None) (\<lambda>_. crash_ok c)"
proof (rule triple_step)
  fix s x s' assume q: "crash_ok c s \<and> fresh_for s a \<and> pristine a s \<and> node (st_fs s) (Entry name) = None"
    and e: "start_durability_intent (publish_intent a) a ''publish'' d [] name s = Inr (x, s')"
  have f: "focus c a s" using q crash_ok_focus [OF assms] by blast
  then have b: "base_ok s" by (simp add: focus_def)
  have i: "intents_of s a = []" and r: "rows_of s a = []" using q fresh_forD by blast+
  note eff = start_intent_pending [OF e b assms intent_owner_simps(1) [OF assms] i]
  have "vacant c a (publish_record a d name) s'"
    using eff focus_step [OF f] r by (simp add: vacant_def publish_record_def)
  moreover have "pristine a s'" using q eff by (simp add: pristine_def)
  ultimately show "crash_ok c s' \<and> vacant c a (publish_record a d name) s' \<and> pristine a s' \<and> node (st_fs s') (Entry name) = None"
    using vacant_crash_ok q eff by auto
qed auto

lemma publish_body_safe:
  assumes "rooted_store c" and "distinct_content content" and "prepare_publish c content = Inr p"
    and "is_valid_artifact_id a" and "transient_of a name"
  shows "triple (crash_ok c) (\<lambda>s. crash_ok c s \<and> fresh_for s a \<and> pristine a s \<and> node (st_fs s) (Entry name) = None)
     (publish_body c request audit p a name) (\<lambda>r. published c a p (pd_meta r)) (\<lambda>_. crash_ok c)"
proof -
  let ?i = "publish_record a (pp_body_sha256 p) name"
  have comp: "triple (crash_ok c) (publish_failed c a ?i es)
     (case es of (interrupt, state) \<Rightarrow>
      op_bind (if compensate interrupt
               then publish_compensation c audit a name (pp_is_bundle p) state
               else op_return ()) (\<lambda>_.
      op_raise (error interrupt))) (published c a p) (\<lambda>_. crash_ok c)" for es
  proof -
    obtain e st where es: "es = (e, st)" by (cases es)
    show ?thesis unfolding es prod.case
      using publish_compensation_safe [of a name ?i] assms(4,5) publish_failed_crash_ok
      by (intro triple_bind [where R = "\<lambda>_. crash_ok c"] triple_if triple_return triple_raise)
        (auto simp: publish_record_def)
  qed
  show ?thesis unfolding publish_body_def
    by (rule triple_bind [OF publish_start [OF assms(4)]
        triple_bind [OF triple_catch [OF publish_attempt_safe [OF assms(1,3,2,5,4)] comp] triple_return]]) simp
qed

lemma publish_sync_safe:
  assumes "rooted_store c" and "distinct_content (pa_content request)"
  shows "triple (crash_ok c) (\<lambda>s. crash_ok c s \<and> fresh_source c s) (publish_sync c request audit)
    (\<lambda>r s. \<exists>p. prepare_publish c (pa_content request) = Inr p \<and> published c (am_id (pd_meta r)) p (pd_meta r) s) (\<lambda>_. crash_ok c)"
proof -
  let ?P = "\<lambda>p s. (crash_ok c s \<and> fresh_source c s) \<and> prepare_publish c (pa_content request) = Inr p"
  let ?Q = "\<lambda>p a s. ?P p s \<and> is_valid_artifact_id a \<and> fresh_for s a \<and> pristine a s"
  have 1: "triple (crash_ok c) (\<lambda>s. crash_ok c s \<and> fresh_source c s) (query (\<lambda>s. prepare_publish c (pa_content request)))
      ?P (\<lambda>_. crash_ok c)" by (rule triple_query) auto
  have 2: "triple (crash_ok c) (?P p) (next_id c) (?Q p) (\<lambda>_. crash_ok c)" for p
    unfolding next_id_def by (rule next_id_fresh) auto
  have 3: "triple (crash_ok c) (?Q p a) (transient_entry c a Staging)
     (\<lambda>name s. ?Q p a s \<and> transient_of a name \<and> node (st_fs s) (Entry name) = None) (\<lambda>_. crash_ok c)" for p a
    by (rule triple_fact [where R = "is_valid_artifact_id a"], blast, rule transient_entry_fresh) auto
  have 4: "triple (crash_ok c) (\<lambda>s. ?Q p a s \<and> transient_of a name \<and> node (st_fs s) (Entry name) = None)
     (publish_body c request (for_affected_tenant audit (publish_org request)) p a name)
     (\<lambda>r s. \<exists>p. prepare_publish c (pa_content request) = Inr p \<and> published c (am_id (pd_meta r)) p (pd_meta r) s) (\<lambda>_. crash_ok c)" for p a name
    by (rule triple_fact [where R = "prepare_publish c (pa_content request) = Inr p \<and> is_valid_artifact_id a \<and> transient_of a name"],
        blast, rule triple_conseq [OF publish_body_safe [OF assms(1,2)]]) (auto simp: published_def)
  show ?thesis unfolding publish_sync_def
    by (rule triple_bind [OF 1 triple_bind [OF 2 triple_bind [OF 3 4]]])
qed

end
