(* ===== verification/Crash_Metadata.thy ===== *)
theory Crash_Metadata
  imports Crash_Sites
begin

text \<open>
  The metadata operations (src/src/artifacts/lifecycle/metadata.rs and org_move.rs) keep the
  invariant; a move to another organization also revokes every share.
\<close>

text \<open>
  Columns that no body depends on may change at any time: categories, visibility, the
  organization of an artifact and of its revisions.
\<close>

definition keeps_meta :: "(ArtifactMeta \<Rightarrow> ArtifactMeta) \<Rightarrow> bool" where
  "keeps_meta f \<longleftrightarrow> (\<forall>m. am_id (f m) = am_id m \<and> am_is_bundle (f m) = am_is_bundle m \<and>
     am_revision (f m) = am_revision m \<and> am_body_sha256 (f m) = am_body_sha256 m)"

definition keeps_revision :: "(ArtifactRevision \<Rightarrow> ArtifactRevision) \<Rightarrow> bool" where
  "keeps_revision g \<longleftrightarrow> (\<forall>r. rv_artifact_id (g r) = rv_artifact_id r \<and> rv_is_bundle (g r) = rv_is_bundle r \<and>
     rv_revision (g r) = rv_revision r \<and> rv_body_sha256 (g r) = rv_body_sha256 r)"

lemma crash_ok_retable:
  assumes "crash_ok c s" and "keeps_meta f" and "keeps_revision g"
    and "st_artifacts s' = map f (st_artifacts s)" and "st_revisions s' = map g (st_revisions s)"
    and "st_intents s' = st_intents s" and "st_fs s' = st_fs s"
  shows "crash_ok c s'"
proof -
  have m: "am_id (f x) = am_id x" "am_is_bundle (f x) = am_is_bundle x"
    "am_revision (f x) = am_revision x" "am_body_sha256 (f x) = am_body_sha256 x" for x
    using assms(2) by (simp_all add: keeps_meta_def)
  have r: "rv_artifact_id (g x) = rv_artifact_id x" "rv_is_bundle (g x) = rv_is_bundle x"
    "rv_revision (g x) = rv_revision x" "rv_body_sha256 (g x) = rv_body_sha256 x" for x
    using assms(3) by (simp_all add: keeps_revision_def)
  have rows: "rows_of s' a = map f (rows_of s a)" "revs_of s' a = map g (revs_of s a)" "intents_of s' a = intents_of s a" for a
    using assms(4-6) by (simp_all add: rows_of_def revs_of_def intents_of_def filter_map comp_def m r)
  note defs = meta_ok_def at_rest_def pending_ok_def body_pending_def update_prepared_def update_committed_def
      history_ok_def phase_defs body_digest_at_path_def
  have p: "meta_ok s' (f x) = meta_ok s x" "at_rest c s' (f x) = at_rest c s x"
    "pending_ok c s' (f x) i = pending_ok c s x i" for x i
    unfolding defs rows m assms(7) by (simp_all add: list_all_iff r)
  have "art_ok c s' a = art_ok c s a" for a
    unfolding art_ok_def rows by (simp add: p)
  moreover have "base_ok s'" using assms(1,4,6,7) by (auto simp: crash_ok_def base_ok_def m)
  ultimately show ?thesis using assms(1) by (simp add: crash_ok_def)
qed

lemma keeps_update [intro]: "keeps_meta f \<Longrightarrow> keeps_meta (\<lambda>m. if p m then f m else m)"
  "keeps_revision g \<Longrightarrow> keeps_revision (\<lambda>r. if q r then g r else r)"
  by (simp_all add: keeps_meta_def keeps_revision_def)

lemma keeps_id: "keeps_revision (\<lambda>r. r)" "keeps_meta (\<lambda>m. m)"
  by (simp_all add: keeps_revision_def keeps_meta_def)

lemma audited_row_update_safe:
  assumes "keeps_meta change"
  shows "triple (crash_ok c) (crash_ok c) (step (audited_row_update c a n event_id audit event change))
    (\<lambda>_. crash_ok c) (\<lambda>_. crash_ok c)"
proof (rule triple_step)
  fix s x s' assume ok: "crash_ok c s" and u: "audited_row_update c a n event_id audit event change s = Inr (x, s')"
  have "crash_ok c s'"
    by (rule crash_ok_retable [OF ok keeps_update(1) [OF assms, of "\<lambda>m. am_id m = a"] keeps_id(1)])
      (use u in \<open>auto simp: audited_row_update_def result_simps sql_update_def\<close>)
  then show "crash_ok c s' \<and> crash_ok c s'" by simp
qed

lemma reload_safe: "triple C P (reload a) (\<lambda>_. P) (\<lambda>_. P)"
  unfolding reload_def by (intro triple_bind [OF triple_query_any] triple_option triple_raise triple_return)

lemma set_category_safe:
  "triple (crash_ok c) (crash_ok c) (set_category_sync c a category audit) (\<lambda>_. crash_ok c) (\<lambda>_. crash_ok c)"
  unfolding set_category_sync_def
  by (intro triple_bind [OF triple_query_any] triple_option triple_raise triple_bind [OF triple_bare_fault]
      triple_draw_event) (auto intro!: triple_bind [OF audited_row_update_safe] reload_safe simp: keeps_meta_def)

lemma set_hidden_safe:
  "triple (crash_ok c) (crash_ok c) (set_hidden_sync c a hidden audit) (\<lambda>_. crash_ok c) (\<lambda>_. crash_ok c)"
  unfolding set_hidden_sync_def
  by (intro triple_bind [OF triple_query_any] triple_option triple_raise triple_bind [OF triple_bare_fault]
      triple_draw_event) (auto intro!: triple_bind [OF audited_row_update_safe] reload_safe simp: keeps_meta_def)

lemma move_transaction_core:
  assumes "move_transaction c n event_id m org category audit s = Inr (x, s')"
  shows "\<exists>f g. keeps_meta f \<and> keeps_revision g \<and> st_artifacts s' = map f (st_artifacts s) \<and>
     st_revisions s' = map g (st_revisions s) \<and> st_intents s' = st_intents s \<and> st_fs s' = st_fs s"
proof -
  let ?p = "\<lambda>q. am_id q = am_id m"
  let ?f1 = "\<lambda>q. if org \<noteq> am_org m \<and> ?p q then q\<lparr>am_artifact_key := None\<rparr> else q"
  let ?f2 = "\<lambda>q. if ?p q then q\<lparr>am_org := org, am_category := category, am_updated_at := sc_datetime c n\<rparr> else q"
  let ?g = "\<lambda>r. if rv_artifact_id r = am_id m then r\<lparr>rv_org := org\<rparr> else r"
  have "st_artifacts s' = map (?f2 \<circ> ?f1) (st_artifacts s) \<and>
     st_revisions s' = map ?g (st_revisions s) \<and> st_intents s' = st_intents s \<and> st_fs s' = st_fs s"
    using assms
    by (auto simp: move_transaction_def Let_def result_simps revoke_shares_def move_org_bearing_children_def
        revoke_cross_org_bindings_def collections_before_org_move_def sql_update_def split: if_splits)
  moreover have "keeps_meta (?f2 \<circ> ?f1)" "keeps_revision ?g" by (auto simp: keeps_meta_def keeps_revision_def)
  ultimately show ?thesis by blast
qed

lemma move_to_org_safe:
  "triple (crash_ok c) (crash_ok c) (move_to_org_sync c a org category audit) (\<lambda>_. crash_ok c) (\<lambda>_. crash_ok c)"
proof -
  have t: "triple (crash_ok c) (crash_ok c) (step (move_transaction c n event_id m org' category' audit'))
      (\<lambda>_. crash_ok c) (\<lambda>_. crash_ok c)" for n event_id m org' category' audit'
    by (rule triple_step) (auto dest!: move_transaction_core intro: crash_ok_retable)
  show ?thesis unfolding move_to_org_sync_def Let_def
    by (intro triple_bind [OF triple_query_any] triple_option triple_raise triple_bind_ask triple_if)
      (auto intro!: triple_raise triple_bind [OF triple_bare_fault] triple_draw_event triple_bind [OF t] reload_safe
        intro: triple_pre)
qed

end
