(* ===== verification/Crash_Delete.thy ===== *)
theory Crash_Delete
  imports Crash_Sites
begin

text \<open>
  The deletion of an artifact (src/src/artifacts/lifecycle/trash.rs) keeps the invariant at every
  step, and on success nothing of the artifact is left.
\<close>

section \<open>Delete\<close>

definition delete_record :: "ArtifactMeta \<Rightarrow> string \<Rightarrow> DurabilityIntent" where
  "delete_record m trash =
     \<lparr> di_id = delete_intent_id m, di_artifact_id = am_id m, di_operation = ''delete'', di_state = ''prepared'',
       di_expected_sha256 = [], di_prior_sha256 = am_body_sha256 m, di_staging_path = trash \<rparr>"

lemma body_intent_delete: "body_intent (delete_record m trash) m"
  by (simp add: body_intent_def delete_record_def)

lemma live_is_exists: "live_is c s m d \<Longrightarrow> path_exists (st_fs s) (live_loc (am_id m) (am_is_bundle m))"
  by (auto simp: live_is_def body_digest_at_path_def body_digest_def path_exists_def split: option.splits)

lemma digest_exists: "body_digest_at_path c fs l b = Some d \<Longrightarrow> path_exists fs l"
  by (auto simp: body_digest_at_path_def body_digest_def path_exists_def split: option.splits)

lemma take_down:
  assumes "transient_of (am_id m) name" and "body_intent i m"
  shows "triple (crash_ok c) (installed c i m) (durable_rename (live_loc (am_id m) (am_is_bundle m)) (Entry name))
    (\<lambda>_. in_transit c i m name) (\<lambda>_. installed c i m)"
proof -
  let ?live = "live_loc (am_id m) (am_is_bundle m)"
  have eff: "in_transit c i m name (s\<lparr>st_fs := fs\<rparr>)"
    if st: "installed c i m s" and r: "fs_rename ?live (Entry name) (st_fs s) = Inr fs" for s fs
  proof -
    obtain b where b: "node (st_fs s) ?live = Some b"
      "\<forall>l. node fs l = (if l = Entry name then Some b else if l = ?live then None else node (st_fs s) l)"
      "trees_ok (st_fs s) \<longrightarrow> trees_ok fs"
      using fs_rename_effect [OF r] by blast
    have v: "is_valid_artifact_id (am_id m)" using st by (simp add: installed_def site_def focus_def)
    have w: "fs_within {Entry name, ?live} s (s\<lparr>st_fs := fs\<rparr>)"
      unfolding fs_within_def using b st by (auto simp: installed_def dest: site_trees)
    have "site c m i (s\<lparr>st_fs := fs\<rparr>)"
      by (rule fs_within_site [OF w]) (use st assms in \<open>auto simp: installed_def\<close>)
    moreover have "history_ok c (s\<lparr>st_fs := fs\<rparr>) m"
      using history_ok_same [OF same_past_fs [OF w]] st by (simp add: installed_def)
    ultimately show ?thesis
      using st b live_not_transient [OF v assms(1)]
      by (simp add: installed_def in_transit_def live_is_def live_absent_def body_digest_at_path_def)
  qed
  have u: "underway c i m s" if "in_transit c i m name s" for s by (rule staged_underway [OF that assms(2,1)])
  show ?thesis unfolding durable_rename_def
    by (rule triple_on_fs) (use eff u underway_crash_ok in blast)+
qed

lemma move_to_trash_safe:
  assumes "transient_of (am_id m) trash" and "body_intent i m"
  shows "triple (crash_ok c) (installed c i m) (move_body_to_trash c m trash)
    (\<lambda>moved s. moved \<and> in_transit c i m trash s) (\<lambda>_ s. installed c i m s \<or> in_transit c i m trash s)"
  unfolding move_body_to_trash_def Let_def
proof (rule triple_bind_ask, rule triple_if)
  show "triple (crash_ok c) (\<lambda>s. installed c i m s \<and> x = path_exists (st_fs s) (live_loc (am_id m) (am_is_bundle m)))
      (op_return False) (\<lambda>moved s. moved \<and> in_transit c i m trash s) (\<lambda>_ s. installed c i m s \<or> in_transit c i m trash s)"
    if "\<not> x" for x
    by (rule triple_false) (use that in \<open>auto simp: installed_def dest: live_is_exists\<close>)
  have r: "triple (crash_ok c) (installed c i m)
     (rename_with_barrier c (live_loc (am_id m) (am_is_bundle m)) (Entry trash) DeleteTrashRenameBarrier)
     (\<lambda>_. in_transit c i m trash) (\<lambda>_ s. installed c i m s \<or> in_transit c i m trash s)"
    unfolding rename_with_barrier_def
    by (rule triple_bind [OF triple_post [OF take_down [OF assms]] triple_bare_fault]) auto
  show "triple (crash_ok c) (\<lambda>s. installed c i m s \<and> x = path_exists (st_fs s) (live_loc (am_id m) (am_is_bundle m)))
      (op_bind (bare_fault (sc_faults c) DeleteTrashRename) (\<lambda>_.
        op_bind (rename_with_barrier c (live_loc (am_id m) (am_is_bundle m)) (Entry trash) DeleteTrashRenameBarrier) (\<lambda>_.
        op_return True))) (\<lambda>moved s. moved \<and> in_transit c i m trash s) (\<lambda>_ s. installed c i m s \<or> in_transit c i m trash s)" for x
    by (rule triple_pre [where P = "installed c i m"])
      (auto intro!: triple_bind [OF triple_bare_fault] triple_bind [OF r] triple_return)
qed

definition delete_failed :: "StoreContext \<Rightarrow> DurabilityIntent \<Rightarrow> ArtifactMeta \<Rightarrow> string \<Rightarrow> store \<Rightarrow> bool" where
  "delete_failed c i m trash s \<longleftrightarrow> in_transit c i m trash s \<or> vacant c (am_id m) i s"

lemma delete_failed_crash_ok:
  "delete_failed c i m trash s \<Longrightarrow> transient_of (am_id m) trash \<Longrightarrow> body_intent i m \<Longrightarrow> crash_ok c s"
  unfolding delete_failed_def by (blast intro: staged_crash_ok vacant_crash_ok)

lemma vacant_confined:
  assumes "confined L m" and "\<And>l. l \<in> L \<Longrightarrow> owned a l"
  shows "triple (crash_ok c) (vacant c a i) m (\<lambda>_. vacant c a i) (\<lambda>_. vacant c a i)"
  by (rule triple_confined [OF assms(1)])
    (use fs_within_vacant assms(2) vacant_crash_ok vacant_trees in blast)+

lemma restore_body_safe:
  assumes "transient_of (am_id m) trash" and "body_intent i m"
  shows "triple (crash_ok c) (delete_failed c i m trash) (restore_body c m trash True)
    (\<lambda>_ s. installed c i m s \<or> vacant c (am_id m) i s) (\<lambda>_. crash_ok c)"
  unfolding restore_body_def
proof (rule triple_bind [OF triple_bare_fault])
  show "delete_failed c i m trash s \<Longrightarrow> crash_ok c s" for e :: AppError and s
    using delete_failed_crash_ok assms by blast
  let ?m = "op_bind (ask (\<lambda>s. path_exists (st_fs s) (Entry trash))) (\<lambda>present.
       if \<not> present then op_return () else durable_rename (Entry trash) (live_loc (am_id m) (am_is_bundle m)))"
  have "triple (crash_ok c) (in_transit c i m trash) ?m (\<lambda>_ s. installed c i m s \<or> vacant c (am_id m) i s) (\<lambda>_. crash_ok c)"
  proof (rule triple_bind_ask, rule triple_if)
    show "triple (crash_ok c) (\<lambda>s. in_transit c i m trash s \<and> x = path_exists (st_fs s) (Entry trash)) (op_return ())
        (\<lambda>_ s. installed c i m s \<or> vacant c (am_id m) i s) (\<lambda>_. crash_ok c)" if "\<not> x" for x
      by (rule triple_false) (use that in \<open>auto simp: in_transit_def dest: digest_exists\<close>)
    show "triple (crash_ok c) (\<lambda>s. in_transit c i m trash s \<and> x = path_exists (st_fs s) (Entry trash))
        (durable_rename (Entry trash) (live_loc (am_id m) (am_is_bundle m)))
        (\<lambda>_ s. installed c i m s \<or> vacant c (am_id m) i s) (\<lambda>_. crash_ok c)" for x
      by (rule triple_conseq [OF install_staged [OF assms]])
        (auto intro: staged_crash_ok [OF _ assms(2,1)])
  qed
  moreover have "triple (crash_ok c) (vacant c (am_id m) i) ?m (\<lambda>_ s. installed c i m s \<or> vacant c (am_id m) i s) (\<lambda>_. crash_ok c)"
    by (rule triple_post [OF vacant_confined [where L = "{Entry trash, live_loc (am_id m) (am_is_bundle m)}"]])
      (auto intro!: confined_intro confined_rename simp: assms intro: vacant_crash_ok)
  ultimately show "triple (crash_ok c) (delete_failed c i m trash) (if \<not> True then op_return () else ?m)
      (\<lambda>_ s. installed c i m s \<or> vacant c (am_id m) i s) (\<lambda>_. crash_ok c)"
    unfolding delete_failed_def by (simp add: triple_disj)
qed

lemma delete_transaction_safe:
  assumes "in_transit c i m trash s" and "delete_transaction c n m intent s = Inr (x, s')" and "intent_owner intent = am_id m"
  shows "vacant c (am_id m) i s'"
proof -
  obtain s1 where s1: "fanout_delivery c n m EvDeleted intent (delete_artifact (am_id m) s) = Inr s1"
    and s': "advance_durability_intent intent ''metadata_committed'' s1 = Inr (x, s')"
    using assms(2) by (auto simp: delete_transaction_def result_simps)
  have st: "site c m i s" using assms(1) by (simp add: in_transit_def)
  have v0: "vacant c (am_id m) i (delete_artifact (am_id m) s)"
    using st by (auto simp: site_def intro: delete_artifact_vacant)
  have co: "core s1 = core (delete_artifact (am_id m) s)" by (rule fanout_delivery_core [OF s1])
  have b1: "base_ok s1" using v0 core_views(5) [OF co] by (simp add: vacant_def focus_def)
  have v1: "vacant c (am_id m) i s1"
    using v0 focus_step [OF _ core_untouched [OF co] b1] core_views [OF co] by (simp add: vacant_def pending_def)
  have va: "is_valid_artifact_id (am_id m)" using st by (simp add: site_def focus_def)
  note eff = advance_intent_pending [OF s' b1 assms(3) va]
  show ?thesis using v1 focus_step [OF _ eff(1,2)] eff by (simp add: vacant_def)
qed

lemma delete_attempt_safe:
  assumes "transient_of (am_id m) trash" and "body_intent i m" and "intent_owner intent = am_id m"
  shows "triple (crash_ok c) (in_transit c i m trash) (delete_attempt c m trash True intent)
    (\<lambda>_. vacant c (am_id m) i) (\<lambda>_. delete_failed c i m trash)"
proof -
  let ?E = "\<lambda>_. delete_failed c i m trash"
  let ?V = "vacant c (am_id m) i"
  have fst: "delete_failed c i m trash s" if "in_transit c i m trash s" for s using that by (simp add: delete_failed_def)
  have fv: "delete_failed c i m trash s" if "vacant c (am_id m) i s" for s using that by (simp add: delete_failed_def)
  have 1: "triple (crash_ok c) (in_transit c i m trash) (op_interrupt (step (delete_transaction c n m intent))) (\<lambda>_. ?V) ?E" for n
    by (intro triple_interrupt triple_step) (auto dest: delete_transaction_safe [OF _ _ assms(3)] intro: vacant_crash_ok fst)
  have 2: "triple (crash_ok c) ?V (op_no_compensation (bare_fault (sc_faults c) p)) (\<lambda>_. ?V) ?E" for p
    by (intro triple_no_compensation triple_bare_fault fv)
  have 3: "triple (crash_ok c) ?V (op_no_compensation (remove_node (Entry trash))) (\<lambda>_. ?V) ?E"
    by (intro triple_no_compensation triple_post [OF vacant_confined [where L = "{Entry trash}"]])
      (auto intro: confined_intro fv simp: assms(1))
  have 4: "triple (crash_ok c) ?V (op_no_compensation (remove_history_dir (am_id m))) (\<lambda>_. ?V) ?E"
    by (intro triple_no_compensation triple_post [OF vacant_confined [where L = "{l. \<exists>x. l = Past (am_id m) x}"]])
      (auto intro: confined_remove_history_dir fv)
  have 5: "triple (crash_ok c) ?V (op_interrupt (step (advance_durability_intent intent state))) (\<lambda>_. ?V) ?E" for state
  proof (rule triple_fact [where R = "is_valid_artifact_id (am_id m)"])
    assume v: "is_valid_artifact_id (am_id m)"
    have "?V s'" if "?V s" "untouched (am_id m) s s'" "base_ok s'" "rows_of s' (am_id m) = rows_of s (am_id m)"
      "pending (am_id m) i s'" for s s'
      using that focus_step by (auto simp: vacant_def)
    then show ?thesis
      by (intro triple_interrupt triple_post [OF advance_keeps [where P = ?V and i = i, OF _ assms(3) v]])
        (auto simp: vacant_def focus_def fv intro: vacant_crash_ok)
  qed (simp add: vacant_def focus_def)
  have gone: "triple (crash_ok c) (\<lambda>s. in_transit c i m trash s \<and> x = list_ex (\<lambda>q. am_id q = am_id m) (st_artifacts s)) k (\<lambda>_. ?V) ?E"
    if "\<not> x" for x and k :: "bool guarded_op"
    by (rule triple_false) (use that in \<open>auto simp: in_transit_def site_def rows_of_def list_ex_iff filter_eq_Cons_iff\<close>)
  have 6: "triple (crash_ok c) (\<lambda>s. in_transit c i m trash s \<and> x = list_ex (\<lambda>q. am_id q = am_id m) (st_artifacts s))
      (draw Inr) (\<lambda>_. in_transit c i m trash) ?E" for x
    by (rule triple_draw) auto
  show ?thesis
    unfolding delete_attempt_def if_True
    by (intro triple_bind [OF triple_fault] triple_bind_ask triple_if gone triple_bind [OF 6] triple_bind [OF 1]
        triple_bind [OF 2] triple_bind [OF 3] triple_bind [OF 4] triple_bind [OF 5] triple_return fst)
qed

lemma delete_reservation_safe:
  assumes "visible c m s" and "delete_reservation c m audit trash s = Inr (x, s')"
  shows "installed c (delete_record m trash) m s'"
proof -
  obtain s1 u where s1: "start_durability_intent (delete_intent_id m) (am_id m) ''delete'' [] (am_body_sha256 m) trash s = Inr (u, s1)"
    and s2: "reserve_audit c audit (delete_intent_id m) ''artifact.delete'' (am_id m) (Some (am_revision m)) s1 = Inr s'"
    using assms(2) by (auto simp: delete_reservation_def result_simps)
  have v: "focus c (am_id m) s" "base_ok s" "is_valid_artifact_id (am_id m)" "intents_of s (am_id m) = []"
    using assms(1) by (auto simp: visible_def focus_def)
  note eff = start_intent_pending [OF s1 v(2,3) intent_owner_simps(4) [OF v(3) refl] v(4)]
  note co = reserve_audit_core [OF s2]
  have b: "base_ok s'" using core_views(5) [OF co] eff(2) by simp
  have f: "focus c (am_id m) s'"
    using focus_step [OF v(1) untouched_trans [OF eff(1) core_untouched [OF co]] b] .
  have p: "same_past (am_id m) s s'" using eff core_views [OF co] by (simp add: same_past_def)
  have "site c m (delete_record m trash) s'"
    using f assms(1) eff core_views [OF co] by (simp add: site_def visible_def meta_ok_def delete_record_def pending_def)
  then show ?thesis
    using assms(1) history_ok_same [OF p] eff core_views [OF co]
    by (simp add: installed_def visible_def at_rest_def live_is_def)
qed

lemma delete_body_safe:
  assumes "transient_of (am_id m) trash"
  defines "i \<equiv> delete_record m trash"
  shows "triple (crash_ok c) (visible c m) (delete_body c m audit trash) (\<lambda>_. cleared c (am_id m)) (\<lambda>_. crash_ok c)"
proof (rule triple_fact [where R = "is_valid_artifact_id (am_id m)"])
  assume v: "is_valid_artifact_id (am_id m)"
  have bi: "body_intent i m" and id: "di_id i = delete_intent_id m"
    by (simp_all add: i_def body_intent_delete) (simp add: delete_record_def)
  have own: "intent_owner (delete_intent_id m) = am_id m" by (rule intent_owner_simps(4) [OF v refl])
  have cl: "closed (delete_intent_id m) s s' \<Longrightarrow> installed c i m s \<or> vacant c (am_id m) i s \<Longrightarrow> crash_ok c s'" for s s'
    using installed_closed visible_crash_ok closed_vacant id by metis
  have ok: "installed c i m s \<or> vacant c (am_id m) i s \<Longrightarrow> crash_ok c s" for s
    using installed_crash_ok [OF _ bi] vacant_crash_ok by blast
  have can: "triple (crash_ok c) (\<lambda>s. installed c i m s \<or> vacant c (am_id m) i s) (cancel_delete c m audit) (\<lambda>_. crash_ok c) (\<lambda>_. crash_ok c)"
    unfolding cancel_delete_def
    by (rule triple_post [OF cancel_closed [where P = "\<lambda>s. installed c i m s \<or> vacant c (am_id m) i s"]]) (use cl ok in blast)+
  have 1: "triple (crash_ok c) (visible c m) (step (delete_reservation c m audit trash)) (\<lambda>_. installed c i m) (\<lambda>_. crash_ok c)"
    by (rule triple_step) (use delete_reservation_safe i_def ok visible_crash_ok in blast)+
  have 2: "triple (crash_ok c) (\<lambda>s. installed c i m s \<or> in_transit c i m trash s)
     (op_bind (ask (\<lambda>s. path_exists (st_fs s) (Entry trash) \<and>
                               \<not> path_exists (st_fs s) (live_loc (am_id m) (am_is_bundle m)))) (\<lambda>partial.
            if partial then op_raise e else op_bind (cancel_delete c m audit) (\<lambda>_. op_raise e)))
     (\<lambda>moved s. moved \<and> in_transit c i m trash s) (\<lambda>_. crash_ok c)" for e
  proof (rule triple_bind_ask, rule triple_if)
    fix x
    let ?P = "\<lambda>s. (installed c i m s \<or> in_transit c i m trash s) \<and> x = (path_exists (st_fs s) (Entry trash) \<and>
        \<not> path_exists (st_fs s) (live_loc (am_id m) (am_is_bundle m)))"
    show "triple (crash_ok c) ?P (op_raise e) (\<lambda>moved s. moved \<and> in_transit c i m trash s) (\<lambda>_. crash_ok c)"
      by (rule triple_raise) (use ok staged_crash_ok [OF _ bi assms(1)] in blast)
    assume x: "\<not> x"
    have "?P s \<Longrightarrow> installed c i m s \<or> vacant c (am_id m) i s" for s
      using x by (auto simp: in_transit_def live_absent_def path_exists_def dest: digest_exists)
    then show "triple (crash_ok c) ?P (op_bind (cancel_delete c m audit) (\<lambda>_. op_raise e)) (\<lambda>moved s. moved \<and> in_transit c i m trash s) (\<lambda>_. crash_ok c)"
      by (intro triple_bind [OF triple_pre [OF can]] triple_raise)
  qed
  have 3: "triple (crash_ok c) (delete_failed c i m trash)
     (op_bind (if compensate interrupt then op_bind (restore_body c m trash True) (\<lambda>_. cancel_delete c m audit) else op_return ()) (\<lambda>_.
          op_raise (error interrupt))) (\<lambda>_. vacant c (am_id m) i) (\<lambda>_. crash_ok c)" for interrupt
  proof (rule triple_bind [where R = "\<lambda>_. crash_ok c"], rule triple_if)
    show "triple (crash_ok c) (delete_failed c i m trash) (op_bind (restore_body c m trash True) (\<lambda>_. cancel_delete c m audit))
        (\<lambda>_. crash_ok c) (\<lambda>_. crash_ok c)"
      by (rule triple_bind [OF restore_body_safe [OF assms(1) bi] can])
  qed (use delete_failed_crash_ok [OF _ assms(1) bi] in \<open>auto intro: triple_return triple_raise\<close>)
  have 4: "triple (crash_ok c) (\<lambda>s. moved \<and> in_transit c i m trash s)
     (op_catch (delete_attempt c m trash moved (delete_intent_id m))
       (\<lambda>interrupt.
          op_bind (if compensate interrupt
            then op_bind (restore_body c m trash moved) (\<lambda>_. cancel_delete c m audit) else op_return ()) (\<lambda>_.
          op_raise (error interrupt)))) (\<lambda>_. vacant c (am_id m) i) (\<lambda>_. crash_ok c)" for moved
  proof (cases moved)
    case True
    then have e: "moved = True" by simp
    show ?thesis unfolding e simp_thms by (rule triple_catch [OF delete_attempt_safe [OF assms(1) bi own] 3])
  qed (simp add: triple_false)
  have 5: "triple (crash_ok c) (vacant c (am_id m) i)
     (finalize_audit_and_intent c audit (delete_intent_id m) ''artifact.delete'' (am_id m) (Some (am_revision m)))
     (\<lambda>_. cleared c (am_id m)) (\<lambda>_. crash_ok c)"
    by (rule triple_post [OF finalize_closed [where P = "vacant c (am_id m) i" and Q = "cleared c (am_id m)"]])
      (use closed_cleared id ok cleared_crash_ok in \<open>metis | blast\<close>)+
  show ?thesis unfolding delete_body_def
    by (rule triple_bind [OF 1 triple_bind [OF triple_catch [OF move_to_trash_safe [OF assms(1) bi] 2]
        triple_bind [OF 4 triple_bind [OF 5 triple_return]]]])
qed (simp add: visible_def focus_def)

lemma delete_sync_safe:
  "triple (crash_ok c) (\<lambda>s. crash_ok c s \<and> fresh_source c s) (delete_sync c a audit)
    (\<lambda>deleted s. crash_ok c s \<and> (deleted \<longrightarrow> cleared c a s)) (\<lambda>_. crash_ok c)"
  unfolding delete_sync_def
proof (rule triple_load_visible)
  fix m :: ArtifactMeta assume a: "am_id m = a"
  let ?P = "\<lambda>s. visible c m s \<and> fresh_source c s"
  have te: "triple (crash_ok c) ?P (transient_entry c a Trash)
     (\<lambda>name s. ?P s \<and> transient_of a name \<and> node (st_fs s) (Entry name) = None) (\<lambda>_. crash_ok c)"
  proof (rule triple_fact [where R = "is_valid_artifact_id a"])
    show "is_valid_artifact_id a" if "?P s" for s using that a by (auto simp: visible_def focus_def)
  qed (rule transient_entry_fresh, auto intro: visible_crash_ok)
  have db: "triple (crash_ok c) (\<lambda>s. ?P s \<and> transient_of a name \<and> node (st_fs s) (Entry name) = None)
     (delete_body c m (for_affected_tenant audit (am_org m)) name)
     (\<lambda>deleted s. crash_ok c s \<and> (deleted \<longrightarrow> cleared c a s)) (\<lambda>_. crash_ok c)" for name
    by (rule triple_fact [where R = "transient_of (am_id m) name"], simp add: a, rule triple_conseq [OF delete_body_safe])
      (auto simp: a intro: cleared_crash_ok)
  show "triple (crash_ok c) ?P (if SafeArtifactId_parse a = None then op_raise ConcealedNotFound
      else op_bind (transient_entry c a Trash) (\<lambda>trash. delete_body c m (for_affected_tenant audit (am_org m)) trash))
     (\<lambda>deleted s. crash_ok c s \<and> (deleted \<longrightarrow> cleared c a s)) (\<lambda>_. crash_ok c)"
    by (intro triple_if triple_raise triple_bind [OF te db]) (auto intro: visible_crash_ok)
qed (auto intro: triple_return)

end
