(* ===== verification/Crash_Swap.thy ===== *)
theory Crash_Swap
  imports Crash_Delete
begin

text \<open>
  The body swap of an update (src/src/artifacts/lifecycle/body_swap.rs): the outgoing body is
  copied into the history directory before the staged one takes its place.
\<close>

section \<open>Names in a history directory\<close>

lemma dotted_number_inject:
  "show_nat m @ CHR ''.'' # x = show_nat n @ CHR ''.'' # y \<longleftrightarrow> m = n \<and> x = y"
proof
  have d: "CHR ''.'' \<notin> set (show_nat k)" for k
    using show_nat_digits [of "CHR ''.''" k] by (auto simp: str_simps)
  assume e: "show_nat m @ CHR ''.'' # x = show_nat n @ CHR ''.'' # y"
  have "split_once CHR ''.'' (show_nat m @ CHR ''.'' # x) = Some (show_nat m, x)"
    "split_once CHR ''.'' (show_nat n @ CHR ''.'' # y) = Some (show_nat n, y)"
    by (rule split_once_append [OF d])+
  then have "show_nat m = show_nat n \<and> x = y" unfolding e by simp
  then show "m = n \<and> x = y" by (simp only: show_nat_inject)
qed simp

lemma number_not_dotted: "show_nat m \<noteq> show_nat n @ CHR ''.'' # y"
proof
  assume "show_nat m = show_nat n @ CHR ''.'' # y"
  then have "CHR ''.'' \<in> set (show_nat m)" by simp
  then have "is_ascii_digit CHR ''.''" by (rule show_nat_digits)
  then show False by (simp add: str_simps)
qed

lemma history_loc_inject:
  "0 \<le> n \<Longrightarrow> 0 \<le> k \<Longrightarrow> history_loc a n b = history_loc a k d \<longleftrightarrow> n = k \<and> b = d"
  using number_not_dotted [symmetric]
  by (auto simp: history_loc_def nat_eq_iff number_not_dotted dotted_number_inject split: if_splits)

lemma temp_not_history [simp]:
  "history_loc a n b \<noteq> history_snapshot_temp_loc e k" "history_snapshot_temp_loc e k \<noteq> history_loc a n b"
  "history_loc a n b \<noteq> metadata_recovery_temp_loc e k" "metadata_recovery_temp_loc e k \<noteq> history_loc a n b"
  using number_not_dotted [symmetric]
  by (auto simp: history_loc_def history_snapshot_temp_loc_def metadata_recovery_temp_loc_def
      number_not_dotted dotted_number_inject)

lemma temp_not_live [simp]:
  "live_loc a b \<noteq> history_snapshot_temp_loc e k" "history_snapshot_temp_loc e k \<noteq> live_loc a b"
  "live_loc a b \<noteq> metadata_recovery_temp_loc e k" "metadata_recovery_temp_loc e k \<noteq> live_loc a b"
  by (simp_all add: live_loc_def history_snapshot_temp_loc_def metadata_recovery_temp_loc_def)

section \<open>The states of a committed update\<close>

definition update_intent_of :: "DurabilityIntent \<Rightarrow> ArtifactMeta \<Rightarrow> bool" where
  "update_intent_of i m \<longleftrightarrow> di_operation i = ''update'' \<and> di_id i = update_id (am_id m) (am_revision m) \<and>
     2 \<le> am_revision m \<and> di_expected_sha256 i = am_body_sha256 m"

definition committed :: "StoreContext \<Rightarrow> DurabilityIntent \<Rightarrow> ArtifactMeta \<Rightarrow> store \<Rightarrow> bool" where
  "committed c i m s \<longleftrightarrow> update_intent_of i m \<and> site c m i s \<and>
     revision_digest s (am_id m) (am_revision m) (am_body_sha256 m) \<and>
     revision_digest s (am_id m) (am_revision m - 1) (di_prior_sha256 i) \<and>
     no_future s (am_id m) (am_is_bundle m) (am_revision m - 1)"

text \<open>The outgoing body still installed; moved to the history; the new body installed.\<close>

definition outgoing :: "StoreContext \<Rightarrow> DurabilityIntent \<Rightarrow> ArtifactMeta \<Rightarrow> store \<Rightarrow> bool" where
  "outgoing c i m s \<longleftrightarrow> committed c i m s \<and> live_is c s m (di_prior_sha256 i) \<and>
     past_ok c s (am_id m) (am_revision m - 1) \<and>
     slot_ok c s (am_id m) (am_is_bundle m) (am_revision m - 1) (di_prior_sha256 i)"

definition between :: "StoreContext \<Rightarrow> DurabilityIntent \<Rightarrow> ArtifactMeta \<Rightarrow> string \<Rightarrow> store \<Rightarrow> bool" where
  "between c i m name s \<longleftrightarrow> committed c i m s \<and> live_absent s m \<and> transient_of (am_id m) name \<and>
     body_digest_at_path c (st_fs s) (Entry name) (am_is_bundle m) = Some (am_body_sha256 m) \<and>
     past_ok c s (am_id m) (am_revision m) \<and>
     body_digest_at_path c (st_fs s) (history_loc (am_id m) (am_revision m - 1) (am_is_bundle m)) (am_is_bundle m)
       = Some (di_prior_sha256 i)"

definition swapped :: "StoreContext \<Rightarrow> DurabilityIntent \<Rightarrow> ArtifactMeta \<Rightarrow> store \<Rightarrow> bool" where
  "swapped c i m s \<longleftrightarrow> committed c i m s \<and> live_is c s m (am_body_sha256 m) \<and> past_ok c s (am_id m) (am_revision m)"

lemma swap_crash_ok:
  "outgoing c i m s \<Longrightarrow> crash_ok c s" "between c i m name s \<Longrightarrow> crash_ok c s" "swapped c i m s \<Longrightarrow> crash_ok c s"
proof -
  have c: "committed c i m s \<Longrightarrow> (live_is c s m (di_prior_sha256 i) \<and> past_ok c s (am_id m) (am_revision m - 1) \<and>
      slot_ok c s (am_id m) (am_is_bundle m) (am_revision m - 1) (di_prior_sha256 i)
      \<or> available c s m \<and> past_ok c s (am_id m) (am_revision m)) \<Longrightarrow> crash_ok c s"
    by (rule site_crash_ok [of c m i])
      (auto simp: committed_def pending_ok_def update_committed_def update_intent_of_def)
  show "outgoing c i m s \<Longrightarrow> crash_ok c s" by (rule c) (auto simp: outgoing_def)
  show "swapped c i m s \<Longrightarrow> crash_ok c s" by (rule c) (auto simp: swapped_def available_def)
  show "between c i m name s \<Longrightarrow> crash_ok c s"
    by (rule c) (auto simp: between_def available_def staged_is_def)
qed

lemma swapped_closed:
  assumes "swapped c i m s" and "closed (di_id i) s s'"
  shows "visible c m s'"
proof (rule closed_visible [OF assms(2)])
  show "site c m i s" using assms(1) by (simp add: swapped_def committed_def)
  show "at_rest c s m"
    using assms(1) by (auto simp: swapped_def committed_def at_rest_def history_ok_def slot_ok_def no_future_def)
qed

lemma committed_trees: "committed c i m s \<Longrightarrow> trees_ok (st_fs s)"
  by (auto simp: committed_def dest: site_trees)

lemma committed_valid: "committed c i m s \<Longrightarrow> is_valid_artifact_id (am_id m)"
  by (simp add: committed_def site_def focus_def)

lemma committed_within:
  assumes "fs_within L s s'" and "\<And>l. l \<in> L \<Longrightarrow> owned (am_id m) l" and "\<And>n. am_revision m \<le> n \<Longrightarrow> history_loc (am_id m) n (am_is_bundle m) \<notin> L"
    and "committed c i m s"
  shows "committed c i m s'"
  using assms(3,4) fs_within_site [OF assms(1,2)] fs_within_views [OF assms(1)]
  by (auto simp: committed_def revision_digest_def no_future_def)

lemma same_past_committed: "same_past (am_id m) s s' \<Longrightarrow> fs_within L s s' \<Longrightarrow> (\<And>l. l \<in> L \<Longrightarrow> owned (am_id m) l) \<Longrightarrow>
    committed c i m s \<Longrightarrow> committed c i m s'"
  using fs_within_site [of L s s' m c i] by (simp add: committed_def past_same)

lemma swap_within:
  assumes "fs_within L s s'" and "\<And>l. l \<in> L \<Longrightarrow> owned (am_id m) l" and "\<And>n b. history_loc (am_id m) n b \<notin> L"
    and "live_loc (am_id m) (am_is_bundle m) \<notin> L"
  shows "outgoing c i m s \<Longrightarrow> outgoing c i m s'" "swapped c i m s \<Longrightarrow> swapped c i m s'"
    "Entry name \<notin> L \<Longrightarrow> between c i m name s \<Longrightarrow> between c i m name s'"
proof -
  have p: "same_past (am_id m) s s'" by (rule same_past_fs [OF assms(1)]) (rule assms(3))
  have n: "node (st_fs s') l = node (st_fs s) l" if "l \<notin> L" for l using fs_within_views(6) [OF assms(1) that] .
  note f = same_past_committed [OF p assms(1,2)] past_same [OF p] n [OF assms(4)]
  show "outgoing c i m s \<Longrightarrow> outgoing c i m s'" "swapped c i m s \<Longrightarrow> swapped c i m s'"
    using f by (auto simp: outgoing_def swapped_def live_is_def body_digest_at_path_def)
  show "Entry name \<notin> L \<Longrightarrow> between c i m name s \<Longrightarrow> between c i m name s'"
    using f n [of "Entry name"] n [OF assms(3)]
    by (auto simp: between_def live_absent_def body_digest_at_path_def)
qed

lemma swap_confined:
  assumes "confined L k" and "\<And>l. l \<in> L \<Longrightarrow> owned (am_id m) l" and "\<And>n b. history_loc (am_id m) n b \<notin> L"
    and "live_loc (am_id m) (am_is_bundle m) \<notin> L"
  shows outgoing_confined: "triple (crash_ok c) (outgoing c i m) k (\<lambda>_. outgoing c i m) (\<lambda>_. outgoing c i m)"
    and swapped_confined: "triple (crash_ok c) (swapped c i m) k (\<lambda>_. swapped c i m) (\<lambda>_. swapped c i m)"
proof -
  show "triple (crash_ok c) (outgoing c i m) k (\<lambda>_. outgoing c i m) (\<lambda>_. outgoing c i m)"
    by (rule triple_confined [OF assms(1) swap_within(1) [OF _ assms(2-4)] swap_crash_ok(1)])
      (auto simp: outgoing_def dest: committed_trees)
  show "triple (crash_ok c) (swapped c i m) k (\<lambda>_. swapped c i m) (\<lambda>_. swapped c i m)"
    by (rule triple_confined [OF assms(1) swap_within(2) [OF _ assms(2-4)] swap_crash_ok(3)])
      (auto simp: swapped_def dest: committed_trees)
qed

section \<open>Moving the bodies\<close>

lemma past_ok_extend:
  assumes "committed c i m s" and "past_ok c s (am_id m) (am_revision m - 1)"
    and "body_digest_at_path c (st_fs s) (history_loc (am_id m) (am_revision m - 1) (am_is_bundle m)) (am_is_bundle m)
      = Some (di_prior_sha256 i)"
  shows "past_ok c s (am_id m) (am_revision m)"
  unfolding past_ok_def list_all_iff
proof (intro ballI impI)
  fix r assume r: "r \<in> set (revs_of s (am_id m))" and lt: "rv_revision r < am_revision m"
  have b: "rv_is_bundle r = am_is_bundle m"
    using assms(1) r by (auto simp: committed_def site_def meta_ok_def list_all_iff)
  show "body_digest_at_path c (st_fs s) (history_loc (am_id m) (rv_revision r) (rv_is_bundle r)) (rv_is_bundle r)
      = Some (rv_body_sha256 r)"
  proof (cases "rv_revision r = am_revision m - 1")
    case True
    then show ?thesis using assms(1,3) r b by (auto simp: committed_def revision_digest_def list_all_iff)
  next
    case False
    then show ?thesis using assms(2) r lt by (auto simp: past_ok_def list_all_iff)
  qed
qed

lemma past_ok_mono: "past_ok c s a n \<Longrightarrow> k \<le> n \<Longrightarrow> past_ok c s a k"
  by (auto simp: past_ok_def list_all_iff)

text \<open>A rename of one entry of the artifact: what is not renamed keeps its body.\<close>

lemma past_ok_moved:
  assumes "meta_ok s m" and "revs_of s' (am_id m) = revs_of s (am_id m)" and "1 \<le> k" and "n \<le> k"
    and "\<And>l. l \<noteq> history_loc (am_id m) k (am_is_bundle m) \<Longrightarrow> l \<noteq> live_loc (am_id m) (am_is_bundle m) \<Longrightarrow>
      node (st_fs s') l = node (st_fs s) l"
  shows "past_ok c s' (am_id m) n = past_ok c s (am_id m) n"
proof -
  have "node (st_fs s') (history_loc (am_id m) (rv_revision r) (rv_is_bundle r)) =
      node (st_fs s) (history_loc (am_id m) (rv_revision r) (rv_is_bundle r))"
    if "r \<in> set (revs_of s (am_id m))" "rv_revision r < n" for r
  proof (rule assms(5))
    have "1 \<le> rv_revision r" using assms(1) that(1) by (auto simp: meta_ok_def list_all_iff)
    then show "history_loc (am_id m) (rv_revision r) (rv_is_bundle r) \<noteq> history_loc (am_id m) k (am_is_bundle m)"
      using assms(3,4) that(2) by (simp add: history_loc_inject)
  qed simp
  then show ?thesis unfolding past_ok_def assms(2) by (auto simp: list_all_iff body_digest_at_path_def)
qed

lemma rename_within:
  assumes "fs_rename from target (st_fs s) = Inr fs" and "trees_ok (st_fs s)"
  obtains b where "node (st_fs s) from = Some b" "fs_within {from, target} s (s\<lparr>st_fs := fs\<rparr>)"
    "\<And>l. node fs l = (if l = target then Some b else if l = from then None else node (st_fs s) l)"
proof -
  obtain b where b: "node (st_fs s) from = Some b"
    "\<forall>l. node fs l = (if l = target then Some b else if l = from then None else node (st_fs s) l)" "trees_ok fs"
    using fs_rename_effect [OF assms(1)] assms(2) by blast
  then have "fs_within {from, target} s (s\<lparr>st_fs := fs\<rparr>)" unfolding fs_within_def by (auto intro!: exI [of _ fs])
  then show thesis using that b by blast
qed

definition loaded :: "StoreContext \<Rightarrow> ArtifactMeta \<Rightarrow> string \<Rightarrow> store \<Rightarrow> bool" where
  "loaded c m name s \<longleftrightarrow> transient_of (am_id m) name \<and>
     body_digest_at_path c (st_fs s) (Entry name) (am_is_bundle m) = Some (am_body_sha256 m)"

abbreviation "live_of m \<equiv> live_loc (am_id m) (am_is_bundle m)"
abbreviation "slot_of m \<equiv> history_loc (am_id m) (am_revision m - 1) (am_is_bundle m)"

lemma move_out:
  assumes o: "outgoing c i m s" and l: "loaded c m name s"
    and r: "fs_rename (live_of m) (slot_of m) (st_fs s) = Inr fs"
  shows "between c i m name (s\<lparr>st_fs := fs\<rparr>)"
proof -
  let ?s = "s\<lparr>st_fs := fs\<rparr>"
  have co: "committed c i m s" using o by (simp add: outgoing_def)
  obtain b where b: "node (st_fs s) (live_of m) = Some b" and w: "fs_within {live_of m, slot_of m} s ?s"
    and n: "\<And>l. node fs l = (if l = slot_of m then Some b else if l = live_of m then None else node (st_fs s) l)"
    by (rule rename_within [OF r committed_trees [OF co]]) blast
  have rev: "2 \<le> am_revision m" and mo: "meta_ok s m" using co by (auto simp: committed_def update_intent_of_def site_def)
  have co': "committed c i m ?s"
    by (rule committed_within [OF w _ _ co]) (use rev in \<open>auto simp: history_loc_inject\<close>)
  have "past_ok c ?s (am_id m) (am_revision m - 1) = past_ok c s (am_id m) (am_revision m - 1)"
    by (rule past_ok_moved [OF mo, where k = "am_revision m - 1"]) (use rev n in \<open>auto simp: revs_of_def\<close>)
  then have p: "past_ok c ?s (am_id m) (am_revision m - 1)" using o by (simp add: outgoing_def)
  have d: "body_digest_at_path c (st_fs ?s) (slot_of m) (am_is_bundle m) = Some (di_prior_sha256 i)"
    using o b n by (simp add: outgoing_def live_is_def body_digest_at_path_def)
  have "live_loc (am_id m) (am_is_bundle m) \<noteq> Entry name"
    using live_not_transient [OF committed_valid [OF co]] l by (metis loaded_def)
  then show ?thesis unfolding between_def
    using co' past_ok_extend [OF co' p d] d l n
    by (auto simp: loaded_def live_absent_def body_digest_at_path_def)
qed

lemma move_back:
  assumes o: "between c i m name s" and r: "fs_rename (slot_of m) (live_of m) (st_fs s) = Inr fs"
  shows "outgoing c i m (s\<lparr>st_fs := fs\<rparr>)"
proof -
  let ?s = "s\<lparr>st_fs := fs\<rparr>"
  have co: "committed c i m s" using o by (simp add: between_def)
  obtain b where b: "node (st_fs s) (slot_of m) = Some b" and w: "fs_within {slot_of m, live_of m} s ?s"
    and n: "\<And>l. node fs l = (if l = live_of m then Some b else if l = slot_of m then None else node (st_fs s) l)"
    by (rule rename_within [OF r committed_trees [OF co]]) blast
  have rev: "2 \<le> am_revision m" and mo: "meta_ok s m" using co by (auto simp: committed_def update_intent_of_def site_def)
  have co': "committed c i m ?s"
    by (rule committed_within [OF w _ _ co]) (use rev in \<open>auto simp: history_loc_inject\<close>)
  have "past_ok c ?s (am_id m) (am_revision m - 1) = past_ok c s (am_id m) (am_revision m - 1)"
    by (rule past_ok_moved [OF mo, where k = "am_revision m - 1"]) (use rev n in \<open>auto simp: revs_of_def\<close>)
  then have "past_ok c ?s (am_id m) (am_revision m - 1)"
    using o past_ok_mono [of c s "am_id m" "am_revision m"] by (simp add: between_def)
  then show ?thesis using co' o b n
    by (simp add: outgoing_def between_def live_is_def slot_ok_def body_digest_at_path_def)
qed

definition arriving :: "StoreContext \<Rightarrow> DurabilityIntent \<Rightarrow> ArtifactMeta \<Rightarrow> string \<Rightarrow> store \<Rightarrow> bool" where
  "arriving c i m name s \<longleftrightarrow> committed c i m s \<and> loaded c m name s \<and> past_ok c s (am_id m) (am_revision m)"

lemma between_arriving: "between c i m name s \<Longrightarrow> arriving c i m name s"
  by (simp add: between_def arriving_def loaded_def)

lemma move_in:
  assumes o: "arriving c i m name s" and r: "fs_rename (Entry name) (live_of m) (st_fs s) = Inr fs"
  shows "swapped c i m (s\<lparr>st_fs := fs\<rparr>)"
proof -
  let ?s = "s\<lparr>st_fs := fs\<rparr>"
  have co: "committed c i m s" using o by (simp add: arriving_def)
  obtain b where b: "node (st_fs s) (Entry name) = Some b" and w: "fs_within {Entry name, live_of m} s ?s"
    and n: "\<And>l. node fs l = (if l = live_of m then Some b else if l = Entry name then None else node (st_fs s) l)"
    by (rule rename_within [OF r committed_trees [OF co]]) blast
  have p: "same_past (am_id m) s ?s" by (rule same_past_fs [OF w]) simp
  have "committed c i m ?s"
    by (rule same_past_committed [OF p w _ co]) (use o in \<open>auto simp: arriving_def loaded_def\<close>)
  then show ?thesis using o b n past_same [OF p]
    by (simp add: swapped_def arriving_def loaded_def live_is_def body_digest_at_path_def)
qed

text \<open>A temporary of the history directory: none of the revision slots.\<close>

definition scratch_loc :: "string \<Rightarrow> loc \<Rightarrow> bool" where
  "scratch_loc a t \<longleftrightarrow> (\<exists>k. t = history_snapshot_temp_loc a k \<or> t = metadata_recovery_temp_loc a k)"

lemma scratch_simps:
  assumes "scratch_loc a t"
  shows "owned a t" "history_loc e n b \<noteq> t" "live_loc e b \<noteq> t" "Entry name \<noteq> t"
proof -
  show "owned a t" "history_loc e n b \<noteq> t" "live_loc e b \<noteq> t" using assms by (auto simp: scratch_loc_def)
  show "Entry name \<noteq> t"
    using assms by (auto simp: scratch_loc_def history_snapshot_temp_loc_def metadata_recovery_temp_loc_def)
qed

lemma scratch_locs [simp]: "scratch_loc a (history_snapshot_temp_loc a k)" "scratch_loc a (metadata_recovery_temp_loc a k)"
  by (auto simp: scratch_loc_def)

lemma copy_in:
  assumes o: "outgoing c i m s" and e: "di_prior_sha256 i = am_body_sha256 m" and sc: "scratch_loc (am_id m) t"
    and t: "body_digest_at_path c (st_fs s) t (am_is_bundle m) = Some (am_body_sha256 m)"
    and r: "fs_rename t (slot_of m) (st_fs s) = Inr fs"
  shows "outgoing c i m (s\<lparr>st_fs := fs\<rparr>) \<and> swapped c i m (s\<lparr>st_fs := fs\<rparr>)"
proof -
  let ?s = "s\<lparr>st_fs := fs\<rparr>"
  note sc' = scratch_simps [OF sc]
  have co: "committed c i m s" using o by (simp add: outgoing_def)
  obtain b where b: "node (st_fs s) t = Some b" and w: "fs_within {t, slot_of m} s ?s"
    and n: "\<And>l. node fs l = (if l = slot_of m then Some b else if l = t then None else node (st_fs s) l)"
    by (rule rename_within [OF r committed_trees [OF co]]) blast
  have rev: "2 \<le> am_revision m" and mo: "meta_ok s m" using co by (auto simp: committed_def update_intent_of_def site_def)
  have co': "committed c i m ?s"
    by (rule committed_within [OF w _ _ co]) (use rev sc' in \<open>auto simp: history_loc_inject\<close>)
  have "node fs (history_loc (am_id m) x y) = node (st_fs s) (history_loc (am_id m) x y)"
    if "history_loc (am_id m) x y \<noteq> slot_of m" for x y using n that sc' by simp
  moreover have "history_loc (am_id m) (rv_revision q) (rv_is_bundle q) \<noteq> slot_of m"
    if "q \<in> set (revs_of s (am_id m))" "rv_revision q < am_revision m - 1" for q
    using that rev mo by (auto simp: history_loc_inject meta_ok_def list_all_iff)
  moreover have "revs_of ?s (am_id m) = revs_of s (am_id m)" by (simp add: revs_of_def)
  ultimately have p: "past_ok c ?s (am_id m) (am_revision m - 1)"
    using o by (auto simp: outgoing_def past_ok_def list_all_iff body_digest_at_path_def)
  have d: "body_digest_at_path c (st_fs ?s) (slot_of m) (am_is_bundle m) = Some (di_prior_sha256 i)"
    using t b n e by (simp add: body_digest_at_path_def)
  have li: "live_is c ?s m (di_prior_sha256 i)" using o n sc' by (simp add: outgoing_def live_is_def body_digest_at_path_def)
  show ?thesis using co' p d li past_ok_extend [OF co' p d] e by (simp add: outgoing_def swapped_def slot_ok_def)
qed

lemma outgoing_live: "outgoing c i m s \<Longrightarrow> path_exists (st_fs s) (live_of m)"
  by (auto simp: outgoing_def dest: live_is_exists)

lemma outgoing_scratch:
  assumes "confined {t} k" and "scratch_loc (am_id m) t"
  shows "triple (crash_ok c) (outgoing c i m) k (\<lambda>_. outgoing c i m) (\<lambda>_. outgoing c i m)"
  by (rule outgoing_confined [OF assms(1)]) (use scratch_simps [OF assms(2)] in auto)

text \<open>Copying the outgoing body to a temporary of the history directory.\<close>

lemma copy_out:
  assumes e: "di_prior_sha256 i = am_body_sha256 m" and sc: "scratch_loc (am_id m) t"
  shows "triple (crash_ok c) (\<lambda>s. outgoing c i m s \<and> node (st_fs s) t = None) (copy_recursive (live_of m) t)
    (\<lambda>_ s. outgoing c i m s \<and> body_digest_at_path c (st_fs s) t (am_is_bundle m) = Some (am_body_sha256 m))
    (\<lambda>_. outgoing c i m)"
proof (rule triple_pre [OF triple_exists])
  let ?D = "\<lambda>b. body_digest c (Some b) (am_is_bundle m) = Some (am_body_sha256 m)"
  fix b
  have t: "t \<noteq> live_of m" using scratch_simps(3) [OF sc] by metis
  have copy: "triple (crash_ok c) (\<lambda>s. outgoing c i m s \<and> holds (live_of m) b s \<and> trees_ok (st_fs s) \<and> node (st_fs s) t = None)
      (copy_recursive (live_of m) t) (\<lambda>_ s. outgoing c i m s \<and> holds t b s) (\<lambda>_. outgoing c i m)"
    by (rule triple_conseq [OF triple_crash [OF triple_conj [OF outgoing_scratch [OF confined_copy sc] copy_recursive_holds [OF t, of b]]]])
      auto
  show "triple (crash_ok c) (\<lambda>s. (outgoing c i m s \<and> holds (live_of m) b s \<and> trees_ok (st_fs s) \<and> node (st_fs s) t = None) \<and> ?D b)
      (copy_recursive (live_of m) t)
      (\<lambda>_ s. outgoing c i m s \<and> body_digest_at_path c (st_fs s) t (am_is_bundle m) = Some (am_body_sha256 m)) (\<lambda>_. outgoing c i m)"
    by (rule triple_fact [where R = "?D b"], blast, rule triple_conseq [OF copy])
      (auto simp: holds_def body_digest_at_path_def)
next
  fix s assume p: "outgoing c i m s \<and> node (st_fs s) t = None"
  then obtain b where "node (st_fs s) (live_of m) = Some b" using outgoing_live [of c i m s] by (auto simp: path_exists_def)
  with p e show "\<exists>b. (outgoing c i m s \<and> holds (live_of m) b s \<and> trees_ok (st_fs s) \<and> node (st_fs s) t = None) \<and>
      body_digest c (Some b) (am_is_bundle m) = Some (am_body_sha256 m)"
    by (intro exI [of _ b]) (auto simp: outgoing_def live_is_def holds_def body_digest_at_path_def dest: committed_trees)
qed

section \<open>Swapping\<close>

text \<open>The request side: the row before the commit, and the staged entry.\<close>

definition before_row :: "ArtifactMeta \<Rightarrow> ArtifactMeta \<Rightarrow> DurabilityIntent \<Rightarrow> bool" where
  "before_row m' m i \<longleftrightarrow> am_id m' = am_id m \<and> am_is_bundle m' = am_is_bundle m \<and>
     am_revision m' = am_revision m - 1 \<and> am_body_sha256 m' = di_prior_sha256 i"

definition staged_ready :: "StoreContext \<Rightarrow> DurabilityIntent \<Rightarrow> ArtifactMeta \<Rightarrow> string option \<Rightarrow> store \<Rightarrow> bool" where
  "staged_ready c i m staged s \<longleftrightarrow>
     (case staged of None \<Rightarrow> di_prior_sha256 i = am_body_sha256 m | Some name \<Rightarrow> loaded c m name s)"

definition swap_ready :: "StoreContext \<Rightarrow> DurabilityIntent \<Rightarrow> ArtifactMeta \<Rightarrow> string option \<Rightarrow> store \<Rightarrow> bool" where
  "swap_ready c i m staged s \<longleftrightarrow> outgoing c i m s \<and> staged_ready c i m staged s"

definition snapshot_done ::
    "StoreContext \<Rightarrow> DurabilityIntent \<Rightarrow> ArtifactMeta \<Rightarrow> string option \<Rightarrow> BodySnapshot \<Rightarrow> store \<Rightarrow> bool" where
  "snapshot_done c i m staged snap s \<longleftrightarrow> bs_source snap = live_of m \<and> bs_destination snap = slot_of m \<and>
     (case staged of None \<Rightarrow> \<not> bs_moved snap \<and> outgoing c i m s \<and> swapped c i m s
      | Some name \<Rightarrow> bs_moved snap \<and> between c i m name s)"

lemma snapshot_done_crash_ok: "snapshot_done c i m staged snap s \<Longrightarrow> crash_ok c s"
  by (auto simp: snapshot_done_def intro: swap_crash_ok split: option.splits)

definition snapshot_failed :: "StoreContext \<Rightarrow> DurabilityIntent \<Rightarrow> ArtifactMeta \<Rightarrow> string option \<Rightarrow> store \<Rightarrow> bool" where
  "snapshot_failed c i m staged s \<longleftrightarrow> outgoing c i m s \<or> (\<exists>name. staged = Some name \<and> between c i m name s)"

lemma ready_confined:
  assumes "confined L k" and "\<And>l. l \<in> L \<Longrightarrow> \<exists>x. l = history_snapshot_temp_loc (am_id m) x"
  shows "triple (crash_ok c) (swap_ready c i m staged) k (\<lambda>_. swap_ready c i m staged) (\<lambda>_. swap_ready c i m staged)"
proof (rule triple_confined [OF assms(1)])
  fix s s' assume r: "swap_ready c i m staged s" and w: "fs_within L s s'"
  have no: "l \<notin> L" if "\<forall>x. l \<noteq> history_snapshot_temp_loc (am_id m) x" for l using assms(2) that by blast
  have "outgoing c i m s'"
    by (rule swap_within(1) [OF w]) (use assms(2) r no in \<open>fastforce simp: swap_ready_def\<close>)+
  moreover have "node (st_fs s') (Entry name) = node (st_fs s) (Entry name)" for name
    by (rule fs_within_views(6) [OF w no]) (simp add: history_snapshot_temp_loc_def)
  ultimately show "swap_ready c i m staged s'"
    using r by (auto simp: swap_ready_def staged_ready_def loaded_def body_digest_at_path_def split: option.splits)
qed (auto simp: swap_ready_def outgoing_def intro: swap_crash_ok(1) dest: committed_trees)

lemma snapshot_move_safe:
  assumes "before_row m' m i"
  shows "triple (crash_ok c) (\<lambda>s. swap_ready c i m (Some name) s \<and> \<not> path_exists (st_fs s) (slot_of m))
     (op_bind (rename_with_barrier c (live_of m) (slot_of m) UpdateSnapshotBarrier) (\<lambda>_.
        op_return \<lparr> bs_source = live_of m, bs_destination = slot_of m, bs_moved = True \<rparr>))
     (snapshot_done c i m (Some name)) (\<lambda>_. snapshot_failed c i m (Some name))"
proof -
  have 1: "triple (crash_ok c) (\<lambda>s. swap_ready c i m (Some name) s \<and> \<not> path_exists (st_fs s) (slot_of m))
     (durable_rename (live_of m) (slot_of m)) (\<lambda>_. between c i m name) (\<lambda>_. snapshot_failed c i m (Some name))"
    unfolding durable_rename_def
    by (rule triple_on_fs)
      (auto simp: swap_ready_def staged_ready_def snapshot_failed_def intro: move_out swap_crash_ok(2))
  show ?thesis unfolding rename_with_barrier_def
    by (intro triple_bind [OF triple_bind [OF 1 triple_bare_fault]] triple_return)
      (auto simp: snapshot_failed_def snapshot_done_def)
qed

lemma snapshot_copy_safe:
  "triple (crash_ok c) (\<lambda>s. swap_ready c i m None s \<and> \<not> path_exists (st_fs s) (history_snapshot_temp_loc (am_id m) k))
     (op_bind (copy_recursive (live_of m) (history_snapshot_temp_loc (am_id m) k)) (\<lambda>_.
      op_bind (sync_with_barrier c (history_snapshot_temp_loc (am_id m) k) UpdateSnapshotFileSync) (\<lambda>_.
      op_bind (rename_with_barrier c (history_snapshot_temp_loc (am_id m) k) (slot_of m) UpdateSnapshotBarrier) (\<lambda>_.
      op_return \<lparr> bs_source = live_of m, bs_destination = slot_of m, bs_moved = False \<rparr>))))
     (snapshot_done c i m None) (\<lambda>_. snapshot_failed c i m None)"
proof (rule triple_fact)
  let ?t = "history_snapshot_temp_loc (am_id m) k"
  let ?C = "\<lambda>s. outgoing c i m s \<and> body_digest_at_path c (st_fs s) ?t (am_is_bundle m) = Some (am_body_sha256 m)"
  show "di_prior_sha256 i = am_body_sha256 m" if "swap_ready c i m None s \<and> \<not> path_exists (st_fs s) ?t" for s
    using that by (simp add: swap_ready_def staged_ready_def)
  assume e: "di_prior_sha256 i = am_body_sha256 m"
  have 1: "triple (crash_ok c) (\<lambda>s. swap_ready c i m None s \<and> \<not> path_exists (st_fs s) ?t)
      (copy_recursive (live_of m) ?t) (\<lambda>_. ?C) (\<lambda>_. snapshot_failed c i m None)"
    by (rule triple_conseq [OF copy_out [OF e]]) (auto simp: swap_ready_def path_exists_def snapshot_failed_def)
  have 2: "triple (crash_ok c) ?C (durable_rename ?t (slot_of m))
      (\<lambda>_ s. outgoing c i m s \<and> swapped c i m s) (\<lambda>_. snapshot_failed c i m None)"
    unfolding durable_rename_def
    by (rule triple_on_fs) (auto simp: snapshot_failed_def dest: copy_in [OF _ e scratch_locs(1)] intro: swap_crash_ok(3))
  show "triple (crash_ok c) (\<lambda>s. swap_ready c i m None s \<and> \<not> path_exists (st_fs s) ?t)
     (op_bind (copy_recursive (live_of m) ?t) (\<lambda>_.
      op_bind (sync_with_barrier c ?t UpdateSnapshotFileSync) (\<lambda>_.
      op_bind (rename_with_barrier c ?t (slot_of m) UpdateSnapshotBarrier) (\<lambda>_.
      op_return \<lparr> bs_source = live_of m, bs_destination = slot_of m, bs_moved = False \<rparr>))))
     (snapshot_done c i m None) (\<lambda>_. snapshot_failed c i m None)"
    unfolding rename_with_barrier_def
    by (intro triple_bind [OF 1] triple_bind [OF sync_keeps] triple_bind [OF triple_bind [OF 2 triple_bare_fault]] triple_return)
      (auto simp: snapshot_failed_def snapshot_done_def)
qed

lemma snapshot_body_safe:
  assumes "before_row m' m i"
  shows "triple (crash_ok c) (swap_ready c i m staged) (snapshot_body c m' (staged \<noteq> None))
     (snapshot_done c i m staged) (\<lambda>_. snapshot_failed c i m staged)"
proof -
  have b: "am_id m' = am_id m" "am_is_bundle m' = am_is_bundle m" "am_revision m' = am_revision m - 1"
    using assms by (simp_all add: before_row_def)
  have f: "snapshot_failed c i m staged s" if "swap_ready c i m staged s" for s
    using that by (simp add: snapshot_failed_def swap_ready_def)
  let ?t = "history_snapshot_temp_loc (am_id m) (am_revision m - 1)"
  let ?P = "\<lambda>x y s. ((swap_ready c i m staged s \<and> x = path_exists (st_fs s) (live_of m)) \<and> y = path_exists (st_fs s) (slot_of m))"
  have hist: "triple (crash_ok c) (\<lambda>s. swap_ready c i m staged s \<and> x = path_exists (st_fs s) (live_of m))
      (create_history_dir c (am_id m)) (\<lambda>_. swap_ready c i m staged) (\<lambda>_. snapshot_failed c i m staged)" for x
    by (rule triple_conseq [OF ready_confined [OF confined_create_history_dir [of "{}"]]]) (auto intro: f)
  have move: "triple (crash_ok c) (\<lambda>s. swap_ready c i m staged s \<and> False = path_exists (st_fs s) (slot_of m))
     (op_bind (rename_with_barrier c (live_of m) (slot_of m) UpdateSnapshotBarrier) (\<lambda>_.
        op_return \<lparr> bs_source = live_of m, bs_destination = slot_of m, bs_moved = True \<rparr>))
     (snapshot_done c i m staged) (\<lambda>_. snapshot_failed c i m staged)" if "staged = Some name" for name
    unfolding that by (rule triple_pre [OF snapshot_move_safe [OF assms]]) auto
  have copy: "triple (crash_ok c) (\<lambda>s. (swap_ready c i m staged s \<and> x = path_exists (st_fs s) (slot_of m)) \<and> y = path_exists (st_fs s) ?t)
     (op_bind (copy_recursive (live_of m) ?t) (\<lambda>_.
      op_bind (sync_with_barrier c ?t UpdateSnapshotFileSync) (\<lambda>_.
      op_bind (rename_with_barrier c ?t (slot_of m) UpdateSnapshotBarrier) (\<lambda>_.
      op_return \<lparr> bs_source = live_of m, bs_destination = slot_of m, bs_moved = False \<rparr>))))
     (snapshot_done c i m staged) (\<lambda>_. snapshot_failed c i m staged)" if "\<not> staged \<noteq> None" "\<not> y" for x y
    using that by (auto intro: triple_pre [OF snapshot_copy_safe])
  show ?thesis
    unfolding snapshot_body_def Let_def b
  proof (intro triple_bind_ask triple_if triple_bind [OF hist] triple_raise copy)
    show "triple (crash_ok c) (\<lambda>s. swap_ready c i m staged s \<and> x = path_exists (st_fs s) (slot_of m))
     (op_bind (rename_with_barrier c (live_of m) (slot_of m) UpdateSnapshotBarrier) (\<lambda>_.
        op_return \<lparr> bs_source = live_of m, bs_destination = slot_of m, bs_moved = True \<rparr>))
     (snapshot_done c i m staged) (\<lambda>_. snapshot_failed c i m staged)" if "\<not> x" "staged \<noteq> None" for x
      using move that by auto
  qed (use f in auto)
qed

end
