(* ===== verification/Crash_Update.thy ===== *)
theory Crash_Update
  imports Crash_Swap
begin

text \<open>
  The compensations of an update (src/src/artifacts/lifecycle/body_swap.rs and update.rs): from
  every point of the swap they lead back to the body the reverted metadata names.
\<close>

definition undo_state ::
    "StoreContext \<Rightarrow> DurabilityIntent \<Rightarrow> ArtifactMeta \<Rightarrow> string option \<Rightarrow> BodySnapshot option \<Rightarrow> store \<Rightarrow> bool" where
  "undo_state c i m staged snapshot s \<longleftrightarrow>
     (case snapshot of None \<Rightarrow> outgoing c i m s | Some snap \<Rightarrow> snapshot_done c i m staged snap s)"

lemma undo_state_crash_ok: "undo_state c i m staged snapshot s \<Longrightarrow> crash_ok c s"
  by (auto simp: undo_state_def intro: swap_crash_ok(1) snapshot_done_crash_ok split: option.splits)

definition swap_failed ::
    "StoreContext \<Rightarrow> DurabilityIntent \<Rightarrow> ArtifactMeta \<Rightarrow> string option \<Rightarrow> Interrupt \<times> BodySnapshot option \<Rightarrow> store \<Rightarrow> bool" where
  "swap_failed c i m staged e s \<longleftrightarrow>
     (if compensate (fst e) then undo_state c i m staged (snd e) s else crash_ok c s)"

lemma undo_failed: "undo_state c i m staged snapshot s \<Longrightarrow> swap_failed c i m staged (e, snapshot) s"
  using undo_state_crash_ok by (simp add: swap_failed_def)

lemma install_new:
  assumes "transient_of (am_id m) name"
  shows "triple (crash_ok c) (between c i m name) (rename_with_barrier c (Entry name) (live_of m) UpdateSwapBarrier)
    (\<lambda>_. swapped c i m) (\<lambda>_ s. between c i m name s \<or> crash_ok c s \<and> path_exists (st_fs s) (live_of m) \<and> \<not> path_exists (st_fs s) (Entry name))"
proof -
  let ?S = "\<lambda>s. swapped c i m s \<and> path_exists (st_fs s) (live_of m) \<and> \<not> path_exists (st_fs s) (Entry name)"
  have 1: "triple (crash_ok c) (between c i m name) (durable_rename (Entry name) (live_of m)) (\<lambda>_. ?S)
     (\<lambda>_ s. between c i m name s \<or> crash_ok c s \<and> path_exists (st_fs s) (live_of m) \<and> \<not> path_exists (st_fs s) (Entry name))"
    unfolding durable_rename_def
  proof (rule triple_on_fs)
    fix s fs assume b: "between c i m name s" and r: "fs_rename (Entry name) (live_of m) (st_fs s) = Inr fs"
    have sw: "swapped c i m (s\<lparr>st_fs := fs\<rparr>)" by (rule move_in [OF between_arriving [OF b] r])
    have "live_of m \<noteq> Entry name"
      by (rule live_not_transient [OF _ assms]) (use b committed_valid in \<open>auto simp: between_def\<close>)
    then have "path_exists fs (live_of m) \<and> \<not> path_exists fs (Entry name)"
      using fs_rename_effect [OF r] by (auto simp: path_exists_def)
    then show "crash_ok c (s\<lparr>st_fs := fs\<rparr>) \<and> ?S (s\<lparr>st_fs := fs\<rparr>)" using sw swap_crash_ok(3) by auto
  qed auto
  show ?thesis unfolding rename_with_barrier_def
    by (rule triple_bind [OF 1 triple_bare_fault_any]) (auto intro: swap_crash_ok(3))
qed

lemma swap_body_safe:
  assumes b: "before_row m' m i"
  shows "triple (crash_ok c) (swap_ready c i m staged) (swap_body c m' staged)
    (\<lambda>_. swapped c i m) (swap_failed c i m staged)"
proof -
  have e: "am_id m' = am_id m" "am_is_bundle m' = am_is_bundle m" "am_revision m' = am_revision m - 1" "am_body_sha256 m' = di_prior_sha256 i"
    using b by (simp_all add: before_row_def)
  have 1: "triple (crash_ok c) (swap_ready c i m staged) (op_tag None (fault (sc_faults c) UpdateSnapshot))
      (\<lambda>_. swap_ready c i m staged) (swap_failed c i m staged)"
    by (intro triple_tag triple_fault undo_failed) (simp add: undo_state_def swap_ready_def)
  have 2: "triple (crash_ok c) (snapshot_failed c i m staged)
     (op_bind (ask (snapshot_retained c m' (staged \<noteq> None))) (\<lambda>retained.
            op_raise (\<lparr> error = x, compensate = \<not> retained \<rparr>, None)))
     (snapshot_done c i m staged) (swap_failed c i m staged)" for x
  proof (rule triple_bind_ask, rule triple_raise)
    fix r s assume f: "snapshot_failed c i m staged s \<and> r = snapshot_retained c m' (staged \<noteq> None) s"
    then have "crash_ok c s" using swap_crash_ok by (auto simp: snapshot_failed_def)
    moreover have "outgoing c i m s" if "\<not> r"
      using f that
      by (auto simp: snapshot_failed_def snapshot_retained_def e Let_def between_def live_absent_def path_exists_def
          dest!: digest_exists)
    ultimately show "swap_failed c i m staged (\<lparr> error = x, compensate = \<not> r \<rparr>, None) s"
      by (simp add: swap_failed_def undo_state_def)
  qed
  have 3: "triple (crash_ok c) (snapshot_done c i m staged snap) (op_tag (Some snap) (fault (sc_faults c) UpdateSwap))
      (\<lambda>_. snapshot_done c i m staged snap) (swap_failed c i m staged)" for snap
    by (intro triple_tag triple_fault undo_failed) (simp add: undo_state_def)
  have 4: "triple (crash_ok c) (snapshot_done c i m (Some name) snap)
     (op_catch (rename_with_barrier c (Entry name) (live_of m) UpdateSwapBarrier)
       (\<lambda>e. op_bind (ask (\<lambda>s. path_exists (st_fs s) (live_of m) \<and> \<not> path_exists (st_fs s) (Entry name))) (\<lambda>moved.
                op_raise (\<lparr> error = e, compensate = \<not> moved \<rparr>, Some snap))))
     (\<lambda>_. swapped c i m) (swap_failed c i m (Some name))" for name snap
  proof (rule triple_fact [where R = "transient_of (am_id m) name \<and> bs_source snap = live_of m \<and> bs_destination snap = slot_of m \<and> bs_moved snap"])
    assume t: "transient_of (am_id m) name \<and> bs_source snap = live_of m \<and> bs_destination snap = slot_of m \<and> bs_moved snap"
    show ?thesis
    proof (rule triple_pre [OF triple_catch [OF install_new]])
      fix e
      show "triple (crash_ok c) (\<lambda>s. between c i m name s \<or> crash_ok c s \<and> path_exists (st_fs s) (live_of m) \<and> \<not> path_exists (st_fs s) (Entry name))
         (op_bind (ask (\<lambda>s. path_exists (st_fs s) (live_of m) \<and> \<not> path_exists (st_fs s) (Entry name))) (\<lambda>moved.
                op_raise (\<lparr> error = e, compensate = \<not> moved \<rparr>, Some snap)))
         (\<lambda>_. swapped c i m) (swap_failed c i m (Some name))"
        by (intro triple_bind_ask triple_raise)
          (use t in \<open>auto simp: swap_failed_def undo_state_def snapshot_done_def intro: swap_crash_ok(2)\<close>)
    qed (use t in \<open>auto simp: snapshot_done_def\<close>)
  qed (auto simp: snapshot_done_def between_def)
  show ?thesis
    unfolding swap_body_def e(1,2)
  proof (intro triple_bind [OF 1] triple_bind [OF triple_catch [OF snapshot_body_safe [OF b] 2]] triple_bind [OF 3])
    show "triple (crash_ok c) (snapshot_done c i m staged snap)
     (case staged of None \<Rightarrow> op_return ()
     | Some path \<Rightarrow>
         op_catch (rename_with_barrier c (Entry path) (live_of m) UpdateSwapBarrier)
           (\<lambda>e. op_bind (ask (\<lambda>s. path_exists (st_fs s) (live_of m) \<and> \<not> path_exists (st_fs s) (Entry path))) (\<lambda>moved.
                op_raise (\<lparr> error = e, compensate = \<not> moved \<rparr>, Some snap))))
     (\<lambda>_. swapped c i m) (swap_failed c i m staged)" for snap
    proof (cases staged)
      case None
      then show ?thesis by (auto intro!: triple_return simp: snapshot_done_def)
    qed (use 4 in simp)
  qed
qed

section \<open>Undoing a committed update\<close>

definition prepared :: "StoreContext \<Rightarrow> DurabilityIntent \<Rightarrow> ArtifactMeta \<Rightarrow> store \<Rightarrow> bool" where
  "prepared c i m s \<longleftrightarrow> site c m i s \<and> at_rest c s m \<and> di_operation i = ''update'' \<and>
     di_id i = update_id (am_id m) (am_revision m + 1) \<and> di_prior_sha256 i = am_body_sha256 m"

lemma prepared_crash_ok: "prepared c i m s \<Longrightarrow> crash_ok c s"
  by (rule site_crash_ok [of c m i]) (auto simp: prepared_def pending_ok_def update_prepared_def)

lemma prepared_closed: "prepared c i m s \<Longrightarrow> closed (di_id i) s s' \<Longrightarrow> crash_ok c s'"
  by (erule closed_rest [of i s s' c m]) (auto simp: prepared_def)

lemma prepared_within:
  assumes "fs_within L s s'" and "\<And>l. l \<in> L \<Longrightarrow> owned (am_id m) l" and "\<And>n b. history_loc (am_id m) n b \<notin> L"
    and "live_loc (am_id m) (am_is_bundle m) \<notin> L" and "prepared c i m s"
  shows "prepared c i m s'"
proof -
  have p: "same_past (am_id m) s s'" by (rule same_past_fs [OF assms(1)]) (rule assms(3))
  show ?thesis
    using assms(5) fs_within_site [OF assms(1,2)] history_ok_same [OF p] fs_within_views(6) [OF assms(1,4)]
    by (simp add: prepared_def at_rest_def live_is_def body_digest_at_path_def)
qed

lemma prepared_confined:
  assumes "confined L k" and "\<And>l. l \<in> L \<Longrightarrow> owned (am_id m) l" and "\<And>n b. history_loc (am_id m) n b \<notin> L"
    and "live_loc (am_id m) (am_is_bundle m) \<notin> L"
  shows "triple (crash_ok c) (prepared c i m) k (\<lambda>_. prepared c i m) (\<lambda>_. prepared c i m)"
  by (rule triple_confined [OF assms(1) prepared_within [OF _ assms(2-4)] prepared_crash_ok])
    (auto simp: prepared_def dest: site_trees)

text \<open>The row the commit wrote, and the row before it.\<close>

definition reverted_meta :: "ArtifactMeta \<Rightarrow> ArtifactMeta \<Rightarrow> ArtifactMeta" where
  "reverted_meta m' m = m\<lparr>am_title := am_title m', am_description := am_description m', am_bytes := am_bytes m',
     am_entry := am_entry m', am_category := am_category m', am_body_sha256 := am_body_sha256 m',
     am_revision := am_revision m', am_updated_at := am_updated_at m'\<rparr>"

lemma revert_prepared:
  assumes o: "outgoing c i m s" and b: "before_row m' m i" and rm: "reverted_meta m' m = m'"
    and t: "revert_transaction (am_id m') (meta_before m') s = Inr (x, s')"
  shows "prepared c i m' s'"
proof -
  let ?a = "am_id m"
  let ?f = "reverted_meta m'"
  have e: "am_id m' = ?a" "am_is_bundle m' = am_is_bundle m" "am_revision m' = am_revision m - 1" "am_body_sha256 m' = di_prior_sha256 i"
    using b by (simp_all add: before_row_def)
  have co: "committed c i m s" using o by (simp add: outgoing_def)
  then have si: "site c m i s" and ui: "update_intent_of i m" by (simp_all add: committed_def)
  have mo: "meta_ok s m" and v: "is_valid_artifact_id ?a" and f: "focus c ?a s" and rows: "rows_of s ?a = [m]"
    using si by (auto simp: site_def focus_def)
  have u: "u64_saturating_add (am_revision m') 1 = am_revision m"
    using mo e by (simp add: meta_ok_def u64_saturating_add_def u64_max_def i64_max_def)
  have s': "s' = s\<lparr>st_revisions := sql_delete (\<lambda>r. rv_artifact_id r = ?a \<and> rv_revision r = am_revision m) (st_revisions s),
      st_artifacts := sql_update (\<lambda>q. am_id q = ?a) ?f (st_artifacts s)\<rparr>"
    using t unfolding reverted_meta_def [abs_def]
    by (auto simp: revert_transaction_def meta_before_def as_i64_def u result_simps e(1) split: if_splits)
  have rows': "rows_of s' d = sql_update (\<lambda>q. am_id q = ?a) ?f (rows_of s d)" for d
    unfolding s' rows_of_def by (simp add: filter_sql_update_id reverted_meta_def)
  have revs': "revs_of s' d = filter (\<lambda>r. \<not> (d = ?a \<and> rv_revision r = am_revision m)) (revs_of s d)" for d
    unfolding s' revs_of_def sql_delete_def by (auto intro: filter_cong)
  have ot: "rows_of s' d = rows_of s d" if "d \<noteq> ?a" for d
    unfolding rows' using that by (intro sql_update_noop) (auto simp: rows_of_def)
  have ra: "rows_of s' ?a = [m']" unfolding rows' using rows rm by (simp add: sql_update_def)
  have sub: "set (revs_of s' ?a) \<subseteq> set (revs_of s ?a)" unfolding revs' by auto
  have unt: "untouched ?a s s'" using ot revs' by (auto simp: untouched_def same_view_def s' intents_of_def)
  have "base_ok s'" using f by (auto simp: s' focus_def base_ok_def set_sql_update reverted_meta_def)
  then have "focus c ?a s'" using focus_step [OF f unt] by blast
  moreover have "meta_ok s' m'"
    using mo sub ui e by (auto simp: meta_ok_def list_all_iff update_intent_of_def)
  moreover have "pending ?a i s'" using si by (simp add: site_def pending_def s' intents_of_def)
  ultimately have si': "site c m' i s'" using ra e by (simp add: site_def)
  have "at_rest c s' m'"
    using o co e sub
    by (auto simp: at_rest_def history_ok_def outgoing_def committed_def past_ok_def list_all_iff revision_digest_def
        slot_ok_def no_future_def live_is_def s' revs_of_def sql_delete_def)
  then show ?thesis using si' ui e by (simp add: prepared_def update_intent_of_def)
qed

lemma restore_snapshot_safe:
  "triple (crash_ok c) (undo_state c i m staged snapshot) (restore_snapshot_body c snapshot)
    (\<lambda>_. outgoing c i m) (\<lambda>_. crash_ok c)"
proof -
  have r: "triple (crash_ok c) (snapshot_done c i m staged snap)
     (op_bind (ask (\<lambda>s. path_exists (st_fs s) (bs_destination snap))) (\<lambda>present.
         if \<not> bs_moved snap \<or> \<not> present then op_return ()
         else durable_rename (bs_destination snap) (bs_source snap))) (\<lambda>_. outgoing c i m) (\<lambda>_. crash_ok c)" for snap
  proof (rule triple_bind_ask, rule triple_if)
    show "triple (crash_ok c) (\<lambda>s. snapshot_done c i m staged snap s \<and> x = path_exists (st_fs s) (bs_destination snap))
       (op_return ()) (\<lambda>_. outgoing c i m) (\<lambda>_. crash_ok c)" if "\<not> bs_moved snap \<or> \<not> x" for x
      by (rule triple_return)
        (use that in \<open>auto simp: snapshot_done_def between_def dest: digest_exists split: option.splits\<close>)
    show "triple (crash_ok c) (\<lambda>s. snapshot_done c i m staged snap s \<and> x = path_exists (st_fs s) (bs_destination snap))
       (durable_rename (bs_destination snap) (bs_source snap)) (\<lambda>_. outgoing c i m) (\<lambda>_. crash_ok c)"
      if "\<not> (\<not> bs_moved snap \<or> \<not> x)" for x
      unfolding durable_rename_def
      by (rule triple_on_fs)
        (use that in \<open>auto simp: snapshot_done_def split: option.splits intro: move_back swap_crash_ok\<close>)
  qed
  show ?thesis unfolding restore_snapshot_body_def
  proof (rule triple_bind [OF triple_bare_fault])
    show "triple (crash_ok c) (undo_state c i m staged snapshot)
     (case snapshot of None \<Rightarrow> op_return ()
      | Some snap \<Rightarrow> op_bind (ask (\<lambda>s. path_exists (st_fs s) (bs_destination snap))) (\<lambda>present.
         if \<not> bs_moved snap \<or> \<not> present then op_return ()
         else durable_rename (bs_destination snap) (bs_source snap))) (\<lambda>_. outgoing c i m) (\<lambda>_. crash_ok c)"
    proof (cases snapshot)
      case None
      then show ?thesis by (auto simp: undo_state_def intro: triple_return)
    next
      case (Some snap)
      show ?thesis unfolding Some option.case by (rule triple_pre [OF r]) (simp add: undo_state_def)
    qed
  qed (rule undo_state_crash_ok)
qed

lemma remove_staged_confined:
  assumes "\<And>name. staged = Some name \<Longrightarrow> transient_of a name"
  shows "confined {Entry name | name. transient_of a name} (remove_staged staged)"
  unfolding remove_staged_def using assms by (auto intro!: confined_intro split: option.split)

lemma transient_set_frame:
  assumes "is_valid_artifact_id a"
  shows "l \<in> {Entry name | name. transient_of a name} \<Longrightarrow> owned a l"
    "history_loc a n b \<notin> {Entry name | name. transient_of a name}"
    "live_loc a b \<notin> {Entry name | name. transient_of a name}"
  using live_not_transient [OF assms] by auto

lemma update_compensation_safe:
  assumes b: "before_row m' m i" and rm: "reverted_meta m' m = m'" and st: "\<And>name. staged = Some name \<Longrightarrow> transient_of (am_id m) name"
  shows "triple (crash_ok c) (undo_state c i m staged snapshot) (update_compensation c m' staged audit operation snapshot)
    (\<lambda>_. crash_ok c) (\<lambda>_. crash_ok c)"
proof (rule triple_fact [where R = "is_valid_artifact_id (am_id m) \<and> di_id i = update_intent m'"])
  show "is_valid_artifact_id (am_id m) \<and> di_id i = update_intent m'" if "undo_state c i m staged snapshot s" for s
  proof -
    have "committed c i m s"
      using that by (auto simp: undo_state_def snapshot_done_def outgoing_def between_def split: option.splits)
    then show ?thesis using committed_valid b
      by (auto simp: committed_def update_intent_of_def site_def before_row_def update_intent_def update_id_def
          meta_ok_def u64_saturating_add_def u64_max_def i64_max_def)
  qed
  assume va: "is_valid_artifact_id (am_id m) \<and> di_id i = update_intent m'"
  have e: "am_id m' = am_id m" "am_is_bundle m' = am_is_bundle m" using b by (simp_all add: before_row_def)
  have 1: "triple (crash_ok c) (outgoing c i m) (remove_staged staged) (\<lambda>_. outgoing c i m) (\<lambda>_. crash_ok c)"
    by (rule triple_post [OF outgoing_confined [OF remove_staged_confined [OF st]]])
      (use va transient_set_frame in \<open>auto intro: swap_crash_ok\<close>)
  have 2: "triple (crash_ok c) (outgoing c i m) (revert_update c m' (meta_before m')) (\<lambda>_. prepared c i m') (\<lambda>_. crash_ok c)"
    unfolding revert_update_def
    by (rule triple_bind [OF triple_bare_fault triple_step])
      (use revert_prepared [OF _ b rm] prepared_crash_ok swap_crash_ok(1) in blast)+
  have "confined {history_snapshot_temp_loc (am_id m') (am_revision m')} (remove_snapshot_temporary c m')"
    unfolding remove_snapshot_temporary_def Let_def by (intro confined_intro) auto
  then have 3: "triple (crash_ok c) (prepared c i m') (remove_snapshot_temporary c m') (\<lambda>_. prepared c i m') (\<lambda>_. crash_ok c)"
    by (rule triple_post [OF prepared_confined]) (auto intro: prepared_crash_ok)
  have 4: "triple (crash_ok c) (prepared c i m')
     (cancel_compensated_audit_intent c audit (update_intent m') operation (am_id m') (Some (u64_saturating_add (am_revision m') 1)))
     (\<lambda>_. crash_ok c) (\<lambda>_. crash_ok c)"
    by (rule triple_post [OF cancel_closed [where P = "prepared c i m'"]])
      (use prepared_closed va in \<open>auto intro: prepared_crash_ok\<close>)
  show ?thesis unfolding update_compensation_def
    by (rule triple_bind [OF restore_snapshot_safe triple_bind [OF 1 triple_bind [OF 2 triple_bind [OF 3 4]]]])
qed

section \<open>Pruning and completing\<close>

lemma swapped_drop_revision:
  assumes "swapped c i m s"
  shows "swapped c i m (s\<lparr>st_revisions := sql_delete (\<lambda>r. rv_artifact_id r = am_id m \<and> rv_revision r = n) (st_revisions s)\<rparr>)"
proof -
  let ?s = "s\<lparr>st_revisions := sql_delete (\<lambda>r. rv_artifact_id r = am_id m \<and> rv_revision r = n) (st_revisions s)\<rparr>"
  have si: "site c m i s" using assms by (simp add: swapped_def committed_def)
  have revs: "revs_of ?s d = filter (\<lambda>r. \<not> (d = am_id m \<and> rv_revision r = n)) (revs_of s d)" for d
    unfolding revs_of_def by (auto simp: sql_delete_def intro: filter_cong)
  have "untouched (am_id m) s ?s" by (simp add: untouched_def same_view_def revs rows_of_def intents_of_def)
  moreover have "base_ok ?s" using si by (simp add: site_def focus_def base_ok_def)
  ultimately have "focus c (am_id m) ?s" using focus_step si by (auto simp: site_def)
  then have "site c m i ?s" using si
    by (auto simp: site_def meta_ok_def list_all_iff revs pending_def rows_of_def intents_of_def)
  then show ?thesis using assms
    by (auto simp: swapped_def committed_def revision_digest_def past_ok_def list_all_iff revs no_future_def live_is_def)
qed

lemma prune_step_safe:
  assumes "n < am_revision m"
  shows "triple (crash_ok c) (swapped c i m)
     (op_bind (step (\<lambda>s. Inr ((), s\<lparr>st_revisions :=
           sql_delete (\<lambda>r. rv_artifact_id r = am_id m \<and> rv_revision r = n) (st_revisions s)\<rparr>))) (\<lambda>_.
       if n < 0 then op_return () else safe_remove (history_loc (am_id m) n b)))
     (\<lambda>_. swapped c i m) (\<lambda>_ :: AppError. crash_ok c)"
proof -
  let ?P = "\<lambda>s. swapped c i m s \<and> (\<forall>r \<in> set (revs_of s (am_id m)). rv_revision r \<noteq> n)"
  let ?l = "history_loc (am_id m) n b"
  have 1: "triple (crash_ok c) (swapped c i m) (step (\<lambda>s. Inr ((), s\<lparr>st_revisions :=
           sql_delete (\<lambda>r. rv_artifact_id r = am_id m \<and> rv_revision r = n) (st_revisions s)\<rparr>))) (\<lambda>_. ?P) (\<lambda>_ :: AppError. crash_ok c)"
  proof (rule triple_step)
    fix s x s' assume sw: "swapped c i m s" and e: "Inr ((), s\<lparr>st_revisions :=
      sql_delete (\<lambda>r. rv_artifact_id r = am_id m \<and> rv_revision r = n) (st_revisions s)\<rparr>) = (Inr (x, s') :: AppError + _)"
    have "swapped c i m s'" using swapped_drop_revision [OF sw, of n] e by simp
    moreover have "\<forall>r \<in> set (revs_of s' (am_id m)). rv_revision r \<noteq> n" using e by (auto simp: revs_of_def sql_delete_def)
    ultimately show "crash_ok c s' \<and> ?P s'" using swap_crash_ok(3) by blast
  qed simp
  have 2: "triple (crash_ok c) ?P (safe_remove ?l :: unit store_op) (\<lambda>_. ?P) (\<lambda>_. ?P)" if n: "\<not> n < 0"
  proof (rule triple_confined [where L = "{?l}"])
    show "confined {?l} (safe_remove ?l)" by (intro confined_intro) simp
    fix s s' assume p: "?P s" and w: "fs_within {?l} s s'"
    have si: "site c m i s" "meta_ok s m" "committed c i m s" using p by (auto simp: swapped_def committed_def site_def)
    have "committed c i m s'"
      by (rule committed_within [OF w _ _ si(3)]) (use assms n in \<open>auto simp: history_loc_inject\<close>)
    moreover have "history_loc (am_id m) (rv_revision r) (rv_is_bundle r) \<noteq> ?l" if "r \<in> set (revs_of s (am_id m))" for r
      using p si(2) n that by (auto simp: history_loc_inject meta_ok_def list_all_iff)
    ultimately show "?P s'"
      using p fs_within_views [OF w]
      by (auto simp: swapped_def past_ok_def list_all_iff body_digest_at_path_def live_is_def)
  qed (auto intro: swap_crash_ok(3) simp: swapped_def dest: committed_trees)
  show ?thesis
    by (intro triple_bind [OF 1] triple_if triple_return triple_post [OF 2]) (auto intro: swap_crash_ok(3))
qed

lemma prune_history_safe:
  "triple (crash_ok c) (swapped c i m) (prune_history c (am_id m)) (\<lambda>_. swapped c i m) (\<lambda>_. crash_ok c)"
  unfolding prune_history_def
proof (rule triple_bind_ask, rule triple_fact)
  fix rows
  show "\<forall>x \<in> set rows. fst x < am_revision m" if "swapped c i m s \<and> rows = prunable c (am_id m) s" for s
  proof -
    have "rows_of s (am_id m) = [m]" using that by (auto simp: swapped_def committed_def site_def)
    then have "List.find (\<lambda>q. am_id q = am_id m) (st_artifacts s) = Some m"
      unfolding rows_of_def by (rule find_filter_Cons)
    then show ?thesis using that by (auto simp: prunable_def split: if_splits dest!: in_set_dropD)
  qed
  assume lt: "\<forall>x \<in> set rows. fst x < am_revision m"
  show "triple (crash_ok c) (\<lambda>s. swapped c i m s \<and> rows = prunable c (am_id m) s)
    (op_each (\<lambda>(revision, is_bundle).
       op_bind (step (\<lambda>s. Inr ((), s\<lparr>st_revisions :=
           sql_delete (\<lambda>r. rv_artifact_id r = am_id m \<and> rv_revision r = revision) (st_revisions s)\<rparr>))) (\<lambda>_.
       if revision < 0 then op_return () else safe_remove (history_loc (am_id m) revision is_bundle))) rows)
    (\<lambda>_. swapped c i m) (\<lambda>_ :: AppError. crash_ok c)"
  proof (rule triple_pre [OF triple_each_mem])
    fix x assume x: "x \<in> set rows"
    obtain n b where nb: "x = (n, b)" by (cases x)
    show "triple (crash_ok c) (swapped c i m) (case x of (revision, is_bundle) \<Rightarrow>
       op_bind (step (\<lambda>s. Inr ((), s\<lparr>st_revisions :=
           sql_delete (\<lambda>r. rv_artifact_id r = am_id m \<and> rv_revision r = revision) (st_revisions s)\<rparr>))) (\<lambda>_.
       if revision < 0 then op_return () else safe_remove (history_loc (am_id m) revision is_bundle)))
      (\<lambda>_. swapped c i m) (\<lambda>_ :: AppError. crash_ok c)"
      unfolding nb prod.case by (rule prune_step_safe) (use lt x nb in auto)
  qed auto
qed

lemma finish_update_safe:
  assumes b: "before_row m' m i" and rm: "reverted_meta m' m = m'" and st: "\<And>name. staged = Some name \<Longrightarrow> transient_of (am_id m) name"
  shows "triple (crash_ok c) (swap_ready c i m staged) (finish_update_body c m' staged audit operation)
    (\<lambda>r s. visible c m s \<and> r = \<lparr> ur_meta = m, ur_changed = True \<rparr>) (\<lambda>_. crash_ok c)"
proof (rule triple_fact [where R = "is_valid_artifact_id (am_id m) \<and> di_id i = update_intent m'"])
  show "is_valid_artifact_id (am_id m) \<and> di_id i = update_intent m'" if "swap_ready c i m staged s" for s
    using that b committed_valid [of c i m s]
    by (auto simp: swap_ready_def outgoing_def committed_def update_intent_of_def site_def before_row_def update_intent_def
        update_id_def meta_ok_def u64_saturating_add_def u64_max_def i64_max_def)
  assume va: "is_valid_artifact_id (am_id m) \<and> di_id i = update_intent m'"
  have e: "am_id m' = am_id m" using b by (simp add: before_row_def)
  have own: "intent_owner (update_intent m') = am_id m" using intent_owner_simps(3) va e by blast
  have 1: "triple (crash_ok c) (swap_failed c i m staged es)
     (case es of (interrupt, snapshot) \<Rightarrow>
          op_bind (if compensate interrupt then update_compensation c m' staged audit operation snapshot
                   else op_return ()) (\<lambda>_.
          op_raise (error interrupt))) (\<lambda>_. swapped c i m) (\<lambda>_. crash_ok c)" for es
  proof (cases es)
    case (Pair interrupt snapshot)
    show ?thesis unfolding Pair prod.case
      by (rule triple_bind [where R = "\<lambda>_. crash_ok c"], rule triple_if)
        (auto simp: swap_failed_def intro: triple_pre [OF update_compensation_safe [OF b rm st]] triple_return triple_raise)
  qed
  have 2: "triple (crash_ok c) (swapped c i m) (step (advance_durability_intent (update_intent m') ''body_durable''))
      (\<lambda>_. swapped c i m) (\<lambda>_. crash_ok c)"
  proof (rule triple_post [OF advance_keeps [where a = "am_id m" and i = i]])
    fix s s' assume sw: "swapped c i m s" and s': "untouched (am_id m) s s'" "base_ok s'" "rows_of s' (am_id m) = rows_of s (am_id m)"
      "revs_of s' (am_id m) = revs_of s (am_id m)" "st_fs s' = st_fs s" "pending (am_id m) i s'"
    have p: "same_past (am_id m) s s'" using s' by (simp add: same_past_def)
    show "swapped c i m s'" using sw site_step [OF _ s'(1-4,6)] past_same [OF p] s'(5)
      by (simp add: swapped_def committed_def live_is_def)
  qed (use own va swap_crash_ok(3) in \<open>auto simp: swapped_def committed_def dest: site_pending\<close>)
  have 3: "triple (crash_ok c) (swapped c i m) (finalize_audit_and_intent c audit (update_intent m') operation (am_id m)
         (Some (u64_saturating_add (am_revision m') 1))) (\<lambda>_. visible c m) (\<lambda>_. crash_ok c)"
    by (rule triple_post [OF finalize_closed [where P = "swapped c i m" and Q = "visible c m"]])
      (use swapped_closed va in \<open>auto intro: swap_crash_ok(3) visible_crash_ok\<close>)
  have 4: "triple (crash_ok c) (visible c m) (op_bind (query (\<lambda>s. load_meta s (am_id m))) (\<lambda>found.
     case found of None \<Rightarrow> op_raise Internal | Some meta \<Rightarrow> op_return \<lparr> ur_meta = meta, ur_changed = True \<rparr>))
     (\<lambda>r s. visible c m s \<and> r = \<lparr> ur_meta = m, ur_changed = True \<rparr>) (\<lambda>_. crash_ok c)"
  proof (rule triple_bind [OF triple_query [where Q = "\<lambda>found s. visible c m s \<and> (\<forall>q. found = Some q \<longrightarrow> q = m)"]])
    show "visible c m s \<and> (\<forall>q. found = Some q \<longrightarrow> q = m)" if "visible c m s" "load_meta s (am_id m) = Inr found" for s found
    proof (intro conjI allI impI)
      fix q assume "found = Some q"
      then have "am_id q = am_id m \<and> visible c q s"
        using load_meta_visible [OF visible_crash_ok [OF that(1)]] that(2) by blast
      then show "q = m" using visible_unique [OF that(1)] by blast
    qed (rule that(1))
    show "triple (crash_ok c) (\<lambda>s. visible c m s \<and> (\<forall>q. found = Some q \<longrightarrow> q = m))
       (case found of None \<Rightarrow> op_raise Internal | Some meta \<Rightarrow> op_return \<lparr> ur_meta = meta, ur_changed = True \<rparr>)
       (\<lambda>r s. visible c m s \<and> r = \<lparr> ur_meta = m, ur_changed = True \<rparr>) (\<lambda>_. crash_ok c)" for found
      by (rule triple_option) (auto intro!: triple_raise triple_return intro: visible_crash_ok)
  qed (rule visible_crash_ok)
  show ?thesis unfolding finish_update_body_def e
    by (intro triple_bind [OF triple_catch [OF swap_body_safe [OF b] 1]] triple_bind [OF 2] triple_bind [OF triple_bare_fault]
        triple_bind [OF prune_history_safe] triple_bind [OF 3] 4 swap_crash_ok(3))
qed

end
