(* ===== verification/Crash_Commit.thy ===== *)
theory Crash_Commit
  imports Crash_Update
begin

text \<open>
  The whole update and the restore (src/src/artifacts/lifecycle/update.rs and trash.rs): planning,
  staging, the metadata transaction, the swap and the final settlement.
\<close>

section \<open>The metadata transaction of an update\<close>

definition committed_meta :: "string \<Rightarrow> ArtifactMeta \<Rightarrow> UpdatePlan \<Rightarrow> ArtifactMeta" where
  "committed_meta now m plan =
     m\<lparr>am_title := up_title plan, am_description := up_description plan, am_bytes := up_bytes plan,
       am_entry := up_entry plan, am_category := up_category plan, am_body_sha256 := up_body_sha256 plan,
       am_revision := am_revision m + 1, am_updated_at := now\<rparr>"

lemma legacy_row_effect:
  assumes "record_legacy_revision_row m now s = Inr s'"
  shows "st_artifacts s' = st_artifacts s" "st_intents s' = st_intents s" "st_fs s' = st_fs s"
    "revs_of s' b = revs_of s b \<or>
     b = am_id m \<and> revs_of s' b = revs_of s b @ [revision_row m None now] \<and> 1 \<le> am_revision m"
  using assms
  by (auto simp: record_legacy_revision_row_def result_simps Let_def revs_of_def revision_row_def split: if_splits)

lemma record_row_effect:
  assumes "record_revision_row m client now s = Inr s'"
  shows "st_artifacts s' = st_artifacts s" "st_intents s' = st_intents s" "st_fs s' = st_fs s"
    "am_revision m \<le> i64_max"
    "revs_of s' b = (if b = am_id m then filter (\<lambda>r. rv_revision r \<noteq> am_revision m) (revs_of s b) @ [revision_row m client now]
       else revs_of s b)"
proof -
  have s': "s' = s\<lparr>st_revisions := sql_delete (same_revision (revision_row m client now)) (st_revisions s) @ [revision_row m client now]\<rparr>"
    and le: "am_revision m \<le> i64_max"
    using assms by (auto simp: record_revision_row_def result_simps Let_def as_i64_def split: if_splits)
  show "st_artifacts s' = st_artifacts s" "st_intents s' = st_intents s" "st_fs s' = st_fs s" "am_revision m \<le> i64_max"
    using s' le by simp_all
  show "revs_of s' b = (if b = am_id m then filter (\<lambda>r. rv_revision r \<noteq> am_revision m) (revs_of s b) @ [revision_row m client now]
       else revs_of s b)"
    unfolding s' revs_of_def
    by (auto simp: sql_delete_def same_revision_def revision_row_def intro: filter_cong)
qed

lemma update_transaction_parts:
  assumes "update_transaction c n m revision plan acting intent audit operation s = Inr (Some s')"
  obtains s2 s3 s4 s5 u where
    "core s2 = core (s\<lparr>st_artifacts := sql_update (guarded_row m revision)
        (\<lambda>q. q\<lparr>am_title := up_title plan, am_description := up_description plan, am_bytes := up_bytes plan,
               am_entry := up_entry plan, am_category := up_category plan, am_body_sha256 := up_body_sha256 plan,
               am_revision := am_revision q + 1, am_updated_at := sc_datetime c n\<rparr>) (st_artifacts s)\<rparr>)"
    "record_legacy_revision_row m (sc_datetime c n) s2 = Inr s3"
    "record_revision_row (produced_meta m plan) acting (sc_datetime c n) s3 = Inr s4"
    "core s5 = core s4" "advance_durability_intent intent ''metadata_committed'' s5 = Inr (u, s')"
  using assms
  by (auto simp: update_transaction_def result_simps Let_def split: if_splits
      dest!: reserve_audit_core fanout_delivery_core)

lemma update_transaction_views:
  assumes t: "update_transaction c n m (am_revision m) plan acting intent audit operation s = Inr (Some s')"
    and rows: "rows_of s (am_id m) = [m]" and rev: "1 \<le> am_revision m" "am_revision m \<le> i64_max"
    and b: "base_ok s" and own: "intent_owner intent = am_id m" and v: "is_valid_artifact_id (am_id m)"
  shows "rows_of s' (am_id m) = [committed_meta (sc_datetime c n) m plan]" "am_revision m + 1 \<le> i64_max"
    "untouched (am_id m) s s'" "base_ok s'" "st_fs s' = st_fs s" "pending (am_id m) i s \<Longrightarrow> pending (am_id m) i s'"
    "\<And>r. r \<in> set (revs_of s' (am_id m)) \<Longrightarrow> r \<in> set (revs_of s (am_id m)) \<and> rv_revision r \<noteq> am_revision m + 1 \<or>
       r = revision_row m None (sc_datetime c n) \<or> r = revision_row (produced_meta m plan) acting (sc_datetime c n)"
proof -
  let ?new = "\<lambda>q. q\<lparr>am_title := up_title plan, am_description := up_description plan, am_bytes := up_bytes plan,
       am_entry := up_entry plan, am_category := up_category plan, am_body_sha256 := up_body_sha256 plan,
       am_revision := am_revision q + 1, am_updated_at := sc_datetime c n\<rparr>"
  let ?arts = "sql_update (guarded_row m (am_revision m)) ?new (st_artifacts s)"
  obtain s2 s3 s4 s5 u where s2: "core s2 = core (s\<lparr>st_artifacts := ?arts\<rparr>)"
    and s3: "record_legacy_revision_row m (sc_datetime c n) s2 = Inr s3"
    and s4: "record_revision_row (produced_meta m plan) acting (sc_datetime c n) s3 = Inr s4"
    and s5: "core s5 = core s4" and s6: "advance_durability_intent intent ''metadata_committed'' s5 = Inr (u, s')"
    by (rule update_transaction_parts [OF t])
  have pm: "am_id (produced_meta m plan) = am_id m" "am_revision (produced_meta m plan) = am_revision m + 1"
    using rev by (simp_all add: produced_meta_def u64_saturating_add_def u64_max_def i64_max_def)
  show "am_revision m + 1 \<le> i64_max" using record_row_effect(4) [OF s4] pm by simp
  have tab: "st_artifacts s5 = ?arts" "st_intents s5 = st_intents s" "st_fs s5 = st_fs s"
    using s2 s5 legacy_row_effect [OF s3] record_row_effect [OF s4] by (auto simp: core_def)
  have rows2: "rows_of s5 d = sql_update (guarded_row m (am_revision m)) ?new (rows_of s d)" for d
    unfolding rows_of_def tab by (rule filter_sql_update_id) simp
  have revs2: "revs_of s2 d = revs_of s d" for d using s2 by (simp add: core_def revs_of_def)
  have revs5: "revs_of s5 d = (if d = am_id m then filter (\<lambda>r. rv_revision r \<noteq> am_revision m + 1) (revs_of s3 d)
      @ [revision_row (produced_meta m plan) acting (sc_datetime c n)] else revs_of s3 d)" for d
    using record_row_effect(5) [OF s4] s5 pm by (simp add: core_def revs_of_def)
  have b5: "base_ok s5" using b by (auto simp: base_ok_def tab set_sql_update)
  have unt5: "untouched (am_id m) s s5" unfolding untouched_def same_view_def
  proof (intro allI impI conjI)
    fix d assume d: "is_valid_artifact_id d \<and> d \<noteq> am_id m"
    show "rows_of s5 d = rows_of s d" unfolding rows2
      by (rule sql_update_noop) (use d in \<open>auto simp: rows_of_def guarded_row_def\<close>)
    show "revs_of s5 d = revs_of s d" using revs5 revs2 legacy_row_effect(4) [OF s3, of d] d by auto
  qed (simp_all add: tab intents_of_def)
  note adv = advance_intent_pending [OF s6 b5 own v]
  show "rows_of s' (am_id m) = [committed_meta (sc_datetime c n) m plan]"
    unfolding adv(3) rows2 rows by (simp add: sql_update_def guarded_row_def committed_meta_def)
  show "untouched (am_id m) s s'" by (rule untouched_trans [OF unt5 adv(1)])
  show "base_ok s'" by (rule adv(2))
  show "st_fs s' = st_fs s" using adv(5) tab by simp
  show "pending (am_id m) i s'" if "pending (am_id m) i s"
    using that tab by (intro adv(6)) (simp add: pending_def intents_of_def)
  show "r \<in> set (revs_of s (am_id m)) \<and> rv_revision r \<noteq> am_revision m + 1 \<or>
       r = revision_row m None (sc_datetime c n) \<or> r = revision_row (produced_meta m plan) acting (sc_datetime c n)"
    if "r \<in> set (revs_of s' (am_id m))" for r
    using that legacy_row_effect(4) [OF s3, of "am_id m"] unfolding adv(4) revs5 revs2 by auto
qed

lemma update_transaction_outgoing:
  assumes p: "prepared c i m s" and e: "di_expected_sha256 i = up_body_sha256 plan"
    and t: "update_transaction c n m (am_revision m) plan acting (di_id i) audit operation s = Inr (Some s')"
  defines "m' \<equiv> committed_meta (sc_datetime c n) m plan"
  shows "outgoing c i m' s'" "before_row m m' i" "reverted_meta m m' = m"
proof -
  have si: "site c m i s" and ar: "at_rest c s m" and up: "di_operation i = ''update''"
    "di_id i = update_id (am_id m) (am_revision m + 1)" "di_prior_sha256 i = am_body_sha256 m"
    using p by (simp_all add: prepared_def)
  have f: "focus c (am_id m) s" "rows_of s (am_id m) = [m]" "pending (am_id m) i s" "meta_ok s m"
    "base_ok s" "is_valid_artifact_id (am_id m)"
    using si by (auto simp: site_def focus_def)
  have own: "intent_owner (di_id i) = am_id m" using up intent_owner_simps(2) [OF f(6)] by simp
  have rev: "1 \<le> am_revision m" "am_revision m \<le> i64_max" using f(4) by (auto simp: meta_ok_def)
  note vw = update_transaction_views [OF t f(2) rev f(5) own f(6)]
  have m': "am_id m' = am_id m" "am_is_bundle m' = am_is_bundle m" "am_revision m' = am_revision m + 1"
    "am_body_sha256 m' = up_body_sha256 plan"
    by (simp_all add: m'_def committed_meta_def)
  show "before_row m m' i" using up m' by (simp add: before_row_def)
  show "reverted_meta m m' = m" by (simp add: reverted_meta_def m'_def committed_meta_def)
  have pm: "am_revision (produced_meta m plan) = am_revision m + 1"
    using rev by (simp add: produced_meta_def u64_saturating_add_def u64_max_def i64_max_def)
  have row: "rv_is_bundle r = am_is_bundle m \<and> 1 \<le> rv_revision r \<and>
      (rv_revision r < am_revision m \<longrightarrow> r \<in> set (revs_of s (am_id m))) \<and>
      (rv_revision r = am_revision m \<longrightarrow> rv_body_sha256 r = am_body_sha256 m) \<and>
      (rv_revision r = am_revision m + 1 \<longrightarrow> rv_body_sha256 r = up_body_sha256 plan)"
    if "r \<in> set (revs_of s' (am_id m))" for r
    using vw(7) [OF that] f(4) ar rev pm
    by (auto simp: meta_ok_def list_all_iff at_rest_def history_ok_def revision_digest_def revision_row_def produced_meta_def)
  have "focus c (am_id m) s'" by (rule focus_step [OF f(1) vw(3,4)])
  then have "site c m' i s'"
    using vw(1,2) vw(6) [OF f(3)] row rev m' by (auto simp: site_def meta_ok_def list_all_iff m'_def)
  moreover have "update_intent_of i m'" using up e m' rev by (simp add: update_intent_of_def)
  ultimately have "committed c i m' s'"
    using row ar m' up by (auto simp: committed_def revision_digest_def list_all_iff at_rest_def history_ok_def no_future_def vw(5))
  then show "outgoing c i m' s'"
    using row ar m' up
    by (auto simp: outgoing_def at_rest_def history_ok_def live_is_def past_ok_def list_all_iff slot_ok_def vw(5))
qed

section \<open>Planning and staging\<close>

definition plan_body :: "UpdatePlan \<Rightarrow> body" where
  "plan_body plan = (case up_body plan of Single html \<Rightarrow> File html | BundleBody files \<Rightarrow> Tree files | NoBody \<Rightarrow> Tree [])"

definition plan_ok :: "StoreContext \<Rightarrow> ArtifactMeta \<Rightarrow> UpdatePlan \<Rightarrow> bool" where
  "plan_ok c m plan \<longleftrightarrow>
     (if up_content_changed plan
      then up_body plan \<noteq> NoBody \<and> body_digest c (Some (plan_body plan)) (am_is_bundle m) = Some (up_body_sha256 plan) \<and>
           (\<forall>files. up_body plan = BundleBody files \<longrightarrow> distinct (map fst files) \<and> (\<forall>f \<in> set files. canonical_key (fst f)))
      else up_body_sha256 plan = am_body_sha256 m)"

lemma plan_update_ok:
  assumes "plan_update c m update s = Inr plan"
    and "\<And>content. au_content update = Some content \<Longrightarrow> distinct_content content"
  shows "plan_ok c m plan"
proof (cases "au_content update")
  case None
  then show ?thesis using assms(1)
    by (auto simp: plan_update_def update_content_def result_simps Let_def plan_ok_def)
next
  case (Some content)
  show ?thesis
  proof (cases content)
    case (SingleHtml html)
    then show ?thesis using assms(1) Some
      by (auto simp: plan_update_def update_content_def result_simps Let_def plan_ok_def plan_body_def body_digest_def
          validate_single_body_def split: if_splits)
  next
    case (Bundle files entry)
    show ?thesis
    proof (cases "files = [] \<and> entry \<noteq> None")
      case True
      then show ?thesis using assms(1) Some Bundle
        by (auto simp: plan_update_def update_content_def result_simps Let_def plan_ok_def split: if_splits option.splits)
    next
      case False
      then obtain v where v: "validate_bundle files entry (Some (am_entry m)) (sc_limits c) = Inr v"
        and plan: "up_body_sha256 plan = bundle_manifest_digest (sc_sha c) (sc_manifest_json c) (vbun_files v)"
          "up_body plan = (if up_content_changed plan then BundleBody (vbun_files v) else NoBody)"
          "up_content_changed plan \<longleftrightarrow> vbun_total_bytes v \<noteq> am_bytes m \<or> up_body_sha256 plan \<noteq> am_body_sha256 m"
        and b: "am_is_bundle m"
        using assms(1) Some Bundle
        by (auto simp: plan_update_def update_content_def result_simps Let_def split: if_splits)
      show ?thesis
        using validated_bundle [OF v] assms(2) [OF Some] Bundle plan b
        by (auto simp: plan_ok_def plan_body_def body_digest_def distinct_content_def)
    qed
  qed
qed

definition update_record :: "ArtifactMeta \<Rightarrow> UpdatePlan \<Rightarrow> string \<Rightarrow> DurabilityIntent" where
  "update_record m plan path =
     \<lparr> di_id = update_intent m, di_artifact_id = am_id m, di_operation = ''update'', di_state = ''prepared'',
       di_expected_sha256 = up_body_sha256 plan, di_prior_sha256 = am_body_sha256 m, di_staging_path = path \<rparr>"

lemma start_update_prepared:
  assumes "visible c m s"
    and t: "start_durability_intent (update_intent m) (am_id m) ''update'' (up_body_sha256 plan) (am_body_sha256 m) path s = Inr (x, s')"
  shows "prepared c (update_record m plan path) m s'" "st_fs s' = st_fs s"
proof -
  have v: "focus c (am_id m) s" "base_ok s" "is_valid_artifact_id (am_id m)" "intents_of s (am_id m) = []" "meta_ok s m"
    using assms(1) by (auto simp: visible_def focus_def)
  note eff = start_intent_pending [OF t v(2,3) intent_owner_simps(3) [OF v(3) refl] v(4)]
  have p: "same_past (am_id m) s s'" using eff by (simp add: same_past_def)
  have "site c m (update_record m plan path) s'"
    using focus_step [OF v(1) eff(1,2)] assms(1) eff by (simp add: site_def visible_def meta_ok_def update_record_def)
  moreover have "update_intent m = update_id (am_id m) (am_revision m + 1)"
    using v(5) by (simp add: update_intent_def update_id_def meta_ok_def u64_saturating_add_def u64_max_def i64_max_def)
  ultimately show "prepared c (update_record m plan path) m s'"
    using assms(1) history_ok_same [OF p] eff
    by (simp add: prepared_def update_record_def visible_def at_rest_def live_is_def)
  show "st_fs s' = st_fs s" by (rule eff(5))
qed

text \<open>What the staged entry holds before the commit.\<close>

definition update_ready :: "StoreContext \<Rightarrow> ArtifactMeta \<Rightarrow> UpdatePlan \<Rightarrow> string \<Rightarrow> string option \<Rightarrow> store \<Rightarrow> bool" where
  "update_ready c m plan path staged s \<longleftrightarrow> prepared c (update_record m plan path) m s \<and> transient_of (am_id m) path \<and>
     (case staged of None \<Rightarrow> up_body_sha256 plan = am_body_sha256 m
      | Some name \<Rightarrow> name = path \<and>
          body_digest_at_path c (st_fs s) (Entry path) (am_is_bundle m) = Some (up_body_sha256 plan))"

lemma prepared_transient:
  assumes "confined {Entry path} k" and "transient_of (am_id m) path"
  shows "triple (crash_ok c) (prepared c i m) k (\<lambda>_. prepared c i m) (\<lambda>_. prepared c i m)"
proof (rule triple_fact [where R = "is_valid_artifact_id (am_id m)"])
  assume "is_valid_artifact_id (am_id m)"
  from prepared_confined [OF assms(1)] assms(2) live_not_transient [OF this assms(2)]
  show ?thesis by auto
qed (simp add: prepared_def site_def focus_def)

lemma finish_prepared:
  assumes "di_id i = intent"
  shows "triple (crash_ok c) (prepared c i m) (step (finish_durability_intent intent)) (\<lambda>_. crash_ok c) (\<lambda>_. crash_ok c)"
  by (rule triple_post [OF triple_closing [where P = "prepared c i m" and intent = intent]])
    (use assms prepared_closed in \<open>auto intro: prepared_crash_ok finish_durability_closed\<close>)

lemma abandon_prepared:
  assumes "di_id i = update_intent m" and "\<And>name. staged = Some name \<Longrightarrow> transient_of (am_id m) name"
  shows "triple (crash_ok c) (prepared c i m) (abandon_update m staged :: (store, AppError, unit) op) (\<lambda>_. crash_ok c) (\<lambda>_. crash_ok c)"
    and "triple (crash_ok c) (prepared c i m) (remove_staged staged :: (store, AppError, unit) op) (\<lambda>_. prepared c i m) (\<lambda>_. prepared c i m)"
proof -
  show r: "triple (crash_ok c) (prepared c i m) (remove_staged staged :: (store, AppError, unit) op) (\<lambda>_. prepared c i m) (\<lambda>_. prepared c i m)"
  proof (cases staged)
    case None
    then show ?thesis by (auto simp: remove_staged_def intro: triple_return)
  next
    case (Some name)
    have "confined {Entry name} (safe_remove (Entry name) :: (store, AppError, unit) op)" by (intro confined_intro) simp
    from prepared_transient [OF this assms(2) [OF Some]] show ?thesis by (simp add: remove_staged_def Some)
  qed
  show "triple (crash_ok c) (prepared c i m) (abandon_update m staged :: (store, AppError, unit) op) (\<lambda>_. crash_ok c) (\<lambda>_. crash_ok c)"
    unfolding abandon_update_def
    by (rule triple_bind [OF triple_post [OF r] triple_ignore [OF finish_prepared]])
      (use assms(1) in \<open>auto intro: prepared_crash_ok\<close>)
qed

lemma stage_planned_safe:
  assumes "rooted_store c" and "plan_ok c m plan" and "up_content_changed plan" and t: "transient_of (am_id m) path"
    and "di_id i = update_intent m"
  shows "triple (crash_ok c) (\<lambda>s. prepared c i m s \<and> node (st_fs s) (Entry path) = None) (stage_planned_body c m plan path)
    (\<lambda>_ s. prepared c i m s \<and> body_digest_at_path c (st_fs s) (Entry path) (am_is_bundle m) = Some (up_body_sha256 plan))
    (\<lambda>_. crash_ok c)"
proof -
  let ?k = "case up_body plan of
            Single html \<Rightarrow> stage_single_body c (Entry path) html UpdateStageFileSync UpdateStageDirectorySync
          | BundleBody files \<Rightarrow> stage_bundle_files c path files UpdateStageFileSync UpdateStageDirectorySync
          | NoBody \<Rightarrow> op_return ()"
  let ?Q = "\<lambda>s. prepared c i m s \<and> body_digest_at_path c (st_fs s) (Entry path) (am_is_bundle m) = Some (up_body_sha256 plan)"
  have con: "confined {Entry path} ?k"
    using assms(1-3) unfolding plan_ok_def
    by (auto intro!: confined_intro confined_stage_bundle split: StagedBody.split)
  have h: "triple (\<lambda>_. True) (\<lambda>s. node (st_fs s) (Entry path) = None) ?k (\<lambda>_. holds (Entry path) (plan_body plan)) (\<lambda>_ _. True)"
    using assms(1-3) unfolding plan_ok_def plan_body_def
    by (auto intro!: stage_bundle_holds intro: triple_pre [OF stage_single_holds] split: StagedBody.split)
  have 1: "triple (crash_ok c) (\<lambda>s. prepared c i m s \<and> node (st_fs s) (Entry path) = None) ?k (\<lambda>_. ?Q) (\<lambda>_. prepared c i m)"
    by (rule triple_conseq [OF triple_crash [OF triple_conj [OF prepared_transient [OF con t] h]]])
      (use assms(2,3) in \<open>auto simp: plan_ok_def holds_def body_digest_at_path_def\<close>)
  have "confined {Entry path} (safe_remove (Entry path) :: unit store_op)" by (intro confined_intro) simp
  from prepared_transient [OF this t]
  have r: "triple (crash_ok c) (prepared c i m) (safe_remove (Entry path) :: unit store_op) (\<lambda>_. prepared c i m) (\<lambda>_. crash_ok c)"
    by (rule triple_post) (auto intro: prepared_crash_ok)
  show ?thesis unfolding stage_planned_body_def
    by (rule triple_catch [OF 1 triple_bind [OF r triple_bind [OF triple_ignore [OF finish_prepared [OF assms(5)]] triple_raise]]])
qed

lemma stage_update_safe:
  assumes "rooted_store c" and "plan_ok c m plan"
  shows "triple (crash_ok c) (\<lambda>s. visible c m s \<and> fresh_source c s) (stage_update_body c m plan)
    (\<lambda>staged s. \<exists>path. update_ready c m plan path staged s) (\<lambda>_. crash_ok c)"
proof (rule triple_fact [where R = "is_valid_artifact_id (am_id m)"])
  assume v: "is_valid_artifact_id (am_id m)"
  let ?V = "\<lambda>s. visible c m s \<and> fresh_source c s"
  let ?T = "\<lambda>path s. ?V s \<and> transient_of (am_id m) path \<and> node (st_fs s) (Entry path) = None"
  let ?R = "\<lambda>path s. prepared c (update_record m plan path) m s \<and> transient_of (am_id m) path \<and> node (st_fs s) (Entry path) = None"
  have 1: "triple (crash_ok c) ?V (transient_entry c (am_id m) Staging) ?T (\<lambda>_. crash_ok c)"
    by (rule transient_entry_fresh [OF v]) (auto intro: visible_crash_ok)
  have 2: "triple (crash_ok c) (?T path)
     (if up_content_changed plan then bare_fault (sc_faults c) UpdateStageWrite else op_return ()) (\<lambda>_. ?T path) (\<lambda>_. crash_ok c)" for path
    by (auto intro!: triple_bare_fault triple_return intro: visible_crash_ok)
  have 3: "triple (crash_ok c) (?T path) (step (start_durability_intent (update_intent m) (am_id m) ''update'' (up_body_sha256 plan)
         (am_body_sha256 m) path)) (\<lambda>_. ?R path) (\<lambda>_. crash_ok c)" for path
    by (rule triple_step) (auto dest: start_update_prepared [where plan = plan] intro: prepared_crash_ok visible_crash_ok)
  have 4: "triple (crash_ok c) (?R path)
     (if \<not> up_content_changed plan then op_return None
      else op_bind (stage_planned_body c m plan path) (\<lambda>_. op_return (Some path)))
     (\<lambda>staged s. \<exists>path. update_ready c m plan path staged s) (\<lambda>_. crash_ok c)" for path
  proof (rule triple_fact [where R = "transient_of (am_id m) path"])
    assume t: "transient_of (am_id m) path"
    have "triple (crash_ok c) (?R path) (op_bind (stage_planned_body c m plan path) (\<lambda>_. op_return (Some path)))
       (\<lambda>staged s. \<exists>path. update_ready c m plan path staged s) (\<lambda>_. crash_ok c)" if "up_content_changed plan"
      by (rule triple_pre [OF triple_bind [OF stage_planned_safe [OF assms that t, where i = "update_record m plan path"] triple_return]])
        (use t in \<open>auto simp: update_ready_def update_record_def\<close>)
    moreover have "triple (crash_ok c) (?R path) (op_return None :: string option store_op)
       (\<lambda>staged s. \<exists>path. update_ready c m plan path staged s) (\<lambda>_. crash_ok c)" if "\<not> up_content_changed plan"
      by (rule triple_return) (use that assms(2) in \<open>auto simp: update_ready_def plan_ok_def\<close>)
    ultimately show ?thesis by simp
  qed auto
  show ?thesis unfolding stage_update_body_def
    by (rule triple_bind [OF 1 triple_bind [OF 2 triple_bind [OF 3 4]]])
qed (simp add: visible_def focus_def)

section \<open>Update and restore\<close>

definition update_done :: "StoreContext \<Rightarrow> ArtifactMeta \<Rightarrow> UpdatePlan \<Rightarrow> string \<Rightarrow> string option \<Rightarrow> store \<Rightarrow> bool" where
  "update_done c m plan path staged s \<longleftrightarrow> (\<exists>m'. before_row m m' (update_record m plan path) \<and> reverted_meta m m' = m \<and>
     (\<forall>name. staged = Some name \<longrightarrow> transient_of (am_id m') name) \<and> swap_ready c (update_record m plan path) m' staged s)"

lemma update_ready_crash_ok: "update_ready c m plan path staged s \<Longrightarrow> crash_ok c s"
  by (auto simp: update_ready_def intro: prepared_crash_ok)

lemma commit_transaction_done:
  assumes r: "update_ready c m plan path staged s"
    and t: "update_transaction c n m (am_revision m) plan acting (update_intent m) audit operation s = Inr (Some s')"
  shows "update_done c m plan path staged s' \<and> crash_ok c s'"
proof -
  let ?i = "update_record m plan path" and ?m = "committed_meta (sc_datetime c n) m plan"
  have p: "prepared c ?i m s" using r by (simp add: update_ready_def)
  note out = update_transaction_outgoing [OF p, where plan = plan and n = n and acting = acting and audit = audit
      and operation = operation and s' = s']
  have o: "outgoing c ?i ?m s'" "before_row m ?m ?i" "reverted_meta m ?m = m"
    using out t by (simp_all add: update_record_def)
  have fs: "st_fs s' = st_fs s"
    by (rule update_transaction_views(5) [OF t]) (use p intent_owner_simps(3) in \<open>auto simp: prepared_def site_def meta_ok_def focus_def\<close>)
  have "staged_ready c ?i ?m staged s'"
    using r by (auto simp: update_ready_def staged_ready_def update_record_def committed_meta_def loaded_def fs split: option.splits)
  then have "update_done c m plan path staged s'"
    using o r by (auto simp: update_done_def swap_ready_def update_ready_def committed_meta_def split: option.splits intro!: exI [of _ ?m])
  then show ?thesis using swap_crash_ok(1) [OF o(1)] by blast
qed

lemma commit_update_safe:
  "triple (crash_ok c) (update_ready c m plan path staged)
    (commit_update c m (am_revision m) plan acting (update_intent m) audit operation)
    (\<lambda>committed s. if committed then update_done c m plan path staged s else update_ready c m plan path staged s)
    (\<lambda>_. update_ready c m plan path staged)"
  unfolding commit_update_def
proof (rule triple_bind [OF triple_draw [where Q = "\<lambda>_. update_ready c m plan path staged"]])
  fix n
  let ?t = "update_transaction c n m (am_revision m) plan acting (update_intent m) audit operation"
  let ?P = "\<lambda>planned s. update_ready c m plan path staged s \<and> ?t s = Inr planned"
  let ?Q = "\<lambda>committed s. if committed then update_done c m plan path staged s else update_ready c m plan path staged s"
  have 1: "triple (crash_ok c) (update_ready c m plan path staged) (query ?t) ?P (\<lambda>_. update_ready c m plan path staged)"
    by (rule triple_query) auto
  have 2: "triple (crash_ok c) (?P planned) (bare_fault (sc_faults c) UpdateCommitTransaction) (\<lambda>_. ?P planned)
      (\<lambda>_. update_ready c m plan path staged)" for planned
    by (rule triple_bare_fault) simp
  have 3: "triple (crash_ok c) (?P planned) (step (\<lambda>s. try_bind (?t s)
           (\<lambda>committed. case committed of None \<Rightarrow> Inr ((), s) | Some s' \<Rightarrow> Inr ((), s'))))
      (\<lambda>_. update_done c m plan path staged) (\<lambda>_. update_ready c m plan path staged)" if "planned \<noteq> None" for planned
    by (rule triple_step) (use that commit_transaction_done in \<open>auto simp: result_simps split: option.splits\<close>)
  show "triple (crash_ok c) (update_ready c m plan path staged)
     (op_bind (query ?t) (\<lambda>planned.
     if planned = None then op_return False
     else
       op_bind (bare_fault (sc_faults c) UpdateCommitTransaction) (\<lambda>_.
       op_bind (step (\<lambda>s. try_bind (?t s)
           (\<lambda>committed. case committed of None \<Rightarrow> Inr ((), s) | Some s' \<Rightarrow> Inr ((), s')))) (\<lambda>_.
       op_return True)))) ?Q (\<lambda>_. update_ready c m plan path staged)"
    by (intro triple_bind [OF 1] triple_if triple_return triple_bind [OF 2] triple_bind [OF 3]) auto
qed auto

lemma update_commit_safe:
  "triple (crash_ok c) (update_ready c m plan path staged)
    (update_commit c m (am_revision m) plan acting staged audit operation)
    (\<lambda>committed s. if committed then update_done c m plan path staged s else update_ready c m plan path staged s)
    (\<lambda>_. crash_ok c)"
  unfolding update_commit_def
proof (rule triple_catch [OF commit_update_safe], rule triple_bind_ask, rule triple_fact)
  let ?i = "update_record m plan path"
  fix e st
  show "\<forall>name. staged = Some name \<longrightarrow> transient_of (am_id m) name"
    if "update_ready c m plan path staged s \<and> st = durability_intent_state s (update_intent m)" for s
    using that by (auto simp: update_ready_def)
  assume t: "\<forall>name. staged = Some name \<longrightarrow> transient_of (am_id m) name"
  have "triple (crash_ok c) (prepared c ?i m)
     (op_bind (remove_staged staged) (\<lambda>_. step (finish_durability_intent (update_intent m))) :: unit store_op)
     (\<lambda>_. crash_ok c) (\<lambda>_. crash_ok c)"
    by (rule triple_bind [OF triple_post [OF abandon_prepared(2)] finish_prepared])
      (use t in \<open>auto simp: update_record_def intro: prepared_crash_ok\<close>)
  then show "triple (crash_ok c) (\<lambda>s. update_ready c m plan path staged s \<and> st = durability_intent_state s (update_intent m))
     (op_bind (if precommit_error e \<and> st = Some ''prepared''
        then op_bind (remove_staged staged) (\<lambda>_. step (finish_durability_intent (update_intent m))) else op_return ()) (\<lambda>_. op_raise e))
     (\<lambda>committed s. if committed then update_done c m plan path staged s else update_ready c m plan path staged s)
     (\<lambda>_. crash_ok c)"
    by (rule_tac triple_bind [where R = "\<lambda>_. crash_ok c"], rule_tac triple_if)
      (erule triple_pre, auto simp: update_ready_def intro: triple_return triple_raise prepared_crash_ok)
qed

text \<open>What a successful update of the row \<open>m\<close> leaves and returns.\<close>

definition updated :: "StoreContext \<Rightarrow> ArtifactMeta \<Rightarrow> UpdatePlan \<Rightarrow> UpdateArtifactResult \<Rightarrow> store \<Rightarrow> bool" where
  "updated c m plan r s \<longleftrightarrow> visible c (ur_meta r) s \<and> ur_changed r \<and> am_id (ur_meta r) = am_id m \<and>
     am_revision (ur_meta r) = am_revision m + 1 \<and> am_body_sha256 (ur_meta r) = up_body_sha256 plan"

lemma update_staged_safe:
  "triple (crash_ok c) (update_ready c m plan path staged)
    (update_staged c m (am_revision m) plan acting audit operation staged) (updated c m plan) (\<lambda>_. crash_ok c)"
proof (rule triple_fact [where R = "\<forall>name. staged = Some name \<longrightarrow> transient_of (am_id m) name"])
  assume t: "\<forall>name. staged = Some name \<longrightarrow> transient_of (am_id m) name"
  let ?i = "update_record m plan path"
  have ab: "triple (crash_ok c) (update_ready c m plan path staged) (abandon_update m staged :: unit store_op) (\<lambda>_. crash_ok c) (\<lambda>_. crash_ok c)"
    by (rule triple_pre [OF abandon_prepared(1) [of ?i]]) (use t in \<open>auto simp: update_ready_def update_record_def\<close>)
  have 1: "triple (crash_ok c) (update_ready c m plan path staged) (op_catch (fault (sc_faults c) UpdateCommit)
       (\<lambda>interrupt.
          op_bind (if compensate interrupt then abandon_update m staged else op_return ()) (\<lambda>_.
          op_raise (error interrupt)))) (\<lambda>_. update_ready c m plan path staged) (\<lambda>_ :: AppError. crash_ok c)"
    by (intro triple_catch [OF triple_fault [where E = "\<lambda>_. update_ready c m plan path staged"]]
        triple_bind [where R = "\<lambda>_. crash_ok c"] triple_if ab triple_return triple_raise)
      (auto intro: update_ready_crash_ok)
  have 2: "triple (crash_ok c) (update_done c m plan path staged) (finish_update_body c m staged audit operation) (updated c m plan) (\<lambda>_. crash_ok c)"
    unfolding update_done_def
  proof (rule triple_exists)
    fix m'
    let ?P = "\<lambda>s. before_row m m' ?i \<and> reverted_meta m m' = m \<and>
     (\<forall>name. staged = Some name \<longrightarrow> transient_of (am_id m') name) \<and> swap_ready c ?i m' staged s"
    show "triple (crash_ok c) ?P (finish_update_body c m staged audit operation) (updated c m plan) (\<lambda>_. crash_ok c)"
    proof (rule triple_fact)
      show "before_row m m' ?i \<and> reverted_meta m m' = m \<and> (\<forall>name. staged = Some name \<longrightarrow> transient_of (am_id m') name) \<and>
          am_body_sha256 m' = up_body_sha256 plan" if "?P s" for s
        using that by (auto simp: swap_ready_def outgoing_def committed_def update_intent_of_def update_record_def)
      assume "before_row m m' ?i \<and> reverted_meta m m' = m \<and> (\<forall>name. staged = Some name \<longrightarrow> transient_of (am_id m') name) \<and>
          am_body_sha256 m' = up_body_sha256 plan"
      then show ?thesis
        by (intro triple_conseq [OF finish_update_safe [of m m' ?i staged c audit operation]]) (auto simp: updated_def before_row_def)
    qed
  qed
  have 3: "triple (crash_ok c) (\<lambda>s. if committed then update_done c m plan path staged s else update_ready c m plan path staged s)
     (if \<not> committed then op_bind (abandon_update m staged) (\<lambda>_. op_raise (Conflict ''conflict''))
      else finish_update_body c m staged audit operation) (updated c m plan) (\<lambda>_. crash_ok c)" for committed
    by (cases committed) (simp_all add: 2 triple_bind [OF ab triple_raise])
  show ?thesis unfolding update_staged_def
    by (rule triple_bind [OF 1 triple_bind [OF update_commit_safe 3]])
qed (auto simp: update_ready_def)

definition update_result :: "StoreContext \<Rightarrow> string \<Rightarrow> int \<Rightarrow> UpdateArtifactResult \<Rightarrow> store \<Rightarrow> bool" where
  "update_result c a n r s \<longleftrightarrow> visible c (ur_meta r) s \<and> am_id (ur_meta r) = a \<and>
     am_revision (ur_meta r) = (if ur_changed r then n + 1 else n)"

lemma update_result_crash_ok: "update_result c a n r s \<Longrightarrow> crash_ok c s"
  by (auto simp: update_result_def intro: visible_crash_ok)

lemma update_locked_safe:
  assumes "rooted_store c" and "\<And>content. au_content update = Some content \<Longrightarrow> distinct_content content"
  shows "triple (crash_ok c) (\<lambda>s. crash_ok c s \<and> fresh_source c s)
    (update_locked c a revision update audit operation) (update_result c a revision) (\<lambda>_. crash_ok c)"
  unfolding update_locked_def
proof (rule triple_load_visible)
  fix m :: ArtifactMeta assume a: "am_id m = a"
  let ?V = "\<lambda>s. visible c m s \<and> fresh_source c s"
  have 2: "triple (crash_ok c) ?V (query (plan_update c m update)) (\<lambda>plan s. ?V s \<and> plan_ok c m plan) (\<lambda>_. crash_ok c)"
    by (rule triple_query) (auto intro: visible_crash_ok plan_update_ok assms(2))
  have q: "triple (crash_ok c) ?V (query (require_current_body c m)) (\<lambda>_. ?V) (\<lambda>_. crash_ok c)"
    by (rule triple_query) (auto intro: visible_crash_ok)
  have 3: "triple (crash_ok c) (\<lambda>s. ?V s \<and> plan_ok c m plan)
     (op_bind (query (require_current_body c m)) (\<lambda>_.
      op_bind (stage_update_body c m plan) (\<lambda>staged.
      update_staged c m (am_revision m) plan acting audit' operation staged))) (update_result c a (am_revision m)) (\<lambda>_. crash_ok c)" for plan acting audit'
  proof (rule triple_fact [where R = "plan_ok c m plan"])
    assume p: "plan_ok c m plan"
    show ?thesis
      by (rule triple_conseq [OF triple_bind [OF q triple_bind [OF stage_update_safe [OF assms(1) p] triple_exists [OF update_staged_safe]]]])
        (auto simp: updated_def update_result_def a)
  qed auto
  show "triple (crash_ok c) ?V
     (if SafeArtifactId_parse a = None then op_raise ConcealedNotFound
      else if revision < 1 \<or> revision \<noteq> am_revision m then op_raise (Conflict ''conflict'')
      else op_bind (query (plan_update c m update)) (\<lambda>plan.
           if \<not> up_changed plan then op_return \<lparr> ur_meta = m, ur_changed = False \<rparr>
           else op_bind (query (require_current_body c m)) (\<lambda>_.
             op_bind (stage_update_body c m plan) (\<lambda>staged.
             update_staged c m revision plan (au_acting_client_id update) (for_affected_tenant audit (am_org m)) operation staged))))
     (update_result c a revision) (\<lambda>_. crash_ok c)"
    by (intro triple_if triple_raise triple_bind [OF 2] triple_return) (use 3 a in \<open>auto simp: update_result_def intro: visible_crash_ok\<close>)
qed (auto intro: triple_raise)

lemma update_sync_safe:
  assumes "rooted_store c" and "\<And>content. au_content update = Some content \<Longrightarrow> distinct_content content"
  shows "triple (crash_ok c) (\<lambda>s. crash_ok c s \<and> fresh_source c s) (update_sync c a update audit)
    (update_result c a (au_expected_revision update)) (\<lambda>_. crash_ok c)"
  unfolding update_sync_def by (rule update_locked_safe [OF assms])

lemma restore_content_distinct:
  assumes "trees_ok (st_fs s)" and "restore_content c m row s = Inr content"
  shows "distinct_content content"
proof (cases content)
  case (Bundle files entry)
  then obtain tree where t: "node (st_fs s) (history_loc (am_id m) (rv_revision row) (rv_is_bundle row)) = Some (Tree tree)"
    and f: "files = read_tree tree"
    using assms(2) by (auto simp: restore_content_def split: if_splits option.splits body.splits)
  have ok: "tree_ok tree" by (rule trees_okD [OF assms(1) t])
  let ?dec = "map (\<lambda>(rel, content). (rel, from_utf8_lossy content)) tree"
  have keys: "map fst ?dec = map fst tree" by (auto simp: comp_def split_def)
  have "distinct (map fst files)"
    unfolding f read_tree_def using ok keys [symmetric]
    by (simp only: tree_ok_def distinct_map set_sort distinct_sort)
  moreover have "sanitize_relative_path k = Some k" if "k \<in> fst ` set files" for k
    using that ok unfolding f read_tree_def tree_ok_def canonical_key_def by (force simp: split_def)
  ultimately show ?thesis unfolding Bundle distinct_content_def
    by (auto simp: distinct_map inj_on_def comp_def)
qed (simp add: distinct_content_def)

lemma restore_sync_safe:
  assumes "rooted_store c"
  shows "triple (crash_ok c) (\<lambda>s. crash_ok c s \<and> fresh_source c s) (restore_sync c a revision acting audit) (\<lambda>_. crash_ok c) (\<lambda>_. crash_ok c)"
  unfolding restore_sync_def
proof (rule triple_load_visible)
  fix m :: ArtifactMeta
  let ?P = "\<lambda>s. crash_ok c s \<and> fresh_source c s"
  have l: "triple (crash_ok c) ?P (query (\<lambda>s. load_revision s a revision)) (\<lambda>_. ?P) (\<lambda>_. crash_ok c)"
    by (rule triple_query) auto
  have r: "triple (crash_ok c) ?P (query (restore_content c m row)) (\<lambda>content s. ?P s \<and> distinct_content content) (\<lambda>_. crash_ok c)" for row
    by (rule triple_query) (auto simp: crash_ok_def base_ok_def intro: restore_content_distinct)
  have u: "triple (crash_ok c) (\<lambda>s. ?P s \<and> distinct_content content)
     (op_bind (update_locked c a n \<lparr> au_expected_revision = n, au_acting_client_id = acting, au_title = t,
         au_description = d, au_category = k, au_content = Some content \<rparr> audit ''artifact.restore'') (\<lambda>updated.
      op_return \<lparr> rr_meta = ur_meta updated, rr_restored_from = x \<rparr>)) (\<lambda>_. crash_ok c) (\<lambda>_. crash_ok c)" for content n t d k x
  proof (rule triple_fact [where R = "distinct_content content"])
    assume "distinct_content content"
    then show ?thesis
      by (intro triple_pre [OF triple_bind [OF update_locked_safe [OF assms] triple_return]]) (auto intro: update_result_crash_ok)
  qed auto
  show "triple (crash_ok c) (\<lambda>s. visible c m s \<and> fresh_source c s)
    (if SafeArtifactId_parse a = None then op_raise ConcealedNotFound
     else
       op_bind (query (\<lambda>s. load_revision s a revision)) (\<lambda>old.
       case old of
         None \<Rightarrow> op_raise (NotFound ''revision_not_found'')
       | Some row \<Rightarrow>
           op_bind (query (restore_content c m row)) (\<lambda>content.
           op_bind (update_locked c a (am_revision m)
               \<lparr> au_expected_revision = am_revision m, au_acting_client_id = acting,
                 au_title = Some (rv_title row), au_description = Some (rv_description row),
                 au_category = Some (rv_category row), au_content = Some content \<rparr>
               audit ''artifact.restore'') (\<lambda>updated.
           op_return \<lparr> rr_meta = ur_meta updated, rr_restored_from = rv_revision row \<rparr>))))
    (\<lambda>_. crash_ok c) (\<lambda>_. crash_ok c)"
    by (rule triple_pre [where P = ?P], intro triple_if triple_raise triple_bind [OF l] triple_option triple_bind [OF r] u)
      (auto intro: visible_crash_ok)
qed (auto intro: triple_raise)

end
