(* ===== verification/Crash_Recovery.thy ===== *)
theory Crash_Recovery
  imports Crash_Commit
begin

text \<open>
  What start-up reconciliation relies on: the rows it reads, the intents that no longer need
  anything, and \<open>spares\<close>, the operations that change no row and no revision.
\<close>

section \<open>Rows of the reconciler\<close>

definition known :: "StoreContext \<Rightarrow> BodyRow list \<Rightarrow> store \<Rightarrow> bool" where
  "known c rows s \<longleftrightarrow> crash_ok c s \<and> load_body_rows s = rows"

definition sound :: "StoreContext \<Rightarrow> DurabilityIntent \<Rightarrow> ArtifactMeta \<Rightarrow> store \<Rightarrow> bool" where
  "sound c i m s \<longleftrightarrow> site c m i s \<and> pending_ok c s m i"

lemma sound_crash_ok: "sound c i m s \<Longrightarrow> crash_ok c s"
  by (auto simp: sound_def intro: site_crash_ok)

lemma body_rows_fs: "fs_within L s s' \<Longrightarrow> load_body_rows s' = load_body_rows s"
  by (auto simp: fs_within_def load_body_rows_def body_row_from_def)

lemma body_rows_closed: "closed intent s s' \<Longrightarrow> load_body_rows s' = load_body_rows s"
  by (auto simp: closed_def load_body_rows_def body_row_from_def)

lemma row_of_rows:
  "row_of (load_body_rows s) a = map_option (body_row_from s) (List.find (\<lambda>m. am_id m = a) (st_artifacts s))"
proof -
  have "List.find (\<lambda>r. br_id r = a) (map (body_row_from s) xs) = map_option (body_row_from s) (List.find (\<lambda>m. am_id m = a) xs)" for xs
    by (induction xs) (auto simp: body_row_from_def)
  then show ?thesis by (simp add: row_of_def load_body_rows_def)
qed

lemma find_rows_of:
  "List.find (\<lambda>m. am_id m = a) (st_artifacts s) = (case rows_of s a of [] \<Rightarrow> None | m # _ \<Rightarrow> Some m)"
  unfolding rows_of_def by (induction "st_artifacts s" arbitrary: s) (metis (no_types, lifting) find_None_iff filter_empty_conv find_filter_Cons list.case(1) list.case(2) neq_Nil_conv)+

lemma row_None: "row_of (load_body_rows s) a = None \<Longrightarrow> rows_of s a = []"
  by (auto simp: row_of_rows find_rows_of split: list.splits)

lemma row_Some:
  assumes "crash_ok c s" and "row_of (load_body_rows s) a = Some row"
  obtains m where "rows_of s a = [m]" "am_id m = a" "row = body_row_from s m" "is_valid_artifact_id a"
proof -
  obtain m rest where m: "rows_of s a = m # rest" "row = body_row_from s m"
    using assms(2) by (auto simp: row_of_rows find_rows_of split: list.splits)
  then have "m \<in> set (st_artifacts s)" "am_id m = a" by (auto simp: rows_of_def filter_eq_Cons_iff)
  moreover then have v: "is_valid_artifact_id a" using assms(1) by (auto simp: crash_ok_def base_ok_def)
  moreover have "rest = []" using assms(1) v m by (auto simp: crash_ok_def art_ok_def)
  ultimately show thesis using that m by blast
qed

lemma intent_pending:
  assumes "crash_ok c s" and "i \<in> set (st_intents s)"
  shows "is_valid_artifact_id (di_artifact_id i)" "intents_of s (di_artifact_id i) = [i]" "pending (di_artifact_id i) i s"
    "intent_owner (di_id i) = di_artifact_id i" "transient_of (di_artifact_id i) (di_staging_path i)"
proof -
  show v: "is_valid_artifact_id (di_artifact_id i)" "intent_owner (di_id i) = di_artifact_id i"
    "transient_of (di_artifact_id i) (di_staging_path i)"
    using assms by (auto simp: crash_ok_def base_ok_def intent_ok_def)
  have "i \<in> set (intents_of s (di_artifact_id i))" using assms(2) by (simp add: intents_of_def)
  moreover have "length (intents_of s (di_artifact_id i)) \<le> 1" using assms(1) v by (simp add: crash_ok_def art_ok_def)
  ultimately show i: "intents_of s (di_artifact_id i) = [i]" by (cases "intents_of s (di_artifact_id i)") auto
  then show "pending (di_artifact_id i) i s" by (auto simp: pending_def intro!: exI [of _ "di_state i"])
qed

lemma intent_vacant:
  assumes "crash_ok c s" and "i \<in> set (st_intents s)" and "rows_of s (di_artifact_id i) = []"
  shows "vacant c (di_artifact_id i) i s"
  using assms intent_pending [OF assms(1,2)] crash_ok_focus by (auto simp: vacant_def)

lemma intent_sound:
  assumes "crash_ok c s" and "i \<in> set (st_intents s)" and "rows_of s (di_artifact_id i) = [m]" and "am_id m = di_artifact_id i"
  shows "sound c i m s"
proof -
  note p = intent_pending [OF assms(1,2)]
  have "art_ok c s (am_id m)" "focus c (am_id m) s" using assms p crash_ok_focus by auto
  then show ?thesis using assms p by (auto simp: sound_def site_def art_ok_def)
qed

section \<open>Removing what nobody needs\<close>

lemma unneeded_crash_ok:
  assumes "crash_ok c s" and "fs_within L s s'"
    and "\<And>l b m. l \<in> L \<Longrightarrow> is_valid_artifact_id b \<Longrightarrow> owned b l \<Longrightarrow> m \<in> set (rows_of s b) \<Longrightarrow>
      transient_of b (case l of Entry x \<Rightarrow> x | Past _ x \<Rightarrow> x) \<and> (\<exists>x. l = Entry x) \<and> \<not> live_absent s m"
  shows "crash_ok c s'"
proof -
  have "art_ok c s' b" if b: "is_valid_artifact_id b" for b
  proof (cases "rows_of s b")
    case Nil
    have "length (intents_of s b) \<le> 1" using assms(1) b by (simp add: crash_ok_def art_ok_def)
    then show ?thesis using Nil by (simp add: art_ok_def fs_within_views [OF assms(2)])
  next
    case (Cons m rest)
    have ok: "art_ok c s b" using assms(1) b by (simp add: crash_ok_def)
    have m: "am_id m = b" "rest = []" using Cons ok by (auto simp: rows_of_def art_ok_def filter_eq_Cons_iff)
    have n: "l \<notin> L" if "owned b l" "\<forall>x. l = Entry x \<longrightarrow> \<not> transient_of b x" for l
      using assms(3) [OF _ b that(1), of m] Cons that(2) by (cases l) auto
    have past: "same_past b s s'" by (rule same_past_fs [OF assms(2)]) (rule n, auto)
    have live: "node (st_fs s') (live_loc b (am_is_bundle m)) = node (st_fs s) (live_loc b (am_is_bundle m))"
      by (rule fs_within_views(6) [OF assms(2) n]) (use live_not_transient [OF b] in auto)
    have stay: "\<not> live_absent s m \<or> (\<forall>x. transient_of b x \<longrightarrow> node (st_fs s') (Entry x) = node (st_fs s) (Entry x))"
      using assms(3) [OF _ b _, of _ m] Cons fs_within_views(6) [OF assms(2)] by fastforce
    have "staged_is c s' m d = staged_is c s m d \<or> \<not> live_absent s m" for d
      using stay m by (auto simp: staged_is_def body_digest_at_path_def)
    then have av: "available c s' m = available c s m"
      using live m by (auto simp: available_def live_is_def live_absent_def body_digest_at_path_def)
    have "at_rest c s' m = at_rest c s m" "pending_ok c s' m i = pending_ok c s m i" "meta_ok s' m = meta_ok s m" for i
      using live m av past_same [OF past] history_ok_same [of m s s' c] past
      by (simp_all add: at_rest_def pending_ok_def body_pending_def update_prepared_def update_committed_def live_is_def
          body_digest_at_path_def meta_ok_def fs_within_views [OF assms(2)])
    then show ?thesis using ok m Cons by (simp add: art_ok_def fs_within_views [OF assms(2)])
  qed
  moreover have "base_ok s'" using assms(1) fs_within_views(7) [OF assms(2)] by (simp add: crash_ok_def)
  ultimately show ?thesis by (simp add: crash_ok_def)
qed

section \<open>What recovery keeps\<close>

text \<open>
  Recovery never writes the artifact or revision rows, and one turn of its loops over the
  intents closes at most its own intent.
\<close>

definition kept_view :: "(string \<Rightarrow> bool) \<Rightarrow> store \<Rightarrow> ArtifactMeta list \<times> ArtifactRevision list \<times> DurabilityIntent list" where
  "kept_view p s = (st_artifacts s, st_revisions s, filter (\<lambda>j. p (di_id j)) (st_intents s))"

definition spares :: "(string \<Rightarrow> bool) \<Rightarrow> (store, 'e, 'a) op \<Rightarrow> bool" where
  "spares p m \<longleftrightarrow> (\<forall>v. triple (\<lambda>s. kept_view p s = v) (\<lambda>s. kept_view p s = v) m (\<lambda>_ s. kept_view p s = v) (\<lambda>_ s. kept_view p s = v))"

lemma sparesI:
  "(\<And>v. triple (\<lambda>s. kept_view p s = v) (\<lambda>s. kept_view p s = v) m (\<lambda>_ s. kept_view p s = v) (\<lambda>_ s. kept_view p s = v)) \<Longrightarrow> spares p m"
  by (simp add: spares_def)

lemma sparesD:
  "spares p m \<Longrightarrow> triple (\<lambda>s. kept_view p s = v) (\<lambda>s. kept_view p s = v) m (\<lambda>_ s. kept_view p s = v) (\<lambda>_ s. kept_view p s = v)"
  unfolding spares_def by blast

named_theorems spares_intro \<open>operations that keep the rows and the other intents\<close>

lemma spares_return [spares_intro]: "spares p (op_return y)"
  by (rule sparesI) (rule triple_return)

lemma spares_raise [spares_intro]: "spares p (op_raise e)"
  by (rule sparesI) (rule triple_raise)

lemma spares_bind [spares_intro]: "spares p m \<Longrightarrow> (\<And>y. spares p (f y)) \<Longrightarrow> spares p (op_bind m f)"
  by (rule sparesI) (rule triple_bind [OF sparesD sparesD])

lemma spares_catch [spares_intro]: "spares p m \<Longrightarrow> (\<And>e. spares p (h e)) \<Longrightarrow> spares p (op_catch m h)"
  by (rule sparesI) (rule triple_catch [OF sparesD sparesD])

lemma spares_ignore [spares_intro]: "spares p m \<Longrightarrow> spares p (op_ignore m)"
  by (rule sparesI) (rule triple_ignore [OF sparesD])

lemma spares_ask [spares_intro]: "spares p (ask f)"
  by (rule sparesI) (rule triple_post [OF triple_ask]; simp)

lemma spares_bare_fault [spares_intro]: "spares p (bare_fault f q)"
  by (rule sparesI) (rule triple_bare_fault)

lemma spares_if [spares_intro]: "(b \<Longrightarrow> spares p m) \<Longrightarrow> (\<not> b \<Longrightarrow> spares p n) \<Longrightarrow> spares p (if b then m else n)"
  by simp

lemma spares_option [spares_intro]:
  "(v = None \<Longrightarrow> spares p m) \<Longrightarrow> (\<And>y. v = Some y \<Longrightarrow> spares p (f y)) \<Longrightarrow> spares p (case v of None \<Rightarrow> m | Some y \<Rightarrow> f y)"
  by (cases v) auto

lemma spares_body [spares_intro]:
  "(\<And>y. spares p (f y)) \<Longrightarrow> (\<And>y. spares p (g y)) \<Longrightarrow> spares p (case v of File y \<Rightarrow> f y | Tree y \<Rightarrow> g y)"
  by (cases v) auto

lemma spares_prod [spares_intro]: "(\<And>y z. spares p (f y z)) \<Longrightarrow> spares p (case v of (y, z) \<Rightarrow> f y z)"
  by (cases v) auto

lemma spares_each [spares_intro]: "(\<And>y. spares p (f y)) \<Longrightarrow> spares p (op_each f ys)"
  by (induction ys) (auto intro!: spares_intro)

lemma spares_on_fs [spares_intro]: "spares p (on_fs f)"
  by (rule sparesI, rule triple_on_fs) (auto simp: kept_view_def)

lemmas fs_op_defs = remove_node_def ensure_removed_def safe_remove_def remove_history_dir_def durable_rename_def
  copy_recursive_def write_file_def write_below_def

lemma spares_fs_ops [spares_intro]:
  "spares p (remove_node l)" "spares p (safe_remove l)" "spares p (ensure_removed l)" "spares p (remove_history_dir a)"
  "spares p (durable_rename l k)" "spares p (copy_recursive l k)"
  unfolding fs_op_defs by (intro spares_intro)+

lemma spares_complete:
  assumes "\<not> p x"
  shows "spares p (complete_reconciled_intent c x outcome classification)"
proof (rule sparesI)
  fix v
  have cl: "kept_view p s' = kept_view p s" if "closed x s s'" for s s'
    using that assms by (auto simp: closed_def kept_view_def intro!: filter_cong)
  show "triple (\<lambda>s. kept_view p s = v) (\<lambda>s. kept_view p s = v) (complete_reconciled_intent c x outcome classification)
      (\<lambda>_ s. kept_view p s = v) (\<lambda>_ s. kept_view p s = v)"
    unfolding complete_reconciled_intent_def
    by (rule triple_draw_event, simp only: prod.case, rule triple_step)
      (auto simp: result_simps split: if_splits
        dest!: cl [OF iffD1 [OF closed_ledger]] finalize_durability_closed compensate_durability_closed)
qed

lemma spares_close [spares_intro]: "\<not> p x \<Longrightarrow> spares p (close_recovered c x)" "\<not> p x \<Longrightarrow> spares p (close_compensated c x)"
  unfolding close_recovered_def close_compensated_def by (rule spares_complete, assumption)+

lemma triple_spares:
  assumes "triple C P m Q E" and "spares p m"
    and "\<And>y s s'. P s \<Longrightarrow> Q y s' \<Longrightarrow> kept_view p s' = kept_view p s \<Longrightarrow> R y s'"
  shows "triple C P m R E"
proof (rule tripleI)
  fix w r w' assume p: "P (w_store w)" and m: "m w = (r, w')"
  obtain t where t: "w_trace w' = t @ w_trace w" "\<forall>s \<in> set t. C s"
    "case r of Inl e \<Rightarrow> E e (w_store w') | Inr y \<Rightarrow> Q y (w_store w')" by (rule tripleD [OF assms(1) p m])
  have "case r of Inl e \<Rightarrow> kept_view p (w_store w') = kept_view p (w_store w)
      | Inr y \<Rightarrow> kept_view p (w_store w') = kept_view p (w_store w)"
    by (rule tripleD [OF sparesD [OF assms(2)] refl m]) blast
  then show "(\<exists>t. w_trace w' = t @ w_trace w \<and> (\<forall>s \<in> set t. C s)) \<and>
      (case r of Inl e \<Rightarrow> E e (w_store w') | Inr y \<Rightarrow> R y (w_store w'))"
    using t assms(3) [OF p] by (auto split: sum.splits)
qed

lemma kept_rows: "kept_view p s' = kept_view p s \<Longrightarrow> load_body_rows s' = load_body_rows s"
  by (auto simp: kept_view_def load_body_rows_def body_row_from_def)

lemma kept_intents:
  assumes "kept_view p s' = kept_view p s" and "j \<in> set (st_intents s)" and "p (di_id j)"
  shows "j \<in> set (st_intents s')"
proof -
  have "j \<in> set (filter (\<lambda>j. p (di_id j)) (st_intents s))" using assms by simp
  then have "j \<in> set (filter (\<lambda>j. p (di_id j)) (st_intents s'))" using assms(1) by (simp only: kept_view_def prod.inject)
  then show ?thesis by simp
qed

lemma intents_distinct:
  assumes "crash_ok c s"
  shows "distinct (map di_id (st_intents s))"
proof -
  have own: "intent_owner (di_id j) = di_artifact_id j" if "j \<in> set (st_intents s)" for j
    using intent_pending [OF assms that] by simp
  have one: "length (filter (\<lambda>i. di_artifact_id i = di_artifact_id j) (st_intents s)) \<le> 1" if "j \<in> set (st_intents s)" for j
    using intent_pending(2) [OF assms that] by (simp add: intents_of_def)
  have "distinct (map di_id xs)"
    if "\<forall>j \<in> set xs. intent_owner (di_id j) = di_artifact_id j \<and> length (filter (\<lambda>i. di_artifact_id i = di_artifact_id j) xs) \<le> 1" for xs
    using that
  proof (induction xs)
    case (Cons x xs)
    have "filter (\<lambda>i. di_artifact_id i = di_artifact_id x) xs = []" using Cons.prems by auto
    then have "di_id x \<notin> di_id ` set xs" using Cons.prems by (auto simp: filter_empty_conv)
    moreover have "distinct (map di_id xs)" by (rule Cons.IH) (use Cons.prems in \<open>fastforce split: if_splits\<close>)
    ultimately show ?case by simp
  qed simp
  then show ?thesis using own one by blast
qed

lemma each_intent_safe:
  assumes "\<And>i. triple (crash_ok c) (\<lambda>s. known c rows s \<and> i \<in> set (st_intents s)) (f i) (\<lambda>_. crash_ok c) (\<lambda>_. crash_ok c)"
    and "\<And>p i. \<not> p (di_id i) \<Longrightarrow> spares p (f i)"
  shows "triple (crash_ok c) (known c rows) (op_bind (ask st_intents) (\<lambda>intents. op_each f intents)) (\<lambda>_. known c rows) (\<lambda>_. crash_ok c)"
proof (rule triple_bind_ask)
  fix intents
  let ?I = "\<lambda>ys s. known c rows s \<and> set ys \<subseteq> set (st_intents s) \<and> distinct (map di_id ys)"
  have "triple (crash_ok c) (?I (i # ys)) (f i) (\<lambda>_. ?I ys) (\<lambda>_. crash_ok c)" for i ys
  proof (rule triple_spares [OF triple_pre [OF assms(1)] assms(2) [where p = "\<lambda>x. x \<noteq> di_id i"]])
    show "known c rows s \<and> i \<in> set (st_intents s)" if "?I (i # ys) s" for s using that by simp
    fix y :: unit and s s'
    assume i: "?I (i # ys) s" and ok: "crash_ok c s'" and k: "kept_view (\<lambda>x. x \<noteq> di_id i) s' = kept_view (\<lambda>x. x \<noteq> di_id i) s"
    have "j \<in> set (st_intents s')" if "j \<in> set ys" for j
      by (rule kept_intents [OF k]) (use i that in \<open>auto simp: image_iff\<close>)
    then show "?I ys s'" using i ok kept_rows [OF k] by (auto simp: known_def)
  qed simp
  from triple_each [of "crash_ok c" ?I f "\<lambda>_. crash_ok c", OF this]
  have "triple (crash_ok c) (?I intents) (op_each f intents) (\<lambda>_. ?I []) (\<lambda>_. crash_ok c)" .
  then show "triple (crash_ok c) (\<lambda>s. known c rows s \<and> intents = st_intents s) (op_each f intents) (\<lambda>_. known c rows) (\<lambda>_. crash_ok c)"
    by (rule triple_conseq) (auto simp: known_def dest: intents_distinct)
qed

end
