(* ===== verification/Crash_Intents.thy ===== *)
theory Crash_Intents
  imports Crash_Recovery
begin

text \<open>
  Start-up recovery of one durability intent (src/src/artifacts/reconciliation/intents.rs) keeps
  the invariant.
\<close>

section \<open>An intent and the row of its artifact\<close>

text \<open>What a row of the reconciler says of the artifact row it was read from.\<close>

definition row_for :: "BodyRow \<Rightarrow> ArtifactMeta \<Rightarrow> bool" where
  "row_for r m \<longleftrightarrow> br_id r = am_id m \<and> br_safe_id r = Some (am_id m) \<and> br_is_bundle r = am_is_bundle m \<and>
     br_body_sha256 r = am_body_sha256 m \<and> br_revision r = am_revision m \<and>
     (br_outgoing_is_bundle r = None \<or> br_outgoing_is_bundle r = Some (am_is_bundle m))"

definition outgoing_recorded :: "store \<Rightarrow> ArtifactMeta \<Rightarrow> bool" where
  "outgoing_recorded s m \<longleftrightarrow> list_ex (\<lambda>q. rv_revision q = am_revision m - 1) (revs_of s (am_id m))"

definition matched :: "StoreContext \<Rightarrow> DurabilityIntent \<Rightarrow> BodyRow \<Rightarrow> ArtifactMeta \<Rightarrow> store \<Rightarrow> bool" where
  "matched c i r m s \<longleftrightarrow> row_for r m \<and> sound c i m s \<and> (br_outgoing_is_bundle r \<noteq> None \<longrightarrow> outgoing_recorded s m)"

lemma row_for_path: "row_for r m \<Longrightarrow> br_body_path r = Some (live_of m)"
  by (simp add: row_for_def br_body_path_def)

lemma known_row:
  assumes "known c rows s" and "row_of rows a = Some r"
  obtains m where "rows_of s a = [m]" "am_id m = a" "row_for r m" "is_valid_artifact_id a"
    "br_outgoing_is_bundle r \<noteq> None \<longrightarrow> outgoing_recorded s m"
proof -
  have ok: "crash_ok c s" and r: "row_of (load_body_rows s) a = Some r" using assms by (auto simp: known_def)
  obtain m where m: "rows_of s a = [m]" "am_id m = a" "r = body_row_from s m" "is_valid_artifact_id a"
    by (rule row_Some [OF ok r])
  then have mo: "meta_ok s m" using ok by (auto simp: crash_ok_def art_ok_def)
  have q: "q \<in> set (revs_of s a) \<and> rv_revision q = am_revision m - 1 \<and> rv_is_bundle q = am_is_bundle m"
    if "List.find (\<lambda>r. rv_artifact_id r = am_id m \<and> rv_revision r = am_revision m - 1) (st_revisions s) = Some q" for q
    using that mo m(2) by (auto simp: find_Some_iff revs_of_def meta_ok_def list_all_iff)
  have "row_for r m" using m mo q
    by (auto simp: row_for_def body_row_from_def SafeArtifactId_parse_def meta_ok_def dest!: spec)
  moreover have "outgoing_recorded s m" if "br_outgoing_is_bundle r \<noteq> None"
    using that m q by (auto simp: outgoing_recorded_def body_row_from_def list_ex_iff)
  ultimately show thesis using that m by blast
qed

lemma intent_matched:
  assumes "known c rows s" and "i \<in> set (st_intents s)" and "row_of rows (di_artifact_id i) = Some r"
  shows "\<exists>m. matched c i r m s"
proof -
  obtain m where m: "rows_of s (di_artifact_id i) = [m]" "am_id m = di_artifact_id i" "row_for r m"
    "br_outgoing_is_bundle r \<noteq> None \<longrightarrow> outgoing_recorded s m"
    by (rule known_row [OF assms(1,3)])
  have "sound c i m s" by (rule intent_sound) (use assms m in \<open>auto simp: known_def\<close>)
  then show ?thesis using m by (auto simp: matched_def)
qed

lemma intent_unmatched:
  assumes "known c rows s" and "i \<in> set (st_intents s)" and "row_of rows (di_artifact_id i) = None"
  shows "vacant c (di_artifact_id i) i s"
  by (rule intent_vacant) (use assms row_None [of s] in \<open>auto simp: known_def\<close>)

lemma matched_crash_ok: "matched c i r m s \<Longrightarrow> crash_ok c s"
  by (auto simp: matched_def intro: sound_crash_ok)

section \<open>The revision an update intent names\<close>

lemma target_of_update:
  assumes "intent_target_revision (update_id a n) a = Some t" and "0 \<le> n"
  shows "t = n"
proof -
  have "strip_prefix (update_id a n) ''update:'' = Some (a @ '':'' @ show_int n)"
    "strip_prefix (a @ '':'' @ show_int n) a = Some ('':'' @ show_int n)"
    "strip_prefix ('':'' @ show_int n) '':'' = Some (show_int n)"
    by (simp_all add: strip_prefix_Some_iff update_id_def)
  then show ?thesis using assms
    by (auto simp: intent_target_revision_def Let_def show_int_def read_show_nat split: if_splits)
qed

section \<open>What the digest of the installed body decides\<close>

lemma matched_cases:
  assumes "matched c i r m s"
  obtains (body) "body_pending c s m i" | (prepared) "prepared c i m s"
    | (outgoing) "outgoing c i m s" | (arrived) "committed c i m s" "available c s m" "past_ok c s (am_id m) (am_revision m)"
proof -
  have "site c m i s" "pending_ok c s m i" using assms by (auto simp: matched_def sound_def)
  then show thesis using that
    by (auto simp: pending_ok_def update_prepared_def update_committed_def prepared_def outgoing_def committed_def update_intent_of_def)
qed

lemma arrived_swapped:
  "committed c i m s \<Longrightarrow> available c s m \<Longrightarrow> past_ok c s (am_id m) (am_revision m) \<Longrightarrow> live_is c s m d \<Longrightarrow> swapped c i m s \<and> d = am_body_sha256 m"
  by (auto simp: swapped_def available_def live_absent_def live_is_def body_digest_at_path_def body_digest_def)

lemma swapped_rest: "swapped c i m s \<Longrightarrow> at_rest c s m"
  by (auto simp: swapped_def committed_def at_rest_def history_ok_def slot_ok_def no_future_def)

lemma live_is_unique: "live_is c s m d \<Longrightarrow> live_is c s m e \<Longrightarrow> d = e"
  by (simp add: live_is_def)

lemma delete_at_rest:
  assumes "matched c i r m s" and "di_operation i = ''delete''" and "live_is c s m (di_prior_sha256 i)"
  shows "at_rest c s m"
  by (rule matched_cases [OF assms(1)])
    (use assms in \<open>auto simp: body_pending_def at_rest_def prepared_def outgoing_def committed_def update_intent_of_def\<close>)

lemma body_pending_rest: "body_pending c s m i \<Longrightarrow> live_is c s m d \<Longrightarrow> at_rest c s m \<and> d = am_body_sha256 m"
  by (auto simp: body_pending_def at_rest_def available_def live_absent_def live_is_def body_digest_at_path_def body_digest_def)

lemma not_applicable_at_rest:
  assumes "matched c i r m s" and "live_is c s m (di_expected_sha256 i)" and "classify_metadata_only_intent i r = NotApplicable"
  shows "at_rest c s m"
proof (rule matched_cases [OF assms(1)])
  assume o: "outgoing c i m s"
  then have "di_operation i = ''update''" "di_prior_sha256 i = di_expected_sha256 i"
    using live_is_unique assms(2) by (auto simp: outgoing_def committed_def update_intent_of_def)
  then show ?thesis using assms(3) by (auto simp: classify_metadata_only_intent_def split: if_splits option.splits)
qed (use assms(2) body_pending_rest arrived_swapped swapped_rest prepared_def in blast)+

lemma committed_outgoing:
  assumes "matched c i r m s" and "classify_metadata_only_intent i r = Committed" and "br_outgoing_is_bundle r \<noteq> None"
    and "live_is c s m (di_expected_sha256 i)"
  shows "outgoing c i m s \<and> di_prior_sha256 i = am_body_sha256 m \<and> di_expected_sha256 i = am_body_sha256 m"
proof -
  have r: "row_for r m" and rec: "outgoing_recorded s m" using assms(1,3) by (auto simp: matched_def)
  have mo: "meta_ok s m" using assms(1) by (auto simp: matched_def sound_def site_def)
  have u: "di_operation i = ''update''" "di_expected_sha256 i = di_prior_sha256 i" "am_body_sha256 m = di_prior_sha256 i"
    and t: "intent_target_revision (di_id i) (am_id m) = Some (am_revision m)"
    using assms(2) r by (auto simp: classify_metadata_only_intent_def row_for_def split: if_splits option.splits)
  have "outgoing c i m s"
  proof (rule matched_cases [OF assms(1)])
    assume "prepared c i m s"
    then show ?thesis using t mo target_of_update [of "am_id m" "am_revision m + 1"] by (auto simp: prepared_def meta_ok_def)
  next
    assume co: "committed c i m s" and av: "available c s m" and p: "past_ok c s (am_id m) (am_revision m)"
    obtain q where q: "q \<in> set (revs_of s (am_id m))" "rv_revision q = am_revision m - 1"
      using rec by (auto simp: outgoing_recorded_def list_ex_iff)
    then have "body_digest_at_path c (st_fs s) (slot_of m) (am_is_bundle m) = Some (di_prior_sha256 i)"
      using p co mo by (auto simp: past_ok_def list_all_iff committed_def revision_digest_def meta_ok_def)
    then show ?thesis using co p past_ok_mono [of c s "am_id m" "am_revision m"] assms(4) u
      by (simp add: outgoing_def slot_ok_def)
  qed (use u in \<open>auto simp: body_pending_def\<close>)
  then show ?thesis using u by simp
qed

lemma reverted_prepared:
  assumes "matched c i r m s" and "classify_metadata_only_intent i r = Reverted"
  shows "prepared c i m s"
proof -
  have r: "row_for r m" using assms(1) by (auto simp: matched_def)
  have u: "di_operation i = ''update''" and t: "intent_target_revision (di_id i) (am_id m) = Some (am_revision m + 1)"
    using assms(2) r by (auto simp: classify_metadata_only_intent_def row_for_def split: if_splits option.splits)
  have no: "\<not> committed c i m s"
    using t target_of_update [of "am_id m" "am_revision m"] by (auto simp: committed_def update_intent_of_def)
  show ?thesis
    by (rule matched_cases [OF assms(1)]) (use no u in \<open>auto simp: body_pending_def outgoing_def\<close>)
qed

lemma prior_prepared:
  assumes "matched c i r m s" and "di_operation i \<noteq> ''delete''" and "am_body_sha256 m = di_prior_sha256 i"
    and "live_is c s m (di_prior_sha256 i)" and "\<not> live_is c s m (di_expected_sha256 i)"
  shows "prepared c i m s"
  by (rule matched_cases [OF assms(1)])
    (use assms in \<open>auto simp: body_pending_def outgoing_def committed_def update_intent_of_def\<close>)

section \<open>Closing an intent\<close>

definition resting :: "StoreContext \<Rightarrow> DurabilityIntent \<Rightarrow> ArtifactMeta \<Rightarrow> store \<Rightarrow> bool" where
  "resting c i m s \<longleftrightarrow> crash_ok c s \<and> site c m i s \<and> at_rest c s m"

lemma swapped_resting: "swapped c i m s \<Longrightarrow> resting c i m s"
  using swapped_rest swap_crash_ok(3) by (auto simp: resting_def swapped_def committed_def)

lemma prepared_resting: "prepared c i m s \<Longrightarrow> resting c i m s"
  using prepared_crash_ok by (auto simp: resting_def prepared_def)

lemma matched_resting: "matched c i r m s \<Longrightarrow> at_rest c s m \<Longrightarrow> resting c i m s"
  using matched_crash_ok by (auto simp: resting_def matched_def sound_def)

lemma complete_closed:
  assumes "\<And>s s'. P s \<Longrightarrow> closed x s s' \<Longrightarrow> crash_ok c s'"
  shows "triple (crash_ok c) P (complete_reconciled_intent c x outcome classification) (\<lambda>_. crash_ok c) (\<lambda>_. P)"
  unfolding complete_reconciled_intent_def
  by (rule triple_draw_event, simp only: prod.case, rule triple_closing [OF _ assms])
    (auto simp: result_simps closed_ledger split: if_splits dest!: compensate_durability_closed finalize_durability_closed)

lemma close_safe:
  assumes "\<And>s. P s \<Longrightarrow> crash_ok c s" and "\<And>s s'. P s \<Longrightarrow> closed x s s' \<Longrightarrow> crash_ok c s'"
  shows "triple (crash_ok c) P (close_recovered c x) (\<lambda>_. crash_ok c) (\<lambda>_. crash_ok c)"
    "triple (crash_ok c) P (close_compensated c x) (\<lambda>_. crash_ok c) (\<lambda>_. crash_ok c)"
  unfolding close_recovered_def close_compensated_def
  by (rule triple_post [OF complete_closed [where P = P]]; use assms in blast)+

lemma close_resting:
  "triple (crash_ok c) (resting c i m) (close_recovered c (di_id i)) (\<lambda>_. crash_ok c) (\<lambda>_. crash_ok c)"
  "triple (crash_ok c) (resting c i m) (close_compensated c (di_id i)) (\<lambda>_. crash_ok c) (\<lambda>_. crash_ok c)"
  by (rule close_safe; use closed_rest in \<open>auto simp: resting_def\<close>)+

lemma close_vacant:
  "triple (crash_ok c) (vacant c a i) (close_recovered c (di_id i)) (\<lambda>_. crash_ok c) (\<lambda>_. crash_ok c)"
  "triple (crash_ok c) (vacant c a i) (close_compensated c (di_id i)) (\<lambda>_. crash_ok c) (\<lambda>_. crash_ok c)"
  by (rule close_safe; use closed_vacant vacant_crash_ok in blast)+

section \<open>Updates that only changed metadata\<close>

lemma remove_node_gone: "triple (\<lambda>_. True) (\<lambda>_. True) (remove_node l) (\<lambda>_ s. node (st_fs s) l = None) (\<lambda>_ _. True)"
proof -
  have d: "triple (\<lambda>_. True) P (on_fs (\<lambda>fs. Inr (drop_node fs l))) (\<lambda>_ s. node (st_fs s) l = None) (\<lambda>_ _. True)" for P
    by (rule triple_on_fs) auto
  have e: "triple (\<lambda>_. True) P (op_each (\<lambda>(rel, _). on_fs (f rel)) files) (\<lambda>_ _. True) (\<lambda>_ _. True)"
    for P f and files :: "(string \<times> bytes) list"
    by (rule triple_pre [OF triple_each_mem [where P = "\<lambda>_. True"]]) (auto intro: triple_on_fs)
  show ?thesis unfolding remove_node_def
    by (rule triple_bind_ask) (auto split: option.split body.split intro!: triple_return d triple_bind [OF e])
qed

lemma ensure_metadata_only_history_safe:
  assumes r: "row_for r m" and e: "di_prior_sha256 i = am_body_sha256 m"
  shows "triple (crash_ok c) (outgoing c i m) (ensure_metadata_only_history c r (live_of m) (am_body_sha256 m))
    (\<lambda>ok s. outgoing c i m s \<and> (ok \<longrightarrow> swapped c i m s)) (\<lambda>_. crash_ok c)"
proof -
  let ?Q = "\<lambda>ok s. outgoing c i m s \<and> (ok \<longrightarrow> swapped c i m s)"
  let ?snap = "history_snapshot_temp_loc (am_id m) (am_revision m - 1)"
  let ?tmp = "metadata_recovery_temp_loc (am_id m) (am_revision m - 1)"
  have fail: "triple C (outgoing c i m) (op_return False) ?Q E" for C and E :: "AppError \<Rightarrow> _" by (rule triple_return) simp
  have crash: "outgoing c i m s \<Longrightarrow> crash_ok c s" for s by (rule swap_crash_ok(1))
  have matches: "triple (crash_ok c) (outgoing c i m)
      (ask (\<lambda>s. body_digest_at_path c (st_fs s) (slot_of m) (am_is_bundle m) = Some (am_body_sha256 m))) ?Q (\<lambda>_ :: AppError. crash_ok c)"
    by (rule triple_post [OF triple_ask])
      (use e past_ok_extend in \<open>auto simp: outgoing_def swapped_def\<close>)
  have clear: "triple (crash_ok c) (outgoing c i m) (ensure_removed ?snap) (\<lambda>_. outgoing c i m) (\<lambda>_. crash_ok c)"
    unfolding ensure_removed_def
    by (rule triple_post [OF outgoing_scratch [where t = ?snap]]) (auto intro: crash confined_intro)
  have dir: "triple (crash_ok c) (outgoing c i m) (on_fs (\<lambda>fs. Inr (fs_create_history (am_id m) fs))) (\<lambda>_. outgoing c i m) (\<lambda>_. crash_ok c)"
    by (rule triple_post [OF outgoing_scratch [where t = ?snap]]) (auto intro: crash confined_intro)
  have gone: "triple (crash_ok c) (outgoing c i m) (remove_node ?tmp) (\<lambda>_ s. outgoing c i m s \<and> node (st_fs s) ?tmp = None) (\<lambda>_. crash_ok c)"
    by (rule triple_conseq [OF triple_crash [OF triple_conj [OF outgoing_scratch [where t = ?tmp] remove_node_gone]]])
      (auto intro: crash confined_intro)
  have copy: "triple (crash_ok c) (\<lambda>s. outgoing c i m s \<and> node (st_fs s) ?tmp = None) (copy_recursive (live_of m) ?tmp)
      (\<lambda>_ s. outgoing c i m s \<and> body_digest_at_path c (st_fs s) ?tmp (am_is_bundle m) = Some (am_body_sha256 m)) (\<lambda>_. crash_ok c)"
    by (rule triple_post [OF copy_out [OF e]]) (auto intro: crash)
  have move: "triple (crash_ok c) (\<lambda>s. outgoing c i m s \<and> body_digest_at_path c (st_fs s) ?tmp (am_is_bundle m) = Some (am_body_sha256 m))
      (durable_rename ?tmp (slot_of m)) (\<lambda>_. outgoing c i m) (\<lambda>_. crash_ok c)"
    unfolding durable_rename_def
    by (rule triple_on_fs) (use copy_in [OF _ e scratch_locs(2)] crash in blast)+
  have absent: "triple (crash_ok c) (outgoing c i m)
     (op_bind (on_fs (\<lambda>fs. Inr (fs_create_history (am_id m) fs))) (\<lambda>_.
      op_bind (remove_node ?tmp) (\<lambda>_. op_bind (copy_recursive (live_of m) ?tmp) (\<lambda>_.
      op_bind (durable_rename ?tmp (slot_of m)) (\<lambda>_.
      ask (\<lambda>s. body_digest_at_path c (st_fs s) (slot_of m) (am_is_bundle m) = Some (am_body_sha256 m))))))) ?Q (\<lambda>_. crash_ok c)"
    by (rule triple_bind [OF dir triple_bind [OF gone triple_bind [OF copy triple_bind [OF move matches]]]])
  have b: "br_safe_id r = Some (am_id m)" "br_revision r = am_revision m"
    "br_outgoing_is_bundle r = None \<or> br_outgoing_is_bundle r = Some (am_is_bundle m)"
    using r by (simp_all add: row_for_def)
  show ?thesis
  proof (cases "br_outgoing_is_bundle r")
    case None
    then show ?thesis unfolding ensure_metadata_only_history_def b(1,2) using fail by simp
  next
    case (Some y)
    then have y: "y = am_is_bundle m" using b(3) by simp
    show ?thesis unfolding ensure_metadata_only_history_def b(1,2) Some y prod.case option.case Let_def
      by (intro triple_if fail triple_bind [OF clear] triple_bind_ask triple_pre [OF matches] triple_pre [OF absent]) auto
  qed
qed

lemma cleanup_reverted_safe:
  assumes "row_for r m"
  shows "triple (crash_ok c) (prepared c i m) (cleanup_reverted_metadata_snapshot_temp r) (\<lambda>_. prepared c i m) (\<lambda>_. crash_ok c)"
proof -
  have "br_safe_id r = Some (am_id m)" using assms by (simp add: row_for_def)
  moreover have "triple (crash_ok c) (prepared c i m) (ensure_removed (history_snapshot_temp_loc (am_id m) k))
      (\<lambda>_. prepared c i m) (\<lambda>_. crash_ok c)" for k
    unfolding ensure_removed_def
    by (rule triple_post [OF prepared_confined [OF confined_remove_node [of _ "{history_snapshot_temp_loc (am_id m) k}"]]])
      (auto intro: prepared_crash_ok)
  ultimately show ?thesis unfolding cleanup_reverted_metadata_snapshot_temp_def
    by (auto intro!: triple_bind triple_post [OF triple_ask])
qed

lemma ensure_history_matched:
  assumes r: "row_for r m" and cl: "classify_metadata_only_intent i r = Committed"
  shows "triple (crash_ok c) (\<lambda>s. matched c i r m s \<and> live_is c s m (di_expected_sha256 i))
    (ensure_metadata_only_history c r (live_of m) (di_expected_sha256 i))
    (\<lambda>ok s. crash_ok c s \<and> (ok \<longrightarrow> resting c i m s)) (\<lambda>_. crash_ok c)"
proof (cases "br_outgoing_is_bundle r")
  case None
  have "ensure_metadata_only_history c r (live_of m) (di_expected_sha256 i) = op_return False"
    using None by (simp add: ensure_metadata_only_history_def split: option.split)
  then show ?thesis by (auto intro!: triple_return dest: matched_crash_ok)
next
  case (Some y)
  have o: "outgoing c i m s \<and> di_prior_sha256 i = am_body_sha256 m \<and> di_expected_sha256 i = am_body_sha256 m"
    if "matched c i r m s \<and> live_is c s m (di_expected_sha256 i)" for s
    using committed_outgoing [OF _ cl, of c m s] that Some by simp
  show ?thesis
  proof (rule triple_fact [where R = "di_prior_sha256 i = am_body_sha256 m \<and> di_expected_sha256 i = am_body_sha256 m"])
    assume e: "di_prior_sha256 i = am_body_sha256 m \<and> di_expected_sha256 i = am_body_sha256 m"
    have "triple (crash_ok c) (outgoing c i m) (ensure_metadata_only_history c r (live_of m) (di_expected_sha256 i))
      (\<lambda>ok s. outgoing c i m s \<and> (ok \<longrightarrow> swapped c i m s)) (\<lambda>_. crash_ok c)"
      using ensure_metadata_only_history_safe [OF r] e by simp
    then show ?thesis by (rule triple_conseq) (use o swapped_resting swap_crash_ok(1) in blast)+
  qed (use o in blast)
qed

lemma cleanup_matched:
  assumes "row_for r m" and "classify_metadata_only_intent i r = Reverted"
  shows "triple (crash_ok c) (\<lambda>s. matched c i r m s \<and> P s) (cleanup_reverted_metadata_snapshot_temp r)
    (\<lambda>ok s. crash_ok c s \<and> (ok \<longrightarrow> resting c i m s)) (\<lambda>_. crash_ok c)"
  by (rule triple_conseq [OF cleanup_reverted_safe [OF assms(1)]])
    (use reverted_prepared [OF _ assms(2)] prepared_resting prepared_crash_ok in blast)+

section \<open>Recovering one intent\<close>

lemma triple_close_if:
  assumes "triple C R m (\<lambda>_. crash_ok c) E"
  shows "triple C (\<lambda>s. crash_ok c s \<and> (ok \<longrightarrow> R s)) (if ok then m else op_return ()) (\<lambda>_. crash_ok c) E"
  by (intro triple_if triple_pre [OF assms] triple_return) auto

lemma triple_matched:
  assumes "row_of rows (di_artifact_id i) = Some r" and "\<And>m. row_for r m \<Longrightarrow> triple C (matched c i r m) k Q E"
  shows "triple C (\<lambda>s. known c rows s \<and> i \<in> set (st_intents s)) k Q E"
proof (rule triple_pre [OF triple_exists])
  show "triple C (matched c i r m) k Q E" for m
    by (rule triple_fact [where R = "row_for r m"]) (use assms(2) in \<open>auto simp: matched_def\<close>)
  show "\<exists>m. matched c i r m s" if "known c rows s \<and> i \<in> set (st_intents s)" for s
    using intent_matched [of c rows s i r] that assms(1) by blast
qed

lemma withdrawn_confined:
  assumes "confined L k" and "\<And>l. l \<in> L \<Longrightarrow> owned a l"
  shows "triple (crash_ok c) (vacant c a i) k (\<lambda>_. vacant c a i) (\<lambda>_. crash_ok c)"
  by (rule triple_post [OF triple_confined [OF assms(1) fs_within_vacant [OF _ assms(2)]]])
    (auto intro: vacant_crash_ok dest: vacant_trees)

lemma transient_path_owned: "transient_path_for_intent a name = Some l \<Longrightarrow> \<exists>x. l = Entry x \<and> transient_of a x"
  by (auto simp: transient_path_for_intent_def transient_of_def split: if_splits)

lemma delete_intent_safe:
  shows "row_of rows (di_artifact_id i) = None \<Longrightarrow> triple (crash_ok c) (\<lambda>s. known c rows s \<and> i \<in> set (st_intents s))
      (recover_prepared_delete_intent c i None) (\<lambda>_. crash_ok c) (\<lambda>_. crash_ok c)"
    and "di_operation i = ''delete'' \<Longrightarrow> row_for r m \<Longrightarrow> triple (crash_ok c) (matched c i r m)
      (recover_prepared_delete_intent c i (Some r)) (\<lambda>_. crash_ok c) (\<lambda>_. crash_ok c)"
proof -
  let ?a = "di_artifact_id i"
  assume no: "row_of rows ?a = None"
  have trash: "triple (crash_ok c) (vacant c ?a i) (case transient_path_for_intent ?a (di_staging_path i) of
         None \<Rightarrow> op_return () | Some trash \<Rightarrow> remove_node trash) (\<lambda>_. vacant c ?a i) (\<lambda>_. crash_ok c)"
  proof (cases "transient_path_for_intent ?a (di_staging_path i)")
    case (Some l)
    show ?thesis unfolding Some option.case
      by (rule withdrawn_confined [OF confined_remove_node [of l "{l}"]]) (use transient_path_owned [OF Some] in auto)
  qed (auto intro: triple_return)
  have history: "triple (crash_ok c) (vacant c ?a i) (remove_history_dir ?a) (\<lambda>_. vacant c ?a i) (\<lambda>_. crash_ok c)"
    by (rule withdrawn_confined [OF confined_remove_history_dir [where L = "range (Past ?a)"]]) auto
  show "triple (crash_ok c) (\<lambda>s. known c rows s \<and> i \<in> set (st_intents s))
      (recover_prepared_delete_intent c i None) (\<lambda>_. crash_ok c) (\<lambda>_. crash_ok c)"
  proof (rule triple_fact [where R = "is_valid_artifact_id ?a"])
    show "is_valid_artifact_id ?a" if "known c rows s \<and> i \<in> set (st_intents s)" for s
      using that intent_pending(1) by (auto simp: known_def)
    assume "is_valid_artifact_id ?a"
    then have "SafeArtifactId_parse ?a = Some ?a" by (simp add: SafeArtifactId_parse_def)
    then show ?thesis unfolding recover_prepared_delete_intent_def
      by (simp only: option.case) (rule triple_pre [OF triple_bind [OF trash triple_bind [OF history close_vacant(1)]]],
        use intent_unmatched no in blast)
  qed
next
  assume d: "di_operation i = ''delete''" and r: "row_for r m"
  have p: "br_body_path r = Some (live_of m)" "br_is_bundle r = am_is_bundle m"
    using r row_for_path by (auto simp: row_for_def)
  show "triple (crash_ok c) (matched c i r m) (recover_prepared_delete_intent c i (Some r)) (\<lambda>_. crash_ok c) (\<lambda>_. crash_ok c)"
    unfolding recover_prepared_delete_intent_def option.case p
    by (intro triple_bind_ask triple_if triple_return triple_pre [OF close_resting(2) [where m = m]])
      (use d in \<open>auto intro!: matched_resting delete_at_rest intro: matched_crash_ok simp: live_is_def\<close>)
qed

lemma installed_branch:
  assumes r: "row_for r m"
  shows "triple (crash_ok c) (\<lambda>s. matched c i r m s \<and> live_is c s m (di_expected_sha256 i))
    (case classify_metadata_only_intent i r of
          Ambiguous \<Rightarrow> op_return ()
        | NotApplicable \<Rightarrow> close_recovered c (di_id i)
        | Committed \<Rightarrow>
            op_bind (ensure_metadata_only_history c r (live_of m) (di_expected_sha256 i)) (\<lambda>ok.
            if ok then close_recovered c (di_id i) else op_return ())
        | Reverted \<Rightarrow>
            op_bind (cleanup_reverted_metadata_snapshot_temp r) (\<lambda>ok.
            if ok then close_compensated c (di_id i) else op_return ()))
    (\<lambda>_. crash_ok c) (\<lambda>_. crash_ok c)"
proof (cases "classify_metadata_only_intent i r")
  case NotApplicable
  show ?thesis unfolding NotApplicable MetadataOnlyIntent.case
    by (rule triple_pre [OF close_resting(1) [where m = m]])
      (use NotApplicable in \<open>auto intro!: matched_resting not_applicable_at_rest\<close>)
next
  case Committed
  show ?thesis unfolding Committed MetadataOnlyIntent.case
    by (rule triple_bind [OF ensure_history_matched [OF r Committed] triple_close_if [OF close_resting(1)]])
next
  case Reverted
  show ?thesis unfolding Reverted MetadataOnlyIntent.case
    by (rule triple_bind [OF cleanup_matched [OF r Reverted] triple_close_if [OF close_resting(2)]])
next
  case Ambiguous
  show ?thesis unfolding Ambiguous MetadataOnlyIntent.case by (rule triple_return) (auto intro: matched_crash_ok)
qed

lemma prior_branch:
  assumes valid: "is_valid_artifact_id (am_id m)" and a: "di_artifact_id i = am_id m"
  shows "triple (crash_ok c) (prepared c i m)
    (op_bind (case transient_path_for_intent (di_artifact_id i) (di_staging_path i) of
                  None \<Rightarrow> op_return ()
                | Some staged \<Rightarrow>
                    op_bind (ask (f staged)) (\<lambda>m.
                    if m then safe_remove staged else op_return ())) (\<lambda>_.
       close_compensated c (di_id i))) (\<lambda>_. crash_ok c) (\<lambda>_. crash_ok c)"
proof (rule triple_bind [where R = "\<lambda>_. prepared c i m"])
  show "triple (crash_ok c) (prepared c i m) (close_compensated c (di_id i)) (\<lambda>_. crash_ok c) (\<lambda>_. crash_ok c)"
    by (rule triple_pre [OF close_resting(2)]) (rule prepared_resting)
  let ?L = "{Entry name | name. transient_of (am_id m) name}"
  have "confined ?L (case transient_path_for_intent (di_artifact_id i) (di_staging_path i) of
                  None \<Rightarrow> op_return () | Some staged \<Rightarrow>
                    op_bind (ask (f staged)) (\<lambda>m. if m then safe_remove staged else op_return ()))"
    by (intro confined_intro) (use transient_path_owned a in force)
  then show "triple (crash_ok c) (prepared c i m) (case transient_path_for_intent (di_artifact_id i) (di_staging_path i) of
                  None \<Rightarrow> op_return () | Some staged \<Rightarrow>
                    op_bind (ask (f staged)) (\<lambda>m. if m then safe_remove staged else op_return ()))
      (\<lambda>_. prepared c i m) (\<lambda>_. crash_ok c)"
    by (rule triple_post [OF prepared_confined])
      (use transient_set_frame [OF valid] in \<open>auto intro: prepared_crash_ok\<close>)
qed

lemma current_body_safe:
  assumes r: "row_for r m" and d: "di_operation i \<noteq> ''delete''"
  shows "triple (crash_ok c) (matched c i r m) (recover_prepared_current_body_intent c i r (live_of m))
    (\<lambda>_. crash_ok c) (\<lambda>_. crash_ok c)"
proof (rule triple_fact [where R = "is_valid_artifact_id (am_id m) \<and> di_artifact_id i = am_id m"])
  show "is_valid_artifact_id (am_id m) \<and> di_artifact_id i = am_id m" if "matched c i r m s" for s
    using that by (auto simp: matched_def sound_def site_def focus_def pending_def intents_of_def filter_eq_Cons_iff)
  assume v: "is_valid_artifact_id (am_id m) \<and> di_artifact_id i = am_id m"
  have b: "br_is_bundle r = am_is_bundle m" "br_body_sha256 r = am_body_sha256 m" using r by (auto simp: row_for_def)
  show ?thesis
    unfolding recover_prepared_current_body_intent_def b
  proof (intro triple_bind_ask triple_if)
    fix x assume "x = Some (di_expected_sha256 i)"
    then show "triple (crash_ok c) (\<lambda>s. matched c i r m s \<and> x = body_digest_at_path c (st_fs s) (live_of m) (am_is_bundle m))
      (case classify_metadata_only_intent i r of
          NotApplicable \<Rightarrow> close_recovered c (di_id i)
        | Committed \<Rightarrow>
            op_bind (ensure_metadata_only_history c r (live_of m) (di_expected_sha256 i)) (\<lambda>ok.
            if ok then close_recovered c (di_id i) else op_return ())
        | Reverted \<Rightarrow>
            op_bind (cleanup_reverted_metadata_snapshot_temp r) (\<lambda>ok.
            if ok then close_compensated c (di_id i) else op_return ())
        | Ambiguous \<Rightarrow> op_return ()) (\<lambda>_. crash_ok c) (\<lambda>_. crash_ok c)"
      by (intro triple_pre [OF installed_branch [OF r]]) (auto simp: live_is_def)
  next
    fix x assume x: "x \<noteq> Some (di_expected_sha256 i)" "am_body_sha256 m = di_prior_sha256 i \<and> x = Some (di_prior_sha256 i)"
    show "triple (crash_ok c) (\<lambda>s. matched c i r m s \<and> x = body_digest_at_path c (st_fs s) (live_of m) (am_is_bundle m))
      (op_bind (case transient_path_for_intent (di_artifact_id i) (di_staging_path i) of
                  None \<Rightarrow> op_return ()
                | Some staged \<Rightarrow>
                    op_bind (ask (\<lambda>s. body_digest_at_path c (st_fs s) staged (am_is_bundle m) = Some (di_expected_sha256 i))) (\<lambda>m.
                    if m then safe_remove staged else op_return ())) (\<lambda>_.
       close_compensated c (di_id i))) (\<lambda>_. crash_ok c) (\<lambda>_. crash_ok c)"
      by (rule triple_pre [OF prior_branch]) (use v x d in \<open>auto simp: live_is_def intro!: prior_prepared\<close>)
  qed (auto intro!: triple_return intro: matched_crash_ok)
qed

lemma recover_prepared_intent_safe:
  "triple (crash_ok c) (\<lambda>s. known c rows s \<and> i \<in> set (st_intents s)) (recover_prepared_intent c rows i)
    (\<lambda>_. crash_ok c) (\<lambda>_. crash_ok c)"
proof (cases "row_of rows (di_artifact_id i)")
  case None
  have "triple (crash_ok c) (\<lambda>s. known c rows s \<and> i \<in> set (st_intents s)) (close_compensated c (di_id i))
      (\<lambda>_. crash_ok c) (\<lambda>_. crash_ok c)"
    by (rule triple_pre [OF close_vacant(2)]) (use intent_unmatched None in blast)
  then show ?thesis unfolding recover_prepared_intent_def Let_def None option.case
    by (intro triple_if delete_intent_safe(1) triple_return None) (auto simp: known_def)
next
  case (Some r)
  have "triple (crash_ok c) (matched c i r m) (if di_operation i = ''delete'' then recover_prepared_delete_intent c i (Some r)
      else case br_body_path r of None \<Rightarrow> op_return () | Some final \<Rightarrow> recover_prepared_current_body_intent c i r final)
      (\<lambda>_. crash_ok c) (\<lambda>_. crash_ok c)" if "row_for r m" for m
    unfolding row_for_path [OF that] option.case using that
    by (intro triple_if delete_intent_safe(2) current_body_safe)
  then show ?thesis unfolding recover_prepared_intent_def Let_def Some option.case by (rule triple_matched [OF Some])
qed

end
