(* ===== verification/Crash_Audit.thy ===== *)
theory Crash_Audit
  imports Crash_Intents
begin

text \<open>
  The whole start-up pass (src/src/artifacts/reconciliation/audit.rs) keeps the invariant, and
  changes no row and no revision.
\<close>

section \<open>Resolving one intent\<close>

lemma body_complete_safe:
  assumes r: "row_for r m"
  shows "triple (crash_ok c) (matched c i r m) (body_complete c i r)
    (\<lambda>ok s. crash_ok c s \<and> (ok \<longrightarrow> resting c i m s)) (\<lambda>_. crash_ok c)"
proof -
  have b: "br_is_bundle r = am_is_bundle m" using r by (simp add: row_for_def)
  have "triple (crash_ok c) (\<lambda>s. matched c i r m s \<and> live_is c s m (di_expected_sha256 i))
     (case classify_metadata_only_intent i r of
                 NotApplicable \<Rightarrow> op_return True
               | Committed \<Rightarrow> ensure_metadata_only_history c r (live_of m) (di_expected_sha256 i)
               | Reverted \<Rightarrow> cleanup_reverted_metadata_snapshot_temp r
               | Ambiguous \<Rightarrow> op_return False)
     (\<lambda>ok s. crash_ok c s \<and> (ok \<longrightarrow> resting c i m s)) (\<lambda>_. crash_ok c)"
  proof (cases "classify_metadata_only_intent i r")
    case NotApplicable
    show ?thesis unfolding NotApplicable MetadataOnlyIntent.case
      by (rule triple_return)
        (use NotApplicable in \<open>auto intro!: matched_resting intro: matched_crash_ok not_applicable_at_rest\<close>)
  next
    case Committed
    show ?thesis unfolding Committed MetadataOnlyIntent.case by (rule ensure_history_matched [OF r Committed])
  next
    case Reverted
    show ?thesis unfolding Reverted MetadataOnlyIntent.case by (rule cleanup_matched [OF r Reverted])
  next
    case Ambiguous
    show ?thesis unfolding Ambiguous MetadataOnlyIntent.case by (rule triple_return) (auto intro: matched_crash_ok)
  qed
  then show ?thesis unfolding body_complete_def row_for_path [OF r] option.case b
    by (intro triple_bind_ask triple_if triple_return; (elim triple_pre)?)
      (auto simp: live_is_def intro: matched_crash_ok)
qed

lemma close_outcome:
  assumes "triple C P (close_compensated c x) Q E" and "triple C P (close_recovered c x) Q E"
  shows "triple C P (if outcome = ''failure'' then close_compensated c x else close_recovered c x) Q E"
  using assms by simp

lemma resolve_row_safe:
  assumes r: "row_for r m"
  shows "triple (crash_ok c) (matched c i r m)
    (if di_operation i = ''delete'' then ask (delete_complete c i (Some r)) else body_complete c i r)
    (\<lambda>ok s. crash_ok c s \<and> (ok \<longrightarrow> resting c i m s)) (\<lambda>_. crash_ok c)"
proof (intro triple_if body_complete_safe [OF r])
  assume d: "di_operation i = ''delete''"
  have "resting c i m s" if "matched c i r m s" "delete_complete c i (Some r) s" for s
    by (rule matched_resting [OF that(1) delete_at_rest [OF that(1) d]])
      (use that(2) r in \<open>auto simp: delete_complete_def row_for_path live_is_def row_for_def\<close>)
  then show "triple (crash_ok c) (matched c i r m) (ask (delete_complete c i (Some r)))
    (\<lambda>ok s. crash_ok c s \<and> (ok \<longrightarrow> resting c i m s)) (\<lambda>_. crash_ok c)"
    by (intro triple_post [OF triple_ask]) (auto intro: matched_crash_ok)
qed

lemma resolve_durability_intent_safe:
  "triple (crash_ok c) (\<lambda>s. known c rows s \<and> i \<in> set (st_intents s)) (resolve_durability_intent c rows i)
    (\<lambda>_. crash_ok c) (\<lambda>_. crash_ok c)"
proof (cases "row_of rows (di_artifact_id i)")
  case None
  have v: "triple (crash_ok c) (\<lambda>s. known c rows s \<and> i \<in> set (st_intents s))
      (if di_operation i = ''delete'' then ask (delete_complete c i None) else op_return (di_operation i = ''publish''))
      (\<lambda>_. vacant c (di_artifact_id i) i) (\<lambda>_. crash_ok c)"
    by (intro triple_if triple_return triple_post [OF triple_ask]) (use intent_unmatched None in \<open>auto simp: known_def\<close>)
  show ?thesis unfolding resolve_durability_intent_def Let_def None option.case
    by (intro triple_bind [OF v] triple_if triple_return close_outcome close_vacant) (rule vacant_crash_ok)
next
  case (Some r)
  show ?thesis
  proof (rule triple_matched [OF Some])
    fix m assume r: "row_for r m"
    show "triple (crash_ok c) (matched c i r m) (resolve_durability_intent c rows i) (\<lambda>_. crash_ok c) (\<lambda>_. crash_ok c)"
      unfolding resolve_durability_intent_def Let_def Some option.case
      by (rule triple_bind [OF resolve_row_safe [OF r] triple_close_if [OF close_outcome [OF close_resting(2,1)]]])
  qed
qed

section \<open>The loops over the intents\<close>

lemma spares_case_metadata_only [spares_intro]:
  "spares p k1 \<Longrightarrow> spares p k2 \<Longrightarrow> spares p k3 \<Longrightarrow> spares p k4 \<Longrightarrow>
   spares p (case v of NotApplicable \<Rightarrow> k1 | Committed \<Rightarrow> k2 | Reverted \<Rightarrow> k3 | Ambiguous \<Rightarrow> k4)"
  by (cases v) auto

lemma spares_metadata_only [spares_intro]:
  "spares p (ensure_metadata_only_history c r l d)" "spares p (cleanup_reverted_metadata_snapshot_temp r)"
  unfolding ensure_metadata_only_history_def cleanup_reverted_metadata_snapshot_temp_def Let_def
  by (intro spares_intro)+

lemma spares_recover: "\<not> p (di_id i) \<Longrightarrow> spares p (recover_prepared_intent c rows i)"
  unfolding recover_prepared_intent_def recover_prepared_delete_intent_def recover_prepared_current_body_intent_def Let_def
  by (intro spares_intro)

lemma spares_resolve: "\<not> p (di_id i) \<Longrightarrow> spares p (resolve_durability_intent c rows i)"
  unfolding resolve_durability_intent_def body_complete_def Let_def by (intro spares_intro)

lemma recover_intents_safe:
  "triple (crash_ok c) (known c rows) (recover_prepared_intents c rows) (\<lambda>_. known c rows) (\<lambda>_. crash_ok c)"
  unfolding recover_prepared_intents_def by (rule each_intent_safe [OF recover_prepared_intent_safe spares_recover])

lemma resolve_intents_safe:
  "triple (crash_ok c) (known c rows) (resolve_durability_intents c rows) (\<lambda>_. known c rows) (\<lambda>_. crash_ok c)"
  unfolding resolve_durability_intents_def by (rule each_intent_safe [OF resolve_durability_intent_safe spares_resolve])

section \<open>The sweep over transient entries\<close>

text \<open>An entry that no artifact still needs: its owner, if it has one, has a body in place.\<close>

definition disposable :: "StoreContext \<Rightarrow> string \<Rightarrow> store \<Rightarrow> bool" where
  "disposable c name s \<longleftrightarrow> crash_ok c s \<and>
     (\<forall>b m. is_valid_artifact_id b \<longrightarrow> transient_of b name \<longrightarrow> m \<in> set (rows_of s b) \<longrightarrow> \<not> live_absent s m)"

lemma transient_owned:
  assumes "is_transient_name name" and "is_valid_artifact_id b" and "owned b (Entry name)"
  shows "transient_of b name"
proof -
  obtain x where "name = CHR ''.'' # x" using assms(1) by (auto simp: is_transient_name_def starts_with_iff)
  moreover obtain y z where "b = y # z" using assms(2) by (cases b) (auto simp: is_valid_artifact_id_def)
  moreover have "CHR ''.'' \<notin> set b" by (rule valid_no_dot [OF assms(2)])
  ultimately show ?thesis using assms(3) by auto
qed

lemma crash_ok_trees: "crash_ok c s \<Longrightarrow> trees_ok (st_fs s)"
  by (simp add: crash_ok_def base_ok_def)

lemma disposable_within:
  assumes "is_transient_name name" and "disposable c name s" and "fs_within {Entry name} s s'"
  shows "disposable c name s'"
proof -
  have "crash_ok c s'"
    by (rule unneeded_crash_ok [OF _ assms(3)])
      (use assms(1,2) transient_owned in \<open>auto simp: disposable_def\<close>)
  moreover have "live_absent s' m = live_absent s m" if "is_valid_artifact_id b" "transient_of b name" "m \<in> set (rows_of s b)" for b m
    using fs_within_views(6) [OF assms(3), of "live_of m"] live_not_transient [of b b name "am_is_bundle m"] that
    by (auto simp: live_absent_def rows_of_def)
  ultimately show ?thesis using assms(2) fs_within_views(1) [OF assms(3)] by (simp add: disposable_def)
qed

lemma discard_safe:
  assumes "is_transient_name name"
  shows "triple (crash_ok c) (disposable c name)
    (op_bind (bare_fault f p) (\<lambda>_. op_bind (safe_remove (Entry name)) (\<lambda>_. op_return False)))
    (\<lambda>_. crash_ok c) (\<lambda>_ :: AppError. crash_ok c)"
proof -
  have "confined {Entry name} (op_bind (bare_fault f p) (\<lambda>_. op_bind (safe_remove (Entry name)) (\<lambda>_. op_return False)) :: bool store_op)"
    by (intro confined_intro) simp
  then show ?thesis
    by (rule triple_post [OF triple_confined [OF _ disposable_within [OF assms]]])
      (auto simp: disposable_def intro: crash_ok_trees)
qed

lemma unowned_disposable:
  assumes "known c rows s" and "Option.bind (transient_name_artifact_id name) (row_of rows) = None"
  shows "disposable c name s"
  using assms row_None [of s] by (auto simp: disposable_def known_def transient_of_def bind_eq_None_conv)

lemma installed_disposable:
  assumes "known c rows s" and "transient_name_artifact_id name = Some a" and "row_of rows a = Some r" and "row_for r m"
    and "path_exists (st_fs s) (live_of m)"
  shows "disposable c name s"
proof (rule known_row [OF assms(1,3)])
  fix m' assume m': "rows_of s a = [m']" "am_id m' = a" "row_for r m'"
  then have "live_of m' = live_of m" using assms(4) by (simp add: row_for_def)
  then show ?thesis using assms(1,2,5) m' by (auto simp: disposable_def known_def transient_of_def live_absent_def path_exists_def)
qed

text \<open>A body that is missing: some intent is under way, and the entry is what it waits for.\<close>

lemma missing_intent:
  assumes "crash_ok c s" and "rows_of s a = [m]" and "am_id m = a" and "is_valid_artifact_id a"
    and "\<not> live_is c s m (am_body_sha256 m)"
  obtains i where "sound c i m s"
proof -
  have ok: "art_ok c s a" using assms by (simp add: crash_ok_def)
  have "intents_of s a \<noteq> []" using ok assms(2,5) by (auto simp: art_ok_def at_rest_def)
  then obtain i where "i \<in> set (intents_of s a)" by (meson list.set_sel(1))
  then have "i \<in> set (st_intents s)" "di_artifact_id i = a" by (auto simp: intents_of_def)
  then show thesis using that intent_sound [OF assms(1)] assms(2,3) by blast
qed

lemma rename_missing:
  assumes l: "loaded c m name s" and so: "sound c i m s" and ab: "live_absent s m"
    and r: "fs_rename (Entry name) (live_of m) (st_fs s) = Inr fs"
  shows "crash_ok c (s\<lparr>st_fs := fs\<rparr>)"
proof -
  have p: "pending_ok c s m i" "site c m i s" and n: "transient_of (am_id m) name" using so l by (auto simp: sound_def loaded_def)
  have no: "\<not> live_is c s m d" for d using ab by (auto simp: live_absent_def live_is_def body_digest_at_path_def body_digest_def)
  consider (body) "body_pending c s m i" | (arriving) "arriving c i m name s"
    using p l no by (auto simp: pending_ok_def update_prepared_def at_rest_def update_committed_def arriving_def committed_def update_intent_of_def)
  then show ?thesis
  proof cases
    case body
    then have b: "body_intent i m" "in_transit c i m name s"
      using p ab l by (auto simp: body_pending_def body_intent_def in_transit_def loaded_def)
    have "installed c i m (s\<lparr>st_fs := fs\<rparr>)" by (rule install_effect [OF b(2) n r])
    then show ?thesis by (rule installed_crash_ok [OF _ b(1)])
  next
    case arriving
    then show ?thesis using move_in [OF _ r] swap_crash_ok(3) by blast
  qed
qed

text \<open>A body other than the one the row names: the update was interrupted before the swap.\<close>

lemma divergent_outgoing:
  assumes "sound c i m s" and "path_exists (st_fs s) (live_of m)" and "\<not> live_is c s m (am_body_sha256 m)"
  shows "outgoing c i m s"
proof -
  have "\<not> available c s m" "\<not> at_rest c s m" using assms(2,3) by (auto simp: available_def live_absent_def path_exists_def at_rest_def)
  then show ?thesis using assms(1)
    by (auto simp: sound_def pending_ok_def body_pending_def update_prepared_def update_committed_def outgoing_def committed_def update_intent_of_def)
qed

lemma preserve_outgoing_safe:
  assumes r: "row_for r m" and o: "br_outgoing_is_bundle r \<noteq> None" and n: "2 \<le> am_revision m"
  shows "triple (crash_ok c) (\<lambda>s. outgoing c i m s \<and> loaded c m name s) (preserve_outgoing_body r)
    (\<lambda>_ s. arriving c i m name s \<and> crash_ok c s) (\<lambda>_. crash_ok c)"
proof -
  let ?P = "\<lambda>s. outgoing c i m s \<and> loaded c m name s"
  have b: "br_safe_id r = Some (am_id m)" "br_outgoing_is_bundle r = Some (am_is_bundle m)"
    "u64_saturating_sub (br_revision r) 1 = am_revision m - 1"
    using r o n by (auto simp: row_for_def u64_saturating_sub_def)
  have dir: "triple (crash_ok c) ?P (on_fs (\<lambda>fs. Inr (fs_create_history (am_id m) fs))) (\<lambda>_. ?P) (\<lambda>_. crash_ok c)"
  proof (rule triple_on_fs)
    fix s fs assume p: "?P s" and fs: "Inr (fs_create_history (am_id m) (st_fs s)) = (Inr fs :: AppError + _)"
    have "fs_within {} s (s\<lparr>st_fs := fs\<rparr>)"
      unfolding fs_within_def using p fs by (intro exI [of _ fs]) (auto simp: outgoing_def dest: committed_trees)
    then have "outgoing c i m (s\<lparr>st_fs := fs\<rparr>)" by (rule swap_within(1)) (use p in auto)
    then show "crash_ok c (s\<lparr>st_fs := fs\<rparr>) \<and> ?P (s\<lparr>st_fs := fs\<rparr>)"
      using p fs swap_crash_ok(1) by (auto simp: loaded_def body_digest_at_path_def)
  qed simp
  have kept: "arriving c i m name s \<and> crash_ok c s" if "?P s" "path_exists (st_fs s) (slot_of m)" for s
    using that past_ok_extend [of c i m s] swap_crash_ok(1)
    by (auto simp: outgoing_def arriving_def slot_ok_def path_exists_def)
  have moved: "triple (crash_ok c) ?P (durable_rename (live_of m) (slot_of m)) (\<lambda>_ s. arriving c i m name s \<and> crash_ok c s) (\<lambda>_. crash_ok c)"
    unfolding durable_rename_def
    by (rule triple_on_fs) (use move_out between_arriving swap_crash_ok(1,2) in blast)+
  show ?thesis unfolding preserve_outgoing_body_def b prod.case option.case Let_def
    by (intro triple_bind [OF dir] triple_bind_ask triple_if triple_return triple_pre [OF moved] kept) auto
qed

definition swept :: "StoreContext \<Rightarrow> BodyRow list \<Rightarrow> ArtifactMeta \<Rightarrow> store \<Rightarrow> bool" where
  "swept c rows m s \<longleftrightarrow> known c rows s \<and> rows_of s (am_id m) = [m]"

lemma install_missing_safe:
  assumes "is_valid_artifact_id (am_id m)"
  shows "triple (crash_ok c) (\<lambda>s. swept c rows m s \<and> loaded c m name s \<and> live_absent s m)
    (op_bind (bare_fault f p) (\<lambda>_. op_bind (durable_rename (Entry name) (live_of m)) (\<lambda>_. op_return True)))
    (\<lambda>_. crash_ok c) (\<lambda>_. crash_ok c)"
proof -
  have "crash_ok c (s\<lparr>st_fs := fs\<rparr>)"
    if s: "swept c rows m s \<and> loaded c m name s \<and> live_absent s m"
      and rn: "fs_rename (Entry name) (live_of m) (st_fs s) = Inr fs" for s fs
  proof (rule missing_intent)
    show "crash_ok c s" "rows_of s (am_id m) = [m]" using s by (auto simp: swept_def known_def)
    show "\<not> live_is c s m (am_body_sha256 m)"
      using s by (auto simp: live_absent_def live_is_def body_digest_at_path_def body_digest_def)
    show "crash_ok c (s\<lparr>st_fs := fs\<rparr>)" if "sound c i m s" for i using rename_missing [OF _ that _ rn] s by blast
  qed (use assms in auto)
  then have "triple (crash_ok c) (\<lambda>s. swept c rows m s \<and> loaded c m name s \<and> live_absent s m) (durable_rename (Entry name) (live_of m))
      (\<lambda>_. crash_ok c) (\<lambda>_. crash_ok c)"
    unfolding durable_rename_def by (intro triple_on_fs) (auto simp: swept_def known_def)
  then show ?thesis
    by (intro triple_bind [OF triple_bare_fault triple_bind [OF _ triple_return]]) (auto simp: swept_def known_def)
qed

lemma install_over_outgoing_safe:
  assumes v: "is_valid_artifact_id (am_id m)" and r: "row_for r m"
  shows "triple (crash_ok c) (\<lambda>s. swept c rows m s \<and> loaded c m name s \<and> path_exists (st_fs s) (live_of m) \<and>
      \<not> live_is c s m (am_body_sha256 m))
    (op_bind (bare_fault f p) (\<lambda>_.
      if br_outgoing_is_bundle r = None then op_return False
      else op_bind (preserve_outgoing_body r) (\<lambda>_.
           op_bind (durable_rename (Entry name) (live_of m)) (\<lambda>_. op_return True))))
    (\<lambda>_. crash_ok c) (\<lambda>_. crash_ok c)"
proof (rule triple_pre [OF triple_exists])
  fix i
  have arrive: "triple (crash_ok c) (\<lambda>s. arriving c i m name s \<and> crash_ok c s) (durable_rename (Entry name) (live_of m)) (\<lambda>_. crash_ok c) (\<lambda>_. crash_ok c)"
    unfolding durable_rename_def by (rule triple_on_fs) (use move_in swap_crash_ok(3) in blast)+
  show "triple (crash_ok c) (\<lambda>s. outgoing c i m s \<and> loaded c m name s)
    (op_bind (bare_fault f p) (\<lambda>_.
      if br_outgoing_is_bundle r = None then op_return False
      else op_bind (preserve_outgoing_body r) (\<lambda>_.
           op_bind (durable_rename (Entry name) (live_of m)) (\<lambda>_. op_return True))))
    (\<lambda>_. crash_ok c) (\<lambda>_. crash_ok c)"
  proof (rule triple_fact [where R = "2 \<le> am_revision m"])
    assume n: "2 \<le> am_revision m"
    show ?thesis
      by (intro triple_bind [OF triple_bare_fault] triple_if triple_return
          triple_bind [OF preserve_outgoing_safe [OF r _ n] triple_bind [OF arrive triple_return]])
        (auto intro: swap_crash_ok(1))
  qed (auto simp: outgoing_def committed_def update_intent_of_def)
next
  fix s assume s: "swept c rows m s \<and> loaded c m name s \<and> path_exists (st_fs s) (live_of m) \<and> \<not> live_is c s m (am_body_sha256 m)"
  show "\<exists>i. outgoing c i m s \<and> loaded c m name s"
  proof (rule missing_intent)
    show "crash_ok c s" "rows_of s (am_id m) = [m]" "\<not> live_is c s m (am_body_sha256 m)" using s by (auto simp: swept_def known_def)
    show "\<exists>i. outgoing c i m s \<and> loaded c m name s" if "sound c i m s" for i using divergent_outgoing [OF that] s by blast
  qed (use v in auto)
qed

lemma reconcile_transient_safe:
  assumes t: "is_transient_name name"
  shows "triple (crash_ok c) (known c rows) (reconcile_transient c rows name) (\<lambda>_. crash_ok c) (\<lambda>_. crash_ok c)"
proof (cases "Option.bind (transient_name_artifact_id name) (row_of rows)")
  case None
  show ?thesis unfolding reconcile_transient_def Let_def None option.case
    by (intro triple_bind_ask triple_if triple_return triple_pre [OF discard_safe [OF t]])
      (use unowned_disposable None in \<open>auto simp: known_def\<close>)
next
  case (Some r)
  then obtain a where a: "transient_name_artifact_id name = Some a" "row_of rows a = Some r" by (auto simp: bind_eq_Some_conv)
  have ok: "swept c rows m s \<Longrightarrow> crash_ok c s" for m s by (simp add: swept_def known_def)
  show ?thesis
  proof (rule triple_pre [OF triple_exists])
    show "\<exists>m. swept c rows m s \<and> am_id m = a \<and> row_for r m \<and> is_valid_artifact_id a" if "known c rows s" for s
      by (rule known_row [OF that a(2)]) (use that in \<open>auto simp: swept_def\<close>)
    fix m
    show "triple (crash_ok c) (\<lambda>s. swept c rows m s \<and> am_id m = a \<and> row_for r m \<and> is_valid_artifact_id a)
      (reconcile_transient c rows name) (\<lambda>_. crash_ok c) (\<lambda>_. crash_ok c)"
    proof (rule triple_fact [where R = "am_id m = a \<and> row_for r m \<and> is_valid_artifact_id a"])
      assume m: "am_id m = a \<and> row_for r m \<and> is_valid_artifact_id a"
      then have r: "row_for r m" and v: "is_valid_artifact_id (am_id m)" and tr: "transient_of (am_id m) name"
        using a(1) t by (auto simp: transient_of_def)
      have b: "br_is_bundle r = am_is_bundle m" "br_body_sha256 r = am_body_sha256 m" using r by (auto simp: row_for_def)
      show ?thesis unfolding reconcile_transient_def Let_def Some option.case row_for_path [OF r] b
        by (intro triple_bind_ask triple_if triple_return triple_pre [OF install_missing_safe [OF v, where rows = rows]]
            triple_pre [OF install_over_outgoing_safe [OF v r, where rows = rows]] triple_pre [OF discard_safe [OF t]])
          (use tr r m a installed_disposable [of c rows _ name a r m] in
            \<open>auto simp: loaded_def live_absent_def path_exists_def live_is_def swept_def known_def\<close>)
    qed blast
  qed
qed

lemma spares_reconcile [spares_intro]: "spares p (reconcile_transient c rows name)"
  unfolding reconcile_transient_def preserve_outgoing_body_def Let_def by (intro spares_intro)

lemma known_spares:
  assumes "triple (crash_ok c) (known c rows) m (\<lambda>_. crash_ok c) E" and "\<And>p. spares p m"
  shows "triple (crash_ok c) (known c rows) m (\<lambda>_. known c rows) E"
  by (rule triple_spares [OF assms(1) assms(2) [of "\<lambda>_. True"]]) (auto simp: known_def dest: kept_rows)

lemma sweep_entries_safe:
  "triple (crash_ok c) (known c rows) (sweep_entries c clean rows names) (\<lambda>_. known c rows) (\<lambda>_. crash_ok c)"
proof (induction names)
  case Nil
  show ?case unfolding sweep_entries.simps by (rule triple_return)
next
  case (Cons name names)
  have "triple (crash_ok c) (known c rows) (if is_transient_name name \<and> clean then reconcile_transient c rows name else op_return False)
      (\<lambda>_. known c rows) (\<lambda>_. crash_ok c)"
    by (intro triple_if triple_return known_spares [OF reconcile_transient_safe spares_reconcile]) auto
  then show ?case unfolding sweep_entries.simps
    by (intro triple_bind [OF _ triple_bind [OF Cons.IH]]) (auto intro!: triple_return split: prod.split)
qed

section \<open>Histories without an artifact\<close>

lemma br_id_from [simp]: "br_id (body_row_from s m) = am_id m"
  by (simp add: body_row_from_def)

lemma remove_history_unneeded:
  assumes "name \<notin> set (map br_id rows)"
  shows "triple (crash_ok c) (known c rows) (op_ignore (remove_history_dir name)) (\<lambda>_. crash_ok c) (\<lambda>_ :: AppError. crash_ok c)"
proof -
  have "confined (range (Past name)) (op_ignore (remove_history_dir name) :: unit store_op)"
    by (intro confined_intro confined_remove_history_dir) simp
  then have "triple (crash_ok c) (\<lambda>s. crash_ok c s \<and> rows_of s name = []) (op_ignore (remove_history_dir name))
     (\<lambda>_ s. crash_ok c s \<and> rows_of s name = []) (\<lambda>_ :: AppError. \<lambda>s. crash_ok c s \<and> rows_of s name = [])"
  proof (rule triple_confined)
    fix s s' assume p: "crash_ok c s \<and> rows_of s name = []" and w: "fs_within (range (Past name)) s s'"
    have "crash_ok c s'" by (rule unneeded_crash_ok [OF _ w]) (use p in auto)
    then show "crash_ok c s' \<and> rows_of s' name = []" using p fs_within_views(1) [OF w] by simp
  qed (auto intro: crash_ok_trees)
  then show ?thesis
  proof (rule triple_conseq)
    fix s assume "known c rows s"
    then show "crash_ok c s \<and> rows_of s name = []"
      using assms br_id_from by (auto simp: known_def load_body_rows_def rows_of_def filter_empty_conv image_image)
  qed auto
qed

lemma reclaim_dirs_safe:
  "triple (crash_ok c) (known c rows) (reclaim_dirs c (map br_id rows) names) (\<lambda>_. known c rows) (\<lambda>_. crash_ok c)"
proof (induction names)
  case Nil
  show ?case unfolding reclaim_dirs.simps by (rule triple_return)
next
  case (Cons name names)
  have k: "spares p (op_ignore (remove_history_dir name) :: unit store_op)" for p by (intro spares_intro)
  have "triple (crash_ok c) (known c rows) (op_ignore (remove_history_dir name)) (\<lambda>_. known c rows) (\<lambda>_ :: AppError. crash_ok c)"
    if "\<not> List.member (map br_id rows) name"
    by (rule known_spares [OF remove_history_unneeded k]) (use that in simp)
  note rm = triple_bind [OF this triple_bind [OF Cons.IH triple_return]]
  show ?case unfolding reclaim_dirs.simps
    by (intro triple_if Cons.IH triple_bind [OF triple_bare_fault] rm) (simp_all add: known_def)
qed

section \<open>The storage audit\<close>

lemma crash_ok_core:
  assumes "core s' = core s" and "crash_ok c s"
  shows "crash_ok c s'"
proof -
  have "same_view a s s'" for a using core_views [OF assms(1)] by (simp add: same_view_def)
  then have "art_ok c s' a = art_ok c s a" for a by (rule art_ok_frame)
  then show ?thesis using assms(2) core_views(5) [OF assms(1)] by (simp add: crash_ok_def)
qed

lemma admit_safe: "triple (crash_ok c) (crash_ok c) (admit_reconciliation d) (\<lambda>_. crash_ok c) (\<lambda>_. crash_ok c)"
  unfolding admit_reconciliation_def
  by (rule triple_bind [OF triple_step triple_query_any])
    (auto simp: result_simps core_def intro: crash_ok_core)

lemma audit_storage_safe:
  "triple (crash_ok c) (crash_ok c) (audit_storage c clean) (\<lambda>_. crash_ok c) (\<lambda>_. crash_ok c)"
proof -
  have k: "known c rows s \<Longrightarrow> crash_ok c s" for rows s by (simp add: known_def)
  have rows: "triple (crash_ok c) (crash_ok c) (op_bind (ask load_body_rows) f) Q E"
    if "\<And>rows. triple (crash_ok c) (known c rows) (f rows) Q E" for f :: "BodyRow list \<Rightarrow> 'z store_op" and Q E
    by (rule triple_bind_ask, rule triple_pre [OF that]) (auto simp: known_def)
  have admit: "triple (crash_ok c) (crash_ok c) (if clean then admit_reconciliation c else op_return ()) (\<lambda>_. crash_ok c) (\<lambda>_. crash_ok c)"
    by (intro triple_if admit_safe triple_return)
  have recover: "triple (crash_ok c) (known c rows) (if clean then recover_prepared_intents c rows else op_return ())
      (\<lambda>_. crash_ok c) (\<lambda>_. crash_ok c)" for rows
    by (intro triple_if triple_return triple_post [OF recover_intents_safe [of c rows]]) (auto intro: k)
  have reclaim: "triple (crash_ok c) (known c rows) (if clean then reclaim_orphan_history c rows else op_return [])
      (\<lambda>_. known c rows) (\<lambda>_. crash_ok c)" for rows
    unfolding reclaim_orphan_history_def
    by (intro triple_if triple_return triple_bind_ask triple_pre [OF reclaim_dirs_safe]) auto
  have resolve1: "triple (crash_ok c) (known c rows) (resolve_durability_intents c rows) (\<lambda>_. crash_ok c) (\<lambda>_. crash_ok c)" for rows
    by (rule triple_post [OF resolve_intents_safe]) (auto intro: k)
  have resolve: "triple (crash_ok c) (crash_ok c)
      (if clean then op_bind (ask load_body_rows) (resolve_durability_intents c) else op_return ()) (\<lambda>_. crash_ok c) (\<lambda>_. crash_ok c)"
    by (intro triple_if triple_return rows resolve1)
  have rest: "triple (crash_ok c) (known c rows) (op_bind (ask f) (\<lambda>x. op_bind (ask g) (\<lambda>y. op_bind
      (if clean then op_bind (ask load_body_rows) (resolve_durability_intents c) else op_return ()) (\<lambda>_. op_return (h x y)))))
      (\<lambda>_. crash_ok c) (\<lambda>_. crash_ok c)" for rows and f :: "store \<Rightarrow> BodyRow list" and g :: "store \<Rightarrow> BodyRow list" and h :: "_ \<Rightarrow> _ \<Rightarrow> StorageAuditReport"
    by (intro triple_bind_ask triple_bind [OF triple_pre [OF resolve] triple_return]) (auto simp: known_def)
  show ?thesis unfolding audit_storage_def
  proof (intro triple_bind [OF admit] rows triple_bind [OF recover])
    fix rows
    show "triple (crash_ok c) (known c rows)
     (op_bind (ask (\<lambda>s. ranked_entries (st_fs s))) (\<lambda>names.
     op_bind (sweep_entries c clean rows names) (\<lambda>(transient, recovered, orphans).
     op_bind (if clean then reclaim_orphan_history c rows else op_return []) (\<lambda>orphan_history.
     op_bind (ask (\<lambda>s. filter (row_divergent c s) rows)) (\<lambda>divergent.
     op_bind (ask (\<lambda>s. filter (row_missing s) rows)) (\<lambda>missing.
     op_bind (if clean then op_bind (ask load_body_rows) (resolve_durability_intents c) else op_return ()) (\<lambda>_.
     op_return \<lparr> sr_missing_bodies = map br_id missing, sr_divergent_bodies = map br_id divergent,
       sr_orphan_bodies = orphans, sr_orphan_history = orphan_history, sr_transient_paths = transient,
       sr_recovered_paths = recovered \<rparr>)))))))
     (\<lambda>_. crash_ok c) (\<lambda>_. crash_ok c)"
      by (rule triple_bind_ask, rule triple_bind [OF triple_pre [OF sweep_entries_safe]], blast,
          intro triple_prod triple_bind [OF reclaim] rest)
  qed
qed

text \<open>The audit, whatever it repairs, writes neither artifact rows nor revision rows.\<close>

lemma spares_ledger_step [spares_intro]:
  "spares p (step (\<lambda>s. try_bind (f s) (\<lambda>l. Inr ((), s\<lparr>st_ledger := l\<rparr>))))"
  by (rule sparesI, rule triple_step) (auto simp: result_simps kept_view_def)

lemma spares_query [spares_intro]: "spares p (query f)"
  by (rule sparesI) (rule triple_query_any)

lemma spares_sweep [spares_intro]: "spares p (sweep_entries c clean rows names)"
  by (induction names) (auto intro!: spares_intro)

lemma spares_reclaim [spares_intro]: "spares p (reclaim_dirs c live names)"
  by (induction names) (auto intro!: spares_intro)

lemma spares_audit: "spares (\<lambda>_. False) (audit_storage c clean)"
  unfolding audit_storage_def admit_reconciliation_def recover_prepared_intents_def resolve_durability_intents_def
    reclaim_orphan_history_def
  by (intro spares_intro spares_recover spares_resolve) simp_all

end
