(* ===== verification/Lifecycle_Outcomes.thy ===== *)
theory Lifecycle_Outcomes
  imports Crash_Publish Crash_Metadata Crash_Audit
begin

text \<open>
  What an operation that reports success has done. \<open>yields\<close> is partial correctness of one run, with
  nothing said about the instants in between or about failed runs; \<open>keeps\<close> says that an operation
  leaves a part of the store alone, whether it succeeds or not.
\<close>

section \<open>Successful runs\<close>

definition yields :: "(store \<Rightarrow> bool) \<Rightarrow> (store, 'e, 'a) op \<Rightarrow> ('a \<Rightarrow> store \<Rightarrow> bool) \<Rightarrow> bool" where
  "yields P m Q \<longleftrightarrow> (\<forall>w x w'. P (w_store w) \<and> m w = (Inr x, w') \<longrightarrow> Q x (w_store w'))"

definition aborts :: "(store, 'e, 'a) op \<Rightarrow> bool" where
  "aborts m \<longleftrightarrow> (\<forall>w x w'. m w \<noteq> (Inr x, w'))"

lemma yieldsI: "(\<And>w x w'. P (w_store w) \<Longrightarrow> m w = (Inr x, w') \<Longrightarrow> Q x (w_store w')) \<Longrightarrow> yields P m Q"
  unfolding yields_def by blast

lemma yieldsD: "yields P m Q \<Longrightarrow> P (w_store w) \<Longrightarrow> m w = (Inr x, w') \<Longrightarrow> Q x (w_store w')"
  unfolding yields_def by blast

lemma yields_conseq: "yields P m Q \<Longrightarrow> (\<And>s. P' s \<Longrightarrow> P s) \<Longrightarrow> (\<And>x s. Q x s \<Longrightarrow> Q' x s) \<Longrightarrow> yields P' m Q'"
  unfolding yields_def by blast

lemma yields_pre: "yields P m Q \<Longrightarrow> (\<And>s. P' s \<Longrightarrow> P s) \<Longrightarrow> yields P' m Q"
  unfolding yields_def by blast

lemma yields_conj: "yields P m Q \<Longrightarrow> yields P' m Q' \<Longrightarrow> yields (\<lambda>s. P s \<and> P' s) m (\<lambda>x s. Q x s \<and> Q' x s)"
  unfolding yields_def by blast

lemma yields_return: "(\<And>s. P s \<Longrightarrow> Q x s) \<Longrightarrow> yields P (op_return x) Q"
  by (auto simp: yields_def op_return_def)

lemma yields_aborts: "aborts m \<Longrightarrow> yields P m Q"
  by (auto simp: yields_def aborts_def)

lemma yields_bind:
  assumes "yields P m R" and "\<And>x. yields (R x) (f x) Q"
  shows "yields P (op_bind m f) Q"
proof (rule yieldsI)
  fix w x w' assume p: "P (w_store w)" and r: "op_bind m f w = (Inr x, w')"
  obtain y v where y: "m w = (Inr y, v)" "f y v = (Inr x, w')"
    using r by (auto simp: op_bind_def split: prod.splits sum.splits)
  show "Q x (w_store w')" by (rule yieldsD [OF assms(2) yieldsD [OF assms(1) p y(1)] y(2)])
qed

lemma yields_catch: "yields P m Q \<Longrightarrow> (\<And>e. aborts (h e)) \<Longrightarrow> yields P (op_catch m h) Q"
  unfolding yields_def aborts_def op_catch_def by (fastforce split: prod.splits sum.splits)

lemma yields_step: "(\<And>s x s'. P s \<Longrightarrow> f s = Inr (x, s') \<Longrightarrow> Q x s') \<Longrightarrow> yields P (step f) Q"
  unfolding yields_def step_def by (auto split: sum.splits)

lemma yields_query: "(\<And>s x. P s \<Longrightarrow> f s = Inr x \<Longrightarrow> Q x s) \<Longrightarrow> yields P (query f) Q"
  unfolding yields_def query_def by auto

lemma yields_bind_query:
  assumes "\<And>x. yields (\<lambda>s. P s \<and> f s = Inr x) (g x) Q"
  shows "yields P (op_bind (query f) g) Q"
  by (rule yields_bind [OF yields_query assms]) blast

lemma yields_bind_ask:
  assumes "\<And>x. yields (\<lambda>s. P s \<and> f s = x) (g x) Q"
  shows "yields P (op_bind (ask f) g) Q"
  unfolding ask_def by (rule yields_bind_query) (use assms in simp)

lemma yields_if: "(b \<Longrightarrow> yields P m Q) \<Longrightarrow> (\<not> b \<Longrightarrow> yields P n Q) \<Longrightarrow> yields P (if b then m else n) Q"
  by simp

lemma yields_option:
  "(v = None \<Longrightarrow> yields P m Q) \<Longrightarrow> (\<And>x. v = Some x \<Longrightarrow> yields P (f x) Q) \<Longrightarrow> yields P (case v of None \<Rightarrow> m | Some x \<Rightarrow> f x) Q"
  by (cases v) auto

lemma yields_exists: "(\<And>y. yields (P y) m Q) \<Longrightarrow> yields (\<lambda>s. \<exists>y. P y s) m Q"
  unfolding yields_def by blast

lemma yields_fact: "(\<And>s. P s \<Longrightarrow> R) \<Longrightarrow> (R \<Longrightarrow> yields P m Q) \<Longrightarrow> yields P m Q"
  unfolding yields_def by blast

named_theorems aborts_intro \<open>operations that never report success\<close>

lemma aborts_raise [aborts_intro]: "aborts (op_raise e)"
  by (simp add: aborts_def op_raise_def)

lemma aborts_bind [aborts_intro]: "(\<And>x. aborts (f x)) \<Longrightarrow> aborts (op_bind m f)"
  unfolding aborts_def op_bind_def by (auto split: prod.splits sum.splits)

lemma aborts_if [aborts_intro]: "aborts m \<Longrightarrow> aborts n \<Longrightarrow> aborts (if b then m else n)"
  by simp

lemma aborts_prod [aborts_intro]: "(\<And>x y. aborts (f x y)) \<Longrightarrow> aborts (case p of (x, y) \<Rightarrow> f x y)"
  by (cases p) simp

section \<open>Parts of the store an operation leaves alone\<close>

definition keeps_part :: "(store \<Rightarrow> 'v) \<Rightarrow> (store, 'e, 'a) op \<Rightarrow> bool" where
  "keeps_part f m \<longleftrightarrow> (\<forall>w. f (w_store (snd (m w))) = f (w_store w))"

lemma yields_keeps:
  "keeps_part f m \<Longrightarrow> (\<And>s s' x. P s \<Longrightarrow> f s' = f s \<Longrightarrow> Q x s') \<Longrightarrow> yields P m Q"
  unfolding yields_def keeps_part_def by (metis snd_conv)

named_theorems keeps_intro \<open>operations that leave a part of the store alone\<close>

lemma keeps_return [keeps_intro]: "keeps_part f (op_return x)" and keeps_raise [keeps_intro]: "keeps_part f (op_raise e)"
  and keeps_query [keeps_intro]: "keeps_part f (query q)" and keeps_draw [keeps_intro]: "keeps_part f (draw d)"
  and keeps_check [keeps_intro]: "keeps_part f (check fs p)"
  by (simp_all add: keeps_part_def op_return_def op_raise_def query_def draw_def check_def)

lemma keeps_ask [keeps_intro]: "keeps_part f (ask q)"
  by (simp add: ask_def keeps_query)

lemma keeps_bind [keeps_intro]: "keeps_part f m \<Longrightarrow> (\<And>x. keeps_part f (g x)) \<Longrightarrow> keeps_part f (op_bind m g)"
  unfolding keeps_part_def op_bind_def by (auto split: prod.split sum.split) (metis snd_conv)+

lemma keeps_catch [keeps_intro]: "keeps_part f m \<Longrightarrow> (\<And>e. keeps_part f (h e)) \<Longrightarrow> keeps_part f (op_catch m h)"
  unfolding keeps_part_def op_catch_def by (auto split: prod.split sum.split) (metis snd_conv)+

lemma keeps_ignore [keeps_intro]: "keeps_part f m \<Longrightarrow> keeps_part f (op_ignore m)"
  unfolding keeps_part_def op_ignore_def by (auto split: prod.split) (metis snd_conv)

lemma keeps_if [keeps_intro]: "keeps_part f m \<Longrightarrow> keeps_part f n \<Longrightarrow> keeps_part f (if b then m else n)"
  and keeps_option [keeps_intro]:
    "keeps_part f m \<Longrightarrow> (\<And>x. keeps_part f (g x)) \<Longrightarrow> keeps_part f (case v of None \<Rightarrow> m | Some x \<Rightarrow> g x)"
  and keeps_prod [keeps_intro]: "(\<And>x y. keeps_part f (k x y)) \<Longrightarrow> keeps_part f (case p of (x, y) \<Rightarrow> k x y)"
  and keeps_body [keeps_intro]:
    "(\<And>x. keeps_part f (j x)) \<Longrightarrow> (\<And>x. keeps_part f (l x)) \<Longrightarrow> keeps_part f (case b' of File x \<Rightarrow> j x | Tree x \<Rightarrow> l x)"
  by (auto split: option.split prod.split body.split)

lemma keeps_pair: "keeps_part f m \<Longrightarrow> keeps_part g m \<Longrightarrow> keeps_part (\<lambda>s. (f s, g s)) m"
  by (simp add: keeps_part_def)

lemma keeps_each [keeps_intro]: "(\<And>x. keeps_part f (g x)) \<Longrightarrow> keeps_part f (op_each g xs)"
  by (induction xs) (auto intro: keeps_intro)

lemma keeps_step: "(\<And>s x s'. g s = Inr (x, s') \<Longrightarrow> f s' = f s) \<Longrightarrow> keeps_part f (step g)"
  unfolding keeps_part_def step_def by (auto split: sum.split)

lemma keeps_faults [keeps_intro]: "keeps_part f (fault fs p)" "keeps_part f (bare_fault fs p)"
  unfolding fault_def bare_fault_def by (intro keeps_intro)+

lemma keeps_conversions [keeps_intro]:
  "keeps_part f m \<Longrightarrow> keeps_part f (op_interrupt m)" "keeps_part f m \<Longrightarrow> keeps_part f (op_no_compensation m)"
  "keeps_part f n \<Longrightarrow> keeps_part f (op_tag t n)"
  unfolding op_interrupt_def op_no_compensation_def op_tag_def by (auto intro: keeps_intro)

lemma keeps_on_fs: "(\<And>s fs. f (s\<lparr>st_fs := fs\<rparr>) = f s) \<Longrightarrow> keeps_part f (on_fs g)"
  unfolding on_fs_def by (rule keeps_step) (auto simp: result_simps)

lemma keeps_intent_steps [keeps_intro]:
  "keeps_part st_fs (step (advance_durability_intent i st))" "keeps_part st_artifacts (step (advance_durability_intent i st))"
  "keeps_part st_revisions (step (advance_durability_intent i st))" "keeps_part st_artifacts (step (finish_durability_intent i))"
  "keeps_part st_artifacts (step (start_durability_intent i a op ex pr st'))"
  by (auto intro!: keeps_step simp: advance_durability_intent_def finish_durability_intent_def start_durability_intent_def
      split: if_splits)

lemma finalize_keeps [keeps_intro]:
  "keeps_part st_fs (finalize_audit_and_intent c audit intent operation target revision)"
  "keeps_part st_artifacts (finalize_audit_and_intent c audit intent operation target revision)"
  "keeps_part st_revisions (finalize_audit_and_intent c audit intent operation target revision)"
  unfolding finalize_audit_and_intent_def draw_event_def
  by (intro keeps_intro keeps_step; auto simp: result_simps closed_def closed_ledger dest!: finalize_durability_closed)+

section \<open>Removals\<close>

lemma yields_each:
  assumes "\<And>x xs. yields (I (x # xs)) (g x) (\<lambda>_. I xs)"
  shows "yields (I xs) (op_each g xs) (\<lambda>_. I [])"
  by (induction xs) (auto intro: yields_return yields_bind [OF assms])

lemma yields_on_fs:
  "(\<And>s fs. P s \<Longrightarrow> f (st_fs s) = Inr fs \<Longrightarrow> Q () (s\<lparr>st_fs := fs\<rparr>)) \<Longrightarrow> yields P (on_fs f) Q"
  unfolding on_fs_def by (rule yields_step) (auto simp: result_simps)

definition absent :: "loc \<Rightarrow> store \<Rightarrow> bool" where
  "absent l s \<longleftrightarrow> node (st_fs s) l = None"

lemma remove_node_removes: "yields P (remove_node l) (\<lambda>_. absent l)"
  unfolding remove_node_def
proof (rule yields_bind_ask)
  fix v
  let ?d = "on_fs (\<lambda>fs. Inr (drop_node fs l))"
  have d: "yields R ?d (\<lambda>_. absent l)" for R by (rule yields_on_fs) (auto simp: absent_def)
  have b: "yields R (op_bind k (\<lambda>_. ?d)) (\<lambda>_. absent l)" for R k
    by (rule yields_bind [where R = "\<lambda>_ _. True", OF _ d]) (simp add: yields_def)
  show "yields (\<lambda>s. P s \<and> node (st_fs s) l = v) (case v of None \<Rightarrow> op_return () | Some (File _) \<Rightarrow> ?d | Some (Tree files) \<Rightarrow>
      op_bind (op_each (\<lambda>(rel, _). on_fs (\<lambda>fs. case node fs l of
           Some (Tree rest) \<Rightarrow> Inr (put_node fs l (Tree (AList.delete rel rest))) | _ \<Rightarrow> Inr fs)) files) (\<lambda>_. ?d)) (\<lambda>_. absent l)"
    by (auto split: option.split body.split intro: d b yields_return simp: absent_def)
qed

lemma remove_node_absent: "yields (absent k) (remove_node l) (\<lambda>_. absent k)"
  unfolding remove_node_def
proof (rule yields_bind_ask, rule yields_option)
  fix v b
  let ?d = "on_fs (\<lambda>fs. Inr (drop_node fs l))"
  have d: "yields (absent k) ?d (\<lambda>_. absent k)" by (rule yields_on_fs) (auto simp: absent_def)
  have e: "yields (absent k) (op_each (\<lambda>(rel, _). on_fs (\<lambda>fs. case node fs l of
         Some (Tree rest) \<Rightarrow> Inr (put_node fs l (Tree (AList.delete rel rest))) | _ \<Rightarrow> Inr fs)) files) (\<lambda>_. absent k)" for files
    by (rule yields_each [where I = "\<lambda>_. absent k"], clarsimp, rule yields_on_fs)
      (auto simp: absent_def split: option.splits body.splits)
  show "yields (\<lambda>s. absent k s \<and> node (st_fs s) l = v) (case b of File y \<Rightarrow> ?d | Tree files \<Rightarrow>
         op_bind (op_each (\<lambda>(rel, _). on_fs (\<lambda>fs. case node fs l of
           Some (Tree rest) \<Rightarrow> Inr (put_node fs l (Tree (AList.delete rel rest))) | _ \<Rightarrow> Inr fs)) files) (\<lambda>_. ?d)) (\<lambda>_. absent k)"
    by (cases b) (auto intro: yields_conseq [OF d] yields_conseq [OF yields_bind [OF e d]])
qed (auto intro: yields_return)

lemma remove_history_dir_removes: "yields P (remove_history_dir a) (\<lambda>_ s. \<forall>x. absent (Past a x) s)"
  unfolding remove_history_dir_def
proof (rule yields_bind_ask)
  fix entries
  let ?I = "\<lambda>ls s. \<forall>x. absent (Past a x) s \<or> Past a x \<in> set ls"
  have "yields (?I (l # ls)) (remove_node l) (\<lambda>_. ?I ls)" for l ls
    unfolding yields_def
    using yieldsD [OF remove_node_removes [of "\<lambda>_. True"]] yieldsD [OF remove_node_absent] by (metis set_ConsD)
  then have e: "yields (?I entries) (op_each remove_node entries) (\<lambda>_. ?I [])" by (rule yields_each)
  show "yields (\<lambda>s. P s \<and> history_entries (st_fs s) a = entries) (op_bind (op_each remove_node entries) (\<lambda>_.
      on_fs (\<lambda>fs. Inr (fs\<lparr>fs_history := sql_delete (\<lambda>x. x = a) (fs_history fs)\<rparr>)))) (\<lambda>_ s. \<forall>x. absent (Past a x) s)"
  proof (rule yields_bind [OF yields_pre [OF e]])
    show "?I entries s" if "P s \<and> history_entries (st_fs s) a = entries" for s
      using that by (force simp: absent_def node_def history_entries_def map_of_eq_None_iff)
    show "yields (?I []) (on_fs (\<lambda>fs. Inr (fs\<lparr>fs_history := sql_delete (\<lambda>x. x = a) (fs_history fs)\<rparr>))) (\<lambda>_ s. \<forall>x. absent (Past a x) s)"
      by (rule yields_on_fs) (auto simp: absent_def)
  qed
qed

lemma remove_history_dir_absent: "yields (absent k) (remove_history_dir a) (\<lambda>_. absent k)"
  unfolding remove_history_dir_def
proof (rule yields_bind_ask, rule yields_bind [where R = "\<lambda>_. absent k"])
  show "yields (\<lambda>s. absent k s \<and> history_entries (st_fs s) a = entries) (op_each remove_node entries) (\<lambda>_. absent k)" for entries
    by (rule yields_conseq [OF yields_each [where I = "\<lambda>_. absent k", OF remove_node_absent]]) auto
qed (auto intro: yields_on_fs simp: absent_def)

text \<open>
  Nothing new: every file or directory is one that \<open>g\<close> has, with the same content, apart from at most
  one exception.
\<close>

definition leftover :: "(loc \<Rightarrow> body option) \<Rightarrow> loc option \<Rightarrow> store \<Rightarrow> bool" where
  "leftover g except s \<longleftrightarrow> (\<forall>k b. node (st_fs s) k = Some b \<and> Some k \<noteq> except \<longrightarrow> g k = Some b)"

lemma leftover_weaken: "leftover g None s \<Longrightarrow> leftover g e s"
  by (simp add: leftover_def)

lemma remove_node_leftover: "yields (leftover g (Some l)) (remove_node l) (\<lambda>_. leftover g None)"
proof -
  have "yields (leftover g (Some l)) (remove_node l) (\<lambda>_. leftover g (Some l))"
    unfolding remove_node_def
  proof (rule yields_bind_ask, rule yields_option)
    fix v b
    let ?d = "on_fs (\<lambda>fs. Inr (drop_node fs l))"
    let ?I = "leftover g (Some l)"
    have d: "yields ?I ?d (\<lambda>_. ?I)" by (rule yields_on_fs) (auto simp: leftover_def)
    have e: "yields ?I (op_each (\<lambda>(rel, _). on_fs (\<lambda>fs. case node fs l of
           Some (Tree rest) \<Rightarrow> Inr (put_node fs l (Tree (AList.delete rel rest))) | _ \<Rightarrow> Inr fs)) files) (\<lambda>_. ?I)" for files
      by (rule yields_each [where I = "\<lambda>_. ?I"], clarsimp, rule yields_on_fs)
        (auto simp: leftover_def split: option.splits body.splits)
    show "yields (\<lambda>s. ?I s \<and> node (st_fs s) l = v) (case b of File y \<Rightarrow> ?d | Tree files \<Rightarrow>
           op_bind (op_each (\<lambda>(rel, _). on_fs (\<lambda>fs. case node fs l of
             Some (Tree rest) \<Rightarrow> Inr (put_node fs l (Tree (AList.delete rel rest))) | _ \<Rightarrow> Inr fs)) files) (\<lambda>_. ?d)) (\<lambda>_. ?I)"
      by (cases b) (auto intro: yields_conseq [OF d] yields_conseq [OF yields_bind [OF e d]])
  qed (auto intro: yields_return)
  from yields_conj [OF this remove_node_removes [of "\<lambda>_. True" l]] show ?thesis
    by (rule yields_conseq) (auto simp: leftover_def absent_def, metis option.distinct(1))
qed

lemma remove_history_dir_leftover: "yields (leftover g None) (remove_history_dir a) (\<lambda>_. leftover g None)"
  unfolding remove_history_dir_def
proof (rule yields_bind_ask, rule yields_bind [where R = "\<lambda>_. leftover g None"])
  show "yields (\<lambda>s. leftover g None s \<and> history_entries (st_fs s) a = entries) (op_each remove_node entries) (\<lambda>_. leftover g None)" for entries
    by (rule yields_conseq [OF yields_each [where I = "\<lambda>_. leftover g None", OF yields_pre [OF remove_node_leftover leftover_weaken]]]) auto
qed (auto intro: yields_on_fs simp: leftover_def)

lemma keeps_removals [keeps_intro]:
  "(\<And>s fs. f (s\<lparr>st_fs := fs\<rparr>) = f s) \<Longrightarrow> keeps_part f (remove_node l)"
  "(\<And>s fs. f (s\<lparr>st_fs := fs\<rparr>) = f s) \<Longrightarrow> keeps_part f (remove_history_dir a)"
  "(\<And>s fs. f (s\<lparr>st_fs := fs\<rparr>) = f s) \<Longrightarrow> keeps_part f (safe_remove l)"
  unfolding remove_history_dir_def safe_remove_def remove_node_def by (intro keeps_intro keeps_on_fs; simp)+

section \<open>Delete\<close>

lemma advance_fields:
  assumes "advance_durability_intent i state s = Inr (x, s')"
  shows "st_artifacts s' = st_artifacts s" "st_revisions s' = st_revisions s" "st_fs s' = st_fs s"
  using assms by (auto simp: advance_durability_intent_def split: if_splits)

lemma delete_transaction_effect:
  assumes "delete_transaction c n m intent s = Inr (x, s')"
  shows "revs_of s' (am_id m) = [] \<and> st_fs s' = st_fs s"
proof -
  obtain s1 where s1: "fanout_delivery c n m EvDeleted intent (delete_artifact (am_id m) s) = Inr s1"
    and s': "advance_durability_intent intent ''metadata_committed'' s1 = Inr (x, s')"
    using assms by (auto simp: delete_transaction_def result_simps)
  have "st_revisions s1 = st_revisions (delete_artifact (am_id m) s)" "st_fs s1 = st_fs (delete_artifact (am_id m) s)"
    using fanout_delivery_core [OF s1] by (simp_all add: core_def)
  then show ?thesis
    using advance_fields [OF s'] by (auto simp: revs_of_def delete_artifact_def sql_delete_def filter_empty_conv)
qed

definition erased :: "(loc \<Rightarrow> body option) \<Rightarrow> ArtifactMeta \<Rightarrow> store \<Rightarrow> bool" where
  "erased g m s \<longleftrightarrow> revs_of s (am_id m) = [] \<and> absent (live_loc (am_id m) (am_is_bundle m)) s \<and>
     (\<forall>x. absent (Past (am_id m) x) s) \<and> leftover g None s"

text \<open>The body has left its place, for the trash if there was one.\<close>

definition trashed :: "(loc \<Rightarrow> body option) \<Rightarrow> ArtifactMeta \<Rightarrow> string \<Rightarrow> bool \<Rightarrow> store \<Rightarrow> bool" where
  "trashed g m trash moved s \<longleftrightarrow>
     absent (live_loc (am_id m) (am_is_bundle m)) s \<and> leftover g (if moved then Some (Entry trash) else None) s"

lemma move_to_trash_absent:
  assumes "live_loc (am_id m) (am_is_bundle m) \<noteq> Entry trash"
  shows "yields (leftover g None) (move_body_to_trash c m trash) (trashed g m trash)"
proof -
  let ?l = "live_loc (am_id m) (am_is_bundle m)"
  let ?T = "trashed g m trash True"
  have r: "yields (leftover g None) (durable_rename ?l (Entry trash)) (\<lambda>_. ?T)"
    unfolding durable_rename_def
    by (rule yields_on_fs)
      (use assms in \<open>auto simp: fs_rename_def trashed_def leftover_def absent_def split: option.splits if_splits\<close>)
  have k: "yields ?T (bare_fault (sc_faults c) p) (\<lambda>_. ?T)" for p
    by (rule yields_keeps [OF keeps_faults(2) [of st_fs]]) (simp add: trashed_def leftover_def absent_def)
  have f: "yields (\<lambda>s. leftover g None s \<and> path_exists (st_fs s) ?l = x) (bare_fault (sc_faults c) p) (\<lambda>_. leftover g None)" for p x
    by (rule yields_keeps [OF keeps_faults(2) [of st_fs]]) (simp add: leftover_def)
  show ?thesis unfolding move_body_to_trash_def rename_with_barrier_def Let_def
    by (intro yields_bind_ask yields_if yields_bind [OF f] yields_bind [OF yields_bind [OF r k]] yields_return)
      (auto simp: trashed_def absent_def path_exists_def)
qed

lemma delete_attempt_erases:
  "yields (trashed g m trash moved) (delete_attempt c m trash moved intent) (\<lambda>_. erased g m)"
proof -
  let ?l = "live_loc (am_id m) (am_is_bundle m)"
  let ?R = "\<lambda>mv s. revs_of s (am_id m) = [] \<and> trashed g m trash mv s"
  have np: "yields P (op_no_compensation k) Q" if "yields P k Q" for P Q and k :: "'a store_op"
    unfolding op_no_compensation_def by (intro yields_catch that aborts_intro)
  have ip: "yields P (op_interrupt k) Q" if "yields P k Q" for P Q and k :: "'a store_op"
    unfolding op_interrupt_def by (intro yields_catch that aborts_intro)
  have pass: "yields (trashed g m trash moved) k (\<lambda>_. trashed g m trash moved)" if "keeps_part st_fs k" for k :: "(store, 'e, 'a) op"
    by (rule yields_keeps [OF that]) (simp add: trashed_def leftover_def absent_def)
  have revs: "yields (\<lambda>s. revs_of s (am_id m) = []) k (\<lambda>_ s. revs_of s (am_id m) = [])" if "keeps_part st_revisions k" for k :: "(store, 'e, 'a) op"
    by (rule yields_keeps [OF that]) (simp add: revs_of_def)
  have trans: "yields (trashed g m trash moved) (op_interrupt (step (delete_transaction c n m intent))) (\<lambda>_. ?R moved)" for n
    by (rule ip, rule yields_step) (use delete_transaction_effect in \<open>auto simp: trashed_def leftover_def absent_def\<close>)
  have flt: "yields (?R mv) (op_no_compensation (bare_fault (sc_faults c) p)) (\<lambda>_. ?R mv)" for p mv
    by (rule np, rule yields_keeps [OF keeps_pair [OF keeps_faults(2) [of st_fs] keeps_faults(2) [of st_revisions]]])
      (simp add: trashed_def leftover_def absent_def revs_of_def)
  have rm: "yields (?R True) (remove_node (Entry trash)) (\<lambda>_. ?R False)"
    by (rule yields_conseq [OF yields_conj [OF revs yields_conj [OF remove_node_absent remove_node_leftover]]])
      (auto simp: trashed_def intro: keeps_removals)
  have trash: "yields (?R moved) (if moved then op_no_compensation (remove_node (Entry trash)) else op_return ()) (\<lambda>_. ?R False)"
    by (rule yields_if, simp, rule np, rule rm, rule yields_return) simp
  have hist: "yields (?R False) (op_no_compensation (remove_history_dir (am_id m))) (\<lambda>_. erased g m)"
    by (rule np, rule yields_conseq [OF yields_conj [OF revs yields_conj [OF yields_conj [OF remove_history_dir_absent
          remove_history_dir_leftover] remove_history_dir_removes [where P = "\<lambda>_. True"]]]])
      (auto simp: erased_def trashed_def intro: keeps_removals)
  have adv: "yields (erased g m) (op_interrupt (step (advance_durability_intent intent st))) (\<lambda>_. erased g m)" for st
    by (rule ip, rule yields_step) (auto simp: erased_def leftover_def absent_def revs_of_def dest: advance_fields(2,3))
  have body: "yields (trashed g m trash moved) (op_bind (draw Inr) (\<lambda>n.
       op_bind (op_interrupt (step (delete_transaction c n m intent))) (\<lambda>_.
       op_bind (op_no_compensation (bare_fault (sc_faults c) DeleteTrashRemove)) (\<lambda>_.
       op_bind (if moved then op_no_compensation (remove_node (Entry trash)) else op_return ()) (\<lambda>_.
       op_bind (op_no_compensation (bare_fault (sc_faults c) DeleteHistoryRemove)) (\<lambda>_.
       op_bind (op_no_compensation (remove_history_dir (am_id m))) (\<lambda>_.
       op_bind (op_interrupt (step (advance_durability_intent intent ''body_durable''))) (\<lambda>_.
       op_return True)))))))) (\<lambda>_. erased g m)"
    by (intro yields_bind [OF pass [OF keeps_draw]] yields_bind [OF trans] yields_bind [OF flt] yields_bind [OF trash]
        yields_bind [OF hist] yields_bind [OF adv] yields_return)
  show ?thesis unfolding delete_attempt_def
    by (rule yields_bind [OF pass [OF keeps_faults(1)]], rule yields_bind_ask, rule yields_if, rule yields_aborts,
        intro aborts_intro, rule yields_pre [OF body]) blast
qed

lemma load_meta_find:
  assumes "load_meta s a = Inr (Some m)"
  shows "List.find (\<lambda>q. am_id q = a) (st_artifacts s) = Some m" and "am_id m = a"
proof -
  show f: "List.find (\<lambda>q. am_id q = a) (st_artifacts s) = Some m"
    using assms by (auto simp: load_meta_def load_meta_unchecked_def meta_from_row_def result_simps split: option.splits if_splits)
  then show "am_id m = a" by (auto simp: find_Some_iff)
qed

lemma delete_reservation_fs: "delete_reservation c m audit trash s = Inr (x, s') \<Longrightarrow> st_fs s' = st_fs s"
  by (auto simp: delete_reservation_def start_durability_intent_def result_simps core_def
      dest!: reserve_audit_core split: if_splits)

lemma delete_body_erases:
  assumes "live_loc (am_id m) (am_is_bundle m) \<noteq> Entry trash"
  shows "yields (leftover g None) (delete_body c m audit trash) (\<lambda>_. erased g m)"
proof -
  let ?l = "live_loc (am_id m) (am_is_bundle m)"
  have 1: "yields (leftover g None) (step (delete_reservation c m audit trash)) (\<lambda>_. leftover g None)"
    by (rule yields_step) (auto simp: leftover_def dest: delete_reservation_fs)
  have fin: "yields (erased g m) (finalize_audit_and_intent c audit i operation target revision) (\<lambda>_. erased g m)" for i operation target revision
    by (rule yields_keeps [OF keeps_pair [OF finalize_keeps(1,3)]]) (simp add: erased_def leftover_def absent_def revs_of_def)
  show ?thesis unfolding delete_body_def
    by (intro yields_bind [OF 1] yields_bind [OF yields_catch [OF move_to_trash_absent [OF assms]]]
        yields_bind [OF yields_catch [OF delete_attempt_erases]] yields_bind [OF fin] yields_return aborts_intro)
qed

lemma transient_entry_name:
  "yields P (transient_entry c a kind) (\<lambda>name s. P s \<and> (\<exists>token. name = transient_name a kind token))"
  unfolding yields_def transient_entry_def draw_def
  by (auto simp: result_simps split: option.splits)

lemma live_not_new_transient:
  assumes "is_valid_artifact_id a"
  shows "live_loc a b \<noteq> Entry (transient_name a kind token)"
proof -
  have "transient_of a (transient_name a kind token)"
    using transient_name_parts [OF assms] by (simp add: transient_of_def)
  then show ?thesis using not_transient_of [OF assms, of a] by (auto simp: live_loc_def)
qed

theorem delete_sync_erases:
  assumes "delete_sync c a audit w = (Inr True, w')"
  shows "\<exists>m. load_meta (w_store w) a = Inr (Some m) \<and> am_id m = a \<and> erased (node (st_fs (w_store w))) m (w_store w')"
proof -
  let ?Q = "\<lambda>deleted s. deleted \<longrightarrow> (\<exists>m. load_meta (w_store w) a = Inr (Some m) \<and> am_id m = a \<and> erased (node (st_fs (w_store w))) m s)"
  have "yields (\<lambda>s. s = w_store w) (delete_sync c a audit) ?Q"
    unfolding delete_sync_def
  proof (rule yields_bind_query, rule yields_option)
    fix found and m :: ArtifactMeta assume found: "found = Some m"
    let ?P = "\<lambda>s. s = w_store w \<and> load_meta s a = Inr found"
    show "yields ?P (if SafeArtifactId_parse a = None then op_raise ConcealedNotFound
        else op_bind (transient_entry c a Trash) (\<lambda>trash. delete_body c m (for_affected_tenant audit (am_org m)) trash)) ?Q"
    proof (rule yields_if, rule yields_aborts, rule aborts_raise)
      assume "SafeArtifactId_parse a \<noteq> None"
      then have v: "is_valid_artifact_id a" by (auto simp: SafeArtifactId_parse_def split: if_splits)
      show "yields ?P (op_bind (transient_entry c a Trash) (\<lambda>trash. delete_body c m (for_affected_tenant audit (am_org m)) trash)) ?Q"
      proof (rule yields_bind [OF transient_entry_name], rule yields_fact)
        show "load_meta (w_store w) a = Inr (Some m) \<and> am_id m = a \<and> (\<exists>token. name = transient_name a Trash token)"
          if "?P s \<and> (\<exists>token. name = transient_name a Trash token)" for s name
          using that found load_meta_find(2) by auto
      next
        fix name assume f: "load_meta (w_store w) a = Inr (Some m) \<and> am_id m = a \<and> (\<exists>token. name = transient_name a Trash token)"
        then have "live_loc (am_id m) (am_is_bundle m) \<noteq> Entry name" using live_not_new_transient [OF v] by auto
        note er = delete_body_erases [OF this, of "node (st_fs (w_store w))"]
        show "yields (\<lambda>s. ?P s \<and> (\<exists>token. name = transient_name a Trash token)) (delete_body c m (for_affected_tenant audit (am_org m)) name) ?Q"
          by (rule yields_conseq [OF er]) (use f in \<open>auto simp: leftover_def\<close>)
      qed
    qed
  qed (auto intro: yields_return)
  from yieldsD [OF this _ assms] show ?thesis by simp
qed

section \<open>Update\<close>

lemma find_updated_row:
  assumes "\<And>y. p (f y) = p y" and "List.find p xs = Some x"
  shows "List.find p (sql_update g f xs) = Some (if g x then f x else x)"
  using assms(2)
proof (induction xs)
  case (Cons y ys)
  then show ?case using assms(1) [of y] by (cases "p y"; cases "g y") (simp_all add: sql_update_def)
qed simp

lemma keeps_artifacts [keeps_intro]:
  "keeps_part st_artifacts (on_fs f)" "keeps_part st_artifacts (step (\<lambda>s. Inr ((), s\<lparr>st_revisions := g s\<rparr>)))"
  by (auto intro: keeps_on_fs keeps_step)

lemmas update_fs_defs = rename_with_barrier_def durable_rename_def create_history_dir_def copy_recursive_def sync_with_barrier_def
  write_file_def write_below_def stage_single_body_def stage_bundle_files_def

lemma swap_keeps [keeps_intro]: "keeps_part st_artifacts (swap_body c m staged)"
  unfolding swap_body_def snapshot_body_def update_fs_defs Let_def by (intro keeps_intro)

lemma prune_keeps [keeps_intro]: "keeps_part st_artifacts (prune_history c a)"
  unfolding prune_history_def by (intro keeps_intro) simp_all

lemma keeps_staged [keeps_intro]:
  "keeps_part f j \<Longrightarrow> (\<And>h. keeps_part f (k h)) \<Longrightarrow> (\<And>fs. keeps_part f (l fs)) \<Longrightarrow>
     keeps_part f (case b of NoBody \<Rightarrow> j | Single h \<Rightarrow> k h | BundleBody fs \<Rightarrow> l fs)"
  by (cases b) auto

lemma stage_update_keeps [keeps_intro]: "keeps_part st_artifacts (stage_update_body c m plan)"
  unfolding stage_update_body_def stage_planned_body_def transient_entry_def update_fs_defs safe_remove_def remove_node_def
  by (intro keeps_intro)

lemma update_transaction_row:
  assumes "update_transaction c n m expected plan acting intent audit operation s = Inr (Some s')"
    and "List.find (\<lambda>q. am_id q = am_id m) (st_artifacts s) = Some m" and "expected = am_revision m"
  shows "List.find (\<lambda>q. am_id q = am_id m) (st_artifacts s') = Some (committed_meta (sc_datetime c n) m plan)"
proof -
  let ?new = "\<lambda>q. q\<lparr>am_title := up_title plan, am_description := up_description plan, am_bytes := up_bytes plan,
       am_entry := up_entry plan, am_category := up_category plan, am_body_sha256 := up_body_sha256 plan,
       am_revision := am_revision q + 1, am_updated_at := sc_datetime c n\<rparr>"
  obtain s2 s3 s4 s5 u where s2: "core s2 = core (s\<lparr>st_artifacts := sql_update (guarded_row m expected) ?new (st_artifacts s)\<rparr>)"
    and s3: "record_legacy_revision_row m (sc_datetime c n) s2 = Inr s3"
    and s4: "record_revision_row (produced_meta m plan) acting (sc_datetime c n) s3 = Inr s4"
    and s5: "core s5 = core s4" and s6: "advance_durability_intent intent ''metadata_committed'' s5 = Inr (u, s')"
    by (rule update_transaction_parts [OF assms(1)])
  have "st_artifacts s' = sql_update (guarded_row m expected) ?new (st_artifacts s)"
    using s2 s5 legacy_row_effect(1) [OF s3] record_row_effect(1) [OF s4] advance_fields(1) [OF s6] by (simp add: core_def)
  moreover have "guarded_row m expected m" using assms(3) by (simp add: guarded_row_def)
  ultimately show ?thesis
    using find_updated_row [OF _ assms(2), of ?new "guarded_row m expected"] by (simp add: committed_meta_def)
qed

text \<open>The row of an artifact, as a reader that ignores open intents finds it.\<close>

definition row_is :: "string \<Rightarrow> ArtifactMeta \<Rightarrow> store \<Rightarrow> bool" where
  "row_is a m s \<longleftrightarrow> List.find (\<lambda>q. am_id q = a) (st_artifacts s) = Some m"

lemma yields_row_is: "keeps_part st_artifacts k \<Longrightarrow> yields (row_is a m) k (\<lambda>_. row_is a m)"
  by (rule yields_keeps, assumption) (simp add: row_is_def)

lemma commit_update_row:
  assumes "am_id m = a" and "expected = am_revision m"
  shows "yields (row_is a m) (commit_update c m expected plan acting intent audit operation)
    (\<lambda>committed s. committed \<longrightarrow> (\<exists>now. row_is a (committed_meta now m plan) s))"
proof -
  have q: "yields (row_is a m) (query f) (\<lambda>x s. row_is a m s \<and> f s = Inr x)" for f :: "store \<Rightarrow> store option result"
    by (rule yields_query) simp
  have st: "yields (\<lambda>s. row_is a m s \<and> update_transaction c n m expected plan acting intent audit operation s = Inr planned)
      (step (\<lambda>s. try_bind (update_transaction c n m expected plan acting intent audit operation s)
           (\<lambda>committed. case committed of None \<Rightarrow> Inr ((), s) | Some s' \<Rightarrow> Inr ((), s'))))
      (\<lambda>_ s. \<exists>now. row_is a (committed_meta now m plan) s)" if "planned \<noteq> None" for n planned
    by (rule yields_step)
      (use that update_transaction_row assms in \<open>auto simp: row_is_def result_simps split: option.splits\<close>)
  have fl: "yields (\<lambda>s. row_is a m s \<and> update_transaction c n m expected plan acting intent audit operation s = Inr planned)
      (bare_fault (sc_faults c) p)
      (\<lambda>_ s. row_is a m s \<and> update_transaction c n m expected plan acting intent audit operation s = Inr planned)" for n planned p
    by (rule yields_keeps [OF keeps_faults(2) [of "\<lambda>s. s"]]) simp
  show ?thesis unfolding commit_update_def
    by (intro yields_bind [OF yields_row_is [OF keeps_draw]] yields_bind_query yields_if yields_return
        yields_bind [OF fl] yields_bind [OF st]) auto
qed

lemma finish_update_row:
  assumes "am_id m = a"
  shows "yields (row_is a m') (finish_update_body c m staged audit operation) (\<lambda>r _. ur_meta r = m' \<and> ur_changed r)"
proof -
  have h: "aborts (case e of (interrupt, snapshot) \<Rightarrow> op_bind (k interrupt snapshot) (\<lambda>_. op_raise (error interrupt)))" for e k
    by (intro aborts_intro)
  show ?thesis unfolding finish_update_body_def
    by (intro yields_bind [OF yields_catch [OF yields_row_is [OF swap_keeps] h]] yields_bind [OF yields_row_is [OF keeps_intent_steps(2)]]
        yields_bind [OF yields_row_is [OF keeps_faults(2)]] yields_bind [OF yields_row_is [OF prune_keeps]]
        yields_bind [OF yields_row_is [OF finalize_keeps(2)]] yields_bind_query yields_option yields_return yields_aborts aborts_intro)
      (use assms in \<open>auto simp: row_is_def dest: load_meta_find(1)\<close>)
qed

lemma update_staged_row:
  assumes "am_id m = a" and "expected = am_revision m"
  shows "yields (row_is a m) (update_staged c m expected plan acting audit operation staged)
    (\<lambda>r _. (\<exists>now. ur_meta r = committed_meta now m plan) \<and> ur_changed r)"
proof -
  let ?Q = "\<lambda>r _. (\<exists>now. ur_meta r = committed_meta now m plan) \<and> ur_changed r"
  have fin: "yields (\<lambda>s. \<exists>now. row_is a (committed_meta now m plan) s) (finish_update_body c m staged audit operation) ?Q"
    by (rule yields_exists, rule yields_conseq [OF finish_update_row [OF assms(1)]]) auto
  have "yields (\<lambda>s. committed \<longrightarrow> (\<exists>now. row_is a (committed_meta now m plan) s))
      (if \<not> committed then op_bind (abandon_update m staged) (\<lambda>_. op_raise (Conflict ''conflict''))
       else finish_update_body c m staged audit operation) ?Q" for committed
    by (rule yields_if, rule yields_aborts, intro aborts_intro, rule yields_pre [OF fin]) simp
  then show ?thesis unfolding update_staged_def update_commit_def
    by (intro yields_bind [OF yields_catch [OF yields_row_is [OF keeps_faults(1)]]]
        yields_bind [OF yields_catch [OF commit_update_row [OF assms]]] aborts_intro)
qed

theorem update_sync_outcome:
  assumes "update_sync c a update audit w = (Inr r, w')"
  shows "\<exists>m plan. load_meta (w_store w) a = Inr (Some m) \<and> am_revision m = au_expected_revision update \<and>
    plan_update c m update (w_store w) = Inr plan \<and> ur_changed r = up_changed plan \<and>
    (if up_changed plan then \<exists>now. ur_meta r = committed_meta now m plan else ur_meta r = m)"
proof -
  let ?n = "au_expected_revision update"
  let ?Q = "\<lambda>r. \<exists>m plan. load_meta (w_store w) a = Inr (Some m) \<and> am_revision m = ?n \<and>
    plan_update c m update (w_store w) = Inr plan \<and> ur_changed r = up_changed plan \<and>
    (if up_changed plan then \<exists>now. ur_meta r = committed_meta now m plan else ur_meta r = m)"
  have "yields (\<lambda>s. s = w_store w) (update_sync c a update audit) (\<lambda>r _. ?Q r)"
    unfolding update_sync_def update_locked_def
  proof (rule yields_bind_query, rule yields_option)
    fix found and m :: ArtifactMeta assume found: "found = Some m"
    show "yields (\<lambda>s. s = w_store w \<and> load_meta s a = Inr found)
       (if SafeArtifactId_parse a = None then op_raise ConcealedNotFound
        else if ?n < 1 \<or> ?n \<noteq> am_revision m then op_raise (Conflict ''conflict'')
        else op_bind (query (plan_update c m update)) (\<lambda>plan.
           if \<not> up_changed plan then op_return \<lparr> ur_meta = m, ur_changed = False \<rparr>
           else op_bind (query (require_current_body c m)) (\<lambda>_.
             op_bind (stage_update_body c m plan) (\<lambda>staged.
             update_staged c m ?n plan (au_acting_client_id update) (for_affected_tenant audit (am_org m)) ''artifact.update'' staged))))
       (\<lambda>r _. ?Q r)"
    proof (rule yields_if, rule yields_aborts, rule aborts_raise, rule yields_if, rule yields_aborts, rule aborts_raise,
        rule yields_bind_query, rule yields_if)
      fix plan assume n: "\<not> (?n < 1 \<or> ?n \<noteq> am_revision m)"
      let ?P = "\<lambda>s. (s = w_store w \<and> load_meta s a = Inr found) \<and> plan_update c m update s = Inr plan"
      show "yields ?P (op_return \<lparr> ur_meta = m, ur_changed = False \<rparr>) (\<lambda>r _. ?Q r)" if "\<not> up_changed plan"
        by (rule yields_return) (use that n found in auto)
      show "yields ?P (op_bind (query (require_current_body c m)) (\<lambda>_. op_bind (stage_update_body c m plan) (\<lambda>staged.
             update_staged c m ?n plan (au_acting_client_id update) (for_affected_tenant audit (am_org m)) ''artifact.update'' staged)))
          (\<lambda>r _. ?Q r)" if ch: "\<not> \<not> up_changed plan"
      proof (rule yields_fact)
        show "load_meta (w_store w) a = Inr (Some m) \<and> plan_update c m update (w_store w) = Inr plan" if "?P s" for s
          using that found by auto
      next
        assume f: "load_meta (w_store w) a = Inr (Some m) \<and> plan_update c m update (w_store w) = Inr plan"
        have "am_id m = a" using f load_meta_find(2) by blast
        note u = update_staged_row [OF this, of ?n]
        have "yields (row_is a m) (op_bind (query (require_current_body c m)) (\<lambda>_. op_bind (stage_update_body c m plan) (\<lambda>staged.
             update_staged c m ?n plan (au_acting_client_id update) (for_affected_tenant audit (am_org m)) ''artifact.update'' staged)))
            (\<lambda>r _. (\<exists>now. ur_meta r = committed_meta now m plan) \<and> ur_changed r)"
          by (intro yields_bind [OF yields_row_is [OF keeps_query]] yields_bind [OF yields_row_is [OF stage_update_keeps]] u)
            (use n in auto)
        then show ?thesis
          by (rule yields_conseq) (use f n ch in \<open>auto simp: row_is_def dest: load_meta_find(1)\<close>)
      qed
    qed
  qed (auto intro: yields_aborts aborts_intro)
  from yieldsD [OF this _ assms] show ?thesis by simp
qed

end
