(* ===== verification/Lifecycle_Safety.thy ===== *)
theory Lifecycle_Safety
  imports Lifecycle_Outcomes
begin

text \<open>
  What the artifact store guarantees, whatever happens to the process. A request runs one operation
  of Artifact_Lifecycle or the storage audit of Reconciliation; the process may die after any of its
  steps, an injected fault may abort it anywhere, and the next request, or the audit of the next
  start, finds the store as it was left. \<open>store_step\<close> is that relation, \<open>lifecycle_reachable\<close> its
  closure over an empty store.

  The hypotheses of a request (\<open>admissible\<close>): the artifact directory or the working directory is
  absolute, identifiers drawn from the random source are not in use, and the paths of a submitted
  bundle are pairwise different after sanitizing. The last is needed: see
  \<open>duplicate_paths_lose_digest\<close>.
\<close>

section \<open>Requests\<close>

datatype StoreRequest =
    PublishRequest PublishArtifact MutationAudit
  | UpdateRequest string ArtifactUpdate MutationAudit
  | RestoreRequest string int "string option" MutationAudit
  | DeleteRequest string MutationAudit
  | CategoryRequest string string MutationAudit
  | VisibilityRequest string bool MutationAudit
  | MoveRequest string string "string option" MutationAudit
  | AuditRequest bool

definition finished :: "'a store_op \<Rightarrow> unit store_op" where
  "finished m = op_bind m (\<lambda>_. op_return ())"

fun run_request :: "StoreContext \<Rightarrow> StoreRequest \<Rightarrow> unit store_op" where
  "run_request c (PublishRequest request audit) = finished (publish_sync c request audit)"
| "run_request c (UpdateRequest aid update audit) = finished (update_sync c aid update audit)"
| "run_request c (RestoreRequest aid revision acting audit) = finished (restore_sync c aid revision acting audit)"
| "run_request c (DeleteRequest aid audit) = finished (delete_sync c aid audit)"
| "run_request c (CategoryRequest aid category audit) = finished (set_category_sync c aid category audit)"
| "run_request c (VisibilityRequest aid hidden audit) = finished (set_hidden_sync c aid hidden audit)"
| "run_request c (MoveRequest aid org category audit) = finished (move_to_org_sync c aid org category audit)"
| "run_request c (AuditRequest clean) = finished (audit_storage c clean)"

fun submitted :: "StoreRequest \<Rightarrow> ArtifactContent option" where
  "submitted (PublishRequest request audit) = Some (pa_content request)"
| "submitted (UpdateRequest aid update audit) = au_content update"
| "submitted _ = None"

definition admissible :: "StoreContext \<Rightarrow> StoreRequest \<Rightarrow> store \<Rightarrow> bool" where
  "admissible c request s \<longleftrightarrow> rooted_store c \<and> fresh_source c s \<and>
     (case submitted request of None \<Rightarrow> True | Some content \<Rightarrow> distinct_content content)"

text \<open>The stores an operation leaves: when it returns, or when the process dies after one of its steps.\<close>

definition fresh_world :: "store \<Rightarrow> store Lifecycle_Effects.world" where
  "fresh_world s = \<lparr> w_store = s, w_trace = [], w_visited = [], w_drawn = 0 \<rparr>"

definition stores_left :: "unit store_op \<Rightarrow> store \<Rightarrow> store list" where
  "stores_left m s = (case m (fresh_world s) of (r, w) \<Rightarrow> w_store w # w_trace w)"

inductive store_step ::
    "(bytes \<Rightarrow> string) \<Rightarrow> ((string \<times> string) list \<Rightarrow> string) \<Rightarrow> store \<Rightarrow> store \<Rightarrow> bool" for sha json where
  request: "sc_sha c = sha \<Longrightarrow> sc_manifest_json c = json \<Longrightarrow> admissible c request s \<Longrightarrow>
     s' \<in> set (stores_left (run_request c request) s) \<Longrightarrow> store_step sha json s s'"
| elsewhere: "core s' = core s \<Longrightarrow> store_step sha json s s'"

definition blank_store :: "store \<Rightarrow> bool" where
  "blank_store s \<longleftrightarrow> st_artifacts s = [] \<and> st_revisions s = [] \<and> st_intents s = [] \<and> fs_nodes (st_fs s) = []"

definition lifecycle_reachable ::
    "(bytes \<Rightarrow> string) \<Rightarrow> ((string \<times> string) list \<Rightarrow> string) \<Rightarrow> store \<Rightarrow> bool" where
  "lifecycle_reachable sha json s \<longleftrightarrow> (\<exists>s0. blank_store s0 \<and> (store_step sha json)\<^sup>*\<^sup>* s0 s)"

section \<open>The invariant\<close>

text \<open>The invariant depends on the context only through the digest functions.\<close>

lemma crash_ok_cong:
  assumes "sc_sha c = sc_sha d" and "sc_manifest_json c = sc_manifest_json d"
  shows "crash_ok c s = crash_ok d s"
proof -
  have b: "body_digest_at_path c = body_digest_at_path d"
    by (intro ext) (simp add: body_digest_at_path_def body_digest_def assms split: option.split body.split)
  show ?thesis
    unfolding crash_ok_def art_ok_def at_rest_def pending_ok_def body_pending_def update_prepared_def update_committed_def
      history_ok_def phase_defs b ..
qed

definition store_ok :: "(bytes \<Rightarrow> string) \<Rightarrow> ((string \<times> string) list \<Rightarrow> string) \<Rightarrow> store \<Rightarrow> bool" where
  "store_ok sha json s \<longleftrightarrow> (\<forall>c. sc_sha c = sha \<longrightarrow> sc_manifest_json c = json \<longrightarrow> crash_ok c s)"

lemma store_okI: "sc_sha c = sha \<Longrightarrow> sc_manifest_json c = json \<Longrightarrow> crash_ok c s \<Longrightarrow> store_ok sha json s"
  unfolding store_ok_def using crash_ok_cong by metis

lemma store_okD: "store_ok sha json s \<Longrightarrow> sc_sha c = sha \<Longrightarrow> sc_manifest_json c = json \<Longrightarrow> crash_ok c s"
  unfolding store_ok_def by blast

lemma finished_safe:
  assumes "triple C P m Q E" and "\<And>x s. Q x s \<Longrightarrow> R s" and "\<And>e s. E e s \<Longrightarrow> R s"
  shows "triple C P (finished m) (\<lambda>_. R) (\<lambda>_. R)"
  unfolding finished_def by (rule triple_bind [OF triple_post [OF assms(1)] triple_return]) (use assms in blast)+

lemma run_request_safe:
  assumes "admissible c request s"
  shows "triple (crash_ok c) (\<lambda>s. crash_ok c s \<and> fresh_source c s) (run_request c request) (\<lambda>_. crash_ok c) (\<lambda>_. crash_ok c)"
proof -
  have root: "rooted_store c" using assms by (simp add: admissible_def)
  show ?thesis
  proof (cases request)
    case (PublishRequest r audit)
    then show ?thesis using assms
      by (auto simp: admissible_def published_def intro!: finished_safe [OF publish_sync_safe [OF root]] dest: visible_crash_ok)
  next
    case (UpdateRequest a u audit)
    then have "distinct_content content" if "au_content u = Some content" for content
      using assms that by (simp add: admissible_def)
    then show ?thesis unfolding UpdateRequest run_request.simps
      by (intro finished_safe [OF update_sync_safe [OF root]]) (auto intro: update_result_crash_ok)
  next
    case (RestoreRequest a n acting audit)
    then show ?thesis by (auto intro: finished_safe [OF restore_sync_safe [OF root]])
  next
    case (DeleteRequest a audit)
    then show ?thesis by (auto intro: finished_safe [OF delete_sync_safe])
  qed (auto intro!: finished_safe [OF triple_pre [OF set_category_safe]] finished_safe [OF triple_pre [OF set_hidden_safe]]
      finished_safe [OF triple_pre [OF move_to_org_safe]] finished_safe [OF triple_pre [OF audit_storage_safe]])
qed

lemma store_step_ok:
  assumes "store_step sha json s s'" and "store_ok sha json s"
  shows "store_ok sha json s'"
  using assms(1)
proof cases
  case (request c request)
  have ok: "crash_ok c s \<and> fresh_source c s" using request assms(2) store_okD by (auto simp: admissible_def)
  obtain r w' where w': "run_request c request (fresh_world s) = (r, w')" by fastforce
  obtain t where "w_trace w' = t @ w_trace (fresh_world s)" "\<forall>s \<in> set t. crash_ok c s"
    "case r of Inl e \<Rightarrow> crash_ok c (w_store w') | Inr x \<Rightarrow> crash_ok c (w_store w')"
    by (rule tripleD [OF run_request_safe [OF request(3)] _ w']) (use ok in \<open>auto simp: fresh_world_def\<close>)
  then have "crash_ok c s'" using request(4) w' by (auto simp: stores_left_def fresh_world_def split: sum.splits)
  then show ?thesis using request store_okI by blast
next
  case elsewhere
  then show ?thesis using assms(2) crash_ok_core unfolding store_ok_def by blast
qed

lemma blank_store_ok: "blank_store s \<Longrightarrow> store_ok sha json s"
  by (auto simp: store_ok_def blank_store_def crash_ok_def base_ok_def trees_ok_def art_ok_def rows_of_def intents_of_def node_def)

interpretation store_run: invariant_system blank_store "store_step sha json" "store_ok sha json" for sha json
  by unfold_locales (auto intro: blank_store_ok store_step_ok)

lemma reachable_crash_ok:
  assumes "lifecycle_reachable (sc_sha c) (sc_manifest_json c) s"
  shows "crash_ok c s"
  using assms store_run.run_inv store_okD unfolding lifecycle_reachable_def by blast

lemma triple_fresh:
  assumes "triple (crash_ok c) (\<lambda>s. crash_ok c s \<and> fresh_source c s) m Q E"
    and "lifecycle_reachable (sc_sha c) (sc_manifest_json c) (w_store w)" and "fresh_source c (w_store w)" and "m w = (Inr r, w')"
  shows "Q r (w_store w')"
  by (rule tripleD [OF assms(1) _ assms(4)]) (use reachable_crash_ok [OF assms(2)] assms(3) in auto)

lemma visible_row:
  assumes "visible c m s"
  shows "List.find (\<lambda>q. am_id q = am_id m) (st_artifacts s) = Some m" "\<not> durability_pending s (am_id m)"
    "body_digest_at_path c (st_fs s) (live_loc (am_id m) (am_is_bundle m)) (am_is_bundle m) = Some (am_body_sha256 m)"
    "\<forall>r \<in> set (st_revisions s). rv_artifact_id r = am_id m \<and> rv_revision r < am_revision m \<longrightarrow>
       body_digest_at_path c (st_fs s) (history_loc (am_id m) (rv_revision r) (rv_is_bundle r)) (rv_is_bundle r) = Some (rv_body_sha256 r)"
proof -
  have v: "rows_of s (am_id m) = [m]" "intents_of s (am_id m) = []" "at_rest c s m" using assms unfolding visible_def by blast+
  show "List.find (\<lambda>q. am_id q = am_id m) (st_artifacts s) = Some m"
    using v(1) find_filter_Cons [of "\<lambda>q. am_id q = am_id m"] by (simp add: rows_of_def)
  show "\<not> durability_pending s (am_id m)"
    using v(2) by (auto simp: durability_pending_def intents_of_def filter_empty_conv list_ex_iff)
  show "body_digest_at_path c (st_fs s) (live_loc (am_id m) (am_is_bundle m)) (am_is_bundle m) = Some (am_body_sha256 m)"
    using v(3) by (simp add: at_rest_def live_is_def)
  show "\<forall>r \<in> set (st_revisions s). rv_artifact_id r = am_id m \<and> rv_revision r < am_revision m \<longrightarrow>
       body_digest_at_path c (st_fs s) (history_loc (am_id m) (rv_revision r) (rv_is_bundle r)) (rv_is_bundle r) = Some (rv_body_sha256 r)"
    using v(3) by (auto simp: at_rest_def history_ok_def past_ok_def list_all_iff revs_of_def)
qed

section \<open>A run\<close>

definition demo_manifest :: "(string \<times> string) list \<Rightarrow> string" where
  "demo_manifest files = concat (map (\<lambda>(name, digest). name @ digest) files)"

definition demo_store_context :: "string \<Rightarrow> StoreContext" where
  "demo_store_context token = \<lparr> sc_root = [RootDir, Normal ''data''], sc_cwd = [RootDir],
     sc_limits = \<lparr> max_history = 10, max_artifact_bytes = 1000, max_bundle_bytes = 1000, max_bundle_files = 10 \<rparr>,
     sc_mac = demo_tag, sc_sha = (\<lambda>x. x), sc_manifest_json = demo_manifest, sc_envelope_bytes = (\<lambda>m e. ''event''),
     sc_faults = NoFaults, sc_artifact_id = (\<lambda>_. Inr token), sc_webhook_id = (\<lambda>n k. Inr ''w''), sc_event_id = (\<lambda>n. Inr ''e1''),
     sc_now = (\<lambda>_. 5), sc_datetime = (\<lambda>_. ''t'') \<rparr>"

definition demo_audit :: MutationAudit where
  "demo_audit = \<lparr> ma_context = demo_context, ma_request_id = ''mcp-1'' \<rparr>"

definition demo_empty_store :: store where
  "demo_empty_store = \<lparr> st_artifacts = [], st_revisions = [], st_intents = [], st_children = [], st_webhooks = [], st_keys = [],
     st_orgs = [''acme''], st_ledger = seal_head demo_tag (\<lambda>x. x) migrated_ledger, st_outbox = empty_outbox,
     st_fs = \<lparr> fs_nodes = [], fs_history = [] \<rparr> \<rparr>"

definition demo_meta :: ArtifactMeta where
  "demo_meta = \<lparr> am_id = ''abc234'', am_client_id = ''ci'', am_org = ''acme'', am_title = ''t'', am_description = [],
     am_bytes = 3, am_created_at = ''t'', am_updated_at = ''t'', am_uploader_label = ''ci'', am_owner_email = None,
     am_is_bundle = True, am_entry = ''index.html'', am_revision = 1, am_category = [], am_hidden = False,
     am_body_sha256 = ''index.html<p>'', am_artifact_key = None \<rparr>"

text \<open>The store after publishing, with the ledger as it was.\<close>

definition demo_store :: store where
  "demo_store = demo_empty_store\<lparr> st_artifacts := [demo_meta], st_revisions := [revision_row demo_meta (Some ''ci'') ''t''],
     st_fs := \<lparr> fs_nodes = [(Entry ''abc234'', Tree [(''index.html'', ''<p>'')])], fs_history = [] \<rparr> \<rparr>"

definition demo_publish :: "(string \<times> string) list \<Rightarrow> PublishArtifact" where
  "demo_publish files = \<lparr>
     pa_publisher = \<lparr> pi_client_id = ''ci'', pi_org = ''acme'', pi_label = ''ci'', pi_role = Author, pi_scopes = None \<rparr>,
     pa_target_org = ''acme'', pa_title = Some ''t'', pa_description = None, pa_category = None,
     pa_content = Bundle files None, pa_artifact_key = None \<rparr>"

definition demo_update :: ArtifactUpdate where
  "demo_update = \<lparr> au_expected_revision = 1, au_acting_client_id = None, au_title = None, au_description = None,
     au_category = None, au_content = Some (Bundle [(''index.html'', ''<b>'')] None) \<rparr>"

definition demo_request :: PublishArtifact where
  "demo_request = demo_publish [(''index.html'', ''<p>'')]"

lemma demo_publish_run:
  "case publish_sync (demo_store_context ''abc234'') demo_request demo_audit (fresh_world demo_empty_store) of
     (Inl e, w) \<Rightarrow> False
   | (Inr r, w) \<Rightarrow> pd_meta r = demo_meta \<and> core (w_store w) = core demo_store \<and>
       list_ex (\<lambda>s. st_artifacts s = [demo_meta] \<and> st_intents s \<noteq> [] \<and> fs_nodes (st_fs s) =
         [(Entry ''.abc234.staging-abc234'', Tree [(''index.html'', ''<p>'')])]) (w_trace w)"
  by code_simp

lemma demo_update_run:
  "case update_sync (demo_store_context ''token2'') ''abc234'' demo_update demo_audit (fresh_world demo_store) of
     (Inl e, w) \<Rightarrow> False | (Inr r, w) \<Rightarrow> ur_changed r \<and> am_body_sha256 (ur_meta r) = ''index.html<b>''"
  by code_simp

lemma demo_delete_run:
  "case delete_sync (demo_store_context ''token2'') ''abc234'' demo_audit (fresh_world demo_store) of
     (Inl e, w) \<Rightarrow> False | (Inr r, w) \<Rightarrow> r"
  by code_simp

lemma demo_published:
  obtains r w s where
    "publish_sync (demo_store_context ''abc234'') demo_request demo_audit (fresh_world demo_empty_store) = (Inr r, w)"
    "pd_meta r = demo_meta" "core (w_store w) = core demo_store" "s \<in> set (w_trace w)"
    "st_artifacts s = [demo_meta]" "st_intents s \<noteq> []"
    "fs_nodes (st_fs s) = [(Entry ''.abc234.staging-abc234'', Tree [(''index.html'', ''<p>'')])]"
proof (cases "publish_sync (demo_store_context ''abc234'') demo_request demo_audit (fresh_world demo_empty_store)")
  case (Pair x w)
  show thesis
  proof (cases x)
    case (Inl e)
    then show ?thesis using demo_publish_run Pair by simp
  next
    case (Inr r)
    then show ?thesis using demo_publish_run Pair that by (auto simp: list_ex_iff)
  qed
qed

lemma demo_admissible:
  "admissible (demo_store_context ''abc234'') (PublishRequest demo_request demo_audit) demo_empty_store"
  "admissible (demo_store_context ''token2'') (UpdateRequest ''abc234'' demo_update demo_audit) demo_store"
  "admissible (demo_store_context ''token2'') (DeleteRequest ''abc234'' demo_audit) demo_store"
  by (simp_all add: admissible_def rooted_store_def rooted_def fresh_source_def demo_store_context_def distinct_content_def
      demo_request_def demo_publish_def demo_update_def fresh_for_def demo_empty_store_def demo_store_def demo_meta_def
      revision_row_def str_simps)

lemma blank_reachable: "blank_store s \<Longrightarrow> lifecycle_reachable sha json s"
  unfolding lifecycle_reachable_def by blast

lemma reachable_step: "lifecycle_reachable sha json s \<Longrightarrow> store_step sha json s s' \<Longrightarrow> lifecycle_reachable sha json s'"
  unfolding lifecycle_reachable_def by (meson rtranclp.rtrancl_into_rtrancl)

lemma demo_empty_reachable: "lifecycle_reachable sha json demo_empty_store"
  by (rule blank_reachable) (simp add: blank_store_def demo_empty_store_def)

lemma demo_left_reachable:
  assumes "publish_sync (demo_store_context ''abc234'') demo_request demo_audit (fresh_world demo_empty_store) = (r, w)"
    and "s = w_store w \<or> s \<in> set (w_trace w)"
  shows "lifecycle_reachable (\<lambda>x. x) demo_manifest s"
proof (rule reachable_step [OF demo_empty_reachable store_step.request [OF _ _ demo_admissible(1)]])
  show "s \<in> set (stores_left (run_request (demo_store_context ''abc234'') (PublishRequest demo_request demo_audit)) demo_empty_store)"
    using assms by (auto simp: stores_left_def finished_def op_bind_def op_return_def split: sum.split)
qed (simp_all add: demo_store_context_def)

lemma demo_store_reachable:
  "lifecycle_reachable (\<lambda>x. x) demo_manifest demo_store"
  by (rule demo_published) (blast intro: reachable_step demo_left_reachable store_step.elsewhere [OF sym])

section \<open>Properties\<close>

text \<open>
  C1. Whatever sequence of admissible requests, injected faults, process deaths and recoveries led
  to the store: an artifact that a reader is shown has on disk exactly the body its row names, and
  every retained earlier revision has exactly the body its revision row names. A request is
  admissible when a bundle it submits has paths that are pairwise different after sanitizing, the
  identifiers it draws are not in use and the artifact directory resolves to an absolute path; for a
  bundle with two paths that sanitize to the same name, which the code accepts, the claim is false
  (\<open>duplicate_paths_lose_digest\<close>).
\<close>

theorem lifecycle_artifacts_intact:
  assumes "lifecycle_reachable (sc_sha c) (sc_manifest_json c) s" and "load_meta s aid = Inr (Some m)"
  shows "am_id m = aid \<and>
    body_digest_at_path c (st_fs s) (live_loc aid (am_is_bundle m)) (am_is_bundle m) = Some (am_body_sha256 m) \<and>
    (\<forall>r \<in> set (st_revisions s). rv_artifact_id r = aid \<and> rv_revision r < am_revision m \<longrightarrow>
       body_digest_at_path c (st_fs s) (history_loc aid (rv_revision r) (rv_is_bundle r)) (rv_is_bundle r) = Some (rv_body_sha256 r))"
proof -
  have v: "am_id m = aid \<and> visible c m s" by (rule load_meta_visible [OF reachable_crash_ok [OF assms(1)] assms(2)])
  show ?thesis using visible_row(3,4) [OF conjunct2 [OF v]] v by simp
qed

theorem lifecycle_artifacts_intact_witness:
  "lifecycle_reachable (\<lambda>x. x) demo_manifest demo_store \<and> load_meta demo_store ''abc234'' = Inr (Some demo_meta) \<and>
   body_digest_at_path (demo_store_context ''abc234'') (st_fs demo_store) (live_loc ''abc234'' True) True = Some ''index.html<p>''"
proof -
  have l: "load_meta demo_store ''abc234'' = Inr (Some demo_meta)"
    by (simp add: load_meta_def durability_pending_def load_meta_unchecked_def meta_from_row_def demo_store_def demo_empty_store_def demo_meta_def)
  show ?thesis
    using lifecycle_artifacts_intact [of "demo_store_context ''abc234''" demo_store "''abc234''" demo_meta] demo_store_reachable l
    by (simp add: demo_store_context_def demo_meta_def)
qed

text \<open>
  C2. Nothing is lost in between either: after any sequence of admissible requests (bundle paths
  pairwise different after sanitizing, unused identifiers, an absolute directory), faults, process
  deaths and recoveries, for every artifact row, also one hidden by a pending intent, the body with
  the digest of the row is installed, or it waits in some transient entry of the artifact while
  nothing is installed, or an update to that digest is pending and the body from before it is
  installed.
\<close>

theorem lifecycle_nothing_lost:
  assumes "lifecycle_reachable (sc_sha c) (sc_manifest_json c) s" and "m \<in> set (st_artifacts s)"
  shows "live_is c s m (am_body_sha256 m) \<or> live_absent s m \<and> staged_is c s m (am_body_sha256 m) \<or>
    (\<exists>i \<in> set (st_intents s). di_artifact_id i = am_id m \<and> di_operation i = ''update'' \<and>
       di_expected_sha256 i = am_body_sha256 m \<and> live_is c s m (di_prior_sha256 i))"
proof -
  have ok: "crash_ok c s" by (rule reachable_crash_ok [OF assms(1)])
  then have "is_valid_artifact_id (am_id m)" using assms(2) by (auto simp: crash_ok_def base_ok_def)
  then have a: "art_ok c s (am_id m)" using ok by (simp add: crash_ok_def)
  have m: "m \<in> set (rows_of s (am_id m))" using assms(2) by (simp add: rows_of_def)
  show ?thesis
  proof (cases "intents_of s (am_id m)")
    case Nil
    then show ?thesis using a m by (auto simp: art_ok_def at_rest_def)
  next
    case (Cons i rest)
    then have "i \<in> set (st_intents s)" "di_artifact_id i = am_id m" by (auto simp: intents_of_def filter_eq_Cons_iff)
    moreover have "pending_ok c s m i" using a m Cons by (auto simp: art_ok_def)
    ultimately show ?thesis
      by (auto simp: pending_ok_def body_pending_def available_def update_prepared_def at_rest_def update_committed_def)
  qed
qed

theorem lifecycle_nothing_lost_witness:
  "\<exists>s. lifecycle_reachable (\<lambda>x. x) demo_manifest s \<and> demo_meta \<in> set (st_artifacts s) \<and> st_intents s \<noteq> [] \<and>
     live_absent s demo_meta \<and> staged_is (demo_store_context ''abc234'') s demo_meta (am_body_sha256 demo_meta)"
proof (rule demo_published)
  fix r w s
  assume p: "publish_sync (demo_store_context ''abc234'') demo_request demo_audit (fresh_world demo_empty_store) = (Inr r, w)"
    and s: "s \<in> set (w_trace w)" "st_artifacts s = [demo_meta]" "st_intents s \<noteq> []"
      "fs_nodes (st_fs s) = [(Entry ''.abc234.staging-abc234'', Tree [(''index.html'', ''<p>'')])]"
  have reach: "lifecycle_reachable (\<lambda>x. x) demo_manifest s" using demo_left_reachable [OF p] s(1) by blast
  have ab: "live_absent s demo_meta" using s(4) by (simp add: live_absent_def node_def live_loc_def demo_meta_def)
  then have no: "\<not> live_is c s demo_meta d" for c d
    by (auto simp: live_absent_def live_is_def body_digest_at_path_def body_digest_def)
  show ?thesis
    using lifecycle_nothing_lost [of "demo_store_context ''abc234''" s demo_meta] reach s(2,3) ab no
    by (intro exI [of _ s]) (auto simp: demo_store_context_def)
qed

text \<open>
  C7. A publish of a single body, or of a bundle whose paths are pairwise different after sanitizing
  (\<open>admissible\<close>), that returns has published: the new row is the one readers get, at revision 1, its
  digest is that of the validated content, and that body is installed. Without the difference of the
  paths the installed body has another digest (\<open>duplicate_paths_lose_digest\<close>).
\<close>

theorem publish_sync_publishes:
  assumes "lifecycle_reachable (sc_sha c) (sc_manifest_json c) (w_store w)"
    and "admissible c (PublishRequest request audit) (w_store w)" and "publish_sync c request audit w = (Inr r, w')"
  shows "load_meta (w_store w') (am_id (pd_meta r)) = Inr (Some (pd_meta r)) \<and> am_revision (pd_meta r) = 1 \<and>
    (\<exists>p. prepare_publish c (pa_content request) = Inr p \<and> am_body_sha256 (pd_meta r) = pp_body_sha256 p \<and>
       body_digest_at_path c (st_fs (w_store w')) (live_loc (am_id (pd_meta r)) (pp_is_bundle p)) (pp_is_bundle p) = Some (pp_body_sha256 p))"
proof -
  have adm: "rooted_store c" "distinct_content (pa_content request)" "fresh_source c (w_store w)"
    using assms(2) by (auto simp: admissible_def)
  obtain p where p: "prepare_publish c (pa_content request) = Inr p" "published c (am_id (pd_meta r)) p (pd_meta r) (w_store w')"
    using triple_fresh [OF publish_sync_safe [OF adm(1,2)] assms(1) adm(3) assms(3)] by blast
  then have v: "visible c (pd_meta r) (w_store w')" by (simp add: published_def)
  note row = visible_row [OF v]
  have "load_meta (w_store w') (am_id (pd_meta r)) = Inr (Some (pd_meta r))"
    using row(1,2) p(2) by (simp add: load_meta_def load_meta_unchecked_def meta_from_row_def published_def)
  then show ?thesis using p row(3) by (auto simp: published_def)
qed

theorem publish_sync_publishes_witness:
  "\<exists>r w. publish_sync (demo_store_context ''abc234'') demo_request demo_audit (fresh_world demo_empty_store) = (Inr r, w) \<and>
     load_meta (w_store w) ''abc234'' = Inr (Some demo_meta) \<and> am_revision demo_meta = 1"
proof (rule demo_published)
  fix r w assume p: "publish_sync (demo_store_context ''abc234'') demo_request demo_audit (fresh_world demo_empty_store) = (Inr r, w)"
    and r: "pd_meta r = demo_meta"
  show ?thesis
    using publish_sync_publishes [OF _ _ p] demo_empty_reachable demo_admissible(1) p r
    by (auto simp: fresh_world_def demo_meta_def)
qed

text \<open>
  C6. An update whose bundle paths are pairwise different after sanitizing (\<open>admissible\<close>) and that
  returns leaves the artifact readable at the revision after the expected one, or, when nothing
  changed, at the expected one with its old row, with the body its row names installed and every
  retained revision in place. Its row is the one the plan of the request describes: title,
  description, category, size, entry and digest are the planned ones, and nothing else changed.
\<close>

theorem update_sync_revises:
  assumes "lifecycle_reachable (sc_sha c) (sc_manifest_json c) (w_store w)"
    and "admissible c (UpdateRequest aid update audit) (w_store w)" and "update_sync c aid update audit w = (Inr r, w')"
  shows "List.find (\<lambda>m. am_id m = aid) (st_artifacts (w_store w')) = Some (ur_meta r) \<and> \<not> durability_pending (w_store w') aid \<and>
    am_revision (ur_meta r) = (if ur_changed r then au_expected_revision update + 1 else au_expected_revision update) \<and>
    body_digest_at_path c (st_fs (w_store w')) (live_loc aid (am_is_bundle (ur_meta r))) (am_is_bundle (ur_meta r))
      = Some (am_body_sha256 (ur_meta r)) \<and>
    (\<forall>q \<in> set (st_revisions (w_store w')). rv_artifact_id q = aid \<and> rv_revision q < am_revision (ur_meta r) \<longrightarrow>
       body_digest_at_path c (st_fs (w_store w')) (history_loc aid (rv_revision q) (rv_is_bundle q)) (rv_is_bundle q) = Some (rv_body_sha256 q)) \<and>
    (\<exists>m plan now. load_meta (w_store w) aid = Inr (Some m) \<and> plan_update c m update (w_store w) = Inr plan \<and>
       ur_changed r = up_changed plan \<and> ur_meta r = (if up_changed plan then committed_meta now m plan else m))"
proof -
  have adm: "rooted_store c" "\<And>content. au_content update = Some content \<Longrightarrow> distinct_content content" "fresh_source c (w_store w)"
    using assms(2) by (auto simp: admissible_def)
  have "update_result c aid (au_expected_revision update) r (w_store w')"
    by (rule triple_fresh [OF update_sync_safe [OF adm(1,2)] assms(1) adm(3) assms(3)])
  then have v: "visible c (ur_meta r) (w_store w')" "am_id (ur_meta r) = aid"
    "am_revision (ur_meta r) = (if ur_changed r then au_expected_revision update + 1 else au_expected_revision update)"
    by (auto simp: update_result_def)
  have "\<exists>m plan now. load_meta (w_store w) aid = Inr (Some m) \<and> plan_update c m update (w_store w) = Inr plan \<and>
       ur_changed r = up_changed plan \<and> ur_meta r = (if up_changed plan then committed_meta now m plan else m)"
    using update_sync_outcome [OF assms(3)] by (auto split: if_splits)
  then show ?thesis using visible_row [OF v(1)] v(2,3) by simp
qed

theorem update_sync_revises_witness:
  "\<exists>r w. update_sync (demo_store_context ''token2'') ''abc234'' demo_update demo_audit (fresh_world demo_store) = (Inr r, w) \<and>
     am_revision (ur_meta r) = 2 \<and> \<not> durability_pending (w_store w) ''abc234''"
proof -
  obtain r w where u: "update_sync (demo_store_context ''token2'') ''abc234'' demo_update demo_audit (fresh_world demo_store) = (Inr r, w)"
    "ur_changed r" using demo_update_run by (auto split: prod.splits sum.splits)
  have "lifecycle_reachable (sc_sha (demo_store_context ''token2'')) (sc_manifest_json (demo_store_context ''token2'')) (w_store (fresh_world demo_store))"
    using demo_store_reachable by (simp add: demo_store_context_def fresh_world_def)
  from update_sync_revises [OF this _ u(1)] u show ?thesis
    using demo_admissible(2) by (auto simp: fresh_world_def demo_update_def)
qed

text \<open>
  C9. A delete that reports success has removed the artifact: no row, no revision row and no
  pending intent is left, readers no longer find it, its body is gone from its place and so is
  every body of its history, and nothing is on the disk, the trash entry included, that was not there
  before with the same content.
\<close>

theorem delete_sync_removes:
  assumes "lifecycle_reachable (sc_sha c) (sc_manifest_json c) (w_store w)"
    and "admissible c (DeleteRequest aid audit) (w_store w)" and "delete_sync c aid audit w = (Inr True, w')"
  shows "load_meta (w_store w') aid = Inr None \<and> \<not> durability_pending (w_store w') aid \<and>
    list_all (\<lambda>m. am_id m \<noteq> aid) (st_artifacts (w_store w')) \<and>
    list_all (\<lambda>r. rv_artifact_id r \<noteq> aid) (st_revisions (w_store w')) \<and>
    (\<forall>x. \<not> path_exists (st_fs (w_store w')) (Past aid x)) \<and>
    (\<forall>l b. node (st_fs (w_store w')) l = Some b \<longrightarrow> node (st_fs (w_store w)) l = Some b) \<and>
    (\<exists>m. load_meta (w_store w) aid = Inr (Some m) \<and> \<not> path_exists (st_fs (w_store w')) (live_loc aid (am_is_bundle m)))"
proof -
  have "fresh_source c (w_store w)" using assms(2) by (simp add: admissible_def)
  from triple_fresh [OF delete_sync_safe assms(1) this assms(3)]
  have "rows_of (w_store w') aid = []" "intents_of (w_store w') aid = []" by (auto simp: cleared_def)
  then have none: "load_meta (w_store w') aid = Inr None \<and> \<not> durability_pending (w_store w') aid \<and>
      list_all (\<lambda>m. am_id m \<noteq> aid) (st_artifacts (w_store w'))"
    by (auto simp: rows_of_def intents_of_def filter_empty_conv list_all_iff durability_pending_def list_ex_iff load_meta_def
        load_meta_unchecked_def find_Some_iff split: option.split)
  obtain m where "load_meta (w_store w) aid = Inr (Some m)" "am_id m = aid"
      "erased (node (st_fs (w_store w))) m (w_store w')"
    using delete_sync_erases [OF assms(3)] by blast
  then show ?thesis
    using none by (auto simp: erased_def leftover_def absent_def path_exists_def revs_of_def filter_empty_conv list_all_iff)
qed

theorem delete_sync_removes_witness:
  "\<exists>w. delete_sync (demo_store_context ''token2'') ''abc234'' demo_audit (fresh_world demo_store) = (Inr True, w) \<and>
     load_meta (w_store w) ''abc234'' = Inr None \<and> (\<nexists>l. path_exists (st_fs (w_store w)) l)"
proof -
  obtain w where d: "delete_sync (demo_store_context ''token2'') ''abc234'' demo_audit (fresh_world demo_store) = (Inr True, w)"
    using demo_delete_run by (auto split: prod.splits sum.splits)
  have "lifecycle_reachable (sc_sha (demo_store_context ''token2'')) (sc_manifest_json (demo_store_context ''token2'')) (w_store (fresh_world demo_store))"
    using demo_store_reachable by (simp add: demo_store_context_def fresh_world_def)
  from delete_sync_removes [OF this _ d] have r: "load_meta (w_store w) ''abc234'' = Inr None"
      "\<forall>l b. node (st_fs (w_store w)) l = Some b \<longrightarrow> node (st_fs demo_store) l = Some b"
      "\<exists>m. load_meta demo_store ''abc234'' = Inr (Some m) \<and> \<not> path_exists (st_fs (w_store w)) (live_loc ''abc234'' (am_is_bundle m))"
    using demo_admissible(3) by (auto simp: fresh_world_def)
  have "load_meta demo_store ''abc234'' = Inr (Some demo_meta)"
    by (simp add: load_meta_def durability_pending_def load_meta_unchecked_def meta_from_row_def demo_store_def demo_empty_store_def demo_meta_def)
  then have "\<not> path_exists (st_fs (w_store w)) (Entry ''abc234'')"
    using r(3) by (simp add: live_loc_def demo_meta_def)
  moreover have "l = Entry ''abc234''" if "path_exists (st_fs (w_store w)) l" for l
    using that r(2) by (auto simp: path_exists_def node_def demo_store_def split: if_splits)
  ultimately show ?thesis using d r(1) by blast
qed

text \<open>
  C8. The storage audit repairs bodies and intents only: in every store it leaves, also when it is
  interrupted or dies, the artifact rows and the revision rows are those it found.
\<close>

theorem recovery_spares_rows:
  "list_all (\<lambda>s'. st_artifacts s' = st_artifacts s \<and> st_revisions s' = st_revisions s)
     (stores_left (run_request c (AuditRequest clean)) s)"
proof -
  have "spares (\<lambda>_. False) (run_request c (AuditRequest clean))"
    unfolding run_request.simps finished_def by (intro spares_intro spares_audit)
  from sparesD [OF this, of "kept_view (\<lambda>_. False) s"]
  have tr: "triple (\<lambda>s'. kept_view (\<lambda>_. False) s' = kept_view (\<lambda>_. False) s) (\<lambda>s'. kept_view (\<lambda>_. False) s' = kept_view (\<lambda>_. False) s)
    (run_request c (AuditRequest clean)) (\<lambda>_ s'. kept_view (\<lambda>_. False) s' = kept_view (\<lambda>_. False) s)
    (\<lambda>_ s'. kept_view (\<lambda>_. False) s' = kept_view (\<lambda>_. False) s)" .
  obtain r w where w: "run_request c (AuditRequest clean) (fresh_world s) = (r, w)" by fastforce
  show ?thesis unfolding stores_left_def w prod.case
    by (rule tripleD [OF tr _ w]) (auto simp: fresh_world_def list_all_iff kept_view_def split: sum.splits)
qed

text \<open>What one move transaction leaves of the rows that hang off an artifact.\<close>

definition unshared :: "string \<Rightarrow> bool \<Rightarrow> store \<Rightarrow> bool" where
  "unshared aid crossed s \<longleftrightarrow>
     list_all (\<lambda>ch. ch_artifact_id ch = aid \<longrightarrow>
       ch_table ch \<noteq> ArtifactShares \<and> \<not> (crossed \<and> List.member revoked_tables (ch_table ch))) (st_children s)"

text \<open>The rows a move has no business with: those of other artifacts, and those not tied to the organization.\<close>

definition apart :: "string \<Rightarrow> ChildRow \<Rightarrow> bool" where
  "apart aid ch \<longleftrightarrow> ch_artifact_id ch \<noteq> aid \<or> \<not> org_bound (ch_table ch)"

lemma filter_update_other:
  "(\<And>x. q x \<Longrightarrow> \<not> P x \<and> \<not> P (f x)) \<Longrightarrow> filter P (sql_update q f xs) = filter P xs"
  by (induction xs) (auto simp: sql_update_def)

lemma filter_delete_other: "(\<And>x. q x \<Longrightarrow> \<not> P x) \<Longrightarrow> filter P (sql_delete q xs) = filter P xs"
  by (induction xs) (auto simp: sql_delete_def)

lemma children_consistent_ledger: "children_consistent (s\<lparr>st_ledger := l\<rparr>) = children_consistent s"
  by (simp add: children_consistent_def artifact_with_org_def cong: if_cong)

lemma revoked_tables_bound: "t \<in> set revoked_tables \<Longrightarrow> org_bound t"
  by (auto simp: revoked_tables_def org_bound_def)

lemmas move_defs = revoke_shares_def move_org_bearing_children_def revoke_cross_org_bindings_def
  collections_before_org_move_def

lemma move_transaction_unshared:
  assumes "move_transaction c n event_id m org category audit s = Inr (u, s')"
  shows "children_consistent s' \<and> unshared (am_id m) (org \<noteq> am_org m) s' \<and>
    list_all (\<lambda>q. am_id q = am_id m \<longrightarrow> am_org q = org \<and> (org \<noteq> am_org m \<longrightarrow> am_artifact_key q = None)) (st_artifacts s') \<and>
    filter (apart (am_id m)) (st_children s') = filter (apart (am_id m)) (st_children s)"
proof -
  let ?s1 = "if org \<noteq> am_org m then revoke_cross_org_bindings (am_id m) s else s"
  let ?s2 = "(collections_before_org_move org (am_id m) ?s1)\<lparr>st_artifacts := sql_update (\<lambda>q. am_id q = am_id m)
     (\<lambda>q. q\<lparr>am_org := org, am_category := category, am_updated_at := sc_datetime c n\<rparr>) (st_artifacts ?s1)\<rparr>"
  let ?s4 = "snd (revoke_shares (am_id m) (move_org_bearing_children org (am_id m) ?s2))"
  obtain l where s': "s' = ?s4\<lparr>st_ledger := l\<rparr>" and c: "children_consistent ?s4"
    using assms by (auto simp: move_transaction_def Let_def result_simps split: prod.splits if_splits)
  have "children_consistent s'" using c by (simp add: s' children_consistent_ledger)
  moreover have "unshared (am_id m) (org \<noteq> am_org m) s'"
    by (auto simp: s' unshared_def list_all_iff move_defs Let_def sql_delete_def set_sql_update split: if_splits)
  moreover have "list_all (\<lambda>q. am_id q = am_id m \<longrightarrow> am_org q = org \<and> (org \<noteq> am_org m \<longrightarrow> am_artifact_key q = None)) (st_artifacts s')"
    by (auto simp: s' list_all_iff move_defs Let_def sql_update_def split: if_splits)
  moreover have "filter (apart (am_id m)) (st_children s') = filter (apart (am_id m)) (st_children s)"
  proof -
    have "filter (apart (am_id m)) (st_children ?s1) = filter (apart (am_id m)) (st_children s)"
      by (auto simp: revoke_cross_org_bindings_def apart_def intro!: filter_delete_other dest: revoked_tables_bound)
    moreover have "filter (apart (am_id m)) (st_children ?s2) = filter (apart (am_id m)) (st_children ?s1)"
      by (auto simp: collections_before_org_move_def apart_def org_bound_def intro!: filter_delete_other)
    moreover have "filter (apart (am_id m)) (st_children ?s4) = filter (apart (am_id m)) (st_children ?s2)"
    proof -
      have "filter (apart (am_id m)) (sql_delete (\<lambda>ch. ch_table ch = ArtifactShares \<and> ch_artifact_id ch = am_id m) xs) =
          filter (apart (am_id m)) xs" for xs
        by (rule filter_delete_other) (simp add: apart_def org_bound_def)
      moreover have "filter (apart (am_id m)) (sql_update (\<lambda>ch. ch_artifact_id ch = am_id m \<and>
            List.member [Feedback, ArtifactViews] (ch_table ch)) (\<lambda>ch. ch\<lparr>ch_org := org\<rparr>) xs) = filter (apart (am_id m)) xs" for xs
        by (rule filter_update_other) (auto simp: apart_def org_bound_def)
      ultimately show ?thesis unfolding revoke_shares_def move_org_bearing_children_def Let_def by simp
    qed
    ultimately show ?thesis by (simp add: s')
  qed
  ultimately show ?thesis by blast
qed

text \<open>
  C10. Moving an artifact to another organization: when the move returns, the artifact belongs to the
  target organization and can be read back; no share link of it survives; a move across
  organizations also drops its Discord bindings and its key; every row of it that the schema ties to
  the organization (feedback, views, revisions, collection memberships) names the target
  organization, so none of the old one is left. The rows of its data bindings, reminders and push
  opt-ins, which the schema does not tie to the organization, are left as they were (their readers
  compare them with the artifact's current organization), and so are the rows of other artifacts.
\<close>

theorem move_to_org_revokes:
  assumes "load_meta (w_store w) aid = Inr (Some old)" and "move_to_org_sync c aid target category audit w = (Inr m, w')"
  shows "am_org m = js_trim target \<and> load_meta (w_store w') aid = Inr (Some m) \<and> children_consistent (w_store w') \<and>
    unshared aid (js_trim target \<noteq> am_org old) (w_store w') \<and>
    (js_trim target \<noteq> am_org old \<longrightarrow> am_artifact_key m = None) \<and>
    (\<forall>ch \<in> set (st_children (w_store w')). ch_artifact_id ch = aid \<and> org_bound (ch_table ch) \<longrightarrow> ch_org ch = js_trim target) \<and>
    (\<forall>r \<in> set (st_revisions (w_store w')). rv_artifact_id r = aid \<longrightarrow> rv_org r = js_trim target) \<and>
    filter (apart aid) (st_children (w_store w')) = filter (apart aid) (st_children (w_store w))"
proof -
  let ?org = "js_trim target"
  let ?S = "\<lambda>s. children_consistent s \<and> unshared aid (?org \<noteq> am_org old) s \<and>
    list_all (\<lambda>q. am_id q = aid \<longrightarrow> am_org q = ?org \<and> (?org \<noteq> am_org old \<longrightarrow> am_artifact_key q = None)) (st_artifacts s) \<and>
    filter (apart aid) (st_children s) = filter (apart aid) (st_children (w_store w))"
  have find: "am_id q = aid \<and> q \<in> set (st_artifacts s)" if "load_meta s aid = Inr (Some q)" for q s
    using that by (auto simp: load_meta_def load_meta_unchecked_def meta_from_row_def result_simps find_Some_iff
        split: if_splits option.splits)
  have old: "am_id old = aid" using find [OF assms(1)] by simp
  have mv: "triple (\<lambda>_. True) (\<lambda>s. s = w_store w) (step (move_transaction c n event_id old ?org category' audit')) (\<lambda>_. ?S) (\<lambda>_ _. True)"
    for n event_id category' audit'
    by (rule triple_step) (use move_transaction_unshared [of c n event_id old ?org category' audit'] old in auto)
  have rl: "triple (\<lambda>_. True) ?S (reload aid) (\<lambda>m s. ?S s \<and> load_meta s aid = Inr (Some m)) (\<lambda>_ _. True)"
    unfolding reload_def
    by (rule triple_bind [OF triple_query [where Q = "\<lambda>found s. ?S s \<and> load_meta s aid = Inr found"]])
      (auto intro!: triple_option triple_raise triple_return)
  have "triple (\<lambda>_. True) (\<lambda>s. s = w_store w) (move_to_org_sync c aid target category audit)
      (\<lambda>m s. ?S s \<and> load_meta s aid = Inr (Some m)) (\<lambda>_ _. True)"
    unfolding move_to_org_sync_def Let_def
  proof (rule triple_bind [OF triple_query [where Q = "\<lambda>found s. s = w_store w \<and> found = Some old"]])
    fix found
    show "triple (\<lambda>_. True) (\<lambda>s. s = w_store w \<and> found = Some old) (case found of None \<Rightarrow> op_raise (NotFound ''not_found'')
        | Some m \<Rightarrow> op_bind (ask (\<lambda>s. org_exists s ?org)) (\<lambda>known.
         if \<not> known then op_raise (Validation (''Unknown organization '' @ [CHR 0x22] @ ?org @ [CHR 0x22] @ ''.''))
         else op_bind (bare_fault (sc_faults c) MoveTransaction) (\<lambda>_.
           op_bind (draw_event c) (\<lambda>(event_id, n).
           op_bind (step (move_transaction c n event_id m ?org
               (case category of None \<Rightarrow> am_category m | Some v \<Rightarrow> normalize_category v)
               (for_affected_tenant audit (am_org m)))) (\<lambda>_. reload aid)))))
      (\<lambda>m s. ?S s \<and> load_meta s aid = Inr (Some m)) (\<lambda>_ _. True)"
    proof (rule triple_fact [where R = "found = Some old"])
      assume f: "found = Some old"
      show ?thesis unfolding f option.case draw_event_def
        by (intro triple_bind_ask triple_if triple_raise triple_bind [OF triple_bare_fault]
            triple_bind [OF triple_draw [where Q = "\<lambda>_ s. s = w_store w"]] triple_prod triple_bind [OF mv rl]) auto
    qed simp
  qed (use assms(1) in auto)
  from tripleD [OF this refl assms(2)] have S: "?S (w_store w') \<and> load_meta (w_store w') aid = Inr (Some m)" by auto
  have with_org: "org = ?org" if "artifact_with_org (w_store w') aid org" for org
    using that S by (auto simp: artifact_with_org_def list_all_iff list_ex_iff)
  have "ch_org ch = ?org" if "ch \<in> set (st_children (w_store w'))" "ch_artifact_id ch = aid" "org_bound (ch_table ch)" for ch
    using that S with_org by (auto simp: children_consistent_def list_all_iff)
  moreover have "rv_org r = ?org" if "r \<in> set (st_revisions (w_store w'))" "rv_artifact_id r = aid" for r
    using that S with_org by (auto simp: children_consistent_def list_all_iff)
  ultimately show ?thesis using S find [of "w_store w'" m] by (auto simp: list_all_iff)
qed

definition demo_shared_store :: store where
  "demo_shared_store = demo_store\<lparr> st_orgs := [''acme'', ''beta''],
     st_children := [\<lparr> ch_table = ArtifactShares, ch_artifact_id = ''abc234'', ch_org = ''acme'', ch_key = ''k1'' \<rparr>,
       \<lparr> ch_table = Feedback, ch_artifact_id = ''abc234'', ch_org = ''acme'', ch_key = ''f1'' \<rparr>,
       \<lparr> ch_table = CollectionArtifacts, ch_artifact_id = ''abc234'', ch_org = ''acme'', ch_key = ''c1'' \<rparr>,
       \<lparr> ch_table = ArtifactReminders, ch_artifact_id = ''abc234'', ch_org = ''acme'', ch_key = ''r1'' \<rparr>] \<rparr>"

lemma demo_trim: "js_trim ''beta'' = ''beta''"
  by code_simp

lemma demo_move_transaction:
  "case move_transaction (demo_store_context ''token2'') 0 ''e1'' demo_meta ''beta'' [] (for_affected_tenant demo_audit ''acme'') demo_shared_store of
     Inl e \<Rightarrow> False | Inr (u, s) \<Rightarrow> (case load_meta s ''abc234'' of Inr (Some m) \<Rightarrow> True | _ \<Rightarrow> False)"
  by code_simp

lemma demo_load: "load_meta demo_shared_store ''abc234'' = Inr (Some demo_meta)"
  by (simp add: load_meta_def durability_pending_def load_meta_unchecked_def meta_from_row_def demo_shared_store_def demo_store_def
      demo_empty_store_def demo_meta_def)

lemma demo_move_run:
  "case move_to_org_sync (demo_store_context ''token2'') ''abc234'' ''beta'' None demo_audit (fresh_world demo_shared_store) of
     (Inl e, w) \<Rightarrow> False | (Inr m, w) \<Rightarrow> True"
proof -
  have c: "sc_faults (demo_store_context ''token2'') = NoFaults" "sc_event_id (demo_store_context ''token2'') n = Inr ''e1''" for n
    by (simp_all add: demo_store_context_def)
  have o: "org_exists demo_shared_store ''beta''" "am_category demo_meta = []" "am_org demo_meta = ''acme''"
    by (simp_all add: org_exists_def demo_shared_store_def demo_meta_def)
  show ?thesis
    using demo_move_transaction
    by (auto simp: move_to_org_sync_def Let_def demo_trim op_bind_def query_def ask_def bare_fault_def op_catch_def check_def NoFaults_def
        draw_event_def draw_def step_def reload_def fresh_world_def demo_load c o op_return_def split: sum.splits option.splits prod.splits)
qed

theorem move_to_org_revokes_witness:
  "\<exists>m w. move_to_org_sync (demo_store_context ''token2'') ''abc234'' ''beta'' None demo_audit (fresh_world demo_shared_store) = (Inr m, w) \<and>
     am_org m = ''beta'' \<and> children_consistent (w_store w) \<and> unshared ''abc234'' True (w_store w) \<and>
     filter (apart ''abc234'') (st_children (w_store w)) =
       [\<lparr> ch_table = ArtifactReminders, ch_artifact_id = ''abc234'', ch_org = ''acme'', ch_key = ''r1'' \<rparr>]"
proof -
  obtain m w where r: "move_to_org_sync (demo_store_context ''token2'') ''abc234'' ''beta'' None demo_audit (fresh_world demo_shared_store) = (Inr m, w)"
    using demo_move_run by (auto split: prod.splits sum.splits)
  have l: "load_meta (w_store (fresh_world demo_shared_store)) ''abc234'' = Inr (Some demo_meta)"
    using demo_load by (simp add: fresh_world_def)
  have "filter (apart ''abc234'') (st_children (w_store (fresh_world demo_shared_store))) =
      [\<lparr> ch_table = ArtifactReminders, ch_artifact_id = ''abc234'', ch_org = ''acme'', ch_key = ''r1'' \<rparr>]"
    by (simp add: fresh_world_def demo_shared_store_def apart_def org_bound_def)
  with move_to_org_revokes [OF l r] r show ?thesis by (simp add: demo_meta_def demo_trim)
qed

section \<open>Duplicate paths\<close>

text \<open>
  A bundle may name one file twice: both spellings below sanitize to the same path and are
  admitted. The digest of the row covers both entries, the directory keeps only the last one, so
  the body on disk never has the digest of its row, and every later update is refused.
\<close>

theorem duplicate_paths_lose_digest:
  "case publish_sync (demo_store_context ''abc234'') (demo_publish [(''index.html'', ''<p>''), (''./index.html'', ''<b>'')]) demo_audit
      (fresh_world demo_empty_store) of
     (Inl e, w) \<Rightarrow> False
   | (Inr r, w) \<Rightarrow>
       body_digest_at_path (demo_store_context ''abc234'') (st_fs (w_store w)) (live_loc ''abc234'' True) True = Some ''index.html<b>'' \<and>
       am_body_sha256 (pd_meta r) = ''index.html<p>index.html<b>'' \<and>
       require_current_body (demo_store_context ''abc234'') (pd_meta r) (w_store w) = Inl (Conflict ''body_digest_mismatch'')"
  by code_simp

end
