(* ===== verification/Ordered_Json.thy ===== *)
theory Ordered_Json
  imports Prelude "HOL-Library.Multiset"
begin

text \<open>
  JSON values whose objects keep the order of their members: src/src/model/json.rs. The parser
  itself is serde_json; what the repository adds is the visitor that builds an object from the
  members the parser reports, the member order of JavaScript and the compact printer.

  A number of serde_json is an integer or a 64-bit float. Of a float the printer only uses whether
  it is finite, whether it is zero, its shortest decimal text, and whether its magnitude lies in
  the range JavaScript prints without an exponent; \<open>FloatView\<close> holds these. The text of a string
  literal is serde_json's and is the parameter \<open>quote\<close>.
\<close>

section \<open>Values\<close>

record FloatView =
  fv_finite :: bool
  fv_zero :: bool
  fv_raw :: string
  fv_plain_range :: bool

datatype Number = Integer int | Float FloatView

datatype OrderedJson =
    Null | Bool bool | Number Number | String string
  | Array "OrderedJson list" | Object "(string \<times> OrderedJson) list"

fun oj_get :: "OrderedJson \<Rightarrow> string \<Rightarrow> OrderedJson option" where
  "oj_get (Object entries) key = map_of entries key"
| "oj_get _ key = None"

definition contains_key :: "OrderedJson \<Rightarrow> string \<Rightarrow> bool" where
  "contains_key v key \<longleftrightarrow> oj_get v key \<noteq> None"

fun as_str :: "OrderedJson \<Rightarrow> string option" where
  "as_str (String s) = Some s" | "as_str _ = None"

fun as_bool :: "OrderedJson \<Rightarrow> bool option" where
  "as_bool (Bool b) = Some b" | "as_bool _ = None"

fun as_array :: "OrderedJson \<Rightarrow> OrderedJson list option" where
  "as_array (Array vs) = Some vs" | "as_array _ = None"

fun as_object :: "OrderedJson \<Rightarrow> (string \<times> OrderedJson) list option" where
  "as_object (Object es) = Some es" | "as_object _ = None"

section \<open>Member order\<close>

text \<open>
  A canonical array index: decimal digits without a leading zero, below \<open>u32::MAX\<close>. \<open>str::parse\<close>
  also accepts a leading plus sign, which the comparison with \<open>to_string\<close> rejects.
\<close>

definition array_index :: "string \<Rightarrow> nat option" where
  "array_index key =
     (if key = [] \<or> (1 < length key \<and> hd key = CHR ''0'') then None
      else if list_all is_ascii_digit key \<and> read_nat_acc 0 key < 4294967295 \<and> show_nat (read_nat_acc 0 key) = key
      then Some (read_nat_acc 0 key) else None)"

definition object_entries :: "(string \<times> 'v) list \<Rightarrow> (string \<times> 'v) list" where
  "object_entries entries =
     sort_key (\<lambda>(k, v). the (array_index k)) (filter (\<lambda>(k, v). array_index k \<noteq> None) entries)
     @ filter (\<lambda>(k, v). array_index k = None) entries"

text \<open>\<open>visit_map\<close>: a repeated key keeps its first position and takes the last value.\<close>

definition put_entry :: "(string \<times> 'v) list \<Rightarrow> string \<times> 'v \<Rightarrow> (string \<times> 'v) list" where
  "put_entry entries kv =
     (if fst kv \<in> set (map fst entries)
      then map (\<lambda>(k, v). if k = fst kv then (k, snd kv) else (k, v)) entries
      else entries @ [kv])"

definition visit_map :: "(string \<times> 'v) list \<Rightarrow> (string \<times> 'v) list" where
  "visit_map members = foldl put_entry [] members"

section \<open>Printing\<close>

definition parse_i32 :: "string \<Rightarrow> int option" where
  "parse_i32 s =
     (let negative = (s \<noteq> [] \<and> hd s = CHR ''-'');
          digits = (if s \<noteq> [] \<and> (hd s = CHR ''-'' \<or> hd s = CHR ''+'') then tl s else s);
          n = (if negative then - int (read_nat_acc 0 digits) else int (read_nat_acc 0 digits))
      in if digits = [] \<or> \<not> list_all is_ascii_digit digits \<or> n < -2147483648 \<or> 2147483647 < n then None else Some n)"

definition split_exponent :: "string \<Rightarrow> (string \<times> int) option" where
  "split_exponent raw =
     (let mantissa = takeWhile (\<lambda>c. c \<noteq> CHR ''e'' \<and> c \<noteq> CHR ''E'') raw;
          rest = drop (length mantissa) raw
      in if rest = [] then None else map_option (\<lambda>e. (mantissa, e)) (parse_i32 (tl rest)))"

definition strip_point_zero :: "string \<Rightarrow> string" where
  "strip_point_zero raw = (if ends_with raw ''.0'' then take (length raw - 2) raw else raw)"

definition decimal_notation :: "string \<Rightarrow> string" where
  "decimal_notation raw =
     (case split_exponent raw of
        None \<Rightarrow> strip_point_zero raw
      | Some (mantissa, exponent) \<Rightarrow>
          let unsigned = dropWhile (\<lambda>c. c = CHR ''-'') mantissa;
              digits = filter (\<lambda>c. c \<noteq> CHR ''.'') unsigned;
              decimal_at = int (length (takeWhile (\<lambda>c. c \<noteq> CHR ''.'') unsigned)) + exponent;
              rendered =
                (if decimal_at \<le> 0 then ''0.'' @ replicate (nat (- decimal_at)) (CHR ''0'') @ digits
                 else if int (length digits) \<le> decimal_at
                 then digits @ replicate (nat decimal_at - length digits) (CHR ''0'')
                 else take (nat decimal_at) digits @ ''.'' @ drop (nat decimal_at) digits)
          in if starts_with mantissa ''-'' then ''-'' @ rendered else rendered)"

definition exponent_notation :: "string \<Rightarrow> string" where
  "exponent_notation raw =
     (case split_exponent raw of
        None \<Rightarrow> strip_point_zero raw
      | Some (mantissa, exponent) \<Rightarrow>
          strip_point_zero mantissa @ (if 0 \<le> exponent then ''e+'' else ''e'') @ show_int exponent)"

fun js_number :: "Number \<Rightarrow> string" where
  "js_number (Integer i) = show_int i"
| "js_number (Float f) =
     (if \<not> fv_finite f then ''null''
      else if fv_zero f then ''0''
      else if fv_plain_range f then decimal_notation (fv_raw f)
      else exponent_notation (fv_raw f))"

fun comma_separated :: "string list \<Rightarrow> string" where
  "comma_separated [] = []"
| "comma_separated [x] = x"
| "comma_separated (x # xs) = x @ '','' @ comma_separated xs"

fun collect_options :: "'a option list \<Rightarrow> 'a list option" where
  "collect_options [] = Some []"
| "collect_options (None # xs) = None"
| "collect_options (Some x # xs) = map_option ((#) x) (collect_options xs)"

definition member_text :: "(string \<Rightarrow> string option) \<Rightarrow> string \<times> string option \<Rightarrow> string option" where
  "member_text quote kv =
     (case quote (fst kv) of None \<Rightarrow> None | Some k \<Rightarrow> map_option (\<lambda>v. k @ '':'' @ v) (snd kv))"

fun to_json_string :: "(string \<Rightarrow> string option) \<Rightarrow> OrderedJson \<Rightarrow> string option" where
  "to_json_string quote Null = Some ''null''"
| "to_json_string quote (Bool b) = Some (if b then ''true'' else ''false'')"
| "to_json_string quote (Number n) = Some (js_number n)"
| "to_json_string quote (String s) = quote s"
| "to_json_string quote (Array vs) =
     map_option (\<lambda>ts. ''['' @ comma_separated ts @ '']'') (collect_options (map (to_json_string quote) vs))"
| "to_json_string quote (Object es) =
     map_option (\<lambda>ts. ''{'' @ comma_separated ts @ ''}'')
       (collect_options (map (member_text quote) (object_entries (map (\<lambda>(k, v). (k, to_json_string quote v)) es))))"

section \<open>Objects\<close>

lemma put_entry_keys:
  "map fst (put_entry es kv) = (if fst kv \<in> set (map fst es) then map fst es else map fst es @ [fst kv])"
  by (auto simp: put_entry_def)

lemma put_entry_lookup: "map_of (put_entry es kv) k = (if k = fst kv then Some (snd kv) else map_of es k)"
proof (cases "fst kv \<in> set (map fst es)")
  case True
  have "map_of (map (\<lambda>(k, v). if k = fst kv then (k, snd kv) else (k, v)) es) k =
      (if k = fst kv then map_option (\<lambda>_. snd kv) (map_of es k) else map_of es k)"
    by (induction es) auto
  moreover have "map_of es (fst kv) \<noteq> None" using True by (auto simp: map_of_eq_None_iff)
  ultimately show ?thesis using True by (auto simp: put_entry_def)
next
  case False
  then have "map_of es (fst kv) = None" by (auto simp: map_of_eq_None_iff)
  then show ?thesis using False by (cases kv) (auto simp: put_entry_def map_add_def split: option.split)
qed

lemma visit_map_snoc: "visit_map (members @ [kv]) = put_entry (visit_map members) kv"
  by (simp add: visit_map_def)

lemma visit_map_lookup: "map_of (visit_map members) k = map_of (rev members) k"
  by (induction members rule: rev_induct) (auto simp: visit_map_snoc put_entry_lookup visit_map_def)

lemma visit_map_keys: "map fst (visit_map members) = rev (remdups (rev (map fst members)))"
proof (induction members rule: rev_induct)
  case (snoc kv members)
  have "set (map fst (visit_map members)) = set (map fst members)"
    by (simp only: snoc.IH set_rev set_remdups)
  then show ?case by (simp add: visit_map_snoc put_entry_keys snoc.IH)
qed (simp add: visit_map_def)

lemma mset_object_entries: "mset (object_entries entries) = mset entries"
proof -
  have "mset entries = filter_mset (\<lambda>(k, v). array_index k \<noteq> None) (mset entries)
      + filter_mset (\<lambda>kv. \<not> (case kv of (k, v) \<Rightarrow> array_index k \<noteq> None)) (mset entries)"
    by (rule multiset_partition)
  then show ?thesis by (simp add: object_entries_def case_prod_unfold)
qed

lemma object_entries_lookup:
  assumes "distinct (map fst entries)"
  shows "map_of (object_entries entries) = map_of entries"
proof -
  have m: "mset (map fst (object_entries entries)) = mset (map fst entries)"
    by (simp add: mset_object_entries)
  then have "distinct (map fst (object_entries entries))"
    using assms by (metis mset_eq_imp_distinct_iff)
  moreover have "set (object_entries entries) = set entries" by (rule mset_eq_setD [OF mset_object_entries])
  ultimately show ?thesis using assms map_of_inject_set by blast
qed

text \<open>
  C36. Building an object from the members of a JSON text, whatever repetitions it has, gives every
  key once, in the order of first occurrences, with the value of its last occurrence. The order in
  which members are listed and printed is a permutation that keeps every lookup: keys that are
  array indices come first in ascending numeric order, all others follow in insertion order.
\<close>

theorem json_object_wellformed:
  "distinct (map fst (visit_map members)) \<and>
   map fst (visit_map members) = rev (remdups (rev (map fst members))) \<and>
   oj_get (Object (visit_map members)) key = map_of (rev members) key \<and>
   mset (object_entries (visit_map members)) = mset (visit_map members) \<and>
   oj_get (Object (object_entries (visit_map members))) key = oj_get (Object (visit_map members)) key \<and>
   (\<exists>indexed named. map fst (object_entries (visit_map members)) = indexed @ named \<and>
      list_all (\<lambda>k. array_index k \<noteq> None) indexed \<and> sorted (map (the \<circ> array_index) indexed) \<and>
      named = filter (\<lambda>k. array_index k = None) (map fst (visit_map members)))"
proof -
  let ?es = "visit_map members"
  have k: "map fst ?es = rev (remdups (rev (map fst members)))" by (rule visit_map_keys)
  then have d: "distinct (map fst ?es)" by simp
  have sp: "sorted (map (the \<circ> array_index \<circ> fst) (sort_key (\<lambda>(k, v). the (array_index k)) xs))" for xs :: "(string \<times> OrderedJson) list"
    using sorted_sort_key [of "\<lambda>(k, v). the (array_index k)" xs] by (simp add: case_prod_unfold comp_def)
  have "\<exists>indexed named. map fst (object_entries ?es) = indexed @ named \<and>
      list_all (\<lambda>k. array_index k \<noteq> None) indexed \<and> sorted (map (the \<circ> array_index) indexed) \<and>
      named = filter (\<lambda>k. array_index k = None) (map fst ?es)"
    unfolding object_entries_def map_append
    by (intro exI conjI, rule refl) (use sp in \<open>auto simp: list_all_iff filter_map comp_def case_prod_unfold\<close>)
  then show ?thesis
    using d k mset_object_entries [of ?es] object_entries_lookup [OF d] visit_map_lookup [of members key] by simp
qed

end
