(* ===== verification/Viewer_State.thy ===== *)
theory Viewer_State
  imports Audit_Integrity Ordered_Json
begin

text \<open>
  The state an artifact keeps for its organization or for one viewer: src/src/persistence/state.rs,
  src/src/persistence/viewer_state_service.rs and src/src/model/state.rs.

  The table \<open>artifact_state\<close> is a list of rows; its primary key compares the viewer without regard
  to ASCII case, as the column's \<open>NOCASE\<close> collation does. \<open>env\<close> holds what the code takes from the
  outside: \<open>str::to_lowercase\<close> with its Unicode tables, the text of JSON strings and the JSON parser
  of serde_json. The artifacts a row may refer to are those of \<open>sd_artifacts\<close>.
\<close>

section \<open>Model (model/state.rs)\<close>

datatype StateScope = Org | PerViewer

fun StateScope_as_str :: "StateScope \<Rightarrow> string" where
  "StateScope_as_str Org = ''org''"
| "StateScope_as_str PerViewer = ''viewer''"

record StateValue =
  sv_artifact_id :: string
  sv_key :: string
  sv_value :: OrderedJson
  sv_revision :: int
  sv_updated_at :: string
  sv_updated_by :: string
  sv_scope :: StateScope

record StateKey =
  sk_key :: string
  sk_revision :: int
  sk_updated_at :: string

record StateConflict =
  sc_value :: OrderedJson
  sc_revision :: int

datatype StateError = App AppError | StateConflict StateConflict | TooManyKeys

section \<open>The table\<close>

record StateRow =
  sr_artifact_id :: string
  sr_scope :: StateScope
  sr_viewer :: string
  sr_key :: string
  sr_value :: string
  sr_revision :: int
  sr_updated_at :: string
  sr_updated_by :: string

record state_db =
  sd_artifacts :: "string list"
  sd_rows :: "StateRow list"

record state_env =
  se_lower :: "string \<Rightarrow> string"
  se_quote :: "string \<Rightarrow> string option"
  se_parse :: "string \<Rightarrow> OrderedJson option"

definition STATE_MAX_KEY_BYTES :: nat where "STATE_MAX_KEY_BYTES = 64"
definition STATE_MAX_VALUE_BYTES :: int where "STATE_MAX_VALUE_BYTES = 262144"
definition STATE_MAX_KEYS :: int where "STATE_MAX_KEYS = 64"

definition valid_key :: "string \<Rightarrow> bool" where
  "valid_key key \<longleftrightarrow> key \<noteq> [] \<and> length key \<le> STATE_MAX_KEY_BYTES \<and>
     list_all (\<lambda>b. is_ascii_alphanumeric b \<or> b = CHR ''.'' \<or> b = CHR ''_'' \<or> b = CHR ''-'') key"

definition state_owner :: "state_env \<Rightarrow> StateScope \<Rightarrow> string option \<Rightarrow> string" where
  "state_owner env scope viewer =
     (if scope = PerViewer then se_lower env (case viewer of None \<Rightarrow> [] | Some v \<Rightarrow> v) else [])"

text \<open>The \<open>WHERE\<close> clauses: one bucket, and one cell of it.\<close>

definition in_bucket :: "string \<Rightarrow> StateScope \<Rightarrow> string \<Rightarrow> StateRow \<Rightarrow> bool" where
  "in_bucket aid scope owner r \<longleftrightarrow>
     sr_artifact_id r = aid \<and> sr_scope r = scope \<and> eq_ignore_ascii_case (sr_viewer r) owner"

definition in_cell :: "string \<Rightarrow> StateScope \<Rightarrow> string \<Rightarrow> string \<Rightarrow> StateRow \<Rightarrow> bool" where
  "in_cell aid scope owner key r \<longleftrightarrow> in_bucket aid scope owner r \<and> sr_key r = key"

definition revision_of_row :: "StateRow \<Rightarrow> int result" where
  "revision_of_row r = (if sr_revision r < 0 then Inl Internal else Inr (sr_revision r))"

definition decode_row :: "state_env \<Rightarrow> string \<Rightarrow> StateScope \<Rightarrow> StateRow \<Rightarrow> StateValue result" where
  "decode_row env aid scope r =
     (case se_parse env (sr_value r) of
        None \<Rightarrow> Inl Internal
      | Some v \<Rightarrow> try_bind (revision_of_row r) (\<lambda>n.
          Inr \<lparr> sv_artifact_id = aid, sv_key = sr_key r, sv_value = v, sv_revision = n,
                sv_updated_at = sr_updated_at r, sv_updated_by = sr_updated_by r, sv_scope = scope \<rparr>))"

section \<open>Operations (persistence/state.rs)\<close>

definition state_list :: "state_env \<Rightarrow> state_db \<Rightarrow> string \<Rightarrow> StateScope \<Rightarrow> string option \<Rightarrow> StateKey list result" where
  "state_list env db aid scope viewer =
     collect_results (map (\<lambda>r. try_bind (revision_of_row r) (\<lambda>n.
         Inr \<lparr> sk_key = sr_key r, sk_revision = n, sk_updated_at = sr_updated_at r \<rparr>))
       (sort_key sr_key (filter (in_bucket aid scope (state_owner env scope viewer)) (sd_rows db))))"

definition state_get ::
    "state_env \<Rightarrow> state_db \<Rightarrow> string \<Rightarrow> string \<Rightarrow> StateScope \<Rightarrow> string option \<Rightarrow> StateValue option result" where
  "state_get env db aid key scope viewer =
     (case List.find (in_cell aid scope (state_owner env scope viewer) key) (sd_rows db) of
        None \<Rightarrow> Inr None
      | Some r \<Rightarrow> try_bind (decode_row env aid scope r) (\<lambda>v. Inr (Some v)))"

definition current_revision :: "StateRow option \<Rightarrow> int" where
  "current_revision current = (case current of None \<Rightarrow> 0 | Some r \<Rightarrow> if sr_revision r < 0 then 0 else sr_revision r)"

definition conflict_of :: "state_env \<Rightarrow> StateRow option \<Rightarrow> StateConflict" where
  "conflict_of env current =
     \<lparr> sc_value = (case Option.bind current (\<lambda>r. se_parse env (sr_value r)) of None \<Rightarrow> Null | Some v \<Rightarrow> v),
       sc_revision = current_revision current \<rparr>"

text \<open>
  The upsert. A new row needs its artifact; a revision that leaves the 64-bit range becomes a
  floating point number in SQLite, which cannot be read back, so the transaction fails.
\<close>

definition upsert_state ::
    "string \<Rightarrow> StateScope \<Rightarrow> string \<Rightarrow> string \<Rightarrow> string \<Rightarrow> string \<Rightarrow> string \<Rightarrow> state_db \<Rightarrow> (StateRow \<times> state_db) result" where
  "upsert_state aid scope owner key encoded now updated_by db =
     (case List.find (in_cell aid scope owner key) (sd_rows db) of
        None \<Rightarrow>
          if aid \<in> set (sd_artifacts db) then
            (let r = \<lparr> sr_artifact_id = aid, sr_scope = scope, sr_viewer = owner, sr_key = key, sr_value = encoded,
                      sr_revision = 1, sr_updated_at = now, sr_updated_by = updated_by \<rparr>
             in Inr (r, db\<lparr>sd_rows := sd_rows db @ [r]\<rparr>))
          else Inl Internal
      | Some r \<Rightarrow>
          if sr_revision r + 1 > i64_max then Inl Internal
          else
            (let change = (\<lambda>q. q\<lparr>sr_value := encoded, sr_revision := sr_revision q + 1, sr_updated_at := now,
                                 sr_updated_by := updated_by\<rparr>)
             in Inr (change r, db\<lparr>sd_rows := sql_update (in_cell aid scope owner key) change (sd_rows db)\<rparr>)))"

definition set_for_viewer ::
    "state_env \<Rightarrow> string \<Rightarrow> state_db \<Rightarrow> string \<Rightarrow> string \<Rightarrow> OrderedJson \<Rightarrow> int option \<Rightarrow> string \<Rightarrow> StateScope \<Rightarrow>
     string option \<Rightarrow> StateError + (StateValue \<times> state_db)" where
  "set_for_viewer env now db aid key value if_revision updated_by scope viewer =
     (if \<not> valid_key key then Inl (App (Validation ''bad key''))
      else case to_json_string (se_quote env) value of
        None \<Rightarrow> Inl (App (Validation ''invalid value''))
      | Some encoded \<Rightarrow>
          if STATE_MAX_VALUE_BYTES < int (length encoded) then Inl (App PayloadTooLarge)
          else
            let owner = (if scope = PerViewer then (case viewer of None \<Rightarrow> [] | Some v \<Rightarrow> se_lower env v) else []);
                current = List.find (in_cell aid scope owner key) (sd_rows db)
            in
            if scope = PerViewer \<and> owner = [] then Inl (App (Validation ''viewer identity required''))
            else if (case if_revision of None \<Rightarrow> False | Some expected \<Rightarrow> expected \<noteq> current_revision current)
            then Inl (StateConflict (conflict_of env current))
            else if current = None \<and> STATE_MAX_KEYS \<le> count_rows (in_bucket aid scope owner) (sd_rows db)
            then Inl TooManyKeys
            else
              case upsert_state aid scope owner key encoded now updated_by db of
                Inl e \<Rightarrow> Inl (App e)
              | Inr (r, db') \<Rightarrow>
                  (case decode_row env aid scope r of Inl e \<Rightarrow> Inl (App e) | Inr v \<Rightarrow> Inr (v, db')))"

definition state_set ::
    "state_env \<Rightarrow> string \<Rightarrow> state_db \<Rightarrow> string \<Rightarrow> string \<Rightarrow> OrderedJson \<Rightarrow> int option \<Rightarrow> string \<Rightarrow> StateScope \<Rightarrow>
     StateError + (StateValue \<times> state_db)" where
  "state_set env now db aid key value if_revision updated_by scope =
     set_for_viewer env now db aid key value if_revision updated_by scope (Some updated_by)"

definition state_delete ::
    "state_db \<Rightarrow> string \<Rightarrow> string \<Rightarrow> StateScope \<Rightarrow> string option \<Rightarrow> bool \<times> state_db" where
  "state_delete db aid key scope viewer =
     (let owner = (if scope = PerViewer then (case viewer of None \<Rightarrow> [] | Some v \<Rightarrow> v) else [])
      in (list_ex (in_cell aid scope owner key) (sd_rows db),
          db\<lparr>sd_rows := sql_delete (in_cell aid scope owner key) (sd_rows db)\<rparr>))"

section \<open>The service (persistence/viewer_state_service.rs)\<close>

datatype StateAudience = AudienceOrg | AudienceViewer string

fun audience_parts :: "StateAudience \<Rightarrow> StateScope \<times> string option" where
  "audience_parts AudienceOrg = (Org, None)"
| "audience_parts (AudienceViewer v) = (PerViewer, Some v)"

definition service_list where
  "service_list env db artifact audience =
     (case audience_parts audience of (scope, viewer) \<Rightarrow> state_list env db (am_id (authorized_meta artifact)) scope viewer)"

definition service_get where
  "service_get env db artifact key audience =
     (case audience_parts audience of (scope, viewer) \<Rightarrow> state_get env db (am_id (authorized_meta artifact)) key scope viewer)"

definition service_put where
  "service_put env now db artifact key value if_revision writer audience =
     (case audience_parts audience of (scope, viewer) \<Rightarrow>
        set_for_viewer env now db (am_id (authorized_meta artifact)) key value if_revision writer scope viewer)"

definition state_delete_event :: "string \<Rightarrow> AuditEvent" where
  "state_delete_event aid =
     \<lparr> ae_operation = ''state.delete'', ae_target_type = ''artifact_state'', ae_target_id = aid,
       ae_result = ''success'', ae_classification = ''viewer_state'', ae_revision = None \<rparr>"

text \<open>The deletion and its audit event share one transaction; without an audit key there is no event.\<close>

definition service_delete ::
    "(bytes \<Rightarrow> string) option \<Rightarrow> (bytes \<Rightarrow> string) \<Rightarrow> string result \<Rightarrow> string \<Rightarrow> state_db \<Rightarrow> ledger \<Rightarrow> AuthorizedArtifact \<Rightarrow>
     string \<Rightarrow> StateAudience \<Rightarrow> MutationAudit \<Rightarrow> (state_db \<times> ledger) result" where
  "service_delete mac sha event_id now db l artifact key audience mutation =
     (case audience_parts audience of (scope, viewer) \<Rightarrow>
        let meta = authorized_meta artifact in
        try_bind (for_target_tenant mutation (am_org meta)) (\<lambda>audit.
        let db' = snd (state_delete db (am_id meta) key scope viewer) in
        case mac of
          None \<Rightarrow> Inr (db', l)
        | Some m \<Rightarrow>
            try_bind event_id (\<lambda>eid.
            try_bind (append_in_transaction m sha l eid (ma_context audit) (state_delete_event (am_id meta)) now)
              (\<lambda>(row, l'). Inr (db', l')))))"

section \<open>Cells\<close>

definition bucket_of :: "StateRow \<Rightarrow> string \<times> StateScope \<times> string" where
  "bucket_of r = (sr_artifact_id r, sr_scope r, to_ascii_lowercase (sr_viewer r))"

definition cell_of :: "StateRow \<Rightarrow> (string \<times> StateScope \<times> string) \<times> string" where
  "cell_of r = (bucket_of r, sr_key r)"

lemma in_bucket_iff: "in_bucket aid scope owner r \<longleftrightarrow> bucket_of r = (aid, scope, to_ascii_lowercase owner)"
  by (auto simp: in_bucket_def bucket_of_def eq_ignore_ascii_case_def)

lemma in_cell_iff: "in_cell aid scope owner key r \<longleftrightarrow> cell_of r = ((aid, scope, to_ascii_lowercase owner), key)"
  by (auto simp: in_cell_def cell_of_def in_bucket_iff)

definition state_row_ok :: "state_db \<Rightarrow> StateRow \<Rightarrow> bool" where
  "state_row_ok db r \<longleftrightarrow> sr_artifact_id r \<in> set (sd_artifacts db) \<and> valid_key (sr_key r) \<and>
     int (length (sr_value r)) \<le> STATE_MAX_VALUE_BYTES \<and> 1 \<le> sr_revision r \<and> sr_revision r \<le> i64_max \<and>
     (sr_viewer r = [] \<longleftrightarrow> sr_scope r = Org)"

definition state_ok :: "state_db \<Rightarrow> bool" where
  "state_ok db \<longleftrightarrow> list_all (state_row_ok db) (sd_rows db) \<and> distinct (map cell_of (sd_rows db)) \<and>
     (\<forall>b. count_rows (\<lambda>r. bucket_of r = b) (sd_rows db) \<le> STATE_MAX_KEYS)"

lemma set_cases:
  assumes "set_for_viewer env now db aid key value if_revision by scope viewer = Inr (v, db')"
  obtains encoded owner r where
    "to_json_string (se_quote env) value = Some encoded" "valid_key key" "int (length encoded) \<le> STATE_MAX_VALUE_BYTES"
    "owner = state_owner env scope viewer" "owner = [] \<longleftrightarrow> scope = Org"
    "if_revision = None \<or> if_revision = Some (current_revision (List.find (in_cell aid scope owner key) (sd_rows db)))"
    "List.find (in_cell aid scope owner key) (sd_rows db) = None \<longrightarrow> count_rows (in_bucket aid scope owner) (sd_rows db) < STATE_MAX_KEYS"
    "upsert_state aid scope owner key encoded now by db = Inr (r, db')" "decode_row env aid scope r = Inr v"
  using assms
  by (cases scope)
    (auto simp: set_for_viewer_def Let_def state_owner_def split: if_splits option.splits sum.splits prod.splits)

lemma upsert_cases:
  assumes "upsert_state aid scope owner key encoded now by db = Inr (r, db')"
  obtains (new) "List.find (in_cell aid scope owner key) (sd_rows db) = None" "aid \<in> set (sd_artifacts db)"
      "r = \<lparr> sr_artifact_id = aid, sr_scope = scope, sr_viewer = owner, sr_key = key, sr_value = encoded,
             sr_revision = 1, sr_updated_at = now, sr_updated_by = by \<rparr>" "db' = db\<lparr>sd_rows := sd_rows db @ [r]\<rparr>"
    | (old) q where "List.find (in_cell aid scope owner key) (sd_rows db) = Some q" "sr_revision q + 1 \<le> i64_max"
      "r = q\<lparr>sr_value := encoded, sr_revision := sr_revision q + 1, sr_updated_at := now, sr_updated_by := by\<rparr>"
      "db' = db\<lparr>sd_rows := sql_update (in_cell aid scope owner key)
         (\<lambda>q. q\<lparr>sr_value := encoded, sr_revision := sr_revision q + 1, sr_updated_at := now, sr_updated_by := by\<rparr>) (sd_rows db)\<rparr>"
  using assms by (auto simp: upsert_state_def Let_def split: option.splits if_splits)

lemma cell_of_update [simp]:
  "cell_of (q\<lparr>sr_value := a, sr_revision := n, sr_updated_at := u, sr_updated_by := b\<rparr>) = cell_of q"
  "bucket_of (q\<lparr>sr_value := a, sr_revision := n, sr_updated_at := u, sr_updated_by := b\<rparr>) = bucket_of q"
  by (simp_all add: cell_of_def bucket_of_def)

lemma set_keeps_ok:
  assumes ok: "state_ok db" and set: "set_for_viewer env now db aid key value if_revision by scope viewer = Inr (v, db')"
  shows "state_ok db'"
proof -
  obtain encoded owner r where "to_json_string (se_quote env) value = Some encoded" and c: "valid_key key"
    "int (length encoded) \<le> STATE_MAX_VALUE_BYTES"
    and "owner = state_owner env scope viewer" and c': "owner = [] \<longleftrightarrow> scope = Org"
    and "if_revision = None \<or> if_revision = Some (current_revision (List.find (in_cell aid scope owner key) (sd_rows db)))"
    and few: "List.find (in_cell aid scope owner key) (sd_rows db) = None \<longrightarrow> count_rows (in_bucket aid scope owner) (sd_rows db) < STATE_MAX_KEYS"
    and u: "upsert_state aid scope owner key encoded now by db = Inr (r, db')" and "decode_row env aid scope r = Inr v"
    by (rule set_cases [OF set])
  from u show ?thesis
  proof (cases rule: upsert_cases)
    case new
    have "cell_of r \<notin> set (map cell_of (sd_rows db))"
      using new(1,3) by (auto simp: find_None_iff in_cell_iff cell_of_def bucket_of_def)
    moreover have "count_rows (\<lambda>q. bucket_of q = b) (sd_rows db @ [r]) \<le> STATE_MAX_KEYS" for b
    proof (cases "bucket_of r = b")
      case True
      then have "in_bucket aid scope owner = (\<lambda>q. bucket_of q = b)" using new(3) by (auto simp: in_bucket_iff bucket_of_def)
      then show ?thesis using few new(1) True by (simp add: count_rows_def)
    next
      case False
      then have "count_rows (\<lambda>q. bucket_of q = b) (sd_rows db @ [r]) = count_rows (\<lambda>q. bucket_of q = b) (sd_rows db)"
        by (simp add: count_rows_def)
      then show ?thesis using ok unfolding state_ok_def by metis
    qed
    ultimately show ?thesis
      using ok new c c' by (auto simp: state_ok_def state_row_ok_def list_all_iff i64_max_def)
  next
    case (old q)
    have m: "map cell_of (sd_rows db') = map cell_of (sd_rows db)" "map bucket_of (sd_rows db') = map bucket_of (sd_rows db)"
      by (simp_all add: old(4) map_sql_update)
    have cell: "in_cell aid scope owner key p \<Longrightarrow> p \<in> set (sd_rows db) \<Longrightarrow> p = q" for p
      using ok old(1) unfolding state_ok_def in_cell_iff
      by (metis (mono_tags, lifting) find_Some_iff distinct_map inj_on_eq_iff nth_mem)
    have "list_all (state_row_ok db') (sd_rows db')"
      using ok c c' old(2) cell by (auto simp: old(4) state_ok_def state_row_ok_def list_all_iff set_sql_update)
    then show ?thesis using ok m count_rows_keys [OF m(2)] by (simp add: state_ok_def)
  qed
qed

lemma delete_keeps_ok:
  assumes "state_ok db"
  shows "state_ok (db\<lparr>sd_rows := sql_delete p (sd_rows db)\<rparr>)"
proof -
  have "count_rows (\<lambda>r. bucket_of r = b) (sql_delete p (sd_rows db)) \<le> STATE_MAX_KEYS" for b
    using assms count_sql_delete_le [of "\<lambda>r. bucket_of r = b" p "sd_rows db"] unfolding state_ok_def by (meson order_trans)
  moreover have "distinct (map cell_of (sql_delete p (sd_rows db)))"
    using assms unfolding state_ok_def sql_delete_def by (intro distinct_map_filter) simp
  moreover have "list_all (state_row_ok (db\<lparr>sd_rows := sql_delete p (sd_rows db)\<rparr>)) (sql_delete p (sd_rows db))"
    using assms by (simp add: state_ok_def list_all_iff state_row_ok_def sql_delete_def)
  ultimately show ?thesis by (simp add: state_ok_def)
qed

section \<open>Runs of the state store\<close>

text \<open>Writes and deletions of any caller, and the artifacts that come and go with their rows.\<close>

inductive state_step :: "state_db \<Rightarrow> state_db \<Rightarrow> bool" where
  put: "service_put env now db artifact key value if_revision writer audience = Inr (v, db') \<Longrightarrow> state_step db db'"
| drop: "service_delete mac sha event_id now db l artifact key audience mutation = Inr (db', l') \<Longrightarrow> state_step db db'"
| publish: "state_step db (db\<lparr>sd_artifacts := aid # sd_artifacts db\<rparr>)"
| cascade: "state_step db (db\<lparr>sd_artifacts := removeAll aid (sd_artifacts db),
     sd_rows := sql_delete (\<lambda>r. sr_artifact_id r = aid) (sd_rows db)\<rparr>)"

definition empty_state_db :: state_db where
  "empty_state_db = \<lparr> sd_artifacts = [], sd_rows = [] \<rparr>"

lemma state_step_ok: "state_step db db' \<Longrightarrow> state_ok db \<Longrightarrow> state_ok db'"
proof (induction rule: state_step.induct)
  case (put env now db artifact key j if_revision writer audience v db')
  then show ?case by (auto simp: service_put_def split: prod.splits intro: set_keeps_ok)
next
  case (drop mac sha event_id now db l artifact key audience mutation db' l')
  then show ?case
    by (auto simp: service_delete_def Let_def state_delete_def result_simps split: prod.splits option.splits intro: delete_keeps_ok)
next
  case (publish db aid)
  then show ?case by (auto simp: state_ok_def state_row_ok_def list_all_iff)
next
  case (cascade db aid)
  from delete_keeps_ok [OF this, of "\<lambda>r. sr_artifact_id r = aid"] show ?case
    by (auto simp: state_ok_def state_row_ok_def list_all_iff sql_delete_def)
qed

interpretation state_run: invariant_system "\<lambda>db. db = empty_state_db" state_step state_ok
proof
  show "state_ok db" if "db = empty_state_db" for db
    using that by (simp add: empty_state_db_def state_ok_def STATE_MAX_KEYS_def count_rows_def)
  show "state_ok db'" if "state_ok db" "state_step db db'" for db db'
    using that(2,1) by (rule state_step_ok)
qed

abbreviation state_reachable :: "state_db \<Rightarrow> bool" where
  "state_reachable \<equiv> state_step\<^sup>*\<^sup>* empty_state_db"

lemma state_reachable_ok: "state_reachable db \<Longrightarrow> state_ok db"
  by (rule state_run.run_inv [OF refl])

lemma upsert_find:
  assumes "upsert_state aid scope owner key encoded now by db = Inr (r, db')"
  shows "List.find (in_cell aid scope owner key) (sd_rows db') = Some r" and "sr_value r = encoded" and "sr_key r = key"
    and "sr_updated_by r = by" and "(\<forall>q \<in> set (sd_rows db). 0 \<le> sr_revision q) \<Longrightarrow>
      sr_revision r = current_revision (List.find (in_cell aid scope owner key) (sd_rows db)) + 1"
proof -
  have cell: "cell_of r = ((aid, scope, to_ascii_lowercase owner), key)"
    using assms by (cases rule: upsert_cases) (auto simp: cell_of_def bucket_of_def find_Some_iff in_cell_iff)
  show "List.find (in_cell aid scope owner key) (sd_rows db') = Some r"
    using assms
  proof (cases rule: upsert_cases)
    case new
    then show ?thesis by (simp add: find_append_new in_cell_iff cell_of_def bucket_of_def)
  next
    case (old q)
    then show ?thesis by (simp add: find_sql_update_hit in_cell_iff)
  qed
  show "sr_value r = encoded" "sr_updated_by r = by" using assms by (cases rule: upsert_cases; simp)+
  show "sr_key r = key" using cell by (simp add: cell_of_def)
  show "sr_revision r = current_revision (List.find (in_cell aid scope owner key) (sd_rows db)) + 1"
    if "\<forall>q \<in> set (sd_rows db). 0 \<le> sr_revision q"
    using assms
  proof (cases rule: upsert_cases)
    case new
    then show ?thesis by (simp add: current_revision_def)
  next
    case (old q)
    have "q \<in> set (sd_rows db)" using old(1) by (auto simp: find_Some_iff)
    then have "0 \<le> sr_revision q" using that by blast
    then show ?thesis using old(1,3) by (simp add: current_revision_def)
  qed
qed

section \<open>Compare and set\<close>

text \<open>The cell a caller addresses.\<close>

definition state_cell ::
    "state_env \<Rightarrow> AuthorizedArtifact \<Rightarrow> StateAudience \<Rightarrow> string \<Rightarrow> (string \<times> StateScope \<times> string) \<times> string" where
  "state_cell env artifact audience key =
     (case audience_parts audience of (scope, viewer) \<Rightarrow>
        ((am_id (authorized_meta artifact), scope, to_ascii_lowercase (state_owner env scope viewer)), key))"

lemma service_get_cell:
  "service_get env db artifact key audience =
     (case List.find (\<lambda>r. cell_of r = state_cell env artifact audience key) (sd_rows db) of
        None \<Rightarrow> Inr None
      | Some r \<Rightarrow> try_bind (decode_row env (am_id (authorized_meta artifact)) (fst (audience_parts audience)) r) (\<lambda>v. Inr (Some v)))"
  by (cases "audience_parts audience") (simp add: service_get_def state_get_def state_cell_def in_cell_iff [abs_def] split: option.split)

lemma service_put_cell:
  assumes ok: "state_ok db" and put: "service_put env now db artifact key value if_revision writer audience = Inr (v, db')"
  obtains r encoded where
    "to_json_string (se_quote env) value = Some encoded" "sr_value r = encoded" "sr_key r = key" "sr_updated_by r = writer"
    "if_revision = None \<or> if_revision = Some (current_revision (List.find (\<lambda>r. cell_of r = state_cell env artifact audience key) (sd_rows db)))"
    "sr_revision r = current_revision (List.find (\<lambda>r. cell_of r = state_cell env artifact audience key) (sd_rows db)) + 1"
    "List.find (\<lambda>r. cell_of r = state_cell env artifact audience key) (sd_rows db') = Some r"
    "decode_row env (am_id (authorized_meta artifact)) (fst (audience_parts audience)) r = Inr v"
    "\<forall>c. c \<noteq> state_cell env artifact audience key \<longrightarrow>
       List.find (\<lambda>r. cell_of r = c) (sd_rows db') = List.find (\<lambda>r. cell_of r = c) (sd_rows db)"
proof -
  obtain scope viewer where a: "audience_parts audience = (scope, viewer)" by (cases "audience_parts audience")
  let ?aid = "am_id (authorized_meta artifact)"
  have set: "set_for_viewer env now db ?aid key value if_revision writer scope viewer = Inr (v, db')"
    using put a by (simp add: service_put_def)
  obtain encoded owner r where j: "to_json_string (se_quote env) value = Some encoded" and "valid_key key"
    and "int (length encoded) \<le> STATE_MAX_VALUE_BYTES"
    and o: "owner = state_owner env scope viewer" and "owner = [] \<longleftrightarrow> scope = Org"
    and rev: "if_revision = None \<or> if_revision = Some (current_revision (List.find (in_cell ?aid scope owner key) (sd_rows db)))"
    and "List.find (in_cell ?aid scope owner key) (sd_rows db) = None \<longrightarrow> count_rows (in_bucket ?aid scope owner) (sd_rows db) < STATE_MAX_KEYS"
    and u: "upsert_state ?aid scope owner key encoded now writer db = Inr (r, db')" and d: "decode_row env ?aid scope r = Inr v"
    by (rule set_cases [OF set])
  have cell: "in_cell ?aid scope owner key = (\<lambda>r. cell_of r = state_cell env artifact audience key)"
    by (simp add: in_cell_iff [abs_def] state_cell_def a o)
  have "\<forall>q \<in> set (sd_rows db). 0 \<le> sr_revision q"
    using ok by (auto simp: state_ok_def list_all_iff state_row_ok_def dest!: bspec)
  note found = upsert_find(1-4) [OF u] upsert_find(5) [OF u this]
  have other: "List.find (\<lambda>r. cell_of r = c) (sd_rows db') = List.find (\<lambda>r. cell_of r = c) (sd_rows db)"
    if ne: "c \<noteq> state_cell env artifact audience key" for c
    using u
  proof (cases rule: upsert_cases)
    case new
    have "cell_of r \<noteq> c" using ne found(1) cell by (auto simp: find_Some_iff)
    then show ?thesis by (simp add: new(4) find_append_other)
  next
    case (old q)
    show ?thesis unfolding old(4) cell using ne by (simp, subst find_sql_update_miss) auto
  qed
  show thesis
    by (rule that [OF j found(2-4)]) (use rev found d other a in \<open>simp_all add: cell\<close>)
qed

definition demo_state_env :: state_env where
  "demo_state_env = \<lparr> se_lower = to_ascii_lowercase, se_quote = (\<lambda>s. Some (CHR 0x22 # s @ [CHR 0x22])),
     se_parse = (\<lambda>s. if s = ''null'' then Some Null else if s = ''true'' then Some (Bool True) else None) \<rparr>"

definition demo_state_artifact :: AuthorizedArtifact where
  "demo_state_artifact = AuthorizedArtifact \<lparr> am_id = ''a1'', am_client_id = ''c'', am_org = ''o'', am_title = ''t'',
     am_description = [], am_bytes = 1, am_created_at = ''t0'', am_updated_at = ''t0'', am_uploader_label = [],
     am_owner_email = None, am_is_bundle = False, am_entry = [], am_revision = 1, am_category = [], am_hidden = False,
     am_body_sha256 = [], am_artifact_key = None \<rparr>"

definition demo_state_db :: state_db where
  "demo_state_db = \<lparr> sd_artifacts = [''a1''], sd_rows = [] \<rparr>"

lemma demo_state_reachable: "state_reachable demo_state_db"
proof -
  have "state_step empty_state_db demo_state_db"
    using state_step.publish [of empty_state_db "''a1''"] by (simp add: empty_state_db_def demo_state_db_def)
  then show ?thesis by (rule r_into_rtranclp)
qed

text \<open>
  C12. A write that names the revision it expects succeeds only when that is the revision stored (0
  when nothing is): it then moves the cell to the next revision, the returned value is the one the
  store now reads back and the one that was sent, through the encoder and the parser, under the
  writer's name; every other cell (another artifact, audience or key) reads as before; and a second
  writer who expected the same revision of the cell is refused, whatever it writes and under
  whichever spelling of the same viewer.
\<close>

theorem viewer_state_compare_and_set:
  assumes "state_reachable db"
    and "service_put env now db artifact key value (Some expected) writer audience = Inr (v, db')"
  shows "sv_revision v = expected + 1 \<and> sv_key v = key \<and> sv_updated_by v = writer \<and>
    Option.bind (to_json_string (se_quote env) value) (se_parse env) = Some (sv_value v) \<and>
    (service_get env db artifact key audience = Inr None \<longrightarrow> expected = 0) \<and>
    (\<forall>old. service_get env db artifact key audience = Inr (Some old) \<longrightarrow> sv_revision old = expected) \<and>
    service_get env db' artifact key audience = Inr (Some v) \<and>
    (\<forall>artifact' audience' key'.
       state_cell env artifact' audience' key' \<noteq> state_cell env artifact audience key \<longrightarrow>
       service_get env db' artifact' key' audience' = service_get env db artifact' key' audience') \<and>
    (\<forall>now' artifact' audience' key' value' writer' out.
       state_cell env artifact' audience' key' = state_cell env artifact audience key \<longrightarrow>
       service_put env now' db' artifact' key' value' (Some expected) writer' audience' \<noteq> Inr out)"
proof -
  let ?at = "\<lambda>db. List.find (\<lambda>r. cell_of r = state_cell env artifact audience key) (sd_rows db)"
  let ?decode = "decode_row env (am_id (authorized_meta artifact)) (fst (audience_parts audience))"
  have ok: "state_ok db" using assms(1) by (rule state_reachable_ok)
  obtain r encoded where j: "to_json_string (se_quote env) value = Some encoded" and r: "sr_value r = encoded" "sr_key r = key"
      "sr_updated_by r = writer"
    and e: "Some expected = None \<or> Some expected = Some (current_revision (?at db))" and n: "sr_revision r = current_revision (?at db) + 1"
    and f: "?at db' = Some r" and d: "?decode r = Inr v"
    and o: "\<forall>c. c \<noteq> state_cell env artifact audience key \<longrightarrow>
       List.find (\<lambda>r. cell_of r = c) (sd_rows db') = List.find (\<lambda>r. cell_of r = c) (sd_rows db)"
    by (rule service_put_cell [OF ok assms(2)])
  have v: "sv_revision v = sr_revision r" "sv_key v = sr_key r" "sv_updated_by v = sr_updated_by r"
    "se_parse env (sr_value r) = Some (sv_value v)"
    using d by (auto simp: decode_row_def revision_of_row_def result_simps split: option.splits if_splits)
  have before: "expected = 0" if "service_get env db artifact key audience = Inr None"
    using that e by (auto simp: service_get_cell current_revision_def result_simps split: option.splits)
  have before': "sv_revision old = expected" if "service_get env db artifact key audience = Inr (Some old)" for old
    using that e by (auto simp: service_get_cell current_revision_def decode_row_def revision_of_row_def result_simps
        split: option.splits if_splits)
  have again: "service_put env now' db' artifact' key' value' (Some expected) writer' audience' \<noteq> Inr out"
    if "state_cell env artifact' audience' key' = state_cell env artifact audience key" for now' artifact' audience' key' value' writer' out
  proof
    assume "service_put env now' db' artifact' key' value' (Some expected) writer' audience' = Inr out"
    moreover obtain v2 db2 where "out = (v2, db2)" by (cases out)
    ultimately have p: "service_put env now' db' artifact' key' value' (Some expected) writer' audience' = Inr (v2, db2)" by simp
    have "state_ok db'"
      using assms(2) ok by (auto simp: service_put_def split: prod.splits intro: set_keeps_ok)
    from service_put_cell [OF this p, unfolded that f] have "expected = current_revision (Some r)" by blast
    then show False using n e by (simp add: current_revision_def split: if_splits)
  qed
  have other: "service_get env db' artifact' key' audience' = service_get env db artifact' key' audience'"
    if "state_cell env artifact' audience' key' \<noteq> state_cell env artifact audience key" for artifact' audience' key'
    unfolding service_get_cell using o that by metis
  have "service_get env db' artifact key audience = Inr (Some v)" using d by (simp add: service_get_cell f result_simps)
  then show ?thesis using v r n e j before before' again other by simp
qed

theorem viewer_state_compare_and_set_witness:
  "\<exists>v db'. service_put demo_state_env ''t1'' demo_state_db demo_state_artifact ''k'' (Bool True) (Some 0) ''u'' (AudienceViewer ''V'')
      = Inr (v, db') \<and> sv_revision v = 1 \<and>
    service_get demo_state_env db' demo_state_artifact ''k'' (AudienceViewer ''V'') = Inr (Some v)"
proof -
  have "case service_put demo_state_env ''t1'' demo_state_db demo_state_artifact ''k'' (Bool True) (Some 0) ''u''
      (AudienceViewer ''V'') of Inl e \<Rightarrow> False | Inr out \<Rightarrow> True"
    by code_simp
  then obtain v db' where p: "service_put demo_state_env ''t1'' demo_state_db demo_state_artifact ''k'' (Bool True) (Some 0) ''u''
      (AudienceViewer ''V'') = Inr (v, db')"
    by (auto split: sum.splits)
  from viewer_state_compare_and_set [OF demo_state_reachable p] show ?thesis
    using p by auto
qed

lemma listed_rows:
  fixes artifact env
  assumes ok: "state_ok db" and a: "audience_parts audience = (scope, viewer)"
  defines "rows \<equiv> sort_key sr_key (filter (in_bucket (am_id (authorized_meta artifact)) scope (state_owner env scope viewer)) (sd_rows db))"
  shows "service_list env db artifact audience =
      Inr (map (\<lambda>r. \<lparr> sk_key = sr_key r, sk_revision = sr_revision r, sk_updated_at = sr_updated_at r \<rparr>) rows)"
    and "distinct (map sr_key rows)" and "int (length rows) \<le> STATE_MAX_KEYS"
    and "r \<in> set rows \<longleftrightarrow> r \<in> set (sd_rows db) \<and> cell_of r = state_cell env artifact audience (sr_key r)"
proof -
  have mem: "r \<in> set rows \<longleftrightarrow> r \<in> set (sd_rows db) \<and> cell_of r = state_cell env artifact audience (sr_key r)" for r
    by (auto simp: rows_def in_bucket_iff cell_of_def state_cell_def a)
  then show "r \<in> set rows \<longleftrightarrow> r \<in> set (sd_rows db) \<and> cell_of r = state_cell env artifact audience (sr_key r)" .
  have "1 \<le> sr_revision r" if "r \<in> set rows" for r
    using ok that by (auto simp: mem state_ok_def list_all_iff state_row_ok_def)
  then have "revision_of_row r = Inr (sr_revision r)" if "r \<in> set rows" for r
    using that by (force simp: revision_of_row_def)
  then show "service_list env db artifact audience =
      Inr (map (\<lambda>r. \<lparr> sk_key = sr_key r, sk_revision = sr_revision r, sk_updated_at = sr_updated_at r \<rparr>) rows)"
    by (simp add: service_list_def a state_list_def collect_results_Inr_iff result_simps flip: rows_def)
  have "inj_on cell_of (set (sd_rows db))" "distinct (sd_rows db)" using ok by (simp_all add: state_ok_def distinct_map)
  then have "inj_on sr_key (set rows)" by (auto simp: inj_on_def mem)
  moreover have "distinct rows" using \<open>distinct (sd_rows db)\<close> by (simp add: rows_def)
  ultimately show "distinct (map sr_key rows)" by (simp add: distinct_map)
  show "int (length rows) \<le> STATE_MAX_KEYS"
    using ok unfolding state_ok_def rows_def count_rows_def in_bucket_iff [abs_def] by simp
qed

lemma service_get_None:
  "service_get env db artifact key audience = Inr None \<longleftrightarrow>
     (\<forall>r \<in> set (sd_rows db). cell_of r \<noteq> state_cell env artifact audience key)"
  by (auto simp: service_get_cell find_None_iff result_simps split: option.splits sum.splits)
     (auto simp: find_Some_iff try_bind_def split: sum.splits)

text \<open>
  C34. In every state that writes, deletions and removals of artifacts lead to, the cells of an
  artifact are pairwise different, belong to an artifact that exists, keep the key alphabet, the
  size limit and a revision between 1 and the largest 64-bit integer, and name a viewer exactly in
  the viewer scope; and listing an audience never fails, gives at most 64 keys, each once, in
  ascending order, and they are exactly the keys for which a read finds something.
\<close>

theorem viewer_state_reachable_ok:
  assumes "state_reachable db"
  shows "distinct (map cell_of (sd_rows db)) \<and>
    list_all (\<lambda>r. sr_artifact_id r \<in> set (sd_artifacts db) \<and> valid_key (sr_key r) \<and> length (sr_value r) \<le> 262144 \<and>
       1 \<le> sr_revision r \<and> sr_revision r \<le> i64_max \<and> (sr_viewer r = [] \<longleftrightarrow> sr_scope r = Org)) (sd_rows db) \<and>
    (\<exists>ks. service_list env db artifact audience = Inr ks \<and> length ks \<le> 64 \<and> sorted (map sk_key ks) \<and>
       distinct (map sk_key ks) \<and>
       (\<forall>key. key \<in> set (map sk_key ks) \<longleftrightarrow> service_get env db artifact key audience \<noteq> Inr None))"
proof -
  have ok: "state_ok db" using assms by (rule state_reachable_ok)
  obtain scope viewer where a: "audience_parts audience = (scope, viewer)" by (cases "audience_parts audience")
  note l = listed_rows [OF ok a, where artifact = artifact and env = env]
  let ?rows = "sort_key sr_key (filter (in_bucket (am_id (authorized_meta artifact)) scope (state_owner env scope viewer)) (sd_rows db))"
  let ?ks = "map (\<lambda>r. \<lparr> sk_key = sr_key r, sk_revision = sr_revision r, sk_updated_at = sr_updated_at r \<rparr>) ?rows"
  have keys: "map sk_key ?ks = map sr_key ?rows" by simp
  have "key \<in> set (map sk_key ?ks) \<longleftrightarrow> service_get env db artifact key audience \<noteq> Inr None" for key
    unfolding keys service_get_None using l(4) by (auto simp: state_cell_def a cell_of_def)
  moreover have "sorted (map sk_key ?ks)" "distinct (map sk_key ?ks)" unfolding keys using l(2) by simp_all
  moreover have "length ?ks \<le> 64" using l(3) by (simp add: STATE_MAX_KEYS_def)
  ultimately have "\<exists>ks. service_list env db artifact audience = Inr ks \<and> length ks \<le> 64 \<and> sorted (map sk_key ks) \<and>
       distinct (map sk_key ks) \<and> (\<forall>key. key \<in> set (map sk_key ks) \<longleftrightarrow> service_get env db artifact key audience \<noteq> Inr None)"
    using l(1) by blast
  then show ?thesis using ok by (auto simp: state_ok_def state_row_ok_def [abs_def] list_all_iff STATE_MAX_VALUE_BYTES_def)
qed

theorem viewer_state_reachable_ok_witness:
  "\<exists>ks. service_list demo_state_env demo_state_db demo_state_artifact AudienceOrg = Inr ks \<and> length ks \<le> 64"
  using viewer_state_reachable_ok [OF demo_state_reachable, of demo_state_env demo_state_artifact AudienceOrg] by blast

end
