(* ===== verification/Share_Expiry.thy ===== *)
theory Share_Expiry
  imports Prelude "HOL-Library.Monad_Syntax"
begin

text \<open>
  The expiry of a public share: the first half of src/src/persistence/shares.rs, from the text a
  caller sends to the text that is stored.

  The calendar (the crate \<open>time\<close>: \<open>Date::from_calendar_date\<close> with \<open>to_julian_day\<close>, and
  \<open>Date::from_julian_day\<close> with its fields) is the parameter \<open>cal\<close>; \<open>calendar_laws\<close> says what the code
  relies on. A cursor into the bytes is a number, as in the code; every fallible step is an option.
\<close>

section \<open>Calendar\<close>

record calendar =
  cal_from_date :: "int \<Rightarrow> int \<Rightarrow> int \<Rightarrow> int option"
  cal_from_julian :: "int \<Rightarrow> (int \<times> int \<times> int) option"

definition UNIX_EPOCH_JULIAN_DAY :: int where "UNIX_EPOCH_JULIAN_DAY = 2440588"
definition MILLIS_PER_DAY :: int where "MILLIS_PER_DAY = 86400000"
definition TWENTY_FOUR_HOURS_MILLIS :: int where "TWENTY_FOUR_HOURS_MILLIS = 24 * 60 * 60 * 1000"

text \<open>
  A day has a month and a day of the month in range; the first of its month lies as many days
  before it as its day says; from the Unix epoch on the year has four digits.
\<close>

definition calendar_laws :: "calendar \<Rightarrow> bool" where
  "calendar_laws cal \<longleftrightarrow> (\<forall>j y m d. cal_from_julian cal j = Some (y, m, d) \<longrightarrow>
     1 \<le> m \<and> m \<le> 12 \<and> 1 \<le> d \<and> d \<le> 31 \<and> cal_from_date cal y m 1 = Some (j - (d - 1)) \<and>
     (UNIX_EPOCH_JULIAN_DAY \<le> j \<longrightarrow> 1970 \<le> y \<and> y \<le> 9999))"

section \<open>Shape\<close>

record IsoOffset =
  io_negative :: bool
  io_hours :: int
  io_minutes :: int

record IsoShape =
  is_year :: int
  is_month :: int
  is_day :: int
  is_hour :: int
  is_minute :: int
  is_second :: int
  is_millisecond :: int
  is_offset :: "IsoOffset option"
  is_date_only :: bool

definition u32_max :: int where "u32_max = 4294967295"
definition i32_max :: int where "i32_max = 2147483647"
definition i32_min :: int where "i32_min = -2147483648"

definition digit_of :: "char \<Rightarrow> int" where "digit_of b = int (digit_value b)"

fun fold_u32 :: "int \<Rightarrow> string \<Rightarrow> int option" where
  "fold_u32 acc [] = Some acc"
| "fold_u32 acc (b # bs) =
     (if u32_max < acc * 10 \<or> u32_max < acc * 10 + digit_of b then None
      else fold_u32 (acc * 10 + digit_of b) bs)"

definition take_digits :: "string \<Rightarrow> nat \<Rightarrow> nat \<Rightarrow> (int \<times> nat) option" where
  "take_digits bytes cursor count =
     (if length bytes < cursor + count then None
      else let slice = take count (drop cursor bytes) in
        if \<not> list_all is_ascii_digit slice then None
        else map_option (\<lambda>n. (n, cursor + count)) (fold_u32 0 slice))"

definition byte_at :: "string \<Rightarrow> nat \<Rightarrow> char option" where
  "byte_at bytes cursor = (if cursor < length bytes then Some (bytes ! cursor) else None)"

definition expect :: "string \<Rightarrow> nat \<Rightarrow> char \<Rightarrow> nat option" where
  "expect bytes cursor wanted = (if byte_at bytes cursor = Some wanted then Some (cursor + 1) else None)"

definition take_fraction :: "string \<Rightarrow> nat \<Rightarrow> (int \<times> nat) option" where
  "take_fraction bytes cursor =
     (let run = takeWhile is_ascii_digit (take 3 (drop cursor bytes)) in
      if run = [] then None
      else Some (foldl (\<lambda>millis i. millis * 10 + (if i < length run then digit_of (run ! i) else 0)) 0 [0, 1, 2],
                 cursor + length run))"

definition to_u8 :: "int \<Rightarrow> int option" where
  "to_u8 n = (if n \<le> 255 then Some n else None)"

definition parse_seconds :: "string \<Rightarrow> nat \<Rightarrow> (int \<times> int \<times> nat) option" where
  "parse_seconds bytes c =
     (if byte_at bytes c = Some (CHR '':'') then do {
        (s, c) \<leftarrow> take_digits bytes (c + 1) 2;
        second \<leftarrow> to_u8 s;
        if byte_at bytes c = Some (CHR ''.'') then do {
          (millisecond, c) \<leftarrow> take_fraction bytes (c + 1);
          Some (second, millisecond, c)
        } else Some (second, 0, c)
      } else Some (0, 0, c))"

definition parse_offset :: "string \<Rightarrow> nat \<Rightarrow> IsoOffset option option" where
  "parse_offset bytes c =
     (case byte_at bytes c of
        None \<Rightarrow> Some None
      | Some b \<Rightarrow>
          if b = CHR ''Z'' then
            (if c + 1 = length bytes then Some (Some \<lparr> io_negative = False, io_hours = 0, io_minutes = 0 \<rparr>) else None)
          else if b = CHR ''+'' \<or> b = CHR ''-'' then do {
            (hours, c) \<leftarrow> take_digits bytes (c + 1) 2;
            (minutes, c) \<leftarrow> take_digits bytes (if byte_at bytes c = Some (CHR '':'') then c + 1 else c) 2;
            if c \<noteq> length bytes then None
            else do {
              hours \<leftarrow> to_u8 hours;
              minutes \<leftarrow> to_u8 minutes;
              Some (Some \<lparr> io_negative = (b = CHR ''-''), io_hours = hours, io_minutes = minutes \<rparr>)
            }
          } else None)"

definition parse_iso_shape :: "string \<Rightarrow> IsoShape option" where
  "parse_iso_shape bytes = do {
     (year, c) \<leftarrow> take_digits bytes 0 4;
     c \<leftarrow> expect bytes c (CHR ''-'');
     (month, c) \<leftarrow> take_digits bytes c 2;
     c \<leftarrow> expect bytes c (CHR ''-'');
     (day, c) \<leftarrow> take_digits bytes c 2;
     month \<leftarrow> to_u8 month;
     day \<leftarrow> to_u8 day;
     if i32_max < year then None
     else if c = length bytes then
       Some \<lparr> is_year = year, is_month = month, is_day = day, is_hour = 0, is_minute = 0, is_second = 0,
              is_millisecond = 0, is_offset = None, is_date_only = True \<rparr>
     else do {
       c \<leftarrow> expect bytes c (CHR ''T'');
       (h, c) \<leftarrow> take_digits bytes c 2;
       hour \<leftarrow> to_u8 h;
       c \<leftarrow> expect bytes c (CHR '':'');
       (m, c) \<leftarrow> take_digits bytes c 2;
       minute \<leftarrow> to_u8 m;
       (second, millisecond, c) \<leftarrow> parse_seconds bytes c;
       offset \<leftarrow> parse_offset bytes c;
       Some \<lparr> is_year = year, is_month = month, is_day = day, is_hour = hour, is_minute = minute, is_second = second,
              is_millisecond = millisecond, is_offset = offset, is_date_only = False \<rparr>
     }
   }"

section \<open>Instants\<close>

definition checked_i64 :: "int \<Rightarrow> int option" where
  "checked_i64 n = (if in_i64 n then Some n else None)"

definition offset_minutes :: "IsoOffset option \<Rightarrow> int option" where
  "offset_minutes off =
     (case off of
        None \<Rightarrow> Some 0
      | Some z \<Rightarrow>
          if 23 < io_hours z \<or> 59 < io_minutes z then None
          else let total = io_hours z * 60 + io_minutes z in Some (if io_negative z then - total else total))"

definition to_unix_millis :: "calendar \<Rightarrow> IsoShape \<Rightarrow> int option" where
  "to_unix_millis cal s =
     (if \<not> (1 \<le> is_month s \<and> is_month s \<le> 12) \<or> \<not> (1 \<le> is_day s \<and> is_day s \<le> 31) then None
      else if 24 < is_hour s
        \<or> is_hour s = 24 \<and> (0 < is_minute s \<or> 0 < is_second s \<or> 0 < is_millisecond s)
        \<or> 59 < is_minute s \<or> 59 < is_second s then None
      else do {
        off \<leftarrow> offset_minutes (is_offset s);
        first \<leftarrow> cal_from_date cal (is_year s) (is_month s) 1;
        days \<leftarrow> checked_i64 (first - UNIX_EPOCH_JULIAN_DAY + (is_day s - 1));
        midnight \<leftarrow> checked_i64 (days * MILLIS_PER_DAY);
        t \<leftarrow> checked_i64 (midnight + (is_hour s * 3600000 + is_minute s * 60000 + is_second s * 1000 + is_millisecond s));
        shift \<leftarrow> checked_i64 (off * 60000);
        checked_i64 (t - shift)
      })"

definition padded :: "nat \<Rightarrow> int \<Rightarrow> string" where
  "padded w n =
     (if n < 0 then CHR ''-'' # replicate (w - 1 - length (show_nat (nat (- n)))) (CHR ''0'') @ show_nat (nat (- n))
      else replicate (w - length (show_nat (nat n))) (CHR ''0'') @ show_nat (nat n))"

text \<open>\<open>div_euclid\<close> and \<open>rem_euclid\<close> by a positive number are \<open>div\<close> and \<open>mod\<close>.\<close>

definition render_iso :: "calendar \<Rightarrow> int \<Rightarrow> string result" where
  "render_iso cal millis =
     (let days = millis div MILLIS_PER_DAY;
          within_day = millis mod MILLIS_PER_DAY;
          julian = days + UNIX_EPOCH_JULIAN_DAY
      in if days < i32_min \<or> i32_max < days \<or> i32_max < julian then Inl Internal
         else case cal_from_julian cal julian of
           None \<Rightarrow> Inl Internal
         | Some (y, m, d) \<Rightarrow>
             Inr (padded 4 y @ ''-'' @ padded 2 m @ ''-'' @ padded 2 d @ ''T'' @ padded 2 (within_day div 3600000) @ '':''
                  @ padded 2 (within_day div 60000 mod 60) @ '':'' @ padded 2 (within_day div 1000 mod 60) @ ''.''
                  @ padded 3 (within_day mod 1000) @ ''Z''))"

definition EXPIRES_FORMAT_MESSAGE :: string where
  "EXPIRES_FORMAT_MESSAGE = ''expires must be '' @ [CHR 0x27] @ ''24h'' @ [CHR 0x27] @ '', '' @ [CHR 0x27] @ ''never'' @ [CHR 0x27] @ '', or a future ISO date''"
definition EXPIRES_FUTURE_MESSAGE :: string where
  "EXPIRES_FUTURE_MESSAGE = ''expires must be a valid future ISO date''"
definition EXPIRES_CALENDAR_MESSAGE :: string where
  "EXPIRES_CALENDAR_MESSAGE = ''expires is not a real calendar date''"

definition expiry_for :: "calendar \<Rightarrow> int \<Rightarrow> string \<Rightarrow> string option result" where
  "expiry_for cal now expires =
     (if expires = ''24h'' then
        (case checked_i64 (now + TWENTY_FOUR_HOURS_MILLIS) of
           None \<Rightarrow> Inl Internal
         | Some millis \<Rightarrow> try_bind (render_iso cal millis) (\<lambda>r. Inr (Some r)))
      else if expires = ''never'' then Inr None
      else case parse_iso_shape expires of
        None \<Rightarrow> Inl (Validation EXPIRES_FORMAT_MESSAGE)
      | Some parsed \<Rightarrow>
          (case to_unix_millis cal parsed of
             None \<Rightarrow> Inl (Validation EXPIRES_FUTURE_MESSAGE)
           | Some millis \<Rightarrow>
               if \<not> now < millis then Inl (Validation EXPIRES_FUTURE_MESSAGE)
               else try_bind (render_iso cal millis) (\<lambda>rendered.
                 if is_date_only parsed \<and> take 10 rendered \<noteq> expires then Inl (Validation EXPIRES_CALENDAR_MESSAGE)
                 else Inr (Some rendered))))"

section \<open>Digits\<close>

lemma fold_u32_value:
  assumes "list_all is_ascii_digit ds" and "0 \<le> acc" and "acc < 10 ^ k" and "k + length ds \<le> 9"
  shows "fold_u32 acc ds = Some (int (read_nat_acc (nat acc) ds))"
  using assms
proof (induction ds arbitrary: acc k)
  case (Cons b bs)
  have b: "0 \<le> digit_of b" "digit_of b \<le> 9"
    using Cons.prems(1) by (auto simp: digit_of_def digit_value_def is_ascii_digit_def)
  have lt: "acc * 10 + digit_of b < 10 ^ Suc k" using Cons.prems(3) b(2) by simp
  have "(10 :: int) ^ Suc k \<le> 10 ^ 9" using Cons.prems(4) by (intro power_increasing) auto
  then have "acc * 10 + digit_of b \<le> u32_max" using lt by (simp add: u32_max_def)
  moreover from this have "acc * 10 \<le> u32_max" using b by linarith
  moreover have "nat (acc * 10 + digit_of b) = 10 * nat acc + digit_value b"
    using Cons.prems(2) by (simp add: digit_of_def nat_add_distrib nat_mult_distrib)
  moreover have "fold_u32 (acc * 10 + digit_of b) bs = Some (int (read_nat_acc (nat (acc * 10 + digit_of b)) bs))"
    using Cons.prems lt b by (intro Cons.IH [of _ "Suc k"]) auto
  ultimately show ?case by simp
qed simp

lemma length_show_nat: "0 < w \<Longrightarrow> n < 10 ^ w \<Longrightarrow> length (show_nat n) \<le> w"
proof (induction n arbitrary: w rule: show_nat.induct)
  case (1 n)
  show ?case
  proof (cases "n < 10")
    case True
    then show ?thesis using 1(2) by (simp add: show_nat.simps [of n])
  next
    case False
    then obtain v where w: "w = Suc v" "0 < v" using 1(2,3) by (cases w; cases "w - 1") auto
    then have "n div 10 < 10 ^ v" using 1(3) by (simp add: div_less_iff_less_mult mult.commute)
    then have "length (show_nat (n div 10)) \<le> v" using 1(1) False w by blast
    then show ?thesis using False w by (simp add: show_nat.simps [of n])
  qed
qed

lemma read_zeros: "read_nat_acc 0 (replicate k (CHR ''0'') @ s) = read_nat_acc 0 s"
  by (induction k) (simp_all add: digit_value_def byte_def)

lemma padded_digits:
  assumes "0 < w" and "w \<le> 9" and "0 \<le> n" and "n < 10 ^ w"
  shows "length (padded w n) = w" and "list_all is_ascii_digit (padded w n)" and "fold_u32 0 (padded w n) = Some n"
proof -
  have "nat n < 10 ^ w" using assms(3,4) by (metis nat_less_numeral_power_cancel_iff)
  from length_show_nat [OF assms(1) this] show l: "length (padded w n) = w" using assms(3) by (simp add: padded_def)
  show d: "list_all is_ascii_digit (padded w n)"
    using assms(3) by (auto simp: padded_def list_all_iff is_ascii_digit_def byte_def dest: show_nat_digits)
  have "read_nat_acc 0 (padded w n) = nat n" using assms(3) by (simp add: padded_def read_zeros read_show_nat)
  then show "fold_u32 0 (padded w n) = Some n"
    using fold_u32_value [OF d, of 0 0] l assms(2,3) by simp
qed

lemma take_digits_at:
  assumes "length pre = c" and "length ds = w" and "list_all is_ascii_digit ds" and "fold_u32 0 ds = Some n"
  shows "take_digits (pre @ ds @ post) c w = Some (n, c + w)"
  using assms by (simp add: take_digits_def Let_def)

lemma expect_at: "length pre = c \<Longrightarrow> expect (pre @ b # post) c b = Some (c + 1)"
  by (simp add: expect_def byte_at_def nth_append)

lemma byte_at_at: "length pre = c \<Longrightarrow> byte_at (pre @ b # post) c = Some b"
  by (simp add: byte_at_def nth_append)

lemma take_fraction_at:
  assumes "length pre = c" and "length ds = 3" and "list_all is_ascii_digit ds" and "fold_u32 0 ds = Some n"
  shows "take_fraction (pre @ ds @ post) c = Some (n, c + 3)"
proof -
  obtain a b d where ds: "ds = [a, b, d]" using assms(2) by (auto simp: numeral_3_eq_3 length_Suc_conv)
  then show ?thesis using assms
    by (auto simp: take_fraction_def Let_def split: if_splits)
qed

definition digits :: "nat \<Rightarrow> int \<Rightarrow> string \<Rightarrow> bool" where
  "digits w n ds \<longleftrightarrow> length ds = w \<and> list_all is_ascii_digit ds \<and> fold_u32 0 ds = Some n"

lemma parse_rendered:
  assumes "digits 4 y Y" "digits 2 m M" "digits 2 d D" "digits 2 h H" "digits 2 i I" "digits 2 s S" "digits 3 k K"
    and "y \<le> i32_max" "m \<le> 255" "d \<le> 255" "h \<le> 255" "i \<le> 255" "s \<le> 255"
  shows "parse_iso_shape (Y @ ''-'' @ M @ ''-'' @ D @ ''T'' @ H @ '':'' @ I @ '':'' @ S @ ''.'' @ K @ ''Z'') =
    Some \<lparr> is_year = y, is_month = m, is_day = d, is_hour = h, is_minute = i, is_second = s, is_millisecond = k,
           is_offset = Some \<lparr> io_negative = False, io_hours = 0, io_minutes = 0 \<rparr>, is_date_only = False \<rparr>"
    (is "parse_iso_shape ?b = _")
proof -
  note d = assms(1-7) [unfolded digits_def]
  have "take_digits ?b 0 4 = Some (y, 4)" using take_digits_at [of "[]" 0 Y 4] d by simp
  moreover have "expect ?b 4 (CHR ''-'') = Some 5" using expect_at [of Y 4] d by simp
  moreover have "take_digits ?b 5 2 = Some (m, 7)" using take_digits_at [of "Y @ ''-''" 5 M 2] d by simp
  moreover have "expect ?b 7 (CHR ''-'') = Some 8" using expect_at [of "Y @ ''-'' @ M" 7] d by simp
  moreover have "take_digits ?b 8 2 = Some (d, 10)" using take_digits_at [of "Y @ ''-'' @ M @ ''-''" 8 D 2] d by simp
  moreover have "length ?b = 24" using d by simp
  moreover have "expect ?b 10 (CHR ''T'') = Some 11" using expect_at [of "Y @ ''-'' @ M @ ''-'' @ D" 10] d by simp
  moreover have "take_digits ?b 11 2 = Some (h, 13)" using take_digits_at [of "Y @ ''-'' @ M @ ''-'' @ D @ ''T''" 11 H 2] d by simp
  moreover have "expect ?b 13 (CHR '':'') = Some 14" using expect_at [of "Y @ ''-'' @ M @ ''-'' @ D @ ''T'' @ H" 13] d by simp
  moreover have "take_digits ?b 14 2 = Some (i, 16)"
    using take_digits_at [of "Y @ ''-'' @ M @ ''-'' @ D @ ''T'' @ H @ '':''" 14 I 2] d by simp
  moreover have "byte_at ?b 16 = Some (CHR '':'')" using byte_at_at [of "Y @ ''-'' @ M @ ''-'' @ D @ ''T'' @ H @ '':'' @ I" 16] d by simp
  moreover have "take_digits ?b 17 2 = Some (s, 19)"
    using take_digits_at [of "Y @ ''-'' @ M @ ''-'' @ D @ ''T'' @ H @ '':'' @ I @ '':''" 17 S 2] d by simp
  moreover have "byte_at ?b 19 = Some (CHR ''.'')"
    using byte_at_at [of "Y @ ''-'' @ M @ ''-'' @ D @ ''T'' @ H @ '':'' @ I @ '':'' @ S" 19] d by simp
  moreover have "take_fraction ?b 20 = Some (k, 23)"
    using take_fraction_at [of "Y @ ''-'' @ M @ ''-'' @ D @ ''T'' @ H @ '':'' @ I @ '':'' @ S @ ''.''" 20 K] d by simp
  moreover have "byte_at ?b 23 = Some (CHR ''Z'')"
    using byte_at_at [of "Y @ ''-'' @ M @ ''-'' @ D @ ''T'' @ H @ '':'' @ I @ '':'' @ S @ ''.'' @ K" 23 "CHR ''Z''" "[]"] d by simp
  ultimately show ?thesis
    using assms(8-13) unfolding parse_iso_shape_def parse_seconds_def parse_offset_def by (simp add: to_u8_def)
qed

lemma padded_ok: "0 < w \<Longrightarrow> w \<le> 9 \<Longrightarrow> 0 \<le> n \<Longrightarrow> n < 10 ^ w \<Longrightarrow> digits w n (padded w n)"
  using padded_digits by (simp add: digits_def)

lemma day_split:
  assumes "0 \<le> t" and "t < 86400000"
  shows "t div 3600000 * 3600000 + t div 60000 mod 60 * 60000 + t div 1000 mod 60 * 1000 + t mod 1000 = (t :: int)"
    and "t div 3600000 < 24"
proof -
  let ?s = "t div 1000"
  have m: "t div 60000 = ?s div 60" "t div 3600000 = ?s div 60 div 60" by (simp_all add: zdiv_zmult2_eq [symmetric])
  have "?s * 1000 + t mod 1000 = t" "?s div 60 * 60 + ?s mod 60 = ?s" "?s div 60 div 60 * 60 + ?s div 60 mod 60 = ?s div 60"
    by (rule div_mult_mod_eq)+
  then show "t div 3600000 * 3600000 + t div 60000 mod 60 * 60000 + t div 1000 mod 60 * 1000 + t mod 1000 = t"
    unfolding m by linarith
  show "t div 3600000 < 24" using assms by (simp add: div_less_iff_less_mult)
qed

lemma utc_millis:
  assumes "1 \<le> m" "m \<le> 12" "1 \<le> d" "d \<le> 31" "h \<le> 23" "i \<le> 59" "s \<le> 59"
    and "cal_from_date cal y m 1 = Some f" and "f - UNIX_EPOCH_JULIAN_DAY + (d - 1) = n"
    and "in_i64 n" "in_i64 (n * MILLIS_PER_DAY)" "n * MILLIS_PER_DAY + (h * 3600000 + i * 60000 + s * 1000 + k) = v" "in_i64 v"
  shows "to_unix_millis cal \<lparr>is_year = y, is_month = m, is_day = d, is_hour = h, is_minute = i, is_second = s, is_millisecond = k,
    is_offset = Some \<lparr>io_negative = False, io_hours = 0, io_minutes = 0\<rparr>, is_date_only = b\<rparr> = Some v"
  using assms by (simp add: to_unix_millis_def offset_minutes_def checked_i64_def) (simp add: in_i64_def i64_max_def i64_min_def)

lemma render_round:
  assumes laws: "calendar_laws cal" and render: "render_iso cal millis = Inr r" and "0 \<le> millis" "in_i64 millis"
  obtains s where "parse_iso_shape r = Some s" "to_unix_millis cal s = Some millis" "\<not> is_date_only s" "length r = 24"
proof -
  let ?t = "millis mod MILLIS_PER_DAY"
  let ?j = "millis div MILLIS_PER_DAY + UNIX_EPOCH_JULIAN_DAY"
  obtain y m d where j: "cal_from_julian cal ?j = Some (y, m, d)"
    and r: "r = padded 4 y @ ''-'' @ padded 2 m @ ''-'' @ padded 2 d @ ''T'' @ padded 2 (?t div 3600000) @ '':''
      @ padded 2 (?t div 60000 mod 60) @ '':'' @ padded 2 (?t div 1000 mod 60) @ ''.'' @ padded 3 (?t mod 1000) @ ''Z''"
    using render by (auto simp: render_iso_def Let_def split: if_splits option.splits)
  have "UNIX_EPOCH_JULIAN_DAY \<le> ?j" using assms(3) by (simp add: MILLIS_PER_DAY_def pos_imp_zdiv_nonneg_iff)
  with laws j have l: "1 \<le> m" "m \<le> 12" "1 \<le> d" "d \<le> 31" "cal_from_date cal y m 1 = Some (?j - (d - 1))" "1970 \<le> y" "y \<le> 9999"
    unfolding calendar_laws_def by blast+
  have t: "0 \<le> ?t" "?t < 86400000" by (simp_all add: MILLIS_PER_DAY_def)
  note split = day_split [OF t]
  have fields: "digits 4 y (padded 4 y)" "digits 2 m (padded 2 m)" "digits 2 d (padded 2 d)"
    "digits 2 (?t div 3600000) (padded 2 (?t div 3600000))"
    "digits 2 (?t div 60000 mod 60) (padded 2 (?t div 60000 mod 60))"
    "digits 2 (?t div 1000 mod 60) (padded 2 (?t div 1000 mod 60))" "digits 3 (?t mod 1000) (padded 3 (?t mod 1000))"
    using l t split(2) by (auto intro!: padded_ok simp: pos_imp_zdiv_nonneg_iff order.strict_trans [OF pos_mod_bound])
  have small: "y \<le> i32_max" "m \<le> 255" "d \<le> 255" "?t div 3600000 \<le> 255" "?t div 60000 mod 60 \<le> 255" "?t div 1000 mod 60 \<le> 255"
    using l split(2) by (auto simp: i32_max_def intro: order_trans [OF less_imp_le [OF pos_mod_bound]])
  note parsed = parse_rendered [OF fields small, folded r]
  have day: "millis div MILLIS_PER_DAY * MILLIS_PER_DAY + ?t = millis" by (simp add: mult.commute)
  have nonneg: "0 \<le> millis div MILLIS_PER_DAY" using assms(3) by (simp add: MILLIS_PER_DAY_def pos_imp_zdiv_nonneg_iff)
  have in_range: "in_i64 (millis div MILLIS_PER_DAY)" "in_i64 (millis div MILLIS_PER_DAY * MILLIS_PER_DAY)"
    using nonneg assms(3,4) t day unfolding MILLIS_PER_DAY_def i64_defs by linarith+
  show thesis
  proof (rule that [OF parsed])
    show "length r = 24" using fields by (simp add: r digits_def)
    have "?j - (d - 1) - UNIX_EPOCH_JULIAN_DAY + (d - 1) = millis div MILLIS_PER_DAY" by simp
    moreover have "millis div MILLIS_PER_DAY * MILLIS_PER_DAY +
        (?t div 3600000 * 3600000 + ?t div 60000 mod 60 * 60000 + ?t div 1000 mod 60 * 1000 + ?t mod 1000) = millis"
      using split(1) day by simp
    moreover have "?t div 60000 mod 60 \<le> 59" "?t div 1000 mod 60 \<le> 59" "?t div 3600000 \<le> 23"
      using split(2) pos_mod_bound [of 60 "?t div 60000"] pos_mod_bound [of 60 "?t div 1000"] by linarith+
    ultimately show "to_unix_millis cal \<lparr>is_year = y, is_month = m, is_day = d, is_hour = ?t div 3600000,
        is_minute = ?t div 60000 mod 60, is_second = ?t div 1000 mod 60, is_millisecond = ?t mod 1000,
        is_offset = Some \<lparr>io_negative = False, io_hours = 0, io_minutes = 0\<rparr>, is_date_only = False\<rparr> = Some millis"
      using l(1-5) in_range assms(4) by (intro utc_millis)
  qed simp
qed

section \<open>What an accepted expiry means\<close>

definition january_2026 :: calendar where
  "january_2026 =
     \<lparr> cal_from_date = (\<lambda>y m d. if y = 2026 \<and> m = 1 \<and> 1 \<le> d \<and> d \<le> 31 then Some (2461041 + d) else None),
       cal_from_julian = (\<lambda>j. if 2461042 \<le> j \<and> j \<le> 2461072 then Some (2026, 1, j - 2461041) else None) \<rparr>"

lemma january_2026_laws: "calendar_laws january_2026"
  by (auto simp: calendar_laws_def january_2026_def split: if_splits)

lemma expiry_cases:
  assumes "expiry_for cal now expires = Inr (Some r)"
  obtains (day) "expires = ''24h''" "in_i64 (now + 86400000)" "render_iso cal (now + 86400000) = Inr r"
    | (iso) s millis where "expires \<noteq> ''24h''" "expires \<noteq> ''never''" "parse_iso_shape expires = Some s"
      "to_unix_millis cal s = Some millis" "now < millis" "render_iso cal millis = Inr r" "is_date_only s \<longrightarrow> take 10 r = expires"
  using assms
  by (auto simp: expiry_for_def checked_i64_def TWENTY_FOUR_HOURS_MILLIS_def result_simps
      split: if_splits option.splits)

lemma to_unix_millis_range: "to_unix_millis cal s = Some n \<Longrightarrow> in_i64 n"
  by (auto simp: to_unix_millis_def checked_i64_def bind_eq_Some_conv split: if_splits)

text \<open>
  C25. An expiry that is accepted is stored exactly and lies in the future: the stored text is the
  24-byte UTC form of the instant the caller asked for (a day from now, or the instant of its own
  text), it parses back to that instant, that instant is after now, a date without a time is stored
  as that very day and never rolled into the next month, and asking again with the stored text
  gives the stored text. (With a time, a day of the month past the month's end does roll over: it
  is part of the instant the text denotes.)
\<close>

theorem expiry_is_exact:
  assumes "calendar_laws cal" and "0 \<le> now" and "expiry_for cal now expires = Inr (Some r)"
  shows "\<exists>s millis. parse_iso_shape r = Some s \<and> to_unix_millis cal s = Some millis \<and> now < millis \<and> length r = 24 \<and>
    (if expires = ''24h'' then millis = now + 86400000
     else \<exists>s'. parse_iso_shape expires = Some s' \<and> to_unix_millis cal s' = Some millis \<and>
            (is_date_only s' \<longrightarrow> take 10 r = expires)) \<and>
    expiry_for cal now r = Inr (Some r)"
proof -
  obtain millis where m: "now < millis" "in_i64 millis" "render_iso cal millis = Inr r" and
    ask: "if expires = ''24h'' then millis = now + 86400000
     else \<exists>s'. parse_iso_shape expires = Some s' \<and> to_unix_millis cal s' = Some millis \<and>
            (is_date_only s' \<longrightarrow> take 10 r = expires)"
    using assms(3)
  proof (cases rule: expiry_cases)
    case day
    show ?thesis by (rule that [of "now + 86400000"]) (use day in auto)
  next
    case (iso s millis)
    show ?thesis by (rule that [of millis]) (use iso to_unix_millis_range in auto)
  qed
  from m(1) assms(2) have "0 \<le> millis" by simp
  then obtain s where s: "parse_iso_shape r = Some s" "to_unix_millis cal s = Some millis" "\<not> is_date_only s" "length r = 24"
    using render_round [OF assms(1) m(3) _ m(2)] by blast
  have "r \<noteq> ''24h''" "r \<noteq> ''never''" using s(4) by auto
  then have "expiry_for cal now r = Inr (Some r)" using s m by (simp add: expiry_for_def result_simps)
  then show ?thesis using s m ask by blast
qed

theorem expiry_is_exact_witness:
  "expiry_for january_2026 1767225600000 ''2026-01-10'' = Inr (Some ''2026-01-10T00:00:00.000Z'') \<and>
   expiry_for january_2026 1767225600000 ''2026-01-10T00:00:00.000Z'' = Inr (Some ''2026-01-10T00:00:00.000Z'')"
proof -
  have e: "expiry_for january_2026 1767225600000 ''2026-01-10'' = Inr (Some ''2026-01-10T00:00:00.000Z'')"
    by code_simp
  with expiry_is_exact [OF january_2026_laws _ e] show ?thesis by auto
qed

end
