(* ===== verification/Shares.thy ===== *)
theory Shares
  imports Audit_Query Share_Expiry
begin

text \<open>
  Public share links: the table and the operations of src/src/persistence/shares.rs.

  The table \<open>artifact_shares\<close> is a list of rows with the token as primary key; its foreign key
  \<open>(artifact_id, org)\<close> refers to the pairs of \<open>shd_artifacts\<close>. SQLite's \<open>julianday\<close> of a text is the
  parameter \<open>jd\<close>, in milliseconds of Unix time, and \<open>None\<close> where SQLite gives NULL. The audit ledger is the
  one of Audit_Ledger; an operation and its audit event share one transaction.
\<close>

section \<open>The table\<close>

record ShareRow =
  sh_token :: string
  sh_artifact_id :: string
  sh_org :: string
  sh_created_by :: string
  sh_created_at :: string
  sh_expires_at :: "string option"
  sh_revoked_at :: "string option"

record share_db =
  shd_artifacts :: "(string \<times> string) list"
  shd_rows :: "ShareRow list"

record CreateShare =
  cs_created_by :: string
  cs_expires :: string

record PublicShare =
  ps_token :: string
  ps_expires_at :: "string option"
  ps_created_at :: "string option"
  ps_created_by :: "string option"

definition share_failed :: AppError where
  "share_failed = Unavailable ''database unavailable''"

definition share_live :: "(string \<Rightarrow> int option) \<Rightarrow> int \<Rightarrow> ShareRow \<Rightarrow> bool" where
  "share_live jd now r \<longleftrightarrow> sh_revoked_at r = None \<and>
     (case sh_expires_at r of
        None \<Rightarrow> True
      | Some e \<Rightarrow> (case jd e of None \<Rightarrow> False | Some t \<Rightarrow> now < t))"

section \<open>Operations\<close>

definition share_create ::
    "calendar \<Rightarrow> int \<Rightarrow> string \<Rightarrow> string result \<Rightarrow> string \<Rightarrow> string \<Rightarrow> CreateShare \<Rightarrow> share_db \<Rightarrow>
     (PublicShare \<times> share_db) result" where
  "share_create cal clock now share_token aid org request db =
     try_bind (expiry_for cal clock (cs_expires request)) (\<lambda>expires_at.
     try_bind share_token (\<lambda>token.
       if token \<in> set (map sh_token (shd_rows db)) \<or> (aid, org) \<notin> set (shd_artifacts db) then Inl share_failed
       else Inr
         (\<lparr> ps_token = token, ps_expires_at = expires_at, ps_created_at = None, ps_created_by = None \<rparr>,
          db\<lparr>shd_rows := shd_rows db @
            [\<lparr> sh_token = token, sh_artifact_id = aid, sh_org = org, sh_created_by = cs_created_by request,
               sh_created_at = now, sh_expires_at = expires_at, sh_revoked_at = None \<rparr>]\<rparr>)))"

definition share_resolve :: "(string \<Rightarrow> int option) \<Rightarrow> int \<Rightarrow> share_db \<Rightarrow> string \<Rightarrow> ShareGrant option" where
  "share_resolve jd now db token =
     map_option (\<lambda>r. \<lparr> sg_artifact_id = sh_artifact_id r, sg_org = sh_org r \<rparr>)
       (List.find (\<lambda>r. sh_token r = token \<and> share_live jd now r \<and> (sh_artifact_id r, sh_org r) \<in> set (shd_artifacts db))
         (shd_rows db))"

text \<open>Newest first, the token breaking ties: a stable sort by each column in turn, read backwards.\<close>

definition share_list :: "(string \<Rightarrow> int option) \<Rightarrow> int \<Rightarrow> share_db \<Rightarrow> string \<Rightarrow> PublicShare list" where
  "share_list jd now db aid =
     map (\<lambda>r. \<lparr> ps_token = sh_token r, ps_expires_at = sh_expires_at r, ps_created_at = Some (sh_created_at r),
               ps_created_by = Some (sh_created_by r) \<rparr>)
       (rev (sort_key sh_created_at (sort_key sh_token
         (filter (\<lambda>r. sh_artifact_id r = aid \<and> share_live jd now r) (shd_rows db)))))"

definition revocable :: "string \<Rightarrow> string \<Rightarrow> ShareRow \<Rightarrow> bool" where
  "revocable aid token r \<longleftrightarrow> sh_artifact_id r = aid \<and> sh_token r = token \<and> sh_revoked_at r = None"

definition share_revoke :: "string \<Rightarrow> string \<Rightarrow> string \<Rightarrow> share_db \<Rightarrow> bool \<times> share_db" where
  "share_revoke now aid token db =
     (list_ex (revocable aid token) (shd_rows db),
      db\<lparr>shd_rows := sql_update (revocable aid token) (\<lambda>r. r\<lparr>sh_revoked_at := Some now\<rparr>) (shd_rows db)\<rparr>)"

definition revoke_all_for_artifact :: "string \<Rightarrow> share_db \<Rightarrow> int \<times> share_db" where
  "revoke_all_for_artifact aid db =
     (count_rows (\<lambda>r. sh_artifact_id r = aid) (shd_rows db),
      db\<lparr>shd_rows := sql_delete (\<lambda>r. sh_artifact_id r = aid) (shd_rows db)\<rparr>)"

definition share_event :: "string \<Rightarrow> string \<Rightarrow> string \<Rightarrow> AuditEvent" where
  "share_event operation aid classification =
     \<lparr> ae_operation = operation, ae_target_type = ''artifact'', ae_target_id = aid, ae_result = ''success'',
       ae_classification = classification, ae_revision = None \<rparr>"

definition create_audited ::
    "(bytes \<Rightarrow> string) \<Rightarrow> (bytes \<Rightarrow> string) \<Rightarrow> calendar \<Rightarrow> int \<Rightarrow> string \<Rightarrow> string result \<Rightarrow> string \<Rightarrow> AuthorizedArtifact \<Rightarrow>
     CreateShare \<Rightarrow> MutationAudit \<Rightarrow> share_db \<Rightarrow> ledger \<Rightarrow> (PublicShare \<times> share_db \<times> ledger) result" where
  "create_audited mac sha cal clock now share_token event_id artifact request mutation db l =
     (let meta = authorized_meta artifact in
      try_bind (for_target_tenant mutation (am_org meta)) (\<lambda>audit.
        mutate_in_transaction mac sha audit event_id now
          (\<lambda>db. try_bind (share_create cal clock now share_token (am_id meta) (am_org meta) request db) (\<lambda>(share, db').
             Inr ((share, share_event ''share.create'' (am_id meta) ''public_share_created''), db'))) db l))"

definition revoke_audited ::
    "(bytes \<Rightarrow> string) \<Rightarrow> (bytes \<Rightarrow> string) \<Rightarrow> string \<Rightarrow> string result \<Rightarrow> AuthorizedArtifact \<Rightarrow> string \<Rightarrow> MutationAudit \<Rightarrow>
     share_db \<Rightarrow> ledger \<Rightarrow> (bool \<times> share_db \<times> ledger) result" where
  "revoke_audited mac sha now event_id artifact token mutation db l =
     (let meta = authorized_meta artifact in
      try_bind (for_target_tenant mutation (am_org meta)) (\<lambda>audit.
        case share_revoke now (am_id meta) token db of (revoked, db') \<Rightarrow>
          if \<not> revoked then Inr (False, db', l)
          else try_bind event_id (\<lambda>eid.
            try_bind (append_in_transaction mac sha l eid (ma_context audit)
              (share_event ''share.revoke'' (am_id meta) ''public_share_revoked'') now) (\<lambda>(row, l').
              Inr (True, db', l')))))"

section \<open>Runs\<close>

text \<open>
  A state of the service: the tables, the clock and the tokens minted so far. A token is random
  and is never minted twice; the clock does not go back. Artifacts are published, moved to another
  organization (which drops their links in the same transaction) and deleted (which cascades).
\<close>

record share_world =
  sw_db :: share_db
  sw_now :: int
  sw_minted :: "string list"

definition move_artifact :: "string \<Rightarrow> string \<Rightarrow> share_db \<Rightarrow> share_db" where
  "move_artifact aid org db =
     (let db' = snd (revoke_all_for_artifact aid db)
      in db'\<lparr>shd_artifacts := map (\<lambda>(i, q). if i = aid then (i, org) else (i, q)) (shd_artifacts db')\<rparr>)"

definition delete_artifact_cascade :: "string \<Rightarrow> share_db \<Rightarrow> share_db" where
  "delete_artifact_cascade aid db =
     db\<lparr>shd_artifacts := filter (\<lambda>(i, q). i \<noteq> aid) (shd_artifacts db),
        shd_rows := sql_delete (\<lambda>r. sh_artifact_id r = aid) (shd_rows db)\<rparr>"

inductive share_step :: "share_world \<Rightarrow> share_world \<Rightarrow> bool" where
  minted: "create_audited mac sha cal clock now (Inr token) eid artifact request mutation (sw_db s) l = Inr (share, db', l') \<Longrightarrow>
    token \<notin> set (sw_minted s) \<Longrightarrow> share_step s (s\<lparr>sw_db := db', sw_minted := token # sw_minted s\<rparr>)"
| revoked: "revoke_audited mac sha now eid artifact token mutation (sw_db s) l = Inr (b, db', l') \<Longrightarrow>
    share_step s (s\<lparr>sw_db := db'\<rparr>)"
| published: "aid \<notin> set (map fst (shd_artifacts (sw_db s))) \<Longrightarrow>
    share_step s (s\<lparr>sw_db := (sw_db s)\<lparr>shd_artifacts := (aid, org) # shd_artifacts (sw_db s)\<rparr>\<rparr>)"
| moved: "share_step s (s\<lparr>sw_db := move_artifact aid org (sw_db s)\<rparr>)"
| deleted: "share_step s (s\<lparr>sw_db := delete_artifact_cascade aid (sw_db s)\<rparr>)"
| tick: "sw_now s \<le> t \<Longrightarrow> share_step s (s\<lparr>sw_now := t\<rparr>)"

definition share_start :: "share_world \<Rightarrow> bool" where
  "share_start s \<longleftrightarrow> sw_db s = \<lparr> shd_artifacts = [], shd_rows = [] \<rparr>"

definition shares_ok :: "share_world \<Rightarrow> bool" where
  "shares_ok s \<longleftrightarrow> distinct (map sh_token (shd_rows (sw_db s))) \<and>
     (\<forall>r \<in> set (shd_rows (sw_db s)). sh_token r \<in> set (sw_minted s) \<and> (sh_artifact_id r, sh_org r) \<in> set (shd_artifacts (sw_db s)))"

lemma share_create_cases:
  assumes "share_create cal clock now share_token aid org request db = Inr (share, db')"
  obtains token expires_at where "expiry_for cal clock (cs_expires request) = Inr expires_at" "share_token = Inr token"
    "token \<notin> set (map sh_token (shd_rows db))" "(aid, org) \<in> set (shd_artifacts db)"
    "share = \<lparr> ps_token = token, ps_expires_at = expires_at, ps_created_at = None, ps_created_by = None \<rparr>"
    "db' = db\<lparr>shd_rows := shd_rows db @
            [\<lparr> sh_token = token, sh_artifact_id = aid, sh_org = org, sh_created_by = cs_created_by request,
               sh_created_at = now, sh_expires_at = expires_at, sh_revoked_at = None \<rparr>]\<rparr>"
  using assms by (auto simp: share_create_def result_simps split: if_splits)

lemma create_audited_create:
  assumes "create_audited mac sha cal clock now share_token eid artifact request mutation db l = Inr (share, db', l')"
  shows "share_create cal clock now share_token (am_id (authorized_meta artifact)) (am_org (authorized_meta artifact)) request db
    = Inr (share, db')"
  using assms by (auto simp: create_audited_def Let_def mutate_in_transaction_def result_simps)

lemma revoke_audited_cases:
  assumes "revoke_audited mac sha now eid artifact token mutation db l = Inr (b, db', l')"
  shows "(b, db') = share_revoke now (am_id (authorized_meta artifact)) token db"
    and "if b then \<exists>e audit row. eid = Inr e \<and> for_target_tenant mutation (am_org (authorized_meta artifact)) = Inr audit \<and>
        append_in_transaction mac sha l e (ma_context audit)
          (share_event ''share.revoke'' (am_id (authorized_meta artifact)) ''public_share_revoked'') now = Inr (row, l')
      else l' = l"
proof -
  obtain c d where r: "share_revoke now (am_id (authorized_meta artifact)) token db = (c, d)"
    by (cases "share_revoke now (am_id (authorized_meta artifact)) token db")
  show "(b, db') = share_revoke now (am_id (authorized_meta artifact)) token db"
    using assms by (auto simp: revoke_audited_def Let_def r result_simps split: if_splits)
  show "if b then \<exists>e audit row. eid = Inr e \<and> for_target_tenant mutation (am_org (authorized_meta artifact)) = Inr audit \<and>
        append_in_transaction mac sha l e (ma_context audit)
          (share_event ''share.revoke'' (am_id (authorized_meta artifact)) ''public_share_revoked'') now = Inr (row, l')
      else l' = l"
    using assms by (auto simp: revoke_audited_def Let_def r result_simps split: if_splits)
qed

lemma share_step_ok: "share_step s s' \<Longrightarrow> shares_ok s \<Longrightarrow> shares_ok s'"
proof (induction rule: share_step.induct)
  case (minted mac sha cal clock now token eid artifact request mutation s l share db' l')
  from create_audited_create [OF minted(1)] show ?case
    by (rule share_create_cases) (use minted(3) in \<open>auto simp: shares_ok_def\<close>)
next
  case (revoked mac sha now eid artifact token mutation s l b db' l')
  have "db' = snd (share_revoke now (am_id (authorized_meta artifact)) token (sw_db s))"
    using revoke_audited_cases(1) [OF revoked(1)] by (metis snd_conv)
  then show ?case
    using revoked(2) by (auto simp: shares_ok_def share_revoke_def map_sql_update set_sql_update)
next
  case (published aid s org)
  then show ?case by (auto simp: shares_ok_def)
next
  case (moved s aid org)
  then show ?case
    by (force simp: shares_ok_def move_artifact_def revoke_all_for_artifact_def sql_delete_def distinct_map_filter)
next
  case (deleted s aid)
  then show ?case by (auto simp: shares_ok_def delete_artifact_cascade_def sql_delete_def distinct_map_filter)
next
  case (tick s t)
  then show ?case by (simp add: shares_ok_def)
qed

interpretation share_runs: invariant_system share_start share_step shares_ok
proof
  show "shares_ok s" if "share_start s" for s using that by (simp add: share_start_def shares_ok_def)
  show "shares_ok s'" if "share_step s s'" "shares_ok s" for s s' using that by (rule share_step_ok)
qed

section \<open>A dead link stays dead\<close>

definition dead :: "(string \<Rightarrow> int option) \<Rightarrow> string \<Rightarrow> share_world \<Rightarrow> bool" where
  "dead jd token s \<longleftrightarrow> token \<in> set (sw_minted s) \<and>
     (\<forall>r \<in> set (shd_rows (sw_db s)). sh_token r = token \<longrightarrow> \<not> share_live jd (sw_now s) r)"

lemma resolve_None_iff:
  assumes "shares_ok s"
  shows "share_resolve jd (sw_now s) (sw_db s) token = None \<longleftrightarrow>
    (\<forall>r \<in> set (shd_rows (sw_db s)). sh_token r = token \<longrightarrow> \<not> share_live jd (sw_now s) r)"
  using assms by (auto simp: share_resolve_def find_None_iff shares_ok_def)

lemma share_live_revoked [simp]: "\<not> share_live jd t (r\<lparr>sh_revoked_at := Some u\<rparr>)"
  by (simp add: share_live_def)

lemma share_live_later: "share_live jd t' r \<Longrightarrow> t \<le> t' \<Longrightarrow> share_live jd t r"
  by (auto simp: share_live_def split: option.splits)

lemma dead_step: "share_step s s' \<Longrightarrow> dead jd token s \<Longrightarrow> dead jd token s'"
proof (induction rule: share_step.induct)
  case (minted mac sha cal clock now token' eid artifact request mutation s l share db' l')
  from create_audited_create [OF minted(1)] show ?case
    by (rule share_create_cases) (use minted(2,3) in \<open>auto simp: dead_def\<close>)
next
  case (revoked mac sha now eid artifact token' mutation s l b db' l')
  have "db' = snd (share_revoke now (am_id (authorized_meta artifact)) token' (sw_db s))"
    using revoke_audited_cases(1) [OF revoked(1)] by (metis snd_conv)
  then show ?case using revoked(2) by (auto simp: dead_def share_revoke_def set_sql_update)
next
  case (tick s t)
  then show ?case using share_live_later unfolding dead_def by fastforce
qed (auto simp: dead_def move_artifact_def revoke_all_for_artifact_def delete_artifact_cascade_def sql_delete_def Let_def)

interpretation dead_runs: invariant_system "dead jd token" share_step "dead jd token"
  by unfold_locales (auto intro: dead_step)

definition demo_share_db :: share_db where
  "demo_share_db = \<lparr> shd_artifacts = [(''a1'', ''acme'')], shd_rows = [] \<rparr>"

definition demo_share_artifact :: AuthorizedArtifact where
  "demo_share_artifact = AuthorizedArtifact \<lparr> am_id = ''a1'', am_client_id = ''c'', am_org = ''acme'', am_title = ''t'',
     am_description = [], am_bytes = 1, am_created_at = ''t0'', am_updated_at = ''t0'', am_uploader_label = [],
     am_owner_email = None, am_is_bundle = False, am_entry = [], am_revision = 1, am_category = [], am_hidden = False,
     am_body_sha256 = [], am_artifact_key = None \<rparr>"

definition demo_mutation :: MutationAudit where
  "demo_mutation = \<lparr> ma_context = demo_context, ma_request_id = ''r'' \<rparr>"

definition demo_share_world :: share_world where
  "demo_share_world = \<lparr> sw_db = demo_share_db, sw_now = 0, sw_minted = [] \<rparr>"

definition demo_created ::
    "(PublicShare \<times> share_db \<times> ledger) result" where
  "demo_created = create_audited id (\<lambda>m. []) january_2026 0 ''t'' (Inr ''tok'') ''e1'' demo_share_artifact
     \<lparr> cs_created_by = ''u'', cs_expires = ''never'' \<rparr> demo_mutation demo_share_db (demo_start id)"

lemma demo_share_reachable: "share_start \<lparr> sw_db = \<lparr> shd_artifacts = [], shd_rows = [] \<rparr>, sw_now = 0, sw_minted = [] \<rparr>"
  "share_step\<^sup>*\<^sup>* \<lparr> sw_db = \<lparr> shd_artifacts = [], shd_rows = [] \<rparr>, sw_now = 0, sw_minted = [] \<rparr> demo_share_world"
proof -
  let ?s = "\<lparr> sw_db = \<lparr> shd_artifacts = [], shd_rows = [] \<rparr>, sw_now = 0, sw_minted = [] \<rparr>"
  show "share_start ?s" by (simp add: share_start_def)
  have "share_step ?s demo_share_world"
    using share_step.published [of "''a1''" ?s "''acme''"] by (simp add: demo_share_world_def demo_share_db_def)
  then show "share_step\<^sup>*\<^sup>* ?s demo_share_world" by (rule r_into_rtranclp)
qed

lemma demo_created_ok:
  obtains db' l' where "create_audited id (\<lambda>m. []) january_2026 0 ''t'' (Inr ''tok'') ''e1'' demo_share_artifact
     \<lparr> cs_created_by = ''u'', cs_expires = ''never'' \<rparr> demo_mutation demo_share_db (demo_start id) =
       Inr (\<lparr> ps_token = ''tok'', ps_expires_at = None, ps_created_at = None, ps_created_by = None \<rparr>, db', l')"
proof -
  have "case demo_created of Inl e \<Rightarrow> False | Inr (share, db', l') \<Rightarrow>
      share = \<lparr> ps_token = ''tok'', ps_expires_at = None, ps_created_at = None, ps_created_by = None \<rparr>"
    by code_simp
  then show thesis using that by (auto simp: demo_created_def split: sum.splits)
qed

text \<open>
  C11. A share token that has been minted and does not grant access, for whichever reason (expired,
  revoked, its artifact moved to another organization or deleted), never grants access again,
  whatever is created, revoked, moved, deleted or published afterwards and however late it is tried;
  moving an artifact away and back, or publishing it again under its old id, does not revive a link.
\<close>

theorem dead_share_stays_dead:
  assumes "share_start s0" and "share_step\<^sup>*\<^sup>* s0 s" and "token \<in> set (sw_minted s)"
    and "share_resolve jd (sw_now s) (sw_db s) token = None" and "share_step\<^sup>*\<^sup>* s s'"
  shows "share_resolve jd (sw_now s') (sw_db s') token = None"
proof -
  have ok: "shares_ok s" using share_runs.run_inv [OF assms(1,2)] .
  then have "dead jd token s" using assms(3,4) by (simp add: dead_def resolve_None_iff)
  then have "dead jd token s'" by (rule dead_runs.run_inv [OF _ assms(5)])
  moreover have "shares_ok s'" using share_runs.run_keeps [OF assms(5) ok] .
  ultimately show ?thesis by (simp add: dead_def resolve_None_iff)
qed

theorem dead_share_stays_dead_witness:
  "\<exists>s. share_step\<^sup>*\<^sup>* demo_share_world s \<and> ''tok'' \<in> set (sw_minted s) \<and>
     share_resolve (\<lambda>e. None) (sw_now s) (delete_artifact_cascade ''a1'' (sw_db s)) ''tok'' = None"
proof -
  obtain db' l' where c: "create_audited id (\<lambda>m. []) january_2026 0 ''t'' (Inr ''tok'') ''e1'' demo_share_artifact
     \<lparr> cs_created_by = ''u'', cs_expires = ''never'' \<rparr> demo_mutation demo_share_db (demo_start id) =
       Inr (\<lparr> ps_token = ''tok'', ps_expires_at = None, ps_created_at = None, ps_created_by = None \<rparr>, db', l')"
    by (rule demo_created_ok)
  let ?s = "demo_share_world\<lparr>sw_db := db', sw_minted := [''tok'']\<rparr>"
  let ?t = "?s\<lparr>sw_db := delete_artifact_cascade ''a1'' db'\<rparr>"
  have s1: "share_step demo_share_world ?s"
    using share_step.minted [of _ _ _ _ _ _ _ _ _ _ demo_share_world] c by (simp add: demo_share_world_def)
  have s2: "share_step ?s ?t" using share_step.deleted [of ?s "''a1''"] by simp
  have run: "share_step\<^sup>*\<^sup>* demo_share_world ?t" using s1 s2 by (meson converse_rtranclp_into_rtranclp r_into_rtranclp)
  have none: "share_resolve (\<lambda>e. None) (sw_now ?t) (sw_db ?t) ''tok'' = None"
    using create_audited_create [OF c]
    by (auto simp: demo_share_artifact_def demo_share_db_def delete_artifact_cascade_def share_resolve_def sql_delete_def
        elim!: share_create_cases)
  have "share_resolve (\<lambda>e. None) (sw_now ?t) (sw_db ?t) ''tok'' = None"
    by (rule dead_share_stays_dead [OF demo_share_reachable(1) rtranclp_trans [OF demo_share_reachable(2) run] _ none]) simp_all
  then show ?thesis using s1 by (intro exI [of _ ?s]) auto
qed

section \<open>Creation and revocation\<close>

text \<open>
  What the code relies on of SQLite: \<open>julianday\<close> reads back the UTC text of an instant from 1970 on.
\<close>

definition julianday_reads :: "calendar \<Rightarrow> (string \<Rightarrow> int option) \<Rightarrow> bool" where
  "julianday_reads cal jd \<longleftrightarrow> (\<forall>m r. 0 \<le> m \<and> render_iso cal m = Inr r \<longrightarrow> jd r = Some m)"

lemma resolve_appended:
  assumes "sh_token r \<notin> set (map sh_token (shd_rows db))" and "(sh_artifact_id r, sh_org r) \<in> set (shd_artifacts db)"
  shows "share_resolve jd t (db\<lparr>shd_rows := shd_rows db @ [r]\<rparr>) token =
    (if token = sh_token r
     then if share_live jd t r then Some \<lparr> sg_artifact_id = sh_artifact_id r, sg_org = sh_org r \<rparr> else None
     else share_resolve jd t db token)"
proof -
  have "List.find (\<lambda>q. sh_token q = sh_token r \<and> share_live jd t q \<and> (sh_artifact_id q, sh_org q) \<in> set (shd_artifacts db))
      (shd_rows db) = None"
    using assms(1) unfolding find_None_iff set_map by (metis imageI)
  then show ?thesis using assms(2) by (auto simp: share_resolve_def find_append split: option.split)
qed

text \<open>
  C23. A share that was created grants access to exactly the artifact, in exactly the organization,
  it was created for, at every time before its expiry and at no time from its expiry on (at every
  time when it was asked never to expire); the access decision accepts the grant for that artifact;
  the expiry lies in the future; and no other token changes what it grants. The clock stands at 1970
  or later, and SQLite's \<open>julianday\<close> reads the instants from then on.
\<close>

theorem created_share_resolves:
  assumes "julianday_reads cal jd" and "0 \<le> clock"
    and "create_audited mac sha cal clock now share_token eid artifact request mutation db l = Inr (share, db', l')"
  shows "let grant = \<lparr> sg_artifact_id = am_id (authorized_meta artifact), sg_org = am_org (authorized_meta artifact) \<rparr> in
    authorize_share grant (Some (authorized_meta artifact)) = Inr artifact \<and>
    share_token = Inr (ps_token share) \<and>
    (case ps_expires_at share of
       None \<Rightarrow> \<forall>t. share_resolve jd t db' (ps_token share) = Some grant
     | Some e \<Rightarrow> \<exists>end. jd e = Some end \<and> clock < end \<and>
         (\<forall>t. share_resolve jd t db' (ps_token share) = (if t < end then Some grant else None))) \<and>
    (\<forall>t token. token \<noteq> ps_token share \<longrightarrow> share_resolve jd t db' token = share_resolve jd t db token)"
  using create_audited_create [OF assms(3)]
proof (rule share_create_cases)
  fix token expires_at
  let ?r = "\<lparr> sh_token = token, sh_artifact_id = am_id (authorized_meta artifact), sh_org = am_org (authorized_meta artifact),
    sh_created_by = cs_created_by request, sh_created_at = now, sh_expires_at = expires_at, sh_revoked_at = None \<rparr>"
  assume e: "expiry_for cal clock (cs_expires request) = Inr expires_at" and t: "share_token = Inr token"
    and new: "token \<notin> set (map sh_token (shd_rows db))"
    "(am_id (authorized_meta artifact), am_org (authorized_meta artifact)) \<in> set (shd_artifacts db)"
    and out: "share = \<lparr> ps_token = token, ps_expires_at = expires_at, ps_created_at = None, ps_created_by = None \<rparr>"
    "db' = db\<lparr>shd_rows := shd_rows db @ [?r]\<rparr>"
  have res: "share_resolve jd u db' tk =
    (if tk = token
     then if share_live jd u ?r then Some \<lparr> sg_artifact_id = am_id (authorized_meta artifact), sg_org = am_org (authorized_meta artifact) \<rparr> else None
     else share_resolve jd u db tk)" for u tk
    using resolve_appended [of ?r db jd u tk] new by (simp add: out(2))
  have grant: "authorize_share \<lparr> sg_artifact_id = am_id (authorized_meta artifact), sg_org = am_org (authorized_meta artifact) \<rparr>
      (Some (authorized_meta artifact)) = Inr artifact"
    by (cases artifact) (simp add: authorize_share_def share_matches_def)
  show ?thesis
  proof (cases expires_at)
    case None
    then show ?thesis using grant t by (simp add: Let_def out(1) res share_live_def)
  next
    case (Some r)
    then have "\<exists>m. render_iso cal m = Inr r \<and> clock < m"
      using e by (auto elim!: expiry_cases)
    then obtain m where m: "render_iso cal m = Inr r" "clock < m" by blast
    then have "jd r = Some m" using assms(1,2) by (auto simp: julianday_reads_def)
    note this m(2)
    then show ?thesis using grant t Some by (simp add: Let_def out(1) res share_live_def)
  qed
qed

text \<open>A link of the sample artifact that is created on 1 January 2026 and expires on the tenth.\<close>

definition demo_julianday :: "string \<Rightarrow> int option" where
  "demo_julianday e = Option.bind (parse_iso_shape e) (to_unix_millis january_2026)"

definition demo_dated :: "(PublicShare \<times> share_db \<times> ledger) result" where
  "demo_dated = create_audited id (\<lambda>m. []) january_2026 1767225600000 ''t'' (Inr ''tok'') ''e1'' demo_share_artifact
     \<lparr> cs_created_by = ''u'', cs_expires = ''2026-01-10'' \<rparr> demo_mutation demo_share_db (demo_start id)"

lemma demo_julianday_reads: "julianday_reads january_2026 demo_julianday"
  unfolding julianday_reads_def
proof (intro allI impI)
  fix m r
  assume "0 \<le> m \<and> render_iso january_2026 m = Inr r"
  then have m: "0 \<le> m" and r: "render_iso january_2026 m = Inr r" by simp_all
  then have "m div 86400000 + 2440588 \<le> 2461072"
    by (auto simp: render_iso_def Let_def january_2026_def MILLIS_PER_DAY_def UNIX_EPOCH_JULIAN_DAY_def split: if_splits)
  then have "in_i64 m" using m by (auto simp: in_i64_def i64_max_def i64_min_def)
  then obtain s where "parse_iso_shape r = Some s" "to_unix_millis january_2026 s = Some m"
    using render_round [OF january_2026_laws r m] by blast
  then show "demo_julianday r = Some m" by (simp add: demo_julianday_def)
qed

theorem created_share_resolves_witness:
  "\<exists>share db' l'. demo_dated = Inr (share, db', l') \<and> ps_expires_at share = Some ''2026-01-10T00:00:00.000Z'' \<and>
     share_resolve demo_julianday 1768003199999 db' ''tok'' = Some \<lparr> sg_artifact_id = ''a1'', sg_org = ''acme'' \<rparr> \<and>
     share_resolve demo_julianday 1768003200000 db' ''tok'' = None"
proof -
  have "case demo_dated of Inl e \<Rightarrow> False | Inr (share, db', l') \<Rightarrow>
      share = \<lparr> ps_token = ''tok'', ps_expires_at = Some ''2026-01-10T00:00:00.000Z'', ps_created_at = None, ps_created_by = None \<rparr>"
    by code_simp
  then obtain db' l' where c: "demo_dated = Inr (\<lparr> ps_token = ''tok'', ps_expires_at = Some ''2026-01-10T00:00:00.000Z'',
      ps_created_at = None, ps_created_by = None \<rparr>, db', l')"
    by (auto split: sum.splits)
  have "demo_julianday ''2026-01-10T00:00:00.000Z'' = Some 1768003200000" by code_simp
  moreover have "0 \<le> (1767225600000 :: int)" by simp
  ultimately have "share_resolve demo_julianday t db' ''tok'' =
      (if t < 1768003200000 then Some \<lparr> sg_artifact_id = ''a1'', sg_org = ''acme'' \<rparr> else None)" for t
    using created_share_resolves [OF demo_julianday_reads _ c [unfolded demo_dated_def]]
    by (simp add: Let_def demo_share_artifact_def)
  note at = this [of 1768003199999] this [of 1768003200000]
  show ?thesis by (intro exI conjI, rule c) (use at in simp_all)
qed

text \<open>
  C24. A revocation answers whether it revoked a link of the artifact the caller was authorized for: it
  does so exactly when the token is that of a link of this artifact that is not revoked yet, expired or
  not. When it did, the token grants access at no time, and the ledger gains the event of the
  revocation; when it did not, because the token is unknown, already revoked or belongs to another
  artifact, neither the links nor the ledger change. No other token is affected, and asking again
  answers no.
\<close>

theorem revocation_is_exact:
  assumes "share_start s0" and "share_step\<^sup>*\<^sup>* s0 s"
    and "revoke_audited mac sha now eid artifact token mutation (sw_db s) l = Inr (b, db', l')"
  shows "(b \<longleftrightarrow> (\<exists>r \<in> set (shd_rows (sw_db s)). sh_token r = token \<and> sh_artifact_id r = am_id (authorized_meta artifact) \<and>
           sh_revoked_at r = None)) \<and>
    (if b then (\<forall>jd t. share_resolve jd t db' token = None) \<and>
       (\<exists>e audit row. eid = Inr e \<and> for_target_tenant mutation (am_org (authorized_meta artifact)) = Inr audit \<and>
         append_in_transaction mac sha l e (ma_context audit)
         (share_event ''share.revoke'' (am_id (authorized_meta artifact)) ''public_share_revoked'') now = Inr (row, l'))
     else db' = sw_db s \<and> l' = l) \<and>
    (\<forall>jd t token'. token' \<noteq> token \<longrightarrow> share_resolve jd t db' token' = share_resolve jd t (sw_db s) token') \<and>
    (\<forall>now'. fst (share_revoke now' (am_id (authorized_meta artifact)) token db') = False)"
proof -
  let ?aid = "am_id (authorized_meta artifact)"
  have ok: "shares_ok s" using share_runs.run_inv [OF assms(1,2)] .
  have r: "b = list_ex (revocable ?aid token) (shd_rows (sw_db s))"
    "db' = (sw_db s)\<lparr>shd_rows := sql_update (revocable ?aid token) (\<lambda>r. r\<lparr>sh_revoked_at := Some now\<rparr>) (shd_rows (sw_db s))\<rparr>"
    using revoke_audited_cases(1) [OF assms(3)] by (simp_all add: share_revoke_def)
  have same: "q = p" if "p \<in> set (shd_rows (sw_db s))" "q \<in> set (shd_rows (sw_db s))" "sh_token q = sh_token p" for p q
    using ok that by (simp add: shares_ok_def distinct_map inj_on_def)
  have "share_resolve jd t db' token = None" if yes: b for jd t
  proof -
    obtain q where q: "q \<in> set (shd_rows (sw_db s))" "revocable ?aid token q" using yes r(1) by (auto simp: list_ex_iff)
    then have "revocable ?aid token p" if "p \<in> set (shd_rows (sw_db s))" "sh_token p = token" for p
      using same [of q p] that by (auto simp: revocable_def)
    then have "\<not> share_live jd t p" if "p \<in> set (shd_rows db')" "sh_token p = token" for p
      using that by (auto simp: r(2) set_sql_update split: if_splits)
    then show ?thesis unfolding share_resolve_def by (auto simp: find_None_iff)
  qed
  moreover have "db' = sw_db s" if "\<not> b"
    using that r by (simp add: list_ex_iff sql_update_noop)
  moreover have "share_resolve jd t db' token' = share_resolve jd t (sw_db s) token'" if "token' \<noteq> token" for jd t token'
  proof -
    have rows': "shd_rows db' = sql_update (revocable ?aid token) (\<lambda>r. r\<lparr>sh_revoked_at := Some now\<rparr>) (shd_rows (sw_db s))"
      by (simp add: r(2))
    have "List.find (\<lambda>r. sh_token r = token' \<and> share_live jd t r \<and> (sh_artifact_id r, sh_org r) \<in> set (shd_artifacts (sw_db s)))
        (shd_rows db') = List.find (\<lambda>r. sh_token r = token' \<and> share_live jd t r \<and> (sh_artifact_id r, sh_org r) \<in> set (shd_artifacts (sw_db s)))
        (shd_rows (sw_db s))"
      unfolding rows'
      by (rule find_sql_update_miss) (use that in \<open>simp_all add: revocable_def\<close>)
    moreover have "shd_artifacts db' = shd_artifacts (sw_db s)" by (simp add: r(2))
    ultimately show ?thesis unfolding share_resolve_def by (simp only:)
  qed
  moreover have "\<not> list_ex (revocable ?aid token) (shd_rows db')"
  proof -
    have "\<not> revocable ?aid token (p\<lparr>sh_revoked_at := Some now\<rparr>)" for p by (simp add: revocable_def)
    then have "\<not> revocable ?aid token p" if "p \<in> set (shd_rows db')" for p
      using that by (auto simp: r(2) set_sql_update split: if_splits)
    then show ?thesis by (simp add: list_ex_iff)
  qed
  moreover have "b \<longleftrightarrow> (\<exists>r \<in> set (shd_rows (sw_db s)). sh_token r = token \<and> sh_artifact_id r = ?aid \<and> sh_revoked_at r = None)"
    by (auto simp: r(1) list_ex_iff revocable_def)
  ultimately show ?thesis
    using revoke_audited_cases(2) [OF assms(3)] by (cases b) (simp_all add: share_revoke_def)
qed

definition demo_linked_db :: share_db where
  "demo_linked_db = (case demo_created of Inr (_, db', _) \<Rightarrow> db' | Inl _ \<Rightarrow> demo_share_db)"

theorem revocation_is_exact_witness:
  "\<exists>db' l'. share_resolve (\<lambda>e. None) 5 demo_linked_db ''tok'' \<noteq> None \<and>
     revoke_audited id (\<lambda>m. []) ''t'' (Inr ''e1'') demo_share_artifact ''tok'' demo_mutation demo_linked_db (demo_start id)
       = Inr (True, db', l') \<and>
     share_resolve (\<lambda>e. None) 5 db' ''tok'' = None \<and>
     fst (share_revoke ''t'' ''a1'' ''tok'' db') = False"
proof -
  let ?s = "demo_share_world\<lparr>sw_db := demo_linked_db, sw_minted := [''tok'']\<rparr>"
  obtain db1 l1 where c: "create_audited id (\<lambda>m. []) january_2026 0 ''t'' (Inr ''tok'') ''e1'' demo_share_artifact
     \<lparr> cs_created_by = ''u'', cs_expires = ''never'' \<rparr> demo_mutation demo_share_db (demo_start id) =
       Inr (\<lparr> ps_token = ''tok'', ps_expires_at = None, ps_created_at = None, ps_created_by = None \<rparr>, db1, l1)"
    by (rule demo_created_ok)
  then have "demo_linked_db = db1" by (simp add: demo_linked_db_def demo_created_def)
  then have "share_step demo_share_world ?s"
    using share_step.minted [of _ _ _ _ _ _ _ _ _ _ demo_share_world] c by (simp add: demo_share_world_def)
  then have run: "share_step\<^sup>*\<^sup>* \<lparr> sw_db = \<lparr> shd_artifacts = [], shd_rows = [] \<rparr>, sw_now = 0, sw_minted = [] \<rparr> ?s"
    using demo_share_reachable(2) by (rule rtranclp.rtrancl_into_rtrancl [rotated])
  have "case revoke_audited id (\<lambda>m. []) ''t'' (Inr ''e1'') demo_share_artifact ''tok'' demo_mutation demo_linked_db (demo_start id) of
      Inl e \<Rightarrow> False | Inr (b, db', l') \<Rightarrow> b" by code_simp
  then obtain db' l' where r: "revoke_audited id (\<lambda>m. []) ''t'' (Inr ''e1'') demo_share_artifact ''tok'' demo_mutation
      (sw_db ?s) (demo_start id) = Inr (True, db', l')"
    by (auto split: sum.splits)
  have "share_resolve (\<lambda>e. None) 5 demo_linked_db ''tok'' \<noteq> None" by code_simp
  moreover have "am_id (authorized_meta demo_share_artifact) = ''a1''" by (simp add: demo_share_artifact_def)
  ultimately show ?thesis
    using revocation_is_exact [OF demo_share_reachable(1) run r] r by simp
qed

end
