(* ===== verification/Collections.thy ===== *)
theory Collections
  imports Audit_Query Artifact_Text
begin

text \<open>
  Collections of artifacts and gallery preferences: src/src/persistence/collections.rs with the
  types and limits of src/src/ports/collections.rs.

  The four tables the code reads and writes are lists of rows; the constraints of the schema
  (primary keys, the unique name key of an organization, the foreign keys with their cascades and
  the trigger on an artifact's move) are part of the operations that could violate them. \<open>env\<close> holds
  what comes from the outside: \<open>str::to_lowercase\<close> with its Unicode tables, serde_json, the clock's text,
  and the audit key with its event ids. A failing operation gives an error and no new state, as its
  transaction rolls back. What the operations satisfy is shown in Collection_Laws.
\<close>

section \<open>Types and limits (ports/collections.rs)\<close>

definition MAX_COLLECTIONS_PER_ORG :: int where "MAX_COLLECTIONS_PER_ORG = 200"
definition MAX_MEMBERSHIPS_PER_REQUEST :: int where "MAX_MEMBERSHIPS_PER_REQUEST = 100"
definition MAX_MEMBERSHIPS_PER_COLLECTION :: int where "MAX_MEMBERSHIPS_PER_COLLECTION = 1000"
definition MAX_PREFERENCE_IDS :: int where "MAX_PREFERENCE_IDS = 2000"
definition MAX_NAME_LENGTH :: int where "MAX_NAME_LENGTH = 80"
definition MAX_DESCRIPTION_LENGTH :: int where "MAX_DESCRIPTION_LENGTH = 500"

type_synonym id_map = "(string \<times> string list) list"

record coll_env =
  ce_lower :: "string \<Rightarrow> string"
  ce_pair_json :: "string \<Rightarrow> string \<Rightarrow> string"
  ce_state_json :: "id_map \<Rightarrow> id_map \<Rightarrow> string"
  ce_read_state :: "string \<Rightarrow> (id_map option \<times> id_map option) option"
  ce_now :: string
  ce_mac :: "(bytes \<Rightarrow> string) option"
  ce_sha :: "bytes \<Rightarrow> string"
  ce_event_id :: "string result"

datatype CollectionPrincipal = HumanEmail string | ApiKeyClient string | OAuthClient string string

fun kind_id :: "coll_env \<Rightarrow> CollectionPrincipal \<Rightarrow> string \<times> string" where
  "kind_id env (HumanEmail v) = (''email'', ce_lower env v)"
| "kind_id env (ApiKeyClient v) = (''api_key'', v)"
| "kind_id env (OAuthClient issuer client_id) = (''oauth'', ce_pair_json env issuer client_id)"

record CollectionPublisher =
  cp_org :: string
  cp_client_id :: string
  cp_role :: Role
  cp_is_admin :: bool
  cp_can_publish :: bool

record CollectionActor =
  ca_email :: string
  ca_org :: string
  ca_is_admin :: bool
  ca_principal :: CollectionPrincipal
  ca_publisher :: "CollectionPublisher option"

record Collection =
  co_id :: string
  co_org :: string
  co_name :: string
  co_name_key :: string
  co_description :: string
  co_color :: "string option"
  co_cover :: "string option"
  co_cover_org :: "string option"
  co_created_by :: string
  co_created_by_kind :: string
  co_created_at :: string
  co_updated_at :: string

record CollectionUpdate =
  cu_name :: "string option"
  cu_description :: "string option"
  cu_color :: "string option"
  cu_cover_artifact_id :: "string option"
  cu_clear_cover :: bool

record NewCollection =
  nc_id :: string
  nc_name :: string
  nc_description :: string
  nc_color :: "string option"
  nc_cover :: "string option"
  nc_artifact_ids :: "string list"

record GalleryPreferences =
  gp_view :: string
  gp_preview_size :: string
  gp_artifact_layout :: string
  gp_order :: id_map
  gp_collapsed :: id_map

definition default_preferences :: GalleryPreferences where
  "default_preferences = \<lparr> gp_view = ''reel'', gp_preview_size = ''compact'', gp_artifact_layout = ''grid'',
     gp_order = [], gp_collapsed = [] \<rparr>"

record Membership =
  me_collection :: string
  me_artifact :: string
  me_org :: string
  me_created_at :: string

record preference_row =
  pr_email :: string
  pr_view :: string
  pr_preview_size :: string
  pr_artifact_layout :: string
  pr_state :: string

record coll_db =
  cd_orgs :: "string list"
  cd_artifacts :: "ArtifactMeta list"
  cd_collections :: "Collection list"
  cd_members :: "Membership list"
  cd_preferences :: "preference_row list"

section \<open>Validation\<close>

fun split_words :: "string \<Rightarrow> string list \<Rightarrow> string list" where
  "split_words word [] = (if word = [] then [] else [word])"
| "split_words word (ch # chs) =
     (if ch \<in> set unicode_white_space then (if word = [] then split_words [] chs else word # split_words [] chs)
      else split_words (word @ ch) chs)"

fun join_words :: "string list \<Rightarrow> string" where
  "join_words [] = []"
| "join_words [w] = w"
| "join_words (w # ws) = w @ '' '' @ join_words ws"

definition normalize_text :: "string \<Rightarrow> string" where
  "normalize_text value = join_words (split_words [] (utf8_chars value))"

definition normalize_name :: "coll_env \<Rightarrow> string \<Rightarrow> string" where
  "normalize_name env value = ce_lower env (join_words (split_words [] (utf8_chars value)))"

definition validate_id :: "string \<Rightarrow> unit result" where
  "validate_id value =
     (if value = [] \<or> 128 < length value
        \<or> \<not> list_all (\<lambda>b. is_ascii_alphanumeric b \<or> b = CHR ''-'' \<or> b = CHR ''_'') value
      then Inl (Validation ''invalid collection id'') else Inr ())"

definition validate_name :: "string \<Rightarrow> unit result" where
  "validate_name value =
     (let v = normalize_text value in
      if v = [] then Inl (Validation ''name is required'')
      else if MAX_NAME_LENGTH < int (length (utf8_chars v))
      then Inl (Validation (''collection name must be 1'' @ [CHR 0xE2, CHR 0x80, CHR 0x93] @ ''80 characters''))
      else Inr ())"

definition validate_description :: "string \<Rightarrow> unit result" where
  "validate_description value =
     (if MAX_DESCRIPTION_LENGTH < int (length (utf8_chars (normalize_text value)))
      then Inl (Validation ''collection description is too long'') else Inr ())"

definition validate_color :: "string \<Rightarrow> unit result" where
  "validate_color value =
     (if length value \<noteq> 7 \<or> \<not> starts_with value ''#'' \<or> \<not> list_all is_hex_digit (drop 1 value)
      then Inl (Validation ''invalid collection color'') else Inr ())"

fun validate_each_id :: "string list \<Rightarrow> string list \<Rightarrow> unit result" where
  "validate_each_id seen [] = Inr ()"
| "validate_each_id seen (i # ids) =
     (case validate_id i of
        Inl e \<Rightarrow> Inl (Validation ''invalid_ids'')
      | Inr u \<Rightarrow> if i \<in> set seen then Inl (Validation ''duplicate artifact id'') else validate_each_id (i # seen) ids)"

definition validate_ids :: "string list \<Rightarrow> unit result" where
  "validate_ids ids =
     (if MAX_MEMBERSHIPS_PER_REQUEST < int (length ids) then Inl (Validation ''invalid_ids'')
      else validate_each_id [] ids)"

text \<open>\<open>filter(|id| seen.insert(id.clone()))\<close>: the first occurrence of every id.\<close>

fun first_occurrences :: "string list \<Rightarrow> string list \<Rightarrow> string list" where
  "first_occurrences seen [] = []"
| "first_occurrences seen (i # ids) =
     (if i \<in> set seen then first_occurrences seen ids else i # first_occurrences (i # seen) ids)"

definition validate_preferences :: "GalleryPreferences \<Rightarrow> unit result" where
  "validate_preferences p =
     (if gp_view p \<notin> {''reel'', ''sheets'', ''ribbons'', ''all''} \<or> gp_preview_size p \<notin> {''compact'', ''large''}
        \<or> gp_artifact_layout p \<notin> {''grid'', ''list''}
      then Inl (Validation ''invalid gallery preferences'')
      else try_bind (collect_results (map (\<lambda>(org, ids).
        if MAX_PREFERENCE_IDS < int (length ids) then Inl (Validation ''preference lists are too large'')
        else try_bind (collect_results (map validate_id ids)) (\<lambda>_. Inr ())) (gp_order p @ gp_collapsed p))) (\<lambda>_. Inr ()))"

section \<open>Decisions\<close>

definition authorize_org :: "CollectionActor \<Rightarrow> unit result" where
  "authorize_org actor = (if trim (ca_org actor) = [] then Inl (Unauthorized ''Not signed in'') else Inr ())"

definition ensure_existing_org :: "coll_db \<Rightarrow> string \<Rightarrow> unit result" where
  "ensure_existing_org db org = (if org \<in> set (cd_orgs db) then Inr () else Inl ConcealedNotFound)"

definition matches_principal :: "coll_env \<Rightarrow> CollectionActor \<Rightarrow> Collection \<Rightarrow> bool" where
  "matches_principal env actor c \<longleftrightarrow>
     (case kind_id env (ca_principal actor) of (kind, principal_id) \<Rightarrow>
        if co_created_by_kind c = ''email'' then kind = ''email'' \<and> eq_ignore_ascii_case (co_created_by c) principal_id
        else co_created_by_kind c = kind \<and> co_created_by c = principal_id)"

definition find_collection :: "coll_db \<Rightarrow> string \<Rightarrow> Collection option" where
  "find_collection db cid = List.find (\<lambda>c. co_id c = cid) (cd_collections db)"

definition ensure_collection_creator :: "coll_env \<Rightarrow> coll_db \<Rightarrow> string \<Rightarrow> CollectionActor \<Rightarrow> unit result" where
  "ensure_collection_creator env db cid actor =
     (case find_collection db cid of
        None \<Rightarrow> Inl (NotFound ''Collection not found'')
      | Some c \<Rightarrow>
          if co_org c \<noteq> ca_org actor then Inl ConcealedNotFound
          else if ca_is_admin actor \<or> matches_principal env actor c then Inr ()
          else Inl (Forbidden ''Only the collection creator or an administrator can edit this collection''))"

definition artifact_readable :: "CollectionActor \<Rightarrow> ArtifactMeta \<Rightarrow> bool" where
  "artifact_readable actor a \<longleftrightarrow> am_org a = ca_org actor \<and>
     (case ca_publisher actor of
        Some auth \<Rightarrow> publisher_can_read_row (cp_is_admin auth) (cp_org auth) (cp_client_id auth) (cp_role auth) (am_org a) (am_client_id a)
      | None \<Rightarrow> ca_is_admin actor \<or> \<not> am_hidden a \<or>
          (case am_owner_email a of
             None \<Rightarrow> False
           | Some email \<Rightarrow> (case ca_principal actor of HumanEmail v \<Rightarrow> eq_ignore_ascii_case email v | _ \<Rightarrow> False)))"

definition find_artifact :: "coll_db \<Rightarrow> string \<Rightarrow> ArtifactMeta option" where
  "find_artifact db aid = List.find (\<lambda>a. am_id a = aid) (cd_artifacts db)"

definition ensure_artifact_readable :: "coll_db \<Rightarrow> string \<Rightarrow> CollectionActor \<Rightarrow> unit result" where
  "ensure_artifact_readable db aid actor =
     (case find_artifact db aid of
        Some a \<Rightarrow> if artifact_readable actor a then Inr () else Inl ConcealedNotFound
      | None \<Rightarrow> Inl ConcealedNotFound)"

definition ensure_all_readable :: "coll_db \<Rightarrow> string list \<Rightarrow> CollectionActor \<Rightarrow> unit result" where
  "ensure_all_readable db ids actor =
     try_bind (collect_results (map (\<lambda>i. ensure_artifact_readable db i actor) ids)) (\<lambda>_. Inr ())"

definition is_member :: "coll_db \<Rightarrow> string \<Rightarrow> string \<Rightarrow> bool" where
  "is_member db cid aid \<longleftrightarrow> list_ex (\<lambda>m. me_collection m = cid \<and> me_artifact m = aid) (cd_members db)"

definition coll_event :: "string \<Rightarrow> string \<Rightarrow> AuditEvent" where
  "coll_event operation target_id =
     \<lparr> ae_operation = operation, ae_target_type = ''collection'', ae_target_id = target_id, ae_result = ''success'',
       ae_classification = ''collection_mutation'', ae_revision = None \<rparr>"

definition append_audit ::
    "coll_env \<Rightarrow> MutationAudit option \<Rightarrow> string \<Rightarrow> string \<Rightarrow> string \<Rightarrow> ledger \<Rightarrow> ledger result" where
  "append_audit env audit operation target_id tenant l =
     (case (ce_mac env, audit) of
        (Some mac, Some a) \<Rightarrow>
          try_bind (ce_event_id env) (\<lambda>eid.
          try_bind (append_in_transaction mac (ce_sha env) l eid (ma_context (for_affected_tenant a tenant))
            (coll_event operation target_id) (ce_now env)) (\<lambda>(row, l'). Inr l'))
      | _ \<Rightarrow> Inr l)"

section \<open>Operations\<close>

definition artifact_count :: "coll_db \<Rightarrow> Collection \<Rightarrow> int" where
  "artifact_count db c = count_rows (\<lambda>m. me_collection m = co_id c) (cd_members db)"

definition list_collections :: "coll_db \<Rightarrow> CollectionActor \<Rightarrow> nat \<Rightarrow> (Collection \<times> int) list result" where
  "list_collections db actor limit =
     try_bind (ensure_existing_org db (ca_org actor)) (\<lambda>_.
       Inr (map (\<lambda>c. (c, artifact_count db c))
         (take (min (max limit 1) (nat MAX_COLLECTIONS_PER_ORG))
           (sort_key co_created_at (sort_key co_id (filter (\<lambda>c. co_org c = ca_org actor) (cd_collections db)))))))"

definition list_for_org :: "coll_db \<Rightarrow> CollectionActor \<Rightarrow> string \<Rightarrow> nat \<Rightarrow> (Collection \<times> int) list result" where
  "list_for_org db actor org limit = list_collections db (actor\<lparr>ca_org := org\<rparr>) limit"

definition name_taken :: "coll_db \<Rightarrow> string \<Rightarrow> string \<Rightarrow> string \<Rightarrow> bool" where
  "name_taken db cid org key \<longleftrightarrow>
     list_ex (\<lambda>c. co_id c \<noteq> cid \<and> co_org c = org \<and> co_name_key c = key) (cd_collections db)"

definition name_conflict :: AppError where
  "name_conflict = Conflict ''a collection with that name already exists''"

definition new_members :: "coll_env \<Rightarrow> string \<Rightarrow> string \<Rightarrow> string list \<Rightarrow> Membership list" where
  "new_members env cid org ids =
     map (\<lambda>i. \<lparr> me_collection = cid, me_artifact = i, me_org = org, me_created_at = ce_now env \<rparr>) ids"

definition create_atomic ::
    "coll_env \<Rightarrow> CollectionActor \<Rightarrow> NewCollection \<Rightarrow> MutationAudit option \<Rightarrow> coll_db \<Rightarrow> ledger \<Rightarrow>
     ((Collection \<times> int) \<times> coll_db \<times> ledger) result" where
  "create_atomic env actor n audit db l =
     try_bind (validate_id (nc_id n)) (\<lambda>_.
     try_bind (validate_name (nc_name n)) (\<lambda>_.
     try_bind (validate_description (nc_description n)) (\<lambda>_.
     try_bind (case nc_color n of None \<Rightarrow> Inr () | Some color \<Rightarrow> validate_color color) (\<lambda>_.
     try_bind (validate_ids (nc_artifact_ids n)) (\<lambda>_.
     let ids = first_occurrences [] (nc_artifact_ids n); org = ca_org actor in
     try_bind (authorize_org actor) (\<lambda>_.
     if MAX_COLLECTIONS_PER_ORG \<le> count_rows (\<lambda>c. co_org c = org) (cd_collections db)
     then Inl (Validation ''collection_limit'')
     else
     try_bind (ensure_existing_org db org) (\<lambda>_.
     try_bind (case nc_cover n of None \<Rightarrow> Inr () | Some a \<Rightarrow> ensure_artifact_readable db a actor) (\<lambda>_.
     try_bind (ensure_all_readable db ids actor) (\<lambda>_.
     if (case nc_cover n of None \<Rightarrow> False | Some a \<Rightarrow> a \<notin> set ids)
     then Inl (Validation ''cover artifact must be a collection member'')
     else
     let key = normalize_name env (nc_name n);
         (kind, principal_id) = kind_id env (ca_principal actor);
         c = \<lparr> co_id = nc_id n, co_org = org, co_name = normalize_text (nc_name n), co_name_key = key,
               co_description = normalize_text (nc_description n), co_color = nc_color n, co_cover = nc_cover n,
               co_cover_org = map_option (\<lambda>_. org) (nc_cover n), co_created_by = principal_id,
               co_created_by_kind = kind, co_created_at = ce_now env, co_updated_at = ce_now env \<rparr>
     in if find_collection db (nc_id n) \<noteq> None \<or> name_taken db (nc_id n) org key then Inl name_conflict
        else
        let db' = db\<lparr>cd_collections := cd_collections db @ [c],
                     cd_members := cd_members db @ new_members env (nc_id n) org ids\<rparr> in
        try_bind (append_audit env audit ''collection.create'' (nc_id n) org l) (\<lambda>l'.
          Inr ((c, artifact_count db' c), db', l')))))))))))"

definition collection_org :: "coll_db \<Rightarrow> string \<Rightarrow> CollectionActor \<Rightarrow> unit result" where
  "collection_org db cid actor =
     (case find_collection db cid of
        None \<Rightarrow> Inl (NotFound ''Collection not found'')
      | Some c \<Rightarrow> if co_org c \<noteq> ca_org actor then Inl ConcealedNotFound else Inr ())"

definition coll_members :: "coll_db \<Rightarrow> CollectionActor \<Rightarrow> string \<Rightarrow> string list result" where
  "coll_members db actor cid =
     try_bind (validate_id cid) (\<lambda>_.
     try_bind (collection_org db cid actor) (\<lambda>_.
       Inr (take 1000 (map me_artifact (sort_key me_created_at (sort_key me_artifact
         (filter (\<lambda>m. me_collection m = cid \<and> me_org m = ca_org actor) (cd_members db))))))))"

definition member_candidates :: "coll_db \<Rightarrow> string \<Rightarrow> string \<Rightarrow> string list" where
  "member_candidates db cid org =
     take 1000 (map me_artifact (sort_key me_artifact (filter (\<lambda>m. me_collection m = cid \<and> me_org m = org \<and>
       list_ex (\<lambda>a. am_id a = me_artifact m \<and> am_org a = me_org m) (cd_artifacts db)) (cd_members db))))"

definition readable_members :: "coll_db \<Rightarrow> CollectionActor \<Rightarrow> string \<Rightarrow> int \<Rightarrow> nat \<Rightarrow> string list result" where
  "readable_members db actor cid offset limit =
     try_bind (validate_id cid) (\<lambda>_.
     if i64_max < offset then Inl (Validation ''invalid cursor'')
     else
     try_bind (collection_org db cid actor) (\<lambda>_.
       Inr (take (min (max limit 1) (nat MAX_MEMBERSHIPS_PER_COLLECTION)) (drop (nat offset)
         (filter (\<lambda>i. is_ok (ensure_artifact_readable db i actor)) (member_candidates db cid (ca_org actor)))))))"

definition touch :: "coll_env \<Rightarrow> string \<Rightarrow> Collection list \<Rightarrow> Collection list" where
  "touch env cid = sql_update (\<lambda>c. co_id c = cid) (\<lambda>c. c\<lparr>co_updated_at := ce_now env\<rparr>)"

definition add_memberships_diff ::
    "coll_env \<Rightarrow> CollectionActor \<Rightarrow> string \<Rightarrow> string list \<Rightarrow> MutationAudit option \<Rightarrow> coll_db \<Rightarrow> ledger \<Rightarrow>
     ((string list \<times> string list) \<times> coll_db \<times> ledger) result" where
  "add_memberships_diff env actor cid requested audit db l =
     try_bind (validate_id cid) (\<lambda>_.
     try_bind (validate_ids requested) (\<lambda>_.
     let ids = first_occurrences [] requested in
     try_bind (authorize_org actor) (\<lambda>_.
     try_bind (ensure_collection_creator env db cid actor) (\<lambda>_.
     try_bind (ensure_all_readable db ids actor) (\<lambda>_.
     let count = count_rows (\<lambda>m. me_collection m = cid) (cd_members db);
         already = filter (is_member db cid) ids;
         added = filter (\<lambda>i. \<not> is_member db cid i) ids
     in if MAX_MEMBERSHIPS_PER_COLLECTION < count + int (length added)
        then Inl (Validation ''collection member limit reached'')
        else
        let db' = db\<lparr>cd_members := cd_members db @ new_members env cid (ca_org actor) added,
                     cd_collections := touch env cid (cd_collections db)\<rparr> in
        try_bind (append_audit env audit ''collection.membership.add'' cid (ca_org actor) l) (\<lambda>l'.
          Inr ((added, already), db', l')))))))"

definition remove_memberships_diff ::
    "coll_env \<Rightarrow> CollectionActor \<Rightarrow> string \<Rightarrow> string list \<Rightarrow> MutationAudit option \<Rightarrow> coll_db \<Rightarrow> ledger \<Rightarrow>
     ((string list \<times> string list) \<times> coll_db \<times> ledger) result" where
  "remove_memberships_diff env actor cid requested audit db l =
     try_bind (validate_id cid) (\<lambda>_.
     try_bind (validate_ids requested) (\<lambda>_.
     let ids = first_occurrences [] requested in
     try_bind (authorize_org actor) (\<lambda>_.
     try_bind (ensure_collection_creator env db cid actor) (\<lambda>_.
     try_bind (ensure_all_readable db ids actor) (\<lambda>_.
     let removed = filter (is_member db cid) ids;
         absent = filter (\<lambda>i. \<not> is_member db cid i) ids;
         cover = Option.bind (find_collection db cid) co_cover;
         uncover = (\<lambda>cs. if (case cover of None \<Rightarrow> False | Some a \<Rightarrow> a \<in> set removed)
                        then sql_update (\<lambda>c. co_id c = cid) (\<lambda>c. c\<lparr>co_cover := None, co_cover_org := None\<rparr>) cs else cs);
         db' = db\<lparr>cd_members := sql_delete (\<lambda>m. me_collection m = cid \<and> me_artifact m \<in> set removed) (cd_members db),
                  cd_collections := touch env cid (uncover (cd_collections db))\<rparr>
     in try_bind (append_audit env audit ''collection.membership.remove'' cid (ca_org actor) l) (\<lambda>l'.
          Inr ((removed, absent), db', l')))))))"

definition add_memberships_audited ::
    "coll_env \<Rightarrow> CollectionActor \<Rightarrow> string \<Rightarrow> string list \<Rightarrow> MutationAudit option \<Rightarrow> coll_db \<Rightarrow> ledger \<Rightarrow> (nat \<times> coll_db \<times> ledger) result" where
  "add_memberships_audited env actor cid ids audit db l =
     try_bind (add_memberships_diff env actor cid ids audit db l) (\<lambda>((changed, _), out). Inr (length changed, out))"

definition remove_memberships_audited ::
    "coll_env \<Rightarrow> CollectionActor \<Rightarrow> string \<Rightarrow> string list \<Rightarrow> MutationAudit option \<Rightarrow> coll_db \<Rightarrow> ledger \<Rightarrow> (nat \<times> coll_db \<times> ledger) result" where
  "remove_memberships_audited env actor cid ids audit db l =
     try_bind (remove_memberships_diff env actor cid ids audit db l) (\<lambda>((changed, _), out). Inr (length changed, out))"

definition update_audited ::
    "coll_env \<Rightarrow> CollectionActor \<Rightarrow> string \<Rightarrow> CollectionUpdate \<Rightarrow> MutationAudit option \<Rightarrow> coll_db \<Rightarrow> ledger \<Rightarrow>
     (coll_db \<times> ledger) result" where
  "update_audited env actor cid u audit db l =
     try_bind (validate_id cid) (\<lambda>_.
     try_bind (case cu_name u of None \<Rightarrow> Inr () | Some v \<Rightarrow> validate_name v) (\<lambda>_.
     try_bind (case cu_description u of None \<Rightarrow> Inr () | Some v \<Rightarrow> validate_description v) (\<lambda>_.
     try_bind (case cu_color u of None \<Rightarrow> Inr () | Some v \<Rightarrow> if v = [] then Inr () else validate_color v) (\<lambda>_.
     try_bind (ensure_collection_creator env db cid actor) (\<lambda>_.
     try_bind (if cu_clear_cover u then Inr () else
         case cu_cover_artifact_id u of None \<Rightarrow> Inr () | Some a \<Rightarrow> ensure_artifact_readable db a actor) (\<lambda>_.
     case find_collection db cid of
       None \<Rightarrow> Inl Internal
     | Some current \<Rightarrow>
         let name = normalize_text (case cu_name u of None \<Rightarrow> co_name current | Some v \<Rightarrow> v);
             description = normalize_text (case cu_description u of None \<Rightarrow> co_description current | Some v \<Rightarrow> v);
             color = (case cu_color u of
                        None \<Rightarrow> co_color current
                      | Some v \<Rightarrow> if v = [] \<or> v = ''null'' then None else Some v);
             cover = (if cu_clear_cover u then None
                      else case cu_cover_artifact_id u of None \<Rightarrow> co_cover current | Some a \<Rightarrow> Some a)
         in if (case cover of None \<Rightarrow> False | Some a \<Rightarrow> \<not> is_member db cid a)
            then Inl (Validation ''cover artifact must be a collection member'')
            else if name_taken db cid (co_org current) (normalize_name env name) then Inl name_conflict
            else
            let db' = db\<lparr>cd_collections := sql_update (\<lambda>c. co_id c = cid)
                  (\<lambda>c. c\<lparr>co_name := name, co_name_key := normalize_name env name, co_description := description,
                         co_color := color, co_cover := cover, co_cover_org := map_option (\<lambda>_. ca_org actor) cover,
                         co_updated_at := ce_now env\<rparr>) (cd_collections db)\<rparr> in
            try_bind (append_audit env audit ''collection.update'' cid (ca_org actor) l) (\<lambda>l'. Inr (db', l'))))))))"

text \<open>Deleting a collection removes its memberships through the foreign key.\<close>

definition delete_audited ::
    "coll_env \<Rightarrow> CollectionActor \<Rightarrow> string \<Rightarrow> MutationAudit option \<Rightarrow> coll_db \<Rightarrow> ledger \<Rightarrow> (coll_db \<times> ledger) result" where
  "delete_audited env actor cid audit db l =
     try_bind (validate_id cid) (\<lambda>_.
     try_bind (ensure_collection_creator env db cid actor) (\<lambda>_.
     let db' = db\<lparr>cd_collections := sql_delete (\<lambda>c. co_id c = cid) (cd_collections db),
                  cd_members := sql_delete (\<lambda>m. me_collection m = cid) (cd_members db)\<rparr> in
     try_bind (append_audit env audit ''collection.delete'' cid (ca_org actor) l) (\<lambda>l'. Inr (db', l'))))"

section \<open>Preferences\<close>

text \<open>The orgs whose collections an actor's preferences may mention, with the ids of each.\<close>

definition pref_scope :: "CollectionActor \<Rightarrow> Collection \<Rightarrow> bool" where
  "pref_scope actor c \<longleftrightarrow> ca_is_admin actor \<and> ca_org actor = ''all'' \<or> co_org c = ca_org actor"

definition allowed_ids :: "coll_db \<Rightarrow> CollectionActor \<Rightarrow> string \<Rightarrow> string set option" where
  "allowed_ids db actor org =
     (let visible = filter (pref_scope actor) (cd_collections db) in
      if ca_is_admin actor \<and> ca_org actor = ''all'' \<and> org = ''all'' then Some (set (map co_id visible))
      else if list_ex (\<lambda>c. co_org c = org) visible
      then Some (set (map co_id (filter (\<lambda>c. co_org c = org) visible)))
      else None)"

definition prune_map :: "coll_db \<Rightarrow> CollectionActor \<Rightarrow> id_map \<Rightarrow> id_map" where
  "prune_map db actor m =
     List.map_filter (\<lambda>(org, ids). map_option (\<lambda>valid. (org, first_occurrences [] (filter (\<lambda>i. i \<in> valid) ids)))
       (allowed_ids db actor org)) m"

definition prune_preferences :: "coll_db \<Rightarrow> CollectionActor \<Rightarrow> GalleryPreferences \<Rightarrow> GalleryPreferences" where
  "prune_preferences db actor p =
     p\<lparr>gp_order := prune_map db actor (gp_order p), gp_collapsed := prune_map db actor (gp_collapsed p)\<rparr>"

definition load_preferences :: "coll_env \<Rightarrow> coll_db \<Rightarrow> string \<Rightarrow> GalleryPreferences result" where
  "load_preferences env db email =
     (case List.find (\<lambda>r. pr_email r = email) (cd_preferences db) of
        None \<Rightarrow> Inr default_preferences
      | Some r \<Rightarrow>
          (case ce_read_state env (pr_state r) of
             None \<Rightarrow> Inl Internal
           | Some (order, collapsed) \<Rightarrow>
               let p = \<lparr> gp_view = pr_view r, gp_preview_size = pr_preview_size r, gp_artifact_layout = pr_artifact_layout r,
                         gp_order = (case order of None \<Rightarrow> [] | Some m \<Rightarrow> m),
                         gp_collapsed = (case collapsed of None \<Rightarrow> [] | Some m \<Rightarrow> m) \<rparr>
               in try_bind (validate_preferences p) (\<lambda>_. Inr p)))"

definition preferences :: "coll_env \<Rightarrow> coll_db \<Rightarrow> CollectionActor \<Rightarrow> GalleryPreferences result" where
  "preferences env db actor =
     try_bind (authorize_org actor) (\<lambda>_.
     try_bind (load_preferences env db (ce_lower env (ca_email actor))) (\<lambda>p.
       Inr (prune_preferences db actor p)))"

definition preference_row_of :: "coll_env \<Rightarrow> string \<Rightarrow> GalleryPreferences \<Rightarrow> preference_row" where
  "preference_row_of env email p =
     \<lparr> pr_email = email, pr_view = gp_view p, pr_preview_size = gp_preview_size p, pr_artifact_layout = gp_artifact_layout p,
       pr_state = ce_state_json env (gp_order p) (gp_collapsed p) \<rparr>"

definition save_preferences ::
    "coll_env \<Rightarrow> CollectionActor \<Rightarrow> GalleryPreferences \<Rightarrow> coll_db \<Rightarrow> (GalleryPreferences \<times> coll_db) result" where
  "save_preferences env actor p db =
     try_bind (authorize_org actor) (\<lambda>_.
     try_bind (validate_preferences p) (\<lambda>_.
     let write_actor = (if ca_is_admin actor then actor\<lparr>ca_org := ''all''\<rparr> else actor);
         normalized = prune_preferences db write_actor p;
         email = ce_lower env (ca_email actor);
         row = preference_row_of env email normalized;
         rows = (if list_ex (\<lambda>r. pr_email r = email) (cd_preferences db)
                 then sql_update (\<lambda>r. pr_email r = email) (\<lambda>_. row) (cd_preferences db)
                 else cd_preferences db @ [row])
     in Inr (normalized, db\<lparr>cd_preferences := rows\<rparr>)))"

end
