(* ===== verification/Collection_Laws.thy ===== *)
theory Collection_Laws
  imports Collections Outbox_Invariants
begin

text \<open>
  What the collections of Collections satisfy: the invariant of every reachable state (with the
  cascades and the trigger of the schema as steps), who may edit what, that additions and removals of
  memberships are exact and inverse, and that gallery preferences read back as they were saved.
\<close>

section \<open>Runs\<close>

definition publish_artifact :: "ArtifactMeta \<Rightarrow> coll_db \<Rightarrow> coll_db" where
  "publish_artifact a db = db\<lparr>cd_artifacts := cd_artifacts db @ [a]\<rparr>"

definition clear_cover :: "string \<Rightarrow> Collection \<Rightarrow> Collection" where
  "clear_cover aid c = (if co_cover c = Some aid then c\<lparr>co_cover := None, co_cover_org := None\<rparr> else c)"

text \<open>
  The schema's part in the life of an artifact: a deletion cascades to its memberships and nulls the
  covers that show it; the trigger on a move to another organization (WHEN NEW.org <> OLD.org) removes
  the memberships and covers of the organization left before the move, and a move within the
  organization changes nothing.
\<close>

definition drop_artifact :: "string \<Rightarrow> coll_db \<Rightarrow> coll_db" where
  "drop_artifact aid db =
     db\<lparr>cd_artifacts := sql_delete (\<lambda>a. am_id a = aid) (cd_artifacts db),
        cd_members := sql_delete (\<lambda>m. me_artifact m = aid) (cd_members db),
        cd_collections := map (clear_cover aid) (cd_collections db)\<rparr>"

definition relocate_artifact :: "coll_env \<Rightarrow> string \<Rightarrow> string \<Rightarrow> coll_db \<Rightarrow> coll_db" where
  "relocate_artifact env aid org db =
     (case find_artifact db aid of
        None \<Rightarrow> db
      | Some old \<Rightarrow>
          if org = am_org old then db
          else db\<lparr>cd_artifacts := sql_update (\<lambda>a. am_id a = aid) (\<lambda>a. a\<lparr>am_org := org\<rparr>) (cd_artifacts db),
                 cd_members := sql_delete (\<lambda>m. me_artifact m = aid \<and> me_org m = am_org old) (cd_members db),
                 cd_collections := sql_update (\<lambda>c. co_cover c = Some aid \<and> co_cover_org c = Some (am_org old))
                   (\<lambda>c. c\<lparr>co_cover := None, co_cover_org := None, co_updated_at := ce_now env\<rparr>) (cd_collections db)\<rparr>)"

definition drop_org :: "string \<Rightarrow> coll_db \<Rightarrow> coll_db" where
  "drop_org org db =
     db\<lparr>cd_orgs := removeAll org (cd_orgs db),
        cd_collections := sql_delete (\<lambda>c. co_org c = org) (cd_collections db),
        cd_members := sql_delete (\<lambda>m. me_org m = org) (cd_members db)\<rparr>"

text \<open>
  The steps of a run. \<open>lower\<close> is the one case folding (\<open>str::to_lowercase\<close>) all of them use; clocks, audit
  keys and codecs may differ from step to step.
\<close>

inductive coll_step :: "(string \<Rightarrow> string) \<Rightarrow> coll_db \<Rightarrow> coll_db \<Rightarrow> bool" for lower where
  created: "ce_lower env = lower \<Longrightarrow> create_atomic env actor n audit db l = Inr (out, db', l') \<Longrightarrow> coll_step lower db db'"
| added: "ce_lower env = lower \<Longrightarrow> add_memberships_diff env actor cid ids audit db l = Inr (out, db', l') \<Longrightarrow> coll_step lower db db'"
| removed: "ce_lower env = lower \<Longrightarrow> remove_memberships_diff env actor cid ids audit db l = Inr (out, db', l') \<Longrightarrow> coll_step lower db db'"
| updated: "ce_lower env = lower \<Longrightarrow> update_audited env actor cid u audit db l = Inr (db', l') \<Longrightarrow> coll_step lower db db'"
| deleted: "ce_lower env = lower \<Longrightarrow> delete_audited env actor cid audit db l = Inr (db', l') \<Longrightarrow> coll_step lower db db'"
| preferred: "ce_lower env = lower \<Longrightarrow> save_preferences env actor p db = Inr (out, db') \<Longrightarrow> coll_step lower db db'"
| published: "am_id a \<notin> set (map am_id (cd_artifacts db)) \<Longrightarrow> coll_step lower db (publish_artifact a db)"
| dropped: "coll_step lower db (drop_artifact aid db)"
| relocated: "coll_step lower db (relocate_artifact env aid org db)"
| founded: "coll_step lower db (db\<lparr>cd_orgs := org # cd_orgs db\<rparr>)"
| dissolved: "coll_step lower db (drop_org org db)"

definition collections_ok :: "coll_db \<Rightarrow> bool" where
  "collections_ok db \<longleftrightarrow>
     distinct (map co_id (cd_collections db)) \<and>
     distinct (map (\<lambda>c. (co_org c, co_name_key c)) (cd_collections db)) \<and>
     (\<forall>c \<in> set (cd_collections db). co_org c \<in> set (cd_orgs db)) \<and>
     (\<forall>o'. count_rows (\<lambda>c. co_org c = o') (cd_collections db) \<le> MAX_COLLECTIONS_PER_ORG)"

definition covers_ok :: "coll_db \<Rightarrow> bool" where
  "covers_ok db \<longleftrightarrow> (\<forall>c \<in> set (cd_collections db). \<forall>a. co_cover c = Some a \<longrightarrow>
     is_member db (co_id c) a \<and> co_cover_org c = Some (co_org c))"

definition members_ok :: "coll_db \<Rightarrow> bool" where
  "members_ok db \<longleftrightarrow>
     distinct (map (\<lambda>m. (me_collection m, me_artifact m)) (cd_members db)) \<and>
     (\<forall>m \<in> set (cd_members db).
        (\<exists>c \<in> set (cd_collections db). co_id c = me_collection m \<and> co_org c = me_org m) \<and>
        (\<exists>a \<in> set (cd_artifacts db). am_id a = me_artifact m \<and> am_org a = me_org m)) \<and>
     (\<forall>cid. count_rows (\<lambda>m. me_collection m = cid) (cd_members db) \<le> MAX_MEMBERSHIPS_PER_COLLECTION) \<and>
     distinct (map am_id (cd_artifacts db))"

text \<open>The key of a collection is its name in lower case, and the name is in normal form.\<close>

definition name_kept :: "(string \<Rightarrow> string) \<Rightarrow> Collection \<Rightarrow> bool" where
  "name_kept lower c \<longleftrightarrow> normalize_text (co_name c) = co_name c \<and> co_name_key c = lower (co_name c)"

definition coll_ok :: "coll_db \<Rightarrow> bool" where
  "coll_ok db \<longleftrightarrow> collections_ok db \<and> covers_ok db \<and> members_ok db"

lemma count_filter_le: "count_rows p (filter h xs) \<le> count_rows p xs"
  by (induction xs) auto

lemma shrink_ok:
  assumes ok: "coll_ok db"
    and cs: "cd_collections db' = map g (filter k (cd_collections db))" and ms: "cd_members db' = filter h (cd_members db)"
    and g: "\<And>c. co_id (g c) = co_id c" "\<And>c. co_org (g c) = co_org c" "\<And>c. co_name_key (g c) = co_name_key c"
    and cover: "\<And>c. c \<in> set (cd_collections db) \<Longrightarrow> k c \<Longrightarrow> co_cover (g c) \<noteq> None \<Longrightarrow>
      co_cover (g c) = co_cover c \<and> co_cover_org (g c) = co_cover_org c \<and>
      (\<forall>m \<in> set (cd_members db). me_collection m = co_id c \<longrightarrow> Some (me_artifact m) = co_cover c \<longrightarrow> h m)"
    and keep: "\<And>m c. m \<in> set (cd_members db) \<Longrightarrow> h m \<Longrightarrow> c \<in> set (cd_collections db) \<Longrightarrow> co_id c = me_collection m \<Longrightarrow>
      co_org c = me_org m \<Longrightarrow> k c"
    and arts: "\<And>m a. m \<in> set (cd_members db) \<Longrightarrow> h m \<Longrightarrow> a \<in> set (cd_artifacts db) \<Longrightarrow> am_id a = me_artifact m \<Longrightarrow>
      am_org a = me_org m \<Longrightarrow> a \<in> set (cd_artifacts db')"
    and ids: "distinct (map am_id (cd_artifacts db'))"
    and orgs: "\<And>c. c \<in> set (cd_collections db) \<Longrightarrow> k c \<Longrightarrow> co_org c \<in> set (cd_orgs db) \<Longrightarrow> co_org c \<in> set (cd_orgs db')"
  shows "coll_ok db'"
proof -
  have c: "distinct (map co_id (cd_collections db))" "distinct (map (\<lambda>c. (co_org c, co_name_key c)) (cd_collections db))"
    "\<And>c. c \<in> set (cd_collections db) \<Longrightarrow> co_org c \<in> set (cd_orgs db)"
    "\<And>o'. count_rows (\<lambda>c. co_org c = o') (cd_collections db) \<le> MAX_COLLECTIONS_PER_ORG"
    using ok by (auto simp: coll_ok_def collections_ok_def)
  have "map co_id (cd_collections db') = map co_id (filter k (cd_collections db))"
    "map (\<lambda>c. (co_org c, co_name_key c)) (cd_collections db') = map (\<lambda>c. (co_org c, co_name_key c)) (filter k (cd_collections db))"
    by (simp_all add: cs g)
  moreover have "count_rows (\<lambda>c. co_org c = o') (cd_collections db') \<le> MAX_COLLECTIONS_PER_ORG" for o'
  proof -
    have "count_rows (\<lambda>c. co_org c = o') (cd_collections db') = count_rows (\<lambda>c. co_org c = o') (filter k (cd_collections db))"
      by (simp add: cs count_rows_map comp_def g)
    then show ?thesis using count_filter_le [of _ k "cd_collections db"] c(4) order_trans by metis
  qed
  moreover have "distinct (map co_id (filter k (cd_collections db)))"
    "distinct (map (\<lambda>c. (co_org c, co_name_key c)) (filter k (cd_collections db)))"
    using c(1,2) by (simp_all add: distinct_map_filter)
  moreover have "co_org d \<in> set (cd_orgs db')" if "d \<in> set (cd_collections db')" for d
    using that c(3) orgs by (auto simp: cs g)
  ultimately have "collections_ok db'"
    unfolding collections_ok_def by simp
  moreover have "covers_ok db'"
    unfolding covers_ok_def
  proof (intro ballI allI impI)
    fix d a
    assume "d \<in> set (cd_collections db')" and a: "co_cover d = Some a"
    then obtain e where e: "e \<in> set (cd_collections db)" "k e" "d = g e" by (auto simp: cs)
    have some: "co_cover (g e) = Some a" using a e(3) by simp
    then have kept: "co_cover e = Some a" "co_cover_org (g e) = co_cover_org e"
      "\<And>m. m \<in> set (cd_members db) \<Longrightarrow> me_collection m = co_id e \<Longrightarrow> me_artifact m = a \<Longrightarrow> h m"
      using cover [OF e(1,2)] by auto
    have "is_member db (co_id e) a" "co_cover_org e = Some (co_org e)"
      using ok e kept(1) by (auto simp: coll_ok_def covers_ok_def)
    then show "is_member db' (co_id d) a \<and> co_cover_org d = Some (co_org d)"
      using kept(2,3) e(3) by (auto simp: is_member_def list_ex_iff ms g)
  qed
  moreover have "members_ok db'"
    unfolding members_ok_def
  proof (intro conjI ballI allI)
    show "distinct (map (\<lambda>m. (me_collection m, me_artifact m)) (cd_members db'))"
      using ok by (simp add: coll_ok_def members_ok_def ms distinct_map_filter)
    show "count_rows (\<lambda>m. me_collection m = cid) (cd_members db') \<le> MAX_MEMBERSHIPS_PER_COLLECTION" for cid
      using ok count_filter_le [of _ h "cd_members db"] unfolding coll_ok_def members_ok_def ms by (meson order_trans)
    fix m
    assume "m \<in> set (cd_members db')"
    then have m: "m \<in> set (cd_members db)" "h m" by (auto simp: ms)
    with ok obtain e a where "e \<in> set (cd_collections db)" "co_id e = me_collection m" "co_org e = me_org m"
      and "a \<in> set (cd_artifacts db)" "am_id a = me_artifact m" "am_org a = me_org m"
      unfolding coll_ok_def members_ok_def by blast
    then show "\<exists>c \<in> set (cd_collections db'). co_id c = me_collection m \<and> co_org c = me_org m"
      and "\<exists>a \<in> set (cd_artifacts db'). am_id a = me_artifact m \<and> am_org a = me_org m"
      using keep [OF m] arts [OF m] by (auto simp: cs g)
  qed (rule ids)
  ultimately show ?thesis by (simp add: coll_ok_def)
qed

lemma validate_each_id_distinct:
  "validate_each_id seen ids = Inr u \<Longrightarrow> distinct ids \<and> set ids \<inter> set seen = {}"
  by (induction ids arbitrary: seen) (fastforce split: sum.splits if_splits)+

lemma first_occurrences_distinct: "distinct ids \<Longrightarrow> set ids \<inter> set seen = {} \<Longrightarrow> first_occurrences seen ids = ids"
  by (induction ids arbitrary: seen) auto

lemma validate_ids_ok:
  assumes "validate_ids ids = Inr u"
  shows "distinct ids" and "first_occurrences [] ids = ids" and "length ids \<le> 100"
  using assms validate_each_id_distinct [of "[]" ids]
  by (auto simp: validate_ids_def MAX_MEMBERSHIPS_PER_REQUEST_def first_occurrences_distinct split: if_splits)

lemma creator_ok:
  assumes "ensure_collection_creator env db cid actor = Inr u"
  obtains c where "find_collection db cid = Some c" "co_org c = ca_org actor" "ca_is_admin actor \<or> matches_principal env actor c"
  using assms by (auto simp: ensure_collection_creator_def split: option.splits if_splits)

lemma all_readable_iff:
  "ensure_all_readable db ids actor = Inr () \<longleftrightarrow>
     (\<forall>i \<in> set ids. \<exists>a. find_artifact db i = Some a \<and> artifact_readable actor a)"
  by (induction ids)
     (auto simp: ensure_all_readable_def ensure_artifact_readable_def result_simps split: option.splits if_splits)

lemma find_collection_mem: "find_collection db cid = Some c \<Longrightarrow> c \<in> set (cd_collections db) \<and> co_id c = cid"
  by (auto simp: find_collection_def find_Some_iff)

lemma find_artifact_mem: "find_artifact db i = Some a \<Longrightarrow> a \<in> set (cd_artifacts db) \<and> am_id a = i"
  by (auto simp: find_artifact_def find_Some_iff)

lemma unit_bind: "try_bind r (\<lambda>_. f) = Inr x \<longleftrightarrow> r = Inr () \<and> f = Inr (x :: 'b)" for r :: "unit result"
  by (cases r) auto

lemma add_cases:
  assumes "add_memberships_diff env actor cid requested audit db l = Inr (out, db', l')"
  obtains c where "find_collection db cid = Some c" "co_org c = ca_org actor" "ca_is_admin actor \<or> matches_principal env actor c"
    "distinct requested" "\<forall>i \<in> set requested. \<exists>a. find_artifact db i = Some a \<and> artifact_readable actor a"
    "out = (filter (\<lambda>i. \<not> is_member db cid i) requested, filter (is_member db cid) requested)"
    "count_rows (\<lambda>m. me_collection m = cid) (cd_members db) + int (length (fst out)) \<le> MAX_MEMBERSHIPS_PER_COLLECTION"
    "db' = db\<lparr>cd_members := cd_members db @ new_members env cid (ca_org actor) (fst out),
              cd_collections := touch env cid (cd_collections db)\<rparr>"
proof -
  have v: "validate_ids requested = Inr ()" and e: "ensure_collection_creator env db cid actor = Inr ()"
    using assms by (auto simp: add_memberships_diff_def Let_def unit_bind)
  note ids = validate_ids_ok [OF v]
  from e obtain c where c: "find_collection db cid = Some c" "co_org c = ca_org actor" "ca_is_admin actor \<or> matches_principal env actor c"
    by (rule creator_ok)
  show thesis
    by (rule that [OF c ids(1)])
      (use assms ids in \<open>auto simp: add_memberships_diff_def unit_bind Let_def all_readable_iff result_simps split: if_splits\<close>)
qed

lemma remove_cases:
  assumes "remove_memberships_diff env actor cid requested audit db l = Inr (out, db', l')"
  obtains c where "find_collection db cid = Some c" "co_org c = ca_org actor" "ca_is_admin actor \<or> matches_principal env actor c"
    "distinct requested" "\<forall>i \<in> set requested. \<exists>a. find_artifact db i = Some a \<and> artifact_readable actor a"
    "out = (filter (is_member db cid) requested, filter (\<lambda>i. \<not> is_member db cid i) requested)"
    "db' = db\<lparr>cd_members := sql_delete (\<lambda>m. me_collection m = cid \<and> me_artifact m \<in> set (fst out)) (cd_members db),
              cd_collections := touch env cid
                (if (case co_cover c of None \<Rightarrow> False | Some a \<Rightarrow> a \<in> set (fst out))
                 then sql_update (\<lambda>c. co_id c = cid) (\<lambda>c. c\<lparr>co_cover := None, co_cover_org := None\<rparr>) (cd_collections db)
                 else cd_collections db)\<rparr>"
proof -
  have v: "validate_ids requested = Inr ()" and e: "ensure_collection_creator env db cid actor = Inr ()"
    using assms by (auto simp: remove_memberships_diff_def Let_def unit_bind)
  note ids = validate_ids_ok [OF v]
  from e obtain c where c: "find_collection db cid = Some c" "co_org c = ca_org actor" "ca_is_admin actor \<or> matches_principal env actor c"
    by (rule creator_ok)
  show thesis
    by (rule that [OF c ids(1)])
      (use assms ids c(1) in \<open>auto simp: remove_memberships_diff_def unit_bind Let_def all_readable_iff result_simps
         cong: if_cong option.case_cong\<close>)
qed

subsection \<open>Names in normal form\<close>

lemma utf8_run_append:
  assumes "\<And>d ds. t = d # ds \<Longrightarrow> \<not> continuation d"
  shows "utf8_run c (s @ t) = utf8_run c s"
proof -
  have "takeWhile continuation (take k ds @ take m t) = takeWhile continuation (take k ds)" for k m ds
    using assms by (cases t; cases m) (auto simp: takeWhile_append takeWhile_eq_all_conv [THEN iffD2])
  then show ?thesis
    using assms by (cases s; cases t) (auto simp: utf8_run_def second_byte_ok_def split: list.splits)
qed

lemma utf8_run_le: "utf8_run c s \<le> length s"
  by (cases s) (auto simp: utf8_run_def intro: le_trans [OF length_takeWhile_le])

lemma utf8_chars_Cons: "utf8_chars (c # s) = (c # take (utf8_run c s) s) # utf8_chars (drop (utf8_run c s) s)"
  by (simp add: utf8_chars_def Let_def)

lemma utf8_chars_Nil [simp]: "utf8_chars [] = []"
  by (simp add: utf8_chars_def)

lemma utf8_chars_append:
  assumes "\<And>d ds. t = d # ds \<Longrightarrow> \<not> continuation d"
  shows "utf8_chars (s @ t) = utf8_chars s @ utf8_chars t"
proof (induction s rule: utf8_pieces.induct)
  case (2 c s)
  then show ?case
    using utf8_run_append [OF assms, where c = c and s = s] utf8_run_le [of c s] by (simp add: utf8_chars_Cons)
qed simp

lemma utf8_chars_nonempty: "p \<in> set (utf8_chars s) \<Longrightarrow> p \<noteq> []"
  by (induction s rule: utf8_pieces.induct) (auto simp: utf8_chars_Cons)

lemma utf8_chars_suffix: "utf8_chars s = ps @ qs \<Longrightarrow> utf8_chars (concat qs) = qs"
proof (induction ps arbitrary: s)
  case (Cons p ps)
  then show ?case by (cases s) (auto simp: utf8_chars_Cons)
qed (metis append_Nil concat_utf8_chars)

lemma nonempty_concat_same: "concat ps = concat qs \<Longrightarrow> ps @ xs = qs @ ys \<Longrightarrow> \<forall>p \<in> set (ps @ xs). p \<noteq> [] \<Longrightarrow> ps = qs"
  by (auto simp: append_eq_append_conv2)

lemma utf8_chars_prefix:
  assumes "utf8_chars s = ps @ q # qs" and "\<not> continuation (hd q)"
  shows "utf8_chars (concat ps) = ps"
proof -
  have q: "q \<noteq> []" using assms(1) utf8_chars_nonempty [of q s] by simp
  have "s = concat ps @ q @ concat qs" using arg_cong [OF assms(1), of concat] by simp
  then have "utf8_chars s = utf8_chars (concat ps) @ utf8_chars (q @ concat qs)"
    using utf8_chars_append [of "q @ concat qs" "concat ps"] q assms(2) by (cases q) auto
  then have same: "utf8_chars (concat ps) @ utf8_chars (q @ concat qs) = ps @ q # qs" using assms(1) by simp
  show ?thesis
    by (rule nonempty_concat_same [OF _ same]) (use utf8_chars_nonempty in \<open>simp, fastforce\<close>)
qed

lemma white_space_starts: "ch \<in> set unicode_white_space \<Longrightarrow> \<not> continuation (hd ch)"
  by (auto simp: unicode_white_space_def continuation_def octet_def)

definition plain_words :: "string list \<Rightarrow> bool" where
  "plain_words ws \<longleftrightarrow> (\<forall>w \<in> set ws. w \<noteq> [] \<and> set (utf8_chars w) \<inter> set unicode_white_space = {})"

lemma split_words_plain:
  "utf8_chars s = taken @ chs \<Longrightarrow> set taken \<inter> set unicode_white_space = {} \<Longrightarrow> plain_words (split_words (concat taken) chs)"
proof (induction chs arbitrary: s taken)
  case Nil
  then show ?case
    using utf8_chars_suffix [of s "[]" taken] by (auto simp: plain_words_def)
next
  case (Cons ch chs)
  show ?case
  proof (cases "ch \<in> set unicode_white_space")
    case True
    have "utf8_chars (concat chs) = [] @ chs" using utf8_chars_suffix [of s "taken @ [ch]" chs] Cons.prems(1) by simp
    from Cons.IH [OF this] have rest: "plain_words (split_words [] chs)" by simp
    have "utf8_chars (concat taken) = taken"
      using utf8_chars_prefix [OF Cons.prems(1)] white_space_starts [OF True] .
    then show ?thesis using True rest Cons.prems(2) by (auto simp: plain_words_def)
  next
    case False
    then show ?thesis using Cons.IH [of s "taken @ [ch]"] Cons.prems by simp
  qed
qed

lemma split_words_skip:
  "set cs \<inter> set unicode_white_space = {} \<Longrightarrow> split_words w (cs @ rest) = split_words (w @ concat cs) rest"
  by (induction cs arbitrary: w) auto

lemma blank_char: "utf8_chars (CHR '' '' # s) = '' '' # utf8_chars s" "'' '' \<in> set unicode_white_space" "\<not> continuation CHR '' ''"
  by (simp_all add: utf8_chars_Cons utf8_run_def utf8_width_def octet_def unicode_white_space_def continuation_def)

lemma split_join_words: "plain_words ws \<Longrightarrow> split_words [] (utf8_chars (join_words ws)) = ws"
proof (induction ws rule: join_words.induct)
  case (2 w)
  then show ?case using split_words_skip [of "utf8_chars w" "[]" "[]"] by (simp add: plain_words_def)
next
  case (3 w v ws)
  have "utf8_chars (w @ CHR '' '' # join_words (v # ws)) = utf8_chars w @ '' '' # utf8_chars (join_words (v # ws))"
    using utf8_chars_append [of "CHR '' '' # join_words (v # ws)" w] blank_char by simp
  then show ?case
    using 3 split_words_skip [of "utf8_chars w" "[]"] blank_char(2) by (simp add: plain_words_def)
qed simp

lemma normalize_text_idem: "normalize_text (normalize_text v) = normalize_text v"
  unfolding normalize_text_def using split_words_plain [of v "[]" "utf8_chars v"] by (simp add: split_join_words)

lemma normalize_name_eq: "normalize_name env v = ce_lower env (normalize_text v)"
  by (simp add: normalize_name_def normalize_text_def)

subsection \<open>What a committed operation did\<close>

lemma update_cases:
  assumes "update_audited env actor cid u audit db l = Inr (db', l')"
  obtains c name description color cover where
    "find_collection db cid = Some c" "co_org c = ca_org actor" "ca_is_admin actor \<or> matches_principal env actor c"
    "\<forall>a. cover = Some a \<longrightarrow> is_member db cid a" "\<not> name_taken db cid (co_org c) (normalize_name env name)"
    "db' = db\<lparr>cd_collections := sql_update (\<lambda>c. co_id c = cid)
                  (\<lambda>c. c\<lparr>co_name := name, co_name_key := normalize_name env name, co_description := description,
                         co_color := color, co_cover := cover, co_cover_org := map_option (\<lambda>_. ca_org actor) cover,
                         co_updated_at := ce_now env\<rparr>) (cd_collections db)\<rparr>"
    "normalize_text name = name"
proof -
  have e: "ensure_collection_creator env db cid actor = Inr ()"
    using assms by (auto simp: update_audited_def unit_bind)
  from e obtain c where c: "find_collection db cid = Some c" "co_org c = ca_org actor" "ca_is_admin actor \<or> matches_principal env actor c"
    by (rule creator_ok)
  let ?name = "normalize_text (case cu_name u of None \<Rightarrow> co_name c | Some v \<Rightarrow> v)"
  let ?description = "normalize_text (case cu_description u of None \<Rightarrow> co_description c | Some v \<Rightarrow> v)"
  let ?color = "case cu_color u of None \<Rightarrow> co_color c | Some v \<Rightarrow> if v = [] \<or> v = ''null'' then None else Some v"
  let ?cover = "if cu_clear_cover u then None else case cu_cover_artifact_id u of None \<Rightarrow> co_cover c | Some a \<Rightarrow> Some a"
  have checks: "\<not> (case ?cover of None \<Rightarrow> False | Some a \<Rightarrow> \<not> is_member db cid a)"
    "\<not> name_taken db cid (co_org c) (normalize_name env ?name)"
    and db': "db' = db\<lparr>cd_collections := sql_update (\<lambda>c. co_id c = cid)
                  (\<lambda>c. c\<lparr>co_name := ?name, co_name_key := normalize_name env ?name, co_description := ?description,
                         co_color := ?color, co_cover := ?cover, co_cover_org := map_option (\<lambda>_. ca_org actor) ?cover,
                         co_updated_at := ce_now env\<rparr>) (cd_collections db)\<rparr>"
    using assms unfolding update_audited_def unit_bind Let_def c(1) option.case
    by (simp_all only: try_bind_Inr_iff if_split_eq1 if_split_eq2 split: if_split_asm) auto
  show thesis by (rule that [OF c _ checks(2) db']) (use checks(1) in \<open>auto simp: normalize_text_idem split: option.splits\<close>)
qed

lemma delete_cases:
  assumes "delete_audited env actor cid audit db l = Inr (db', l')"
  obtains c where "find_collection db cid = Some c" "co_org c = ca_org actor" "ca_is_admin actor \<or> matches_principal env actor c"
    "db' = db\<lparr>cd_collections := sql_delete (\<lambda>c. co_id c = cid) (cd_collections db),
              cd_members := sql_delete (\<lambda>m. me_collection m = cid) (cd_members db)\<rparr>"
proof -
  have e: "ensure_collection_creator env db cid actor = Inr ()"
    using assms by (auto simp: delete_audited_def unit_bind)
  from e obtain c where c: "find_collection db cid = Some c" "co_org c = ca_org actor" "ca_is_admin actor \<or> matches_principal env actor c"
    by (rule creator_ok)
  show thesis by (rule that [OF c]) (use assms in \<open>auto simp: delete_audited_def unit_bind Let_def result_simps\<close>)
qed

section \<open>Every step keeps the invariant\<close>

lemma same_collection:
  assumes "coll_ok db" and "find_collection db cid = Some c" and "d \<in> set (cd_collections db)" and "co_id d = cid"
  shows "d = c"
  using assms find_collection_mem [OF assms(2)]
  by (auto simp: coll_ok_def collections_ok_def distinct_map inj_on_def)

lemma is_member_iff: "is_member db cid aid \<longleftrightarrow> (cid, aid) \<in> (\<lambda>m. (me_collection m, me_artifact m)) ` set (cd_members db)"
  by (auto simp: is_member_def list_ex_iff image_iff)

lemma delete_ok:
  assumes "coll_ok db" and "delete_audited env actor cid audit db l = Inr (db', l')"
  shows "coll_ok db'"
  using assms(2)
proof (cases rule: delete_cases)
  case (1 c)
  show ?thesis
    by (rule shrink_ok [OF assms(1), of _ id "\<lambda>c. co_id c \<noteq> cid" "\<lambda>m. me_collection m \<noteq> cid"])
      (use assms(1) in \<open>auto simp: 1 sql_delete_def coll_ok_def members_ok_def\<close>)
qed

lemma remove_ok:
  assumes "coll_ok db" and "remove_memberships_diff env actor cid requested audit db l = Inr (out, db', l')"
  shows "coll_ok db'"
  using assms(2)
proof (cases rule: remove_cases)
  case (1 c)
  let ?drop = "case co_cover c of None \<Rightarrow> False | Some a \<Rightarrow> a \<in> set (fst out)"
  let ?g = "\<lambda>d. if co_id d = cid then (if ?drop then d\<lparr>co_cover := None, co_cover_org := None\<rparr> else d)\<lparr>co_updated_at := ce_now env\<rparr> else d"
  have cs: "cd_collections db' = map ?g (filter (\<lambda>_. True) (cd_collections db))"
    by (simp add: 1(7) touch_def sql_update_def)
  have ms: "cd_members db' = filter (\<lambda>m. \<not> (me_collection m = cid \<and> me_artifact m \<in> set (fst out))) (cd_members db)"
    by (simp add: 1(7) sql_delete_def)
  have cov: "co_cover (?g d) = co_cover d \<and> co_cover_org (?g d) = co_cover_org d \<and>
      (\<forall>m \<in> set (cd_members db). me_collection m = co_id d \<longrightarrow> Some (me_artifact m) = co_cover d \<longrightarrow>
        \<not> (me_collection m = cid \<and> me_artifact m \<in> set (fst out)))"
    if "d \<in> set (cd_collections db)" "True" "co_cover (?g d) \<noteq> None" for d
  proof (cases "co_id d = cid")
    case True
    then have "d = c" using same_collection [OF assms(1) 1(1) that(1)] by simp
    then show ?thesis using that(3) True by (auto split: if_splits option.splits)
  qed auto
  show ?thesis
    by (rule shrink_ok [OF assms(1) cs ms _ _ _ cov]) (use assms(1) in \<open>auto simp: 1(7) coll_ok_def members_ok_def\<close>)
qed

lemma drop_artifact_ok: "coll_ok db \<Longrightarrow> coll_ok (drop_artifact aid db)"
  by (rule shrink_ok [of db _ "clear_cover aid" "\<lambda>_. True" "\<lambda>m. me_artifact m \<noteq> aid"])
    (auto simp: drop_artifact_def sql_delete_def clear_cover_def coll_ok_def members_ok_def distinct_map_filter split: if_splits)

lemma drop_org_ok:
  assumes "coll_ok db"
  shows "coll_ok (drop_org org db)"
proof -
  have m: "\<exists>c \<in> set (cd_collections db). co_id c = me_collection m \<and> co_org c = me_org m" if "m \<in> set (cd_members db)" for m
    using assms that by (auto simp: coll_ok_def members_ok_def)
  have same: "co_org d = me_org m" if "m \<in> set (cd_members db)" "d \<in> set (cd_collections db)" "co_id d = me_collection m" for m d
    using assms m [OF that(1)] that(2,3) by (auto simp: coll_ok_def collections_ok_def distinct_map inj_on_def)
  show ?thesis
    by (rule shrink_ok [OF assms, of _ id "\<lambda>c. co_org c \<noteq> org" "\<lambda>m. me_org m \<noteq> org"])
      (use assms same in \<open>auto simp: drop_org_def sql_delete_def coll_ok_def members_ok_def\<close>)
qed

lemma relocate_ok:
  assumes "coll_ok db"
  shows "coll_ok (relocate_artifact env aid org db)"
proof (cases "find_artifact db aid")
  case None
  then show ?thesis using assms by (simp add: relocate_artifact_def)
next
  case (Some old)
  note old = find_artifact_mem [OF Some]
  let ?g = "\<lambda>c. if co_cover c = Some aid \<and> co_cover_org c = Some (am_org old)
    then c\<lparr>co_cover := None, co_cover_org := None, co_updated_at := ce_now env\<rparr> else c"
  let ?h = "\<lambda>m. \<not> (me_artifact m = aid \<and> me_org m = am_org old)"
  have sole: "a = old" if "a \<in> set (cd_artifacts db)" "am_id a = aid" for a
    using assms old that by (auto simp: coll_ok_def members_ok_def distinct_map inj_on_def)
  have joined: "co_cover_org d = Some (me_org m)"
    if "d \<in> set (cd_collections db)" "co_cover d = Some a" "m \<in> set (cd_members db)" "me_collection m = co_id d" for d a m
    using assms that unfolding coll_ok_def covers_ok_def members_ok_def collections_ok_def distinct_map inj_on_def by metis
  show ?thesis
  proof (cases "org = am_org old")
    case False
    let ?db = "relocate_artifact env aid org db"
    have cs: "cd_collections ?db = map ?g (filter (\<lambda>_. True) (cd_collections db))"
      and ms: "cd_members ?db = filter ?h (cd_members db)" and orgs: "cd_orgs ?db = cd_orgs db"
      and as: "cd_artifacts ?db = sql_update (\<lambda>a. am_id a = aid) (\<lambda>a. a\<lparr>am_org := org\<rparr>) (cd_artifacts db)"
      using False by (simp_all add: relocate_artifact_def Some sql_delete_def sql_update_def)
    show ?thesis
    proof (rule shrink_ok [OF assms cs ms])
      fix d
      assume d: "d \<in> set (cd_collections db)" "co_cover (?g d) \<noteq> None"
      then have kept: "?g d = d" "co_cover d = Some aid \<longrightarrow> co_cover_org d \<noteq> Some (am_org old)" by (auto split: if_splits)
      have "?h m" if "m \<in> set (cd_members db)" "me_collection m = co_id d" "Some (me_artifact m) = co_cover d" for m
        using joined [OF d(1) that(3) [symmetric] that(1,2)] kept(2) that(3) by auto
      then show "co_cover (?g d) = co_cover d \<and> co_cover_org (?g d) = co_cover_org d \<and>
        (\<forall>m \<in> set (cd_members db). me_collection m = co_id d \<longrightarrow> Some (me_artifact m) = co_cover d \<longrightarrow> ?h m)"
        unfolding kept(1) by blast
    next
      fix m a
      assume "?h m" "a \<in> set (cd_artifacts db)" "am_id a = me_artifact m" "am_org a = me_org m"
      then show "a \<in> set (cd_artifacts ?db)" using sole unfolding as set_sql_update by (intro image_eqI [of _ _ a]) auto
    next
      show "distinct (map am_id (cd_artifacts ?db))"
        using assms unfolding as by (simp add: map_sql_update coll_ok_def members_ok_def)
    qed (simp_all add: orgs)
  qed (use assms Some in \<open>simp add: relocate_artifact_def\<close>)
qed

lemma update_ok:
  assumes ok: "coll_ok db" and "update_audited env actor cid u audit db l = Inr (db', l')"
  shows "coll_ok db'"
  using assms(2)
proof (cases rule: update_cases)
  case (1 c name description color cover)
  let ?g = "\<lambda>c. c\<lparr>co_name := name, co_name_key := normalize_name env name, co_description := description,
                         co_color := color, co_cover := cover, co_cover_org := map_option (\<lambda>_. ca_org actor) cover,
                         co_updated_at := ce_now env\<rparr>"
  let ?h = "\<lambda>d. if co_id d = cid then ?g d else d"
  have cs: "cd_collections db' = map ?h (cd_collections db)"
    by (simp add: 1(6) sql_update_def)
  have h: "co_id (?h d) = co_id d" "co_org (?h d) = co_org d" for d by simp_all
  have rest: "cd_orgs db' = cd_orgs db" "cd_members db' = cd_members db" "cd_artifacts db' = cd_artifacts db" by (simp_all add: 1(6))
  have col: "distinct (map co_id (cd_collections db))" "distinct (map (\<lambda>c. (co_org c, co_name_key c)) (cd_collections db))"
    "\<And>o'. count_rows (\<lambda>c. co_org c = o') (cd_collections db) \<le> MAX_COLLECTIONS_PER_ORG"
    using ok by (auto simp: coll_ok_def collections_ok_def)
  have id_org: "map co_id (cd_collections db') = map co_id (cd_collections db)" "map co_org (cd_collections db') = map co_org (cd_collections db)"
    by (simp_all add: cs)
  have only: "d = c" if "d \<in> set (cd_collections db)" "co_id d = cid" for d using same_collection [OF ok 1(1) that] .
  have free: "\<not> (co_org e = co_org c \<and> co_name_key e = normalize_name env name)"
    if "e \<in> set (cd_collections db)" "co_id e \<noteq> cid" for e
    using 1(5) that by (auto simp: name_taken_def list_ex_iff)
  have pairs: "co_org d = co_org e \<Longrightarrow> co_name_key d = co_name_key e \<Longrightarrow> d = e"
    if "d \<in> set (cd_collections db)" "e \<in> set (cd_collections db)" for d e
    using col(2) that by (auto simp: distinct_map inj_on_def)
  have "inj_on (\<lambda>d. (co_org (?h d), co_name_key (?h d))) (set (cd_collections db))"
  proof (rule inj_onI)
    fix d e
    assume de: "d \<in> set (cd_collections db)" "e \<in> set (cd_collections db)"
      "(co_org (?h d), co_name_key (?h d)) = (co_org (?h e), co_name_key (?h e))"
    show "d = e"
    proof (cases "co_id d = cid"; cases "co_id e = cid")
      assume "co_id d = cid" "co_id e = cid" then show ?thesis using only de by blast
    next
      assume i: "co_id d = cid" "co_id e \<noteq> cid"
      then show ?thesis using only [OF de(1)] free [OF de(2)] de(3) by simp
    next
      assume i: "co_id d \<noteq> cid" "co_id e = cid"
      then show ?thesis using only [OF de(2)] free [OF de(1)] de(3) by simp
    next
      assume "co_id d \<noteq> cid" "co_id e \<noteq> cid"
      then show ?thesis using pairs [OF de(1,2)] de(3) by simp
    qed
  qed
  then have "distinct (map (\<lambda>c. (co_org c, co_name_key c)) (cd_collections db'))"
    using col(1) unfolding cs map_map comp_def by (simp add: distinct_map)
  moreover have "count_rows (\<lambda>c. co_org c = o') (cd_collections db') \<le> MAX_COLLECTIONS_PER_ORG" for o'
    using col(3) [of o'] count_rows_keys [OF id_org(2), of o'] by simp
  moreover have "co_org d \<in> set (cd_orgs db')" if "d \<in> set (cd_collections db')" for d
    using ok that h(2) unfolding coll_ok_def collections_ok_def rest cs by auto
  ultimately have "collections_ok db'"
    using col(1) id_org(1) unfolding collections_ok_def by simp
  moreover have "covers_ok db'"
    using ok 1(2,4) only by (auto simp: covers_ok_def coll_ok_def is_member_def cs rest)
  moreover have "members_ok db'"
    using ok h unfolding coll_ok_def members_ok_def rest cs set_map by (metis (no_types, lifting) image_eqI)
  ultimately show ?thesis by (simp add: coll_ok_def)
qed

lemma touch_simps [simp]:
  "map co_id (touch env cid cs) = map co_id cs"
  "map co_org (touch env cid cs) = map co_org cs"
  "map (\<lambda>c. (co_org c, co_name_key c)) (touch env cid cs) = map (\<lambda>c. (co_org c, co_name_key c)) cs"
  by (simp_all add: touch_def map_sql_update)

lemma new_members_pairs:
  "map (\<lambda>m. (me_collection m, me_artifact m)) (new_members env cid org ids) = map (Pair cid) ids"
  "count_rows (\<lambda>m. me_collection m = k) (new_members env cid org ids) = (if k = cid then int (length ids) else 0)"
  by (induction ids) (simp_all add: new_members_def)

lemma is_member_grown:
  "cd_members db' = cd_members db @ new_members env k org ids \<Longrightarrow>
    is_member db' cid a \<longleftrightarrow> is_member db cid a \<or> cid = k \<and> a \<in> set ids"
proof -
  assume "cd_members db' = cd_members db @ new_members env k org ids"
  then have "(\<lambda>m. (me_collection m, me_artifact m)) ` set (cd_members db') =
      (\<lambda>m. (me_collection m, me_artifact m)) ` set (cd_members db) \<union> Pair k ` set ids"
    using arg_cong [OF new_members_pairs(1) [of env k org ids], of set] by (simp add: image_Un)
  then show ?thesis by (auto simp: is_member_iff)
qed

text \<open>Adding memberships, to a new or to an existing collection.\<close>

lemma grow_members:
  assumes ok: "members_ok db" and "distinct ids" and new: "\<forall>i \<in> set ids. \<not> is_member db cid i"
    and arts: "\<forall>i \<in> set ids. \<exists>a \<in> set (cd_artifacts db). am_id a = i \<and> am_org a = org"
    and few: "count_rows (\<lambda>m. me_collection m = cid) (cd_members db) + int (length ids) \<le> MAX_MEMBERSHIPS_PER_COLLECTION"
    and ms: "cd_members db' = cd_members db @ new_members env cid org ids" and "cd_artifacts db' = cd_artifacts db"
    and cs: "\<And>c. c \<in> set (cd_collections db) \<Longrightarrow> \<exists>d \<in> set (cd_collections db'). co_id d = co_id c \<and> co_org d = co_org c"
    and here: "\<exists>d \<in> set (cd_collections db'). co_id d = cid \<and> co_org d = org"
  shows "members_ok db'"
  unfolding members_ok_def
proof (intro conjI allI ballI)
  have "distinct (map (\<lambda>m. (me_collection m, me_artifact m)) (cd_members db))" using ok by (simp add: members_ok_def)
  moreover have "distinct (map (Pair cid) ids)" using assms(2) by (simp add: distinct_map inj_on_def)
  ultimately show "distinct (map (\<lambda>m. (me_collection m, me_artifact m)) (cd_members db'))"
    using new unfolding ms map_append new_members_pairs distinct_append by (auto simp: is_member_iff)
  show "count_rows (\<lambda>m. me_collection m = k) (cd_members db') \<le> MAX_MEMBERSHIPS_PER_COLLECTION" for k
    using ok few by (auto simp: ms new_members_pairs members_ok_def)
  show "distinct (map am_id (cd_artifacts db'))" using ok by (simp add: members_ok_def assms(7))
  fix m
  assume "m \<in> set (cd_members db')"
  then consider "m \<in> set (cd_members db)" | i where "i \<in> set ids" "m = \<lparr> me_collection = cid, me_artifact = i, me_org = org, me_created_at = ce_now env \<rparr>"
    by (auto simp: ms new_members_def)
  then have "(\<exists>c \<in> set (cd_collections db'). co_id c = me_collection m \<and> co_org c = me_org m) \<and>
    (\<exists>a \<in> set (cd_artifacts db'). am_id a = me_artifact m \<and> am_org a = me_org m)"
  proof cases
    case 1
    with ok obtain c where c: "c \<in> set (cd_collections db)" "co_id c = me_collection m" "co_org c = me_org m"
      and a: "\<exists>a \<in> set (cd_artifacts db). am_id a = me_artifact m \<and> am_org a = me_org m"
      unfolding members_ok_def by blast
    from cs [OF c(1)] show ?thesis using c(2,3) a by (simp add: assms(7))
  next
    case (2 i)
    then show ?thesis using here arts by (simp add: assms(7))
  qed
  then show "\<exists>c \<in> set (cd_collections db'). co_id c = me_collection m \<and> co_org c = me_org m"
    and "\<exists>a \<in> set (cd_artifacts db'). am_id a = me_artifact m \<and> am_org a = me_org m" by blast+
qed

lemma readable_found:
  "find_artifact db i = Some a \<Longrightarrow> artifact_readable actor a \<Longrightarrow> \<exists>a \<in> set (cd_artifacts db). am_id a = i \<and> am_org a = ca_org actor"
  using find_artifact_mem by (fastforce simp: artifact_readable_def)

lemma add_ok:
  assumes ok: "coll_ok db" and "add_memberships_diff env actor cid requested audit db l = Inr (out, db', l')"
  shows "coll_ok db'"
  using assms(2)
proof (cases rule: add_cases)
  case (1 c)
  have cs: "cd_collections db' = touch env cid (cd_collections db)" and ms: "cd_members db' = cd_members db @ new_members env cid (ca_org actor) (fst out)"
    and arts: "cd_artifacts db' = cd_artifacts db" and orgs: "cd_orgs db' = cd_orgs db" by (simp_all add: 1(8))
  have touched: "\<exists>d \<in> set (cd_collections db'). co_id d = co_id e \<and> co_org d = co_org e" if "e \<in> set (cd_collections db)" for e
    by (rule bexI [of _ "if co_id e = cid then e\<lparr>co_updated_at := ce_now env\<rparr> else e"])
      (use that in \<open>simp_all add: cs touch_def sql_update_def\<close>)
  have readable: "\<forall>i \<in> set (fst out). \<exists>a \<in> set (cd_artifacts db). am_id a = i \<and> am_org a = ca_org actor"
    using 1(5,6) readable_found by fastforce
  have "members_ok db'"
  proof (rule grow_members [OF _ _ _ readable 1(7) ms arts touched])
    show "members_ok db" using ok by (simp add: coll_ok_def)
    show "distinct (fst out)" "\<forall>i \<in> set (fst out). \<not> is_member db cid i" using 1(4,6) by auto
    show "\<exists>d \<in> set (cd_collections db'). co_id d = cid \<and> co_org d = ca_org actor"
      using touched [of c] find_collection_mem [OF 1(1)] 1(2) by auto
  qed
  moreover have "collections_ok db'"
    using ok count_rows_keys [of co_org "cd_collections db'" "cd_collections db"]
    by (simp add: coll_ok_def collections_ok_def cs orgs) (auto simp: touch_def set_sql_update)
  moreover have "covers_ok db'"
    using ok by (auto simp: coll_ok_def covers_ok_def cs touch_def set_sql_update is_member_def ms split: if_splits)
  ultimately show ?thesis by (simp add: coll_ok_def)
qed

lemma create_cases:
  assumes "create_atomic env actor n audit db l = Inr (out, db', l')"
  obtains c where "distinct (nc_artifact_ids n)" "int (length (nc_artifact_ids n)) \<le> 100"
    "\<forall>i \<in> set (nc_artifact_ids n). \<exists>a. find_artifact db i = Some a \<and> artifact_readable actor a"
    "ca_org actor \<in> set (cd_orgs db)" "count_rows (\<lambda>c. co_org c = ca_org actor) (cd_collections db) < MAX_COLLECTIONS_PER_ORG"
    "find_collection db (nc_id n) = None" "\<not> name_taken db (nc_id n) (ca_org actor) (co_name_key c)"
    "co_id c = nc_id n" "co_org c = ca_org actor" "co_cover c = nc_cover n" "co_cover_org c = map_option (\<lambda>_. ca_org actor) (nc_cover n)"
    "\<forall>a. nc_cover n = Some a \<longrightarrow> a \<in> set (nc_artifact_ids n)"
    "(co_created_by_kind c, co_created_by c) = kind_id env (ca_principal actor)"
    "db' = db\<lparr>cd_collections := cd_collections db @ [c],
              cd_members := cd_members db @ new_members env (nc_id n) (ca_org actor) (nc_artifact_ids n)\<rparr>"
    "out = (c, artifact_count db' c)" "co_name c = normalize_text (nc_name n)" "co_name_key c = normalize_name env (nc_name n)"
proof -
  obtain kind principal where k: "kind_id env (ca_principal actor) = (kind, principal)" by (cases "kind_id env (ca_principal actor)")
  have v: "validate_ids (nc_artifact_ids n) = Inr ()" using assms by (auto simp: create_atomic_def unit_bind)
  note ids = validate_ids_ok [OF v]
  let ?c = "\<lparr> co_id = nc_id n, co_org = ca_org actor, co_name = normalize_text (nc_name n), co_name_key = normalize_name env (nc_name n),
               co_description = normalize_text (nc_description n), co_color = nc_color n, co_cover = nc_cover n,
               co_cover_org = map_option (\<lambda>_. ca_org actor) (nc_cover n), co_created_by = principal,
               co_created_by_kind = kind, co_created_at = ce_now env, co_updated_at = ce_now env \<rparr>"
  have all: "ensure_all_readable db (nc_artifact_ids n) actor = Inr ()" "ensure_existing_org db (ca_org actor) = Inr ()"
    "count_rows (\<lambda>c. co_org c = ca_org actor) (cd_collections db) < MAX_COLLECTIONS_PER_ORG"
    "find_collection db (nc_id n) = None" "\<not> name_taken db (nc_id n) (ca_org actor) (normalize_name env (nc_name n))"
    "\<not> (case nc_cover n of None \<Rightarrow> False | Some a \<Rightarrow> a \<notin> set (nc_artifact_ids n))"
    and out: "db' = db\<lparr>cd_collections := cd_collections db @ [?c],
              cd_members := cd_members db @ new_members env (nc_id n) (ca_org actor) (nc_artifact_ids n)\<rparr>"
      "out = (?c, artifact_count db' ?c)"
    using assms unfolding create_atomic_def unit_bind Let_def ids(2) k prod.case
    by (simp_all only: try_bind_Inr_iff unit_bind split: if_split_asm) auto
  show thesis
    by (rule that [of ?c, OF ids(1) _ _ _ all(3,4)])
      (use ids all out k in \<open>auto simp: all_readable_iff ensure_existing_org_def split: if_splits option.splits\<close>)
qed

lemma create_ok:
  assumes ok: "coll_ok db" and "create_atomic env actor n audit db l = Inr (out, db', l')"
  shows "coll_ok db'"
  using assms(2)
proof (cases rule: create_cases)
  case (1 c)
  have cs: "cd_collections db' = cd_collections db @ [c]"
    and ms: "cd_members db' = cd_members db @ new_members env (nc_id n) (ca_org actor) (nc_artifact_ids n)"
    and arts: "cd_artifacts db' = cd_artifacts db" and orgs: "cd_orgs db' = cd_orgs db" by (simp_all add: 1(14))
  have fresh: "nc_id n \<notin> set (map co_id (cd_collections db))"
    using 1(6) by (auto simp: find_collection_def find_None_iff)
  have none: "me_collection m \<noteq> nc_id n" if "m \<in> set (cd_members db)" for m
    using ok fresh that by (force simp: coll_ok_def members_ok_def)
  have readable: "\<forall>i \<in> set (nc_artifact_ids n). \<exists>a \<in> set (cd_artifacts db). am_id a = i \<and> am_org a = ca_org actor"
    using 1(3) readable_found by fastforce
  have "count_rows (\<lambda>m. me_collection m = nc_id n) (cd_members db) = 0" using none by (simp add: count_rows_eq_0_iff)
  then have few: "count_rows (\<lambda>m. me_collection m = nc_id n) (cd_members db) + int (length (nc_artifact_ids n)) \<le> MAX_MEMBERSHIPS_PER_COLLECTION"
    using 1(2) by (simp add: MAX_MEMBERSHIPS_PER_COLLECTION_def)
  have "members_ok db'"
    by (rule grow_members [OF _ 1(1) _ readable few ms arts])
      (use ok none 1(8,9) in \<open>auto simp: coll_ok_def cs is_member_def list_ex_iff\<close>)
  moreover have "collections_ok db'"
  proof -
    have "(co_org c, co_name_key c) \<notin> set (map (\<lambda>c. (co_org c, co_name_key c)) (cd_collections db))"
      using 1(7,9) fresh by (force simp: name_taken_def list_ex_iff)
    moreover have "count_rows (\<lambda>c. co_org c = o') (cd_collections db') \<le> MAX_COLLECTIONS_PER_ORG" for o'
      using ok 1(5,9) by (auto simp: cs coll_ok_def collections_ok_def)
    ultimately show ?thesis
      using ok fresh 1(4,8,9) by (simp add: coll_ok_def collections_ok_def cs orgs)
  qed
  moreover have "covers_ok db'"
    unfolding covers_ok_def
  proof (intro ballI allI impI)
    fix d a
    assume d: "d \<in> set (cd_collections db')" "co_cover d = Some a"
    show "is_member db' (co_id d) a \<and> co_cover_org d = Some (co_org d)"
    proof (cases "d = c")
      case True
      then have "a \<in> set (nc_artifact_ids n)" using d 1(10,12) by simp
      then show ?thesis using True d 1(8-11) by (auto simp: is_member_grown [OF ms])
    next
      case False
      then show ?thesis using ok d by (auto simp: coll_ok_def covers_ok_def cs is_member_def ms)
    qed
  qed
  ultimately show ?thesis by (simp add: coll_ok_def)
qed

lemma preferences_frame:
  assumes "save_preferences env actor p db = Inr (out, db')"
  shows "cd_orgs db' = cd_orgs db" "cd_artifacts db' = cd_artifacts db" "cd_collections db' = cd_collections db"
    "cd_members db' = cd_members db"
  using assms by (auto simp: save_preferences_def Let_def unit_bind result_simps)

lemma coll_step_ok: "coll_step lower db db' \<Longrightarrow> coll_ok db \<Longrightarrow> coll_ok db'"
proof (induction rule: coll_step.induct)
  case (preferred env actor p db out db')
  then show ?case
    using preferences_frame [OF preferred(2)] by (simp add: coll_ok_def collections_ok_def covers_ok_def members_ok_def is_member_def)
next
  case (published a db)
  then show ?case
    by (auto simp: publish_artifact_def coll_ok_def collections_ok_def covers_ok_def members_ok_def is_member_def)
next
  case (founded db org)
  then show ?case by (auto simp: coll_ok_def collections_ok_def covers_ok_def members_ok_def is_member_def)
qed (auto intro: create_ok add_ok remove_ok update_ok delete_ok drop_artifact_ok relocate_ok drop_org_ok)

text \<open>Only creating and updating write names, and both write the key with the name.\<close>

lemma name_kept_upd [simp]:
  "name_kept lower (c\<lparr>co_updated_at := t\<rparr>) = name_kept lower c"
  "name_kept lower (c\<lparr>co_cover := a, co_cover_org := o'\<rparr>) = name_kept lower c"
  "name_kept lower (c\<lparr>co_cover := a, co_cover_org := o', co_updated_at := t\<rparr>) = name_kept lower c"
  by (simp_all add: name_kept_def)

lemma ball_sql_update: "(\<forall>c \<in> set (sql_update p f cs). q c) \<longleftrightarrow> (\<forall>c \<in> set cs. q (if p c then f c else c))"
  by (auto simp: sql_update_def)

lemma names_step:
  assumes "coll_step lower db db'" and "\<forall>c \<in> set (cd_collections db). name_kept lower c"
  shows "\<forall>c \<in> set (cd_collections db'). name_kept lower c"
  using assms
proof (induction rule: coll_step.induct)
  case (created env actor n audit db l out db' l')
  from created(2) show ?case
    by (cases rule: create_cases)
      (use created in \<open>auto simp: name_kept_def normalize_text_idem normalize_name_eq\<close>)
next
  case (added env actor cid ids audit db l out db' l')
  from added(2) show ?case
    by (cases rule: add_cases) (use added(3) in \<open>simp add: touch_def ball_sql_update\<close>)
next
  case (removed env actor cid ids audit db l out db' l')
  from removed(2) show ?case
    by (cases rule: remove_cases) (use removed(3) in \<open>simp add: touch_def ball_sql_update\<close>)
next
  case (updated env actor cid u audit db l db' l')
  from updated(2) show ?case
  proof (cases rule: update_cases)
    case (1 c name description color cover)
    have "name_kept lower (d\<lparr>co_name := name, co_name_key := normalize_name env name, co_description := description,
        co_color := color, co_cover := cover, co_cover_org := map_option (\<lambda>_. ca_org actor) cover, co_updated_at := ce_now env\<rparr>)" for d
      using 1(7) updated(1) by (simp add: name_kept_def normalize_name_eq)
    then show ?thesis using updated(3) by (simp add: 1(6) ball_sql_update)
  qed
next
  case (deleted env actor cid audit db l db' l')
  from deleted(2) show ?case
    by (cases rule: delete_cases) (use deleted in \<open>auto simp: sql_delete_def\<close>)
next
  case (preferred env actor p db out db')
  then show ?case using preferences_frame [OF preferred(2)] by simp
qed (auto simp: publish_artifact_def drop_artifact_def relocate_artifact_def drop_org_def clear_cover_def
    sql_delete_def ball_sql_update split: option.split)

definition empty_coll_db :: coll_db where
  "empty_coll_db = \<lparr> cd_orgs = [], cd_artifacts = [], cd_collections = [], cd_members = [], cd_preferences = [] \<rparr>"

interpretation coll_run: invariant_system "\<lambda>db. db = empty_coll_db" "coll_step lower"
    "\<lambda>db. coll_ok db \<and> (\<forall>c \<in> set (cd_collections db). name_kept lower c)" for lower
proof
  show "coll_ok db \<and> (\<forall>c \<in> set (cd_collections db). name_kept lower c)" if "db = empty_coll_db" for db
    using that by (simp add: empty_coll_db_def coll_ok_def collections_ok_def covers_ok_def members_ok_def
        MAX_COLLECTIONS_PER_ORG_def MAX_MEMBERSHIPS_PER_COLLECTION_def)
  show "coll_ok db' \<and> (\<forall>c \<in> set (cd_collections db'). name_kept lower c)"
    if "coll_step lower db db'" "coll_ok db \<and> (\<forall>c \<in> set (cd_collections db). name_kept lower c)" for db db'
    using coll_step_ok [OF that(1)] names_step [OF that(1)] that(2) by blast
qed

section \<open>Properties\<close>

abbreviation coll_reachable :: "(string \<Rightarrow> string) \<Rightarrow> coll_db \<Rightarrow> bool" where
  "coll_reachable lower \<equiv> (coll_step lower)\<^sup>*\<^sup>* empty_coll_db"

lemma coll_reachable_ok: "coll_reachable lower db \<Longrightarrow> coll_ok db \<and> (\<forall>c \<in> set (cd_collections db). name_kept lower c)"
  by (rule coll_run.run_inv [OF refl])

text \<open>
  The instances of the witnesses. The codec of the preferences writes every character after a mark, so
  that any names can be read back.
\<close>

definition write_text :: "string \<Rightarrow> string" where
  "write_text s = concat (map (\<lambda>c. [CHR ''c'', c]) s) @ ''.''"

definition write_map :: "id_map \<Rightarrow> string" where
  "write_map m = concat (map (\<lambda>(org, ids). write_text org @ concat (map write_text ids) @ ''/'') m) @ '';''"

fun read_maps :: "string \<Rightarrow> string \<Rightarrow> string list \<Rightarrow> id_map \<Rightarrow> id_map list \<Rightarrow> id_map list option" where
  "read_maps [] text texts m ms = Some ms"
| "read_maps (c # s) text texts m ms =
     (if c = CHR ''c'' then (case s of [] \<Rightarrow> None | x # s' \<Rightarrow> read_maps s' (text @ [x]) texts m ms)
      else if c = CHR ''.'' then read_maps s [] (texts @ [text]) m ms
      else if c = CHR ''/'' then (case texts of [] \<Rightarrow> None | org # ids \<Rightarrow> read_maps s [] [] (m @ [(org, ids)]) ms)
      else if c = CHR '';'' then read_maps s [] [] [] (ms @ [m]) else None)"

definition read_state :: "string \<Rightarrow> (id_map option \<times> id_map option) option" where
  "read_state s = (case read_maps s [] [] [] [] of Some [order, collapsed] \<Rightarrow> Some (Some order, Some collapsed) | _ \<Rightarrow> None)"

definition demo_coll_env :: coll_env where
  "demo_coll_env = \<lparr> ce_lower = to_ascii_lowercase, ce_pair_json = (@),
     ce_state_json = (\<lambda>order collapsed. write_map order @ write_map collapsed), ce_read_state = read_state,
     ce_now = ''t'', ce_mac = None, ce_sha = (\<lambda>m. []), ce_event_id = Inl Internal \<rparr>"

definition demo_coll_actor :: CollectionActor where
  "demo_coll_actor = \<lparr> ca_email = ''u'', ca_org = ''o'', ca_is_admin = False, ca_principal = HumanEmail ''U'', ca_publisher = None \<rparr>"

definition demo_coll_artifact :: ArtifactMeta where
  "demo_coll_artifact = \<lparr> am_id = ''a1'', am_client_id = ''c'', am_org = ''o'', am_title = ''t'',
     am_description = [], am_bytes = 1, am_created_at = ''t0'', am_updated_at = ''t0'', am_uploader_label = [],
     am_owner_email = None, am_is_bundle = False, am_entry = [], am_revision = 1, am_category = [], am_hidden = False,
     am_body_sha256 = [], am_artifact_key = None \<rparr>"

definition demo_coll_start :: coll_db where
  "demo_coll_start = empty_coll_db\<lparr>cd_orgs := [''o''], cd_artifacts := [demo_coll_artifact]\<rparr>"

definition demo_coll_ledger :: ledger where
  "demo_coll_ledger = migrated_ledger"

definition demo_new :: "string \<Rightarrow> string \<Rightarrow> string list \<Rightarrow> NewCollection" where
  "demo_new cid name ids =
     \<lparr> nc_id = cid, nc_name = name, nc_description = [], nc_color = None, nc_cover = List.find (\<lambda>_. True) ids, nc_artifact_ids = ids \<rparr>"

definition demo_create :: "string \<Rightarrow> string \<Rightarrow> string list \<Rightarrow> coll_db \<Rightarrow> ((Collection \<times> int) \<times> coll_db \<times> ledger) result" where
  "demo_create cid name ids db = create_atomic demo_coll_env demo_coll_actor (demo_new cid name ids) None db demo_coll_ledger"

definition demo_coll_db :: coll_db where
  "demo_coll_db = (case demo_create ''k'' ''N'' [] demo_coll_start of Inl e \<Rightarrow> demo_coll_start | Inr (out, db, l) \<Rightarrow> db)"

definition demo_two_db :: coll_db where
  "demo_two_db = (case demo_create ''k2'' ''  Other  Name '' [''a1''] demo_coll_db of Inl e \<Rightarrow> demo_coll_db | Inr (out, db, l) \<Rightarrow> db)"

lemma demo_create_step:
  "demo_create cid name ids db = Inr (out, db', l') \<Longrightarrow> coll_step to_ascii_lowercase db db'"
  unfolding demo_create_def by (rule coll_step.created) (simp_all add: demo_coll_env_def)

lemma demo_two_reachable: "coll_reachable to_ascii_lowercase demo_two_db"
proof -
  have "coll_step to_ascii_lowercase empty_coll_db (empty_coll_db\<lparr>cd_orgs := [''o'']\<rparr>)"
    using coll_step.founded [of _ empty_coll_db "''o''"] by (simp add: empty_coll_db_def)
  moreover have "coll_step to_ascii_lowercase (empty_coll_db\<lparr>cd_orgs := [''o'']\<rparr>) demo_coll_start"
    using coll_step.published [of demo_coll_artifact "empty_coll_db\<lparr>cd_orgs := [''o'']\<rparr>"]
    by (simp add: empty_coll_db_def demo_coll_start_def publish_artifact_def)
  moreover have "is_ok (demo_create ''k'' ''N'' [] demo_coll_start)" by code_simp
  then have "coll_step to_ascii_lowercase demo_coll_start demo_coll_db"
    unfolding demo_coll_db_def is_ok_def by (auto split: sum.splits intro: demo_create_step)
  moreover have "is_ok (demo_create ''k2'' ''  Other  Name '' [''a1''] demo_coll_db)" by code_simp
  then have "coll_step to_ascii_lowercase demo_coll_db demo_two_db"
    unfolding demo_two_db_def is_ok_def by (auto split: sum.splits intro: demo_create_step)
  ultimately show ?thesis by (meson converse_rtranclp_into_rtranclp r_into_rtranclp)
qed

lemma listed_members:
  assumes ok: "coll_ok db" and "coll_members db actor cid = Inr xs"
  shows "distinct xs" and "set xs = {a. is_member db cid a}"
proof -
  let ?rows = "filter (\<lambda>m. me_collection m = cid \<and> me_org m = ca_org actor) (cd_members db)"
  have "collection_org db cid actor = Inr ()" using assms(2) by (auto simp: coll_members_def unit_bind)
  then obtain c where c: "find_collection db cid = Some c" "co_org c = ca_org actor"
    by (auto simp: collection_org_def split: option.splits if_splits)
  have org: "me_org m = ca_org actor" if "m \<in> set (cd_members db)" "me_collection m = cid" for m
    using ok that c same_collection [OF ok c(1)] by (auto simp: coll_ok_def members_ok_def)
  have m: "distinct (map (\<lambda>m. (me_collection m, me_artifact m)) (cd_members db))"
    "count_rows (\<lambda>m. me_collection m = cid) (cd_members db) \<le> 1000"
    using ok by (auto simp: coll_ok_def members_ok_def MAX_MEMBERSHIPS_PER_COLLECTION_def)
  have "?rows = filter (\<lambda>m. me_collection m = cid) (cd_members db)"
    using org by (intro filter_cong) auto
  then have xs: "xs = map me_artifact (sort_key me_created_at (sort_key me_artifact ?rows))"
    using assms(2) m(2) by (auto simp: coll_members_def unit_bind count_rows_def)
  have "distinct (map me_artifact ?rows)"
    using m(1) by (auto simp: distinct_map inj_on_def)
  then show "distinct xs" unfolding xs by (simp add: distinct_map)
  show "set xs = {a. is_member db cid a}"
    unfolding xs using org by (auto simp: is_member_def list_ex_iff)
qed

text \<open>
  C13. In every state that collection operations and the life of artifacts and organizations lead
  to, all with the same case folding \<open>lower\<close>: collection ids are unique; names are in normal form and
  unique within an organization up to \<open>lower\<close> and white space (two collections of an organization
  never have names that normalize and fold to the same text), and the stored key is the folded name;
  an organization has at most 200 collections; every membership joins a collection and
  an artifact of the same organization that both exist, once, and a collection has at most 1000; the
  cover of a collection is one of its members; and listing a collection gives all of its members,
  none missing and none twice.
\<close>

theorem collections_reachable_ok:
  assumes "coll_reachable lower db"
  shows "distinct (map co_id (cd_collections db)) \<and>
    distinct (map (\<lambda>c. (co_org c, lower (normalize_text (co_name c)))) (cd_collections db)) \<and>
    list_all (\<lambda>c. normalize_text (co_name c) = co_name c \<and> co_name_key c = lower (co_name c)) (cd_collections db) \<and>
    count_rows (\<lambda>c. co_org c = org) (cd_collections db) \<le> 200 \<and>
    distinct (map (\<lambda>m. (me_collection m, me_artifact m)) (cd_members db)) \<and>
    list_all (\<lambda>m. list_ex (\<lambda>c. co_id c = me_collection m \<and> co_org c = me_org m) (cd_collections db) \<and>
      list_ex (\<lambda>a. am_id a = me_artifact m \<and> am_org a = me_org m) (cd_artifacts db)) (cd_members db) \<and>
    count_rows (\<lambda>m. me_collection m = cid) (cd_members db) \<le> 1000 \<and>
    list_all (\<lambda>c. case co_cover c of None \<Rightarrow> True | Some a \<Rightarrow> is_member db (co_id c) a) (cd_collections db) \<and>
    (case coll_members db actor cid of Inl e \<Rightarrow> True | Inr xs \<Rightarrow> distinct xs \<and> set xs = {a. is_member db cid a})"
proof -
  have ok: "coll_ok db" and names: "\<forall>c \<in> set (cd_collections db). name_kept lower c"
    using coll_reachable_ok [OF assms] by simp_all
  have keys: "map (\<lambda>c. (co_org c, lower (normalize_text (co_name c)))) (cd_collections db) =
      map (\<lambda>c. (co_org c, co_name_key c)) (cd_collections db)"
    using names by (simp add: name_kept_def)
  have "list_all (\<lambda>c. normalize_text (co_name c) = co_name c \<and> co_name_key c = lower (co_name c)) (cd_collections db)"
    using names by (simp add: name_kept_def list_all_iff)
  moreover have "list_all (\<lambda>c. case co_cover c of None \<Rightarrow> True | Some a \<Rightarrow> is_member db (co_id c) a) (cd_collections db)"
    using ok by (auto simp: coll_ok_def covers_ok_def list_all_iff split: option.split)
  moreover have "case coll_members db actor cid of Inl e \<Rightarrow> True | Inr xs \<Rightarrow> distinct xs \<and> set xs = {a. is_member db cid a}"
    using listed_members [OF ok] by (auto split: sum.split)
  ultimately show ?thesis
    unfolding keys using ok by (simp add: coll_ok_def collections_ok_def members_ok_def list_all_iff list_ex_iff
        MAX_COLLECTIONS_PER_ORG_def MAX_MEMBERSHIPS_PER_COLLECTION_def)
qed

theorem collections_reachable_ok_witness:
  "distinct (map (\<lambda>c. (co_org c, to_ascii_lowercase (normalize_text (co_name c)))) (cd_collections demo_two_db)) \<and>
   list_all (\<lambda>c. case co_cover c of None \<Rightarrow> True | Some a \<Rightarrow> is_member demo_two_db (co_id c) a) (cd_collections demo_two_db) \<and>
   map (\<lambda>c. (co_org c, co_name c, co_name_key c, co_cover c)) (cd_collections demo_two_db) =
     [(''o'', ''N'', ''n'', None), (''o'', ''Other Name'', ''other name'', Some ''a1'')] \<and>
   coll_members demo_two_db demo_coll_actor ''k2'' = Inr [''a1''] \<and>
   \<not> is_ok (demo_create ''k3'' ''other NAME'' [] demo_two_db)"
proof -
  have "map (\<lambda>c. (co_org c, co_name c, co_name_key c, co_cover c)) (cd_collections demo_two_db) =
     [(''o'', ''N'', ''n'', None), (''o'', ''Other Name'', ''other name'', Some ''a1'')]" by code_simp
  moreover have "coll_members demo_two_db demo_coll_actor ''k2'' = Inr [''a1'']" by code_simp
  moreover have "\<not> is_ok (demo_create ''k3'' ''other NAME'' [] demo_two_db)" by code_simp
  ultimately show ?thesis using collections_reachable_ok [OF demo_two_reachable] by blast
qed

inductive collection_edit :: "coll_env \<Rightarrow> CollectionActor \<Rightarrow> string \<Rightarrow> coll_db \<Rightarrow> coll_db \<Rightarrow> bool" where
  edit_add: "add_memberships_diff env actor cid ids audit db l = Inr (out, db', l') \<Longrightarrow> collection_edit env actor cid db db'"
| edit_remove: "remove_memberships_diff env actor cid ids audit db l = Inr (out, db', l') \<Longrightarrow> collection_edit env actor cid db db'"
| edit_update: "update_audited env actor cid u audit db l = Inr (db', l') \<Longrightarrow> collection_edit env actor cid db db'"
| edit_delete: "delete_audited env actor cid audit db l = Inr (db', l') \<Longrightarrow> collection_edit env actor cid db db'"

inductive_cases collection_editE: "collection_edit env actor cid db db'"

lemma filter_other_update: "(\<And>x. p x \<Longrightarrow> \<not> q x) \<Longrightarrow> (\<And>x. p x \<Longrightarrow> \<not> q (f x)) \<Longrightarrow> filter q (sql_update p f xs) = filter q xs"
  by (induction xs) (auto simp: sql_update_def)

lemma filter_other_delete: "(\<And>x. p x \<Longrightarrow> \<not> q x) \<Longrightarrow> filter q (sql_delete p xs) = filter q xs"
  by (induction xs) (auto simp: sql_delete_def)

lemma is_member_shrunk: "cd_members db' = sql_delete p (cd_members db) \<Longrightarrow> is_member db' k a \<Longrightarrow> is_member db k a"
  by (auto simp: is_member_def list_ex_iff sql_delete_def)

lemma filter_new_members: "filter (\<lambda>m. me_collection m \<noteq> cid) (new_members env cid org ids) = []"
  by (induction ids) (simp_all add: new_members_def)

text \<open>
  C14. Whoever edits a collection (adds or removes members, changes its fields, deletes it) acts in
  the collection's own organization and is its creator or an administrator; nothing but that
  collection and its memberships changes; and whatever became a member by the edit is an artifact of
  that organization the actor may read.
\<close>

theorem collection_edits_are_gated:
  assumes "collection_edit env actor cid db db'"
  shows "(\<exists>c. find_collection db cid = Some c \<and> co_org c = ca_org actor \<and> (ca_is_admin actor \<or> matches_principal env actor c)) \<and>
    filter (\<lambda>c. co_id c \<noteq> cid) (cd_collections db') = filter (\<lambda>c. co_id c \<noteq> cid) (cd_collections db) \<and>
    filter (\<lambda>m. me_collection m \<noteq> cid) (cd_members db') = filter (\<lambda>m. me_collection m \<noteq> cid) (cd_members db) \<and>
    cd_artifacts db' = cd_artifacts db \<and> cd_orgs db' = cd_orgs db \<and> cd_preferences db' = cd_preferences db \<and>
    (\<forall>aid. is_member db' cid aid \<longrightarrow> is_member db cid aid \<or>
       (\<exists>a. find_artifact db aid = Some a \<and> am_org a = ca_org actor \<and> artifact_readable actor a))"
  using assms
proof (rule collection_editE)
  fix ids audit l out l'
  assume "add_memberships_diff env actor cid ids audit db l = Inr (out, db', l')"
  then show ?thesis
  proof (cases rule: add_cases)
    case (1 c)
    have ms: "cd_members db' = cd_members db @ new_members env cid (ca_org actor) (fst out)" by (simp add: 1(8))
    have "is_member db cid aid \<or> (\<exists>a. find_artifact db aid = Some a \<and> am_org a = ca_org actor \<and> artifact_readable actor a)"
      if "is_member db' cid aid" for aid
      using that 1(5,6) unfolding is_member_grown [OF ms] by (auto simp: artifact_readable_def)
    then show ?thesis using 1(1-3) by (simp add: 1(8) filter_new_members touch_def filter_other_update)
  qed
next
  fix ids audit l out l'
  assume "remove_memberships_diff env actor cid ids audit db l = Inr (out, db', l')"
  then show ?thesis
  proof (cases rule: remove_cases)
    case (1 c)
    have ms: "cd_members db' = sql_delete (\<lambda>m. me_collection m = cid \<and> me_artifact m \<in> set (fst out)) (cd_members db)"
      by (simp add: 1(7))
    have "filter (\<lambda>c. co_id c \<noteq> cid) (cd_collections db') = filter (\<lambda>c. co_id c \<noteq> cid) (cd_collections db)"
      by (simp add: 1(7) touch_def filter_other_update)
    moreover have "filter (\<lambda>m. me_collection m \<noteq> cid) (cd_members db') = filter (\<lambda>m. me_collection m \<noteq> cid) (cd_members db)"
      unfolding ms by (rule filter_other_delete) simp
    ultimately show ?thesis using 1(1-3) is_member_shrunk [OF ms] by (simp add: 1(7))
  qed
next
  fix u audit l l'
  assume "update_audited env actor cid u audit db l = Inr (db', l')"
  then show ?thesis by (cases rule: update_cases) (auto simp: filter_other_update is_member_def)
next
  fix audit l l'
  assume "delete_audited env actor cid audit db l = Inr (db', l')"
  then show ?thesis
  proof (cases rule: delete_cases)
    case (1 c)
    have ms: "cd_members db' = sql_delete (\<lambda>m. me_collection m = cid) (cd_members db)" by (simp add: 1(4))
    then show ?thesis using 1(1-3) is_member_shrunk [OF ms] by (simp add: 1(4) filter_other_delete)
  qed
qed

definition demo_added where
  "demo_added = add_memberships_diff demo_coll_env demo_coll_actor ''k'' [''a1''] None demo_coll_db demo_coll_ledger"

lemma demo_added_ok:
  obtains db' l' where "add_memberships_diff demo_coll_env demo_coll_actor ''k'' [''a1''] None demo_coll_db demo_coll_ledger
    = Inr (([''a1''], []), db', l')"
proof -
  have "case demo_added of Inl e \<Rightarrow> False | Inr (out, db', l') \<Rightarrow> out = ([''a1''], [])" by code_simp
  then show thesis using that by (auto simp: demo_added_def split: sum.splits)
qed

theorem collection_edits_are_gated_witness:
  "\<exists>db'. collection_edit demo_coll_env demo_coll_actor ''k'' demo_coll_db db' \<and> cd_artifacts db' = cd_artifacts demo_coll_db"
proof -
  obtain db' l' where "add_memberships_diff demo_coll_env demo_coll_actor ''k'' [''a1''] None demo_coll_db demo_coll_ledger
    = Inr (([''a1''], []), db', l')" by (rule demo_added_ok)
  then have e: "collection_edit demo_coll_env demo_coll_actor ''k'' demo_coll_db db'" by (rule edit_add)
  from collection_edits_are_gated [OF this] e show ?thesis by blast
qed

text \<open>
  Adding memberships adds exactly the artifacts asked for that were not members and reports
  them, in the order asked, apart from those that already were; removing what an addition reported
  as added reports exactly that and gives back the memberships of before.
\<close>

theorem memberships_round_trip:
  assumes "add_memberships_diff env actor cid requested audit db l = Inr ((added, already), db', l')"
  shows "added = filter (\<lambda>i. \<not> is_member db cid i) requested \<and> already = filter (is_member db cid) requested \<and>
    (\<forall>k a. is_member db' k a \<longleftrightarrow> is_member db k a \<or> k = cid \<and> a \<in> set requested) \<and>
    (\<forall>env' actor' audit' m removed absent db'' m'.
       remove_memberships_diff env' actor' cid added audit' db' m = Inr ((removed, absent), db'', m') \<longrightarrow>
       removed = added \<and> absent = [] \<and> (\<forall>k a. is_member db'' k a \<longleftrightarrow> is_member db k a))"
  using assms
proof (cases rule: add_cases)
  case (1 c)
  have ms: "cd_members db' = cd_members db @ new_members env cid (ca_org actor) added" by (simp add: 1(8))
  have lists: "added = filter (\<lambda>i. \<not> is_member db cid i) requested" "already = filter (is_member db cid) requested"
    using 1(6) by simp_all
  have grown: "is_member db' k a \<longleftrightarrow> is_member db k a \<or> k = cid \<and> a \<in> set requested" for k a
    unfolding is_member_grown [OF ms] by (auto simp: lists)
  have "removed = added \<and> absent = [] \<and> (\<forall>k a. is_member db'' k a \<longleftrightarrow> is_member db k a)"
    if "remove_memberships_diff env' actor' cid added audit' db' m = Inr ((removed, absent), db'', m')"
    for env' actor' audit' m removed absent db'' m'
    using that
  proof (cases rule: remove_cases)
    case (1 c')
    have "\<forall>i \<in> set added. is_member db' cid i" by (simp add: grown lists)
    then have "filter (is_member db' cid) added = added" "filter (\<lambda>i. \<not> is_member db' cid i) added = []"
      by (simp_all add: filter_empty_conv)
    then have out: "removed = added" "absent = []" using 1(6) by simp_all
    have ms'': "cd_members db'' = sql_delete (\<lambda>m. me_collection m = cid \<and> me_artifact m \<in> set added) (cd_members db')"
      by (simp add: 1(7) out)
    have "is_member db'' k a \<longleftrightarrow> is_member db' k a \<and> \<not> (k = cid \<and> a \<in> set added)" for k a
      by (auto simp: is_member_def list_ex_iff sql_delete_def ms'')
    then show ?thesis using out by (auto simp: grown lists)
  qed
  then show ?thesis using lists grown by blast
qed

theorem memberships_round_trip_witness:
  "\<exists>db' l'. add_memberships_diff demo_coll_env demo_coll_actor ''k'' [''a1''] None demo_coll_db demo_coll_ledger
      = Inr (([''a1''], []), db', l') \<and> is_member db' ''k'' ''a1''"
proof -
  obtain db' l' where a: "add_memberships_diff demo_coll_env demo_coll_actor ''k'' [''a1''] None demo_coll_db demo_coll_ledger
    = Inr (([''a1''], []), db', l')" by (rule demo_added_ok)
  have "is_member db' ''k'' ''a1''"
    using memberships_round_trip [OF a, THEN conjunct2, THEN conjunct2, THEN conjunct1, rule_format, of "''k''" "''a1''"] by simp
  with a show ?thesis by blast
qed

section \<open>Preferences\<close>

lemma first_occurrences_sub: "set (first_occurrences seen ids) = set ids - set seen" "distinct (first_occurrences seen ids)"
  "length (first_occurrences seen ids) \<le> length ids"
  by (induction ids arbitrary: seen) (auto simp: le_SucI)

lemma find_replaced: "list_ex p xs \<Longrightarrow> p r \<Longrightarrow> List.find p (sql_update p (\<lambda>_. r) xs) = Some r"
  by (induction xs) (auto simp: sql_update_def)

lemma prune_map_mem:
  "(org, ids') \<in> set (prune_map db actor m) \<longleftrightarrow>
     (\<exists>ids valid. (org, ids) \<in> set m \<and> allowed_ids db actor org = Some valid \<and>
        ids' = first_occurrences [] (filter (\<lambda>i. i \<in> valid) ids))"
  by (induction m) (auto simp: prune_map_def List.map_filter_simps split: option.splits)

lemma prune_map_idem: "prune_map db actor (prune_map db actor m) = prune_map db actor m"
proof -
  have "first_occurrences [] (filter (\<lambda>i. i \<in> valid) (first_occurrences [] (filter (\<lambda>i. i \<in> valid) ids))) =
      first_occurrences [] (filter (\<lambda>i. i \<in> valid) ids)" for valid ids
  proof -
    let ?f = "first_occurrences [] (filter (\<lambda>i. i \<in> valid) ids)"
    have "filter (\<lambda>i. i \<in> valid) ?f = ?f" by (rule filter_True) (simp add: first_occurrences_sub)
    then show ?thesis by (simp add: first_occurrences_distinct first_occurrences_sub)
  qed
  then show ?thesis
    by (induction m) (auto simp: prune_map_def List.map_filter_simps split: option.splits)
qed

lemma prune_map_keys: "set (map fst (prune_map db actor m)) \<subseteq> set (map fst m)"
  by (induction m) (auto simp: prune_map_def List.map_filter_simps split: option.splits)

lemma validate_preferences_iff:
  "validate_preferences p = Inr () \<longleftrightarrow>
     gp_view p \<in> {''reel'', ''sheets'', ''ribbons'', ''all''} \<and> gp_preview_size p \<in> {''compact'', ''large''} \<and>
     gp_artifact_layout p \<in> {''grid'', ''list''} \<and>
     (\<forall>(org, ids) \<in> set (gp_order p @ gp_collapsed p). int (length ids) \<le> MAX_PREFERENCE_IDS \<and> (\<forall>i \<in> set ids. validate_id i = Inr ()))"
proof -
  have all: "try_bind (collect_results rs) (\<lambda>_. Inr ()) = Inr () \<longleftrightarrow> (\<forall>r \<in> set rs. r = Inr ())" for rs :: "unit result list"
    by (induction rs) (auto simp: result_simps)
  let ?f = "\<lambda>(org, ids). if MAX_PREFERENCE_IDS < int (length ids) then Inl (Validation ''preference lists are too large'')
        else try_bind (collect_results (map validate_id ids)) (\<lambda>_. Inr ())"
  have "?f x = Inr () \<longleftrightarrow> (case x of (org :: string, ids) \<Rightarrow> int (length ids) \<le> MAX_PREFERENCE_IDS \<and> (\<forall>i \<in> set ids. validate_id i = Inr ()))" for x
    by (cases x) (simp add: all not_less)
  then have "try_bind (collect_results (map ?f xs)) (\<lambda>_. Inr ()) = Inr () \<longleftrightarrow>
      (\<forall>(org, ids) \<in> set xs. int (length ids) \<le> MAX_PREFERENCE_IDS \<and> (\<forall>i \<in> set ids. validate_id i = Inr ()))" for xs
    unfolding all set_map ball_simps by (intro ball_cong) auto
  from this [of "gp_order p @ gp_collapsed p"] show ?thesis
    unfolding validate_preferences_def by (simp del: map_append set_append)
qed

lemma validate_pruned:
  assumes "validate_preferences p = Inr ()"
  shows "validate_preferences (prune_preferences db actor p) = Inr ()"
proof -
  have "int (length ids') \<le> MAX_PREFERENCE_IDS \<and> (\<forall>i \<in> set ids'. validate_id i = Inr ())"
    if mem: "(org, ids') \<in> set (prune_map db actor m)" and all: "\<forall>(org, ids) \<in> set m. int (length ids) \<le> MAX_PREFERENCE_IDS \<and> (\<forall>i \<in> set ids. validate_id i = Inr ())"
    for org ids' m
  proof -
    obtain ids valid where i: "(org, ids) \<in> set m" "ids' = first_occurrences [] (filter (\<lambda>i. i \<in> valid) ids)"
      using mem by (auto simp: prune_map_mem)
    have "length ids' \<le> length ids"
      unfolding i(2) using first_occurrences_sub(3) [of "[]" "filter (\<lambda>i. i \<in> valid) ids"] length_filter_le order_trans by blast
    then show ?thesis using all i by (fastforce simp: first_occurrences_sub)
  qed
  then show ?thesis using assms unfolding validate_preferences_iff by (fastforce simp: prune_preferences_def)
qed

text \<open>
  C35. Gallery preferences that were saved read back as what was saved, cut down to the scope of the
  reader; this is exactly what was saved for a viewer who is not an administrator and for an
  administrator who reads all organizations, and an administrator who reads one organization gets the
  part of it, while the part for the others stays stored. What is saved is accepted by the same
  validation and lists every collection once, only collections that exist in the organization they
  are listed under (an administrator's entry for all organizations may list any); a viewer who is not
  an administrator can only save entries of the own organization. Nobody else's preferences change.
\<close>

theorem preferences_round_trip:
  assumes codec: "ce_read_state env (ce_state_json env (gp_order saved) (gp_collapsed saved)) =
      Some (Some (gp_order saved), Some (gp_collapsed saved))"
    and "save_preferences env actor p db = Inr (saved, db')"
  shows "preferences env db' actor = Inr (prune_preferences db' actor saved) \<and>
    (\<not> ca_is_admin actor \<or> ca_org actor = ''all'' \<longrightarrow> prune_preferences db' actor saved = saved) \<and>
    load_preferences env db' (ce_lower env (ca_email actor)) = Inr saved \<and> validate_preferences saved = Inr () \<and>
    (\<forall>org ids. (org, ids) \<in> set (gp_order saved @ gp_collapsed saved) \<longrightarrow>
       distinct ids \<and> (ca_is_admin actor \<or> org = ca_org actor) \<and>
       set ids \<subseteq> {co_id c |c. c \<in> set (cd_collections db) \<and> (co_org c = org \<or> ca_is_admin actor \<and> org = ''all'')}) \<and>
    (\<forall>email. email \<noteq> ce_lower env (ca_email actor) \<longrightarrow> load_preferences env db' email = load_preferences env db email)"
proof -
  let ?email = "ce_lower env (ca_email actor)"
  have v: "authorize_org actor = Inr ()" "validate_preferences p = Inr ()"
    and saved: "saved = prune_preferences db (if ca_is_admin actor then actor\<lparr>ca_org := ''all''\<rparr> else actor) p"
    and rows: "cd_preferences db' = (if list_ex (\<lambda>r. pr_email r = ?email) (cd_preferences db)
       then sql_update (\<lambda>r. pr_email r = ?email) (\<lambda>_. preference_row_of env ?email saved) (cd_preferences db)
       else cd_preferences db @ [preference_row_of env ?email saved])"
    and same: "cd_collections db' = cd_collections db"
    using assms(2) by (auto simp: save_preferences_def Let_def unit_bind)
  have valid: "validate_preferences saved = Inr ()" unfolding saved using v(2) by (rule validate_pruned)
  have email: "pr_email (preference_row_of env ?email saved) = ?email" by (simp add: preference_row_of_def)
  have "List.find (\<lambda>r. pr_email r = ?email) (cd_preferences db') = Some (preference_row_of env ?email saved)"
  proof (cases "list_ex (\<lambda>r. pr_email r = ?email) (cd_preferences db)")
    case True
    then show ?thesis by (simp add: rows email find_replaced)
  next
    case False
    then have "List.find (\<lambda>r. pr_email r = ?email) (cd_preferences db) = None" by (simp add: find_None_iff list_ex_iff)
    then show ?thesis using False email by (simp add: rows find_append)
  qed
  moreover have eta: "\<lparr> gp_view = gp_view saved, gp_preview_size = gp_preview_size saved, gp_artifact_layout = gp_artifact_layout saved,
      gp_order = gp_order saved, gp_collapsed = gp_collapsed saved \<rparr> = saved" by simp
  ultimately have "load_preferences env db' ?email = Inr saved"
    using valid by (simp add: load_preferences_def preference_row_of_def codec Let_def eta)
  moreover from this have "preferences env db' actor = Inr (prune_preferences db' actor saved)" by (simp add: preferences_def v)
  moreover have "prune_preferences db' actor saved = saved" if "\<not> ca_is_admin actor \<or> ca_org actor = ''all''"
  proof -
    have w: "(if ca_is_admin actor then actor\<lparr>ca_org := ''all''\<rparr> else actor) = actor" using that by auto
    show ?thesis
      using prune_map_idem unfolding saved w prune_preferences_def prune_map_def allowed_ids_def same by simp
  qed
  moreover have "distinct ids \<and> (ca_is_admin actor \<or> org = ca_org actor) \<and>
      set ids \<subseteq> {co_id c |c. c \<in> set (cd_collections db) \<and> (co_org c = org \<or> ca_is_admin actor \<and> org = ''all'')}"
    if "(org, ids) \<in> set (gp_order saved @ gp_collapsed saved)" for org ids
    using that
    by (auto simp: saved prune_preferences_def prune_map_mem allowed_ids_def Let_def list_ex_iff pref_scope_def first_occurrences_sub
        split: if_splits)
  moreover have "load_preferences env db' e = load_preferences env db e" if "e \<noteq> ?email" for e
  proof -
    have "List.find (\<lambda>r. pr_email r = e) (cd_preferences db') = List.find (\<lambda>r. pr_email r = e) (cd_preferences db)"
      unfolding rows using that email by (auto simp: find_append_other intro!: find_sql_update_miss)
    then show ?thesis by (simp add: load_preferences_def)
  qed
  ultimately show ?thesis using valid by blast
qed

definition demo_preferences :: GalleryPreferences where
  "demo_preferences = \<lparr> gp_view = ''all'', gp_preview_size = ''large'', gp_artifact_layout = ''list'',
     gp_order = [(''o'', [''k2'', ''gone'', ''k'', ''k2'']), (''other'', [''x''])], gp_collapsed = [(''o'', [''k''])] \<rparr>"

definition demo_kept :: GalleryPreferences where
  "demo_kept = demo_preferences\<lparr>gp_order := [(''o'', [''k2'', ''k''])]\<rparr>"

definition demo_saved :: "(GalleryPreferences \<times> coll_db) result" where
  "demo_saved = save_preferences demo_coll_env demo_coll_actor demo_preferences demo_two_db"

theorem preferences_round_trip_witness:
  "\<exists>db'. save_preferences demo_coll_env demo_coll_actor demo_preferences demo_two_db = Inr (demo_kept, db') \<and>
     preferences demo_coll_env db' demo_coll_actor = Inr demo_kept"
proof -
  have "case demo_saved of Inl e \<Rightarrow> False | Inr (saved, db') \<Rightarrow> saved = demo_kept" by code_simp
  then obtain db' where s: "save_preferences demo_coll_env demo_coll_actor demo_preferences demo_two_db = Inr (demo_kept, db')"
    by (auto simp: demo_saved_def split: sum.splits)
  have codec: "ce_read_state demo_coll_env (ce_state_json demo_coll_env (gp_order demo_kept) (gp_collapsed demo_kept)) =
    Some (Some (gp_order demo_kept), Some (gp_collapsed demo_kept))" by code_simp
  have "\<not> ca_is_admin demo_coll_actor" by (simp add: demo_coll_actor_def)
  then show ?thesis using preferences_round_trip [OF codec s] s by auto
qed

end
