(* ===== verification/Spec2Isabelle.thy ===== *)
theory Spec2Isabelle
  imports Bundle_Paths Access Outbox_Lifecycle Delivery_Worker Audit_Query Lifecycle_Safety
    Ordered_Json Viewer_State Share_Expiry Shares Collection_Laws
begin

text \<open>
  A verification development for artifact-mcp, a multi-tenant server that publishes HTML
  artifacts and bundles, serves them to viewers and agents, records what happened in a
  tamper-evident audit ledger, and delivers notifications to Discord webhooks.

  \<^bold>\<open>Parts of the program and their theories.\<close>

  \<^item> \<open>Prelude\<close>: Rust's \<open>Result\<close> and \<open>str\<close> operations, the error kinds of src/src/error.rs, 64-bit
    arithmetic, SQL updates, deletions, searches and counts on tables kept as lists.
  \<^item> \<open>Bundle_Paths\<close>: src/src/artifacts/validation.rs and paths.rs. Identifiers, the path
    sanitizer, the containment check, bundle admission, and the names of bodies on disk.
  \<^item> \<open>Access\<close>: src/src/security/access.rs with the identities of src/src/model/. Every decision
    about who may read, write, delete or manage an artifact.
  \<^item> \<open>Outbox\<close>, \<open>Outbox_Invariants\<close>, \<open>Outbox_Lifecycle\<close>: src/src/persistence/outbox/. The durable
    queue of provider deliveries: enqueue, claim under a lease, settle, rate limits, and the
    durability intents that block a delivery until the artifact it is about is durable. The updates
    that persistence/discussions/delivery.rs makes to the queue's table are transactions of the same
    relation; the rows of other tables that refer to a delivery with ON DELETE RESTRICT are the list
    \<open>ob_references\<close>, which anything may change.
  \<^item> \<open>Delivery_Worker\<close>: src/src/integrations/discord_delivery.rs and delivery_worker/. One turn of
    a worker: claim, resolve, send, classify the answer, settle. Between its transactions any
    transactions of others may run (\<open>p_others\<close>: other workers, recovery of an expired lease, enqueues).
    The retry delays of an answer are computed on IEEE doubles (\<open>f64\<close>, exact rationals with rounding
    to the nearest even), as the code does.
  \<^item> \<open>Audit_Ledger\<close>, \<open>Audit_Integrity\<close>: src/src/security/audit/. The chained events, the sealed
    head, the pending receipts, retention checkpoints and the full verification.
  \<^item> \<open>Audit_Query\<close>: src/src/security/audit/query.rs and access.rs. Capability-gated pages and
    exports with signed cursors, and the mutation that shares its transaction with its event.
  \<^item> \<open>Lifecycle_Effects\<close>, \<open>Artifact_Text\<close>, \<open>Artifact_Store\<close>, \<open>Artifact_Lifecycle\<close>:
    src/src/artifacts/lifecycle/, durable.rs and digest.rs. The operations on the artifact directory
    and the tables beside it (publish, update, restore, delete, category, visibility, move to another
    organization), as sequences of atomic effects with the failpoints of faults.rs between them.
  \<^item> \<open>Reconciliation\<close>: src/src/artifacts/reconciliation/. The pass at start-up that finishes or
    undoes what an interrupted operation left.
  \<^item> \<open>Crash_Invariant\<close>, \<open>Crash_Views\<close>, \<open>Crash_Sites\<close>, \<open>Crash_Confined\<close>, \<open>Crash_Tables\<close>,
    \<open>Crash_Publish\<close>, \<open>Crash_Swap\<close>, \<open>Crash_Update\<close>, \<open>Crash_Commit\<close>, \<open>Crash_Delete\<close>,
    \<open>Crash_Metadata\<close>, \<open>Crash_Recovery\<close>, \<open>Crash_Intents\<close>, \<open>Crash_Audit\<close>: the invariant of the
    store at every instant, operation by operation. \<open>Lifecycle_Outcomes\<close>: what an operation that
    reports success has done. \<open>Lifecycle_Safety\<close>: the runs of requests, faults, crashes and restarts,
    and the theorems about them.
  \<^item> \<open>Ordered_Json\<close>: src/src/model/json.rs. JSON objects that keep the order of their members, and
    the printer that follows JavaScript.
  \<^item> \<open>Viewer_State\<close>: src/src/persistence/state.rs, viewer_state_service.rs and model/state.rs. The
    key-value cells an artifact keeps for its organization or for one viewer.
  \<^item> \<open>Share_Expiry\<close>, \<open>Shares\<close>: src/src/persistence/shares.rs. Public links: the expiry a caller
    asks for, creation, resolution, listing, revocation.
  \<^item> \<open>Collections\<close>, \<open>Collection_Laws\<close>: src/src/persistence/collections.rs and ports/collections.rs.
    Named sets of artifacts of an organization, and gallery preferences.

  \<^bold>\<open>How the parts interact.\<close> A request is first decided by the access policy; the value it yields
  (\<open>AuthorizedArtifact\<close>, \<open>OwnedArtifact\<close>) is what the other parts take. The life cycle writes an
  artifact's row, its audit receipt and its blocked deliveries in one transaction and moves the body
  afterwards; settling the intent releases the deliveries to the outbox, where workers claim them.
  The stores of viewer state, shares and collections append their audit event in the transaction of
  the change. They hang off the artifact table: deleting an artifact, or moving it to another
  organization, removes what refers to it, and those cascades are steps of their models.

  \<^bold>\<open>How code and model correspond.\<close> A struct is a record, an enum a datatype, a table a list of
  records in primary-key or insertion order, and a Rust \<open>Result\<close> a sum whose left side is the
  error. A function that runs inside a SQLite transaction takes the tables and returns the new
  ones; an error leaves the old ones. Constraints of the schema are checks of the insertions and
  deletions they guard. A life-cycle operation is a sequence of such transactions and of file
  system calls, each of them a point after which the process may die. Integers that are bounded by
  the code keep their bounds: a value that leaves the signed or unsigned 64-bit range wraps,
  saturates or fails where the source does. Random identifiers and the clock are arguments. Loops
  are structural recursion, list functions or functions with a termination measure, so every
  definition is total and none runs on fuel.
  Third-party code (SHA-256, HMAC, JSON parsing, base64, HTTP, the calendar, SQLite's
  \<open>julianday\<close>, Unicode case mapping) is a parameter of the definitions that call it; what a theorem
  needs of it is a hypothesis of that theorem, and its witness instantiates it.

  \<^bold>\<open>What is shown.\<close>

  \<^item> Life cycle: in every reachable store, whatever was interrupted, a visible artifact has the
    body its metadata names and every kept revision its history body, and an artifact with an open
    intent still has its committed or its prior body; publish, update and delete do what they
    report; the storage audit changes no row; a move revokes every link and leaves no row of the
    old organization among those the schema ties to the organization (\<open>org_bound\<close>; the rows of data
    bindings, reminders and push opt-ins are not tied to it and stay as they are). The hypotheses are
    those of \<open>admissible\<close>: an absolute artifact directory, fresh random identifiers, and bundle paths
    that stay different after sanitizing. The code does not reject a bundle that breaks the last one,
    and \<open>duplicate_paths_lose_digest\<close> shows what it then publishes.
  \<^item> Queue: reachable states are well formed; leases exclude each other and are settled once; every
    transaction moves a delivery along an abstract life cycle; a recorded rate limit keeps the rows
    it covers from being claimed until it ends; a worker turn settles what it claimed, or reports a
    conflict because it lost the lease to others; the answer of the provider is what gets recorded.
  \<^item> Ledger: reachable ledgers verify; a verified ledger is determined by its head unless the MAC
    collides; receipts are finalized once; readers see exactly their tenant.
  \<^item> Access: decisions do not depend on artifacts of other organizations. An accepted bundle path
    stays below its directory, and names of bodies determine their artifacts.
  \<^item> Shares: an accepted expiry is the instant asked for and reads back; a new link grants its
    artifact until then; a revocation is exact; a link that is dead for any reason stays dead.
  \<^item> Viewer state: writes compare and set; cells are independent; limits and listings are exact.
  \<^item> Collections: names, memberships and covers are consistent in every reachable state; only the
    creator or an administrator edits; additions and removals are inverse; preferences read back.
  \<^item> JSON: objects have unique keys, and the printed order is a permutation that keeps lookups.

  \<^bold>\<open>Interfaces.\<close> \<open>concealing_gate\<close> (every access gate hides what it refuses), \<open>invariant_system\<close>
  (a step relation with an invariant; interpreted for the queue, the ledger, the artifact store, the
  viewer state, the shares and their dead links, and the collections) and \<open>lease_operation\<close> (a
  settlement fenced by the lease version; interpreted for the settlements of the worker and for the
  acceptance that the discussions record).

  \<^bold>\<open>Not modelled.\<close> HTTP and MCP surfaces, rendering, configuration, migrations other than the
  tables above, OAuth and JWT handling, the Discord gateway, previews and push: they are glue
  around third-party code. Of the modelled parts: MIME lookup and the symlink check of the paths,
  the discussion pipeline of the worker and its tables, the health figures of the outbox (status.rs), the readers
  of artifact bodies (read.rs) with the guard against stale responses (stale_guard.rs), and the
  wrappers that only move a call to a pool thread. The digest backfill is modelled without a theorem
  of its own. The stores of discussions, feedback, views, organizations and keys are not modelled;
  they would follow the pattern of viewer state, shares and collections.

  \<^bold>\<open>Limits of the model.\<close> A crash is the death of the process: every file system call that returned
  has taken effect, and the fsync barriers of durable.rs are only points where a fault may strike, so
  a loss of power that drops unflushed writes is not covered. A SQLite transaction is one atomic
  step. The retention of the ledger verifies before it opens its transaction; both are one step here.
\<close>

end
